(* ===== verification/Go_Prelude.thy ===== *)
theory Go_Prelude
  imports Complex_Main "HOL-Library.Word" "HOL-Library.Sublist"
begin

text \<open>
  What the Go sources use of the language and of its standard library, shared by every
  component: instants and durations of package \<^verbatim>\<open>time\<close>, the decimal and boolean verbs
  of \<^verbatim>\<open>fmt\<close>, \<^verbatim>\<open>float32\<close> comparisons, and error values with \<^verbatim>\<open>errors.Is\<close>. The
  named collections hold the rewrite rules the component proofs share:
  \<^item> \<open>zero_simps\<close>: zero values of Go structs;
  \<^item> \<open>validate_simps\<close>: the characterisations of the \<^verbatim>\<open>Validate\<close> methods;
  \<^item> \<open>frame_simps\<close>: the fields an operation leaves alone.
\<close>

named_theorems zero_simps "zero values of Go structs"
named_theorems validate_simps "when a Validate method returns nil"
named_theorems frame_simps "fields an operation does not write"

section \<open>Instants and durations\<close>

text \<open>
  An instant is its distance in nanoseconds from Go's zero \<^verbatim>\<open>time.Time\<close> (January 1 of
  year 1, UTC), so that the zero value is \<open>0\<close>. A \<^verbatim>\<open>time.Duration\<close> is its number of
  nanoseconds; the sources only compare durations and add them to instants, and the one
  operation that leaves the 64-bit range, \<^verbatim>\<open>Time.Sub\<close>, saturates as in Go.
  Two instants are compared as instants; the location pointer and the monotonic reading a
  Go value carries beside its instant are not part of the model.
\<close>

type_synonym time = int
type_synonym duration = int

abbreviation (input) IsZero :: "time \<Rightarrow> bool" where
  "IsZero t \<equiv> t = 0"

abbreviation (input) Before :: "time \<Rightarrow> time \<Rightarrow> bool" where
  "Before t u \<equiv> t < u"

abbreviation (input) After :: "time \<Rightarrow> time \<Rightarrow> bool" where
  "After t u \<equiv> u < t"

abbreviation (input) Add :: "time \<Rightarrow> duration \<Rightarrow> time" where
  "Add t d \<equiv> t + d"

definition maxDuration :: duration where
  "maxDuration = 2 ^ 63 - 1"

definition minDuration :: duration where
  "minDuration = - (2 ^ 63)"

definition Sub :: "time \<Rightarrow> time \<Rightarrow> duration" where
  "Sub t u = max minDuration (min maxDuration (t - u))"

definition Millisecond :: duration where
  "Millisecond = 1000000"

definition Second :: duration where
  "Second = 1000 * Millisecond"

definition Minute :: duration where
  "Minute = 60 * Second"

section \<open>Formatting\<close>

text \<open>The verbs \<^verbatim>\<open>%d\<close> and \<^verbatim>\<open>%t\<close>.\<close>

definition digit :: "int \<Rightarrow> char" where
  "digit n = char_of (48 + n)"

function digits :: "int \<Rightarrow> string" where
  "digits n = (if n < 10 then [digit n] else digits (n div 10) @ [digit (n mod 10)])"
  by pat_completeness auto
termination
  by (relation "measure nat") auto

declare digits.simps [simp del]

definition show_dec :: "int \<Rightarrow> string" where
  "show_dec n = (if n < 0 then CHR ''-'' # digits (- n) else digits n)"

definition show_bool :: "bool \<Rightarrow> string" where
  "show_bool b = (if b then ''true'' else ''false'')"

text \<open>
  \<^verbatim>\<open>t.UTC().Format(time.RFC3339Nano)\<close>: the proleptic Gregorian date of the day number,
  the time of day, and the fraction with its trailing zeros removed.
\<close>

definition pad :: "nat \<Rightarrow> int \<Rightarrow> string" where
  "pad width n = (let s = digits n in replicate (width - length s) (CHR ''0'') @ s)"

definition civil_of_days :: "int \<Rightarrow> int \<times> int \<times> int" where
  "civil_of_days days =
     (let z = days + 306;
          era = z div 146097;
          doe = z mod 146097;
          yoe = (doe - doe div 1460 + doe div 36524 - doe div 146096) div 365;
          doy = doe - (365 * yoe + yoe div 4 - yoe div 100);
          mp = (5 * doy + 2) div 153;
          d = doy - (153 * mp + 2) div 5 + 1;
          m = (if mp < 10 then mp + 3 else mp - 9);
          y = yoe + era * 400 + (if m \<le> 2 then 1 else 0)
      in (y, m, d))"

definition show_year :: "int \<Rightarrow> string" where
  "show_year y = (if y < 0 then CHR ''-'' # pad 4 (- y) else pad 4 y)"

definition show_fraction :: "int \<Rightarrow> string" where
  "show_fraction ns =
     (if ns = 0 then []
      else CHR ''.'' # rev (dropWhile (\<lambda>c. c = CHR ''0'') (rev (pad 9 ns))))"

definition RFC3339Nano :: "time \<Rightarrow> string" where
  "RFC3339Nano t =
     (let day = 86400 * 1000000000;
          (y, m, d) = civil_of_days (t div day);
          ns = t mod day;
          s = ns div 1000000000
      in show_year y @ ''-'' @ pad 2 m @ ''-'' @ pad 2 d @ ''T'' @
         pad 2 (s div 3600) @ '':'' @ pad 2 (s div 60 mod 60) @ '':'' @ pad 2 (s mod 60) @
         show_fraction (ns mod 1000000000) @ ''Z'')"

section \<open>Floating point\<close>

text \<open>
  A \<^verbatim>\<open>float32\<close> is only stored, copied and compared with \<open>0\<close> and \<open>1\<close>. Finite
  values are the rationals they denote; \<open>NaN\<close> compares false with everything, itself
  included.
\<close>

datatype float32 = NaN | PosInf | NegInf | Fin rat

fun f32_less :: "float32 \<Rightarrow> float32 \<Rightarrow> bool" where
  "f32_less NaN y = False"
| "f32_less x NaN = False"
| "f32_less PosInf y = False"
| "f32_less x NegInf = False"
| "f32_less NegInf y = True"
| "f32_less x PosInf = True"
| "f32_less (Fin a) (Fin b) = (a < b)"

definition f32_eq :: "float32 \<Rightarrow> float32 \<Rightarrow> bool" where
  "f32_eq x y = (x \<noteq> NaN \<and> x = y)"

section \<open>Lemmas on strings\<close>

lemma digit_inject:
  assumes "0 \<le> i" "i < 10" "0 \<le> j" "j < 10" "digit i = digit j"
  shows "i = j"
proof -
  from assms have "of_char (digit i) = (of_char (digit j) :: int)" by simp
  with assms show ?thesis by (simp add: digit_def)
qed

lemma digits_not_Nil [simp]: "digits n \<noteq> []" "[] \<noteq> digits n"
  by (subst digits.simps, simp)+

lemma digits_inject: "0 \<le> m \<Longrightarrow> 0 \<le> n \<Longrightarrow> digits m = digits n \<Longrightarrow> m = n"
proof (induction m arbitrary: n rule: digits.induct)
  case (1 m)
  show ?case
  proof (cases "m < 10 \<or> n < 10")
    case True
    with "1.prems" show ?thesis
      by (auto simp: digits.simps [of m] digits.simps [of n] split: if_splits
          dest: digit_inject)
  next
    case False
    with "1.prems" have dv: "digits (m div 10) = digits (n div 10)"
      and md: "digit (m mod 10) = digit (n mod 10)"
      by (auto simp: digits.simps [of m] digits.simps [of n])
    from False dv "1.prems" have "m div 10 = n div 10" by (intro "1.IH") auto
    moreover from md have "m mod 10 = n mod 10" by (intro digit_inject) auto
    ultimately show ?thesis by (metis div_mult_mod_eq)
  qed
qed

lemma show_dec_nonneg_inject:
  "0 \<le> m \<Longrightarrow> 0 \<le> n \<Longrightarrow> show_dec m = show_dec n \<longleftrightarrow> m = n"
  by (auto simp: show_dec_def dest: digits_inject)

lemma append_literal_cong: "xs @ s = ys @ t \<Longrightarrow> rev s @ rev xs = rev t @ rev ys"
  by (drule arg_cong [where f = rev]) simp

section \<open>Lemmas on results\<close>

text \<open>\<^verbatim>\<open>if err != nil { return err }\<close>.\<close>

lemma sum_case_Inr:
  "(case x of Inl e \<Rightarrow> Inl e | Inr y \<Rightarrow> f y) = Inr z \<longleftrightarrow> (\<exists>y. x = Inr y \<and> f y = Inr z)"
  by (cases x) auto

lemma sum_case_None:
  "(case x of Inl e \<Rightarrow> Some e | Inr y \<Rightarrow> f y) = None \<longleftrightarrow> (\<exists>y. x = Inr y \<and> f y = None)"
  by (cases x) auto

lemma option_case_Inr:
  "(case x of Some e \<Rightarrow> Inl e | None \<Rightarrow> r) = Inr z \<longleftrightarrow> x = None \<and> r = Inr z"
  by (cases x) auto

lemmas error_returns = sum_case_Inr sum_case_None option_case_Inr

section \<open>Lemmas on instants\<close>

lemma Sub_ge_iff:
  "minDuration < d \<Longrightarrow> d \<le> maxDuration \<Longrightarrow> d \<le> Sub t u \<longleftrightarrow> d \<le> t - u"
  by (auto simp: Sub_def)

lemma Sub_bounds: "minDuration \<le> Sub t u \<and> Sub t u \<le> maxDuration"
  by (auto simp: Sub_def minDuration_def maxDuration_def)

end
