(* ===== verification/Fault.thy ===== *)
theory Fault
  imports Go_Prelude
begin

text \<open>
  Package \<^verbatim>\<open>internal/domain/fault\<close> (\<^verbatim>\<open>error.go\<close>) and the error values of the other
  packages. An error is a tree: a categorized \<^verbatim>\<open>*fault.Error\<close> (\<open>Fault\<close>), a
  \<^verbatim>\<open>fmt.Errorf\<close> that wraps with \<^verbatim>\<open>%w\<close> (\<open>Wrapf\<close>, with the text before the colon), a
  plain \<^verbatim>\<open>errors.New\<close> or \<^verbatim>\<open>fmt.Errorf\<close> value (\<open>Leaf\<close>), the two context sentinels, and
  the value of \<^verbatim>\<open>errors.Join\<close>. A \<open>Leaf\<close> carries the source's message or format string
  as written; the arguments of the format are not rendered, since no code inspects them.
\<close>

section \<open>Definitions\<close>

datatype fault_Code =
    InvalidInput | StaleInput | Unavailable | DeadlineExceeded
  | CapabilityMissing | PolicyBlocked | PermissionDenied | AdapterRejected
  | OtherCode string

fun Code_string :: "fault_Code \<Rightarrow> string" where
  "Code_string InvalidInput = ''InvalidInput''"
| "Code_string StaleInput = ''StaleInput''"
| "Code_string Unavailable = ''Unavailable''"
| "Code_string DeadlineExceeded = ''DeadlineExceeded''"
| "Code_string CapabilityMissing = ''CapabilityMissing''"
| "Code_string PolicyBlocked = ''PolicyBlocked''"
| "Code_string PermissionDenied = ''PermissionDenied''"
| "Code_string AdapterRejected = ''AdapterRejected''"
| "Code_string (OtherCode s) = s"

datatype goerror =
    Fault fault_Code string "goerror option"
  | Wrapf string goerror
  | Leaf string
  | ContextCanceled
  | ContextDeadlineExceeded
  | Join "goerror list"

definition New_fault :: "fault_Code \<Rightarrow> string \<Rightarrow> goerror \<Rightarrow> goerror" where
  "New_fault code op err = Fault code op (Some err)"

text \<open>\<^verbatim>\<open>(*Error).Error\<close>, and the texts of the standard library's error values.\<close>

fun Error_text :: "goerror \<Rightarrow> string" where
  "Error_text (Fault code op None) = op @ '': '' @ Code_string code"
| "Error_text (Fault code op (Some err)) =
     op @ '': '' @ Code_string code @ '': '' @ Error_text err"
| "Error_text (Wrapf msg err) = msg @ '': '' @ Error_text err"
| "Error_text (Leaf msg) = msg"
| "Error_text ContextCanceled = ''context canceled''"
| "Error_text ContextDeadlineExceeded = ''context deadline exceeded''"
| "Error_text (Join []) = []"
| "Error_text (Join [err]) = Error_text err"
| "Error_text (Join (err # errs)) = Error_text err @ [CHR 0x0A] @ Error_text (Join errs)"

text \<open>
  \<^verbatim>\<open>IsCode\<close> follows the chain of single-error \<^verbatim>\<open>Unwrap\<close> methods. The value of
  \<^verbatim>\<open>errors.Join\<close> only has the method \<^verbatim>\<open>Unwrap() []error\<close>, so the loop stops there.
\<close>

fun IsCode :: "goerror \<Rightarrow> fault_Code \<Rightarrow> bool" where
  "IsCode (Fault c op None) code = (c = code)"
| "IsCode (Fault c op (Some err)) code = (c = code \<or> IsCode err code)"
| "IsCode (Wrapf msg err) code = IsCode err code"
| "IsCode (Leaf msg) code = False"
| "IsCode ContextCanceled code = False"
| "IsCode ContextDeadlineExceeded code = False"
| "IsCode (Join errs) code = False"

text \<open>
  \<^verbatim>\<open>errors.Is\<close> against one of the two context sentinels, and \<^verbatim>\<open>errors.As\<close> against
  \<^verbatim>\<open>*fault.Error\<close>: both also descend into joined errors.
\<close>

fun ErrIs :: "goerror \<Rightarrow> goerror \<Rightarrow> bool" where
  "ErrIs (Fault c op None) target = False"
| "ErrIs (Fault c op (Some err)) target = ErrIs err target"
| "ErrIs (Wrapf msg err) target = ErrIs err target"
| "ErrIs (Leaf msg) target = False"
| "ErrIs ContextCanceled target = (target = ContextCanceled)"
| "ErrIs ContextDeadlineExceeded target = (target = ContextDeadlineExceeded)"
| "ErrIs (Join []) target = False"
| "ErrIs (Join (err # errs)) target = (ErrIs err target \<or> ErrIs (Join errs) target)"

fun ErrAsFault :: "goerror \<Rightarrow> bool" where
  "ErrAsFault (Fault c op err) = True"
| "ErrAsFault (Wrapf msg err) = ErrAsFault err"
| "ErrAsFault (Leaf msg) = False"
| "ErrAsFault ContextCanceled = False"
| "ErrAsFault ContextDeadlineExceeded = False"
| "ErrAsFault (Join []) = False"
| "ErrAsFault (Join (err # errs)) = (ErrAsFault err \<or> ErrAsFault (Join errs))"

text \<open>\<^verbatim>\<open>errors.Join\<close>: nil errors are dropped, and nothing is left of only nils.\<close>

definition errors_Join :: "goerror option list \<Rightarrow> goerror option" where
  "errors_Join errs =
     (case List.map_filter id errs of [] \<Rightarrow> None | es \<Rightarrow> Some (Join es))"

text \<open>
  \<^verbatim>\<open>classifyContext\<close> of the engine, of the web avatar, of the privacy repository and of
  the speech synthesizer: a context error becomes a categorized one.
\<close>

definition classifyContext :: "string \<Rightarrow> goerror \<Rightarrow> goerror" where
  "classifyContext op err =
     (if ErrIs err ContextDeadlineExceeded then New_fault DeadlineExceeded op err
      else New_fault Unavailable op err)"

section \<open>Lemmas\<close>

lemma IsCode_New_fault [simp]:
  "IsCode (New_fault c op err) code \<longleftrightarrow> c = code \<or> IsCode err code"
  by (simp add: New_fault_def)

lemma ErrIs_New_fault [simp]: "ErrIs (New_fault c op err) target = ErrIs err target"
  by (simp add: New_fault_def)

lemma ErrAsFault_New_fault [simp]: "ErrAsFault (New_fault c op err)"
  by (simp add: New_fault_def)

lemma IsCode_classifyContext_sentinels [simp]:
  "IsCode (classifyContext op ContextDeadlineExceeded) c \<longleftrightarrow> c = DeadlineExceeded"
  "IsCode (classifyContext op ContextCanceled) c \<longleftrightarrow> c = Unavailable"
  by (auto simp: classifyContext_def)

lemma IsCode_imp_ErrAsFault: "IsCode e c \<Longrightarrow> ErrAsFault e"
  by (induction e c rule: IsCode.induct) auto

lemma errors_Join_None_iff: "errors_Join errs = None \<longleftrightarrow> set errs \<subseteq> {None}"
proof -
  have "List.map_filter id errs = [] \<longleftrightarrow> set errs \<subseteq> {None}"
    by (induction errs) (auto split: option.splits)
  then show ?thesis
    by (auto simp: errors_Join_def split: list.splits)
qed

lemma errors_Join_not_IsCode: "errors_Join errs = Some e \<Longrightarrow> \<not> IsCode e c"
  by (auto simp: errors_Join_def split: list.splits)

end
