(* ===== verification/Control.thy ===== *)
theory Control
  imports Fault
begin

text \<open>
  Package \<^verbatim>\<open>internal/domain/control\<close> (\<^verbatim>\<open>control.go\<close>): the high-priority \<^verbatim>\<open>Command\<close> and its
  validation. A typed string constant of the source is a constructor; \<open>Other\<dots>\<close> holds
  every other string.
\<close>

datatype control_Kind = StopAll | OtherControlKind string

datatype StopReason = ReasonUserRejected | ReasonShutdown | OtherStopReason string

record Command =
  ctl_ID :: string
  ctl_Kind :: control_Kind
  ctl_Reason :: StopReason
  ctl_SubjectID :: string
  ctl_OccurredAt :: time
  ctl_TraceID :: string

definition Command_Validate :: "Command \<Rightarrow> goerror option" where
  "Command_Validate c =
     (let op = ''validate control command'' in
      if ctl_ID c = [] \<or> ctl_TraceID c = [] then
        Some (New_fault InvalidInput op (Leaf ''id and trace_id are required''))
      else if ctl_Kind c \<noteq> StopAll then
        Some (New_fault InvalidInput op (Leaf ''unsupported kind %q''))
      else if ctl_Reason c \<noteq> ReasonUserRejected \<and> ctl_Reason c \<noteq> ReasonShutdown then
        Some (New_fault InvalidInput op (Leaf ''unsupported stop reason %q''))
      else if ctl_Reason c = ReasonUserRejected \<and>
              (ctl_SubjectID c = [] \<or> IsZero (ctl_OccurredAt c)) then
        Some (New_fault InvalidInput op
          (Leaf ''subject_id and occurred_at are required for user rejection''))
      else None)"

lemma Command_Validate_None [validate_simps]:
  "Command_Validate c = None \<longleftrightarrow>
     ctl_ID c \<noteq> [] \<and> ctl_TraceID c \<noteq> [] \<and> ctl_Kind c = StopAll \<and>
     (ctl_Reason c = ReasonShutdown \<or>
      ctl_Reason c = ReasonUserRejected \<and> ctl_SubjectID c \<noteq> [] \<and> ctl_OccurredAt c \<noteq> 0)"
  by (auto simp: Command_Validate_def Let_def)

lemma Command_Validate_code: "Command_Validate c = Some e \<Longrightarrow> IsCode e InvalidInput"
  by (auto simp: Command_Validate_def Let_def split: if_splits)

end
