(* ===== verification/Observation.thy ===== *)
theory Observation
  imports Fault
begin

text \<open>
  Package \<^verbatim>\<open>internal/domain/observation\<close> (\<^verbatim>\<open>observation.go\<close>): the canonical ingress value and
  its validation against the injected clock. A payload pointer is an \<open>option\<close>.
\<close>

section \<open>Definitions\<close>

record PersonPresence =
  pp_Present :: bool

type_synonym BusyReason = string

abbreviation BusyUnknown :: BusyReason where "BusyUnknown \<equiv> ''UNKNOWN''"
abbreviation BusyOnCall :: BusyReason where "BusyOnCall \<equiv> ''ON_CALL''"
abbreviation BusyFocused :: BusyReason where "BusyFocused \<equiv> ''FOCUSED''"

record UserBusy =
  ub_Busy :: bool
  ub_Reason :: BusyReason

record QuietMode =
  qm_Enabled :: bool

type_synonym UserReply = unit

record Observation =
  obs_ID :: string
  obs_SourceID :: string
  obs_SourceSeq :: "64 word"
  obs_OccurredAt :: time
  obs_TTL :: duration
  obs_SubjectID :: string
  obs_Confidence :: float32
  obs_TraceID :: string
  obs_PersonPresence :: "PersonPresence option"
  obs_UserBusy :: "UserBusy option"
  obs_QuietMode :: "QuietMode option"
  obs_UserReply :: "UserReply option"

definition payload_count :: "Observation \<Rightarrow> nat" where
  "payload_count obs =
     length (filter id [obs_PersonPresence obs \<noteq> None, obs_UserBusy obs \<noteq> None,
                        obs_QuietMode obs \<noteq> None, obs_UserReply obs \<noteq> None])"

definition Observation_ValidateAt :: "Observation \<Rightarrow> time \<Rightarrow> goerror option" where
  "Observation_ValidateAt obs now =
     (let op = ''validate observation'' in
      if obs_ID obs = [] \<or> obs_SourceID obs = [] \<or> obs_SubjectID obs = [] \<or> obs_TraceID obs = [] then
        Some (New_fault InvalidInput op
          (Leaf ''id, source_id, subject_id, and trace_id are required''))
      else if obs_SourceSeq obs = 0 then
        Some (New_fault InvalidInput op (Leaf ''source_seq must be positive''))
      else if IsZero (obs_OccurredAt obs) then
        Some (New_fault InvalidInput op (Leaf ''occurred_at is required''))
      else if obs_TTL obs \<le> 0 then
        Some (New_fault InvalidInput op (Leaf ''ttl must be positive''))
      else if f32_less (obs_Confidence obs) (Fin 0) \<or> f32_less (Fin 1) (obs_Confidence obs) then
        Some (New_fault InvalidInput op (Leaf ''confidence %.3f is outside [0,1]''))
      else if After now (Add (obs_OccurredAt obs) (obs_TTL obs)) then
        Some (New_fault StaleInput op (Leaf ''observation %s expired at %s''))
      else if payload_count obs \<noteq> 1 then
        Some (New_fault InvalidInput op (Leaf ''exactly one payload is required, got %d''))
      else if (case obs_UserBusy obs of None \<Rightarrow> False | Some b \<Rightarrow> ub_Busy b \<and> ub_Reason b = []) then
        Some (New_fault InvalidInput op (Leaf ''busy reason is required when user is busy''))
      else None)"

text \<open>
  The payload the compiler's \<^verbatim>\<open>switch\<close> selects: the first pointer that is not nil, if any.
\<close>

datatype payload = Presence bool | Busy bool BusyReason | Quiet bool | Reply

definition the_payload :: "Observation \<Rightarrow> payload option" where
  "the_payload obs =
     (case obs_PersonPresence obs of Some p \<Rightarrow> Some (Presence (pp_Present p))
      | None \<Rightarrow> (case obs_UserBusy obs of Some b \<Rightarrow> Some (Busy (ub_Busy b) (ub_Reason b))
      | None \<Rightarrow> (case obs_QuietMode obs of Some q \<Rightarrow> Some (Quiet (qm_Enabled q))
      | None \<Rightarrow> (case obs_UserReply obs of Some _ \<Rightarrow> Some Reply | None \<Rightarrow> None))))"

section \<open>Lemmas\<close>

lemma ValidateAt_None [validate_simps]:
  "Observation_ValidateAt obs now = None \<longleftrightarrow>
     obs_ID obs \<noteq> [] \<and> obs_SourceID obs \<noteq> [] \<and> obs_SubjectID obs \<noteq> [] \<and> obs_TraceID obs \<noteq> [] \<and>
     obs_SourceSeq obs \<noteq> 0 \<and> obs_OccurredAt obs \<noteq> 0 \<and> 0 < obs_TTL obs \<and>
     \<not> f32_less (obs_Confidence obs) (Fin 0) \<and> \<not> f32_less (Fin 1) (obs_Confidence obs) \<and>
     now \<le> obs_OccurredAt obs + obs_TTL obs \<and> payload_count obs = 1 \<and>
     (\<forall>b. obs_UserBusy obs = Some b \<longrightarrow> ub_Busy b \<longrightarrow> ub_Reason b \<noteq> [])"
  by (auto simp: Observation_ValidateAt_def Let_def split: option.splits)

lemma ValidateAt_StaleInput:
  "Observation_ValidateAt obs now = Some e \<Longrightarrow>
     IsCode e StaleInput \<longleftrightarrow> \<not> IsCode e InvalidInput"
  by (auto simp: Observation_ValidateAt_def Let_def split: if_splits)

lemma payload_count_1: "payload_count obs = 1 \<Longrightarrow> \<exists>p. the_payload obs = Some p"
  by (auto simp: payload_count_def the_payload_def split: if_splits option.splits)

lemma payload_exclusive:
  assumes "payload_count obs = 1"
  shows "obs_PersonPresence obs \<noteq> None \<longleftrightarrow> (\<exists>p. the_payload obs = Some (Presence p))"
    and "obs_UserBusy obs \<noteq> None \<longleftrightarrow> (\<exists>b r. the_payload obs = Some (Busy b r))"
    and "obs_QuietMode obs \<noteq> None \<longleftrightarrow> (\<exists>q. the_payload obs = Some (Quiet q))"
    and "obs_UserReply obs \<noteq> None \<longleftrightarrow> the_payload obs = Some Reply"
  using assms by (auto simp: payload_count_def the_payload_def split: if_splits option.splits)

end
