(* ===== verification/Event.thy ===== *)
theory Event
  imports Observation
begin

text \<open>
  Package \<^verbatim>\<open>internal/domain/event\<close> (\<^verbatim>\<open>event.go\<close>): semantic events, their validation, and the
  temporal \<^verbatim>\<open>Compiler\<close> that turns observations into state transitions. The compiler is
  specified against the history of observations it has seen: \<open>spec_event\<close> computes the
  event of the next observation from that history alone, and \<open>compile_refines\<close> shows that
  the incremental compiler emits exactly that event.
\<close>

section \<open>Semantic events\<close>

datatype event_Kind =
    PersonLeft | PersonDetected | PersonReturned
  | UserBecameBusy | UserBecameAvailable
  | QuietModeEnabled | QuietModeDisabled
  | UserRejected | UserReplied | ResponseWindowExpired
  | OtherEventKind string

fun Kind_string :: "event_Kind \<Rightarrow> string" where
  "Kind_string PersonLeft = ''PERSON_LEFT''"
| "Kind_string PersonDetected = ''PERSON_DETECTED''"
| "Kind_string PersonReturned = ''PERSON_RETURNED''"
| "Kind_string UserBecameBusy = ''USER_BECAME_BUSY''"
| "Kind_string UserBecameAvailable = ''USER_BECAME_AVAILABLE''"
| "Kind_string QuietModeEnabled = ''QUIET_MODE_ENABLED''"
| "Kind_string QuietModeDisabled = ''QUIET_MODE_DISABLED''"
| "Kind_string UserRejected = ''USER_REJECTED''"
| "Kind_string UserReplied = ''USER_REPLIED''"
| "Kind_string ResponseWindowExpired = ''RESPONSE_WINDOW_EXPIRED''"
| "Kind_string (OtherEventKind s) = s"

record SemanticEvent =
  evt_ID :: string
  evt_Kind :: event_Kind
  evt_SubjectID :: string
  evt_OccurredAt :: time
  evt_Confidence :: float32
  evt_TraceID :: string
  evt_SourceObservationID :: string
  evt_AbsenceDuration :: duration
  evt_BusyReason :: BusyReason
  evt_ResponseEpisodeID :: string
  evt_WakeupToken :: string

text \<open>Go's \<^verbatim>\<open>==\<close> on the struct: a NaN confidence makes a value unequal to itself.\<close>

definition SemanticEvent_eq :: "SemanticEvent \<Rightarrow> SemanticEvent \<Rightarrow> bool" where
  "SemanticEvent_eq a b = (a = b \<and> f32_eq (evt_Confidence a) (evt_Confidence b))"

definition ValidateUserRejection :: "SemanticEvent \<Rightarrow> goerror option" where
  "ValidateUserRejection e =
     (let op = ''validate user rejection event'' in
      if evt_Kind e \<noteq> UserRejected then
        Some (New_fault InvalidInput op (Leaf ''event kind %q is not USER_REJECTED''))
      else if evt_ID e = [] \<or> evt_SubjectID e = [] \<or> evt_TraceID e = [] then
        Some (New_fault InvalidInput op (Leaf ''id, subject_id, and trace_id are required''))
      else if IsZero (evt_OccurredAt e) then
        Some (New_fault InvalidInput op (Leaf ''occurred_at is required''))
      else None)"

definition ValidateUserReply :: "SemanticEvent \<Rightarrow> goerror option" where
  "ValidateUserReply e =
     (let op = ''validate user reply event'' in
      if evt_Kind e \<noteq> UserReplied then
        Some (New_fault InvalidInput op (Leaf ''event kind %q is not USER_REPLIED''))
      else if evt_ID e = [] \<or> evt_SubjectID e = [] \<or> evt_TraceID e = [] then
        Some (New_fault InvalidInput op (Leaf ''id, subject_id, and trace_id are required''))
      else if IsZero (evt_OccurredAt e) then
        Some (New_fault InvalidInput op (Leaf ''occurred_at is required''))
      else None)"

definition ValidateResponseWindowExpired :: "SemanticEvent \<Rightarrow> goerror option" where
  "ValidateResponseWindowExpired e =
     (let op = ''validate response window expired event'' in
      if evt_Kind e \<noteq> ResponseWindowExpired then
        Some (New_fault InvalidInput op (Leaf ''event kind %q is not RESPONSE_WINDOW_EXPIRED''))
      else if evt_ID e = [] \<or> evt_ResponseEpisodeID e = [] \<or> evt_WakeupToken e = [] \<or>
              evt_SubjectID e = [] \<or> evt_TraceID e = [] then
        Some (New_fault InvalidInput op
          (Leaf ''id, episode_id, wakeup_token, subject_id, and trace_id are required''))
      else if IsZero (evt_OccurredAt e) then
        Some (New_fault InvalidInput op (Leaf ''occurred_at is required''))
      else None)"

definition NewUserRejected ::
    "string \<Rightarrow> string \<Rightarrow> time \<Rightarrow> string \<Rightarrow> goerror + SemanticEvent" where
  "NewUserRejected id' subjectID occurredAt traceID =
     (let input = \<lparr>evt_ID = id', evt_Kind = UserRejected, evt_SubjectID = subjectID,
                   evt_OccurredAt = occurredAt, evt_Confidence = Fin 0, evt_TraceID = traceID,
                   evt_SourceObservationID = [], evt_AbsenceDuration = 0, evt_BusyReason = [],
                   evt_ResponseEpisodeID = [], evt_WakeupToken = []\<rparr>
      in case ValidateUserRejection input of Some err \<Rightarrow> Inl err | None \<Rightarrow> Inr input)"

definition NewResponseWindowExpired ::
    "string \<Rightarrow> string \<Rightarrow> string \<Rightarrow> string \<Rightarrow> time \<Rightarrow> string \<Rightarrow> goerror + SemanticEvent" where
  "NewResponseWindowExpired id' episodeID wakeupToken subjectID occurredAt traceID =
     (let input = \<lparr>evt_ID = id', evt_Kind = ResponseWindowExpired, evt_SubjectID = subjectID,
                   evt_OccurredAt = occurredAt, evt_Confidence = Fin 0, evt_TraceID = traceID,
                   evt_SourceObservationID = [], evt_AbsenceDuration = 0, evt_BusyReason = [],
                   evt_ResponseEpisodeID = episodeID, evt_WakeupToken = wakeupToken\<rparr>
      in case ValidateResponseWindowExpired input of Some err \<Rightarrow> Inl err | None \<Rightarrow> Inr input)"

section \<open>The compiler\<close>

record subjectTimeline =
  tl_presenceKnown :: bool
  tl_present :: bool
  tl_absentSince :: time
  tl_busyKnown :: bool
  tl_busy :: bool
  tl_quietKnown :: bool
  tl_quiet :: bool

definition zero_timeline :: subjectTimeline where
  "zero_timeline =
     \<lparr>tl_presenceKnown = False, tl_present = False, tl_absentSince = 0,
      tl_busyKnown = False, tl_busy = False, tl_quietKnown = False, tl_quiet = False\<rparr>"

record Compiler =
  cmp_returnAbsenceThreshold :: duration
  cmp_subjects :: "string \<rightharpoonup> subjectTimeline"

definition NewCompiler :: "duration \<Rightarrow> Compiler" where
  "NewCompiler threshold =
     \<lparr>cmp_returnAbsenceThreshold = threshold, cmp_subjects = Map.empty\<rparr>"

definition newEvent :: "Observation \<Rightarrow> event_Kind \<Rightarrow> SemanticEvent" where
  "newEvent input kind =
     \<lparr>evt_ID = ''evt:'' @ obs_ID input @ '':'' @ Kind_string kind,
      evt_Kind = kind,
      evt_SubjectID = obs_SubjectID input,
      evt_OccurredAt = obs_OccurredAt input,
      evt_Confidence = obs_Confidence input,
      evt_TraceID = obs_TraceID input,
      evt_SourceObservationID = obs_ID input,
      evt_AbsenceDuration = 0, evt_BusyReason = [],
      evt_ResponseEpisodeID = [], evt_WakeupToken = []\<rparr>"

definition compile_presence ::
    "duration \<Rightarrow> subjectTimeline \<Rightarrow> Observation \<Rightarrow> bool \<Rightarrow> subjectTimeline \<times> SemanticEvent option" where
  "compile_presence threshold timeline input value =
     (let (timeline1, output) =
        (if \<not> tl_presenceKnown timeline \<or> value \<noteq> tl_present timeline then
           (if \<not> value then
              (timeline\<lparr>tl_absentSince := obs_OccurredAt input\<rparr>, Some (newEvent input PersonLeft))
            else if tl_presenceKnown timeline \<and> \<not> tl_present timeline then
              (let absence = Sub (obs_OccurredAt input) (tl_absentSince timeline);
                   kind = (if absence \<ge> threshold then PersonReturned else PersonDetected)
               in (timeline, Some ((newEvent input kind)\<lparr>evt_AbsenceDuration := absence\<rparr>)))
            else (timeline, Some (newEvent input PersonDetected)))
         else (timeline, None))
      in (timeline1\<lparr>tl_presenceKnown := True, tl_present := value\<rparr>, output))"

definition compile_busy ::
    "subjectTimeline \<Rightarrow> Observation \<Rightarrow> bool \<Rightarrow> BusyReason \<Rightarrow> subjectTimeline \<times> SemanticEvent option" where
  "compile_busy timeline input value reason =
     (timeline\<lparr>tl_busyKnown := True, tl_busy := value\<rparr>,
      if \<not> tl_busyKnown timeline \<or> value \<noteq> tl_busy timeline then
        Some ((newEvent input (if value then UserBecameBusy else UserBecameAvailable))
                \<lparr>evt_BusyReason := reason\<rparr>)
      else None)"

definition compile_quiet ::
    "subjectTimeline \<Rightarrow> Observation \<Rightarrow> bool \<Rightarrow> subjectTimeline \<times> SemanticEvent option" where
  "compile_quiet timeline input value =
     (timeline\<lparr>tl_quietKnown := True, tl_quiet := value\<rparr>,
      if \<not> tl_quietKnown timeline \<or> value \<noteq> tl_quiet timeline then
        Some (newEvent input (if value then QuietModeEnabled else QuietModeDisabled))
      else None)"

definition timeline_of :: "Compiler \<Rightarrow> string \<Rightarrow> subjectTimeline" where
  "timeline_of c subject =
     (case cmp_subjects c subject of None \<Rightarrow> zero_timeline | Some t \<Rightarrow> t)"

definition Compiler_Compile :: "Compiler \<Rightarrow> Observation \<Rightarrow> SemanticEvent list \<times> Compiler" where
  "Compiler_Compile c input =
     (let timeline = timeline_of c (obs_SubjectID input);
          (timeline', output) =
            (case obs_PersonPresence input of
               Some p \<Rightarrow> compile_presence (cmp_returnAbsenceThreshold c) timeline input (pp_Present p)
             | None \<Rightarrow>
            (case obs_UserBusy input of
               Some b \<Rightarrow> compile_busy timeline input (ub_Busy b) (ub_Reason b)
             | None \<Rightarrow>
            (case obs_QuietMode input of
               Some q \<Rightarrow> compile_quiet timeline input (qm_Enabled q)
             | None \<Rightarrow>
            (case obs_UserReply input of
               Some _ \<Rightarrow> (timeline, Some (newEvent input UserReplied))
             | None \<Rightarrow> (timeline, None)))));
          c' = c\<lparr>cmp_subjects := (cmp_subjects c)(obs_SubjectID input \<mapsto> timeline')\<rparr>
      in (case output of None \<Rightarrow> [] | Some e \<Rightarrow> [e], c'))"

text \<open>Compiling a whole history, oldest observation first.\<close>

fun compile_all :: "Compiler \<Rightarrow> Observation list \<Rightarrow> Compiler" where
  "compile_all c [] = c"
| "compile_all c (x # xs) = compile_all (snd (Compiler_Compile c x)) xs"

section \<open>Specification over the history\<close>

definition presence_history :: "string \<Rightarrow> Observation list \<Rightarrow> (bool \<times> time) list" where
  "presence_history s h =
     List.map_filter (\<lambda>x. if obs_SubjectID x = s then
         (case the_payload x of Some (Presence p) \<Rightarrow> Some (p, obs_OccurredAt x) | _ \<Rightarrow> None)
       else None) h"

definition busy_history :: "string \<Rightarrow> Observation list \<Rightarrow> bool list" where
  "busy_history s h =
     List.map_filter (\<lambda>x. if obs_SubjectID x = s then
         (case the_payload x of Some (Busy b r) \<Rightarrow> Some b | _ \<Rightarrow> None) else None) h"

definition quiet_history :: "string \<Rightarrow> Observation list \<Rightarrow> bool list" where
  "quiet_history s h =
     List.map_filter (\<lambda>x. if obs_SubjectID x = s then
         (case the_payload x of Some (Quiet q) \<Rightarrow> Some q | _ \<Rightarrow> None) else None) h"

text \<open>The instant of the first absence report of the run of absences that ends a history.\<close>

definition absent_since :: "(bool \<times> time) list \<Rightarrow> time" where
  "absent_since ps = snd (last (takeWhile (\<lambda>p. \<not> fst p) (rev ps)))"

definition known_value :: "bool list \<Rightarrow> bool \<Rightarrow> bool" where
  "known_value vs v = (vs \<noteq> [] \<and> last vs = v)"

definition spec_event :: "duration \<Rightarrow> Observation list \<Rightarrow> Observation \<Rightarrow> SemanticEvent option" where
  "spec_event threshold h input =
     (let s = obs_SubjectID input; ps = presence_history s h in
      case the_payload input of
        None \<Rightarrow> None
      | Some Reply \<Rightarrow> Some (newEvent input UserReplied)
      | Some (Quiet q) \<Rightarrow>
          if known_value (quiet_history s h) q then None
          else Some (newEvent input (if q then QuietModeEnabled else QuietModeDisabled))
      | Some (Busy b r) \<Rightarrow>
          if known_value (busy_history s h) b then None
          else Some ((newEvent input (if b then UserBecameBusy else UserBecameAvailable))
                       \<lparr>evt_BusyReason := r\<rparr>)
      | Some (Presence p) \<Rightarrow>
          if known_value (map fst ps) p then None
          else if \<not> p then Some (newEvent input PersonLeft)
          else if ps = [] then Some (newEvent input PersonDetected)
          else let absence = Sub (obs_OccurredAt input) (absent_since ps)
               in Some ((newEvent input
                          (if threshold \<le> absence then PersonReturned else PersonDetected))
                          \<lparr>evt_AbsenceDuration := absence\<rparr>))"

text \<open>What the compiler's timeline of a subject remembers of the history.\<close>

definition timeline_tracks :: "subjectTimeline \<Rightarrow> string \<Rightarrow> Observation list \<Rightarrow> bool" where
  "timeline_tracks t s h =
     (let ps = presence_history s h; bs = busy_history s h; qs = quiet_history s h in
      tl_presenceKnown t = (ps \<noteq> []) \<and>
      (ps \<noteq> [] \<longrightarrow> tl_present t = fst (last ps)) \<and>
      (ps \<noteq> [] \<longrightarrow> \<not> fst (last ps) \<longrightarrow> tl_absentSince t = absent_since ps) \<and>
      tl_busyKnown t = (bs \<noteq> []) \<and> (bs \<noteq> [] \<longrightarrow> tl_busy t = last bs) \<and>
      tl_quietKnown t = (qs \<noteq> []) \<and> (qs \<noteq> [] \<longrightarrow> tl_quiet t = last qs))"

text \<open>One step of the compiler as a step on the subject's timeline.\<close>

definition step_timeline ::
    "duration \<Rightarrow> subjectTimeline \<Rightarrow> Observation \<Rightarrow> subjectTimeline \<times> SemanticEvent option" where
  "step_timeline threshold t x =
     (case the_payload x of
        Some (Presence p) \<Rightarrow> compile_presence threshold t x p
      | Some (Busy b r) \<Rightarrow> compile_busy t x b r
      | Some (Quiet q) \<Rightarrow> compile_quiet t x q
      | Some Reply \<Rightarrow> (t, Some (newEvent x UserReplied))
      | None \<Rightarrow> (t, None))"

section \<open>Lemmas on events\<close>

lemma ValidateUserRejection_None [validate_simps]:
  "ValidateUserRejection e = None \<longleftrightarrow>
     evt_Kind e = UserRejected \<and> evt_ID e \<noteq> [] \<and> evt_SubjectID e \<noteq> [] \<and> evt_TraceID e \<noteq> [] \<and>
     evt_OccurredAt e \<noteq> 0"
  by (simp add: ValidateUserRejection_def Let_def)

lemma ValidateUserReply_None [validate_simps]:
  "ValidateUserReply e = None \<longleftrightarrow>
     evt_Kind e = UserReplied \<and> evt_ID e \<noteq> [] \<and> evt_SubjectID e \<noteq> [] \<and> evt_TraceID e \<noteq> [] \<and>
     evt_OccurredAt e \<noteq> 0"
  by (simp add: ValidateUserReply_def Let_def)

lemma ValidateResponseWindowExpired_None [validate_simps]:
  "ValidateResponseWindowExpired e = None \<longleftrightarrow>
     evt_Kind e = ResponseWindowExpired \<and> evt_ID e \<noteq> [] \<and> evt_ResponseEpisodeID e \<noteq> [] \<and>
     evt_WakeupToken e \<noteq> [] \<and> evt_SubjectID e \<noteq> [] \<and> evt_TraceID e \<noteq> [] \<and> evt_OccurredAt e \<noteq> 0"
  by (simp add: ValidateResponseWindowExpired_def Let_def)

lemma newEvent_sel [simp]:
  "evt_ID (newEvent x k) = ''evt:'' @ obs_ID x @ '':'' @ Kind_string k"
  "evt_Kind (newEvent x k) = k"
  "evt_SubjectID (newEvent x k) = obs_SubjectID x"
  "evt_OccurredAt (newEvent x k) = obs_OccurredAt x"
  "evt_Confidence (newEvent x k) = obs_Confidence x"
  "evt_TraceID (newEvent x k) = obs_TraceID x"
  "evt_SourceObservationID (newEvent x k) = obs_ID x"
  "evt_AbsenceDuration (newEvent x k) = 0"
  "evt_BusyReason (newEvent x k) = []"
  by (simp_all add: newEvent_def)

lemma NewUserRejected_Inr:
  "NewUserRejected i s t tr = Inr e \<longleftrightarrow>
     i \<noteq> [] \<and> s \<noteq> [] \<and> tr \<noteq> [] \<and> t \<noteq> 0 \<and>
     e = \<lparr>evt_ID = i, evt_Kind = UserRejected, evt_SubjectID = s,
          evt_OccurredAt = t, evt_Confidence = Fin 0, evt_TraceID = tr,
          evt_SourceObservationID = [], evt_AbsenceDuration = 0, evt_BusyReason = [],
          evt_ResponseEpisodeID = [], evt_WakeupToken = []\<rparr>"
  by (auto simp: NewUserRejected_def ValidateUserRejection_def Let_def split: option.splits if_splits)

lemma NewResponseWindowExpired_Inr:
  "NewResponseWindowExpired i ep tok s t tr = Inr e \<longleftrightarrow>
     i \<noteq> [] \<and> ep \<noteq> [] \<and> tok \<noteq> [] \<and> s \<noteq> [] \<and> tr \<noteq> [] \<and> t \<noteq> 0 \<and>
     e = \<lparr>evt_ID = i, evt_Kind = ResponseWindowExpired, evt_SubjectID = s,
          evt_OccurredAt = t, evt_Confidence = Fin 0, evt_TraceID = tr,
          evt_SourceObservationID = [], evt_AbsenceDuration = 0, evt_BusyReason = [],
          evt_ResponseEpisodeID = ep, evt_WakeupToken = tok\<rparr>"
  by (auto simp: NewResponseWindowExpired_def ValidateResponseWindowExpired_def Let_def
      split: option.splits if_splits)

section \<open>Lemmas on the compiler\<close>

lemma NewCompiler_sel [simp]:
  "cmp_returnAbsenceThreshold (NewCompiler d) = d"
  "timeline_of (NewCompiler d) s = zero_timeline"
  by (simp_all add: NewCompiler_def timeline_of_def)

lemma Compile_threshold [simp]:
  "cmp_returnAbsenceThreshold (snd (Compiler_Compile c x)) = cmp_returnAbsenceThreshold c"
  by (simp add: Compiler_Compile_def Let_def split: prod.splits)

lemma compile_all_threshold [simp]:
  "cmp_returnAbsenceThreshold (compile_all c xs) = cmp_returnAbsenceThreshold c"
  by (induction xs arbitrary: c) simp_all

lemma compile_all_snoc:
  "compile_all c (xs @ [x]) = snd (Compiler_Compile (compile_all c xs) x)"
  by (induction xs arbitrary: c) simp_all

lemma Compile_step:
  "Compiler_Compile c x =
     (let (t', out) = step_timeline (cmp_returnAbsenceThreshold c) (timeline_of c (obs_SubjectID x)) x
      in (case out of None \<Rightarrow> [] | Some e \<Rightarrow> [e],
          c\<lparr>cmp_subjects := (cmp_subjects c)(obs_SubjectID x \<mapsto> t')\<rparr>))"
  by (simp add: Compiler_Compile_def step_timeline_def the_payload_def Let_def split: option.splits)

lemma timeline_of_Compile:
  "timeline_of (snd (Compiler_Compile c x)) s =
     (if s = obs_SubjectID x
      then fst (step_timeline (cmp_returnAbsenceThreshold c) (timeline_of c s) x)
      else timeline_of c s)"
  by (auto simp: Compile_step timeline_of_def Let_def split: prod.splits)

lemma history_snoc:
  "presence_history s (h @ [x]) = presence_history s h @
     (if obs_SubjectID x = s then
        (case the_payload x of Some (Presence p) \<Rightarrow> [(p, obs_OccurredAt x)] | _ \<Rightarrow> []) else [])"
  "busy_history s (h @ [x]) = busy_history s h @
     (if obs_SubjectID x = s then (case the_payload x of Some (Busy b r) \<Rightarrow> [b] | _ \<Rightarrow> []) else [])"
  "quiet_history s (h @ [x]) = quiet_history s h @
     (if obs_SubjectID x = s then (case the_payload x of Some (Quiet q) \<Rightarrow> [q] | _ \<Rightarrow> []) else [])"
  by (auto simp: presence_history_def busy_history_def quiet_history_def List.map_filter_def
      split: option.splits payload.splits)

lemma absent_since_snoc:
  "absent_since (ps @ [(False, t)]) =
     (if ps \<noteq> [] \<and> \<not> fst (last ps) then absent_since ps else t)"
  by (cases ps rule: rev_cases) (auto simp: absent_since_def)

lemma timeline_tracks_zero: "timeline_tracks zero_timeline s []"
  by (simp add: timeline_tracks_def zero_timeline_def presence_history_def busy_history_def
      quiet_history_def)

lemma timeline_tracks_other:
  "obs_SubjectID x \<noteq> s \<Longrightarrow> timeline_tracks t s (h @ [x]) = timeline_tracks t s h"
  by (simp add: timeline_tracks_def history_snoc)

lemma timeline_tracks_step:
  assumes "timeline_tracks t (obs_SubjectID x) h"
  shows "timeline_tracks (fst (step_timeline d t x)) (obs_SubjectID x) (h @ [x])"
proof (cases "the_payload x")
  case None
  with assms show ?thesis
    by (simp add: timeline_tracks_def history_snoc step_timeline_def)
next
  case (Some p)
  with assms show ?thesis
    by (cases p) (auto simp: timeline_tracks_def history_snoc step_timeline_def compile_presence_def
        compile_busy_def compile_quiet_def absent_since_snoc Let_def split: if_splits)
qed

lemma compile_all_tracks:
  "timeline_tracks (timeline_of (compile_all (NewCompiler d) h) s) s h"
proof (induction h rule: rev_induct)
  case Nil
  show ?case by (simp add: timeline_tracks_zero)
next
  case (snoc x h)
  then show ?case
    by (cases "s = obs_SubjectID x")
      (simp_all add: compile_all_snoc timeline_of_Compile timeline_tracks_step
        timeline_tracks_other)
qed

lemma step_timeline_spec:
  assumes "timeline_tracks t (obs_SubjectID x) h"
  shows "snd (step_timeline d t x) = spec_event d h x"
proof (cases "the_payload x")
  case None
  then show ?thesis by (simp add: spec_event_def step_timeline_def)
next
  case (Some p)
  with assms show ?thesis
    by (cases p) (auto simp: timeline_tracks_def spec_event_def step_timeline_def
        compile_presence_def compile_busy_def compile_quiet_def known_value_def
        last_map Let_def split: if_splits)
qed

section \<open>Properties\<close>

text \<open>C36. The temporal compiler refines its specification over the history: after compiling
  any history from a fresh compiler, the next observation yields exactly the event that
  \<open>spec_event\<close> computes from the raw history (no event when the value is already known;
  a return only when the subject was last reported absent and the time since the start of
  that run of absences reaches the threshold).\<close>

theorem compile_refines:
  "fst (Compiler_Compile (compile_all (NewCompiler d) h) x) =
     (case spec_event d h x of None \<Rightarrow> [] | Some e \<Rightarrow> [e])"
  using step_timeline_spec [OF compile_all_tracks [of d h "obs_SubjectID x"], of d]
  by (simp add: Compile_step Let_def case_prod_beta)

end
