(* ===== verification/World_State.thy ===== *)
theory World_State
  imports Event
begin

text \<open>
  Package \<^verbatim>\<open>internal/domain/state\<close> (\<^verbatim>\<open>state.go\<close>): the world snapshot and the projector that
  is its single writer. \<^verbatim>\<open>Version\<close> is a \<^verbatim>\<open>uint64\<close> and wraps.
\<close>

section \<open>Definitions\<close>

record WorldSnapshot =
  snap_SubjectID :: string
  snap_Version :: "64 word"
  snap_UpdatedAt :: time
  snap_PersonPresent :: bool
  snap_UserBusy :: bool
  snap_BusyReason :: BusyReason
  snap_QuietMode :: bool
  snap_RejectionCooldownStartedAt :: time
  snap_RejectionCooldownUntil :: time
  snap_NoResponseCooldownStartedAt :: time
  snap_NoResponseCooldownUntil :: time
  snap_LastReturnedAt :: time

record Projector =
  prj_snapshot :: WorldSnapshot

definition NewProjector :: "string \<Rightarrow> Projector" where
  "NewProjector subjectID =
     \<lparr>prj_snapshot =
        \<lparr>snap_SubjectID = subjectID, snap_Version = 0, snap_UpdatedAt = 0,
         snap_PersonPresent = False, snap_UserBusy = False, snap_BusyReason = [],
         snap_QuietMode = False,
         snap_RejectionCooldownStartedAt = 0, snap_RejectionCooldownUntil = 0,
         snap_NoResponseCooldownStartedAt = 0, snap_NoResponseCooldownUntil = 0,
         snap_LastReturnedAt = 0\<rparr>\<rparr>"

fun apply_kind :: "event_Kind \<Rightarrow> SemanticEvent \<Rightarrow> WorldSnapshot \<Rightarrow> WorldSnapshot" where
  "apply_kind PersonLeft input s = s\<lparr>snap_PersonPresent := False\<rparr>"
| "apply_kind PersonDetected input s = s\<lparr>snap_PersonPresent := True\<rparr>"
| "apply_kind PersonReturned input s =
     s\<lparr>snap_PersonPresent := True, snap_LastReturnedAt := evt_OccurredAt input\<rparr>"
| "apply_kind UserBecameBusy input s =
     s\<lparr>snap_UserBusy := True, snap_BusyReason := evt_BusyReason input\<rparr>"
| "apply_kind UserBecameAvailable input s = s\<lparr>snap_UserBusy := False, snap_BusyReason := []\<rparr>"
| "apply_kind QuietModeEnabled input s = s\<lparr>snap_QuietMode := True\<rparr>"
| "apply_kind QuietModeDisabled input s = s\<lparr>snap_QuietMode := False\<rparr>"
| "apply_kind _ input s = s"

definition Projector_Apply :: "Projector \<Rightarrow> SemanticEvent \<Rightarrow> WorldSnapshot \<times> Projector" where
  "Projector_Apply p input =
     (let s = prj_snapshot p in
      if evt_SubjectID input \<noteq> snap_SubjectID s then (s, p)
      else
        let s1 = apply_kind (evt_Kind input) input s;
            s2 = s1\<lparr>snap_Version := snap_Version s1 + 1, snap_UpdatedAt := evt_OccurredAt input\<rparr>
        in (s2, p\<lparr>prj_snapshot := s2\<rparr>))"

definition Projector_Snapshot :: "Projector \<Rightarrow> WorldSnapshot" where
  "Projector_Snapshot p = prj_snapshot p"

definition ApplyUserRejection ::
    "Projector \<Rightarrow> SemanticEvent \<Rightarrow> duration \<Rightarrow> (WorldSnapshot \<times> goerror option) \<times> Projector" where
  "ApplyUserRejection p input cooldown =
     (let s = prj_snapshot p in
      case ValidateUserRejection input of
        Some err \<Rightarrow> ((s, Some err), p)
      | None \<Rightarrow>
          if cooldown \<le> 0 then
            ((s, Some (New_fault InvalidInput ''project user rejection''
                        (Leaf ''cooldown must be positive''))), p)
          else if evt_SubjectID input \<noteq> snap_SubjectID s then ((s, None), p)
          else if \<not> IsZero (snap_RejectionCooldownStartedAt s) \<and>
                  Before (evt_OccurredAt input) (snap_RejectionCooldownStartedAt s) then
            ((s, None), p)
          else
            let s' = s\<lparr>snap_RejectionCooldownStartedAt := evt_OccurredAt input,
                       snap_RejectionCooldownUntil := Add (evt_OccurredAt input) cooldown,
                       snap_Version := snap_Version s + 1,
                       snap_UpdatedAt := evt_OccurredAt input\<rparr>
            in ((s', None), p\<lparr>prj_snapshot := s'\<rparr>))"

definition ApplyNoResponse ::
    "Projector \<Rightarrow> SemanticEvent \<Rightarrow> duration \<Rightarrow> (WorldSnapshot \<times> goerror option) \<times> Projector" where
  "ApplyNoResponse p input cooldown =
     (let s = prj_snapshot p in
      case ValidateResponseWindowExpired input of
        Some err \<Rightarrow> ((s, Some err), p)
      | None \<Rightarrow>
          if cooldown \<le> 0 then
            ((s, Some (New_fault InvalidInput ''project no response''
                        (Leaf ''cooldown must be positive''))), p)
          else if evt_SubjectID input \<noteq> snap_SubjectID s then ((s, None), p)
          else if \<not> IsZero (snap_NoResponseCooldownStartedAt s) \<and>
                  Before (evt_OccurredAt input) (snap_NoResponseCooldownStartedAt s) then
            ((s, None), p)
          else
            let s' = s\<lparr>snap_NoResponseCooldownStartedAt := evt_OccurredAt input,
                       snap_NoResponseCooldownUntil := Add (evt_OccurredAt input) cooldown,
                       snap_Version := snap_Version s + 1,
                       snap_UpdatedAt := evt_OccurredAt input\<rparr>
            in ((s', None), p\<lparr>prj_snapshot := s'\<rparr>))"

text \<open>
  A cooldown is either unset or an interval of positive length; the start times never move
  backwards.
\<close>

definition cooldown_ok :: "time \<Rightarrow> time \<Rightarrow> bool" where
  "cooldown_ok started until' = (if started = 0 then until' = 0 else started < until')"

definition snapshot_ok :: "WorldSnapshot \<Rightarrow> bool" where
  "snapshot_ok s =
     (cooldown_ok (snap_RejectionCooldownStartedAt s) (snap_RejectionCooldownUntil s) \<and>
      cooldown_ok (snap_NoResponseCooldownStartedAt s) (snap_NoResponseCooldownUntil s))"

section \<open>Lemmas\<close>

lemma NewProjector_sel [simp]:
  "snap_SubjectID (prj_snapshot (NewProjector s)) = s"
  "snap_RejectionCooldownStartedAt (prj_snapshot (NewProjector s)) = 0"
  "snap_NoResponseCooldownStartedAt (prj_snapshot (NewProjector s)) = 0"
  by (simp_all add: NewProjector_def)

lemma snapshot_ok_NewProjector: "snapshot_ok (prj_snapshot (NewProjector s))"
  by (simp add: NewProjector_def snapshot_ok_def cooldown_ok_def)

lemma apply_kind_frame [simp]:
  "snap_SubjectID (apply_kind k input s) = snap_SubjectID s"
  "snap_Version (apply_kind k input s) = snap_Version s"
  "snap_RejectionCooldownStartedAt (apply_kind k input s) = snap_RejectionCooldownStartedAt s"
  "snap_RejectionCooldownUntil (apply_kind k input s) = snap_RejectionCooldownUntil s"
  "snap_NoResponseCooldownStartedAt (apply_kind k input s) = snap_NoResponseCooldownStartedAt s"
  "snap_NoResponseCooldownUntil (apply_kind k input s) = snap_NoResponseCooldownUntil s"
  by (cases k; simp)+

lemma Projector_Apply_snapshot: "fst (Projector_Apply p x) = prj_snapshot (snd (Projector_Apply p x))"
  by (simp add: Projector_Apply_def Let_def)

lemma Projector_Apply_frame [frame_simps]:
  "snap_SubjectID (prj_snapshot (snd (Projector_Apply p x))) = snap_SubjectID (prj_snapshot p)"
  "snap_RejectionCooldownStartedAt (prj_snapshot (snd (Projector_Apply p x))) =
     snap_RejectionCooldownStartedAt (prj_snapshot p)"
  "snap_RejectionCooldownUntil (prj_snapshot (snd (Projector_Apply p x))) =
     snap_RejectionCooldownUntil (prj_snapshot p)"
  "snap_NoResponseCooldownStartedAt (prj_snapshot (snd (Projector_Apply p x))) =
     snap_NoResponseCooldownStartedAt (prj_snapshot p)"
  "snap_NoResponseCooldownUntil (prj_snapshot (snd (Projector_Apply p x))) =
     snap_NoResponseCooldownUntil (prj_snapshot p)"
  by (simp_all add: Projector_Apply_def Let_def)

lemma ApplyUserRejection_frame [frame_simps]:
  "snap_SubjectID (prj_snapshot (snd (ApplyUserRejection p x d))) = snap_SubjectID (prj_snapshot p)"
  "snap_PersonPresent (prj_snapshot (snd (ApplyUserRejection p x d))) = snap_PersonPresent (prj_snapshot p)"
  "snap_UserBusy (prj_snapshot (snd (ApplyUserRejection p x d))) = snap_UserBusy (prj_snapshot p)"
  "snap_QuietMode (prj_snapshot (snd (ApplyUserRejection p x d))) = snap_QuietMode (prj_snapshot p)"
  "snap_NoResponseCooldownStartedAt (prj_snapshot (snd (ApplyUserRejection p x d))) =
     snap_NoResponseCooldownStartedAt (prj_snapshot p)"
  "snap_NoResponseCooldownUntil (prj_snapshot (snd (ApplyUserRejection p x d))) =
     snap_NoResponseCooldownUntil (prj_snapshot p)"
  by (simp_all add: ApplyUserRejection_def Let_def split: option.splits)

lemma ApplyNoResponse_frame [frame_simps]:
  "snap_SubjectID (prj_snapshot (snd (ApplyNoResponse p x d))) = snap_SubjectID (prj_snapshot p)"
  "snap_PersonPresent (prj_snapshot (snd (ApplyNoResponse p x d))) = snap_PersonPresent (prj_snapshot p)"
  "snap_UserBusy (prj_snapshot (snd (ApplyNoResponse p x d))) = snap_UserBusy (prj_snapshot p)"
  "snap_QuietMode (prj_snapshot (snd (ApplyNoResponse p x d))) = snap_QuietMode (prj_snapshot p)"
  "snap_RejectionCooldownStartedAt (prj_snapshot (snd (ApplyNoResponse p x d))) =
     snap_RejectionCooldownStartedAt (prj_snapshot p)"
  "snap_RejectionCooldownUntil (prj_snapshot (snd (ApplyNoResponse p x d))) =
     snap_RejectionCooldownUntil (prj_snapshot p)"
  by (simp_all add: ApplyNoResponse_def Let_def split: option.splits)

lemma snapshot_ok_Apply:
  "snapshot_ok (prj_snapshot p) \<Longrightarrow> snapshot_ok (prj_snapshot (snd (Projector_Apply p x)))"
  by (simp add: snapshot_ok_def frame_simps)

lemma snapshot_ok_ApplyUserRejection:
  "snapshot_ok (prj_snapshot p) \<Longrightarrow> snapshot_ok (prj_snapshot (snd (ApplyUserRejection p x d)))"
  by (auto simp: snapshot_ok_def cooldown_ok_def ApplyUserRejection_def Let_def validate_simps
      split: option.splits)

lemma snapshot_ok_ApplyNoResponse:
  "snapshot_ok (prj_snapshot p) \<Longrightarrow> snapshot_ok (prj_snapshot (snd (ApplyNoResponse p x d)))"
  by (auto simp: snapshot_ok_def cooldown_ok_def ApplyNoResponse_def Let_def validate_simps
      split: option.splits)

text \<open>
  The rejection cooldown after a valid rejection of the projector's own subject starts at
  the rejection, unless a later rejection was projected before.
\<close>

lemma ApplyUserRejection_ok:
  assumes "ValidateUserRejection x = None" "0 < d"
  shows "snd (fst (ApplyUserRejection p x d)) = None"
  using assms by (simp add: ApplyUserRejection_def Let_def)

lemma ApplyNoResponse_ok:
  assumes "ValidateResponseWindowExpired x = None" "0 < d"
  shows "snd (fst (ApplyNoResponse p x d)) = None"
  using assms by (simp add: ApplyNoResponse_def Let_def)

lemma ApplyUserRejection_started:
  assumes "ValidateUserRejection x = None" "0 < d"
    and "evt_SubjectID x = snap_SubjectID (prj_snapshot p)"
  shows "(let s = prj_snapshot p; s' = prj_snapshot (snd (ApplyUserRejection p x d)) in
     if snap_RejectionCooldownStartedAt s \<noteq> 0 \<and> evt_OccurredAt x < snap_RejectionCooldownStartedAt s
     then s' = s
     else snap_RejectionCooldownStartedAt s' = evt_OccurredAt x \<and>
          snap_RejectionCooldownUntil s' = evt_OccurredAt x + d)"
  using assms by (auto simp: ApplyUserRejection_def Let_def)

lemma ApplyNoResponse_started:
  assumes "ValidateResponseWindowExpired x = None" "0 < d"
    and "evt_SubjectID x = snap_SubjectID (prj_snapshot p)"
  shows "(let s = prj_snapshot p; s' = prj_snapshot (snd (ApplyNoResponse p x d)) in
     if snap_NoResponseCooldownStartedAt s \<noteq> 0 \<and> evt_OccurredAt x < snap_NoResponseCooldownStartedAt s
     then s' = s
     else snap_NoResponseCooldownStartedAt s' = evt_OccurredAt x \<and>
          snap_NoResponseCooldownUntil s' = evt_OccurredAt x + d)"
  using assms by (auto simp: ApplyNoResponse_def Let_def)

end
