(* ===== verification/Decision.thy ===== *)
theory Decision
  imports World_State
begin

text \<open>
  Package \<^verbatim>\<open>internal/domain/decision\<close> (\<^verbatim>\<open>decision.go\<close>): opportunity detection, the hard guards,
  the deterministic rule policy and the validation pipeline. The policy interface is the
  locale \<open>decision_policy\<close>, interpreted by \<^verbatim>\<open>RulePolicy\<close>.
\<close>

section \<open>Definitions\<close>

datatype OpportunityKind = WelcomeAfterReturn | OtherOpportunityKind string

record Opportunity =
  opp_Kind :: OpportunityKind
  opp_EventID :: string

datatype decision_Kind = Silent | GreetShort | OtherDecisionKind string

datatype Style = StyleNone | StyleWarm | OtherStyle string

datatype ReasonCode =
    ReasonLongAbsence | ReasonUserAttending | ReasonNoRecentReject
  | ReasonQuietMode | ReasonUserOnCall | ReasonUserBusy
  | ReasonRecentRejection | ReasonRecentNoResponse
  | OtherReasonCode string

record Decision =
  dec_ID :: string
  dec_InteractionID :: string
  dec_Kind :: decision_Kind
  dec_Style :: Style
  dec_ReasonCodes :: "ReasonCode list"
  dec_EventID :: string
  dec_TraceID :: string
  dec_PolicyVersion :: string
  dec_BehaviorVersion :: string
  dec_ConfigHash :: string
  dec_SnapshotHash :: string
  dec_ModelVersion :: string
  dec_RandomSeed :: int

record decision_Input =
  in_Snapshot :: WorldSnapshot
  in_Opportunity :: Opportunity
  in_Event :: SemanticEvent
  in_ConfigHash :: string

record RulePolicy =
  pol_Version :: string
  pol_BehaviorVersion :: string
  pol_RandomSeed :: int

definition hardGuard :: "WorldSnapshot \<Rightarrow> time \<Rightarrow> ReasonCode list" where
  "hardGuard snapshot eventTime =
     (if snap_QuietMode snapshot then [ReasonQuietMode]
      else if snap_UserBusy snapshot then
        (if snap_BusyReason snapshot = ''ON_CALL'' then [ReasonUserOnCall] else [ReasonUserBusy])
      else if \<not> IsZero (snap_RejectionCooldownStartedAt snapshot) \<and>
              After (snap_RejectionCooldownUntil snapshot) (snap_RejectionCooldownStartedAt snapshot) \<and>
              \<not> Before eventTime (snap_RejectionCooldownStartedAt snapshot) \<and>
              Before eventTime (snap_RejectionCooldownUntil snapshot) then
        [ReasonRecentRejection]
      else if \<not> IsZero (snap_NoResponseCooldownStartedAt snapshot) \<and>
              After (snap_NoResponseCooldownUntil snapshot) (snap_NoResponseCooldownStartedAt snapshot) \<and>
              \<not> Before eventTime (snap_NoResponseCooldownStartedAt snapshot) \<and>
              Before eventTime (snap_NoResponseCooldownUntil snapshot) then
        [ReasonRecentNoResponse]
      else [])"

definition SnapshotHash :: "WorldSnapshot \<Rightarrow> string" where
  "SnapshotHash s =
     ''subject='' @ snap_SubjectID s @
     '';version='' @ show_dec (uint (snap_Version s)) @
     '';present='' @ show_bool (snap_PersonPresent s) @
     '';busy='' @ show_bool (snap_UserBusy s) @
     '';busy_reason='' @ snap_BusyReason s @
     '';quiet='' @ show_bool (snap_QuietMode s) @
     '';rejection_started_at='' @ RFC3339Nano (snap_RejectionCooldownStartedAt s) @
     '';rejection_until='' @ RFC3339Nano (snap_RejectionCooldownUntil s) @
     '';no_response_started_at='' @ RFC3339Nano (snap_NoResponseCooldownStartedAt s) @
     '';no_response_until='' @ RFC3339Nano (snap_NoResponseCooldownUntil s)"

definition RulePolicy_Decide :: "RulePolicy \<Rightarrow> decision_Input \<Rightarrow> Decision" where
  "RulePolicy_Decide p input =
     (let base =
        \<lparr>dec_ID = ''decision:'' @ evt_ID (in_Event input),
         dec_InteractionID = ''interaction:'' @ evt_ID (in_Event input),
         dec_Kind = OtherDecisionKind [], dec_Style = OtherStyle [], dec_ReasonCodes = [],
         dec_EventID = evt_ID (in_Event input),
         dec_TraceID = evt_TraceID (in_Event input),
         dec_PolicyVersion = pol_Version p,
         dec_BehaviorVersion = pol_BehaviorVersion p,
         dec_ConfigHash = in_ConfigHash input,
         dec_SnapshotHash = SnapshotHash (in_Snapshot input),
         dec_ModelVersion = ''none'',
         dec_RandomSeed = pol_RandomSeed p\<rparr>;
        reasons = hardGuard (in_Snapshot input) (evt_OccurredAt (in_Event input))
      in if reasons \<noteq> [] then
           base\<lparr>dec_Kind := Silent, dec_Style := StyleNone, dec_ReasonCodes := reasons\<rparr>
         else
           base\<lparr>dec_Kind := GreetShort, dec_Style := StyleWarm,
                dec_ReasonCodes := [ReasonLongAbsence, ReasonUserAttending, ReasonNoRecentReject]\<rparr>)"

definition DetectOpportunity :: "SemanticEvent \<Rightarrow> Opportunity option" where
  "DetectOpportunity input =
     (if evt_Kind input \<noteq> PersonReturned then None
      else Some \<lparr>opp_Kind = WelcomeAfterReturn, opp_EventID = evt_ID input\<rparr>)"

definition Decision_Validate :: "Decision \<Rightarrow> goerror option" where
  "Decision_Validate input =
     (if dec_ID input = [] \<or> dec_EventID input = [] \<or> dec_InteractionID input = [] \<or>
         dec_TraceID input = [] then
        Some (Leaf ''decision identity and correlation fields are required'')
      else if dec_Kind input \<noteq> Silent \<and> dec_Kind input \<noteq> GreetShort then
        Some (Leaf ''unsupported decision kind %q'')
      else if dec_ReasonCodes input = [] then
        Some (Leaf ''reason codes are required'')
      else if dec_Kind input = Silent \<and> dec_Style input \<noteq> StyleNone then
        Some (Leaf ''silent decision must not specify an expressive style'')
      else None)"

definition decision_Evaluate ::
    "(decision_Input \<Rightarrow> Decision) \<Rightarrow> WorldSnapshot \<Rightarrow> SemanticEvent \<Rightarrow> string \<Rightarrow>
     goerror + Decision option" where
  "decision_Evaluate decide snapshot input configHash =
     (case DetectOpportunity input of
        None \<Rightarrow> Inr None
      | Some opportunity \<Rightarrow>
          let result = decide \<lparr>in_Snapshot = snapshot, in_Opportunity = opportunity,
                               in_Event = input, in_ConfigHash = configHash\<rparr>
          in (case Decision_Validate result of
                Some err \<Rightarrow> Inl (Wrapf (''validate decision '' @ dec_ID result) err)
              | None \<Rightarrow> Inr (Some result)))"

text \<open>The instants at which a cooldown suppresses a greeting.\<close>

definition in_cooldown :: "time \<Rightarrow> time \<Rightarrow> time \<Rightarrow> bool" where
  "in_cooldown started until' t = (started \<noteq> 0 \<and> started \<le> t \<and> t < until')"

definition suppressed :: "WorldSnapshot \<Rightarrow> time \<Rightarrow> bool" where
  "suppressed s t =
     (snap_QuietMode s \<or> snap_UserBusy s \<or>
      in_cooldown (snap_RejectionCooldownStartedAt s) (snap_RejectionCooldownUntil s) t \<or>
      in_cooldown (snap_NoResponseCooldownStartedAt s) (snap_NoResponseCooldownUntil s) t)"

section \<open>The policy interface\<close>

text \<open>
  \<^verbatim>\<open>decision.Policy\<close>: what the pipeline and the engine rely on. A decision is correlated
  with its event, is one of the two supported kinds, carries reasons, and is silent exactly
  when a hard guard fires.
\<close>

locale decision_policy =
  fixes decide :: "decision_Input \<Rightarrow> Decision"
  assumes decide_ID: "dec_ID (decide i) = ''decision:'' @ evt_ID (in_Event i)"
    and decide_InteractionID: "dec_InteractionID (decide i) = ''interaction:'' @ evt_ID (in_Event i)"
    and decide_EventID: "dec_EventID (decide i) = evt_ID (in_Event i)"
    and decide_TraceID: "dec_TraceID (decide i) = evt_TraceID (in_Event i)"
    and decide_ConfigHash: "dec_ConfigHash (decide i) = in_ConfigHash i"
    and decide_reasons: "dec_ReasonCodes (decide i) \<noteq> []"
    and decide_kind: "dec_Kind (decide i) =
      (if suppressed (in_Snapshot i) (evt_OccurredAt (in_Event i)) then Silent else GreetShort)"
    and decide_style: "dec_Kind (decide i) = Silent \<Longrightarrow> dec_Style (decide i) = StyleNone"
begin

lemmas decide_simps =
  decide_ID decide_InteractionID decide_EventID decide_TraceID decide_ConfigHash decide_kind

lemma Validate_decide:
  "evt_ID (in_Event i) \<noteq> [] \<Longrightarrow> evt_TraceID (in_Event i) \<noteq> [] \<Longrightarrow> Decision_Validate (decide i) = None"
  using decide_style [of i] decide_reasons [of i]
  by (auto simp: Decision_Validate_def decide_simps)

text \<open>On an identified event the pipeline never fails and never hits an unsupported kind.\<close>

lemma Evaluate_total:
  assumes "evt_ID e \<noteq> []" "evt_TraceID e \<noteq> []"
  shows "decision_Evaluate decide s e h =
    Inr (if evt_Kind e = PersonReturned
         then Some (decide \<lparr>in_Snapshot = s,
                 in_Opportunity = \<lparr>opp_Kind = WelcomeAfterReturn, opp_EventID = evt_ID e\<rparr>,
                 in_Event = e, in_ConfigHash = h\<rparr>)
         else None)"
  using assms
  by (simp add: decision_Evaluate_def DetectOpportunity_def Validate_decide Let_def)

lemma Evaluate_Some:
  assumes "decision_Evaluate decide s e h = Inr (Some d)"
  shows "evt_Kind e = PersonReturned \<and> dec_ID d = ''decision:'' @ evt_ID e \<and>
    dec_InteractionID d = ''interaction:'' @ evt_ID e \<and> dec_EventID d = evt_ID e \<and>
    dec_TraceID d = evt_TraceID e \<and> dec_ConfigHash d = h \<and>
    dec_Kind d = (if suppressed s (evt_OccurredAt e) then Silent else GreetShort)"
  using assms
  by (auto simp: decision_Evaluate_def DetectOpportunity_def Let_def decide_simps
      split: if_splits option.splits)

end

section \<open>RulePolicy provides the interface\<close>

lemma hardGuard_suppressed: "hardGuard s t \<noteq> [] \<longleftrightarrow> suppressed s t"
  by (auto simp: hardGuard_def suppressed_def in_cooldown_def)

interpretation rule_policy: decision_policy "RulePolicy_Decide p" for p
  by unfold_locales (auto simp: RulePolicy_Decide_def Let_def hardGuard_suppressed [symmetric])

end
