(* ===== verification/Behavior.thy ===== *)
theory Behavior
  imports Decision
begin

text \<open>
  Package \<^verbatim>\<open>internal/domain/behavior\<close> (\<^verbatim>\<open>behavior.go\<close>): behaviour trees, the planner that
  compiles a greeting, the materialisation of action commands and the split of a plan
  around its one user-reply wait.
\<close>

section \<open>Data\<close>

datatype NodeKind =
  Sequence | Parallel | Race | Action | WaitEvent | Condition | OtherNodeKind string

datatype ActionType =
  AttendUser | Acknowledge | Speak | Express | ReturnIdle | OtherActionType string

datatype Resource = Voice | Attention | Display | Gesture | Locomotion | OtherResource string

record Capability =
  cap_Supported :: bool
  cap_Interruptible :: bool

type_synonym Capabilities = "ActionType \<rightharpoonup> Capability"

record ActionSpec =
  act_Type :: ActionType
  act_TemplateID :: string
  act_Resource :: Resource
  act_Timeout :: duration

datatype Node =
  Node (node_Kind: NodeKind) (node_Children: "Node list") (node_Action: "ActionSpec option")
       (node_WaitFor: duration) (node_EventType: string) (node_Condition: string)

record BehaviorPlan =
  plan_ID :: string
  plan_InteractionID :: string
  plan_BehaviorVersion :: string
  plan_TraceID :: string
  plan_Root :: Node

datatype PreemptionPolicy = PreemptNever | PreemptInterruptible | OtherPreemption string

datatype Idempotency = IdempotentByActionID | OtherIdempotency string

record ActionCommand =
  com_ID :: string
  com_InteractionID :: string
  com_TraceID :: string
  com_Deadline :: time
  com_Preemption :: PreemptionPolicy
  com_RequiredCapability :: ActionType
  com_Idempotency :: Idempotency
  com_Action :: ActionSpec

record phaseAction =
  pha_ordinal :: int
  pha_action :: ActionSpec

record ActionPhase =
  phs_interactionID :: string
  phs_traceID :: string
  phs_actions :: "phaseAction list"

record UserReplyPhases =
  urp_Before :: ActionPhase
  urp_After :: ActionPhase
  urp_WaitFor :: duration

datatype ActionState =
    ActionCreated | ActionDispatched | ActionAccepted | ActionStarted
  | ActionCompleted | ActionRejected | ActionCancelled | ActionTimedOut | ActionFailed
  | OtherActionState string

record ActionStatus =
  sta_ActionID :: string
  sta_InteractionID :: string
  sta_TraceID :: string
  sta_State :: ActionState
  sta_OccurredAt :: time
  sta_Reason :: string

record Planner =
  pln_ActionTimeout :: duration

section \<open>Operations\<close>

text \<open>Reading a Go map yields the zero value for an absent key.\<close>

definition supported :: "Capabilities \<Rightarrow> ActionType \<Rightarrow> bool" where
  "supported caps t = (case caps t of None \<Rightarrow> False | Some c \<Rightarrow> cap_Supported c)"

definition actionNode :: "ActionType \<Rightarrow> string \<Rightarrow> Resource \<Rightarrow> duration \<Rightarrow> Node" where
  "actionNode kind templateID resource timeout =
     Node Action [] (Some \<lparr>act_Type = kind, act_TemplateID = templateID,
                           act_Resource = resource, act_Timeout = timeout\<rparr>) 0 [] []"

fun walk :: "Node \<Rightarrow> ActionSpec list" where
  "walk (Node kind children action waitFor eventType condition) =
     (case action of Some a \<Rightarrow> (if kind = Action then [a] else []) | None \<Rightarrow> []) @
     concat (map walk children)"

definition Plan_Actions :: "BehaviorPlan \<Rightarrow> ActionSpec list" where
  "Plan_Actions p = walk (plan_Root p)"

definition ValidateCapabilities :: "BehaviorPlan \<Rightarrow> Capabilities \<Rightarrow> goerror option" where
  "ValidateCapabilities p capabilities =
     (case filter (\<lambda>a. \<not> supported capabilities (act_Type a)) (Plan_Actions p) of
        [] \<Rightarrow> None
      | a # _ \<Rightarrow> Some (New_fault CapabilityMissing ''validate behavior plan''
                       (Leaf ''action %s is not supported'')))"

definition candidates :: "duration \<Rightarrow> Node list" where
  "candidates actionTimeout =
     [actionNode AttendUser [] Attention (200 * Millisecond),
      Node Condition [] None 0 [] ''attend_user_completed_or_skipped'',
      actionNode Acknowledge [] Gesture (500 * Millisecond),
      actionNode Speak ''welcome.return'' Voice actionTimeout,
      Node WaitEvent [] None (8 * Second) ''user.reply'' [],
      actionNode ReturnIdle [] Attention actionTimeout]"

definition is_feedback :: "ActionType \<Rightarrow> bool" where
  "is_feedback t = (t = Acknowledge \<or> t = Speak \<or> t = Express)"

text \<open>The loop over the candidates: the children kept and whether one gives feedback.\<close>

fun select_children :: "Capabilities \<Rightarrow> Node list \<Rightarrow> Node list \<times> bool" where
  "select_children caps [] = ([], False)"
| "select_children caps (node # nodes) =
     (let (children, hasFeedback) = select_children caps nodes in
      if node_Kind node \<noteq> Action then (node # children, hasFeedback)
      else (case node_Action node of
              None \<Rightarrow> (children, hasFeedback)
            | Some a \<Rightarrow>
                if \<not> supported caps (act_Type a) then (children, hasFeedback)
                else (node # children, is_feedback (act_Type a) \<or> hasFeedback)))"

definition Planner_Plan ::
    "Planner \<Rightarrow> Decision \<Rightarrow> Capabilities \<Rightarrow> time \<Rightarrow> goerror + BehaviorPlan" where
  "Planner_Plan p input capabilities now =
     (if dec_Kind input = Silent then
        Inl (New_fault PolicyBlocked ''compile behavior plan''
               (Leaf ''silent decision has no behavior plan''))
      else if dec_Kind input \<noteq> GreetShort then
        Inl (New_fault InvalidInput ''compile behavior plan'' (Leaf ''unsupported decision %s''))
      else
        let (children, hasFeedback) = select_children capabilities (candidates (pln_ActionTimeout p))
        in if \<not> hasFeedback then
             Inl (New_fault CapabilityMissing ''compile behavior plan''
                    (Leaf ''no supported user-feedback capability''))
           else
             let plan = \<lparr>plan_ID = ''plan:'' @ dec_ID input,
                         plan_InteractionID = dec_InteractionID input,
                         plan_BehaviorVersion = dec_BehaviorVersion input,
                         plan_TraceID = dec_TraceID input,
                         plan_Root = Node Sequence children None 0 [] []\<rparr>
             in (case ValidateCapabilities plan capabilities of
                   Some err \<Rightarrow> Inl err
                 | None \<Rightarrow> Inr plan))"

definition Phase_Commands :: "ActionPhase \<Rightarrow> time \<Rightarrow> ActionCommand list" where
  "Phase_Commands p now =
     map (\<lambda>item.
        \<lparr>com_ID = phs_interactionID p @ '':action:'' @ show_dec (pha_ordinal item),
         com_InteractionID = phs_interactionID p,
         com_TraceID = phs_traceID p,
         com_Deadline = Add now (act_Timeout (pha_action item)),
         com_Preemption = PreemptInterruptible,
         com_RequiredCapability = act_Type (pha_action item),
         com_Idempotency = IdempotentByActionID,
         com_Action = pha_action item\<rparr>) (phs_actions p)"

fun number_from :: "int \<Rightarrow> ActionSpec list \<Rightarrow> phaseAction list" where
  "number_from i [] = []"
| "number_from i (a # as) = \<lparr>pha_ordinal = i, pha_action = a\<rparr> # number_from (i + 1) as"

definition Plan_Commands :: "BehaviorPlan \<Rightarrow> time \<Rightarrow> ActionCommand list" where
  "Plan_Commands p now =
     Phase_Commands \<lparr>phs_interactionID = plan_InteractionID p, phs_traceID = plan_TraceID p,
                     phs_actions = number_from 1 (Plan_Actions p)\<rparr> now"

record phase_loop =
  pl_before :: "phaseAction list"
  pl_after :: "phaseAction list"
  pl_waitFound :: bool
  pl_waitFor :: duration
  pl_ordinal :: int

fun compile_phases :: "Node list \<Rightarrow> phase_loop \<Rightarrow> goerror + phase_loop" where
  "compile_phases [] s = Inr s"
| "compile_phases (node # nodes) s =
     (let op = ''compile user reply phases'' in
      if node_Children node \<noteq> [] then
        Inl (New_fault InvalidInput op (Leaf ''root sequence children must be direct leaves''))
      else (case node_Kind node of
        Action \<Rightarrow>
          (case node_Action node of
             None \<Rightarrow> Inl (New_fault InvalidInput op (Leaf ''action node requires action spec''))
           | Some a \<Rightarrow>
               let ordinal = pl_ordinal s + 1;
                   item = \<lparr>pha_ordinal = ordinal, pha_action = a\<rparr>
               in if pl_waitFound s
                  then compile_phases nodes (s\<lparr>pl_ordinal := ordinal, pl_after := pl_after s @ [item]\<rparr>)
                  else compile_phases nodes (s\<lparr>pl_ordinal := ordinal, pl_before := pl_before s @ [item]\<rparr>))
      | WaitEvent \<Rightarrow>
          if pl_waitFound s \<or> node_EventType node \<noteq> ''user.reply'' \<or> node_WaitFor node \<le> 0 then
            Inl (New_fault InvalidInput op (Leaf ''exactly one positive user.reply wait is required''))
          else compile_phases nodes (s\<lparr>pl_waitFound := True, pl_waitFor := node_WaitFor node\<rparr>)
      | Condition \<Rightarrow> compile_phases nodes s
      | OtherNodeKind k \<Rightarrow>
          Inl (New_fault InvalidInput op (Leaf ''unsupported root child %q''))
      | _ \<Rightarrow>
          Inl (New_fault InvalidInput op
                 (Leaf ''nested behavior nodes are not supported by user reply phases''))))"

definition CompileUserReplyPhases :: "BehaviorPlan \<Rightarrow> goerror + UserReplyPhases" where
  "CompileUserReplyPhases plan =
     (let op = ''compile user reply phases'';
          newPhase = (\<lambda>actions. \<lparr>phs_interactionID = plan_InteractionID plan,
                                 phs_traceID = plan_TraceID plan, phs_actions = actions\<rparr>)
      in if node_Kind (plan_Root plan) \<noteq> Sequence then
           Inl (New_fault InvalidInput op (Leaf ''behavior root must be SEQUENCE''))
         else (case compile_phases (node_Children (plan_Root plan))
                 \<lparr>pl_before = [], pl_after = [], pl_waitFound = False, pl_waitFor = 0, pl_ordinal = 0\<rparr> of
             Inl err \<Rightarrow> Inl err
           | Inr s \<Rightarrow>
               if \<not> pl_waitFound s then
                 Inl (New_fault InvalidInput op (Leaf ''user.reply wait is required''))
               else Inr \<lparr>urp_Before = newPhase (pl_before s), urp_After = newPhase (pl_after s),
                         urp_WaitFor = pl_waitFor s\<rparr>))"

definition isTerminalActionState :: "ActionState \<Rightarrow> bool" where
  "isTerminalActionState state =
     (state = ActionCompleted \<or> state = ActionFailed \<or> state = ActionRejected \<or>
      state = ActionTimedOut \<or> state = ActionCancelled)"

section \<open>Lemmas on command identities\<close>

lemma number_from_append:
  "number_from i (as @ bs) = number_from i as @ number_from (i + int (length as)) bs"
  by (induction as arbitrary: i) (auto simp: algebra_simps)

lemma map_ordinal_number_from:
  "map pha_ordinal (number_from i as) = map (\<lambda>k. i + int k) [0..<length as]"
proof (induction as arbitrary: i)
  case (Cons a as)
  have "map (\<lambda>k. i + int k) [0..<Suc (length as)] = i # map (\<lambda>k. i + 1 + int k) [0..<length as]"
    by (simp add: upt_conv_Cons map_Suc_upt [symmetric] del: upt_Suc)
  with Cons show ?case by simp
qed simp

lemma number_from_actions [simp]: "map pha_action (number_from i as) = as"
  by (induction as arbitrary: i) simp_all

lemma Phase_Commands_append:
  "Phase_Commands \<lparr>phs_interactionID = i, phs_traceID = t, phs_actions = as @ bs\<rparr> now =
     Phase_Commands \<lparr>phs_interactionID = i, phs_traceID = t, phs_actions = as\<rparr> now @
     Phase_Commands \<lparr>phs_interactionID = i, phs_traceID = t, phs_actions = bs\<rparr> now"
  by (simp add: Phase_Commands_def)

lemma Phase_Commands_ids:
  "map com_ID (Phase_Commands p now) =
     map (\<lambda>n. phs_interactionID p @ '':action:'' @ show_dec n) (map pha_ordinal (phs_actions p))"
  by (simp add: Phase_Commands_def)

lemma distinct_number_from_ids:
  assumes "0 \<le> i"
  shows "distinct (map (\<lambda>n. pre @ '':action:'' @ show_dec n) (map pha_ordinal (number_from i as)))"
  using assms
  by (auto simp: map_ordinal_number_from distinct_map inj_on_def show_dec_nonneg_inject)

section \<open>Lemmas on the phase split\<close>

lemma compile_phases_Inr:
  assumes "compile_phases nodes s = Inr s'" and "pl_waitFound s \<or> pl_after s = []"
    and "pl_waitFound s \<longrightarrow> 0 < pl_waitFor s"
  shows "pl_before s' @ pl_after s' =
           pl_before s @ pl_after s @ number_from (pl_ordinal s + 1) (concat (map walk nodes)) \<and>
         (pl_waitFound s' \<or> pl_after s' = []) \<and>
         (pl_waitFound s' \<longrightarrow> 0 < pl_waitFor s')"
  using assms
proof (induction nodes arbitrary: s)
  case Nil
  then show ?case by auto
next
  case (Cons node nodes)
  obtain k cs act wf et cond where node: "node = Node k cs act wf et cond"
    by (cases node)
  from Cons.prems node have cs: "cs = []"
    by (auto simp: Let_def split: if_splits)
  show ?case
  proof (cases k)
    case Action
    with Cons.prems node cs obtain a where act: "act = Some a"
      by (auto simp: Let_def split: option.splits)
    show ?thesis
    proof (cases "pl_waitFound s")
      case True
      with Cons.prems node cs Action act show ?thesis
        by (auto simp: Let_def dest!: Cons.IH)
    next
      case False
      with Cons.prems node cs Action act show ?thesis
        by (auto simp: Let_def dest!: Cons.IH)
    qed
  qed (use Cons.prems node cs in \<open>auto simp: Let_def split: option.splits if_splits dest!: Cons.IH\<close>)
qed

lemma CompileUserReplyPhases_Inr:
  assumes "CompileUserReplyPhases plan = Inr ph"
  shows "\<exists>before after.
     urp_Before ph = \<lparr>phs_interactionID = plan_InteractionID plan, phs_traceID = plan_TraceID plan,
                      phs_actions = before\<rparr> \<and>
     urp_After ph = \<lparr>phs_interactionID = plan_InteractionID plan, phs_traceID = plan_TraceID plan,
                     phs_actions = after\<rparr> \<and>
     before @ after = number_from 1 (Plan_Actions plan) \<and> 0 < urp_WaitFor ph"
proof -
  let ?s0 = "\<lparr>pl_before = [], pl_after = [], pl_waitFound = False, pl_waitFor = 0, pl_ordinal = 0\<rparr>"
  obtain k cs act wf et cond where root: "plan_Root plan = Node k cs act wf et cond"
    by (cases "plan_Root plan")
  with assms have k: "k = Sequence"
    by (auto simp: CompileUserReplyPhases_def Let_def split: if_splits)
  with assms root obtain s where s: "compile_phases cs ?s0 = Inr s" and w: "pl_waitFound s"
    and ph: "ph = \<lparr>urp_Before = \<lparr>phs_interactionID = plan_InteractionID plan,
                      phs_traceID = plan_TraceID plan, phs_actions = pl_before s\<rparr>,
                   urp_After = \<lparr>phs_interactionID = plan_InteractionID plan,
                      phs_traceID = plan_TraceID plan, phs_actions = pl_after s\<rparr>,
                   urp_WaitFor = pl_waitFor s\<rparr>"
    by (auto simp: CompileUserReplyPhases_def Let_def split: sum.splits if_splits)
  from compile_phases_Inr [OF s] w have
    "pl_before s @ pl_after s = number_from 1 (concat (map walk cs)) \<and> 0 < pl_waitFor s"
    by simp
  with root k ph show ?thesis
    by (auto simp: Plan_Actions_def split: option.splits)
qed

section \<open>Lemmas on the planner\<close>

lemma supported_actions_select:
  "filter (\<lambda>a. \<not> supported caps (act_Type a))
     (concat (map walk (fst (select_children caps (candidates d))))) = []"
  by (simp add: candidates_def actionNode_def Let_def)

lemma Planner_Plan_Inr:
  "Planner_Plan p d caps now = Inr plan \<longleftrightarrow>
     dec_Kind d = GreetShort \<and> (supported caps Acknowledge \<or> supported caps Speak) \<and>
     plan = \<lparr>plan_ID = ''plan:'' @ dec_ID d, plan_InteractionID = dec_InteractionID d,
             plan_BehaviorVersion = dec_BehaviorVersion d, plan_TraceID = dec_TraceID d,
             plan_Root = Node Sequence (fst (select_children caps (candidates (pln_ActionTimeout p))))
                           None 0 [] []\<rparr>"
proof -
  have fb: "snd (select_children caps (candidates t)) \<longleftrightarrow>
      supported caps Acknowledge \<or> supported caps Speak" for t
    by (simp add: candidates_def actionNode_def is_feedback_def Let_def)
  show ?thesis
    by (auto simp: Planner_Plan_def ValidateCapabilities_def Plan_Actions_def Let_def case_prod_beta
        fb supported_actions_select)
qed

lemma Plan_Actions_Planner:
  assumes "Planner_Plan p d caps now = Inr plan"
  shows "Plan_Actions plan = filter (\<lambda>a. supported caps (act_Type a))
    [\<lparr>act_Type = AttendUser, act_TemplateID = [], act_Resource = Attention,
      act_Timeout = 200 * Millisecond\<rparr>,
     \<lparr>act_Type = Acknowledge, act_TemplateID = [], act_Resource = Gesture,
      act_Timeout = 500 * Millisecond\<rparr>,
     \<lparr>act_Type = Speak, act_TemplateID = ''welcome.return'', act_Resource = Voice,
      act_Timeout = pln_ActionTimeout p\<rparr>,
     \<lparr>act_Type = ReturnIdle, act_TemplateID = [], act_Resource = Attention,
      act_Timeout = pln_ActionTimeout p\<rparr>]"
  using assms
  by (auto simp: Planner_Plan_Inr Plan_Actions_def candidates_def actionNode_def Let_def)

lemma CompileUserReplyPhases_Planner:
  assumes "Planner_Plan p d caps now = Inr plan"
  shows "\<exists>ph. CompileUserReplyPhases plan = Inr ph \<and> urp_WaitFor ph = 8 * Second \<and>
    map (act_Type \<circ> pha_action) (phs_actions (urp_Before ph)) =
      filter (supported caps) [AttendUser, Acknowledge, Speak] \<and>
    map (act_Type \<circ> pha_action) (phs_actions (urp_After ph)) = filter (supported caps) [ReturnIdle]"
  using assms
  by (auto simp: Planner_Plan_Inr CompileUserReplyPhases_def candidates_def actionNode_def Let_def
      Second_def Millisecond_def)

section \<open>Properties\<close>

text \<open>Splitting a plan around its reply wait loses, duplicates and renumbers nothing: the
  commands of the two phases, one after the other, are the commands of the whole plan, with
  the same action identifiers, and these identifiers are pairwise distinct. The wait is
  positive.\<close>

theorem phases_equal_plan:
  assumes "CompileUserReplyPhases plan = Inr ph"
  shows "Phase_Commands (urp_Before ph) now @ Phase_Commands (urp_After ph) now = Plan_Commands plan now
    \<and> distinct (map com_ID (Plan_Commands plan now)) \<and> 0 < urp_WaitFor ph"
proof -
  obtain before after where
    "urp_Before ph = \<lparr>phs_interactionID = plan_InteractionID plan, phs_traceID = plan_TraceID plan,
                      phs_actions = before\<rparr>"
    "urp_After ph = \<lparr>phs_interactionID = plan_InteractionID plan, phs_traceID = plan_TraceID plan,
                     phs_actions = after\<rparr>"
    "before @ after = number_from 1 (Plan_Actions plan)" "0 < urp_WaitFor ph"
    using CompileUserReplyPhases_Inr [OF assms] by blast
  moreover have "distinct (map com_ID (Plan_Commands plan now))"
    unfolding Plan_Commands_def Phase_Commands_ids
    by (simp only: ActionPhase.select_convs) (rule distinct_number_from_ids, simp)
  ultimately show ?thesis
    by (simp add: Plan_Commands_def Phase_Commands_append [symmetric])
qed

text \<open>A decision to greet, and an embodiment that can only speak.\<close>

definition demo_decision :: Decision where
  "demo_decision =
     \<lparr>dec_ID = ''decision:evt:1'', dec_InteractionID = ''interaction:evt:1'', dec_Kind = GreetShort,
      dec_Style = StyleWarm, dec_ReasonCodes = [ReasonLongAbsence], dec_EventID = ''evt:1'',
      dec_TraceID = ''trace'', dec_PolicyVersion = ''p'', dec_BehaviorVersion = ''b'',
      dec_ConfigHash = ''c'', dec_SnapshotHash = ''s'', dec_ModelVersion = ''none'', dec_RandomSeed = 1\<rparr>"

definition speak_only :: Capabilities where
  "speak_only = [Speak \<mapsto> \<lparr>cap_Supported = True, cap_Interruptible = True\<rparr>]"

lemma demo_plan:
  obtains plan ph where "Planner_Plan \<lparr>pln_ActionTimeout = 2 * Second\<rparr> demo_decision speak_only 0 = Inr plan"
    "CompileUserReplyPhases plan = Inr ph"
proof -
  have "\<exists>plan. Planner_Plan \<lparr>pln_ActionTimeout = 2 * Second\<rparr> demo_decision speak_only 0 = Inr plan"
    by (simp add: Planner_Plan_Inr demo_decision_def speak_only_def supported_def)
  then show thesis using that CompileUserReplyPhases_Planner by blast
qed

theorem phases_equal_plan_witness:
  "\<exists>plan ph. CompileUserReplyPhases plan = Inr ph \<and>
     Phase_Commands (urp_Before ph) 7 @ Phase_Commands (urp_After ph) 7 = Plan_Commands plan 7"
proof -
  obtain plan ph where "CompileUserReplyPhases plan = Inr ph" by (rule demo_plan)
  with phases_equal_plan [OF this, of 7] show ?thesis by blast
qed

text \<open>The planner and the phase compiler fit: a greeting is planned exactly when a feedback
  action is supported, every planned action is supported, and the plan always splits into the
  supported ones of attend, acknowledge and speak before an 8 second wait, and the supported
  return to idle after it.\<close>

theorem planner_phases_total:
  "((\<exists>plan. Planner_Plan p d caps now = Inr plan) \<longleftrightarrow>
      dec_Kind d = GreetShort \<and> (supported caps Acknowledge \<or> supported caps Speak)) \<and>
   (\<forall>plan. Planner_Plan p d caps now = Inr plan \<longrightarrow>
      list_all (\<lambda>a. supported caps (act_Type a)) (Plan_Actions plan) \<and>
      (\<exists>ph. CompileUserReplyPhases plan = Inr ph \<and> urp_WaitFor ph = 8 * Second \<and>
         map (act_Type \<circ> pha_action) (phs_actions (urp_Before ph)) =
           filter (supported caps) [AttendUser, Acknowledge, Speak] \<and>
         map (act_Type \<circ> pha_action) (phs_actions (urp_After ph)) =
           filter (supported caps) [ReturnIdle]))"
proof (intro conjI allI impI)
  show "(\<exists>plan. Planner_Plan p d caps now = Inr plan) \<longleftrightarrow>
     dec_Kind d = GreetShort \<and> (supported caps Acknowledge \<or> supported caps Speak)"
    by (simp add: Planner_Plan_Inr)
next
  fix plan
  assume plan: "Planner_Plan p d caps now = Inr plan"
  then show "list_all (\<lambda>a. supported caps (act_Type a)) (Plan_Actions plan)"
    by (simp add: Plan_Actions_Planner [OF plan] list_all_iff)
qed (rule CompileUserReplyPhases_Planner)

theorem planner_phases_total_witness:
  "\<exists>plan ph. Planner_Plan \<lparr>pln_ActionTimeout = 2 * Second\<rparr> demo_decision speak_only 0 = Inr plan \<and>
     CompileUserReplyPhases plan = Inr ph \<and> urp_WaitFor ph = 8 * Second \<and>
     map (act_Type \<circ> pha_action) (phs_actions (urp_Before ph)) = [Speak]"
  using planner_phases_total [of "\<lparr>pln_ActionTimeout = 2 * Second\<rparr>" demo_decision speak_only 0]
  by (auto simp: demo_decision_def speak_only_def supported_def)

end
