(* ===== verification/Episode.thy ===== *)
theory Episode
  imports Event
begin

text \<open>
  Package \<^verbatim>\<open>internal/domain/episode\<close> (\<^verbatim>\<open>episode.go\<close>): the interaction episode awaiting feedback,
  its response window, and the tracker that ends an episode with exactly one outcome. The
  abstract life cycle of an episode (idle, started, waiting) and the outcome each operation
  may give are stated in \<open>tracker_phase\<close> and proved in \<open>Tracker_refines\<close>.
\<close>

section \<open>Data\<close>

record Episode =
  ep_ID :: string
  ep_InteractionID :: string
  ep_SubjectID :: string
  ep_DecisionID :: string
  ep_TriggerEventID :: string
  ep_TraceID :: string
  ep_ConfigHash :: string
  ep_StartedAt :: time

datatype OutcomeKind = Rejected | Accepted | NoResponse | OtherOutcomeKind string

datatype OutcomeReason =
    ReasonExplicitUserRejection | ReasonUserReplied | ReasonResponseWindowElapsed
  | OtherOutcomeReason string

record ResponseWindow =
  win_Token :: string
  win_OpenedAt :: time
  win_Deadline :: time

record Outcome =
  out_ID :: string
  out_Kind :: OutcomeKind
  out_Reason :: OutcomeReason
  out_EpisodeID :: string
  out_InteractionID :: string
  out_SubjectID :: string
  out_DecisionID :: string
  out_TriggerEventID :: string
  out_FeedbackEventID :: string
  out_TraceID :: string
  out_FeedbackTraceID :: string
  out_ConfigHash :: string
  out_OccurredAt :: time

record Tracker =
  trk_active :: "Episode option"
  trk_responseWindow :: "ResponseWindow option"
  trk_processedFeedbackEvents :: "string set"
  trk_processedExpirations :: "string \<rightharpoonup> SemanticEvent"

section \<open>Operations\<close>

definition Episode_Validate :: "Episode \<Rightarrow> goerror option" where
  "Episode_Validate e =
     (let op = ''validate interaction episode'' in
      if ep_ID e = [] \<or> ep_InteractionID e = [] \<or> ep_SubjectID e = [] \<or> ep_DecisionID e = [] \<or>
         ep_TriggerEventID e = [] \<or> ep_TraceID e = [] \<or> ep_ConfigHash e = [] then
        Some (New_fault InvalidInput op
          (Leaf ''identity, correlation, subject, and config fields are required''))
      else if IsZero (ep_StartedAt e) then
        Some (New_fault InvalidInput op (Leaf ''started_at is required''))
      else None)"

definition Outcome_Validate :: "Outcome \<Rightarrow> goerror option" where
  "Outcome_Validate x =
     (let op = ''validate interaction outcome'';
          validKindReason =
            (out_Kind x = Rejected \<and> out_Reason x = ReasonExplicitUserRejection) \<or>
            (out_Kind x = Accepted \<and> out_Reason x = ReasonUserReplied) \<or>
            (out_Kind x = NoResponse \<and> out_Reason x = ReasonResponseWindowElapsed)
      in if \<not> validKindReason then
           Some (New_fault InvalidInput op (Leaf ''unsupported outcome %q/%q''))
         else if out_ID x = [] \<or> out_EpisodeID x = [] \<or> out_InteractionID x = [] \<or>
                 out_SubjectID x = [] \<or> out_DecisionID x = [] \<or> out_TriggerEventID x = [] \<or>
                 out_FeedbackEventID x = [] \<or> out_TraceID x = [] \<or> out_FeedbackTraceID x = [] \<or>
                 out_ConfigHash x = [] then
           Some (New_fault InvalidInput op
             (Leaf ''identity, correlation, subject, trace, and config fields are required''))
         else if IsZero (out_OccurredAt x) then
           Some (New_fault InvalidInput op (Leaf ''occurred_at is required''))
         else None)"

definition NewTracker :: Tracker where
  "NewTracker = \<lparr>trk_active = None, trk_responseWindow = None,
                 trk_processedFeedbackEvents = {}, trk_processedExpirations = Map.empty\<rparr>"

definition Tracker_Start :: "Tracker \<Rightarrow> Episode \<Rightarrow> goerror option \<times> Tracker" where
  "Tracker_Start t input =
     (case Episode_Validate input of
        Some err \<Rightarrow> (Some err, t)
      | None \<Rightarrow>
          (case trk_active t of
             Some active \<Rightarrow>
               if active = input then (None, t)
               else (Some (New_fault PolicyBlocked ''start interaction episode''
                            (Leaf ''episode %s is still active'')), t)
           | None \<Rightarrow> (None, t\<lparr>trk_active := Some input\<rparr>)))"

definition OpenResponseWindow ::
    "Tracker \<Rightarrow> string \<Rightarrow> string \<Rightarrow> time \<Rightarrow> duration \<Rightarrow> goerror option \<times> Tracker" where
  "OpenResponseWindow t episodeID wakeupToken openedAt duration =
     (let op = ''open episode response window'' in
      case trk_active t of
        None \<Rightarrow> (Some (New_fault PolicyBlocked op (Leaf ''no active episode'')), t)
      | Some active \<Rightarrow>
          if episodeID = [] \<or> episodeID \<noteq> ep_ID active then
            (Some (New_fault InvalidInput op (Leaf ''episode %q is not active'')), t)
          else if duration \<le> 0 then
            (Some (New_fault InvalidInput op (Leaf ''duration must be positive'')), t)
          else if wakeupToken = [] then
            (Some (New_fault InvalidInput op (Leaf ''wakeup token is required'')), t)
          else if IsZero openedAt \<or> Before openedAt (ep_StartedAt active) then
            (Some (New_fault InvalidInput op
                     (Leaf ''opened_at must not precede episode start'')), t)
          else
            let window = \<lparr>win_Token = wakeupToken, win_OpenedAt = openedAt,
                          win_Deadline = Add openedAt duration\<rparr>
            in (case trk_responseWindow t of
                  Some current \<Rightarrow>
                    if current = window then (None, t)
                    else (Some (New_fault PolicyBlocked op
                                 (Leaf ''response window is already open'')), t)
                | None \<Rightarrow> (None, t\<lparr>trk_responseWindow := Some window\<rparr>)))"

text \<open>The outcome value the three closing operations build, and the end of the episode.\<close>

definition make_outcome ::
    "OutcomeKind \<Rightarrow> OutcomeReason \<Rightarrow> Episode \<Rightarrow> SemanticEvent \<Rightarrow> Outcome" where
  "make_outcome kind reason active input =
     \<lparr>out_ID = ''outcome:'' @ evt_ID input,
      out_Kind = kind,
      out_Reason = reason,
      out_EpisodeID = ep_ID active,
      out_InteractionID = ep_InteractionID active,
      out_SubjectID = ep_SubjectID active,
      out_DecisionID = ep_DecisionID active,
      out_TriggerEventID = ep_TriggerEventID active,
      out_FeedbackEventID = evt_ID input,
      out_TraceID = ep_TraceID active,
      out_FeedbackTraceID = evt_TraceID input,
      out_ConfigHash = ep_ConfigHash active,
      out_OccurredAt = evt_OccurredAt input\<rparr>"

type_synonym feedback_result = "Outcome option \<times> bool \<times> goerror option"

definition finish_episode ::
    "OutcomeKind \<Rightarrow> OutcomeReason \<Rightarrow> Episode \<Rightarrow> SemanticEvent \<Rightarrow> Tracker \<Rightarrow> feedback_result \<times> Tracker" where
  "finish_episode kind reason active input t =
     (let t' = t\<lparr>trk_active := None, trk_responseWindow := None\<rparr>;
          outcome = make_outcome kind reason active input
      in (case Outcome_Validate outcome of
            Some err \<Rightarrow> ((None, False, Some err), t')
          | None \<Rightarrow> ((Some outcome, True, None), t')))"

definition Tracker_Expire :: "Tracker \<Rightarrow> string \<Rightarrow> SemanticEvent \<Rightarrow> feedback_result \<times> Tracker" where
  "Tracker_Expire t expectedEpisodeID input =
     (let op = ''expire episode response window'' in
      case ValidateResponseWindowExpired input of
        Some err \<Rightarrow> ((None, False, Some err), t)
      | None \<Rightarrow>
          if expectedEpisodeID = [] then
            ((None, False, Some (New_fault InvalidInput op
                                  (Leaf ''expected episode id is required''))), t)
          else if evt_ResponseEpisodeID input \<noteq> expectedEpisodeID then
            ((None, False, Some (New_fault InvalidInput op
                                  (Leaf ''expected episode does not match expiration event''))), t)
          else (case trk_processedExpirations t (evt_ID input) of
              Some previous \<Rightarrow>
                if \<not> SemanticEvent_eq previous input then
                  ((None, False, Some (New_fault InvalidInput op
                     (Leaf ''expiration id was already used with different correlation''))), t)
                else ((None, False, None), t)
            | None \<Rightarrow>
                (case (trk_active t, trk_responseWindow t) of
                   (Some active, Some window) \<Rightarrow>
                     if expectedEpisodeID \<noteq> ep_ID active \<or> evt_ResponseEpisodeID input \<noteq> ep_ID active \<or>
                        evt_SubjectID input \<noteq> ep_SubjectID active \<or>
                        evt_WakeupToken input \<noteq> win_Token window then
                       ((None, False, Some (New_fault InvalidInput op
                          (Leaf ''expiration correlation does not match active response window''))), t)
                     else if Before (evt_OccurredAt input) (win_Deadline window) then
                       ((None, False, None), t)
                     else finish_episode NoResponse ReasonResponseWindowElapsed active input
                            (t\<lparr>trk_processedExpirations :=
                                 (trk_processedExpirations t)(evt_ID input \<mapsto> input)\<rparr>)
                 | _ \<Rightarrow> ((None, False, Some (New_fault PolicyBlocked op
                                            (Leaf ''no active response window''))), t))))"

definition Tracker_Accept :: "Tracker \<Rightarrow> string \<Rightarrow> SemanticEvent \<Rightarrow> feedback_result \<times> Tracker" where
  "Tracker_Accept t expectedEpisodeID input =
     (let op = ''accept user reply'' in
      case ValidateUserReply input of
        Some err \<Rightarrow> ((None, False, Some err), t)
      | None \<Rightarrow>
          if expectedEpisodeID = [] then
            ((None, False, Some (New_fault InvalidInput op
                                  (Leaf ''expected episode id is required''))), t)
          else (case trk_active t of
              None \<Rightarrow> ((None, False, Some (New_fault PolicyBlocked op
                                            (Leaf ''no active episode''))), t)
            | Some active \<Rightarrow>
                if expectedEpisodeID \<noteq> ep_ID active then
                  ((None, False, Some (New_fault InvalidInput op
                     (Leaf ''expected episode %s does not match active episode %s''))), t)
                else if evt_ID input \<in> trk_processedFeedbackEvents t then
                  ((None, False, None), t)
                else
                  let t1 = t\<lparr>trk_processedFeedbackEvents :=
                               insert (evt_ID input) (trk_processedFeedbackEvents t)\<rparr>
                  in (case trk_responseWindow t1 of
                        None \<Rightarrow> ((None, True, None), t1)
                      | Some window \<Rightarrow>
                          if ep_SubjectID active \<noteq> evt_SubjectID input then ((None, True, None), t1)
                          else if Before (evt_OccurredAt input) (win_OpenedAt window) \<or>
                                  \<not> Before (evt_OccurredAt input) (win_Deadline window) then
                            ((None, True, None), t1)
                          else finish_episode Accepted ReasonUserReplied active input t1)))"

definition Tracker_Reject :: "Tracker \<Rightarrow> SemanticEvent \<Rightarrow> feedback_result \<times> Tracker" where
  "Tracker_Reject t input =
     (case ValidateUserRejection input of
        Some err \<Rightarrow> ((None, False, Some err), t)
      | None \<Rightarrow>
          if evt_ID input \<in> trk_processedFeedbackEvents t then ((None, False, None), t)
          else
            let t1 = t\<lparr>trk_processedFeedbackEvents :=
                         insert (evt_ID input) (trk_processedFeedbackEvents t)\<rparr>
            in (case trk_active t1 of
                  None \<Rightarrow> ((None, True, None), t1)
                | Some active \<Rightarrow>
                    if ep_SubjectID active \<noteq> evt_SubjectID input then ((None, True, None), t1)
                    else if Before (evt_OccurredAt input) (ep_StartedAt active) then
                      ((None, True, None), t1)
                    else finish_episode Rejected ReasonExplicitUserRejection active input t1))"

section \<open>Life cycle\<close>

text \<open>
  The abstract tracker: no episode, an episode without a window, or an episode with one.
  \<open>tracker_ok\<close> is the invariant of the concrete tracker.
\<close>

datatype tracker_phase = Idle | Started Episode | Waiting Episode ResponseWindow

fun phase_of :: "Episode option \<Rightarrow> ResponseWindow option \<Rightarrow> tracker_phase" where
  "phase_of None w = Idle"
| "phase_of (Some e) None = Started e"
| "phase_of (Some e) (Some w) = Waiting e w"

definition tracker_abs :: "Tracker \<Rightarrow> tracker_phase" where
  "tracker_abs t = phase_of (trk_active t) (trk_responseWindow t)"

definition tracker_ok :: "Tracker \<Rightarrow> bool" where
  "tracker_ok t =
     ((case trk_active t of None \<Rightarrow> trk_responseWindow t = None
       | Some e \<Rightarrow> Episode_Validate e = None \<and>
           (case trk_responseWindow t of None \<Rightarrow> True
            | Some w \<Rightarrow> win_Token w \<noteq> [] \<and> win_OpenedAt w < win_Deadline w \<and>
                        ep_StartedAt e \<le> win_OpenedAt w)) \<and>
      (\<forall>i e. trk_processedExpirations t i = Some e \<longrightarrow>
         evt_ID e = i \<and> ValidateResponseWindowExpired e = None))"

text \<open>
  The steps the abstract tracker may take, with the outcome each one reports. An accepted
  outcome needs an instant inside the half-open window, an elapsed one an instant at or
  after the deadline, a rejection an instant not before the start of the episode.
\<close>

inductive lifecycle :: "tracker_phase \<Rightarrow> Outcome option \<Rightarrow> tracker_phase \<Rightarrow> bool" where
  stay: "lifecycle p None p"
| start: "Episode_Validate e = None \<Longrightarrow> lifecycle Idle None (Started e)"
| open_window:
    "win_Token w \<noteq> [] \<Longrightarrow> win_OpenedAt w < win_Deadline w \<Longrightarrow> ep_StartedAt e \<le> win_OpenedAt w \<Longrightarrow>
     lifecycle (Started e) None (Waiting e w)"
| replied:
    "x = make_outcome Accepted ReasonUserReplied e i \<Longrightarrow> Outcome_Validate x = None \<Longrightarrow>
     ep_SubjectID e = evt_SubjectID i \<Longrightarrow>
     win_OpenedAt w \<le> out_OccurredAt x \<Longrightarrow> out_OccurredAt x < win_Deadline w \<Longrightarrow>
     lifecycle (Waiting e w) (Some x) Idle"
| expired:
    "x = make_outcome NoResponse ReasonResponseWindowElapsed e i \<Longrightarrow> Outcome_Validate x = None \<Longrightarrow>
     ep_SubjectID e = evt_SubjectID i \<Longrightarrow> evt_WakeupToken i = win_Token w \<Longrightarrow>
     win_Deadline w \<le> out_OccurredAt x \<Longrightarrow>
     lifecycle (Waiting e w) (Some x) Idle"
| rejected:
    "x = make_outcome Rejected ReasonExplicitUserRejection e i \<Longrightarrow> Outcome_Validate x = None \<Longrightarrow>
     ep_SubjectID e = evt_SubjectID i \<Longrightarrow> ep_StartedAt e \<le> out_OccurredAt x \<Longrightarrow>
     p = Started e \<or> p = Waiting e w \<Longrightarrow>
     lifecycle p (Some x) Idle"

text \<open>The five operations as one step function, and its runs.\<close>

datatype tracker_op =
    OpStart Episode
  | OpOpen string string time duration
  | OpExpire string SemanticEvent
  | OpAccept string SemanticEvent
  | OpReject SemanticEvent

fun tracker_exec :: "Tracker \<Rightarrow> tracker_op \<Rightarrow> Outcome option \<times> Tracker" where
  "tracker_exec t (OpStart e) = (None, snd (Tracker_Start t e))"
| "tracker_exec t (OpOpen i tok opened d) = (None, snd (OpenResponseWindow t i tok opened d))"
| "tracker_exec t (OpExpire i e) = (let (r, t') = Tracker_Expire t i e in (fst r, t'))"
| "tracker_exec t (OpAccept i e) = (let (r, t') = Tracker_Accept t i e in (fst r, t'))"
| "tracker_exec t (OpReject e) = (let (r, t') = Tracker_Reject t e in (fst r, t'))"

text \<open>A run records the episodes it began and the outcomes it reported, in order.\<close>

definition began :: "Tracker \<Rightarrow> Tracker \<Rightarrow> Episode list" where
  "began t t' =
     (case (trk_active t, trk_active t') of (None, Some e) \<Rightarrow> [e] | _ \<Rightarrow> [])"

fun tracker_run :: "Tracker \<Rightarrow> tracker_op list \<Rightarrow> Tracker \<times> Episode list \<times> Outcome list" where
  "tracker_run t [] = (t, [], [])"
| "tracker_run t (x # xs) =
     (let (out, t1) = tracker_exec t x;
          (t2, es, outs) = tracker_run t1 xs
      in (t2, began t t1 @ es, (case out of None \<Rightarrow> [] | Some y \<Rightarrow> [y]) @ outs))"

definition active_list :: "Tracker \<Rightarrow> Episode list" where
  "active_list t = (case trk_active t of None \<Rightarrow> [] | Some e \<Rightarrow> [e])"

section \<open>Lemmas\<close>

lemma Episode_Validate_None [validate_simps]:
  "Episode_Validate e = None \<longleftrightarrow>
     ep_ID e \<noteq> [] \<and> ep_InteractionID e \<noteq> [] \<and> ep_SubjectID e \<noteq> [] \<and> ep_DecisionID e \<noteq> [] \<and>
     ep_TriggerEventID e \<noteq> [] \<and> ep_TraceID e \<noteq> [] \<and> ep_ConfigHash e \<noteq> [] \<and> ep_StartedAt e \<noteq> 0"
  by (simp add: Episode_Validate_def Let_def)

lemma make_outcome_sel [simp]:
  "out_EpisodeID (make_outcome k r e i) = ep_ID e"
  "out_InteractionID (make_outcome k r e i) = ep_InteractionID e"
  "out_SubjectID (make_outcome k r e i) = ep_SubjectID e"
  "out_Kind (make_outcome k r e i) = k"
  "out_Reason (make_outcome k r e i) = r"
  "out_OccurredAt (make_outcome k r e i) = evt_OccurredAt i"
  "out_FeedbackEventID (make_outcome k r e i) = evt_ID i"
  by (simp_all add: make_outcome_def)

lemma Outcome_Validate_make:
  assumes "Episode_Validate e = None" "evt_ID i \<noteq> []" "evt_TraceID i \<noteq> []" "evt_OccurredAt i \<noteq> 0"
    and "(k, r) \<in> {(Rejected, ReasonExplicitUserRejection), (Accepted, ReasonUserReplied),
                   (NoResponse, ReasonResponseWindowElapsed)}"
  shows "Outcome_Validate (make_outcome k r e i) = None"
  using assms by (auto simp: Outcome_Validate_def make_outcome_def Let_def validate_simps)

lemma finish_episode_ok:
  assumes "Outcome_Validate (make_outcome k r e i) = None"
  shows "finish_episode k r e i t =
    ((Some (make_outcome k r e i), True, None), t\<lparr>trk_active := None, trk_responseWindow := None\<rparr>)"
  using assms by (simp add: finish_episode_def Let_def)

lemma tracker_ok_NewTracker: "tracker_ok NewTracker"
  by (simp add: tracker_ok_def NewTracker_def)

lemma tracker_ok_active:
  "tracker_ok t \<Longrightarrow> trk_active t = Some e \<Longrightarrow> Episode_Validate e = None"
  by (simp add: tracker_ok_def)

lemma tracker_ok_window:
  "tracker_ok t \<Longrightarrow> trk_active t = None \<Longrightarrow> trk_responseWindow t = None"
  by (simp add: tracker_ok_def)

text \<open>The closing operations never fail after they have changed the tracker.\<close>

lemma finish_episode_ok_tracker:
  assumes "tracker_ok t" "trk_active t = Some e"
    and "evt_ID i \<noteq> []" "evt_TraceID i \<noteq> []" "evt_OccurredAt i \<noteq> 0"
    and "(k, r) \<in> {(Rejected, ReasonExplicitUserRejection), (Accepted, ReasonUserReplied),
                   (NoResponse, ReasonResponseWindowElapsed)}"
  shows "finish_episode k r e i t' =
    ((Some (make_outcome k r e i), True, None), t'\<lparr>trk_active := None, trk_responseWindow := None\<rparr>)"
  using assms by (intro finish_episode_ok Outcome_Validate_make tracker_ok_active)

lemma Tracker_Start_ok: "tracker_ok t \<Longrightarrow> tracker_ok (snd (Tracker_Start t e))"
  by (auto simp: Tracker_Start_def tracker_ok_def split: option.splits)

lemma OpenResponseWindow_ok: "tracker_ok t \<Longrightarrow> tracker_ok (snd (OpenResponseWindow t i tok opened d))"
  by (auto simp: OpenResponseWindow_def tracker_ok_def Let_def split: option.splits)

lemma Tracker_Reject_ok: "tracker_ok t \<Longrightarrow> tracker_ok (snd (Tracker_Reject t e))"
  by (auto simp: Tracker_Reject_def tracker_ok_def finish_episode_def Let_def split: option.splits)

lemma Tracker_Accept_ok: "tracker_ok t \<Longrightarrow> tracker_ok (snd (Tracker_Accept t i e))"
  by (auto simp: Tracker_Accept_def tracker_ok_def finish_episode_def Let_def split: option.splits)

lemma Tracker_Expire_ok: "tracker_ok t \<Longrightarrow> tracker_ok (snd (Tracker_Expire t i e))"
  by (auto simp: Tracker_Expire_def tracker_ok_def finish_episode_def Let_def split: option.splits)

lemmas tracker_ok_ops =
  Tracker_Start_ok OpenResponseWindow_ok Tracker_Reject_ok Tracker_Accept_ok Tracker_Expire_ok

lemma tracker_exec_ok: "tracker_ok t \<Longrightarrow> tracker_ok (snd (tracker_exec t x))"
  by (cases x) (simp_all add: tracker_ok_ops case_prod_beta)

text \<open>
  Each operation in the shape the refinement needs: what it reports and the phase it leaves.
\<close>

lemma Tracker_Start_lifecycle:
  "tracker_ok t \<Longrightarrow> lifecycle (tracker_abs t) None (tracker_abs (snd (Tracker_Start t e)))"
  by (auto simp: Tracker_Start_def tracker_abs_def tracker_ok_def
      intro: lifecycle.stay lifecycle.start split: option.splits)

lemma OpenResponseWindow_lifecycle:
  "tracker_ok t \<Longrightarrow>
     lifecycle (tracker_abs t) None (tracker_abs (snd (OpenResponseWindow t i tok opened d)))"
  by (auto simp: OpenResponseWindow_def tracker_abs_def tracker_ok_def Let_def
      intro: lifecycle.stay lifecycle.open_window split: option.splits)

lemma Tracker_Reject_lifecycle:
  assumes ok: "tracker_ok t"
  shows "lifecycle (tracker_abs t) (fst (fst (Tracker_Reject t i))) (tracker_abs (snd (Tracker_Reject t i)))"
proof (cases "(\<exists>e. trk_active t = Some e \<and> ep_SubjectID e = evt_SubjectID i \<and>
    ep_StartedAt e \<le> evt_OccurredAt i) \<and> ValidateUserRejection i = None \<and>
    evt_ID i \<notin> trk_processedFeedbackEvents t")
  case True
  then obtain e where e: "trk_active t = Some e" "ep_SubjectID e = evt_SubjectID i"
      "ep_StartedAt e \<le> evt_OccurredAt i" "ValidateUserRejection i = None"
      "evt_ID i \<notin> trk_processedFeedbackEvents t" by blast
  have v: "Outcome_Validate (make_outcome Rejected ReasonExplicitUserRejection e i) = None"
    using e(4) by (intro Outcome_Validate_make tracker_ok_active [OF ok e(1)])
      (auto simp: validate_simps)
  have "tracker_abs t = Started e \<or> (\<exists>w. tracker_abs t = Waiting e w)"
    using e by (cases "trk_responseWindow t") (auto simp: tracker_abs_def)
  with e v show ?thesis
    by (auto simp: Tracker_Reject_def finish_episode_ok tracker_abs_def Let_def
        intro!: lifecycle.rejected [OF refl v])
next
  case False
  then show ?thesis
    by (auto simp: Tracker_Reject_def tracker_abs_def Let_def not_le
        intro: lifecycle.stay split: option.splits)
qed

lemma Tracker_Accept_lifecycle:
  assumes ok: "tracker_ok t"
  shows "lifecycle (tracker_abs t) (fst (fst (Tracker_Accept t x i))) (tracker_abs (snd (Tracker_Accept t x i)))"
proof (cases "\<exists>e w. trk_active t = Some e \<and> trk_responseWindow t = Some w \<and>
    ep_SubjectID e = evt_SubjectID i \<and> win_OpenedAt w \<le> evt_OccurredAt i \<and>
    evt_OccurredAt i < win_Deadline w \<and> ValidateUserReply i = None \<and> x \<noteq> [] \<and> x = ep_ID e \<and>
    evt_ID i \<notin> trk_processedFeedbackEvents t")
  case True
  then obtain e w where e: "trk_active t = Some e" "trk_responseWindow t = Some w"
      "ep_SubjectID e = evt_SubjectID i" "win_OpenedAt w \<le> evt_OccurredAt i"
      "evt_OccurredAt i < win_Deadline w" "ValidateUserReply i = None" "x \<noteq> []" "x = ep_ID e"
      "evt_ID i \<notin> trk_processedFeedbackEvents t" by blast
  have v: "Outcome_Validate (make_outcome Accepted ReasonUserReplied e i) = None"
    using e(6) by (intro Outcome_Validate_make tracker_ok_active [OF ok e(1)])
      (auto simp: validate_simps)
  with e show ?thesis
    by (auto simp: Tracker_Accept_def finish_episode_ok tracker_abs_def Let_def
        intro!: lifecycle.replied [OF refl v])
next
  case False
  then show ?thesis
    by (auto simp: Tracker_Accept_def tracker_abs_def Let_def not_le not_less
        intro: lifecycle.stay split: option.splits)
qed

lemma Tracker_Expire_lifecycle:
  assumes ok: "tracker_ok t"
  shows "lifecycle (tracker_abs t) (fst (fst (Tracker_Expire t x i))) (tracker_abs (snd (Tracker_Expire t x i)))"
proof (cases "\<exists>e w. trk_active t = Some e \<and> trk_responseWindow t = Some w \<and>
    ep_SubjectID e = evt_SubjectID i \<and> evt_WakeupToken i = win_Token w \<and>
    win_Deadline w \<le> evt_OccurredAt i \<and> ValidateResponseWindowExpired i = None \<and>
    x = ep_ID e \<and> x \<noteq> [] \<and> evt_ResponseEpisodeID i = x \<and> trk_processedExpirations t (evt_ID i) = None")
  case True
  then obtain e w where e: "trk_active t = Some e" "trk_responseWindow t = Some w"
      "ep_SubjectID e = evt_SubjectID i" "evt_WakeupToken i = win_Token w"
      "win_Deadline w \<le> evt_OccurredAt i" "ValidateResponseWindowExpired i = None"
      "x = ep_ID e" "x \<noteq> []" "evt_ResponseEpisodeID i = x"
      "trk_processedExpirations t (evt_ID i) = None" by blast
  have v: "Outcome_Validate (make_outcome NoResponse ReasonResponseWindowElapsed e i) = None"
    using e(6) by (intro Outcome_Validate_make tracker_ok_active [OF ok e(1)])
      (auto simp: validate_simps)
  with e show ?thesis
    by (auto simp: Tracker_Expire_def finish_episode_ok tracker_abs_def Let_def
        intro!: lifecycle.expired [OF refl v])
next
  case False
  then show ?thesis
    by (auto simp: Tracker_Expire_def tracker_abs_def Let_def not_le not_less
        intro: lifecycle.stay split: option.splits)
qed

lemmas tracker_lifecycle =
  Tracker_Start_lifecycle OpenResponseWindow_lifecycle Tracker_Reject_lifecycle
  Tracker_Accept_lifecycle Tracker_Expire_lifecycle

lemma tracker_exec_lifecycle:
  "tracker_ok t \<Longrightarrow>
     lifecycle (tracker_abs t) (fst (tracker_exec t x)) (tracker_abs (snd (tracker_exec t x)))"
  by (cases x) (simp_all add: tracker_lifecycle case_prod_beta)

lemma lifecycle_episodes:
  assumes "lifecycle p out p'" "p = tracker_abs t" "p' = tracker_abs t'"
    and "tracker_ok t" "tracker_ok t'"
  shows "map ep_ID (active_list t @ began t t') =
    (case out of None \<Rightarrow> [] | Some x \<Rightarrow> [out_EpisodeID x]) @ map ep_ID (active_list t')"
  using assms
  by (cases rule: lifecycle.cases; cases "trk_active t"; cases "trk_active t'";
      cases "trk_responseWindow t"; cases "trk_responseWindow t'")
    (auto simp: tracker_abs_def active_list_def began_def tracker_ok_def)

lemma tracker_run_ok: "tracker_ok t \<Longrightarrow> tracker_ok (fst (tracker_run t xs))"
  by (induction xs arbitrary: t) (auto simp: Let_def case_prod_beta intro: tracker_exec_ok)

lemma tracker_run_episodes:
  assumes "tracker_ok t"
  shows "map ep_ID (active_list t @ fst (snd (tracker_run t xs))) =
    map out_EpisodeID (snd (snd (tracker_run t xs))) @ map ep_ID (active_list (fst (tracker_run t xs)))"
  using assms
proof (induction xs arbitrary: t)
  case Nil
  then show ?case by simp
next
  case (Cons x xs)
  let ?t1 = "snd (tracker_exec t x)" and ?out = "fst (tracker_exec t x)"
  have ok1: "tracker_ok ?t1" using Cons.prems by (rule tracker_exec_ok)
  have step: "map ep_ID (active_list t @ began t ?t1) =
      (case ?out of None \<Rightarrow> [] | Some y \<Rightarrow> [out_EpisodeID y]) @ map ep_ID (active_list ?t1)"
    by (rule lifecycle_episodes [OF tracker_exec_lifecycle [OF Cons.prems] refl refl Cons.prems ok1])
  have "map ep_ID (active_list t @ fst (snd (tracker_run t (x # xs)))) =
      map ep_ID (active_list t @ began t ?t1) @ map ep_ID (fst (snd (tracker_run ?t1 xs)))"
    by (simp add: Let_def case_prod_beta)
  also have "\<dots> = (case ?out of None \<Rightarrow> [] | Some y \<Rightarrow> [out_EpisodeID y]) @
      map ep_ID (active_list ?t1 @ fst (snd (tracker_run ?t1 xs)))"
    unfolding step by simp
  also have "\<dots> = map out_EpisodeID (snd (snd (tracker_run t (x # xs)))) @
      map ep_ID (active_list (fst (tracker_run t (x # xs))))"
    by (simp add: Cons.IH [OF ok1, unfolded map_append] Let_def case_prod_beta split: option.splits)
  finally show ?case .
qed

lemma feedback_error_atomic:
  assumes "tracker_ok t"
  shows "Tracker_Expire t x i = ((out, app, Some err), t') \<Longrightarrow> t' = t \<and> out = None \<and> \<not> app"
    and "Tracker_Accept t x i = ((out, app, Some err), t') \<Longrightarrow> t' = t \<and> out = None \<and> \<not> app"
    and "Tracker_Reject t i = ((out, app, Some err), t') \<Longrightarrow> t' = t \<and> out = None \<and> \<not> app"
proof -
  show "t' = t \<and> out = None \<and> \<not> app" if "Tracker_Expire t x i = ((out, app, Some err), t')"
  proof (cases "ValidateResponseWindowExpired i")
    case None
    with that assms show ?thesis
      by (auto simp: Tracker_Expire_def Let_def finish_episode_ok_tracker [OF assms] validate_simps
          split: option.splits if_splits)
  qed (use that in \<open>simp add: Tracker_Expire_def Let_def\<close>)
  show "t' = t \<and> out = None \<and> \<not> app" if "Tracker_Accept t x i = ((out, app, Some err), t')"
  proof (cases "ValidateUserReply i")
    case None
    with that assms show ?thesis
      by (auto simp: Tracker_Accept_def Let_def finish_episode_ok_tracker [OF assms] validate_simps
          split: option.splits if_splits)
  qed (use that in \<open>simp add: Tracker_Accept_def Let_def\<close>)
  show "t' = t \<and> out = None \<and> \<not> app" if "Tracker_Reject t i = ((out, app, Some err), t')"
  proof (cases "ValidateUserRejection i")
    case None
    with that assms show ?thesis
      by (auto simp: Tracker_Reject_def Let_def finish_episode_ok_tracker [OF assms] validate_simps
          split: option.splits if_splits)
  qed (use that in \<open>simp add: Tracker_Reject_def Let_def\<close>)
qed

section \<open>Properties\<close>


text \<open>Exactly one outcome per episode: over any sequence of tracker operations, the
  outcomes reported are, in order, one for each episode that was begun, except the one that
  is still active at the end.\<close>

theorem one_outcome_per_episode:
  "let (t, begun, outs) = tracker_run NewTracker xs in
     map ep_ID begun = map out_EpisodeID outs @ map ep_ID (active_list t)"
proof -
  have "active_list NewTracker = []" by (simp add: active_list_def NewTracker_def)
  with tracker_run_episodes [OF tracker_ok_NewTracker, of xs] show ?thesis
    by (simp add: case_prod_beta Let_def)
qed

end
