(* ===== verification/Ports.thy ===== *)
theory Ports
  imports Control Behavior Episode
begin

text \<open>
  The ports of \<^verbatim>\<open>internal/application/port\<close> (\<^verbatim>\<open>clock.go\<close>, \<^verbatim>\<open>action_driver.go\<close>,
  \<^verbatim>\<open>audit_recorder.go\<close>) as state-passing operations over an environment \<open>'w\<close>, which holds
  whatever the clock, the embodiment and the audit store keep. A call to \<^verbatim>\<open>Execute\<close> yields an
  error, a nil stream, or a stream. A stream is the finite list of what the awaiting
  \<^verbatim>\<open>select\<close> receives from it, in order: statuses, or the end of the command's context
  (\<open>CtxDone\<close>); the end of the list is the closed channel. The list is finite because the
  command's context has a deadline.
\<close>

datatype delivery = Received ActionStatus | CtxDone goerror

datatype execution = ExecError goerror | NilStream | Stream "delivery list"

record 'w ports =
  port_Now :: "'w \<Rightarrow> time \<times> 'w"
  port_Capabilities :: "'w \<Rightarrow> (goerror + Capabilities) \<times> 'w"
  port_Execute :: "ActionCommand \<Rightarrow> 'w \<Rightarrow> execution \<times> 'w"
  port_StopAll :: "StopReason \<Rightarrow> 'w \<Rightarrow> goerror option \<times> 'w"
  port_RecordEvent :: "SemanticEvent \<Rightarrow> 'w \<Rightarrow> goerror option \<times> 'w"
  port_RecordDecision :: "Decision \<Rightarrow> 'w \<Rightarrow> goerror option \<times> 'w"
  port_RecordPlan :: "BehaviorPlan \<Rightarrow> 'w \<Rightarrow> goerror option \<times> 'w"
  port_RecordActionStatus :: "ActionStatus \<Rightarrow> 'w \<Rightarrow> goerror option \<times> 'w"
  port_RecordOutcome :: "Outcome \<Rightarrow> 'w \<Rightarrow> goerror option \<times> 'w"

end
