(* ===== verification/Engine.thy ===== *)
theory Engine
  imports Ports
begin

text \<open>
  Package \<^verbatim>\<open>internal/application/engine\<close> (\<^verbatim>\<open>engine.go\<close>, \<^verbatim>\<open>config.go\<close>, \<^verbatim>\<open>ingress.go\<close>,
  \<^verbatim>\<open>reply_window.go\<close>): the single-writer engine. Every operation takes the ports \<open>P\<close>, the engine
  and the environment, and returns the new ones. The argument \<open>ctxErr\<close> is the value of
  \<^verbatim>\<open>ctx.Err()\<close> at the check the operation makes; what a cancelled context does to a later
  external call is part of that call's answer.
\<close>

section \<open>Configuration and ingress\<close>

record Config =
  cfg_SubjectID :: string
  cfg_ReturnAbsenceThreshold :: duration
  cfg_RejectionCooldown :: duration
  cfg_NoResponseCooldown :: duration
  cfg_ActionTimeout :: duration
  cfg_ExternalCallTimeout :: duration
  cfg_PolicyVersion :: string
  cfg_BehaviorVersion :: string
  cfg_ConfigHash :: string
  cfg_RandomSeed :: int

definition Config_Validate :: "Config \<Rightarrow> goerror option" where
  "Config_Validate c =
     (if cfg_SubjectID c = [] \<or> cfg_PolicyVersion c = [] \<or> cfg_BehaviorVersion c = [] \<or>
         cfg_ConfigHash c = [] then
        Some (Leaf ''subject, policy version, behavior version, and config hash are required'')
      else if cfg_ReturnAbsenceThreshold c \<le> 0 then
        Some (Leaf ''return absence threshold must be positive'')
      else if cfg_RejectionCooldown c \<le> 0 then
        Some (Leaf ''rejection cooldown must be positive'')
      else if cfg_NoResponseCooldown c \<le> 0 then
        Some (Leaf ''no-response cooldown must be positive'')
      else if cfg_ActionTimeout c \<le> 0 \<or> cfg_ExternalCallTimeout c \<le> 0 then
        Some (Leaf ''action and external call timeouts must be positive'')
      else None)"

record ingress =
  ing_seenIDs :: "string set"
  ing_lastSeq :: "string \<rightharpoonup> 64 word"

definition newIngress :: ingress where
  "newIngress = \<lparr>ing_seenIDs = {}, ing_lastSeq = Map.empty\<rparr>"

definition ingress_accept :: "ingress \<Rightarrow> Observation \<Rightarrow> time \<Rightarrow> goerror option \<times> ingress" where
  "ingress_accept i input now =
     (case Observation_ValidateAt input now of
        Some err \<Rightarrow> (Some err, i)
      | None \<Rightarrow>
          if obs_ID input \<in> ing_seenIDs i then
            (Some (New_fault StaleInput ''accept observation'' (Leaf ''duplicate observation id %s'')), i)
          else if (case ing_lastSeq i (obs_SourceID input) of
                     None \<Rightarrow> False | Some seq \<Rightarrow> obs_SourceSeq input \<le> seq) then
            (Some (New_fault StaleInput ''accept observation''
                     (Leaf ''source %s sequence %d is not greater than %d'')), i)
          else (None, i\<lparr>ing_seenIDs := insert (obs_ID input) (ing_seenIDs i),
                        ing_lastSeq := (ing_lastSeq i)(obs_SourceID input \<mapsto> obs_SourceSeq input)\<rparr>))"

section \<open>Engine state\<close>

record Wakeup =
  wk_Token :: string
  wk_Deadline :: time

record pendingReplyContinuation =
  pen_episodeID :: string
  pen_interactionID :: string
  pen_subjectID :: string
  pen_traceID :: string
  pen_wakeup :: Wakeup
  pen_after :: ActionPhase

record ReplyAcceptanceWindow =
  raw_SubjectID :: string
  raw_OpenedAt :: time
  raw_Deadline :: time

record Engine =
  eng_config :: Config
  eng_ingress :: ingress
  eng_compiler :: Compiler
  eng_projector :: Projector
  eng_episodes :: Tracker
  eng_pendingReply :: "pendingReplyContinuation option"
  eng_replyWindow :: "ReplyAcceptanceWindow option"
  eng_policy :: RulePolicy
  eng_planner :: Planner

record Result =
  res_Events :: "SemanticEvent list"
  res_Decisions :: "Decision list"
  res_Plans :: "BehaviorPlan list"
  res_ActionStatuses :: "ActionStatus list"
  res_Outcomes :: "Outcome list"
  res_Warnings :: "string list"

definition zero_Result :: Result where
  "zero_Result = \<lparr>res_Events = [], res_Decisions = [], res_Plans = [], res_ActionStatuses = [],
                  res_Outcomes = [], res_Warnings = []\<rparr>"

definition Engine_New :: "Config \<Rightarrow> bool \<Rightarrow> goerror + Engine" where
  "Engine_New config depsPresent =
     (case Config_Validate config of
        Some err \<Rightarrow> Inl (Wrapf ''validate engine config'' err)
      | None \<Rightarrow>
          if \<not> depsPresent then Inl (Leaf ''driver, recorder, and clock are required'')
          else Inr \<lparr>eng_config = config, eng_ingress = newIngress,
                    eng_compiler = NewCompiler (cfg_ReturnAbsenceThreshold config),
                    eng_projector = NewProjector (cfg_SubjectID config),
                    eng_episodes = NewTracker,
                    eng_pendingReply = None, eng_replyWindow = None,
                    eng_policy = \<lparr>pol_Version = cfg_PolicyVersion config,
                                  pol_BehaviorVersion = cfg_BehaviorVersion config,
                                  pol_RandomSeed = cfg_RandomSeed config\<rparr>,
                    eng_planner = \<lparr>pln_ActionTimeout = cfg_ActionTimeout config\<rparr>\<rparr>)"

text \<open>The published reply window (\<^verbatim>\<open>reply_window.go\<close>): an atomic pointer, nil when closed.\<close>

definition replyWindow_publish :: "Engine \<Rightarrow> ReplyAcceptanceWindow \<Rightarrow> Engine" where
  "replyWindow_publish e window = e\<lparr>eng_replyWindow := Some window\<rparr>"

definition replyWindow_clear :: "Engine \<Rightarrow> Engine" where
  "replyWindow_clear e = e\<lparr>eng_replyWindow := None\<rparr>"

definition CurrentReplyAcceptanceWindow :: "Engine \<Rightarrow> ReplyAcceptanceWindow option" where
  "CurrentReplyAcceptanceWindow e = eng_replyWindow e"

definition Engine_Snapshot :: "Engine \<Rightarrow> WorldSnapshot" where
  "Engine_Snapshot e = Projector_Snapshot (eng_projector e)"

definition NextWakeup :: "Engine \<Rightarrow> Wakeup option" where
  "NextWakeup e = map_option pen_wakeup (eng_pendingReply e)"

section \<open>External calls\<close>

definition bestEffortAudit ::
    "('w \<Rightarrow> goerror option \<times> 'w) \<Rightarrow> Result \<Rightarrow> 'w \<Rightarrow> Result \<times> 'w" where
  "bestEffortAudit record' result w =
     (case record' w of
        (None, w') \<Rightarrow> (result, w')
      | (Some err, w') \<Rightarrow>
          (result\<lparr>res_Warnings := res_Warnings result @ [''audit unavailable: '' @ Error_text err]\<rparr>, w'))"

definition bestEffortAuditStatus :: "'w ports \<Rightarrow> ActionStatus \<Rightarrow> 'w \<Rightarrow> 'w" where
  "bestEffortAuditStatus P status w = snd (port_RecordActionStatus P status w)"

definition bestEffortControlAudit :: "('w \<Rightarrow> goerror option \<times> 'w) \<Rightarrow> 'w \<Rightarrow> 'w" where
  "bestEffortControlAudit record' w = snd (record' w)"

definition Engine_capabilities :: "'w ports \<Rightarrow> 'w \<Rightarrow> (goerror + Capabilities) \<times> 'w" where
  "Engine_capabilities P w =
     (case port_Capabilities P w of
        (Inl err, w') \<Rightarrow> (Inl (New_fault Unavailable ''read embodiment capabilities'' err), w')
      | (Inr caps, w') \<Rightarrow> (Inr caps, w'))"

type_synonym dispatch_result = "ActionStatus list \<times> goerror option"

text \<open>
  The inner loop of \<^verbatim>\<open>dispatchCommands\<close>: \<open>terminal\<close> is the first terminal state seen,
  \<open>malformed\<close> whether a status followed it.
\<close>

fun await_stream ::
    "'w ports \<Rightarrow> string \<Rightarrow> delivery list \<Rightarrow> ActionState option \<Rightarrow> bool \<Rightarrow> ActionStatus list \<Rightarrow> 'w \<Rightarrow>
     dispatch_result \<times> 'w" where
  "await_stream P op [] terminal malformed statuses w =
     (case terminal of
        None \<Rightarrow> ((statuses, Some (New_fault Unavailable op
                  (Leaf ''adapter status stream closed without a terminal state''))), w)
      | Some state \<Rightarrow>
          if malformed then
            ((statuses, Some (New_fault AdapterRejected op
                (Leaf ''adapter emitted status after a terminal state''))), w)
          else if state \<noteq> ActionCompleted then
            ((statuses, Some (New_fault AdapterRejected op
                (Leaf ''adapter ended action with terminal state %s''))), w)
          else ((statuses, None), w))"
| "await_stream P op (CtxDone err # ds) terminal malformed statuses w =
     ((statuses, Some (classifyContext op err)), w)"
| "await_stream P op (Received status # ds) terminal malformed statuses w =
     (let statuses' = statuses @ [status];
          w' = bestEffortAuditStatus P status w
      in case terminal of
           Some _ \<Rightarrow> await_stream P op ds terminal True statuses' w'
         | None \<Rightarrow>
             if isTerminalActionState (sta_State status)
             then await_stream P op ds (Some (sta_State status)) malformed statuses' w'
             else await_stream P op ds None malformed statuses' w')"

fun dispatch_from ::
    "'w ports \<Rightarrow> ActionCommand list \<Rightarrow> ActionStatus list \<Rightarrow> 'w \<Rightarrow> dispatch_result \<times> 'w" where
  "dispatch_from P [] statuses w = ((statuses, None), w)"
| "dispatch_from P (command # commands) statuses w =
     (case port_Execute P command w of
        (ExecError err, w1) \<Rightarrow>
          ((statuses, Some (New_fault AdapterRejected (''execute action '' @ com_ID command) err)), w1)
      | (NilStream, w1) \<Rightarrow>
          ((statuses, Some (New_fault Unavailable (''await action '' @ com_ID command)
              (Leaf ''adapter returned a nil status stream''))), w1)
      | (Stream ds, w1) \<Rightarrow>
          (case await_stream P (''await action '' @ com_ID command) ds None False statuses w1 of
             ((statuses', Some err), w2) \<Rightarrow> ((statuses', Some err), w2)
           | ((statuses', None), w2) \<Rightarrow> dispatch_from P commands statuses' w2))"

definition dispatchCommands ::
    "'w ports \<Rightarrow> ActionCommand list \<Rightarrow> 'w \<Rightarrow> dispatch_result \<times> 'w" where
  "dispatchCommands P commands w = dispatch_from P commands [] w"

section \<open>Process\<close>

definition acceptUserReply ::
    "'w ports \<Rightarrow> Engine \<Rightarrow> Result \<Rightarrow> SemanticEvent \<Rightarrow> 'w \<Rightarrow>
     dispatch_result \<times> Result \<times> Engine \<times> 'w" where
  "acceptUserReply P e result input w =
     (case eng_pendingReply e of
        None \<Rightarrow> (([], None), result, e, w)
      | Some pending \<Rightarrow>
          if pen_subjectID pending \<noteq> evt_SubjectID input then (([], None), result, e, w)
          else (case Tracker_Accept (eng_episodes e) (pen_episodeID pending) input of
              ((outcome, applied, Some err), t') \<Rightarrow>
                (([], Some (Wrapf (''accept user reply event '' @ evt_ID input) err)),
                 result, e\<lparr>eng_episodes := t'\<rparr>, w)
            | ((None, applied, None), t') \<Rightarrow> (([], None), result, e\<lparr>eng_episodes := t'\<rparr>, w)
            | ((Some outcome, applied, None), t') \<Rightarrow>
                let e1 = replyWindow_clear (e\<lparr>eng_episodes := t', eng_pendingReply := None\<rparr>);
                    result1 = result\<lparr>res_Outcomes := res_Outcomes result @ [outcome]\<rparr>;
                    (result2, w1) = bestEffortAudit (port_RecordOutcome P outcome) result1 w;
                    (now, w2) = port_Now P w1
                in (case dispatchCommands P (Phase_Commands (pen_after pending) now) w2 of
                      ((statuses, Some err), w3) \<Rightarrow>
                        ((statuses, Some (Wrapf (''dispatch accepted reply continuation '' @
                             pen_interactionID pending) err)), result2, e1, w3)
                    | ((statuses, None), w3) \<Rightarrow> ((statuses, None), result2, e1, w3))))"

text \<open>
  The end of a greeting (\<^verbatim>\<open>engine.go\<close>, from the dispatch of the first phase): dispatch, open the
  window, keep the continuation, publish the window.
\<close>

definition greet_dispatch ::
    "'w ports \<Rightarrow> Engine \<Rightarrow> Result \<Rightarrow> SemanticEvent \<Rightarrow> Decision \<Rightarrow> UserReplyPhases \<Rightarrow> string \<Rightarrow> 'w \<Rightarrow>
     (Result \<times> goerror option) \<times> Engine \<times> 'w" where
  "greet_dispatch P e result semanticEvent outcome phases episodeID w =
     (let (now1, w1) = port_Now P w;
          ((statuses, derr), w2) = dispatchCommands P (Phase_Commands (urp_Before phases) now1) w1;
          result1 = result\<lparr>res_ActionStatuses := res_ActionStatuses result @ statuses\<rparr>
      in (case derr of
            Some err \<Rightarrow> ((result1, Some err), e, w2)
          | None \<Rightarrow>
              let (openedAt, w3) = port_Now P w2;
                  wakeup = \<lparr>wk_Token = ''wakeup:'' @ episodeID @ '':user.reply'',
                            wk_Deadline = Add openedAt (urp_WaitFor phases)\<rparr>
              in (case OpenResponseWindow (eng_episodes e) episodeID (wk_Token wakeup) openedAt
                         (urp_WaitFor phases) of
                    (Some err, t') \<Rightarrow>
                      ((result1, Some (Wrapf (''open reply window for episode '' @ episodeID) err)),
                       e\<lparr>eng_episodes := t'\<rparr>, w3)
                  | (None, t') \<Rightarrow>
                      let e1 = e\<lparr>eng_episodes := t',
                                 eng_pendingReply := Some
                                   \<lparr>pen_episodeID = episodeID,
                                    pen_interactionID = dec_InteractionID outcome,
                                    pen_subjectID = evt_SubjectID semanticEvent,
                                    pen_traceID = dec_TraceID outcome,
                                    pen_wakeup = wakeup,
                                    pen_after = urp_After phases\<rparr>\<rparr>
                      in ((result1, None),
                          replyWindow_publish e1
                            \<lparr>raw_SubjectID = evt_SubjectID semanticEvent,
                             raw_OpenedAt = openedAt, raw_Deadline = wk_Deadline wakeup\<rparr>, w3))))"

text \<open>A decision that is not silent: plan, split, start the episode, then dispatch.\<close>

definition greet ::
    "'w ports \<Rightarrow> Engine \<Rightarrow> Result \<Rightarrow> SemanticEvent \<Rightarrow> Decision \<Rightarrow> time \<Rightarrow> 'w \<Rightarrow>
     (Result \<times> goerror option) \<times> Engine \<times> 'w" where
  "greet P e result semanticEvent outcome now w =
     (case Engine_capabilities P w of
        (Inl err, w1) \<Rightarrow> ((result, Some err), e, w1)
      | (Inr capabilities, w1) \<Rightarrow>
      (case Planner_Plan (eng_planner e) outcome capabilities now of
        Inl err \<Rightarrow> ((result, Some (Wrapf (''plan decision '' @ dec_ID outcome) err)), e, w1)
      | Inr plan \<Rightarrow>
      (case CompileUserReplyPhases plan of
        Inl err \<Rightarrow>
          ((result, Some (Wrapf (''compile reply phases for plan '' @ plan_ID plan) err)), e, w1)
      | Inr phases \<Rightarrow>
      (case eng_pendingReply e of
        Some _ \<Rightarrow>
          ((result, Some (New_fault PolicyBlocked ''start reply wait''
              (Leaf ''another reply continuation is pending''))), e, w1)
      | None \<Rightarrow>
          let episodeID = ''episode:'' @ dec_InteractionID outcome
          in (case Tracker_Start (eng_episodes e)
                 \<lparr>ep_ID = episodeID, ep_InteractionID = dec_InteractionID outcome,
                  ep_SubjectID = evt_SubjectID semanticEvent, ep_DecisionID = dec_ID outcome,
                  ep_TriggerEventID = evt_ID semanticEvent, ep_TraceID = dec_TraceID outcome,
                  ep_ConfigHash = dec_ConfigHash outcome, ep_StartedAt = now\<rparr> of
                (Some err, t') \<Rightarrow>
                  ((result, Some (Wrapf (''start episode for decision '' @ dec_ID outcome) err)),
                   e\<lparr>eng_episodes := t'\<rparr>, w1)
              | (None, t') \<Rightarrow>
                  let e1 = e\<lparr>eng_episodes := t'\<rparr>;
                      result1 = result\<lparr>res_Plans := res_Plans result @ [plan]\<rparr>;
                      (result2, w2) = bestEffortAudit (port_RecordPlan P plan) result1 w1
                  in greet_dispatch P e1 result2 semanticEvent outcome phases episodeID w2)))))"

text \<open>The body of the loop over the compiled events, up to its \<^verbatim>\<open>continue\<close> or \<^verbatim>\<open>return\<close>.\<close>

definition process_event ::
    "'w ports \<Rightarrow> Engine \<Rightarrow> Result \<Rightarrow> SemanticEvent \<Rightarrow> time \<Rightarrow> 'w \<Rightarrow>
     (Result \<times> goerror option) \<times> Engine \<times> 'w" where
  "process_event P e result semanticEvent now w =
     (let (result1, w1) = bestEffortAudit (port_RecordEvent P semanticEvent) result w in
      if evt_Kind semanticEvent = UserReplied then
        (let ((statuses, err), result2, e1, w2) = acceptUserReply P e result1 semanticEvent w1
         in ((result2\<lparr>res_ActionStatuses := res_ActionStatuses result2 @ statuses\<rparr>, err), e1, w2))
      else
        (let (snapshot, p') = Projector_Apply (eng_projector e) semanticEvent;
             e1 = e\<lparr>eng_projector := p'\<rparr>
         in (case decision_Evaluate (RulePolicy_Decide (eng_policy e1)) snapshot semanticEvent
                    (cfg_ConfigHash (eng_config e1)) of
               Inl err \<Rightarrow>
                 ((result1, Some (Wrapf (''evaluate event '' @ evt_ID semanticEvent) err)), e1, w1)
             | Inr None \<Rightarrow> ((result1, None), e1, w1)
             | Inr (Some outcome) \<Rightarrow>
                 let result2 = result1\<lparr>res_Decisions := res_Decisions result1 @ [outcome]\<rparr>;
                     (result3, w2) = bestEffortAudit (port_RecordDecision P outcome) result2 w1
                 in if dec_Kind outcome = Silent then ((result3, None), e1, w2)
                    else greet P e1 result3 semanticEvent outcome now w2)))"

fun process_events ::
    "'w ports \<Rightarrow> Engine \<Rightarrow> Result \<Rightarrow> SemanticEvent list \<Rightarrow> time \<Rightarrow> 'w \<Rightarrow>
     (Result \<times> goerror option) \<times> Engine \<times> 'w" where
  "process_events P e result [] now w = ((result, None), e, w)"
| "process_events P e result (ev # evs) now w =
     (case process_event P e result ev now w of
        ((result1, Some err), e1, w1) \<Rightarrow> ((result1, Some err), e1, w1)
      | ((result1, None), e1, w1) \<Rightarrow> process_events P e1 result1 evs now w1)"

definition Engine_Process ::
    "'w ports \<Rightarrow> Engine \<Rightarrow> goerror option \<Rightarrow> Observation \<Rightarrow> 'w \<Rightarrow>
     (Result \<times> goerror option) \<times> Engine \<times> 'w" where
  "Engine_Process P e ctxErr input w =
     (case ctxErr of
        Some err \<Rightarrow> ((zero_Result, Some (classifyContext ''process observation'' err)), e, w)
      | None \<Rightarrow>
          if obs_SubjectID input \<noteq> cfg_SubjectID (eng_config e) then
            ((zero_Result, Some (New_fault InvalidInput ''process observation''
                (Leaf ''subject %s does not match engine subject %s''))), e, w)
          else
            let (now, w1) = port_Now P w in
            (case ingress_accept (eng_ingress e) input now of
               (Some err, i') \<Rightarrow>
                 ((zero_Result, Some (Wrapf (''ingress observation '' @ obs_ID input) err)),
                  e\<lparr>eng_ingress := i'\<rparr>, w1)
             | (None, i') \<Rightarrow>
                 let (events, c') = Compiler_Compile (eng_compiler e) input;
                     e1 = e\<lparr>eng_ingress := i', eng_compiler := c'\<rparr>
                 in process_events P e1 (zero_Result\<lparr>res_Events := events\<rparr>) events now w1))"

section \<open>Wakeups and controls\<close>

definition AdvanceAt ::
    "'w ports \<Rightarrow> Engine \<Rightarrow> goerror option \<Rightarrow> Wakeup \<Rightarrow> 'w \<Rightarrow> (Result \<times> goerror option) \<times> Engine \<times> 'w" where
  "AdvanceAt P e ctxErr wakeup w =
     (case ctxErr of
        Some err \<Rightarrow> ((zero_Result, Some (classifyContext ''advance wakeup'' err)), e, w)
      | None \<Rightarrow>
      (case eng_pendingReply e of
        None \<Rightarrow> ((zero_Result, None), e, w)
      | Some pending \<Rightarrow>
          if pen_wakeup pending \<noteq> wakeup then ((zero_Result, None), e, w)
          else
            let (now, w1) = port_Now P w in
            if Before now (wk_Deadline wakeup) then ((zero_Result, None), e, w1)
            else
      (case NewResponseWindowExpired
              (''evt:'' @ wk_Token wakeup @ '':'' @ Kind_string ResponseWindowExpired)
              (pen_episodeID pending) (wk_Token wakeup) (pen_subjectID pending)
              (wk_Deadline wakeup) (pen_traceID pending) of
        Inl err \<Rightarrow> ((zero_Result, Some (Wrapf ''construct response window expiration'' err)), e, w1)
      | Inr expired \<Rightarrow>
      (case Tracker_Expire (eng_episodes e) (pen_episodeID pending) expired of
        ((outcome, applied, Some err), t') \<Rightarrow>
          ((zero_Result, Some (Wrapf (''expire response window for episode '' @
              pen_episodeID pending) err)), e\<lparr>eng_episodes := t'\<rparr>, w1)
      | ((outcome, False, None), t') \<Rightarrow> ((zero_Result, None), e\<lparr>eng_episodes := t'\<rparr>, w1)
      | ((None, True, None), t') \<Rightarrow>
          ((zero_Result, Some (Leaf ''expire response window returned no outcome'')),
           e\<lparr>eng_episodes := t'\<rparr>, w1)
      | ((Some outcome, True, None), t') \<Rightarrow>
          (case ApplyNoResponse (eng_projector e) expired (cfg_NoResponseCooldown (eng_config e)) of
             ((s, Some err), p') \<Rightarrow>
               ((zero_Result, Some (Wrapf (''project response window expiration '' @ evt_ID expired) err)),
                e\<lparr>eng_episodes := t', eng_projector := p'\<rparr>, w1)
           | ((s, None), p') \<Rightarrow>
               let e1 = replyWindow_clear
                          (e\<lparr>eng_episodes := t', eng_projector := p', eng_pendingReply := None\<rparr>);
                   result = zero_Result\<lparr>res_Events := [expired], res_Outcomes := [outcome]\<rparr>;
                   (result1, w2) = bestEffortAudit (port_RecordEvent P expired) result w1;
                   (result2, w3) = bestEffortAudit (port_RecordOutcome P outcome) result1 w2;
                   (now', w4) = port_Now P w3;
                   ((statuses, derr), w5) = dispatchCommands P (Phase_Commands (pen_after pending) now') w4;
                   result3 = result2\<lparr>res_ActionStatuses := res_ActionStatuses result2 @ statuses\<rparr>
               in ((result3,
                    map_option (Wrapf (''dispatch expired reply continuation '' @
                                  pen_interactionID pending)) derr), e1, w5))))))"

definition Engine_StopAll :: "'w ports \<Rightarrow> Command \<Rightarrow> 'w \<Rightarrow> goerror option \<times> 'w" where
  "Engine_StopAll P command w =
     (case Command_Validate command of
        Some err \<Rightarrow> (Some err, w)
      | None \<Rightarrow>
          (case port_StopAll P (ctl_Reason command) w of
             (Some err, w') \<Rightarrow> (Some (New_fault Unavailable ''stop all actions'' err), w')
           | (None, w') \<Rightarrow> (None, w')))"

definition CommitUserRejection ::
    "'w ports \<Rightarrow> Engine \<Rightarrow> goerror option \<Rightarrow> Command \<Rightarrow> 'w \<Rightarrow> goerror option \<times> Engine \<times> 'w" where
  "CommitUserRejection P e ctxErr command w =
     (case Command_Validate command of
        Some err \<Rightarrow> (Some err, e, w)
      | None \<Rightarrow>
          if ctl_Reason command \<noteq> ReasonUserRejected then
            (Some (New_fault InvalidInput ''commit user rejection''
                     (Leaf ''stop reason %q is not USER_REJECTED'')), e, w)
          else if ctl_SubjectID command \<noteq> cfg_SubjectID (eng_config e) then
            (Some (New_fault InvalidInput ''commit user rejection''
                     (Leaf ''subject %s does not match engine subject %s'')), e, w)
          else
      (case ctxErr of
        Some err \<Rightarrow> (Some (classifyContext ''commit user rejection'' err), e, w)
      | None \<Rightarrow>
      (case NewUserRejected (''evt:'' @ ctl_ID command @ '':'' @ Kind_string UserRejected)
              (ctl_SubjectID command) (ctl_OccurredAt command) (ctl_TraceID command) of
        Inl err \<Rightarrow>
          (Some (Wrapf (''construct rejection event for control '' @ ctl_ID command) err), e, w)
      | Inr feedback \<Rightarrow>
      (case Tracker_Reject (eng_episodes e) feedback of
        ((outcome, applied, Some err), t') \<Rightarrow>
          (Some (Wrapf (''apply rejection event '' @ evt_ID feedback) err), e\<lparr>eng_episodes := t'\<rparr>, w)
      | ((outcome, False, None), t') \<Rightarrow> (None, e\<lparr>eng_episodes := t'\<rparr>, w)
      | ((outcome, True, None), t') \<Rightarrow>
          (case ApplyUserRejection (eng_projector e) feedback (cfg_RejectionCooldown (eng_config e)) of
             ((s, Some err), p') \<Rightarrow>
               (Some (Wrapf (''project rejection event '' @ evt_ID feedback) err),
                e\<lparr>eng_episodes := t', eng_projector := p'\<rparr>, w)
           | ((s, None), p') \<Rightarrow>
               let e1 = e\<lparr>eng_episodes := t', eng_projector := p'\<rparr>;
                   e2 = (case (outcome, eng_pendingReply e1) of
                           (Some x, Some pending) \<Rightarrow>
                             if out_InteractionID x = pen_interactionID pending
                             then replyWindow_clear (e1\<lparr>eng_pendingReply := None\<rparr>) else e1
                         | _ \<Rightarrow> e1);
                   w1 = bestEffortControlAudit (port_RecordEvent P feedback) w;
                   w2 = (case outcome of None \<Rightarrow> w1
                         | Some x \<Rightarrow> bestEffortControlAudit (port_RecordOutcome P x) w1)
               in (None, e2, w2))))))"

end
