(* ===== verification/Engine_Inv.thy ===== *)
theory Engine_Inv
  imports Engine
begin

text \<open>
  The invariant of the engine and its preservation by every operation, against every
  behaviour of the ports. It says that the configuration is valid, that projector, compiler
  and tracker belong to it, that the pending continuation, the tracker's window and the
  published reply window are one and the same thing, and that identifiers already consumed
  can never meet the identifiers of the episode in progress.
\<close>

section \<open>Derived identifiers\<close>

definition trigger_id :: "string \<Rightarrow> string" where
  "trigger_id oid = ''evt:'' @ oid @ '':'' @ Kind_string PersonReturned"

definition reply_id :: "string \<Rightarrow> string" where
  "reply_id oid = ''evt:'' @ oid @ '':'' @ Kind_string UserReplied"

definition rejection_id :: "string \<Rightarrow> string" where
  "rejection_id cid = ''evt:'' @ cid @ '':'' @ Kind_string UserRejected"

definition episode_id :: "string \<Rightarrow> string" where
  "episode_id oid = ''episode:'' @ ''interaction:'' @ trigger_id oid"

definition wakeup_token :: "string \<Rightarrow> string" where
  "wakeup_token epid = ''wakeup:'' @ epid @ '':user.reply''"

definition expiry_id :: "string \<Rightarrow> string" where
  "expiry_id epid = ''evt:'' @ wakeup_token epid @ '':'' @ Kind_string ResponseWindowExpired"

section \<open>The invariant\<close>

definition reply_sync :: "Engine \<Rightarrow> bool" where
  "reply_sync e =
     (case eng_pendingReply e of
        None \<Rightarrow> eng_replyWindow e = None \<and> trk_responseWindow (eng_episodes e) = None
      | Some p \<Rightarrow>
          (case (trk_active (eng_episodes e), trk_responseWindow (eng_episodes e)) of
             (Some ep, Some win) \<Rightarrow>
               pen_episodeID p = ep_ID ep \<and> pen_interactionID p = ep_InteractionID ep \<and>
               pen_subjectID p = ep_SubjectID ep \<and> pen_traceID p = ep_TraceID ep \<and>
               pen_wakeup p = \<lparr>wk_Token = win_Token win, wk_Deadline = win_Deadline win\<rparr> \<and>
               win_Token win = wakeup_token (ep_ID ep) \<and>
               eng_replyWindow e = Some \<lparr>raw_SubjectID = ep_SubjectID ep,
                 raw_OpenedAt = win_OpenedAt win, raw_Deadline = win_Deadline win\<rparr>
           | _ \<Rightarrow> False))"

definition seen :: "Engine \<Rightarrow> string set" where
  "seen e = ing_seenIDs (eng_ingress e)"

definition ids_fresh :: "Engine \<Rightarrow> bool" where
  "ids_fresh e =
     (dom (trk_processedExpirations (eng_episodes e)) \<subseteq> (expiry_id \<circ> episode_id) ` seen e \<and>
      trk_processedFeedbackEvents (eng_episodes e) \<subseteq> reply_id ` seen e \<union> range rejection_id \<and>
      (case trk_active (eng_episodes e) of
         None \<Rightarrow> True
       | Some ep \<Rightarrow>
           ep_SubjectID ep = cfg_SubjectID (eng_config e) \<and>
           ep_ID ep \<in> episode_id ` seen e \<and>
           ep_ID ep = ''episode:'' @ ep_InteractionID ep \<and>
           trk_processedExpirations (eng_episodes e) (expiry_id (ep_ID ep)) = None))"

definition parts_ok :: "Engine \<Rightarrow> bool" where
  "parts_ok e =
     (Config_Validate (eng_config e) = None \<and>
      snap_SubjectID (prj_snapshot (eng_projector e)) = cfg_SubjectID (eng_config e) \<and>
      cmp_returnAbsenceThreshold (eng_compiler e) = cfg_ReturnAbsenceThreshold (eng_config e) \<and>
      pol_Version (eng_policy e) = cfg_PolicyVersion (eng_config e) \<and>
      pln_ActionTimeout (eng_planner e) = cfg_ActionTimeout (eng_config e) \<and>
      snapshot_ok (prj_snapshot (eng_projector e)))"

definition engine_inv :: "Engine \<Rightarrow> bool" where
  "engine_inv e = (parts_ok e \<and> tracker_ok (eng_episodes e) \<and> reply_sync e \<and> ids_fresh e)"

text \<open>An observation whose derived identifiers have not been consumed.\<close>

definition obs_fresh :: "Engine \<Rightarrow> string \<Rightarrow> bool" where
  "obs_fresh e oid =
     (oid \<in> seen e \<and> trk_processedExpirations (eng_episodes e) (expiry_id (episode_id oid)) = None \<and>
      reply_id oid \<notin> trk_processedFeedbackEvents (eng_episodes e) \<and>
      (\<forall>ep. trk_active (eng_episodes e) = Some ep \<longrightarrow> ep_ID ep \<noteq> episode_id oid))"

section \<open>Identifiers do not collide\<close>

lemmas id_defs = trigger_id_def reply_id_def rejection_id_def episode_id_def wakeup_token_def expiry_id_def

lemma reply_id_inject [simp]: "reply_id a = reply_id b \<longleftrightarrow> a = b"
  by (simp add: reply_id_def)

lemma episode_id_inject [simp]: "episode_id a = episode_id b \<longleftrightarrow> a = b"
  by (simp add: episode_id_def trigger_id_def)

lemma expiry_id_inject [simp]: "expiry_id a = expiry_id b \<longleftrightarrow> a = b"
  by (simp add: expiry_id_def wakeup_token_def)

lemma reply_id_neq_rejection_id [simp]: "reply_id a \<noteq> rejection_id b"
proof
  assume "reply_id a = rejection_id b"
  then have "(''evt:'' @ a @ '':'') @ ''USER_REPLIED'' = (''evt:'' @ b @ '':'') @ ''USER_REJECTED''"
    by (simp add: reply_id_def rejection_id_def)
  then show False by (drule_tac append_literal_cong) simp
qed

lemma ids_nonempty [simp]:
  "trigger_id a \<noteq> []" "reply_id a \<noteq> []" "rejection_id a \<noteq> []" "episode_id a \<noteq> []"
  "wakeup_token a \<noteq> []" "expiry_id a \<noteq> []"
  by (simp_all add: id_defs)

section \<open>The dispatched part of a greeting\<close>

text \<open>The engine a greeting leaves behind once its reply window is open.\<close>

definition waiting_engine ::
    "Engine \<Rightarrow> string \<Rightarrow> SemanticEvent \<Rightarrow> Decision \<Rightarrow> UserReplyPhases \<Rightarrow> time \<Rightarrow> Engine" where
  "waiting_engine e epid ev d ph opened =
     e\<lparr>eng_episodes := (eng_episodes e)\<lparr>trk_responseWindow :=
          Some \<lparr>win_Token = wakeup_token epid, win_OpenedAt = opened,
                win_Deadline = opened + urp_WaitFor ph\<rparr>\<rparr>,
       eng_pendingReply := Some
         \<lparr>pen_episodeID = epid, pen_interactionID = dec_InteractionID d,
          pen_subjectID = evt_SubjectID ev, pen_traceID = dec_TraceID d,
          pen_wakeup = \<lparr>wk_Token = wakeup_token epid, wk_Deadline = opened + urp_WaitFor ph\<rparr>,
          pen_after = urp_After ph\<rparr>,
       eng_replyWindow := Some
         \<lparr>raw_SubjectID = evt_SubjectID ev, raw_OpenedAt = opened,
          raw_Deadline = opened + urp_WaitFor ph\<rparr>\<rparr>"

lemma OpenResponseWindow_error:
  "OpenResponseWindow t i tok opened d = (Some err, t') \<Longrightarrow> t' = t"
  by (cases "trk_active t"; cases "trk_responseWindow t")
    (simp_all add: OpenResponseWindow_def Let_def split: if_splits)

lemma OpenResponseWindow_first:
  assumes "OpenResponseWindow t i tok opened d = (None, t')" "trk_responseWindow t = None"
  shows "\<exists>ep. trk_active t = Some ep \<and> ep_ID ep = i \<and> 0 < d \<and> ep_StartedAt ep \<le> opened \<and>
    t' = t\<lparr>trk_responseWindow :=
      Some \<lparr>win_Token = tok, win_OpenedAt = opened, win_Deadline = opened + d\<rparr>\<rparr>"
  using assms
  by (cases "trk_active t") (simp_all add: OpenResponseWindow_def Let_def not_less not_le split: if_splits)

lemma greet_dispatch_engine:
  assumes "trk_responseWindow (eng_episodes e) = None"
  obtains (kept) "fst (snd (greet_dispatch P e r ev d ph epid w)) = e"
      "snd (fst (greet_dispatch P e r ev d ph epid w)) \<noteq> None"
  | (waiting) opened where
      "fst (snd (greet_dispatch P e r ev d ph epid w)) = waiting_engine e epid ev d ph opened"
      "snd (fst (greet_dispatch P e r ev d ph epid w)) = None"
      "\<exists>ep. trk_active (eng_episodes e) = Some ep \<and> ep_ID ep = epid \<and> ep_StartedAt ep \<le> opened"
      "0 < urp_WaitFor ph"
proof (cases "snd (fst (dispatchCommands P (Phase_Commands (urp_Before ph) (fst (port_Now P w)))
                          (snd (port_Now P w))))")
  case (Some err)
  then show ?thesis
    by (intro kept) (simp_all add: greet_dispatch_def Let_def case_prod_beta)
next
  case None
  let ?w2 = "snd (dispatchCommands P (Phase_Commands (urp_Before ph) (fst (port_Now P w))) (snd (port_Now P w)))"
  let ?opened = "fst (port_Now P ?w2)"
  obtain res t' where o: "OpenResponseWindow (eng_episodes e) epid
        (''wakeup:'' @ epid @ '':user.reply'') ?opened (urp_WaitFor ph) = (res, t')" by fastforce
  show ?thesis
  proof (cases res)
    case (Some err)
    with o None show ?thesis
      by (intro kept) (simp_all add: greet_dispatch_def Let_def case_prod_beta
          OpenResponseWindow_error [OF o [unfolded Some]])
  next
    case res: None
    with o None OpenResponseWindow_first [OF o [unfolded res] assms] show ?thesis
      by (intro waiting [of ?opened])
        (auto simp: greet_dispatch_def Let_def case_prod_beta waiting_engine_def
          replyWindow_publish_def wakeup_token_def)
  qed
qed

text \<open>The episode a greeting starts.\<close>

definition new_episode :: "SemanticEvent \<Rightarrow> Decision \<Rightarrow> time \<Rightarrow> Episode" where
  "new_episode ev d now =
     \<lparr>ep_ID = ''episode:'' @ dec_InteractionID d, ep_InteractionID = dec_InteractionID d,
      ep_SubjectID = evt_SubjectID ev, ep_DecisionID = dec_ID d, ep_TriggerEventID = evt_ID ev,
      ep_TraceID = dec_TraceID d, ep_ConfigHash = dec_ConfigHash d, ep_StartedAt = now\<rparr>"

definition started_engine :: "Engine \<Rightarrow> SemanticEvent \<Rightarrow> Decision \<Rightarrow> time \<Rightarrow> Engine" where
  "started_engine e ev d now =
     e\<lparr>eng_episodes := (eng_episodes e)\<lparr>trk_active := Some (new_episode ev d now)\<rparr>\<rparr>"

lemma Tracker_Start_error: "Tracker_Start t ep = (Some err, t') \<Longrightarrow> t' = t"
  by (auto simp: Tracker_Start_def split: option.splits if_splits)

lemma Tracker_Start_None:
  "Tracker_Start t ep = (None, t') \<Longrightarrow>
     Episode_Validate ep = None \<and> t' = t\<lparr>trk_active := Some ep\<rparr> \<and>
     (trk_active t = None \<or> trk_active t = Some ep)"
  by (auto simp: Tracker_Start_def split: option.splits if_splits)

lemma reply_sync_pending_None:
  "reply_sync e \<Longrightarrow> eng_pendingReply e = None \<Longrightarrow> trk_responseWindow (eng_episodes e) = None"
  by (simp add: reply_sync_def)

text \<open>
  A greeting either fails before it changes the engine, or starts its episode, records its
  plan and goes on to dispatch.
\<close>

lemma greet_cases:
  obtains (kept) "fst (snd (greet P e r ev d now w)) = e" "snd (fst (greet P e r ev d now w)) \<noteq> None"
      "fst (fst (greet P e r ev d now w)) = r"
      "snd (snd (greet P e r ev d now w)) = snd (port_Capabilities P w)"
  | (dispatched) caps plan ph where
      "fst (port_Capabilities P w) = Inr caps"
      "Planner_Plan (eng_planner e) d caps now = Inr plan" "CompileUserReplyPhases plan = Inr ph"
      "eng_pendingReply e = None" "Episode_Validate (new_episode ev d now) = None"
      "trk_active (eng_episodes e) = None \<or> trk_active (eng_episodes e) = Some (new_episode ev d now)"
      "greet P e r ev d now w =
         (let rw = bestEffortAudit (port_RecordPlan P plan) (r\<lparr>res_Plans := res_Plans r @ [plan]\<rparr>)
                     (snd (port_Capabilities P w))
          in greet_dispatch P (started_engine e ev d now) (fst rw) ev d ph
               (''episode:'' @ dec_InteractionID d) (snd rw))"
proof (cases "fst (port_Capabilities P w)")
  case (Inl err)
  then show ?thesis
    by (intro kept) (simp_all add: greet_def Engine_capabilities_def case_prod_beta)
next
  case caps: (Inr caps)
  then have "Engine_capabilities P w = (Inr caps, snd (port_Capabilities P w))"
    by (simp add: Engine_capabilities_def case_prod_beta)
  note g = greet_def this case_prod_beta Let_def
  show ?thesis
  proof (cases "Planner_Plan (eng_planner e) d caps now")
    case (Inl err)
    then show ?thesis by (intro kept) (simp_all add: g)
  next
    case plan: (Inr plan)
    show ?thesis
    proof (cases "CompileUserReplyPhases plan")
      case (Inl err)
      then show ?thesis by (intro kept) (simp_all add: g plan)
    next
      case ph: (Inr ph)
      obtain res t' where s: "Tracker_Start (eng_episodes e) (new_episode ev d now) = (res, t')"
        by fastforce
      show ?thesis
      proof (cases "eng_pendingReply e = None \<and> res = None")
        case True
        note st = Tracker_Start_None [OF s [unfolded conjunct2 [OF True]]]
        with s True show ?thesis
          by (intro dispatched [OF caps plan ph])
            (simp_all add: g plan ph new_episode_def started_engine_def)
      next
        case False
        then show ?thesis
          using s Tracker_Start_error [of "eng_episodes e" "new_episode ev d now" _ t']
          by (intro kept; cases "eng_pendingReply e"; cases res)
            (simp_all add: g plan ph new_episode_def)
      qed
    qed
  qed
qed

lemma greet_engine:
  assumes sync: "reply_sync e"
  obtains (kept) "fst (snd (greet P e r ev d now w)) = e" "snd (fst (greet P e r ev d now w)) \<noteq> None"
  | (started) "fst (snd (greet P e r ev d now w)) = started_engine e ev d now"
      "snd (fst (greet P e r ev d now w)) \<noteq> None"
      "Episode_Validate (new_episode ev d now) = None" "eng_pendingReply e = None"
      "trk_active (eng_episodes e) = None \<or> trk_active (eng_episodes e) = Some (new_episode ev d now)"
  | (waiting) ph opened where
      "fst (snd (greet P e r ev d now w)) =
         waiting_engine (started_engine e ev d now) (''episode:'' @ dec_InteractionID d) ev d ph opened"
      "snd (fst (greet P e r ev d now w)) = None"
      "Episode_Validate (new_episode ev d now) = None" "eng_pendingReply e = None"
      "trk_active (eng_episodes e) = None \<or> trk_active (eng_episodes e) = Some (new_episode ev d now)"
      "now \<le> opened" "0 < urp_WaitFor ph"
proof (cases rule: greet_cases [of P e r ev d now w])
  case kept
  then show ?thesis by (intro that(1))
next
  case (dispatched caps plan ph)
  let ?e1 = "started_engine e ev d now"
  let ?rw = "bestEffortAudit (port_RecordPlan P plan) (r\<lparr>res_Plans := res_Plans r @ [plan]\<rparr>)
               (snd (port_Capabilities P w))"
  have win: "trk_responseWindow (eng_episodes ?e1) = None"
    using reply_sync_pending_None [OF sync dispatched(4)] by (simp add: started_engine_def)
  show ?thesis
  proof (cases rule: greet_dispatch_engine [OF win, of P "fst ?rw" ev d ph
        "''episode:'' @ dec_InteractionID d" "snd ?rw"])
    case 1
    with dispatched show ?thesis by (intro that(2)) (simp_all add: Let_def)
  next
    case (2 opened)
    with dispatched show ?thesis
      by (intro that(3) [of ph opened]) (simp_all add: Let_def started_engine_def new_episode_def)
  qed
qed

section \<open>Preservation\<close>

lemma waiting_engine_sel [simp]:
  "eng_config (waiting_engine e i ev d ph t) = eng_config e"
  "eng_ingress (waiting_engine e i ev d ph t) = eng_ingress e"
  "eng_compiler (waiting_engine e i ev d ph t) = eng_compiler e"
  "eng_projector (waiting_engine e i ev d ph t) = eng_projector e"
  "eng_policy (waiting_engine e i ev d ph t) = eng_policy e"
  "eng_planner (waiting_engine e i ev d ph t) = eng_planner e"
  "seen (waiting_engine e i ev d ph t) = seen e"
  by (simp_all add: waiting_engine_def seen_def)

lemma started_engine_sel [simp]:
  "eng_config (started_engine e ev d t) = eng_config e"
  "eng_ingress (started_engine e ev d t) = eng_ingress e"
  "eng_compiler (started_engine e ev d t) = eng_compiler e"
  "eng_projector (started_engine e ev d t) = eng_projector e"
  "eng_policy (started_engine e ev d t) = eng_policy e"
  "eng_planner (started_engine e ev d t) = eng_planner e"
  "eng_pendingReply (started_engine e ev d t) = eng_pendingReply e"
  "eng_replyWindow (started_engine e ev d t) = eng_replyWindow e"
  "seen (started_engine e ev d t) = seen e"
  by (simp_all add: started_engine_def seen_def)

lemma started_engine_inv:
  assumes inv: "engine_inv e" and fresh: "obs_fresh e oid"
    and ev: "evt_SubjectID ev = cfg_SubjectID (eng_config e)"
      "dec_InteractionID d = ''interaction:'' @ trigger_id oid"
    and st: "Episode_Validate (new_episode ev d now) = None" "eng_pendingReply e = None"
      "trk_active (eng_episodes e) = None \<or> trk_active (eng_episodes e) = Some (new_episode ev d now)"
  shows "engine_inv (started_engine e ev d now)"
proof -
  have "tracker_ok (eng_episodes (started_engine e ev d now))"
    using inv st by (auto simp: engine_inv_def tracker_ok_def started_engine_def reply_sync_def)
  moreover have "reply_sync (started_engine e ev d now)"
    using inv st by (auto simp: engine_inv_def reply_sync_def started_engine_def)
  moreover have "ids_fresh (started_engine e ev d now)"
    using inv fresh ev
    by (auto simp: engine_inv_def ids_fresh_def obs_fresh_def started_engine_def new_episode_def
        seen_def episode_id_def)
  moreover have "parts_ok (started_engine e ev d now)"
    using inv by (simp add: engine_inv_def parts_ok_def)
  ultimately show ?thesis by (simp add: engine_inv_def)
qed

lemma waiting_engine_inv:
  assumes inv: "engine_inv e" and ep: "trk_active (eng_episodes e) = Some ep"
    and "ep_ID ep = i" "ep_SubjectID ep = evt_SubjectID ev" "ep_InteractionID ep = dec_InteractionID d"
      "ep_TraceID ep = dec_TraceID d" "ep_StartedAt ep \<le> opened" "0 < urp_WaitFor ph"
  shows "engine_inv (waiting_engine e i ev d ph opened)"
proof -
  have "tracker_ok (eng_episodes (waiting_engine e i ev d ph opened))"
    using assms by (simp add: engine_inv_def tracker_ok_def waiting_engine_def)
  moreover have "reply_sync (waiting_engine e i ev d ph opened)"
    using assms by (simp add: reply_sync_def waiting_engine_def)
  moreover have "ids_fresh (waiting_engine e i ev d ph opened)"
    using inv ep by (auto simp: engine_inv_def ids_fresh_def waiting_engine_def seen_def)
  moreover have "parts_ok (waiting_engine e i ev d ph opened)"
    using inv by (simp add: engine_inv_def parts_ok_def)
  ultimately show ?thesis by (simp add: engine_inv_def)
qed

lemma greet_inv:
  assumes inv: "engine_inv e" and fresh: "obs_fresh e oid"
    and ev: "evt_SubjectID ev = cfg_SubjectID (eng_config e)"
      "dec_InteractionID d = ''interaction:'' @ trigger_id oid"
  shows "engine_inv (fst (snd (greet P e r ev d now w)))"
proof -
  have sync: "reply_sync e" using inv by (simp add: engine_inv_def)
  show ?thesis
  proof (cases rule: greet_engine [OF sync, of P r ev d now w])
    case 1
    with inv show ?thesis by simp
  next
    case 2
    with inv fresh ev show ?thesis by (simp add: started_engine_inv)
  next
    case (3 ph opened)
    have "engine_inv (started_engine e ev d now)"
      by (rule started_engine_inv [OF inv fresh ev 3(3-5)])
    then show ?thesis
      unfolding 3(1)
      by (rule waiting_engine_inv [of _ "new_episode ev d now"])
        (use 3(6,7) in \<open>simp_all add: started_engine_def new_episode_def\<close>)
  qed
qed

text \<open>What the invariant says of a pending continuation.\<close>

lemma pendingE:
  assumes "engine_inv e" "eng_pendingReply e = Some p"
  obtains ep win where "trk_active (eng_episodes e) = Some ep"
    "trk_responseWindow (eng_episodes e) = Some win" "pen_episodeID p = ep_ID ep"
    "pen_interactionID p = ep_InteractionID ep" "pen_subjectID p = ep_SubjectID ep"
    "pen_traceID p = ep_TraceID ep" "ep_SubjectID ep = cfg_SubjectID (eng_config e)"
    "pen_wakeup p = \<lparr>wk_Token = win_Token win, wk_Deadline = win_Deadline win\<rparr>"
    "win_Token win = wakeup_token (ep_ID ep)"
    "eng_replyWindow e = Some \<lparr>raw_SubjectID = ep_SubjectID ep, raw_OpenedAt = win_OpenedAt win,
       raw_Deadline = win_Deadline win\<rparr>"
    "trk_processedExpirations (eng_episodes e) (expiry_id (ep_ID ep)) = None"
    "Episode_Validate ep = None" "tracker_ok (eng_episodes e)"
  using assms
  by (cases "trk_active (eng_episodes e)"; cases "trk_responseWindow (eng_episodes e)")
    (auto simp: engine_inv_def reply_sync_def ids_fresh_def tracker_ok_active)

text \<open>
  Accepting a reply. The tracker either keeps its episode and window (and consumes the reply),
  or ends the episode; in the second case the continuation is taken out before it is dispatched.
\<close>

lemma Tracker_Accept_cases:
  assumes ok: "tracker_ok t" and ep: "trk_active t = Some ep" and win: "trk_responseWindow t = Some win"
    and i: "ValidateUserReply i = None" "ep_ID ep = x" "ep_SubjectID ep = evt_SubjectID i"
      "evt_ID i \<notin> trk_processedFeedbackEvents t"
  shows "Tracker_Accept t x i =
    (let t1 = t\<lparr>trk_processedFeedbackEvents := insert (evt_ID i) (trk_processedFeedbackEvents t)\<rparr> in
     if win_OpenedAt win \<le> evt_OccurredAt i \<and> evt_OccurredAt i < win_Deadline win
     then ((Some (make_outcome Accepted ReasonUserReplied ep i), True, None),
           t1\<lparr>trk_active := None, trk_responseWindow := None\<rparr>)
     else ((None, True, None), t1))"
proof -
  have "ep_ID ep \<noteq> []" using tracker_ok_active [OF ok ep] by (simp add: validate_simps)
  moreover have "Outcome_Validate (make_outcome Accepted ReasonUserReplied ep i) = None"
    using i(1) by (intro Outcome_Validate_make tracker_ok_active [OF ok ep]) (auto simp: validate_simps)
  ultimately show ?thesis
    using assms
    by (auto simp: Tracker_Accept_def Let_def finish_episode_ok not_le not_less)
qed

text \<open>The engine after a reply that the open window accepts, and after one it does not.\<close>

definition consume_reply :: "Engine \<Rightarrow> SemanticEvent \<Rightarrow> Engine" where
  "consume_reply e ev =
     e\<lparr>eng_episodes := (eng_episodes e)\<lparr>trk_processedFeedbackEvents :=
         insert (evt_ID ev) (trk_processedFeedbackEvents (eng_episodes e))\<rparr>\<rparr>"

definition closed_engine :: "Engine \<Rightarrow> Engine" where
  "closed_engine e =
     e\<lparr>eng_episodes := (eng_episodes e)\<lparr>trk_active := None, trk_responseWindow := None\<rparr>,
       eng_pendingReply := None, eng_replyWindow := None\<rparr>"

definition reply_in_window :: "Engine \<Rightarrow> time \<Rightarrow> bool" where
  "reply_in_window e t =
     (case eng_replyWindow e of None \<Rightarrow> False
      | Some win \<Rightarrow> raw_OpenedAt win \<le> t \<and> t < raw_Deadline win)"

lemma acceptUserReply_engine:
  assumes inv: "engine_inv e" and fresh: "evt_ID ev \<notin> trk_processedFeedbackEvents (eng_episodes e)"
    and ev: "ValidateUserReply ev = None" "evt_SubjectID ev = cfg_SubjectID (eng_config e)"
  shows "fst (snd (snd (acceptUserReply P e r ev w))) =
    (if eng_pendingReply e = None then e
     else if reply_in_window e (evt_OccurredAt ev) then closed_engine (consume_reply e ev)
     else consume_reply e ev)"
proof (cases "eng_pendingReply e")
  case None
  then show ?thesis by (simp add: acceptUserReply_def)
next
  case (Some p)
  with inv obtain ep win where ep: "trk_active (eng_episodes e) = Some ep"
    "trk_responseWindow (eng_episodes e) = Some win" "pen_episodeID p = ep_ID ep"
    "pen_subjectID p = ep_SubjectID ep" "ep_SubjectID ep = cfg_SubjectID (eng_config e)"
    "eng_replyWindow e = Some \<lparr>raw_SubjectID = ep_SubjectID ep, raw_OpenedAt = win_OpenedAt win,
       raw_Deadline = win_Deadline win\<rparr>" and ok: "tracker_ok (eng_episodes e)"
    by (rule pendingE)
  have subj: "ep_SubjectID ep = evt_SubjectID ev" using ep ev by simp
  show ?thesis
    using Some ep ev subj
    by (simp add: acceptUserReply_def Tracker_Accept_cases [OF ok ep(1,2) ev(1) refl subj fresh]
        reply_in_window_def Let_def case_prod_beta replyWindow_clear_def consume_reply_def
        closed_engine_def split: option.splits)
qed

lemma consume_reply_inv:
  assumes "engine_inv e" "evt_ID ev = reply_id oid" "oid \<in> seen e"
  shows "engine_inv (consume_reply e ev)"
  using assms
  by (auto simp: engine_inv_def parts_ok_def tracker_ok_def reply_sync_def ids_fresh_def
      consume_reply_def seen_def split: option.splits)

lemma closed_engine_inv: "engine_inv e \<Longrightarrow> engine_inv (closed_engine e)"
  by (simp add: engine_inv_def parts_ok_def tracker_ok_def reply_sync_def ids_fresh_def
      closed_engine_def seen_def)

text \<open>What an event compiled from an observation inherits from it.\<close>

definition event_of :: "SemanticEvent \<Rightarrow> Observation \<Rightarrow> bool" where
  "event_of ev x =
     (evt_ID ev = ''evt:'' @ obs_ID x @ '':'' @ Kind_string (evt_Kind ev) \<and>
      evt_SubjectID ev = obs_SubjectID x \<and> evt_OccurredAt ev = obs_OccurredAt x \<and>
      evt_TraceID ev = obs_TraceID x)"

lemma step_timeline_event: "snd (step_timeline d t x) = Some ev \<Longrightarrow> event_of ev x"
  by (auto simp: step_timeline_def compile_presence_def compile_busy_def compile_quiet_def
      event_of_def Let_def split: option.splits payload.splits if_splits)

lemma Compile_event:
  "fst (Compiler_Compile c x) = [] \<or> (\<exists>ev. fst (Compiler_Compile c x) = [ev] \<and> event_of ev x)"
  by (cases "snd (step_timeline (cmp_returnAbsenceThreshold c) (timeline_of c (obs_SubjectID x)) x)")
    (simp_all add: Compile_step Let_def case_prod_beta step_timeline_event)

abbreviation projected :: "Engine \<Rightarrow> SemanticEvent \<Rightarrow> Engine" where
  "projected e ev \<equiv> e\<lparr>eng_projector := snd (Projector_Apply (eng_projector e) ev)\<rparr>"

lemma projected_inv: "engine_inv e \<Longrightarrow> engine_inv (projected e ev)"
  by (auto simp: engine_inv_def parts_ok_def reply_sync_def ids_fresh_def seen_def frame_simps
      snapshot_ok_Apply split: option.splits)

lemma obs_fresh_projected [simp]: "obs_fresh (projected e ev) oid = obs_fresh e oid"
  by (simp add: obs_fresh_def seen_def)

definition decide_on :: "Engine \<Rightarrow> SemanticEvent \<Rightarrow> Decision" where
  "decide_on e ev =
     RulePolicy_Decide (eng_policy e)
       \<lparr>in_Snapshot = prj_snapshot (snd (Projector_Apply (eng_projector e) ev)),
        in_Opportunity = \<lparr>opp_Kind = WelcomeAfterReturn, opp_EventID = evt_ID ev\<rparr>,
        in_Event = ev, in_ConfigHash = cfg_ConfigHash (eng_config e)\<rparr>"

lemma decide_on_sel:
  "dec_InteractionID (decide_on e ev) = ''interaction:'' @ evt_ID ev"
  "dec_ID (decide_on e ev) = ''decision:'' @ evt_ID ev"
  "dec_TraceID (decide_on e ev) = evt_TraceID ev"
  "dec_ConfigHash (decide_on e ev) = cfg_ConfigHash (eng_config e)"
  "dec_Kind (decide_on e ev) =
     (if suppressed (prj_snapshot (snd (Projector_Apply (eng_projector e) ev))) (evt_OccurredAt ev)
      then Silent else GreetShort)"
  by (simp_all add: decide_on_def rule_policy.decide_simps)

text \<open>
  The loop body on an identified event, branch by branch: a reply, a state change that is no
  opportunity, a suppressed opportunity, and a greeting.
\<close>

lemma process_event_reply:
  assumes "evt_Kind ev = UserReplied"
  shows "process_event P e r ev now w =
    (let (r1, w1) = bestEffortAudit (port_RecordEvent P ev) r w;
         ((sts, err), r2, e1, w2) = acceptUserReply P e r1 ev w1
     in ((r2\<lparr>res_ActionStatuses := res_ActionStatuses r2 @ sts\<rparr>, err), e1, w2))"
  using assms by (simp add: process_event_def)

lemma process_event_other:
  assumes "evt_ID ev \<noteq> []" "evt_TraceID ev \<noteq> []" "evt_Kind ev \<noteq> UserReplied"
  shows "process_event P e r ev now w =
    (let (r1, w1) = bestEffortAudit (port_RecordEvent P ev) r w in
     if evt_Kind ev \<noteq> PersonReturned then ((r1, None), projected e ev, w1)
     else let d = decide_on e ev;
              (r3, w2) = bestEffortAudit (port_RecordDecision P d)
                           (r1\<lparr>res_Decisions := res_Decisions r1 @ [d]\<rparr>) w1
          in if dec_Kind d = Silent then ((r3, None), projected e ev, w2)
             else greet P (projected e ev) r3 ev d now w2)"
  using assms
  by (simp add: process_event_def rule_policy.Evaluate_total case_prod_beta Let_def decide_on_def
      Projector_Apply_snapshot)

lemma process_event_inv:
  assumes inv: "engine_inv e" and fresh: "obs_fresh e (obs_ID x)" and ev: "event_of ev x"
    and x: "obs_SubjectID x = cfg_SubjectID (eng_config e)" "obs_TraceID x \<noteq> []" "obs_OccurredAt x \<noteq> 0"
  shows "engine_inv (fst (snd (process_event P e r ev now w)))"
proof (cases "evt_Kind ev = UserReplied")
  case True
  then have id: "evt_ID ev = reply_id (obs_ID x)" using ev by (simp add: event_of_def reply_id_def)
  have "cfg_SubjectID (eng_config e) \<noteq> []"
    using inv by (simp add: engine_inv_def parts_ok_def Config_Validate_def split: if_splits)
  then have v: "ValidateUserReply ev = None" and s: "evt_SubjectID ev = cfg_SubjectID (eng_config e)"
    using True ev x id by (auto simp: validate_simps event_of_def)
  have "evt_ID ev \<notin> trk_processedFeedbackEvents (eng_episodes e)" and "obs_ID x \<in> seen e"
    using fresh by (simp_all add: obs_fresh_def id)
  then show ?thesis
    using inv id consume_reply_inv [OF inv id]
    by (simp add: process_event_reply [OF True] case_prod_beta Let_def
        acceptUserReply_engine [OF inv _ v s] closed_engine_inv)
next
  case False
  have "evt_ID ev \<noteq> []" "evt_TraceID ev \<noteq> []" using ev x by (auto simp: event_of_def)
  note body = process_event_other [OF this False]
  show ?thesis
  proof (cases "evt_Kind ev = PersonReturned \<and> dec_Kind (decide_on e ev) \<noteq> Silent")
    case True
    then have "dec_InteractionID (decide_on e ev) = ''interaction:'' @ trigger_id (obs_ID x)"
      using ev by (simp add: decide_on_sel event_of_def trigger_id_def)
    moreover have "evt_SubjectID ev = cfg_SubjectID (eng_config (projected e ev))"
      using ev x by (simp add: event_of_def)
    ultimately show ?thesis
      using True projected_inv [OF inv] fresh
      by (simp add: body case_prod_beta Let_def greet_inv)
  next
    case False
    then show ?thesis
      by (auto simp: body case_prod_beta Let_def projected_inv [OF inv])
  qed
qed

lemma ingress_accept_error: "ingress_accept i x now = (Some err, i') \<Longrightarrow> i' = i"
  by (auto simp: ingress_accept_def split: option.splits if_splits)

lemma ingress_accept_None:
  "ingress_accept i x now = (None, i') \<Longrightarrow>
     Observation_ValidateAt x now = None \<and> obs_ID x \<notin> ing_seenIDs i \<and>
     (\<forall>s. ing_lastSeq i (obs_SourceID x) = Some s \<longrightarrow> s < obs_SourceSeq x) \<and>
     i' = i\<lparr>ing_seenIDs := insert (obs_ID x) (ing_seenIDs i),
            ing_lastSeq := (ing_lastSeq i)(obs_SourceID x \<mapsto> obs_SourceSeq x)\<rparr>"
  by (auto simp: ingress_accept_def not_le split: option.splits if_splits)

text \<open>The engine with an observation admitted and compiled, before its event is processed.\<close>

definition admitted :: "Engine \<Rightarrow> Observation \<Rightarrow> Engine" where
  "admitted e x =
     e\<lparr>eng_ingress := (eng_ingress e)\<lparr>ing_seenIDs := insert (obs_ID x) (ing_seenIDs (eng_ingress e)),
         ing_lastSeq := (ing_lastSeq (eng_ingress e))(obs_SourceID x \<mapsto> obs_SourceSeq x)\<rparr>,
       eng_compiler := snd (Compiler_Compile (eng_compiler e) x)\<rparr>"

lemma admitted_sel [simp]:
  "eng_config (admitted e x) = eng_config e"
  "eng_compiler (admitted e x) = snd (Compiler_Compile (eng_compiler e) x)"
  "eng_projector (admitted e x) = eng_projector e"
  "eng_episodes (admitted e x) = eng_episodes e"
  "eng_pendingReply (admitted e x) = eng_pendingReply e"
  "eng_replyWindow (admitted e x) = eng_replyWindow e"
  "eng_planner (admitted e x) = eng_planner e"
  "eng_policy (admitted e x) = eng_policy e"
  by (simp_all add: admitted_def)

lemma admitted_inv:
  assumes "engine_inv e" "obs_ID x \<notin> seen e"
  shows "engine_inv (admitted e x) \<and> obs_fresh (admitted e x) (obs_ID x)"
  using assms
  by (auto simp: engine_inv_def parts_ok_def reply_sync_def ids_fresh_def obs_fresh_def seen_def
      admitted_def image_iff dom_def split: option.splits)

text \<open>\<^verbatim>\<open>Process\<close> either refuses before it changes anything, or admits the observation and
  runs the loop body on the event it compiles to, if any.\<close>

lemma Engine_Process_cases:
  obtains (refused) err where "fst (Engine_Process P e ctxErr x w) = (zero_Result, Some err)"
      "fst (snd (Engine_Process P e ctxErr x w)) = e"
      "snd (snd (Engine_Process P e ctxErr x w)) \<in> {w, snd (port_Now P w)}"
  | (quiet) "Engine_Process P e ctxErr x w =
        ((zero_Result, None), admitted e x, snd (port_Now P w))"
      "ctxErr = None" "obs_SubjectID x = cfg_SubjectID (eng_config e)" "obs_ID x \<notin> seen e"
      "Observation_ValidateAt x (fst (port_Now P w)) = None"
      "fst (Compiler_Compile (eng_compiler e) x) = []"
  | (event) ev where "Engine_Process P e ctxErr x w =
        process_event P (admitted e x) (zero_Result\<lparr>res_Events := [ev]\<rparr>) ev
          (fst (port_Now P w)) (snd (port_Now P w))"
      "ctxErr = None" "obs_SubjectID x = cfg_SubjectID (eng_config e)" "obs_ID x \<notin> seen e"
      "Observation_ValidateAt x (fst (port_Now P w)) = None"
      "fst (Compiler_Compile (eng_compiler e) x) = [ev]" "event_of ev x"
proof (cases "ctxErr = None \<and> obs_SubjectID x = cfg_SubjectID (eng_config e)")
  case False
  then show ?thesis
    using refused by (cases ctxErr) (auto simp: Engine_Process_def)
next
  case True
  obtain res i' where acc: "ingress_accept (eng_ingress e) x (fst (port_Now P w)) = (res, i')"
    by fastforce
  show ?thesis
  proof (cases res)
    case (Some err)
    with acc True ingress_accept_error [OF acc [unfolded Some]] show ?thesis
      using refused by (auto simp: Engine_Process_def Let_def case_prod_beta)
  next
    case None
    note ok = ingress_accept_None [OF acc [unfolded None]]
    from Compile_event [of "eng_compiler e" x] show ?thesis
    proof
      assume "fst (Compiler_Compile (eng_compiler e) x) = []"
      with acc None True ok show ?thesis
        by (intro quiet) (simp_all add: Engine_Process_def Let_def case_prod_beta admitted_def
            zero_Result_def seen_def)
    next
      assume "\<exists>ev. fst (Compiler_Compile (eng_compiler e) x) = [ev] \<and> event_of ev x"
      then obtain ev where ev: "fst (Compiler_Compile (eng_compiler e) x) = [ev]" "event_of ev x"
        by blast
      let ?b = "process_event P (admitted e x) (zero_Result\<lparr>res_Events := [ev]\<rparr>) ev
                  (fst (port_Now P w)) (snd (port_Now P w))"
      have "Engine_Process P e ctxErr x w = ?b"
        using acc None True ok ev
        by (cases "snd (fst ?b)")
          (simp_all add: Engine_Process_def Let_def case_prod_beta admitted_def prod_eq_iff)
      with True ok ev show ?thesis by (intro event) (simp_all add: seen_def)
    qed
  qed
qed

lemma Engine_Process_inv:
  assumes inv: "engine_inv e"
  shows "engine_inv (fst (snd (Engine_Process P e ctxErr x w)))"
proof (cases rule: Engine_Process_cases [of P e ctxErr x w])
  case refused
  with inv show ?thesis by simp
next
  case quiet
  with admitted_inv [OF inv] show ?thesis by simp
next
  case (event ev)
  have "obs_SubjectID x = cfg_SubjectID (eng_config (admitted e x))" "obs_TraceID x \<noteq> []"
      "obs_OccurredAt x \<noteq> 0"
    using event by (simp_all add: admitted_def validate_simps)
  then show ?thesis
    using admitted_inv [OF inv event(4)] event(7) unfolding event(1) by (intro process_event_inv) simp_all
qed

text \<open>
  The wakeup. Under the invariant, consuming the current wakeup at or after its deadline
  always succeeds: no validation, no correlation check and no duplicate test can fail.
\<close>

definition expired_event :: "pendingReplyContinuation \<Rightarrow> SemanticEvent" where
  "expired_event p =
     \<lparr>evt_ID = expiry_id (pen_episodeID p), evt_Kind = ResponseWindowExpired,
      evt_SubjectID = pen_subjectID p, evt_OccurredAt = wk_Deadline (pen_wakeup p),
      evt_Confidence = Fin 0, evt_TraceID = pen_traceID p, evt_SourceObservationID = [],
      evt_AbsenceDuration = 0, evt_BusyReason = [], evt_ResponseEpisodeID = pen_episodeID p,
      evt_WakeupToken = wk_Token (pen_wakeup p)\<rparr>"

lemma expired_event_sel [simp]:
  "evt_ID (expired_event p) = expiry_id (pen_episodeID p)"
  "evt_Kind (expired_event p) = ResponseWindowExpired"
  "evt_SubjectID (expired_event p) = pen_subjectID p"
  "evt_OccurredAt (expired_event p) = wk_Deadline (pen_wakeup p)"
  "evt_TraceID (expired_event p) = pen_traceID p"
  "evt_ResponseEpisodeID (expired_event p) = pen_episodeID p"
  "evt_WakeupToken (expired_event p) = wk_Token (pen_wakeup p)"
  by (simp_all add: expired_event_def)

lemma expired_event_valid:
  assumes inv: "engine_inv e" and p: "eng_pendingReply e = Some p" and "wk_Deadline (pen_wakeup p) \<noteq> 0"
  shows "ValidateResponseWindowExpired (expired_event p) = None"
    and "NewResponseWindowExpired
          (''evt:'' @ wk_Token (pen_wakeup p) @ '':'' @ Kind_string ResponseWindowExpired)
          (pen_episodeID p) (wk_Token (pen_wakeup p)) (pen_subjectID p)
          (wk_Deadline (pen_wakeup p)) (pen_traceID p) = Inr (expired_event p)"
proof -
  from inv p obtain ep and win :: ResponseWindow where ep: "pen_episodeID p = ep_ID ep"
      "pen_subjectID p = ep_SubjectID ep" "pen_traceID p = ep_TraceID ep"
      "pen_wakeup p = \<lparr>wk_Token = win_Token win, wk_Deadline = win_Deadline win\<rparr>"
      "win_Token win = wakeup_token (ep_ID ep)" "Episode_Validate ep = None"
    by (rule pendingE)
  with assms(3) show v: "ValidateResponseWindowExpired (expired_event p) = None"
    by (simp add: validate_simps)
  show "NewResponseWindowExpired
          (''evt:'' @ wk_Token (pen_wakeup p) @ '':'' @ Kind_string ResponseWindowExpired)
          (pen_episodeID p) (wk_Token (pen_wakeup p)) (pen_subjectID p)
          (wk_Deadline (pen_wakeup p)) (pen_traceID p) = Inr (expired_event p)"
    unfolding NewResponseWindowExpired_Inr
    using v ep by (simp add: validate_simps expired_event_def expiry_id_def)
qed

text \<open>The engine and the outcome after the wakeup has been consumed.\<close>

definition expired_engine :: "Engine \<Rightarrow> pendingReplyContinuation \<Rightarrow> Engine" where
  "expired_engine e p =
     closed_engine
       (e\<lparr>eng_episodes := (eng_episodes e)\<lparr>trk_processedExpirations :=
             (trk_processedExpirations (eng_episodes e))(expiry_id (pen_episodeID p) \<mapsto> expired_event p)\<rparr>,
          eng_projector := snd (ApplyNoResponse (eng_projector e) (expired_event p)
                             (cfg_NoResponseCooldown (eng_config e)))\<rparr>)"

definition expired_outcome :: "Engine \<Rightarrow> pendingReplyContinuation \<Rightarrow> Outcome" where
  "expired_outcome e p =
     make_outcome NoResponse ReasonResponseWindowElapsed (the (trk_active (eng_episodes e)))
       (expired_event p)"

lemma Tracker_Expire_pending:
  assumes inv: "engine_inv e" and p: "eng_pendingReply e = Some p" and nz: "wk_Deadline (pen_wakeup p) \<noteq> 0"
  shows "Tracker_Expire (eng_episodes e) (pen_episodeID p) (expired_event p) =
    ((Some (expired_outcome e p), True, None), eng_episodes (expired_engine e p))"
proof -
  from inv p obtain ep win where ep: "trk_active (eng_episodes e) = Some ep"
      "trk_responseWindow (eng_episodes e) = Some win" "pen_episodeID p = ep_ID ep"
      "pen_subjectID p = ep_SubjectID ep" "pen_wakeup p = \<lparr>wk_Token = win_Token win, wk_Deadline = win_Deadline win\<rparr>"
      "trk_processedExpirations (eng_episodes e) (expiry_id (ep_ID ep)) = None"
      "Episode_Validate ep = None"
    by (rule pendingE)
  note v = expired_event_valid(1) [OF inv p nz]
  have "Outcome_Validate (make_outcome NoResponse ReasonResponseWindowElapsed ep (expired_event p)) = None"
    using v by (intro Outcome_Validate_make ep) (auto simp: validate_simps)
  moreover have "ep_ID ep \<noteq> []" using ep by (simp add: validate_simps)
  ultimately show ?thesis
    using ep
    by (simp add: Tracker_Expire_def Let_def v expired_outcome_def expired_engine_def
        closed_engine_def finish_episode_ok)
qed

text \<open>The environment once the elapsed window has been audited.\<close>

definition expired_world :: "'w ports \<Rightarrow> Engine \<Rightarrow> pendingReplyContinuation \<Rightarrow> 'w \<Rightarrow> 'w" where
  "expired_world P e p w =
     snd (port_RecordOutcome P (expired_outcome e p)
       (snd (port_RecordEvent P (expired_event p) (snd (port_Now P w)))))"

lemma bestEffortAudit_snd [simp]: "snd (bestEffortAudit f r w) = snd (f w)"
  by (simp add: bestEffortAudit_def case_prod_beta split: option.splits)

lemma bestEffortAudit_fst [simp]:
  "res_Events (fst (bestEffortAudit f r w)) = res_Events r"
  "res_Decisions (fst (bestEffortAudit f r w)) = res_Decisions r"
  "res_Plans (fst (bestEffortAudit f r w)) = res_Plans r"
  "res_ActionStatuses (fst (bestEffortAudit f r w)) = res_ActionStatuses r"
  "res_Outcomes (fst (bestEffortAudit f r w)) = res_Outcomes r"
  by (simp_all add: bestEffortAudit_def case_prod_beta split: option.splits)

lemma AdvanceAt_due:
  assumes inv: "engine_inv e" and p: "eng_pendingReply e = Some p" and nz: "wk_Deadline (pen_wakeup p) \<noteq> 0"
    and due: "wk_Deadline (pen_wakeup p) \<le> fst (port_Now P w)"
  shows "fst (snd (AdvanceAt P e None (pen_wakeup p) w)) = expired_engine e p"
    and "res_Outcomes (fst (fst (AdvanceAt P e None (pen_wakeup p) w))) = [expired_outcome e p]"
    and "res_Events (fst (fst (AdvanceAt P e None (pen_wakeup p) w))) = [expired_event p]"
    and "snd (fst (AdvanceAt P e None (pen_wakeup p) w)) =
      map_option (Wrapf (''dispatch expired reply continuation '' @ pen_interactionID p))
        (snd (fst (dispatchCommands P (Phase_Commands (pen_after p) (fst (port_Now P (expired_world P e p w))))
                    (snd (port_Now P (expired_world P e p w))))))"
    and "snd (snd (AdvanceAt P e None (pen_wakeup p) w)) =
      snd (dispatchCommands P (Phase_Commands (pen_after p) (fst (port_Now P (expired_world P e p w))))
            (snd (port_Now P (expired_world P e p w))))"
proof -
  have cd: "0 < cfg_NoResponseCooldown (eng_config e)"
    using inv by (simp add: engine_inv_def parts_ok_def Config_Validate_def split: if_splits)
  have ap: "snd (fst (ApplyNoResponse (eng_projector e) (expired_event p)
              (cfg_NoResponseCooldown (eng_config e)))) = None"
    using ApplyNoResponse_ok [OF expired_event_valid(1) [OF inv p nz] cd] .
  note simps = AdvanceAt_def p expired_event_valid(2) [OF inv p nz, simplified] Tracker_Expire_pending [OF inv p nz]
    Let_def case_prod_beta ap bestEffortAudit_fst bestEffortAudit_snd
  show "fst (snd (AdvanceAt P e None (pen_wakeup p) w)) = expired_engine e p"
    using due by (simp add: simps) (simp add: expired_engine_def closed_engine_def replyWindow_clear_def)
  show "res_Outcomes (fst (fst (AdvanceAt P e None (pen_wakeup p) w))) = [expired_outcome e p]"
    using due by (simp add: simps)
  show "res_Events (fst (fst (AdvanceAt P e None (pen_wakeup p) w))) = [expired_event p]"
    using due by (simp add: simps)
  show "snd (fst (AdvanceAt P e None (pen_wakeup p) w)) =
      map_option (Wrapf (''dispatch expired reply continuation '' @ pen_interactionID p))
        (snd (fst (dispatchCommands P (Phase_Commands (pen_after p) (fst (port_Now P (expired_world P e p w))))
                    (snd (port_Now P (expired_world P e p w))))))"
    using due by (simp add: simps expired_world_def)
  show "snd (snd (AdvanceAt P e None (pen_wakeup p) w)) =
      snd (dispatchCommands P (Phase_Commands (pen_after p) (fst (port_Now P (expired_world P e p w))))
            (snd (port_Now P (expired_world P e p w))))"
    using due by (simp add: simps expired_world_def)
qed

lemma expired_engine_inv:
  assumes inv: "engine_inv e" and p: "eng_pendingReply e = Some p" and nz: "wk_Deadline (pen_wakeup p) \<noteq> 0"
  shows "engine_inv (expired_engine e p)"
proof -
  from inv p obtain ep where ep: "trk_active (eng_episodes e) = Some ep" "pen_episodeID p = ep_ID ep"
    by (rule pendingE)
  then have seen: "ep_ID ep \<in> episode_id ` seen e" using inv by (auto simp: engine_inv_def ids_fresh_def)
  have v: "ValidateResponseWindowExpired (expired_event p) = None"
    by (rule expired_event_valid(1) [OF inv p nz])
  have "ids_fresh (expired_engine e p)"
    using inv ep seen
    by (auto simp: engine_inv_def ids_fresh_def expired_engine_def closed_engine_def seen_def)
  moreover have "tracker_ok (eng_episodes (expired_engine e p))"
    using inv v by (auto simp: engine_inv_def tracker_ok_def expired_engine_def closed_engine_def)
  moreover have "parts_ok (expired_engine e p)"
    using inv by (simp add: engine_inv_def parts_ok_def expired_engine_def closed_engine_def
        frame_simps snapshot_ok_ApplyNoResponse)
  ultimately show ?thesis
    by (simp add: engine_inv_def reply_sync_def expired_engine_def closed_engine_def)
qed

text \<open>In every other situation the wakeup changes nothing.\<close>

lemma AdvanceAt_idle:
  assumes inv: "engine_inv e"
    and "\<not> (ctxErr = None \<and> (\<exists>p. eng_pendingReply e = Some p \<and> pen_wakeup p = wk \<and>
              wk_Deadline wk \<noteq> 0 \<and> wk_Deadline wk \<le> fst (port_Now P w)))"
  shows "fst (snd (AdvanceAt P e ctxErr wk w)) = e"
    and "fst (fst (AdvanceAt P e ctxErr wk w)) = zero_Result"
    and "snd (snd (AdvanceAt P e ctxErr wk w)) \<in> {w, snd (port_Now P w)}"
proof -
  have zero: "\<exists>err. NewResponseWindowExpired i ep tok s 0 tr = Inl err" for i ep tok s tr
    by (simp add: NewResponseWindowExpired_def ValidateResponseWindowExpired_def Let_def)
  have "fst (snd (AdvanceAt P e ctxErr wk w)) = e \<and> fst (fst (AdvanceAt P e ctxErr wk w)) = zero_Result
      \<and> snd (snd (AdvanceAt P e ctxErr wk w)) \<in> {w, snd (port_Now P w)}"
  proof (cases "\<exists>p. ctxErr = None \<and> eng_pendingReply e = Some p \<and> pen_wakeup p = wk \<and>
      wk_Deadline wk \<le> fst (port_Now P w)")
    case True
    then obtain p where p: "ctxErr = None" "eng_pendingReply e = Some p" "pen_wakeup p = wk"
        "wk_Deadline wk = 0" using assms(2) by blast
    from zero [of "''evt:'' @ wk_Token wk @ '':'' @ Kind_string ResponseWindowExpired"
        "pen_episodeID p" "wk_Token wk" "pen_subjectID p" "pen_traceID p"] p
    show ?thesis by (auto simp: AdvanceAt_def Let_def case_prod_beta)
  next
    case False
    then show ?thesis
      by (cases ctxErr; cases "eng_pendingReply e")
        (auto simp: AdvanceAt_def Let_def case_prod_beta not_le)
  qed
  then show "fst (snd (AdvanceAt P e ctxErr wk w)) = e"
    and "fst (fst (AdvanceAt P e ctxErr wk w)) = zero_Result"
    and "snd (snd (AdvanceAt P e ctxErr wk w)) \<in> {w, snd (port_Now P w)}" by simp_all
qed

lemma AdvanceAt_inv:
  assumes inv: "engine_inv e"
  shows "engine_inv (fst (snd (AdvanceAt P e ctxErr wk w)))"
proof (cases "ctxErr = None \<and> (\<exists>p. eng_pendingReply e = Some p \<and> pen_wakeup p = wk \<and>
              wk_Deadline wk \<noteq> 0 \<and> wk_Deadline wk \<le> fst (port_Now P w))")
  case True
  then obtain p where "ctxErr = None" "eng_pendingReply e = Some p" "pen_wakeup p = wk"
      "wk_Deadline wk \<noteq> 0" "wk_Deadline wk \<le> fst (port_Now P w)" by blast
  with AdvanceAt_due(1) [OF inv, of p P w] expired_engine_inv [OF inv, of p] show ?thesis by auto
next
  case False
  with inv show ?thesis by (simp add: AdvanceAt_idle(1))
qed

text \<open>Explicit rejection.\<close>

definition rejection_event :: "Command \<Rightarrow> SemanticEvent" where
  "rejection_event c =
     \<lparr>evt_ID = rejection_id (ctl_ID c), evt_Kind = UserRejected, evt_SubjectID = ctl_SubjectID c,
      evt_OccurredAt = ctl_OccurredAt c, evt_Confidence = Fin 0, evt_TraceID = ctl_TraceID c,
      evt_SourceObservationID = [], evt_AbsenceDuration = 0, evt_BusyReason = [],
      evt_ResponseEpisodeID = [], evt_WakeupToken = []\<rparr>"

definition rejection_accepted :: "Engine \<Rightarrow> goerror option \<Rightarrow> Command \<Rightarrow> bool" where
  "rejection_accepted e ctxErr c =
     (Command_Validate c = None \<and> ctl_Reason c = ReasonUserRejected \<and>
      ctl_SubjectID c = cfg_SubjectID (eng_config e) \<and> ctxErr = None)"

definition rejection_ends :: "Engine \<Rightarrow> Command \<Rightarrow> bool" where
  "rejection_ends e c =
     (case trk_active (eng_episodes e) of None \<Rightarrow> False
      | Some ep \<Rightarrow> ep_StartedAt ep \<le> ctl_OccurredAt c)"

definition rejected_engine :: "Engine \<Rightarrow> Command \<Rightarrow> Engine" where
  "rejected_engine e c =
     (let e1 = consume_reply (e\<lparr>eng_projector := snd (ApplyUserRejection (eng_projector e)
                  (rejection_event c) (cfg_RejectionCooldown (eng_config e)))\<rparr>) (rejection_event c)
      in if rejection_ends e c then closed_engine e1 else e1)"

lemma rejection_event_sel [simp]:
  "evt_ID (rejection_event c) = rejection_id (ctl_ID c)"
  "evt_Kind (rejection_event c) = UserRejected"
  "evt_SubjectID (rejection_event c) = ctl_SubjectID c"
  "evt_OccurredAt (rejection_event c) = ctl_OccurredAt c"
  "evt_TraceID (rejection_event c) = ctl_TraceID c"
  by (simp_all add: rejection_event_def)

lemma rejection_event_valid:
  assumes "Command_Validate c = None" "ctl_Reason c = ReasonUserRejected"
  shows "ValidateUserRejection (rejection_event c) = None"
    and "NewUserRejected (''evt:'' @ ctl_ID c @ '':'' @ Kind_string UserRejected) (ctl_SubjectID c)
           (ctl_OccurredAt c) (ctl_TraceID c) = Inr (rejection_event c)"
  using assms
  by (auto simp: validate_simps NewUserRejected_Inr rejection_event_def rejection_id_def)

lemma Commit_refused:
  assumes "\<not> rejection_accepted e ctxErr c"
  shows "\<exists>err. CommitUserRejection P e ctxErr c w = (Some err, e, w)"
  using assms
  by (auto simp: rejection_accepted_def CommitUserRejection_def split: option.splits)

lemma Commit_duplicate:
  assumes "rejection_accepted e ctxErr c"
    and "rejection_id (ctl_ID c) \<in> trk_processedFeedbackEvents (eng_episodes e)"
  shows "CommitUserRejection P e ctxErr c w = (None, e, w)"
proof -
  have v: "Command_Validate c = None" "ctl_Reason c = ReasonUserRejected"
      "ctl_SubjectID c = cfg_SubjectID (eng_config e)" "ctxErr = None"
    using assms by (simp_all add: rejection_accepted_def)
  have "Tracker_Reject (eng_episodes e) (rejection_event c) = ((None, False, None), eng_episodes e)"
    using assms rejection_event_valid(1) [OF v(1,2)] by (simp add: Tracker_Reject_def)
  with v rejection_event_valid(2) [OF v(1,2)] show ?thesis
    by (simp add: CommitUserRejection_def)
qed

lemma Tracker_Reject_engine:
  assumes inv: "engine_inv e" and acc: "rejection_accepted e ctxErr c"
    and new: "rejection_id (ctl_ID c) \<notin> trk_processedFeedbackEvents (eng_episodes e)"
  shows "Tracker_Reject (eng_episodes e) (rejection_event c) =
    ((if rejection_ends e c
      then Some (make_outcome Rejected ReasonExplicitUserRejection
                   (the (trk_active (eng_episodes e))) (rejection_event c)) else None, True, None),
     eng_episodes (rejected_engine e c))"
proof -
  have v: "ValidateUserRejection (rejection_event c) = None"
    using acc by (simp add: rejection_accepted_def rejection_event_valid)
  show ?thesis
  proof (cases "trk_active (eng_episodes e)")
    case None
    with v new show ?thesis
      by (simp add: Tracker_Reject_def rejected_engine_def rejection_ends_def consume_reply_def Let_def)
  next
    case (Some ep)
    have ok: "tracker_ok (eng_episodes e)" and s: "ep_SubjectID ep = ctl_SubjectID c"
      using inv acc Some by (auto simp: engine_inv_def ids_fresh_def rejection_accepted_def)
    have "Outcome_Validate (make_outcome Rejected ReasonExplicitUserRejection ep (rejection_event c)) = None"
      using v by (intro Outcome_Validate_make tracker_ok_active [OF ok Some]) (auto simp: validate_simps)
    with v new Some s show ?thesis
      by (simp add: Tracker_Reject_def rejected_engine_def rejection_ends_def consume_reply_def
          closed_engine_def finish_episode_ok Let_def)
  qed
qed

lemma Commit_applied:
  assumes inv: "engine_inv e" and acc: "rejection_accepted e ctxErr c"
    and new: "rejection_id (ctl_ID c) \<notin> trk_processedFeedbackEvents (eng_episodes e)"
  shows "CommitUserRejection P e ctxErr c w =
    (None, rejected_engine e c,
     (let w1 = bestEffortControlAudit (port_RecordEvent P (rejection_event c)) w in
      if rejection_ends e c
      then bestEffortControlAudit (port_RecordOutcome P
             (make_outcome Rejected ReasonExplicitUserRejection (the (trk_active (eng_episodes e)))
               (rejection_event c))) w1
      else w1))"
proof -
  have v: "Command_Validate c = None" "ctl_Reason c = ReasonUserRejected"
      "ctl_SubjectID c = cfg_SubjectID (eng_config e)" "ctxErr = None"
    using acc by (simp_all add: rejection_accepted_def)
  have cd: "0 < cfg_RejectionCooldown (eng_config e)"
    using inv by (simp add: engine_inv_def parts_ok_def Config_Validate_def split: if_splits)
  have ap: "snd (fst (ApplyUserRejection (eng_projector e) (rejection_event c)
              (cfg_RejectionCooldown (eng_config e)))) = None"
    by (rule ApplyUserRejection_ok [OF rejection_event_valid(1) [OF v(1,2)] cd])
  note simps = CommitUserRejection_def v rejection_event_valid(2) [OF v(1,2), simplified, unfolded v(3)]
    Tracker_Reject_engine [OF inv acc new] ap case_prod_beta Let_def
  show ?thesis
  proof (cases "eng_pendingReply e")
    case None
    with inv show ?thesis
      by (auto simp: simps rejected_engine_def consume_reply_def closed_engine_def
          engine_inv_def reply_sync_def)
  next
    case (Some p)
    with inv show ?thesis
      by (auto simp: simps rejected_engine_def consume_reply_def closed_engine_def
          replyWindow_clear_def rejection_ends_def elim!: pendingE)
  qed
qed

lemma rejected_engine_inv:
  assumes inv: "engine_inv e"
  shows "engine_inv (rejected_engine e c)"
proof -
  let ?e = "e\<lparr>eng_projector := snd (ApplyUserRejection (eng_projector e)
                  (rejection_event c) (cfg_RejectionCooldown (eng_config e)))\<rparr>"
  have "engine_inv ?e"
    using inv by (auto simp: engine_inv_def parts_ok_def reply_sync_def ids_fresh_def seen_def
        frame_simps snapshot_ok_ApplyUserRejection split: option.splits)
  then have "engine_inv (consume_reply ?e (rejection_event c))"
    by (auto simp: engine_inv_def parts_ok_def tracker_ok_def reply_sync_def ids_fresh_def
        consume_reply_def seen_def split: option.splits)
  then show ?thesis by (simp add: rejected_engine_def Let_def closed_engine_inv)
qed

lemma Commit_inv:
  assumes inv: "engine_inv e"
  shows "engine_inv (fst (snd (CommitUserRejection P e ctxErr c w)))"
proof (cases "rejection_accepted e ctxErr c")
  case True
  then show ?thesis
    using inv Commit_duplicate [OF True, of P w] Commit_applied [OF inv True, of P w]
      rejected_engine_inv [OF inv]
    by (cases "rejection_id (ctl_ID c) \<in> trk_processedFeedbackEvents (eng_episodes e)") simp_all
next
  case False
  with Commit_refused [OF this, of P w] inv show ?thesis by auto
qed

section \<open>Runs\<close>

text \<open>
  The states a single writer can bring the engine to: any sequence of its operations, with
  any arguments, against the ports \<open>P\<close>, while the environment moves by \<open>env\<close> in between.
\<close>

inductive engine_run ::
    "'w ports \<Rightarrow> ('w \<Rightarrow> 'w \<Rightarrow> bool) \<Rightarrow> Config \<Rightarrow> 'w \<Rightarrow> Engine \<Rightarrow> 'w \<Rightarrow> bool"
  for P env cfg w0 where
    run_new: "Engine_New cfg True = Inr e \<Longrightarrow> engine_run P env cfg w0 e w0"
  | run_env: "engine_run P env cfg w0 e w \<Longrightarrow> env w w' \<Longrightarrow> engine_run P env cfg w0 e w'"
  | run_process: "engine_run P env cfg w0 e w \<Longrightarrow> Engine_Process P e ctx x w = (res, e', w') \<Longrightarrow>
      engine_run P env cfg w0 e' w'"
  | run_advance: "engine_run P env cfg w0 e w \<Longrightarrow> AdvanceAt P e ctx wk w = (res, e', w') \<Longrightarrow>
      engine_run P env cfg w0 e' w'"
  | run_commit: "engine_run P env cfg w0 e w \<Longrightarrow> CommitUserRejection P e ctx c w = (err, e', w') \<Longrightarrow>
      engine_run P env cfg w0 e' w'"
  | run_stop: "engine_run P env cfg w0 e w \<Longrightarrow> Engine_StopAll P c w = (err, w') \<Longrightarrow>
      engine_run P env cfg w0 e w'"

lemma Engine_New_inv: "Engine_New cfg deps = Inr e \<Longrightarrow> engine_inv e"
  by (auto simp: Engine_New_def engine_inv_def parts_ok_def reply_sync_def ids_fresh_def
      tracker_ok_NewTracker snapshot_ok_NewProjector newIngress_def seen_def
      split: option.splits if_splits) (simp_all add: NewTracker_def)

lemma engine_run_inv: "engine_run P env cfg w0 e w \<Longrightarrow> engine_inv e"
proof (induction rule: engine_run.induct)
  case (run_new e)
  then show ?case by (rule Engine_New_inv)
next
  case (run_process e w ctx x res e' w')
  then show ?case using Engine_Process_inv [of e P ctx x w] by simp
next
  case (run_advance e w ctx wk res e' w')
  then show ?case using AdvanceAt_inv [of e P ctx wk w] by simp
next
  case (run_commit e w ctx c err e' w')
  then show ?case using Commit_inv [of e P ctx c w] by simp
qed simp_all

end
