(* ===== verification/Dispatch.thy ===== *)
theory Dispatch
  imports Engine_Inv
begin

text \<open>
  The dispatch loop of the engine (\<^verbatim>\<open>dispatchCommands\<close> in \<^verbatim>\<open>engine.go\<close>) against its
  specification: what a whole status stream means is \<open>stream_verdict\<close>, a function of the list of
  statuses alone. The contract of an embodiment that completes its commands is the locale
  \<open>completing_driver\<close>.
\<close>

section \<open>Specification of a stream\<close>

definition stream_verdict :: "string \<Rightarrow> ActionStatus list \<Rightarrow> goerror option" where
  "stream_verdict op sts =
     (case dropWhile (\<lambda>s. \<not> isTerminalActionState (sta_State s)) sts of
        [] \<Rightarrow> Some (New_fault Unavailable op
                (Leaf ''adapter status stream closed without a terminal state''))
      | [t] \<Rightarrow> if sta_State t = ActionCompleted then None
               else Some (New_fault AdapterRejected op
                      (Leaf ''adapter ended action with terminal state %s''))
      | _ \<Rightarrow> Some (New_fault AdapterRejected op
               (Leaf ''adapter emitted status after a terminal state'')))"

definition audit_statuses :: "'w ports \<Rightarrow> ActionStatus list \<Rightarrow> 'w \<Rightarrow> 'w" where
  "audit_statuses P sts w = fold (bestEffortAuditStatus P) sts w"

text \<open>Exactly one terminal status, which is the last one and a completion.\<close>

definition completed_once :: "ActionStatus list \<Rightarrow> bool" where
  "completed_once sts =
     (sts \<noteq> [] \<and> list_all (\<lambda>s. \<not> isTerminalActionState (sta_State s)) (butlast sts) \<and>
      sta_State (last sts) = ActionCompleted)"

section \<open>Lemmas\<close>

lemma await_stream_after_terminal:
  "await_stream P op (map Received sts @ ds) (Some st) mal acc w =
     await_stream P op ds (Some st) (mal \<or> sts \<noteq> []) (acc @ sts) (audit_statuses P sts w)"
  by (induction sts arbitrary: mal acc w) (simp_all add: audit_statuses_def Let_def)

lemma await_stream_append:
  "await_stream P op (map Received sts @ ds) None False acc w =
     (case dropWhile (\<lambda>s. \<not> isTerminalActionState (sta_State s)) sts of
        [] \<Rightarrow> await_stream P op ds None False (acc @ sts) (audit_statuses P sts w)
      | t # rest \<Rightarrow> await_stream P op ds (Some (sta_State t)) (rest \<noteq> []) (acc @ sts)
                      (audit_statuses P sts w))"
proof (induction sts arbitrary: acc w)
  case Nil
  then show ?case by (simp add: audit_statuses_def)
next
  case (Cons s sts)
  show ?case
  proof (cases "isTerminalActionState (sta_State s)")
    case True
    then show ?thesis
      by (simp add: Let_def await_stream_after_terminal) (simp add: audit_statuses_def)
  next
    case False
    then show ?thesis
      by (simp add: Let_def Cons.IH) (simp add: audit_statuses_def cong: list.case_cong)
  qed
qed

lemma await_stream_closed:
  "await_stream P op (map Received sts) None False acc w =
     ((acc @ sts, stream_verdict op sts), audit_statuses P sts w)"
  using await_stream_append [of P op sts "[]" acc w]
  by (cases "dropWhile (\<lambda>s. \<not> isTerminalActionState (sta_State s)) sts";
      cases "tl (dropWhile (\<lambda>s. \<not> isTerminalActionState (sta_State s)) sts)")
    (simp_all add: stream_verdict_def del: dropWhile_eq_Nil_conv)

lemma await_stream_cancelled:
  "await_stream P op (map Received sts @ CtxDone err # ds) None False acc w =
     ((acc @ sts, Some (classifyContext op err)), audit_statuses P sts w)"
  by (simp add: await_stream_append split: list.splits)

lemma stream_verdict_None: "stream_verdict op sts = None \<longleftrightarrow> completed_once sts"
proof (cases sts rule: rev_cases)
  case (snoc ys y)
  have completed: "isTerminalActionState ActionCompleted" by (simp add: isTerminalActionState_def)
  show ?thesis
  proof (cases "list_all (\<lambda>s. \<not> isTerminalActionState (sta_State s)) ys")
    case True
    then have "dropWhile (\<lambda>s. \<not> isTerminalActionState (sta_State s)) sts =
        (if isTerminalActionState (sta_State y) then [y] else [])"
      by (simp add: snoc list_all_iff)
    with True completed snoc show ?thesis
      by (auto simp: stream_verdict_def completed_once_def)
  next
    case False
    then have "\<exists>t rest. dropWhile (\<lambda>s. \<not> isTerminalActionState (sta_State s)) ys = t # rest"
      by (cases "dropWhile (\<lambda>s. \<not> isTerminalActionState (sta_State s)) ys")
        (auto simp: list_all_iff)
    then obtain t rest where "dropWhile (\<lambda>s. \<not> isTerminalActionState (sta_State s)) sts = t # rest @ [y]"
      using False by (auto simp: snoc list_all_iff dropWhile_append1)
    with False snoc show ?thesis
      by (cases rest) (auto simp: stream_verdict_def completed_once_def)
  qed
qed (simp add: stream_verdict_def completed_once_def)

text \<open>The error codes a stream can give.\<close>

lemma stream_verdict_codes:
  "stream_verdict op sts = Some err \<Longrightarrow> IsCode err Unavailable \<or> IsCode err AdapterRejected"
  by (auto simp: stream_verdict_def split: list.splits if_splits)

section \<open>The contract of a completing embodiment\<close>

locale completing_driver =
  fixes P :: "'w ports" and ready :: "ActionCommand \<Rightarrow> 'w \<Rightarrow> bool"
  assumes execute_ready: "ready c w \<Longrightarrow>
      \<exists>sts. fst (port_Execute P c w) = Stream (map Received sts) \<and> completed_once sts \<and>
            list_all (\<lambda>s. sta_ActionID s = com_ID c) sts"
    and ready_execute: "ready c w \<Longrightarrow> ready c' w \<Longrightarrow> ready c' (snd (port_Execute P c w))"
    and ready_audit: "ready c w \<Longrightarrow> ready c (snd (port_RecordActionStatus P s w))"
begin

lemma ready_audits: "ready c w \<Longrightarrow> ready c (audit_statuses P sts w)"
  by (induction sts arbitrary: w) (simp_all add: audit_statuses_def bestEffortAuditStatus_def ready_audit)

text \<open>
  Ready commands are all executed, in order: the dispatch does not fail, and the last status
  of every command, in the order of the commands, is its completion.
\<close>

lemma dispatch_ready:
  assumes "\<forall>c \<in> set cs. ready c w"
  shows "\<exists>stss w'. dispatch_from P cs acc w = ((acc @ concat stss, None), w') \<and>
    list_all2 (\<lambda>c sts. completed_once sts \<and> list_all (\<lambda>s. sta_ActionID s = com_ID c) sts) cs stss"
  using assms
proof (induction cs arbitrary: acc w)
  case Nil
  then show ?case by (intro exI [of _ "[]"]) simp
next
  case (Cons c cs)
  then obtain sts where sts: "fst (port_Execute P c w) = Stream (map Received sts)" "completed_once sts"
      "list_all (\<lambda>s. sta_ActionID s = com_ID c) sts"
    using execute_ready by force
  let ?w1 = "audit_statuses P sts (snd (port_Execute P c w))"
  have "\<forall>c' \<in> set cs. ready c' ?w1"
    using Cons.prems by (auto intro: ready_audits ready_execute)
  with Cons.IH [of ?w1 "acc @ sts"] obtain stss w' where
    "dispatch_from P cs (acc @ sts) ?w1 = (((acc @ sts) @ concat stss, None), w')"
    "list_all2 (\<lambda>c sts. completed_once sts \<and> list_all (\<lambda>s. sta_ActionID s = com_ID c) sts) cs stss"
    by blast
  moreover have "stream_verdict op sts = None" for op
    using sts by (simp add: stream_verdict_None)
  ultimately show ?case
    using sts
    by (intro exI [of _ "sts # stss"] exI [of _ w'])
      (simp add: case_prod_beta await_stream_closed split: execution.splits)
qed

end

section \<open>Properties\<close>

text \<open>The dispatch of one command is decided by its whole status stream: the engine takes
  the action as done exactly when the stream is closed after one terminal status, which is
  the last one and a completion; every status read is kept in order.\<close>

theorem await_stream_success:
  "await_stream P op (map Received sts) None False acc w =
     ((acc @ sts, stream_verdict op sts), audit_statuses P sts w) \<and>
   (stream_verdict op sts = None \<longleftrightarrow> completed_once sts)"
  by (simp add: await_stream_closed stream_verdict_None)

end
