(* ===== verification/Memory_Audit.thy ===== *)
theory Memory_Audit
  imports Ports
begin

text \<open>
  Package \<^verbatim>\<open>adapters/storage/memory\<close> (\<^verbatim>\<open>audit.go\<close>): the in-memory audit recorder. Every
  operation takes the error of its context. The locale \<open>audit_trail\<close> is the contract of an
  audit store that keeps what it is given: recording an outcome or a plan appends it to the
  store's list, and no other port touches the two lists.
\<close>

section \<open>The recorder\<close>

record AuditRecorder =
  aud_events :: "SemanticEvent list"
  aud_decisions :: "Decision list"
  aud_plans :: "BehaviorPlan list"
  aud_statuses :: "ActionStatus list"
  aud_outcomes :: "Outcome list"

definition zero_AuditRecorder :: AuditRecorder where
  "zero_AuditRecorder = \<lparr>aud_events = [], aud_decisions = [], aud_plans = [], aud_statuses = [],
                         aud_outcomes = []\<rparr>"

definition memory_RecordEvent ::
    "AuditRecorder \<Rightarrow> goerror option \<Rightarrow> SemanticEvent \<Rightarrow> goerror option \<times> AuditRecorder" where
  "memory_RecordEvent r ctxErr value =
     (case ctxErr of Some err \<Rightarrow> (Some err, r)
      | None \<Rightarrow> (None, r\<lparr>aud_events := aud_events r @ [value]\<rparr>))"

definition memory_RecordDecision ::
    "AuditRecorder \<Rightarrow> goerror option \<Rightarrow> Decision \<Rightarrow> goerror option \<times> AuditRecorder" where
  "memory_RecordDecision r ctxErr value =
     (case ctxErr of Some err \<Rightarrow> (Some err, r)
      | None \<Rightarrow> (None, r\<lparr>aud_decisions := aud_decisions r @ [value]\<rparr>))"

definition memory_RecordPlan ::
    "AuditRecorder \<Rightarrow> goerror option \<Rightarrow> BehaviorPlan \<Rightarrow> goerror option \<times> AuditRecorder" where
  "memory_RecordPlan r ctxErr value =
     (case ctxErr of Some err \<Rightarrow> (Some err, r)
      | None \<Rightarrow> (None, r\<lparr>aud_plans := aud_plans r @ [value]\<rparr>))"

definition memory_RecordActionStatus ::
    "AuditRecorder \<Rightarrow> goerror option \<Rightarrow> ActionStatus \<Rightarrow> goerror option \<times> AuditRecorder" where
  "memory_RecordActionStatus r ctxErr value =
     (case ctxErr of Some err \<Rightarrow> (Some err, r)
      | None \<Rightarrow> (None, r\<lparr>aud_statuses := aud_statuses r @ [value]\<rparr>))"

definition memory_RecordOutcome ::
    "AuditRecorder \<Rightarrow> goerror option \<Rightarrow> Outcome \<Rightarrow> goerror option \<times> AuditRecorder" where
  "memory_RecordOutcome r ctxErr value =
     (case ctxErr of Some err \<Rightarrow> (Some err, r)
      | None \<Rightarrow> (None, r\<lparr>aud_outcomes := aud_outcomes r @ [value]\<rparr>))"

definition memory_Snapshot :: "AuditRecorder \<Rightarrow> AuditRecorder" where
  "memory_Snapshot r = r"

section \<open>The contract\<close>

locale audit_trail =
  fixes P :: "'w ports" and plans :: "'w \<Rightarrow> BehaviorPlan list" and outcomes :: "'w \<Rightarrow> Outcome list"
  assumes plan_recorded: "plans (snd (port_RecordPlan P x w)) = plans w @ [x]"
    and plan_outcomes: "outcomes (snd (port_RecordPlan P x w)) = outcomes w"
    and outcome_recorded: "outcomes (snd (port_RecordOutcome P y w)) = outcomes w @ [y]"
    and outcome_plans: "plans (snd (port_RecordOutcome P y w)) = plans w"
    and now_frame: "plans (snd (port_Now P w)) = plans w" "outcomes (snd (port_Now P w)) = outcomes w"
    and capabilities_frame: "plans (snd (port_Capabilities P w)) = plans w"
      "outcomes (snd (port_Capabilities P w)) = outcomes w"
    and execute_frame: "plans (snd (port_Execute P c w)) = plans w"
      "outcomes (snd (port_Execute P c w)) = outcomes w"
    and event_frame: "plans (snd (port_RecordEvent P ev w)) = plans w"
      "outcomes (snd (port_RecordEvent P ev w)) = outcomes w"
    and decision_frame: "plans (snd (port_RecordDecision P d w)) = plans w"
      "outcomes (snd (port_RecordDecision P d w)) = outcomes w"
    and status_frame: "plans (snd (port_RecordActionStatus P s w)) = plans w"
      "outcomes (snd (port_RecordActionStatus P s w)) = outcomes w"
begin

lemmas trail_simps =
  plan_recorded plan_outcomes outcome_recorded outcome_plans now_frame capabilities_frame
  execute_frame event_frame decision_frame status_frame

end

end
