(* ===== verification/Engine_Audit.thy ===== *)
theory Engine_Audit
  imports Dispatch Memory_Audit
begin

text \<open>
  The engine over an audit store that keeps what it is given: the client side of the locale
  \<open>audit_trail\<close>. Along every run, the store holds one outcome for each plan, in the order of
  the plans, except for the plan of the episode that is still active.
\<close>

context audit_trail
begin

definition trail_inv :: "Engine \<Rightarrow> 'w \<Rightarrow> bool" where
  "trail_inv e w =
     (map plan_InteractionID (plans w) =
      map out_InteractionID (outcomes w) @ map ep_InteractionID (active_list (eng_episodes e)))"

lemma await_stream_trail:
  "plans (snd (await_stream P op ds tm mal acc w)) = plans w \<and>
   outcomes (snd (await_stream P op ds tm mal acc w)) = outcomes w"
proof (induction ds arbitrary: tm mal acc w)
  case (Cons x ds)
  then show ?case
    by (cases x) (simp_all add: Let_def bestEffortAuditStatus_def trail_simps split: option.splits)
qed (simp split: option.splits)

lemma dispatch_from_trail:
  "plans (snd (dispatch_from P cs acc w)) = plans w \<and>
   outcomes (snd (dispatch_from P cs acc w)) = outcomes w"
proof (induction cs arbitrary: acc w)
  case (Cons c cs)
  show ?case
    using Cons
    by (auto simp: case_prod_beta trail_simps await_stream_trail split: execution.splits option.splits)
qed simp

lemma dispatch_trail:
  "plans (snd (dispatchCommands P cs w)) = plans w"
  "outcomes (snd (dispatchCommands P cs w)) = outcomes w"
  by (simp_all add: dispatchCommands_def dispatch_from_trail)

lemmas world_simps = trail_simps dispatch_trail bestEffortAudit_snd bestEffortControlAudit_def

lemma greet_dispatch_trail:
  "plans (snd (snd (greet_dispatch P e r ev d ph i w))) = plans w"
  "outcomes (snd (snd (greet_dispatch P e r ev d ph i w))) = outcomes w"
  by (simp_all add: greet_dispatch_def Let_def case_prod_beta world_simps split: option.splits)

lemma active_list_closed [simp]:
  "active_list (t\<lparr>trk_active := None, trk_responseWindow := x\<rparr>) = []"
  by (simp add: active_list_def)

lemma greet_trail:
  assumes inv: "engine_inv e" and fresh: "obs_fresh e oid" and tr: "trail_inv e w"
    and d: "dec_InteractionID d = ''interaction:'' @ trigger_id oid"
  shows "trail_inv (fst (snd (greet P e r ev d now w))) (snd (snd (greet P e r ev d now w)))"
proof (cases rule: greet_cases [of P e r ev d now w])
  case kept
  with tr show ?thesis by (simp add: trail_inv_def world_simps)
next
  case (dispatched caps plan ph)
  let ?g = "greet P e r ev d now w"
  have none: "trk_active (eng_episodes e) = None"
    using dispatched(6) fresh d by (auto simp: obs_fresh_def new_episode_def episode_id_def)
  have win: "trk_responseWindow (eng_episodes (started_engine e ev d now)) = None"
    using inv dispatched(4) by (simp add: started_engine_def engine_inv_def reply_sync_def)
  have "active_list (eng_episodes (fst (snd (greet_dispatch P (started_engine e ev d now) r' ev d ph i w'))))
      = [new_episode ev d now]" for r' i w'
    by (cases rule: greet_dispatch_engine [OF win, of P r' ev d ph i w'])
      (simp_all add: active_list_def started_engine_def waiting_engine_def)
  then have "active_list (eng_episodes (fst (snd ?g))) = [new_episode ev d now]"
    by (simp add: dispatched(7) Let_def)
  moreover have "plans (snd (snd ?g)) = plans w @ [plan]" "outcomes (snd (snd ?g)) = outcomes w"
    by (simp_all add: dispatched(7) Let_def greet_dispatch_trail world_simps)
  moreover have "plan_InteractionID plan = dec_InteractionID d"
    using dispatched(2) by (simp add: Planner_Plan_Inr)
  ultimately show ?thesis
    using tr none by (simp add: trail_inv_def new_episode_def active_list_def)
qed

lemma acceptUserReply_trail:
  assumes inv: "engine_inv e" and tr: "trail_inv e w"
    and fresh: "evt_ID ev \<notin> trk_processedFeedbackEvents (eng_episodes e)"
    and ev: "ValidateUserReply ev = None" "evt_SubjectID ev = cfg_SubjectID (eng_config e)"
  shows "trail_inv (fst (snd (snd (acceptUserReply P e r ev w)))) (snd (snd (snd (acceptUserReply P e r ev w))))"
proof (cases "eng_pendingReply e")
  case None
  with tr show ?thesis by (simp add: acceptUserReply_def)
next
  case (Some p)
  with inv obtain ep win where ep: "trk_active (eng_episodes e) = Some ep"
    "trk_responseWindow (eng_episodes e) = Some win" "pen_episodeID p = ep_ID ep"
    "pen_subjectID p = ep_SubjectID ep" "ep_SubjectID ep = cfg_SubjectID (eng_config e)"
    and ok: "tracker_ok (eng_episodes e)"
    by (rule pendingE)
  have subj: "ep_SubjectID ep = evt_SubjectID ev" using ep ev by simp
  show ?thesis
    using Some ep ev subj tr
    by (simp add: acceptUserReply_def Tracker_Accept_cases [OF ok ep(1,2) ev(1) refl subj fresh]
        Let_def case_prod_beta replyWindow_clear_def trail_inv_def world_simps active_list_def
        split: option.splits)
qed

lemma trail_inv_projected [simp]: "trail_inv (projected e ev) w = trail_inv e w"
  by (simp add: trail_inv_def)

lemma trail_inv_frames [simp]:
  "trail_inv e (snd (port_RecordEvent P ev w)) = trail_inv e w"
  "trail_inv e (snd (port_RecordDecision P d w)) = trail_inv e w"
  "trail_inv e (snd (port_Now P w)) = trail_inv e w"
  "trail_inv (admitted e x) w = trail_inv e w"
  by (simp_all add: trail_inv_def trail_simps admitted_def)

lemma process_event_trail:
  assumes inv: "engine_inv e" and fresh: "obs_fresh e (obs_ID x)" and ev: "event_of ev x"
    and x: "obs_SubjectID x = cfg_SubjectID (eng_config e)" "obs_TraceID x \<noteq> []" "obs_OccurredAt x \<noteq> 0"
    and tr: "trail_inv e w"
  shows "trail_inv (fst (snd (process_event P e r ev now w))) (snd (snd (process_event P e r ev now w)))"
proof (cases "evt_Kind ev = UserReplied")
  case True
  have id: "evt_ID ev = reply_id (obs_ID x)" using ev True by (simp add: event_of_def reply_id_def)
  have "ValidateUserReply ev = None" "evt_SubjectID ev = cfg_SubjectID (eng_config e)"
    using True ev x id inv
    by (auto simp: validate_simps event_of_def engine_inv_def parts_ok_def Config_Validate_def split: if_splits)
  moreover have "evt_ID ev \<notin> trk_processedFeedbackEvents (eng_episodes e)"
    using fresh by (simp add: obs_fresh_def id)
  ultimately show ?thesis
    using tr by (simp add: process_event_reply [OF True] case_prod_beta Let_def bestEffortAudit_snd
        acceptUserReply_trail [OF inv])
next
  case False
  have "evt_ID ev \<noteq> []" "evt_TraceID ev \<noteq> []" using ev x by (auto simp: event_of_def)
  note body = process_event_other [OF this False]
  show ?thesis
  proof (cases "evt_Kind ev = PersonReturned")
    case True
    then have "dec_InteractionID (decide_on e ev) = ''interaction:'' @ trigger_id (obs_ID x)"
      using ev by (simp add: decide_on_sel event_of_def trigger_id_def)
    then show ?thesis
      using True projected_inv [OF inv] fresh tr
      by (simp add: body case_prod_beta Let_def bestEffortAudit_snd greet_trail)
  qed (use tr in \<open>simp add: body case_prod_beta Let_def bestEffortAudit_snd\<close>)
qed

lemma Engine_Process_trail:
  assumes inv: "engine_inv e" and tr: "trail_inv e w"
  shows "trail_inv (fst (snd (Engine_Process P e ctx x w))) (snd (snd (Engine_Process P e ctx x w)))"
proof (cases rule: Engine_Process_cases [of P e ctx x w])
  case (refused err)
  moreover have "snd (snd (Engine_Process P e ctx x w)) \<in> {w, snd (port_Now P w)}"
    using refused(3) .
  ultimately show ?thesis using tr by auto
next
  case quiet
  with tr show ?thesis by simp
next
  case (event ev)
  have x: "obs_SubjectID x = cfg_SubjectID (eng_config (admitted e x))" "obs_TraceID x \<noteq> []"
      "obs_OccurredAt x \<noteq> 0"
    using event by (simp_all add: admitted_def validate_simps)
  show ?thesis
    using admitted_inv [OF inv event(4)] tr unfolding event(1)
    by (intro process_event_trail [OF _ _ event(7) x]) simp_all
qed

lemma AdvanceAt_trail:
  assumes inv: "engine_inv e" and tr: "trail_inv e w"
  shows "trail_inv (fst (snd (AdvanceAt P e ctx wk w))) (snd (snd (AdvanceAt P e ctx wk w)))"
proof (cases "ctx = None \<and> (\<exists>p. eng_pendingReply e = Some p \<and> pen_wakeup p = wk \<and>
              wk_Deadline wk \<noteq> 0 \<and> wk_Deadline wk \<le> fst (port_Now P w))")
  case True
  then obtain p where p: "ctx = None" "eng_pendingReply e = Some p" "pen_wakeup p = wk"
      "wk_Deadline (pen_wakeup p) \<noteq> 0" "wk_Deadline (pen_wakeup p) \<le> fst (port_Now P w)" by blast
  from inv p(2) obtain ep where ep: "trk_active (eng_episodes e) = Some ep" by (rule pendingE)
  show ?thesis
    unfolding p(1) p(3) [symmetric]
    using tr ep AdvanceAt_due(1,5) [OF inv p(2,4,5)]
    by (simp add: trail_inv_def world_simps expired_world_def expired_engine_def
        closed_engine_def expired_outcome_def active_list_def)
next
  case False
  have "snd (snd (AdvanceAt P e ctx wk w)) \<in> {w, snd (port_Now P w)}"
    using AdvanceAt_idle(3) [OF inv False] .
  with tr AdvanceAt_idle(1) [OF inv False] show ?thesis by auto
qed

lemma Commit_trail:
  assumes inv: "engine_inv e" and tr: "trail_inv e w"
  shows "trail_inv (fst (snd (CommitUserRejection P e ctx c w))) (snd (snd (CommitUserRejection P e ctx c w)))"
proof (cases "rejection_accepted e ctx c")
  case acc: True
  show ?thesis
  proof (cases "rejection_id (ctl_ID c) \<in> trk_processedFeedbackEvents (eng_episodes e)")
    case True
    with tr Commit_duplicate [OF acc, of P w] show ?thesis by simp
  next
    case False
    show ?thesis
      unfolding Commit_applied [OF inv acc False]
      using tr
      by (auto simp: trail_inv_def world_simps rejected_engine_def consume_reply_def closed_engine_def
          rejection_ends_def active_list_def Let_def split: option.splits)
  qed
next
  case False
  with tr Commit_refused [OF this, of P w] show ?thesis by auto
qed

lemma run_trail:
  assumes "engine_run P env cfg w0 e w" "plans w0 = []" "outcomes w0 = []"
    and env: "\<And>u v. env u v \<Longrightarrow> plans v = plans u \<and> outcomes v = outcomes u"
    and stop: "\<And>r u. plans (snd (port_StopAll P r u)) = plans u \<and> outcomes (snd (port_StopAll P r u)) = outcomes u"
  shows "trail_inv e w"
  using assms(1)
proof (induction rule: engine_run.induct)
  case (run_new e)
  then show ?case
    using assms(2,3) by (auto simp: trail_inv_def Engine_New_def NewTracker_def active_list_def
        split: option.splits if_splits)
next
  case (run_env e w w')
  with env show ?case by (simp add: trail_inv_def)
next
  case (run_process e w ctx x res e' w')
  then show ?case using Engine_Process_trail [OF engine_run_inv [OF run_process(1)], of w ctx x] by simp
next
  case (run_advance e w ctx wk res e' w')
  then show ?case using AdvanceAt_trail [OF engine_run_inv [OF run_advance(1)], of w ctx wk] by simp
next
  case (run_commit e w ctx c err e' w')
  then show ?case using Commit_trail [OF engine_run_inv [OF run_commit(1)], of w ctx c] by simp
next
  case (run_stop e w c err w')
  have "plans w' = plans w \<and> outcomes w' = outcomes w"
    using run_stop(2) stop [of "ctl_Reason c" w]
    by (auto simp: Engine_StopAll_def case_prod_beta split: option.splits)
  with run_stop.IH show ?case by (simp add: trail_inv_def)
qed

end

end
