(* ===== verification/Fake_Clock.thy ===== *)
theory Fake_Clock
  imports Go_Prelude
begin

text \<open>
  Package \<^verbatim>\<open>internal/runtime/clock\<close> (\<^verbatim>\<open>fake.go\<close>): the manual clock of the simulator and of the
  tests. A schedule is a timer (interval 0) or a ticker; its channel holds at most one
  instant. \<^verbatim>\<open>Advance\<close> has a loop that moves a ticker past the new instant; with a negative
  interval that loop never ends, so it is a partial function whose value \<open>None\<close> means that
  it does not return.
\<close>

section \<open>Definitions\<close>

record schedule =
  sch_channel :: "time option"
  sch_next :: time
  sch_interval :: duration
  sch_stopped :: bool

record Fake =
  fk_now :: time
  fk_schedules :: "schedule list"

definition NewFake :: "time \<Rightarrow> Fake" where
  "NewFake now = \<lparr>fk_now = now, fk_schedules = []\<rparr>"

definition Fake_Now :: "Fake \<Rightarrow> time" where
  "Fake_Now f = fk_now f"

text \<open>The new schedule is identified by its position.\<close>

definition Fake_add :: "Fake \<Rightarrow> duration \<Rightarrow> duration \<Rightarrow> nat \<times> Fake" where
  "Fake_add f duration interval =
     (length (fk_schedules f),
      f\<lparr>fk_schedules := fk_schedules f @
          [\<lparr>sch_channel = None, sch_next = Add (fk_now f) duration, sch_interval = interval,
            sch_stopped = False\<rparr>]\<rparr>)"

definition Fake_NewTimer :: "Fake \<Rightarrow> duration \<Rightarrow> nat \<times> Fake" where
  "Fake_NewTimer f duration = Fake_add f duration 0"

definition Fake_NewTicker :: "Fake \<Rightarrow> duration \<Rightarrow> nat \<times> Fake" where
  "Fake_NewTicker f duration = Fake_add f duration duration"

partial_function (option) catch_up :: "time \<Rightarrow> duration \<Rightarrow> time \<Rightarrow> time option" where
  [code]: "catch_up now interval next' =
     (if After next' now then Some next' else catch_up now interval (Add next' interval))"

definition deliver :: "time \<Rightarrow> schedule \<Rightarrow> schedule option" where
  "deliver now item =
     (if sch_stopped item \<or> After (sch_next item) now then Some item
      else
        let item1 = item\<lparr>sch_channel := (case sch_channel item of
                             None \<Rightarrow> Some (sch_next item) | Some t \<Rightarrow> Some t)\<rparr>
        in if sch_interval item1 = 0 then Some (item1\<lparr>sch_stopped := True\<rparr>)
           else map_option (\<lambda>n. item1\<lparr>sch_next := n\<rparr>)
                  (catch_up now (sch_interval item1) (sch_next item1)))"

fun deliver_all :: "time \<Rightarrow> schedule list \<Rightarrow> schedule list option" where
  "deliver_all now [] = Some []"
| "deliver_all now (s # ss) =
     (case deliver now s of
        None \<Rightarrow> None
      | Some s' \<Rightarrow> map_option ((#) s') (deliver_all now ss))"

datatype advance_result = Panics | Diverges | Advanced Fake

definition Fake_Advance :: "Fake \<Rightarrow> duration \<Rightarrow> advance_result" where
  "Fake_Advance f duration =
     (if duration < 0 then Panics
      else let now = Add (fk_now f) duration
           in (case deliver_all now (fk_schedules f) of
                 None \<Rightarrow> Diverges
               | Some ss \<Rightarrow> Advanced (f\<lparr>fk_now := now, fk_schedules := ss\<rparr>)))"

text \<open>\<^verbatim>\<open>Stop\<close> of a timer or ticker, and a receive from its channel.\<close>

definition schedule_stop :: "Fake \<Rightarrow> nat \<Rightarrow> bool \<times> Fake" where
  "schedule_stop f i =
     (let s = fk_schedules f ! i
      in (\<not> sch_stopped s, f\<lparr>fk_schedules := (fk_schedules f)[i := s\<lparr>sch_stopped := True\<rparr>]\<rparr>))"

definition schedule_receive :: "Fake \<Rightarrow> nat \<Rightarrow> time option \<times> Fake" where
  "schedule_receive f i =
     (let s = fk_schedules f ! i
      in (sch_channel s, f\<lparr>fk_schedules := (fk_schedules f)[i := s\<lparr>sch_channel := None\<rparr>]\<rparr>))"

text \<open>What the clock keeps of its schedules: intervals are not negative, and an active one
  is due in the future (a timer of no duration is due at once, at the next advance).\<close>

definition intervals_ok :: "Fake \<Rightarrow> bool" where
  "intervals_ok f = list_all (\<lambda>s. 0 \<le> sch_interval s) (fk_schedules f)"

definition none_due :: "Fake \<Rightarrow> bool" where
  "none_due f = list_all (\<lambda>s. sch_stopped s \<or> fk_now f < sch_next s) (fk_schedules f)"

text \<open>The tick of a ticker that an advance skips to: the first after the new instant.\<close>

definition next_tick :: "time \<Rightarrow> duration \<Rightarrow> time \<Rightarrow> time" where
  "next_tick now interval next' =
     (if now < next' then next' else next' + ((now - next') div interval + 1) * interval)"

section \<open>Lemmas\<close>

lemma catch_up_next_tick:
  assumes "0 < i"
  shows "catch_up now i n = Some (next_tick now i n)"
proof (induction "nat (now - n + 1)" arbitrary: n rule: less_induct)
  case less
  show ?case
  proof (cases "now < n")
    case True
    then show ?thesis by (subst catch_up.simps) (simp add: next_tick_def)
  next
    case False
    then have "catch_up now i n = Some (next_tick now i (n + i))"
      using less [of "n + i"] assms by (subst catch_up.simps) simp
    moreover have "next_tick now i (n + i) = next_tick now i n"
    proof (cases "now < n + i")
      case True
      then have "(now - n) div i = 0" using False assms by simp
      with True False show ?thesis by (simp add: next_tick_def)
    next
      case big: False
      have "(now - n) div i = (now - (n + i) + i) div i" by simp
      also have "\<dots> = (now - (n + i)) div i + 1" using assms by (simp only: div_add_self2)
      finally show ?thesis using big False by (simp add: next_tick_def algebra_simps)
    qed
    ultimately show ?thesis by simp
  qed
qed

lemma next_tick_after: "0 < i \<Longrightarrow> now < next_tick now i n"
proof -
  assume "0 < i"
  then have "now - n < (now - n) div i * i + i"
    using pos_mod_bound [of i "now - n"] div_mult_mod_eq [of "now - n" i] by linarith
  then show ?thesis by (simp add: next_tick_def algebra_simps)
qed

lemma next_tick_least:
  assumes "0 < i" "n \<le> now"
  shows "next_tick now i n - i \<le> now"
proof -
  have "((now - n) div i) * i \<le> now - n"
    using assms pos_mod_sign [of i "now - n"] div_mult_mod_eq [of "now - n" i] by linarith
  with assms show ?thesis by (simp add: next_tick_def algebra_simps)
qed

lemma deliver_total:
  assumes "0 \<le> sch_interval s"
  shows "\<exists>s'. deliver now s = Some s' \<and> sch_interval s' = sch_interval s \<and>
    (sch_stopped s' \<or> now < sch_next s') \<and> sch_next s \<le> sch_next s' \<and>
    (sch_channel s \<noteq> None \<longrightarrow> sch_channel s' = sch_channel s) \<and>
    (sch_channel s = None \<longrightarrow>
       sch_channel s' = (if \<not> sch_stopped s \<and> sch_next s \<le> now then Some (sch_next s) else None)) \<and>
    (sch_stopped s' \<longleftrightarrow> sch_stopped s \<or> sch_interval s = 0 \<and> sch_next s \<le> now)"
proof (cases "sch_interval s = 0")
  case True
  then show ?thesis by (auto simp: deliver_def Let_def split: option.splits)
next
  case False
  with assms have i: "0 < sch_interval s" by simp
  have "sch_next s \<le> next_tick now (sch_interval s) (sch_next s)"
    using next_tick_after [OF i, of now "sch_next s"] by (auto simp: next_tick_def)
  with False i show ?thesis
    by (auto simp: deliver_def Let_def catch_up_next_tick next_tick_after split: option.splits)
qed

lemma deliver_all_total:
  assumes "list_all (\<lambda>s. 0 \<le> sch_interval s) ss"
  shows "\<exists>ss'. deliver_all now ss = Some ss' \<and> list_all2 (\<lambda>s s'. deliver now s = Some s') ss ss'"
  using assms
proof (induction ss)
  case (Cons s ss)
  then obtain s' ss' where "deliver now s = Some s'" "deliver_all now ss = Some ss'"
      "list_all2 (\<lambda>s s'. deliver now s = Some s') ss ss'"
    using deliver_total [of s now] by auto
  then show ?case by simp
qed simp

lemma deliver_interval:
  "deliver now s = Some s' \<Longrightarrow> 0 \<le> sch_interval s \<Longrightarrow>
     sch_interval s' = sch_interval s \<and> (sch_stopped s' \<or> now < sch_next s')"
  using deliver_total [of s now] by auto

lemma deliver_all_invariant:
  assumes "list_all2 (\<lambda>s s'. deliver now s = Some s') ss ss'" "list_all (\<lambda>s. 0 \<le> sch_interval s) ss"
  shows "list_all (\<lambda>s. 0 \<le> sch_interval s) ss' \<and> list_all (\<lambda>s. sch_stopped s \<or> now < sch_next s) ss'"
  using assms
  by (induction rule: list_all2_induct) (auto dest: deliver_interval)

section \<open>Properties\<close>

text \<open>C40. Advancing the manual clock by a duration that is not negative always returns when
  no ticker has a negative interval, moves the clock exactly by the duration, keeps the
  intervals, and leaves no schedule due: every active timer or ticker has its next instant
  strictly after the new time.\<close>

theorem Fake_Advance_total:
  assumes "intervals_ok f" "0 \<le> d"
  shows "\<exists>f'. Fake_Advance f d = Advanced f' \<and> fk_now f' = fk_now f + d \<and>
    intervals_ok f' \<and> none_due f' \<and> length (fk_schedules f') = length (fk_schedules f)"
proof -
  obtain ss where ss: "deliver_all (fk_now f + d) (fk_schedules f) = Some ss"
    and all: "list_all2 (\<lambda>s s'. deliver (fk_now f + d) s = Some s') (fk_schedules f) ss"
    using deliver_all_total assms(1) unfolding intervals_ok_def by blast
  from deliver_all_invariant [OF all] assms ss list_all2_lengthD [OF all] show ?thesis
    by (simp add: Fake_Advance_def Let_def intervals_ok_def none_due_def)
qed

theorem Fake_Advance_total_witness:
  "\<exists>f'. Fake_Advance \<lparr>fk_now = 10, fk_schedules =
      [\<lparr>sch_channel = None, sch_next = 12, sch_interval = 3, sch_stopped = False\<rparr>]\<rparr> 20 = Advanced f'
    \<and> none_due f'"
  using Fake_Advance_total [of "\<lparr>fk_now = 10, fk_schedules =
      [\<lparr>sch_channel = None, sch_next = 12, sch_interval = 3, sch_stopped = False\<rparr>]\<rparr>" 20]
  by (auto simp: intervals_ok_def)

text \<open>A due ticker delivers at most one tick per advance (the one that was due first, and
  only into an empty channel) and then skips to the first multiple of its interval after the
  new time: the missed ticks are dropped, none is moved.\<close>

theorem ticker_skips:
  assumes "0 < sch_interval s" "\<not> sch_stopped s" "sch_next s \<le> now"
  shows "\<exists>s' k. deliver now s = Some s' \<and> \<not> sch_stopped s' \<and>
    sch_channel s' = (case sch_channel s of None \<Rightarrow> Some (sch_next s) | Some t \<Rightarrow> Some t) \<and>
    0 < k \<and> sch_next s' = sch_next s + k * sch_interval s \<and>
    now < sch_next s' \<and> sch_next s' - sch_interval s \<le> now"
proof -
  let ?k = "(now - sch_next s) div sch_interval s + 1"
  have "0 < ?k" using assms by (simp add: pos_imp_zdiv_nonneg_iff add_nonneg_pos)
  moreover have "next_tick now (sch_interval s) (sch_next s) = sch_next s + ?k * sch_interval s"
    using assms by (simp add: next_tick_def)
  ultimately show ?thesis
    using assms next_tick_after [OF assms(1), of now "sch_next s"] next_tick_least [OF assms(1,3)]
    by (intro exI [of _ "s\<lparr>sch_channel := (case sch_channel s of None \<Rightarrow> Some (sch_next s) | Some t \<Rightarrow> Some t),
          sch_next := next_tick now (sch_interval s) (sch_next s)\<rparr>"] exI [of _ ?k])
      (simp add: deliver_def Let_def catch_up_next_tick)
qed

theorem ticker_skips_witness:
  "\<exists>s' k. deliver 30 \<lparr>sch_channel = None, sch_next = 12, sch_interval = 7, sch_stopped = False\<rparr> = Some s'
     \<and> sch_next s' = 12 + k * (7::int) \<and> 30 < sch_next s' \<and> sch_next s' - 7 \<le> 30"
  using ticker_skips [of "\<lparr>sch_channel = None, sch_next = 12, sch_interval = 7, sch_stopped = False\<rparr>" 30]
  by auto

end
