(* ===== verification/Fake_Driver.thy ===== *)
theory Fake_Driver
  imports Engine_Audit Fake_Clock
begin

text \<open>
  Package \<^verbatim>\<open>adapters/embodiment/fake\<close> (\<^verbatim>\<open>driver.go\<close>): the embodiment of the simulator, which
  answers every accepted command at once with a complete life cycle and replays it when the
  command is sent again. The ports of the simulator are this driver, the manual clock and the
  in-memory audit recorder over one environment.
\<close>

section \<open>The driver\<close>

record Driver =
  drv_capabilities :: Capabilities
  drv_executed :: "string \<rightharpoonup> ActionStatus list"
  drv_commands :: "ActionCommand list"
  drv_stopReasons :: "StopReason list"

definition NewDriver :: "Capabilities \<Rightarrow> Driver" where
  "NewDriver capabilities =
     \<lparr>drv_capabilities = capabilities, drv_executed = Map.empty, drv_commands = [],
      drv_stopReasons = []\<rparr>"

definition fake_Capabilities :: "Driver \<Rightarrow> goerror option \<Rightarrow> goerror + Capabilities" where
  "fake_Capabilities d ctxErr =
     (case ctxErr of Some err \<Rightarrow> Inl err | None \<Rightarrow> Inr (drv_capabilities d))"

definition statusStream :: "ActionStatus list \<Rightarrow> execution" where
  "statusStream statuses = Stream (map Received statuses)"

definition complete_lifecycle :: "ActionCommand \<Rightarrow> time \<Rightarrow> ActionStatus list" where
  "complete_lifecycle command now =
     map (\<lambda>state. \<lparr>sta_ActionID = com_ID command, sta_InteractionID = com_InteractionID command,
                   sta_TraceID = com_TraceID command, sta_State = state, sta_OccurredAt = now,
                   sta_Reason = []\<rparr>)
       [ActionDispatched, ActionAccepted, ActionStarted, ActionCompleted]"

definition fake_Execute ::
    "Driver \<Rightarrow> goerror option \<Rightarrow> time \<Rightarrow> ActionCommand \<Rightarrow> execution \<times> Driver" where
  "fake_Execute d ctxErr now command =
     (case ctxErr of Some err \<Rightarrow> (ExecError err, d)
      | None \<Rightarrow>
          if \<not> supported (drv_capabilities d) (com_RequiredCapability command) then
            (ExecError (New_fault CapabilityMissing ''fake execute''
                          (Leaf ''capability %s is unsupported'')), d)
          else (case drv_executed d (com_ID command) of
              Some previous \<Rightarrow> (statusStream previous, d)
            | None \<Rightarrow>
                if After now (com_Deadline command) then
                  (ExecError (New_fault DeadlineExceeded ''fake execute''
                                (Leaf ''action %s deadline elapsed'')), d)
                else
                  let statuses = complete_lifecycle command now
                  in (statusStream statuses,
                      d\<lparr>drv_executed := (drv_executed d)(com_ID command \<mapsto> statuses),
                        drv_commands := drv_commands d @ [command]\<rparr>)))"

definition fake_StopAll :: "Driver \<Rightarrow> goerror option \<Rightarrow> StopReason \<Rightarrow> goerror option \<times> Driver" where
  "fake_StopAll d ctxErr reason =
     (case ctxErr of Some err \<Rightarrow> (Some err, d)
      | None \<Rightarrow> (None, d\<lparr>drv_stopReasons := drv_stopReasons d @ [reason]\<rparr>))"

definition fake_Commands :: "Driver \<Rightarrow> ActionCommand list" where
  "fake_Commands d = drv_commands d"

definition fake_StopReasons :: "Driver \<Rightarrow> StopReason list" where
  "fake_StopReasons d = drv_stopReasons d"

section \<open>The simulator's environment\<close>

record sim =
  sim_clock :: Fake
  sim_driver :: Driver
  sim_audit :: AuditRecorder

definition on_audit :: "(AuditRecorder \<Rightarrow> goerror option \<times> AuditRecorder) \<Rightarrow> sim \<Rightarrow> goerror option \<times> sim" where
  "on_audit f w = (let (err, a) = f (sim_audit w) in (err, w\<lparr>sim_audit := a\<rparr>))"

text \<open>The contexts the engine passes down carry no error: nothing cancels the simulator.\<close>

definition sim_ports :: "sim ports" where
  "sim_ports =
     \<lparr>port_Now = (\<lambda>w. (Fake_Now (sim_clock w), w)),
      port_Capabilities = (\<lambda>w. (fake_Capabilities (sim_driver w) None, w)),
      port_Execute = (\<lambda>c w. let (x, d) = fake_Execute (sim_driver w) None (Fake_Now (sim_clock w)) c
                            in (x, w\<lparr>sim_driver := d\<rparr>)),
      port_StopAll = (\<lambda>r w. let (err, d) = fake_StopAll (sim_driver w) None r
                            in (err, w\<lparr>sim_driver := d\<rparr>)),
      port_RecordEvent = (\<lambda>x. on_audit (\<lambda>a. memory_RecordEvent a None x)),
      port_RecordDecision = (\<lambda>x. on_audit (\<lambda>a. memory_RecordDecision a None x)),
      port_RecordPlan = (\<lambda>x. on_audit (\<lambda>a. memory_RecordPlan a None x)),
      port_RecordActionStatus = (\<lambda>x. on_audit (\<lambda>a. memory_RecordActionStatus a None x)),
      port_RecordOutcome = (\<lambda>x. on_audit (\<lambda>a. memory_RecordOutcome a None x))\<rparr>"

section \<open>The driver's contract\<close>

text \<open>
  A stream the engine reads to the end without an error: non-terminal statuses of the
  command, then one completion.
\<close>

definition completing :: "ActionCommand \<Rightarrow> ActionStatus list \<Rightarrow> bool" where
  "completing c sts =
     (sts \<noteq> [] \<and> list_all (\<lambda>s. \<not> isTerminalActionState (sta_State s)) (butlast sts) \<and>
      sta_State (last sts) = ActionCompleted \<and> list_all (\<lambda>s. sta_ActionID s = com_ID c) sts)"

definition executed_ok :: "Driver \<Rightarrow> bool" where
  "executed_ok d =
     (\<forall>i sts. drv_executed d i = Some sts \<longrightarrow> (\<forall>c. com_ID c = i \<longrightarrow> completing c sts))"

lemma NewDriver_ok: "executed_ok (NewDriver caps)"
  by (simp add: executed_ok_def NewDriver_def)

lemma complete_lifecycle_completing: "com_ID c' = com_ID c \<Longrightarrow> completing c' (complete_lifecycle c now)"
  by (simp add: completing_def complete_lifecycle_def isTerminalActionState_def)

lemma fake_Execute_ok: "executed_ok d \<Longrightarrow> executed_ok (snd (fake_Execute d ctx now c))"
  by (auto simp: executed_ok_def fake_Execute_def Let_def complete_lifecycle_completing
      split: option.splits)

lemma fake_Execute_frame [simp]:
  "drv_capabilities (snd (fake_Execute d ctx now c)) = drv_capabilities d"
  by (simp add: fake_Execute_def Let_def split: option.splits)

lemma sim_ports_sel [simp]:
  "port_Now sim_ports w = (fk_now (sim_clock w), w)"
  "port_Capabilities sim_ports w = (Inr (drv_capabilities (sim_driver w)), w)"
  "snd (port_RecordEvent sim_ports ev w) = w\<lparr>sim_audit := (sim_audit w)\<lparr>aud_events := aud_events (sim_audit w) @ [ev]\<rparr>\<rparr>"
  "snd (port_RecordDecision sim_ports d w) = w\<lparr>sim_audit := (sim_audit w)\<lparr>aud_decisions := aud_decisions (sim_audit w) @ [d]\<rparr>\<rparr>"
  "snd (port_RecordPlan sim_ports p w) = w\<lparr>sim_audit := (sim_audit w)\<lparr>aud_plans := aud_plans (sim_audit w) @ [p]\<rparr>\<rparr>"
  "snd (port_RecordActionStatus sim_ports s w) = w\<lparr>sim_audit := (sim_audit w)\<lparr>aud_statuses := aud_statuses (sim_audit w) @ [s]\<rparr>\<rparr>"
  "snd (port_RecordOutcome sim_ports y w) = w\<lparr>sim_audit := (sim_audit w)\<lparr>aud_outcomes := aud_outcomes (sim_audit w) @ [y]\<rparr>\<rparr>"
  by (simp_all add: sim_ports_def on_audit_def memory_RecordEvent_def memory_RecordDecision_def
      memory_RecordPlan_def memory_RecordActionStatus_def memory_RecordOutcome_def
      fake_Capabilities_def Fake_Now_def)

lemma sim_Execute:
  "port_Execute sim_ports c w =
     (fst (fake_Execute (sim_driver w) None (fk_now (sim_clock w)) c),
      w\<lparr>sim_driver := snd (fake_Execute (sim_driver w) None (fk_now (sim_clock w)) c)\<rparr>)"
  by (simp add: sim_ports_def Let_def case_prod_beta Fake_Now_def)

interpretation sim_trail: audit_trail sim_ports "\<lambda>w. aud_plans (sim_audit w)" "\<lambda>w. aud_outcomes (sim_audit w)"
  by unfold_locales (simp_all add: sim_Execute)

end
