(* ===== verification/Simulator.thy ===== *)
theory Simulator
  imports Fake_Driver
begin

text \<open>
  Command \<^verbatim>\<open>cmd/simulator\<close> (\<^verbatim>\<open>main.go\<close>): the deterministic scenarios on the engine, the fake
  embodiment, the manual clock and the in-memory audit recorder. \<open>simulate\<close> is the body of
  \<^verbatim>\<open>main\<close> after flag parsing; a call of \<^verbatim>\<open>fail\<close> is an \<open>Inl\<close>. Encoding the output as JSON and
  printing it are not modelled.
\<close>

section \<open>The program\<close>

definition defaultConfig :: Config where
  "defaultConfig =
     \<lparr>cfg_SubjectID = ''user-1'', cfg_ReturnAbsenceThreshold = 30 * Minute,
      cfg_RejectionCooldown = 30 * Minute, cfg_NoResponseCooldown = 5 * Minute,
      cfg_ActionTimeout = 2 * Second, cfg_ExternalCallTimeout = Second,
      cfg_PolicyVersion = ''policy.v1'', cfg_BehaviorVersion = ''welcome_after_return.v1'',
      cfg_ConfigHash = ''config.desktop.v1'', cfg_RandomSeed = 1\<rparr>"

definition desktopCapabilities :: Capabilities where
  "desktopCapabilities =
     (let c = \<lparr>cap_Supported = True, cap_Interruptible = True\<rparr>
      in [AttendUser \<mapsto> c, Acknowledge \<mapsto> c, Speak \<mapsto> c, ReturnIdle \<mapsto> c])"

text \<open>The \<^verbatim>\<open>float32\<close> values nearest to 0.99 and 0.98.\<close>

definition blank_observation :: "string \<Rightarrow> 64 word \<Rightarrow> time \<Rightarrow> float32 \<Rightarrow> Observation" where
  "blank_observation i sq t conf =
     \<lparr>obs_ID = i, obs_SourceID = ''simulator'', obs_SourceSeq = sq, obs_OccurredAt = t,
      obs_TTL = Minute, obs_SubjectID = ''user-1'', obs_Confidence = conf,
      obs_TraceID = ''trace-simulator-1'', obs_PersonPresence = None, obs_UserBusy = None,
      obs_QuietMode = None, obs_UserReply = None\<rparr>"

definition presence :: "string \<Rightarrow> 64 word \<Rightarrow> time \<Rightarrow> bool \<Rightarrow> Observation" where
  "presence i sq t present =
     (blank_observation i sq t (Fin (4152361 / 4194304)))
       \<lparr>obs_PersonPresence := Some \<lparr>pp_Present = present\<rparr>\<rparr>"

definition busyOnCall :: "string \<Rightarrow> 64 word \<Rightarrow> time \<Rightarrow> Observation" where
  "busyOnCall i sq t =
     (blank_observation i sq t (Fin (2055209 / 2097152)))
       \<lparr>obs_UserBusy := Some \<lparr>ub_Busy = True, ub_Reason = BusyOnCall\<rparr>\<rparr>"

definition userReply :: "string \<Rightarrow> 64 word \<Rightarrow> time \<Rightarrow> Observation" where
  "userReply i sq t =
     (blank_observation i sq t (Fin (4152361 / 4194304)))\<lparr>obs_UserReply := Some ()\<rparr>"

text \<open>2026-08-12 09:00:00 UTC.\<close>

definition startedAt :: time where
  "startedAt = 63922122000 * Second"

definition bind_result :: "'e + 'a \<Rightarrow> ('a \<Rightarrow> 'e + 'b) \<Rightarrow> 'e + 'b" where
  "bind_result m f = (case m of Inl err \<Rightarrow> Inl err | Inr x \<Rightarrow> f x)"

definition sim_advance :: "duration \<Rightarrow> sim \<Rightarrow> goerror + sim" where
  "sim_advance d w =
     (case Fake_Advance (sim_clock w) d of
        Advanced f \<Rightarrow> Inr (w\<lparr>sim_clock := f\<rparr>)
      | Panics \<Rightarrow> Inl (Leaf ''fake clock cannot move backwards'')
      | Diverges \<Rightarrow> Inl (Leaf ''advance does not return''))"

definition sim_process :: "Observation \<Rightarrow> Engine \<Rightarrow> sim \<Rightarrow> goerror + Result \<times> Engine \<times> sim" where
  "sim_process x e w =
     (case Engine_Process sim_ports e None x w of
        ((res, Some err), e', w') \<Rightarrow> Inl err
      | ((res, None), e', w') \<Rightarrow> Inr (res, e', w'))"

definition sim_now :: "sim \<Rightarrow> time" where
  "sim_now w = Fake_Now (sim_clock w)"

definition sim_start :: sim where
  "sim_start = \<lparr>sim_clock = NewFake startedAt, sim_driver = NewDriver desktopCapabilities,
                sim_audit = zero_AuditRecorder\<rparr>"

text \<open>The simulator up to the moment before the user returns, and up to the return: the
  sequence number of that observation, and its result.\<close>

definition sim_before_return :: "bool \<Rightarrow> goerror + 64 word \<times> Engine \<times> sim" where
  "sim_before_return busy =
     bind_result (Engine_New defaultConfig True) (\<lambda>e0.
     bind_result (sim_process (presence ''obs-left'' 1 startedAt False) e0 sim_start) (\<lambda>(r1, e1, w1).
     if busy then
       bind_result (sim_advance (44 * Minute) w1) (\<lambda>w2.
       bind_result (sim_process (busyOnCall ''obs-call'' 2 (sim_now w2)) e1 w2) (\<lambda>(r2, e2, w3).
       bind_result (sim_advance Minute w3) (\<lambda>w4. Inr (3, e2, w4))))
     else bind_result (sim_advance (45 * Minute) w1) (\<lambda>w2. Inr (2, e1, w2))))"

definition sim_return :: "bool \<Rightarrow> goerror + Result \<times> 64 word \<times> Engine \<times> sim" where
  "sim_return busy =
     bind_result (sim_before_return busy) (\<lambda>(nextSeq, e3, w5).
     bind_result (sim_process (presence ''obs-return'' nextSeq (sim_now w5) True) e3 w5)
       (\<lambda>(result, e4, w6). Inr (result, nextSeq, e4, w6)))"

record sim_output =
  so_Scenario :: string
  so_Result :: Result
  so_FollowUp :: "Result option"
  so_Snapshot :: WorldSnapshot
  so_Audit :: AuditRecorder

definition sim_reply :: "64 word \<Rightarrow> Engine \<Rightarrow> sim \<Rightarrow> goerror + Result option \<times> Engine \<times> sim" where
  "sim_reply nextSeq e w =
     bind_result (sim_advance (4 * Second) w) (\<lambda>w1.
     bind_result (sim_process (userReply ''obs-reply'' (nextSeq + 1) (sim_now w1)) e w1)
       (\<lambda>(value, e1, w2). Inr (Some value, e1, w2)))"

definition sim_reject :: "Engine \<Rightarrow> sim \<Rightarrow> goerror + Result option \<times> Engine \<times> sim" where
  "sim_reject e w =
     (let command = \<lparr>ctl_ID = ''control-reject'', ctl_Kind = StopAll, ctl_Reason = ReasonUserRejected,
                     ctl_SubjectID = ''user-1'', ctl_OccurredAt = sim_now w,
                     ctl_TraceID = ''trace-simulator-reject''\<rparr>
      in (case Engine_StopAll sim_ports command w of
            (Some err, w1) \<Rightarrow> Inl err
          | (None, w1) \<Rightarrow>
              (case CommitUserRejection sim_ports e None command w1 of
                 (Some err, e1, w2) \<Rightarrow> Inl err
               | (None, e1, w2) \<Rightarrow> Inr (None, e1, w2))))"

definition sim_timeout :: "Engine \<Rightarrow> sim \<Rightarrow> goerror + Result option \<times> Engine \<times> sim" where
  "sim_timeout e w =
     (case NextWakeup e of
        None \<Rightarrow> Inl (Leaf ''timeout scenario has no pending wakeup'')
      | Some wakeup \<Rightarrow>
          bind_result (sim_advance (Sub (wk_Deadline wakeup) (sim_now w)) w) (\<lambda>w1.
          (case AdvanceAt sim_ports e None wakeup w1 of
             ((value, Some err), e1, w2) \<Rightarrow> Inl err
           | ((value, None), e1, w2) \<Rightarrow> Inr (Some value, e1, w2))))"

definition simulate :: "bool \<Rightarrow> bool \<Rightarrow> bool \<Rightarrow> bool \<Rightarrow> goerror + sim_output" where
  "simulate busy reply reject timeout =
     (if length (filter id [busy, reply, reject, timeout]) > 1 then
        Inl (Leaf ''busy, reply, reject, and timeout scenarios are mutually exclusive'')
      else bind_result (sim_return busy) (\<lambda>(result, nextSeq, e, w).
           bind_result
             (if reply then sim_reply nextSeq e w
              else if reject then sim_reject e w
              else if timeout then sim_timeout e w
              else Inr (None, e, w)) (\<lambda>(followUp, e1, w1).
           Inr \<lparr>so_Scenario =
                  (if busy then ''returned_while_on_call''
                   else if reply then ''welcome_after_return_and_reply''
                   else if reject then ''welcome_after_return_and_rejection''
                   else if timeout then ''welcome_after_return_no_response''
                   else ''welcome_after_return''),
                so_Result = result, so_FollowUp = followUp, so_Snapshot = Engine_Snapshot e1,
                so_Audit = memory_Snapshot (sim_audit w1)\<rparr>)))"

text \<open>What a scenario shows: kinds of decision, states per action, outcomes, all audited.\<close>

definition summary :: "sim_output \<Rightarrow>
    decision_Kind list \<times> (string \<times> ActionState) list \<times> (OutcomeKind \<times> time) list" where
  "summary s =
     (map dec_Kind (aud_decisions (so_Audit s)),
      map (\<lambda>a. (sta_ActionID a, sta_State a))
        (filter (\<lambda>a. isTerminalActionState (sta_State a)) (aud_statuses (so_Audit s))),
      map (\<lambda>y. (out_Kind y, out_OccurredAt y - startedAt)) (aud_outcomes (so_Audit s)))"

section \<open>The fake embodiment completes what it accepts\<close>

definition sim_ready :: "ActionCommand \<Rightarrow> sim \<Rightarrow> bool" where
  "sim_ready c w =
     (supported (drv_capabilities (sim_driver w)) (com_RequiredCapability c) \<and>
      fk_now (sim_clock w) \<le> com_Deadline c \<and> executed_ok (sim_driver w))"

lemma completing_completed_once:
  "completing c sts \<Longrightarrow> completed_once sts \<and> list_all (\<lambda>s. sta_ActionID s = com_ID c) sts"
  by (simp add: completing_def completed_once_def)

interpretation sim_driver: completing_driver sim_ports sim_ready
proof unfold_locales
  fix c w assume r: "sim_ready c w"
  show "\<exists>sts. fst (port_Execute sim_ports c w) = Stream (map Received sts) \<and> completed_once sts \<and>
      list_all (\<lambda>s. sta_ActionID s = com_ID c) sts"
  proof (cases "drv_executed (sim_driver w) (com_ID c)")
    case None
    with r complete_lifecycle_completing [of c c "fk_now (sim_clock w)"] show ?thesis
      by (auto simp: sim_ready_def sim_Execute fake_Execute_def statusStream_def Let_def
          dest!: completing_completed_once)
  next
    case (Some sts)
    with r have "completing c sts" by (auto simp: sim_ready_def executed_ok_def)
    with r Some show ?thesis
      by (auto simp: sim_ready_def sim_Execute fake_Execute_def statusStream_def
          dest!: completing_completed_once)
  qed
next
  fix c c' w assume "sim_ready c w" "sim_ready c' w"
  then show "sim_ready c' (snd (port_Execute sim_ports c w))"
    by (simp add: sim_ready_def sim_Execute fake_Execute_ok)
next
  fix c w s assume "sim_ready c w"
  then show "sim_ready c (snd (port_RecordActionStatus sim_ports s w))"
    by (simp add: sim_ready_def)
qed

section \<open>The scenarios\<close>

abbreviation action_done :: "string \<Rightarrow> string \<times> ActionState" where
  "action_done n \<equiv> (''interaction:evt:obs-return:PERSON_RETURNED:action:'' @ n, ActionCompleted)"

lemma simulate_welcome:
  "map_sum id summary (simulate False False False False) =
     Inr ([GreetShort], [action_done ''1'', action_done ''2'', action_done ''3''], [])"
  by code_simp

lemma simulate_busy:
  "map_sum id summary (simulate True False False False) = Inr ([Silent], [], [])"
  by code_simp

lemma simulate_reply:
  "map_sum id summary (simulate False True False False) =
     Inr ([GreetShort], [action_done ''1'', action_done ''2'', action_done ''3'', action_done ''4''],
          [(Accepted, 45 * Minute + 4 * Second)])"
  by code_simp

lemma simulate_reject:
  "map_sum id summary (simulate False False True False) =
     Inr ([GreetShort], [action_done ''1'', action_done ''2'', action_done ''3''],
          [(Rejected, 45 * Minute)])"
  by code_simp

lemma simulate_timeout:
  "map_sum id summary (simulate False False False True) =
     Inr ([GreetShort], [action_done ''1'', action_done ''2'', action_done ''3'', action_done ''4''],
          [(NoResponse, 45 * Minute + 8 * Second)])"
  by code_simp

text \<open>The simulator's five scenarios never fail and end as documented: a greeting with its
  three actions; silence on a call; a reply accepted 4 seconds in, followed by the return to
  idle; a rejection, which suppresses the return to idle; and no response at the 8 second
  deadline, followed by the return to idle.\<close>

theorem simulator_scenarios:
  "map_sum id summary (simulate False False False False) =
     Inr ([GreetShort], [action_done ''1'', action_done ''2'', action_done ''3''], []) \<and>
   map_sum id summary (simulate True False False False) = Inr ([Silent], [], []) \<and>
   map_sum id summary (simulate False True False False) =
     Inr ([GreetShort], [action_done ''1'', action_done ''2'', action_done ''3'', action_done ''4''],
          [(Accepted, 45 * Minute + 4 * Second)]) \<and>
   map_sum id summary (simulate False False True False) =
     Inr ([GreetShort], [action_done ''1'', action_done ''2'', action_done ''3''],
          [(Rejected, 45 * Minute)]) \<and>
   map_sum id summary (simulate False False False True) =
     Inr ([GreetShort], [action_done ''1'', action_done ''2'', action_done ''3'', action_done ''4''],
          [(NoResponse, 45 * Minute + 8 * Second)])"
  by (intro conjI simulate_welcome simulate_busy simulate_reply simulate_reject simulate_timeout)

end
