(* ===== verification/Engine_Props.thy ===== *)
theory Engine_Props
  imports Simulator
begin

text \<open>
  The properties of the engine along its runs: the state shared by tracker, continuation and
  published window; what a wakeup, a reply, a rejection and a suppressed opportunity do; the
  admission of observations; the agreement of compiler and projector; and the episode that
  stays active when the dispatch of a greeting fails. Each property quantifies over all
  behaviours of the ports, unless it names the simulator's.
\<close>

section \<open>Definitions used by the properties\<close>

text \<open>The timeline and the snapshot of the engine's subject agree.\<close>

definition agree :: "subjectTimeline \<Rightarrow> WorldSnapshot \<Rightarrow> bool" where
  "agree t s =
     (snap_PersonPresent s = (tl_presenceKnown t \<and> tl_present t) \<and>
      snap_UserBusy s = (tl_busyKnown t \<and> tl_busy t) \<and>
      snap_QuietMode s = (tl_quietKnown t \<and> tl_quiet t))"

definition coherent :: "Engine \<Rightarrow> bool" where
  "coherent e =
     agree (timeline_of (eng_compiler e) (cfg_SubjectID (eng_config e))) (prj_snapshot (eng_projector e))"

text \<open>The observations an ingress lets through, out of a sequence of attempts.\<close>

fun ingress_run :: "ingress \<Rightarrow> (Observation \<times> time) list \<Rightarrow> Observation list" where
  "ingress_run i [] = []"
| "ingress_run i ((x, now) # xs) =
     (case ingress_accept i x now of
        (Some err, i') \<Rightarrow> ingress_run i' xs
      | (None, i') \<Rightarrow> x # ingress_run i' xs)"

text \<open>The only change of the simulator's environment between two operations is the clock.\<close>

definition sim_env :: "sim \<Rightarrow> sim \<Rightarrow> bool" where
  "sim_env w w' = (sim_driver w' = sim_driver w \<and> sim_audit w' = sim_audit w)"

section \<open>Frames\<close>

lemma greet_dispatch_frame:
  "eng_config (fst (snd (greet_dispatch P e r ev d ph i w))) = eng_config e"
  "eng_compiler (fst (snd (greet_dispatch P e r ev d ph i w))) = eng_compiler e"
  "eng_projector (fst (snd (greet_dispatch P e r ev d ph i w))) = eng_projector e"
  by (simp_all add: greet_dispatch_def Let_def case_prod_beta replyWindow_publish_def
      split: option.splits)

lemma greet_frame:
  "eng_config (fst (snd (greet P e r ev d now w))) = eng_config e \<and>
   eng_compiler (fst (snd (greet P e r ev d now w))) = eng_compiler e \<and>
   eng_projector (fst (snd (greet P e r ev d now w))) = eng_projector e"
  by (cases rule: greet_cases [of P e r ev d now w])
    (simp_all add: Let_def greet_dispatch_frame)

lemma acceptUserReply_frame:
  "eng_config (fst (snd (snd (acceptUserReply P e r ev w)))) = eng_config e"
  "eng_compiler (fst (snd (snd (acceptUserReply P e r ev w)))) = eng_compiler e"
  "eng_projector (fst (snd (snd (acceptUserReply P e r ev w)))) = eng_projector e"
  by (simp_all add: acceptUserReply_def Let_def case_prod_beta replyWindow_clear_def
      split: option.splits)

lemma process_event_frame:
  assumes "event_of ev x" "obs_TraceID x \<noteq> []"
  shows "eng_config (fst (snd (process_event P e r ev now w))) = eng_config e \<and>
    eng_compiler (fst (snd (process_event P e r ev now w))) = eng_compiler e \<and>
    eng_projector (fst (snd (process_event P e r ev now w))) =
      (if evt_Kind ev = UserReplied then eng_projector e else snd (Projector_Apply (eng_projector e) ev))"
proof (cases "evt_Kind ev = UserReplied")
  case True
  then show ?thesis
    by (simp add: process_event_reply case_prod_beta Let_def acceptUserReply_frame)
next
  case False
  have "evt_ID ev \<noteq> []" "evt_TraceID ev \<noteq> []" using assms by (auto simp: event_of_def)
  with False show ?thesis
    by (simp add: process_event_other case_prod_beta Let_def greet_frame)
qed

lemma Engine_Process_config: "eng_config (fst (snd (Engine_Process P e ctx x w))) = eng_config e"
proof (cases rule: Engine_Process_cases [of P e ctx x w])
  case (event ev)
  then have "obs_TraceID x \<noteq> []" by (simp add: validate_simps)
  then show ?thesis unfolding event(1) by (simp add: process_event_frame [OF event(7)])
qed simp_all

lemma AdvanceAt_config: "engine_inv e \<Longrightarrow> eng_config (fst (snd (AdvanceAt P e ctx wk w))) = eng_config e"
  by (auto simp: AdvanceAt_def Let_def case_prod_beta replyWindow_clear_def
      split: option.splits sum.splits bool.splits)

lemma Commit_config: "eng_config (fst (snd (CommitUserRejection P e ctx c w))) = eng_config e"
  by (auto simp: CommitUserRejection_def Let_def case_prod_beta replyWindow_clear_def
      split: option.splits sum.splits bool.splits)

lemma engine_run_config: "engine_run P env cfg w0 e w \<Longrightarrow> eng_config e = cfg"
proof (induction rule: engine_run.induct)
  case (run_new e)
  then show ?case by (auto simp: Engine_New_def split: option.splits if_splits)
next
  case (run_process e w ctx x res e' w')
  then show ?case using Engine_Process_config [of P e ctx x w] by simp
next
  case (run_advance e w ctx wk res e' w')
  then show ?case using AdvanceAt_config [OF engine_run_inv [OF run_advance(1)], of P ctx wk w] by simp
next
  case (run_commit e w ctx c err e' w')
  then show ?case using Commit_config [of P e ctx c w] by simp
qed simp_all

section \<open>Compiler and projector agree\<close>

lemma Projector_Apply_apply:
  "evt_SubjectID ev = snap_SubjectID (prj_snapshot p) \<Longrightarrow>
     prj_snapshot (snd (Projector_Apply p ev)) =
       (apply_kind (evt_Kind ev) ev (prj_snapshot p))
         \<lparr>snap_Version := snap_Version (prj_snapshot p) + 1, snap_UpdatedAt := evt_OccurredAt ev\<rparr>"
  by (simp add: Projector_Apply_def Let_def)

text \<open>One compiled step moves the timeline and the snapshot of its subject together.\<close>

definition apply_opt :: "SemanticEvent option \<Rightarrow> WorldSnapshot \<Rightarrow> WorldSnapshot" where
  "apply_opt out s = (case out of None \<Rightarrow> s | Some ev \<Rightarrow> apply_kind (evt_Kind ev) ev s)"

lemma presence_agree:
  "agree t s \<Longrightarrow> agree (fst (compile_presence d t x v)) (apply_opt (snd (compile_presence d t x v)) s)"
  by (cases v; cases "tl_presenceKnown t"; cases "tl_present t")
    (simp_all add: agree_def apply_opt_def compile_presence_def Let_def)

lemma busy_agree:
  "agree t s \<Longrightarrow> agree (fst (compile_busy t x v r)) (apply_opt (snd (compile_busy t x v r)) s)"
  by (cases v; cases "tl_busyKnown t"; cases "tl_busy t")
    (simp_all add: agree_def apply_opt_def compile_busy_def)

lemma quiet_agree:
  "agree t s \<Longrightarrow> agree (fst (compile_quiet t x v)) (apply_opt (snd (compile_quiet t x v)) s)"
  by (cases v; cases "tl_quietKnown t"; cases "tl_quiet t")
    (simp_all add: agree_def apply_opt_def compile_quiet_def)

lemma step_agree:
  "agree t s \<Longrightarrow> agree (fst (step_timeline d t x)) (apply_opt (snd (step_timeline d t x)) s)"
proof (cases "the_payload x")
  case None
  assume "agree t s"
  with None show ?thesis by (simp add: step_timeline_def apply_opt_def)
next
  case (Some p)
  assume "agree t s"
  with Some show ?thesis
    by (cases p) (simp_all add: step_timeline_def presence_agree busy_agree quiet_agree,
      simp add: apply_opt_def)
qed

lemma admitted_agree:
  assumes "obs_SubjectID x = cfg_SubjectID (eng_config e)" "coherent e"
  shows "agree (timeline_of (snd (Compiler_Compile (eng_compiler e) x)) (cfg_SubjectID (eng_config e)))
    (case fst (Compiler_Compile (eng_compiler e) x) of [] \<Rightarrow> prj_snapshot (eng_projector e)
     | ev # _ \<Rightarrow> apply_kind (evt_Kind ev) ev (prj_snapshot (eng_projector e)))"
proof -
  let ?st = "step_timeline (cmp_returnAbsenceThreshold (eng_compiler e))
       (timeline_of (eng_compiler e) (cfg_SubjectID (eng_config e))) x"
  have "agree (fst ?st) (apply_opt (snd ?st) (prj_snapshot (eng_projector e)))"
    using assms(2) by (intro step_agree) (simp add: coherent_def)
  moreover have "timeline_of (snd (Compiler_Compile (eng_compiler e) x)) (cfg_SubjectID (eng_config e)) = fst ?st"
    using assms(1) by (simp add: timeline_of_Compile)
  moreover have "fst (Compiler_Compile (eng_compiler e) x) = (case snd ?st of None \<Rightarrow> [] | Some ev \<Rightarrow> [ev])"
    using assms(1) by (simp add: Compile_step Let_def case_prod_beta)
  ultimately show ?thesis
    by (cases "snd ?st") (simp_all add: apply_opt_def)
qed

lemma agree_version [simp]: "agree t (s\<lparr>snap_Version := v, snap_UpdatedAt := u\<rparr>) = agree t s"
  by (simp add: agree_def)

lemma Engine_Process_coherent:
  assumes inv: "engine_inv e" and co: "coherent e"
  shows "coherent (fst (snd (Engine_Process P e ctx x w)))"
proof (cases rule: Engine_Process_cases [of P e ctx x w])
  case refused
  with co show ?thesis by simp
next
  case quiet
  with admitted_agree [OF quiet(3) co] show ?thesis by (simp add: coherent_def)
next
  case (event ev)
  have subj: "evt_SubjectID ev = snap_SubjectID (prj_snapshot (eng_projector e))"
    using inv event(3,7) by (simp add: event_of_def engine_inv_def parts_ok_def)
  have "obs_TraceID x \<noteq> []" using event(5) by (simp add: validate_simps)
  note fr = process_event_frame [OF event(7) this]
  show ?thesis
    using admitted_agree [OF event(3) co] Projector_Apply_apply [OF subj]
    unfolding event(1) coherent_def
    by (cases "evt_Kind ev = UserReplied") (simp_all add: fr event(6))
qed

lemma coherent_cong:
  "eng_config e' = eng_config e \<Longrightarrow> eng_compiler e' = eng_compiler e \<Longrightarrow>
   snap_PersonPresent (prj_snapshot (eng_projector e')) = snap_PersonPresent (prj_snapshot (eng_projector e)) \<Longrightarrow>
   snap_UserBusy (prj_snapshot (eng_projector e')) = snap_UserBusy (prj_snapshot (eng_projector e)) \<Longrightarrow>
   snap_QuietMode (prj_snapshot (eng_projector e')) = snap_QuietMode (prj_snapshot (eng_projector e)) \<Longrightarrow>
   coherent e \<Longrightarrow> coherent e'"
  by (simp add: coherent_def agree_def)

lemma AdvanceAt_coherent: "engine_inv e \<Longrightarrow> coherent e \<Longrightarrow> coherent (fst (snd (AdvanceAt P e ctx wk w)))"
  by (cases "ctx = None \<and> (\<exists>p. eng_pendingReply e = Some p \<and> pen_wakeup p = wk \<and>
        wk_Deadline wk \<noteq> 0 \<and> wk_Deadline wk \<le> fst (port_Now P w))")
    (auto simp: AdvanceAt_due AdvanceAt_idle expired_engine_def closed_engine_def frame_simps
      elim!: coherent_cong [rotated 5])

lemma Commit_coherent: "engine_inv e \<Longrightarrow> coherent e \<Longrightarrow> coherent (fst (snd (CommitUserRejection P e ctx c w)))"
proof (cases "rejection_accepted e ctx c")
  case acc: True
  assume inv: "engine_inv e" and co: "coherent e"
  show ?thesis
  proof (cases "rejection_id (ctl_ID c) \<in> trk_processedFeedbackEvents (eng_episodes e)")
    case False
    show ?thesis
      unfolding Commit_applied [OF inv acc False]
      using co by (auto simp: rejected_engine_def consume_reply_def closed_engine_def Let_def frame_simps
          elim!: coherent_cong [rotated 5])
  qed (use co Commit_duplicate [OF acc, of P w] in simp)
next
  case False
  assume "coherent e"
  with Commit_refused [OF False, of P w] show ?thesis by auto
qed

lemma engine_run_coherent: "engine_run P env cfg w0 e w \<Longrightarrow> coherent e"
proof (induction rule: engine_run.induct)
  case (run_new e)
  then show ?case
    by (auto simp: Engine_New_def coherent_def agree_def NewProjector_def zero_timeline_def
        split: option.splits if_splits)
next
  case (run_process e w ctx x res e' w')
  then show ?case using Engine_Process_coherent [OF engine_run_inv [OF run_process(1)], of P ctx x w] by simp
next
  case (run_advance e w ctx wk res e' w')
  then show ?case using AdvanceAt_coherent [OF engine_run_inv [OF run_advance(1)], of P ctx wk w] by simp
next
  case (run_commit e w ctx c err e' w')
  then show ?case using Commit_coherent [OF engine_run_inv [OF run_commit(1)], of P ctx c w] by simp
qed simp_all

section \<open>A concrete run\<close>

text \<open>The simulator after its greeting is a run of the engine; it waits for a reply.\<close>

definition demo :: "Engine \<times> sim" where
  "demo = snd (snd (projr (sim_return False)))"

lemma sim_advance_env: "sim_advance d w = Inr w' \<Longrightarrow> sim_env w w'"
  by (auto simp: sim_advance_def sim_env_def split: advance_result.splits)

lemma sim_advance_run:
  "engine_run sim_ports sim_env cfg w0 e w \<Longrightarrow> sim_advance d w = Inr w' \<Longrightarrow>
     engine_run sim_ports sim_env cfg w0 e w'"
  using run_env [of sim_ports sim_env cfg w0 e w w'] sim_advance_env by blast

lemma sim_process_run:
  "engine_run sim_ports env cfg w0 e w \<Longrightarrow> sim_process x e w = Inr (r, e', w') \<Longrightarrow>
     engine_run sim_ports env cfg w0 e' w'"
  by (auto simp: sim_process_def intro: run_process split: option.splits prod.splits)

lemma bind_result_Inr: "bind_result m f = Inr y \<longleftrightarrow> (\<exists>x. m = Inr x \<and> f x = Inr y)"
  by (cases m) (simp_all add: bind_result_def)

lemma sim_before_return_run:
  "sim_before_return b = Inr (n, e, w) \<Longrightarrow> engine_run sim_ports sim_env defaultConfig sim_start e w"
proof -
  let ?run = "engine_run sim_ports sim_env defaultConfig sim_start"
  assume ret: "sim_before_return b = Inr (n, e, w)"
  then obtain e0 r1 e1 w1 where new: "Engine_New defaultConfig True = Inr e0"
    and left: "sim_process (presence ''obs-left'' 1 startedAt False) e0 sim_start = Inr (r1, e1, w1)"
    by (auto simp: sim_before_return_def bind_result_Inr)
  from new have "?run e0 sim_start" by (rule run_new)
  then have run1: "?run e1 w1" using left by (rule sim_process_run)
  show ?thesis
  proof (cases b)
    case True
    with ret new left obtain w2 r2 w3 where "sim_advance (44 * Minute) w1 = Inr w2"
        "sim_process (busyOnCall ''obs-call'' 2 (sim_now w2)) e1 w2 = Inr (r2, e, w3)"
        "sim_advance Minute w3 = Inr w"
      by (auto simp: sim_before_return_def bind_result_Inr)
    then show ?thesis
      using sim_advance_run [OF sim_process_run [OF sim_advance_run [OF run1]]] by blast
  next
    case False
    with ret new left have "sim_advance (45 * Minute) w1 = Inr w" "e = e1"
      by (auto simp: sim_before_return_def bind_result_Inr)
    then show ?thesis using sim_advance_run [OF run1] by simp
  qed
qed

lemma sim_return_run:
  "sim_return b = Inr (r, n, e, w) \<Longrightarrow> engine_run sim_ports sim_env defaultConfig sim_start e w"
proof -
  assume "sim_return b = Inr (r, n, e, w)"
  then obtain e3 w5 where before: "sim_before_return b = Inr (n, e3, w5)"
    and "sim_process (presence ''obs-return'' n (sim_now w5) True) e3 w5 = Inr (r, e, w)"
    by (auto simp: sim_return_def bind_result_Inr)
  then show ?thesis using sim_process_run [OF sim_before_return_run [OF before]] by simp
qed

lemma demo_eval:
  "(case sim_return False of Inl err \<Rightarrow> None
    | Inr (r, n, e, w) \<Rightarrow> Some (NextWakeup e, CurrentReplyAcceptanceWindow e, sim_now w,
        map ep_ID (active_list (eng_episodes e)),
        fst (ingress_accept (eng_ingress e)
               (userReply ''obs-reply'' 3 (startedAt + 45 * Minute + 4 * Second))
               (startedAt + 45 * Minute + 4 * Second)))) =
   Some (Some \<lparr>wk_Token = ''wakeup:episode:interaction:evt:obs-return:PERSON_RETURNED:user.reply'',
               wk_Deadline = startedAt + 45 * Minute + 8 * Second\<rparr>,
         Some \<lparr>raw_SubjectID = ''user-1'', raw_OpenedAt = startedAt + 45 * Minute,
               raw_Deadline = startedAt + 45 * Minute + 8 * Second\<rparr>,
         startedAt + 45 * Minute, [''episode:interaction:evt:obs-return:PERSON_RETURNED''], None)"
  by code_simp

lemma demo_facts:
  "engine_run sim_ports sim_env defaultConfig sim_start (fst demo) (snd demo)"
  "NextWakeup (fst demo) =
     Some \<lparr>wk_Token = ''wakeup:episode:interaction:evt:obs-return:PERSON_RETURNED:user.reply'',
           wk_Deadline = startedAt + 45 * Minute + 8 * Second\<rparr>"
  "CurrentReplyAcceptanceWindow (fst demo) =
     Some \<lparr>raw_SubjectID = ''user-1'', raw_OpenedAt = startedAt + 45 * Minute,
           raw_Deadline = startedAt + 45 * Minute + 8 * Second\<rparr>"
  "sim_now (snd demo) = startedAt + 45 * Minute"
  "map ep_ID (active_list (eng_episodes (fst demo))) =
     [''episode:interaction:evt:obs-return:PERSON_RETURNED'']"
  "fst (ingress_accept (eng_ingress (fst demo))
     (userReply ''obs-reply'' 3 (startedAt + 45 * Minute + 4 * Second))
     (startedAt + 45 * Minute + 4 * Second)) = None"
  using demo_eval sim_return_run
  by (auto simp: demo_def split: sum.splits prod.splits)

text \<open>The simulator on a call, just before its user returns.\<close>

definition demo_busy :: "Engine \<times> sim" where
  "demo_busy = snd (projr (sim_before_return True))"

abbreviation busy_return :: Observation where
  "busy_return \<equiv> presence ''obs-return'' 3 (startedAt + 45 * Minute) True"

lemma demo_busy_eval:
  "(case sim_before_return True of Inl err \<Rightarrow> None
    | Inr (n, e, w) \<Rightarrow>
        let evs = fst (Compiler_Compile (eng_compiler e) busy_return)
        in Some (sim_now w, fst (ingress_accept (eng_ingress e) busy_return (startedAt + 45 * Minute)),
             map evt_Kind evs,
             map (\<lambda>ev. suppressed (prj_snapshot (snd (Projector_Apply (eng_projector e) ev)))
                         (obs_OccurredAt busy_return)) evs)) =
   Some (startedAt + 45 * Minute, None, [PersonReturned], [True])"
  by code_simp

lemma demo_busy_facts:
  "engine_run sim_ports sim_env defaultConfig sim_start (fst demo_busy) (snd demo_busy)"
  "sim_now (snd demo_busy) = startedAt + 45 * Minute"
  "fst (ingress_accept (eng_ingress (fst demo_busy)) busy_return (startedAt + 45 * Minute)) = None"
  "\<exists>ev. fst (Compiler_Compile (eng_compiler (fst demo_busy)) busy_return) = [ev] \<and>
     evt_Kind ev = PersonReturned \<and>
     suppressed (prj_snapshot (snd (Projector_Apply (eng_projector (fst demo_busy)) ev)))
       (obs_OccurredAt busy_return)"
  using demo_busy_eval sim_before_return_run
  by (auto simp: demo_busy_def Let_def split: sum.splits prod.splits)

section \<open>Properties: the state of a run\<close>

text \<open>C1. In every state a run reaches, whatever the ports did, the invariant holds, the
  configuration is the one given, and the three views of a pending reply are one: a wakeup is
  scheduled exactly when a reply window is published and exactly when the tracker waits; then
  both have the deadline of the tracker's window, the published subject is the configured one,
  and the window has positive length.\<close>

theorem run_invariant:
  assumes "engine_run P env cfg w0 e w"
  shows "engine_inv e \<and> eng_config e = cfg \<and>
    (case (NextWakeup e, CurrentReplyAcceptanceWindow e, tracker_abs (eng_episodes e)) of
       (Some wk, Some rw, Waiting ep win) \<Rightarrow>
         wk = \<lparr>wk_Token = win_Token win, wk_Deadline = win_Deadline win\<rparr> \<and>
         rw = \<lparr>raw_SubjectID = cfg_SubjectID cfg, raw_OpenedAt = win_OpenedAt win,
               raw_Deadline = win_Deadline win\<rparr> \<and>
         ep_StartedAt ep \<le> win_OpenedAt win \<and> win_OpenedAt win < win_Deadline win
     | (None, None, Waiting ep win) \<Rightarrow> False
     | (None, None, _) \<Rightarrow> True
     | _ \<Rightarrow> False)"
proof -
  have inv: "engine_inv e" and cfg: "eng_config e = cfg"
    using assms by (rule engine_run_inv, rule engine_run_config)
  show ?thesis
  proof (cases "eng_pendingReply e")
    case None
    then have "eng_replyWindow e = None" "trk_responseWindow (eng_episodes e) = None"
      using inv by (simp_all add: engine_inv_def reply_sync_def)
    with None inv cfg show ?thesis
      by (cases "trk_active (eng_episodes e)")
        (simp_all add: NextWakeup_def CurrentReplyAcceptanceWindow_def tracker_abs_def)
  next
    case (Some p)
    with inv obtain ep win where "trk_active (eng_episodes e) = Some ep"
      "trk_responseWindow (eng_episodes e) = Some win" "ep_SubjectID ep = cfg_SubjectID (eng_config e)"
      "pen_wakeup p = \<lparr>wk_Token = win_Token win, wk_Deadline = win_Deadline win\<rparr>"
      "eng_replyWindow e = Some \<lparr>raw_SubjectID = ep_SubjectID ep, raw_OpenedAt = win_OpenedAt win,
         raw_Deadline = win_Deadline win\<rparr>" "tracker_ok (eng_episodes e)"
      by (rule pendingE)
    with Some inv cfg show ?thesis
      by (simp add: NextWakeup_def CurrentReplyAcceptanceWindow_def tracker_abs_def tracker_ok_def)
  qed
qed

theorem run_invariant_witness: "engine_inv (fst demo) \<and> eng_config (fst demo) = defaultConfig"
  using run_invariant [OF demo_facts(1)] by blast

text \<open>C2. No response always closes the interaction: consuming the scheduled wakeup at or after
  its deadline gives exactly one outcome, no response at the deadline for the active episode,
  leaves no wakeup, no published window and no active episode, and starts the no-response
  cooldown at the deadline (unless a later one runs), whatever the embodiment and the audit
  store answer. The call fails only if dispatching the continuation fails.\<close>

theorem wakeup_closes:
  assumes run: "engine_run P env cfg w0 e w" and wk: "NextWakeup e = Some wk"
    and due: "wk_Deadline wk \<noteq> 0" "wk_Deadline wk \<le> fst (port_Now P w)"
  shows "let ((res, err), e', w') = AdvanceAt P e None wk w;
             s = prj_snapshot (eng_projector e); s' = Engine_Snapshot e' in
    map out_Kind (res_Outcomes res) = [NoResponse] \<and>
    map out_OccurredAt (res_Outcomes res) = [wk_Deadline wk] \<and>
    map out_EpisodeID (res_Outcomes res) = map ep_ID (active_list (eng_episodes e)) \<and>
    NextWakeup e' = None \<and> CurrentReplyAcceptanceWindow e' = None \<and>
    tracker_abs (eng_episodes e') = Idle \<and>
    (if snap_NoResponseCooldownStartedAt s \<noteq> 0 \<and> wk_Deadline wk < snap_NoResponseCooldownStartedAt s
     then s' = s
     else snap_NoResponseCooldownStartedAt s' = wk_Deadline wk \<and>
          snap_NoResponseCooldownUntil s' = wk_Deadline wk + cfg_NoResponseCooldown cfg)"
proof -
  note inv = engine_run_inv [OF run]
  obtain p where p: "eng_pendingReply e = Some p" "pen_wakeup p = wk"
    using wk by (auto simp: NextWakeup_def)
  note nz = due(1) [folded p(2)]
  from inv p(1) obtain ep where ep: "trk_active (eng_episodes e) = Some ep" "pen_subjectID p = ep_SubjectID ep"
      "ep_SubjectID ep = cfg_SubjectID (eng_config e)"
    by (rule pendingE)
  have "0 < cfg_NoResponseCooldown (eng_config e)"
    and subj: "evt_SubjectID (expired_event p) = snap_SubjectID (prj_snapshot (eng_projector e))"
    using inv ep by (simp_all add: engine_inv_def parts_ok_def Config_Validate_def split: if_splits)
  note cd = ApplyNoResponse_started [OF expired_event_valid(1) [OF inv p(1) nz] this]
  show ?thesis
    using AdvanceAt_due(1,2) [OF inv p(1) nz due(2) [folded p(2)]] ep cd p(2)
    unfolding engine_run_config [OF run, symmetric]
    by (simp add: Let_def case_prod_beta expired_engine_def closed_engine_def NextWakeup_def
        CurrentReplyAcceptanceWindow_def Engine_Snapshot_def Projector_Snapshot_def tracker_abs_def
        expired_outcome_def active_list_def)
qed

definition demo_late :: sim where
  "demo_late = (snd demo)\<lparr>sim_clock := NewFake (startedAt + 46 * Minute)\<rparr>"

lemma demo_late_run: "engine_run sim_ports sim_env defaultConfig sim_start (fst demo) demo_late"
  by (rule run_env [OF demo_facts(1)]) (simp add: demo_late_def sim_env_def)

theorem wakeup_closes_witness:
  "\<exists>wk res err e' w'. NextWakeup (fst demo) = Some wk \<and>
     AdvanceAt sim_ports (fst demo) None wk demo_late = ((res, err), e', w') \<and>
     map out_Kind (res_Outcomes res) = [NoResponse] \<and> NextWakeup e' = None"
  using wakeup_closes [OF demo_late_run demo_facts(2)]
  by (cases "AdvanceAt sim_ports (fst demo) None (the (NextWakeup (fst demo))) demo_late")
    (auto simp: demo_facts(2) demo_late_def NewFake_def startedAt_def Minute_def Second_def
      Millisecond_def Let_def)

text \<open>A wakeup has no effect before its deadline, when it is not the scheduled one, or when
  its context is done: the engine is unchanged and the result is empty.\<close>

theorem wakeup_idle:
  assumes run: "engine_run P env cfg w0 e w"
    and "ctxErr \<noteq> None \<or> NextWakeup e \<noteq> Some wk \<or> fst (port_Now P w) < wk_Deadline wk"
  shows "fst (snd (AdvanceAt P e ctxErr wk w)) = e \<and> fst (fst (AdvanceAt P e ctxErr wk w)) = zero_Result"
  using assms(2) by (intro conjI AdvanceAt_idle [OF engine_run_inv [OF run]]) (auto simp: NextWakeup_def)

theorem wakeup_idle_witness:
  "fst (snd (AdvanceAt sim_ports (fst demo) None
      \<lparr>wk_Token = ''wakeup:other'', wk_Deadline = 5\<rparr> (snd demo))) = fst demo"
  using wakeup_idle [OF demo_facts(1), of None "\<lparr>wk_Token = ''wakeup:other'', wk_Deadline = 5\<rparr>"]
  by (simp add: demo_facts(2))

end
