(* ===== verification/Engine_Replies.thy ===== *)
theory Engine_Replies
  imports Engine_Props
begin

text \<open>
  The properties of a run that concern observations: replies, suppressed and refused
  observations, the admission discipline, and explicit rejections.
\<close>

section \<open>Lemmas\<close>

lemma acceptUserReply_outcomes:
  assumes inv: "engine_inv e" and fresh: "evt_ID ev \<notin> trk_processedFeedbackEvents (eng_episodes e)"
    and ev: "ValidateUserReply ev = None" "evt_SubjectID ev = cfg_SubjectID (eng_config e)"
  shows "res_Outcomes (fst (snd (acceptUserReply P e r ev w))) = res_Outcomes r @
    (if reply_in_window e (evt_OccurredAt ev)
     then [make_outcome Accepted ReasonUserReplied (the (trk_active (eng_episodes e))) ev] else [])"
proof (cases "eng_pendingReply e")
  case None
  with inv show ?thesis
    by (simp add: acceptUserReply_def reply_in_window_def engine_inv_def reply_sync_def)
next
  case (Some p)
  with inv obtain ep win where ep: "trk_active (eng_episodes e) = Some ep"
    "trk_responseWindow (eng_episodes e) = Some win" "pen_episodeID p = ep_ID ep"
    "pen_subjectID p = ep_SubjectID ep" "ep_SubjectID ep = cfg_SubjectID (eng_config e)"
    "eng_replyWindow e = Some \<lparr>raw_SubjectID = ep_SubjectID ep, raw_OpenedAt = win_OpenedAt win,
       raw_Deadline = win_Deadline win\<rparr>" and ok: "tracker_ok (eng_episodes e)"
    by (rule pendingE)
  have subj: "ep_SubjectID ep = evt_SubjectID ev" using ep ev by simp
  show ?thesis
    using Some ep ev subj
    by (simp add: acceptUserReply_def Tracker_Accept_cases [OF ok ep(1,2) ev(1) refl subj fresh]
        reply_in_window_def Let_def case_prod_beta split: option.splits)
qed

text \<open>A valid observation that the ingress accepts reaches the compiler.\<close>

definition admissible :: "'w ports \<Rightarrow> Engine \<Rightarrow> Observation \<Rightarrow> 'w \<Rightarrow> bool" where
  "admissible P e x w =
     (obs_SubjectID x = cfg_SubjectID (eng_config e) \<and>
      fst (ingress_accept (eng_ingress e) x (fst (port_Now P w))) = None)"

lemma admissible_Process:
  assumes "admissible P e x w"
  shows "Engine_Process P e None x w =
    process_events P (admitted e x) (zero_Result\<lparr>res_Events := fst (Compiler_Compile (eng_compiler e) x)\<rparr>)
      (fst (Compiler_Compile (eng_compiler e) x)) (fst (port_Now P w)) (snd (port_Now P w))"
proof -
  obtain i' where i: "ingress_accept (eng_ingress e) x (fst (port_Now P w)) = (None, i')"
    using assms by (cases "ingress_accept (eng_ingress e) x (fst (port_Now P w))") (simp add: admissible_def)
  from ingress_accept_None [OF i] assms i show ?thesis
    by (simp add: admissible_def Engine_Process_def Let_def case_prod_beta admitted_def)
qed

lemma admissible_valid:
  assumes "admissible P e x w"
  shows "Observation_ValidateAt x (fst (port_Now P w)) = None" "obs_ID x \<notin> seen e"
proof -
  obtain i' where i: "ingress_accept (eng_ingress e) x (fst (port_Now P w)) = (None, i')"
    using assms by (cases "ingress_accept (eng_ingress e) x (fst (port_Now P w))") (simp add: admissible_def)
  from ingress_accept_None [OF i] show "Observation_ValidateAt x (fst (port_Now P w)) = None"
    "obs_ID x \<notin> seen e" by (simp_all add: seen_def)
qed

lemma Compile_reply:
  "the_payload x = Some Reply \<Longrightarrow> fst (Compiler_Compile c x) = [newEvent x UserReplied]"
  by (simp add: Compile_step step_timeline_def)

lemma process_events_single:
  "process_events P e r [ev] now w = process_event P e r ev now w"
  by (cases "snd (fst (process_event P e r ev now w))") (auto simp: case_prod_beta prod_eq_iff)

lemma event_of_newEvent: "event_of (newEvent x k) x"
  by (simp add: event_of_def)

section \<open>Properties\<close>

text \<open>How an admissible reply is decided.\<close>

lemma reply_decided:
  assumes run: "engine_run P env cfg w0 e w" and adm: "admissible P e x w"
    and reply: "the_payload x = Some Reply"
  shows "let ((res, err), e', w') = Engine_Process P e None x w in
    if (case CurrentReplyAcceptanceWindow e of None \<Rightarrow> False
        | Some rw \<Rightarrow> raw_OpenedAt rw \<le> obs_OccurredAt x \<and> obs_OccurredAt x < raw_Deadline rw)
    then map out_Kind (res_Outcomes res) = [Accepted] \<and>
         map out_OccurredAt (res_Outcomes res) = [obs_OccurredAt x] \<and>
         map out_EpisodeID (res_Outcomes res) = map ep_ID (active_list (eng_episodes e)) \<and>
         NextWakeup e' = None \<and> CurrentReplyAcceptanceWindow e' = None \<and>
         tracker_abs (eng_episodes e') = Idle
    else res_Outcomes res = [] \<and> NextWakeup e' = NextWakeup e \<and>
         CurrentReplyAcceptanceWindow e' = CurrentReplyAcceptanceWindow e \<and>
         tracker_abs (eng_episodes e') = tracker_abs (eng_episodes e)"
proof -
  let ?ev = "newEvent x UserReplied" and ?e = "admitted e x"
  have inv: "engine_inv ?e" and fresh: "obs_fresh ?e (obs_ID x)"
    using admitted_inv [OF engine_run_inv [OF run] admissible_valid(2) [OF adm]] by simp_all
  have v: "ValidateUserReply ?ev = None" "evt_SubjectID ?ev = cfg_SubjectID (eng_config ?e)"
    using admissible_valid(1) [OF adm] adm by (auto simp: validate_simps admissible_def)
  have new: "evt_ID ?ev \<notin> trk_processedFeedbackEvents (eng_episodes ?e)"
    using fresh by (simp add: obs_fresh_def reply_id_def)
  have active: "\<exists>ep. trk_active (eng_episodes e) = Some ep" if "eng_replyWindow e \<noteq> None"
    using that engine_run_inv [OF run]
    by (auto simp: engine_inv_def reply_sync_def split: option.splits)
  have pend: "eng_pendingReply e = None \<longleftrightarrow> eng_replyWindow e = None"
    using engine_run_inv [OF run] by (auto simp: engine_inv_def reply_sync_def split: option.splits)
  show ?thesis
    using active pend
    by (auto simp: admissible_Process [OF adm] Compile_reply [OF reply] process_events_single
        process_event_reply Let_def case_prod_beta acceptUserReply_engine [OF inv new v]
        acceptUserReply_outcomes [OF inv new v] reply_in_window_def CurrentReplyAcceptanceWindow_def
        NextWakeup_def closed_engine_def consume_reply_def tracker_abs_def active_list_def zero_Result_def
        split: option.splits)
qed

text \<open>C5. A reply is accepted exactly inside the published window: an admissible reply whose
  instant lies in the half-open window ends the interaction with one outcome, accepted at
  that instant for the active episode, and removes wakeup and window; any other reply gives no
  outcome and leaves both as they were.\<close>

theorem reply_in_window_accepted:
  assumes run: "engine_run P env cfg w0 e w" and adm: "admissible P e x w"
    and reply: "the_payload x = Some Reply"
  shows "let ((res, err), e', w') = Engine_Process P e None x w in
    if (case CurrentReplyAcceptanceWindow e of None \<Rightarrow> False
        | Some rw \<Rightarrow> raw_OpenedAt rw \<le> obs_OccurredAt x \<and> obs_OccurredAt x < raw_Deadline rw)
    then map out_Kind (res_Outcomes res) = [Accepted] \<and>
         map out_OccurredAt (res_Outcomes res) = [obs_OccurredAt x] \<and>
         map out_EpisodeID (res_Outcomes res) = map ep_ID (active_list (eng_episodes e)) \<and>
         NextWakeup e' = None \<and> CurrentReplyAcceptanceWindow e' = None \<and>
         tracker_abs (eng_episodes e') = Idle
    else res_Outcomes res = [] \<and> NextWakeup e' = NextWakeup e \<and>
         CurrentReplyAcceptanceWindow e' = CurrentReplyAcceptanceWindow e \<and>
         tracker_abs (eng_episodes e') = tracker_abs (eng_episodes e)"
  using run adm reply by (rule reply_decided)

definition demo_replying :: sim where
  "demo_replying = (snd demo)\<lparr>sim_clock := NewFake (startedAt + 45 * Minute + 4 * Second)\<rparr>"

lemma demo_replying_run: "engine_run sim_ports sim_env defaultConfig sim_start (fst demo) demo_replying"
  by (rule run_env [OF demo_facts(1)]) (simp add: demo_replying_def sim_env_def)

theorem reply_in_window_accepted_witness:
  "\<exists>res err e' w'.
     Engine_Process sim_ports (fst demo) None
       (userReply ''obs-reply'' 3 (startedAt + 45 * Minute + 4 * Second)) demo_replying = ((res, err), e', w') \<and>
     map out_Kind (res_Outcomes res) = [Accepted] \<and> NextWakeup e' = None"
proof -
  let ?x = "userReply ''obs-reply'' 3 (startedAt + 45 * Minute + 4 * Second)"
  have "admissible sim_ports (fst demo) ?x demo_replying"
    using demo_facts(6) engine_run_config [OF demo_facts(1)]
    by (simp add: admissible_def demo_replying_def NewFake_def userReply_def blank_observation_def
        defaultConfig_def)
  moreover have "the_payload ?x = Some Reply"
    by (simp add: userReply_def blank_observation_def the_payload_def)
  ultimately show ?thesis
    using reply_in_window_accepted [OF demo_replying_run, of ?x]
    by (cases "Engine_Process sim_ports (fst demo) None ?x demo_replying")
      (auto simp: demo_facts(3) userReply_def blank_observation_def Second_def Millisecond_def)
qed

text \<open>Suppression is complete: when a hard guard holds at the instant of a return (quiet
  mode, a busy user, or a cooldown), processing it succeeds with one silent decision, no plan,
  no action and no outcome, starts no episode, and calls nothing but the clock and the audit
  store (so the embodiment is not even asked for its capabilities).\<close>

theorem suppressed_is_silent:
  assumes run: "engine_run P env cfg w0 e w" and adm: "admissible P e x w"
    and ret: "fst (Compiler_Compile (eng_compiler e) x) = [ev]" "evt_Kind ev = PersonReturned"
    and sup: "suppressed (prj_snapshot (snd (Projector_Apply (eng_projector e) ev))) (obs_OccurredAt x)"
  shows "let ((res, err), e', w') = Engine_Process P e None x w in
    err = None \<and> map dec_Kind (res_Decisions res) = [Silent] \<and> res_Plans res = [] \<and>
    res_ActionStatuses res = [] \<and> res_Outcomes res = [] \<and>
    eng_episodes e' = eng_episodes e \<and> NextWakeup e' = NextWakeup e \<and>
    w' = snd (port_RecordDecision P (hd (res_Decisions res)) (snd (port_RecordEvent P ev (snd (port_Now P w)))))"
proof -
  from Compile_event [of "eng_compiler e" x] ret(1) have ev: "event_of ev x" by simp
  have ids: "evt_ID ev \<noteq> []" "evt_TraceID ev \<noteq> []"
    using ev admissible_valid(1) [OF adm] by (auto simp: event_of_def validate_simps)
  have sil: "dec_Kind (decide_on (admitted e x) ev) = Silent"
    using sup ev by (simp add: decide_on_sel event_of_def)
  show ?thesis
    using ret(2) sil ids
    by (simp add: admissible_Process [OF adm] ret(1) process_events_single process_event_other
        Let_def case_prod_beta NextWakeup_def zero_Result_def)
qed

theorem suppressed_is_silent_witness:
  "\<exists>res err e' w'.
     Engine_Process sim_ports (fst demo_busy) None busy_return (snd demo_busy) = ((res, err), e', w') \<and>
     err = None \<and> map dec_Kind (res_Decisions res) = [Silent] \<and> res_ActionStatuses res = []"
proof -
  have "admissible sim_ports (fst demo_busy) busy_return (snd demo_busy)"
    using demo_busy_facts(2,3) engine_run_config [OF demo_busy_facts(1)]
    by (simp add: admissible_def sim_now_def Fake_Now_def)
      (simp add: presence_def blank_observation_def defaultConfig_def)
  moreover obtain ev where
    "fst (Compiler_Compile (eng_compiler (fst demo_busy)) busy_return) = [ev]"
    "evt_Kind ev = PersonReturned"
    "suppressed (prj_snapshot (snd (Projector_Apply (eng_projector (fst demo_busy)) ev)))
       (obs_OccurredAt busy_return)"
    using demo_busy_facts(4) by blast
  ultimately show ?thesis
    using suppressed_is_silent [OF demo_busy_facts(1), of busy_return ev]
    by (cases "Engine_Process sim_ports (fst demo_busy) None busy_return (snd demo_busy)") auto
qed

lemma ingress_run_spec:
  "distinct (map obs_ID (ingress_run i xs)) \<and>
   (\<forall>x \<in> set (ingress_run i xs). obs_ID x \<notin> ing_seenIDs i \<and>
      (\<forall>n. ing_lastSeq i (obs_SourceID x) = Some n \<longrightarrow> n < obs_SourceSeq x)) \<and>
   (\<forall>s. sorted_wrt (<) (map obs_SourceSeq (filter (\<lambda>x. obs_SourceID x = s) (ingress_run i xs))))"
proof (induction xs arbitrary: i)
  case Nil
  then show ?case by simp
next
  case (Cons a xs)
  obtain x now where a: "a = (x, now)" by (cases a)
  obtain res i' where acc: "ingress_accept i x now = (res, i')" by fastforce
  show ?case
  proof (cases res)
    case (Some err)
    then have "i' = i" using acc ingress_accept_error by blast
    with Cons.IH [of i] show ?thesis by (simp add: a acc Some)
  next
    case None
    note ok = ingress_accept_None [OF acc [unfolded None]]
    have step: "x' \<in> set (ingress_run i' xs) \<Longrightarrow> obs_ID x' \<noteq> obs_ID x \<and> obs_ID x' \<notin> ing_seenIDs i \<and>
        (obs_SourceID x' = obs_SourceID x \<longrightarrow> obs_SourceSeq x < obs_SourceSeq x') \<and>
        (\<forall>n. ing_lastSeq i (obs_SourceID x') = Some n \<longrightarrow> n < obs_SourceSeq x')" for x'
      using Cons.IH [of i'] ok by (cases "obs_SourceID x' = obs_SourceID x") (fastforce, auto)
    have run: "ingress_run i (a # xs) = x # ingress_run i' xs" by (simp add: a acc None)
    have "distinct (map obs_ID (x # ingress_run i' xs))"
      using Cons.IH [of i'] step by fastforce
    moreover have "\<forall>x' \<in> set (x # ingress_run i' xs). obs_ID x' \<notin> ing_seenIDs i \<and>
        (\<forall>n. ing_lastSeq i (obs_SourceID x') = Some n \<longrightarrow> n < obs_SourceSeq x')"
      using step conjunct1 [OF conjunct2 [OF ok]] conjunct1 [OF conjunct2 [OF conjunct2 [OF ok]]] by simp
    moreover have "\<forall>s. sorted_wrt (<) (map obs_SourceSeq (filter (\<lambda>x. obs_SourceID x = s) (x # ingress_run i' xs)))"
      using Cons.IH [of i'] step by auto
    ultimately show ?thesis unfolding run by blast
  qed
qed

text \<open>Exactly-once admission: of any sequence of attempts, the observations that a fresh
  ingress lets through have pairwise distinct identifiers, and the sequence numbers of each
  source are strictly increasing.\<close>

theorem ingress_exactly_once:
  "distinct (map obs_ID (ingress_run newIngress xs)) \<and>
   (\<forall>s. sorted_wrt (<) (map obs_SourceSeq (filter (\<lambda>x. obs_SourceID x = s) (ingress_run newIngress xs))))"
  using ingress_run_spec [of newIngress xs] by blast

end
