(* ===== verification/Engine_Feedback.thy ===== *)
theory Engine_Feedback
  imports Engine_Replies
begin

text \<open>
  The properties of a run that concern explicit rejections, refused observations, the audit
  trail of the simulator, and the greeting whose dispatch fails.
\<close>

section \<open>Explicit rejections\<close>

lemma ApplyUserRejection_suppressed:
  assumes "ValidateUserRejection x = None" "0 < d" "evt_SubjectID x = snap_SubjectID (prj_snapshot p)"
    and "snap_RejectionCooldownStartedAt (prj_snapshot p) \<le> evt_OccurredAt x"
    and "evt_OccurredAt x \<le> t" "t < evt_OccurredAt x + d"
  shows "suppressed (prj_snapshot (snd (ApplyUserRejection p x d))) t"
  using ApplyUserRejection_started [OF assms(1-3)] assms
  by (auto simp: suppressed_def in_cooldown_def Let_def validate_simps)

text \<open>C6. An explicit rejection always takes effect: a valid rejection of the engine's subject,
  seen for the first time, is committed without error whatever the audit store answers. It ends
  the active episode that had started by then, with its wakeup and window, and otherwise
  leaves them; it suppresses every opportunity of the cooldown that starts at its instant (when
  no rejection with a later instant came first); and committing it again changes nothing.\<close>

theorem rejection_committed:
  assumes run: "engine_run P env cfg w0 e w"
    and c: "Command_Validate c = None" "ctl_Reason c = ReasonUserRejected" "ctl_SubjectID c = cfg_SubjectID cfg"
    and new: "rejection_id (ctl_ID c) \<notin> trk_processedFeedbackEvents (eng_episodes e)"
  shows "let (err, e', w') = CommitUserRejection P e None c w in
    err = None \<and>
    (if (\<exists>ep. trk_active (eng_episodes e) = Some ep \<and> ep_StartedAt ep \<le> ctl_OccurredAt c)
     then tracker_abs (eng_episodes e') = Idle \<and> NextWakeup e' = None \<and>
          CurrentReplyAcceptanceWindow e' = None
     else tracker_abs (eng_episodes e') = tracker_abs (eng_episodes e) \<and> NextWakeup e' = NextWakeup e \<and>
          CurrentReplyAcceptanceWindow e' = CurrentReplyAcceptanceWindow e) \<and>
    (\<forall>t. snap_RejectionCooldownStartedAt (Engine_Snapshot e) \<le> ctl_OccurredAt c \<and>
         ctl_OccurredAt c \<le> t \<and> t < ctl_OccurredAt c + cfg_RejectionCooldown cfg \<longrightarrow>
         suppressed (Engine_Snapshot e') t) \<and>
    (\<forall>u. CommitUserRejection P e' None c u = (None, e', u))"
proof -
  note inv = engine_run_inv [OF run] and cfg = engine_run_config [OF run]
  have acc: "rejection_accepted e None c" using c cfg by (simp add: rejection_accepted_def)
  have cd: "0 < cfg_RejectionCooldown cfg"
    and subj: "evt_SubjectID (rejection_event c) = snap_SubjectID (prj_snapshot (eng_projector e))"
    using inv c cfg by (simp_all add: engine_inv_def parts_ok_def Config_Validate_def split: if_splits)
  have again: "CommitUserRejection P (rejected_engine e c) None c u = (None, rejected_engine e c, u)" for u
  proof (rule Commit_duplicate)
    show "rejection_accepted (rejected_engine e c) None c"
      using acc by (simp add: rejection_accepted_def rejected_engine_def consume_reply_def
          closed_engine_def Let_def)
    show "rejection_id (ctl_ID c) \<in> trk_processedFeedbackEvents (eng_episodes (rejected_engine e c))"
      by (simp add: rejected_engine_def consume_reply_def closed_engine_def Let_def)
  qed
  have ends: "rejection_ends e c \<longleftrightarrow>
      (\<exists>ep. trk_active (eng_episodes e) = Some ep \<and> ep_StartedAt ep \<le> ctl_OccurredAt c)"
    by (auto simp: rejection_ends_def split: option.splits)
  have sup: "suppressed (Engine_Snapshot (rejected_engine e c)) t"
    if "snap_RejectionCooldownStartedAt (Engine_Snapshot e) \<le> ctl_OccurredAt c" "ctl_OccurredAt c \<le> t"
      "t < ctl_OccurredAt c + cfg_RejectionCooldown cfg" for t
    using ApplyUserRejection_suppressed [OF rejection_event_valid(1) [OF c(1,2)] cd subj, of t] that cfg
    by (simp add: Engine_Snapshot_def Projector_Snapshot_def rejected_engine_def consume_reply_def
        closed_engine_def Let_def)
  show ?thesis
    unfolding Commit_applied [OF inv acc new] ends [symmetric]
    using again sup
    by (auto simp: rejected_engine_def consume_reply_def closed_engine_def tracker_abs_def NextWakeup_def
        CurrentReplyAcceptanceWindow_def Let_def)
qed

definition demo_rejection :: Command where
  "demo_rejection =
     \<lparr>ctl_ID = ''control-reject'', ctl_Kind = StopAll, ctl_Reason = ReasonUserRejected,
      ctl_SubjectID = ''user-1'', ctl_OccurredAt = startedAt + 45 * Minute, ctl_TraceID = ''trace''\<rparr>"

lemma demo_start:
  obtains e where "Engine_New defaultConfig True = Inr e"
    "engine_run sim_ports sim_env defaultConfig sim_start e sim_start"
    "trk_processedFeedbackEvents (eng_episodes e) = {}" "seen e = {}" "eng_config e = defaultConfig"
proof -
  have v: "Config_Validate defaultConfig = None"
    by (simp add: Config_Validate_def defaultConfig_def Minute_def Second_def Millisecond_def)
  show thesis
    by (rule that, (simp add: Engine_New_def v), rule run_new)
      (simp_all add: Engine_New_def v NewTracker_def seen_def newIngress_def)
qed

theorem rejection_committed_witness:
  "\<exists>e err e' w'. Engine_New defaultConfig True = Inr e \<and>
     CommitUserRejection sim_ports e None demo_rejection sim_start = (err, e', w') \<and> err = None \<and>
     CommitUserRejection sim_ports e' None demo_rejection w' = (None, e', w')"
proof -
  obtain e where e: "Engine_New defaultConfig True = Inr e"
    "engine_run sim_ports sim_env defaultConfig sim_start e sim_start"
    "trk_processedFeedbackEvents (eng_episodes e) = {}" by (rule demo_start)
  have "Command_Validate demo_rejection = None"
    by (simp add: validate_simps demo_rejection_def startedAt_def Minute_def Second_def Millisecond_def)
  then show ?thesis
    using rejection_committed [OF e(2), of demo_rejection] e(1,3)
    by (cases "CommitUserRejection sim_ports e None demo_rejection sim_start")
      (auto simp: demo_rejection_def defaultConfig_def)
qed

section \<open>Refused observations\<close>

text \<open>A repeated or overtaken observation is refused as stale input and changes nothing: when
  its identifier was admitted before, or its source has already delivered its sequence number or
  a later one, \<^verbatim>\<open>Process\<close> returns an error of category stale input, through the context it
  wraps around it, with an empty result and the engine as it was.\<close>

theorem stale_observation_refused:
  assumes "obs_SubjectID x = cfg_SubjectID (eng_config e)"
    and "Observation_ValidateAt x (fst (port_Now P w)) = None"
    and "obs_ID x \<in> ing_seenIDs (eng_ingress e) \<or>
         (\<exists>n. ing_lastSeq (eng_ingress e) (obs_SourceID x) = Some n \<and> obs_SourceSeq x \<le> n)"
  shows "\<exists>err. Engine_Process P e None x w = ((zero_Result, Some err), e, snd (port_Now P w)) \<and>
    IsCode err StaleInput"
  using assms
  by (auto simp: Engine_Process_def ingress_accept_def Let_def case_prod_beta)

theorem stale_observation_refused_witness:
  "\<exists>e err. eng_ingress e = \<lparr>ing_seenIDs = {''obs-left''}, ing_lastSeq = [''simulator'' \<mapsto> 1]\<rparr> \<and>
     Engine_Process sim_ports e None (presence ''obs-left'' 1 startedAt False) sim_start =
       ((zero_Result, Some err), e, sim_start) \<and> IsCode err StaleInput"
proof -
  obtain e0 :: Engine where e0: "eng_config e0 = defaultConfig" by (rule demo_start)
  let ?e = "e0\<lparr>eng_ingress := \<lparr>ing_seenIDs = {''obs-left''}, ing_lastSeq = [''simulator'' \<mapsto> 1]\<rparr>\<rparr>"
  let ?x = "presence ''obs-left'' 1 startedAt False"
  have "Observation_ValidateAt ?x startedAt = None"
    by code_simp
  then show ?thesis
    using stale_observation_refused [of ?x ?e sim_ports sim_start] e0
    by (intro exI [of _ ?e])
      (simp add: presence_def blank_observation_def defaultConfig_def sim_start_def NewFake_def)
qed

section \<open>The snapshot follows the reports\<close>

text \<open>Along every run, also across failed calls, the projected snapshot of the engine's
  subject agrees with the compiler's timeline: present, busy and quiet are exactly what was last
  reported. (So dropping an observation that repeats the known value never loses a change.)\<close>

theorem snapshot_follows_reports:
  assumes "engine_run P env cfg w0 e w"
  shows "let t = timeline_of (eng_compiler e) (cfg_SubjectID cfg); s = Engine_Snapshot e in
    snap_PersonPresent s = (tl_presenceKnown t \<and> tl_present t) \<and>
    snap_UserBusy s = (tl_busyKnown t \<and> tl_busy t) \<and>
    snap_QuietMode s = (tl_quietKnown t \<and> tl_quiet t)"
  using engine_run_coherent [OF assms] engine_run_config [OF assms]
  by (simp add: coherent_def agree_def Engine_Snapshot_def Projector_Snapshot_def Let_def)

theorem snapshot_follows_reports_witness:
  "snap_UserBusy (Engine_Snapshot (fst demo_busy)) =
     (let t = timeline_of (eng_compiler (fst demo_busy)) ''user-1'' in tl_busyKnown t \<and> tl_busy t)"
  using snapshot_follows_reports [OF demo_busy_facts(1)] by (simp add: defaultConfig_def Let_def)

section \<open>The audit trail of the simulator\<close>

text \<open>C11. Over the in-memory audit store and the fake embodiment, every recorded plan has exactly
  one recorded outcome: along every run from an empty store, the interactions of the recorded
  outcomes, followed by that of the episode still active, are the interactions of the recorded
  plans, in order and without repetition.\<close>

theorem one_outcome_per_plan:
  assumes "engine_run sim_ports sim_env cfg w0 e w" "sim_audit w0 = zero_AuditRecorder"
  shows "map plan_InteractionID (aud_plans (sim_audit w)) =
    map out_InteractionID (aud_outcomes (sim_audit w)) @ map ep_InteractionID (active_list (eng_episodes e))"
proof -
  have "sim_trail.trail_inv e w"
    by (rule sim_trail.run_trail [OF assms(1)])
      (use assms(2) in \<open>auto simp: zero_AuditRecorder_def sim_env_def sim_ports_def fake_StopAll_def Let_def\<close>)
  then show ?thesis by (simp add: sim_trail.trail_inv_def)
qed

theorem one_outcome_per_plan_witness:
  "map plan_InteractionID (aud_plans (sim_audit (snd demo))) =
    map out_InteractionID (aud_outcomes (sim_audit (snd demo))) @
    map ep_InteractionID (active_list (eng_episodes (fst demo)))"
  by (rule one_outcome_per_plan [OF demo_facts(1)]) (simp add: sim_start_def)

section \<open>A greeting whose dispatch fails\<close>

text \<open>C12. When an episode is active and no reply is awaited (which is how a greeting whose first
  phase fails leaves the engine), no observation and no wakeup ever brings the engine out of it:
  the episode stays active, and nothing is planned, dispatched or decided to an end. Only an
  explicit rejection can end the episode.\<close>

theorem failed_greeting_blocks:
  assumes run: "engine_run P env cfg w0 e w" and act: "trk_active (eng_episodes e) = Some ep"
    and wk: "NextWakeup e = None"
  shows "(let ((res, err), e', w') = Engine_Process P e ctx x u in
      trk_active (eng_episodes e') = Some ep \<and> NextWakeup e' = None \<and>
      res_Plans res = [] \<and> res_ActionStatuses res = [] \<and> res_Outcomes res = []) \<and>
    fst (snd (AdvanceAt P e ctx k u)) = e"
proof
  have pend: "eng_pendingReply e = None" using wk by (simp add: NextWakeup_def)
  note inv = engine_run_inv [OF run]
  show "fst (snd (AdvanceAt P e ctx k u)) = e"
    using pend by (intro AdvanceAt_idle [OF inv]) simp
  show "let ((res, err), e', w') = Engine_Process P e ctx x u in
      trk_active (eng_episodes e') = Some ep \<and> NextWakeup e' = None \<and>
      res_Plans res = [] \<and> res_ActionStatuses res = [] \<and> res_Outcomes res = []"
  proof (cases rule: Engine_Process_cases [of P e ctx x u])
    case refused
    with act wk show ?thesis by (simp add: case_prod_beta Let_def zero_Result_def)
  next
    case quiet
    with act wk show ?thesis by (simp add: NextWakeup_def zero_Result_def)
  next
    case (event ev)
    note fresh = conjunct2 [OF admitted_inv [OF inv event(4)]]
    have ids: "evt_ID ev \<noteq> []" "evt_TraceID ev \<noteq> []"
      using event(5,7) by (auto simp: event_of_def validate_simps)
    show ?thesis
    proof (cases "evt_Kind ev = UserReplied")
      case True
      with act pend event(1) show ?thesis
        by (simp add: process_event_reply acceptUserReply_def Let_def case_prod_beta NextWakeup_def
            zero_Result_def)
    next
      case False
      show ?thesis
      proof (cases "evt_Kind ev = PersonReturned")
        case True
        let ?d = "decide_on (admitted e x) ev"
        have "ep_ID ep \<noteq> ''episode:'' @ dec_InteractionID ?d"
          using fresh act event(7) True
          by (auto simp: obs_fresh_def decide_on_sel event_of_def episode_id_def trigger_id_def)
        then have other: "\<not> (trk_active (eng_episodes e) = None \<or>
            trk_active (eng_episodes e) = Some (new_episode ev ?d now))" for now
          using act by (auto simp: new_episode_def)
        have "fst (snd (greet P (projected (admitted e x) ev) r ev ?d now v)) = projected (admitted e x) ev \<and>
            fst (fst (greet P (projected (admitted e x) ev) r ev ?d now v)) = r" for r now v
          by (cases rule: greet_cases [of P "projected (admitted e x) ev" r ev ?d now v])
            (use other in \<open>simp_all\<close>)
        with act pend event(1) True False ids show ?thesis
          by (simp add: process_event_other Let_def case_prod_beta NextWakeup_def zero_Result_def)
      next
        case other: False
        with act pend event(1) False ids show ?thesis
          by (simp add: process_event_other Let_def case_prod_beta NextWakeup_def zero_Result_def)
      qed
    qed
  qed
qed

text \<open>The simulator's environment with an embodiment that refuses every command, after a return.\<close>

definition broken_ports :: "sim ports" where
  "broken_ports = sim_ports\<lparr>port_Execute := (\<lambda>c w. (ExecError (Leaf ''down''), w))\<rparr>"

definition broken_process :: "Observation \<Rightarrow> Engine \<Rightarrow> sim \<Rightarrow> Engine \<times> sim" where
  "broken_process x e w = snd (Engine_Process broken_ports e None x w)"

definition demo_broken :: "Engine \<times> sim" where
  "demo_broken =
     (let (e1, w1) = broken_process (presence ''obs-left'' 1 startedAt False)
                       (projr (Engine_New defaultConfig True)) sim_start
      in broken_process (presence ''obs-return'' 2 (startedAt + 45 * Minute) True) e1
           (w1\<lparr>sim_clock := NewFake (startedAt + 45 * Minute)\<rparr>))"

lemma broken_process_run:
  "engine_run broken_ports env cfg w0 e w \<Longrightarrow> broken_process x e w = (e', w') \<Longrightarrow>
     engine_run broken_ports env cfg w0 e' w'"
  by (cases "Engine_Process broken_ports e None x w") (auto simp: broken_process_def intro: run_process)

lemma demo_broken_run:
  "engine_run broken_ports sim_env defaultConfig sim_start (fst demo_broken) (snd demo_broken)"
proof -
  obtain e where e: "Engine_New defaultConfig True = Inr e" by (rule demo_start)
  obtain e1 w1 where b1: "broken_process (presence ''obs-left'' 1 startedAt False) e sim_start = (e1, w1)"
    by fastforce
  have "engine_run broken_ports sim_env defaultConfig sim_start e1
      (w1\<lparr>sim_clock := NewFake (startedAt + 45 * Minute)\<rparr>)"
    by (rule run_env [OF broken_process_run [OF run_new [OF e] b1]]) (simp add: sim_env_def)
  then show ?thesis
    by (auto simp: demo_broken_def e b1 intro: broken_process_run)
qed

lemma demo_broken_eval:
  "map ep_ID (active_list (eng_episodes (fst demo_broken))) =
     [''episode:interaction:evt:obs-return:PERSON_RETURNED''] \<and> NextWakeup (fst demo_broken) = None"
  by code_simp

theorem failed_greeting_blocks_witness:
  "\<exists>ep. trk_active (eng_episodes (fst demo_broken)) = Some ep \<and>
     (\<forall>ctx x u. trk_active (eng_episodes (fst (snd
         (Engine_Process broken_ports (fst demo_broken) ctx x u)))) = Some ep)"
proof -
  obtain ep where ep: "trk_active (eng_episodes (fst demo_broken)) = Some ep"
    using demo_broken_eval by (cases "trk_active (eng_episodes (fst demo_broken))") (auto simp: active_list_def)
  then show ?thesis
    using failed_greeting_blocks [OF demo_broken_run ep] demo_broken_eval
    by (auto simp: Let_def case_prod_beta)
qed

end
