(* ===== verification/Privacy.thy ===== *)
theory Privacy
  imports Fault
begin

text \<open>
  Package \<^verbatim>\<open>internal/application/privacy\<close> (\<^verbatim>\<open>types.go\<close>, \<^verbatim>\<open>service.go\<close>): the desired permission
  state, restored from a repository at start and changed one permission at a time, persisted
  before it becomes visible. The repository and the clock are ports over an environment \<open>'w\<close>;
  a context is nil, live, or done with an error.
\<close>

section \<open>Data\<close>

datatype Permission =
    CameraCapture | MicrophoneCapture | FaceDetection | FaceIdentification | FaceLiveness
  | SpeakerIdentification | SpeakerVerification | SpeechTranscription
  | OtherPermission string

definition permissionOrder :: "Permission list" where
  "permissionOrder =
     [CameraCapture, MicrophoneCapture, FaceDetection, FaceIdentification, FaceLiveness,
      SpeakerIdentification, SpeakerVerification, SpeechTranscription]"

definition AllPermissions :: "Permission list" where
  "AllPermissions = permissionOrder"

record Grant =
  gr_Permission :: Permission
  gr_Enabled :: bool
  gr_UpdatedAt :: time

record privacy_Snapshot =
  ps_Revision :: "64 word"
  ps_Grants :: "Grant list"

record ChangePermission =
  cp_Permission :: Permission
  cp_Enabled :: bool

datatype privacy_ctx = NilContext | Live | Done goerror

record 'w Repository =
  rep_Load :: "'w \<Rightarrow> (goerror + privacy_Snapshot) \<times> 'w"
  rep_Save :: "64 word \<Rightarrow> privacy_Snapshot \<Rightarrow> 'w \<Rightarrow> goerror option \<times> 'w"
  rep_Now :: "'w \<Rightarrow> time \<times> 'w"

record Service =
  srv_current :: privacy_Snapshot

section \<open>Operations\<close>

definition privacy_classify :: "string \<Rightarrow> goerror \<Rightarrow> goerror" where
  "privacy_classify op err =
     (if ErrAsFault err then err
      else if ErrIs err ContextDeadlineExceeded then New_fault DeadlineExceeded op err
      else New_fault Unavailable op err)"

definition check_ctx :: "string \<Rightarrow> privacy_ctx \<Rightarrow> goerror option" where
  "check_ctx op ctx =
     (case ctx of
        NilContext \<Rightarrow> Some (New_fault InvalidInput op (Leaf ''context is required''))
      | Live \<Rightarrow> None
      | Done err \<Rightarrow> Some (privacy_classify op err))"

fun validPermission_in :: "Permission list \<Rightarrow> Permission \<Rightarrow> bool" where
  "validPermission_in [] p = False"
| "validPermission_in (c # cs) p = (if c = p then True else validPermission_in cs p)"

definition validPermission :: "Permission \<Rightarrow> bool" where
  "validPermission p = validPermission_in permissionOrder p"

text \<open>The index, or -1.\<close>

fun grantIndex :: "Grant list \<Rightarrow> Permission \<Rightarrow> int" where
  "grantIndex [] p = -1"
| "grantIndex (g # gs) p =
     (if gr_Permission g = p then 0
      else let i = grantIndex gs p in if i < 0 then -1 else i + 1)"

fun collect_grants :: "Grant list \<Rightarrow> (Permission \<rightharpoonup> Grant) \<Rightarrow> goerror + (Permission \<rightharpoonup> Grant)" where
  "collect_grants [] m = Inr m"
| "collect_grants (g # gs) m =
     (if \<not> validPermission (gr_Permission g) then Inl (Leaf ''unknown permission %q'')
      else if m (gr_Permission g) \<noteq> None then Inl (Leaf ''permission %q is duplicated'')
      else if gr_Enabled g \<and> IsZero (gr_UpdatedAt g) then
        Inl (Leaf ''enabled permission %q has no update time'')
      else collect_grants gs (m(gr_Permission g \<mapsto> g)))"

definition canonicalize :: "privacy_Snapshot \<Rightarrow> goerror + privacy_Snapshot" where
  "canonicalize s =
     (if ps_Revision s = 0 \<and> list_ex (\<lambda>g. gr_Enabled g \<or> \<not> IsZero (gr_UpdatedAt g)) (ps_Grants s) then
        Inl (Leaf ''revision zero cannot contain changed grants'')
      else (case collect_grants (ps_Grants s) Map.empty of
          Inl err \<Rightarrow> Inl err
        | Inr byPermission \<Rightarrow>
            Inr \<lparr>ps_Revision = ps_Revision s,
                 ps_Grants = map (\<lambda>p. case byPermission p of Some g \<Rightarrow> g
                     | None \<Rightarrow> \<lparr>gr_Permission = p, gr_Enabled = False, gr_UpdatedAt = 0\<rparr>) permissionOrder\<rparr>))"

definition Service_New ::
    "'w Repository \<Rightarrow> bool \<Rightarrow> privacy_ctx \<Rightarrow> 'w \<Rightarrow> (goerror + Service) \<times> 'w" where
  "Service_New R depsPresent ctx w =
     (let op = ''create privacy permission service'' in
      if ctx = NilContext then (Inl (New_fault InvalidInput op (Leaf ''context is required'')), w)
      else if \<not> depsPresent then
        (Inl (New_fault InvalidInput op (Leaf ''repository and clock are required'')), w)
      else (case check_ctx op ctx of
          Some err \<Rightarrow> (Inl err, w)
        | None \<Rightarrow>
            (case rep_Load R w of
               (Inl err, w1) \<Rightarrow> (Inl (privacy_classify op err), w1)
             | (Inr loaded, w1) \<Rightarrow>
                 (case canonicalize loaded of
                    Inl err \<Rightarrow> (Inl (New_fault InvalidInput op err), w1)
                  | Inr canonical \<Rightarrow> (Inr \<lparr>srv_current = canonical\<rparr>, w1)))))"

definition Service_Current :: "Service \<Rightarrow> privacy_ctx \<Rightarrow> goerror + privacy_Snapshot" where
  "Service_Current s ctx =
     (case check_ctx ''read privacy permissions'' ctx of
        Some err \<Rightarrow> Inl err
      | None \<Rightarrow> Inr (srv_current s))"

text \<open>
  \<^verbatim>\<open>Change\<close>. \<open>None\<close> is the panic of the slice access when the permission has no grant.
\<close>

definition Service_Change ::
    "'w Repository \<Rightarrow> Service \<Rightarrow> privacy_ctx \<Rightarrow> ChangePermission \<Rightarrow> 'w \<Rightarrow>
     ((goerror + privacy_Snapshot) \<times> Service \<times> 'w) option" where
  "Service_Change R s ctx command w =
     (let op = ''change privacy permission'' in
      case check_ctx op ctx of
        Some err \<Rightarrow> Some (Inl err, s, w)
      | None \<Rightarrow>
          if \<not> validPermission (cp_Permission command) then
            Some (Inl (New_fault InvalidInput op (Leaf ''unknown permission %q'')), s, w)
          else
            let current = srv_current s;
                index = grantIndex (ps_Grants current) (cp_Permission command)
            in if index < 0 then None
               else
                 let i = nat index; grant = ps_Grants current ! i
                 in if gr_Enabled grant = cp_Enabled command then Some (Inr current, s, w)
                    else
                      let (now, w1) = rep_Now R w;
                          next' = current\<lparr>ps_Revision := ps_Revision current + 1,
                                          ps_Grants := (ps_Grants current)
                                            [i := grant\<lparr>gr_Enabled := cp_Enabled command,
                                                        gr_UpdatedAt := now\<rparr>]\<rparr>
                      in if IsZero now then
                           Some (Inl (New_fault InvalidInput op (Leaf ''clock returned zero time'')), s, w1)
                         else (case rep_Save R (ps_Revision current) next' w1 of
                             (Some err, w2) \<Rightarrow> Some (Inl (privacy_classify op err), s, w2)
                           | (None, w2) \<Rightarrow> Some (Inr next', s\<lparr>srv_current := next'\<rparr>, w2)))"

section \<open>Invariant and specification\<close>

text \<open>One grant per permission, in the fixed order; an enabled grant has an update time.\<close>

definition canonical :: "privacy_Snapshot \<Rightarrow> bool" where
  "canonical s =
     (map gr_Permission (ps_Grants s) = permissionOrder \<and>
      list_all (\<lambda>g. gr_Enabled g \<longrightarrow> gr_UpdatedAt g \<noteq> 0) (ps_Grants s))"

text \<open>The permissions a snapshot grants, as a set.\<close>

definition granted :: "privacy_Snapshot \<Rightarrow> Permission set" where
  "granted s = {gr_Permission g | g. g \<in> set (ps_Grants s) \<and> gr_Enabled g}"

text \<open>A sequence of changes, with the contexts they come with.\<close>

fun Service_run ::
    "'w Repository \<Rightarrow> Service \<Rightarrow> (privacy_ctx \<times> ChangePermission) list \<Rightarrow> 'w \<Rightarrow> (Service \<times> 'w) option" where
  "Service_run R s [] w = Some (s, w)"
| "Service_run R s ((ctx, c) # cs) w =
     (case Service_Change R s ctx c w of
        None \<Rightarrow> None
      | Some (res, s', w') \<Rightarrow> Service_run R s' cs w')"

section \<open>Lemmas\<close>

lemma validPermission_in_iff: "validPermission_in ps p \<longleftrightarrow> p \<in> set ps"
  by (induction ps) auto

lemma validPermission_iff: "validPermission p \<longleftrightarrow> p \<in> set permissionOrder"
  by (simp add: validPermission_def validPermission_in_iff)

lemma grantIndex_found:
  assumes "p \<in> set (map gr_Permission gs)"
  shows "0 \<le> grantIndex gs p \<and> nat (grantIndex gs p) < length gs \<and>
    gr_Permission (gs ! nat (grantIndex gs p)) = p"
  using assms
proof (induction gs)
  case (Cons g gs)
  show ?case
  proof (cases "gr_Permission g = p")
    case False
    with Cons have "0 \<le> grantIndex gs p \<and> nat (grantIndex gs p) < length gs \<and>
        gr_Permission (gs ! nat (grantIndex gs p)) = p" by auto
    with False show ?thesis by (auto simp: Let_def nat_add_distrib)
  qed simp
qed simp

text \<open>What every entry of the map built by \<open>canonicalize\<close> satisfies.\<close>

definition entry_ok :: "(Permission \<rightharpoonup> Grant) \<Rightarrow> bool" where
  "entry_ok m = (\<forall>p g. m p = Some g \<longrightarrow> gr_Permission g = p \<and> (gr_Enabled g \<longrightarrow> gr_UpdatedAt g \<noteq> 0))"

lemma entry_okD: "entry_ok m \<Longrightarrow> m p = Some g \<Longrightarrow> gr_Permission g = p \<and> (gr_Enabled g \<longrightarrow> gr_UpdatedAt g \<noteq> 0)"
  by (simp add: entry_ok_def)

lemma collect_grants_Inr:
  assumes "collect_grants gs m = Inr m'" "entry_ok m"
  shows "entry_ok m'"
  using assms
proof (induction gs arbitrary: m)
  case (Cons g gs)
  from Cons.prems(1) have c: "\<not> (gr_Enabled g \<and> IsZero (gr_UpdatedAt g))"
    and rest: "collect_grants gs (m(gr_Permission g \<mapsto> g)) = Inr m'"
    by (simp_all split: if_splits)
  have "entry_ok (m(gr_Permission g \<mapsto> g))"
    using Cons.prems(2) c by (auto simp: entry_ok_def)
  with rest show ?case by (rule Cons.IH)
qed simp

lemma canonicalize_canonical: "canonicalize s = Inr s' \<Longrightarrow> canonical s' \<and> ps_Revision s' = ps_Revision s"
proof -
  assume c: "canonicalize s = Inr s'"
  then obtain m where m: "collect_grants (ps_Grants s) Map.empty = Inr m"
    and s': "s' = \<lparr>ps_Revision = ps_Revision s,
       ps_Grants = map (\<lambda>p. case m p of Some g \<Rightarrow> g
           | None \<Rightarrow> \<lparr>gr_Permission = p, gr_Enabled = False, gr_UpdatedAt = 0\<rparr>) permissionOrder\<rparr>"
    by (auto simp: canonicalize_def split: if_splits sum.splits)
  have "entry_ok m" by (rule collect_grants_Inr [OF m]) (simp add: entry_ok_def)
  note e = entry_okD [OF this]
  show ?thesis
    by (auto simp: s' canonical_def list_all_iff comp_def intro!: map_idI dest: e split: option.splits)
qed

lemma distinct_permissionOrder: "distinct permissionOrder"
  by (simp add: permissionOrder_def)

lemma canonical_update:
  assumes "canonical s" "i < length (ps_Grants s)" "now \<noteq> 0"
  shows "canonical (s\<lparr>ps_Revision := r, ps_Grants := (ps_Grants s)
           [i := (ps_Grants s ! i)\<lparr>gr_Enabled := b, gr_UpdatedAt := now\<rparr>]\<rparr>)"
proof -
  have "map gr_Permission ((ps_Grants s)[i := (ps_Grants s ! i)\<lparr>gr_Enabled := b, gr_UpdatedAt := now\<rparr>]) =
      map gr_Permission (ps_Grants s)"
    using assms(2) by (simp add: map_update list_update_same_conv)
  with assms show ?thesis
    by (auto simp: canonical_def list_all_iff dest!: set_update_subset_insert [THEN subsetD])
qed


lemma granted_iff:
  assumes "canonical s" "i < length (ps_Grants s)"
  shows "gr_Permission (ps_Grants s ! i) \<in> granted s \<longleftrightarrow> gr_Enabled (ps_Grants s ! i)"
proof -
  have d: "distinct (map gr_Permission (ps_Grants s))"
    using assms(1) by (simp add: canonical_def distinct_permissionOrder)
  have "g = ps_Grants s ! i"
    if "g \<in> set (ps_Grants s)" "gr_Permission g = gr_Permission (ps_Grants s ! i)" for g
    using that d assms(2) by (auto simp: distinct_map inj_on_def)
  then show ?thesis using assms(2) by (auto simp: granted_def)
qed

lemma granted_update:
  assumes "canonical s" "i < length (ps_Grants s)" "gr_Permission (ps_Grants s ! i) = p"
  shows "granted (s\<lparr>ps_Revision := r, ps_Grants := (ps_Grants s)
           [i := (ps_Grants s ! i)\<lparr>gr_Enabled := b, gr_UpdatedAt := now\<rparr>]\<rparr>) =
         (if b then insert p (granted s) else granted s - {p})"
proof -
  let ?gs = "ps_Grants s"
  let ?g = "(?gs ! i)\<lparr>gr_Enabled := b, gr_UpdatedAt := now\<rparr>"
  have d: "distinct (map gr_Permission ?gs)"
    using assms(1) by (simp add: canonical_def distinct_permissionOrder)
  have other: "gr_Permission (?gs ! j) \<noteq> p" if "j < length ?gs" "j \<noteq> i" for j
    using d that assms(2,3) by (auto simp: distinct_conv_nth)
  have new: "q \<in> gr_Permission ` {g \<in> set (?gs[i := ?g]). gr_Enabled g} \<longleftrightarrow>
      (\<exists>j < length ?gs. j \<noteq> i \<and> gr_Enabled (?gs ! j) \<and> gr_Permission (?gs ! j) = q) \<or> b \<and> q = p" for q
    using assms(2,3) by (auto simp: in_set_conv_nth image_iff nth_list_update)
  have old: "q \<in> gr_Permission ` {g \<in> set ?gs. gr_Enabled g} \<longleftrightarrow>
      (\<exists>j < length ?gs. gr_Enabled (?gs ! j) \<and> gr_Permission (?gs ! j) = q)" for q
    by (auto simp: in_set_conv_nth image_iff)
  have g: "granted t = gr_Permission ` {g \<in> set (ps_Grants t). gr_Enabled g}" for t
    by (auto simp: granted_def)
  show ?thesis
    unfolding g using new old other assms(3) by (auto simp: set_eq_iff)
qed


lemma canonicalize_id:
  assumes "canonical s" "ps_Revision s \<noteq> 0"
  shows "canonicalize s = Inr s"
proof -
  let ?gs = "ps_Grants s"
  have c: "collect_grants gs m = Inr (m ++ map_of (map (\<lambda>g. (gr_Permission g, g)) gs))"
    if "set gs \<subseteq> set ?gs" "distinct (map gr_Permission gs)" "\<forall>g \<in> set gs. m (gr_Permission g) = None"
    for gs m
    using that
  proof (induction gs arbitrary: m)
    case (Cons g gs)
    have v: "validPermission (gr_Permission g)"
      using Cons.prems(1) assms(1)
      by (force simp: canonical_def validPermission_iff dest: arg_cong [where f = set])
    have e: "(gr_Enabled g \<and> gr_UpdatedAt g = 0) = False"
      using Cons.prems(1) assms(1) by (auto simp: canonical_def list_all_iff)
    have "collect_grants gs (m(gr_Permission g \<mapsto> g)) =
        Inr (m(gr_Permission g \<mapsto> g) ++ map_of (map (\<lambda>g. (gr_Permission g, g)) gs))"
      using Cons.prems by (intro Cons.IH) (auto simp: image_iff)
    moreover have "m(gr_Permission g \<mapsto> g) ++ map_of (map (\<lambda>g. (gr_Permission g, g)) gs) =
        m ++ map_of (map (\<lambda>g. (gr_Permission g, g)) (g # gs))"
      using Cons.prems(2)
      by (auto simp: map_add_def fun_eq_iff image_iff dest: map_of_SomeD split: option.splits)
    moreover have "collect_grants (g # gs) m = collect_grants gs (m(gr_Permission g \<mapsto> g))"
      using Cons.prems(3) by (simp only: collect_grants.simps if_False v e simp_thms) simp
    ultimately show ?case by (simp only:)
  qed simp
  let ?m = "map_of (map (\<lambda>g. (gr_Permission g, g)) ?gs)"
  have d: "distinct (map gr_Permission ?gs)"
    using assms(1) by (simp add: canonical_def distinct_permissionOrder)
  have m: "?m (gr_Permission g) = Some g" if "g \<in> set ?gs" for g
    using that d by (intro map_of_is_SomeI) (auto simp: comp_def)
  have "map (\<lambda>p. case ?m p of Some g \<Rightarrow> g
      | None \<Rightarrow> \<lparr>gr_Permission = p, gr_Enabled = False, gr_UpdatedAt = 0\<rparr>) (map gr_Permission ?gs) = ?gs"
    using m by (auto intro!: map_idI)
  then have "map (\<lambda>p. case ?m p of Some g \<Rightarrow> g
      | None \<Rightarrow> \<lparr>gr_Permission = p, gr_Enabled = False, gr_UpdatedAt = 0\<rparr>) permissionOrder = ?gs"
    using assms(1) by (simp only: canonical_def)
  then show ?thesis
    using assms(2) c [of ?gs Map.empty] d by (simp add: canonicalize_def)
qed

section \<open>The service\<close>

lemma Service_New_canonical:
  "Service_New R d ctx w = (Inr s, w') \<Longrightarrow> canonical (srv_current s)"
  by (auto simp: Service_New_def Let_def split: if_splits option.splits sum.splits prod.splits
      dest: canonicalize_canonical)

text \<open>
  What one change does: it is refused and leaves the service, or it finds the state it asks for and
  does nothing, or it saves a snapshot that differs in one grant and then shows it.
\<close>

lemma Service_Change_cases:
  assumes "canonical (srv_current s)"
  obtains (refused) err w' where "Service_Change R s ctx c w = Some (Inl err, s, w')"
      "w' = w \<or> w' = snd (rep_Now R w)"
  | (unsaved) now w1 w2 err next' where
      "Service_Change R s ctx c w = Some (Inl (privacy_classify ''change privacy permission'' err), s, w2)"
      "ctx = Live" "rep_Now R w = (now, w1)" "canonical next'"
      "ps_Revision next' = ps_Revision (srv_current s) + 1"
      "rep_Save R (ps_Revision (srv_current s)) next' w1 = (Some err, w2)"
  | (kept) "Service_Change R s ctx c w = Some (Inr (srv_current s), s, w)" "ctx = Live"
      "cp_Permission c \<in> granted (srv_current s) \<longleftrightarrow> cp_Enabled c"
  | (saved) now w1 w2 i cur next' where
      "Service_Change R s ctx c w = Some (Inr next', s\<lparr>srv_current := next'\<rparr>, w2)" "ctx = Live"
      "cur = srv_current s" "i < length (ps_Grants cur)" "gr_Permission (ps_Grants cur ! i) = cp_Permission c"
      "cp_Permission c \<in> granted cur \<longleftrightarrow> \<not> cp_Enabled c" "rep_Now R w = (now, w1)" "now \<noteq> 0"
      "next' = cur\<lparr>ps_Revision := ps_Revision cur + 1,
                   ps_Grants := (ps_Grants cur)[i := (ps_Grants cur ! i)\<lparr>gr_Enabled := cp_Enabled c,
                                                       gr_UpdatedAt := now\<rparr>]\<rparr>"
      "rep_Save R (ps_Revision cur) next' w1 = (None, w2)"
      "canonical next'"
      "granted next' = (if cp_Enabled c then insert (cp_Permission c) (granted cur)
                        else granted cur - {cp_Permission c})"
proof (cases "ctx = Live \<and> cp_Permission c \<in> set permissionOrder")
  case False
  then have "\<exists>err. Service_Change R s ctx c w = Some (Inl err, s, w)"
    by (auto simp: Service_Change_def check_ctx_def Let_def validPermission_iff
        split: privacy_ctx.splits)
  then show thesis by (blast intro: refused)
next
  case True
  define cur where "cur = srv_current s"
  define i where "i = nat (grantIndex (ps_Grants cur) (cp_Permission c))"
  from True assms have "cp_Permission c \<in> set (map gr_Permission (ps_Grants cur))"
    by (simp add: canonical_def cur_def)
  from grantIndex_found [OF this] have nn: "\<not> grantIndex (ps_Grants cur) (cp_Permission c) < 0"
    and i: "i < length (ps_Grants cur)" "gr_Permission (ps_Grants cur ! i) = cp_Permission c"
    by (simp_all add: i_def)
  have can: "canonical cur" using assms by (simp add: cur_def)
  from granted_iff [OF can i(1)] i(2)
  have gi: "cp_Permission c \<in> granted cur \<longleftrightarrow> gr_Enabled (ps_Grants cur ! i)" by simp
  obtain now w1 where now: "rep_Now R w = (now, w1)" by force
  define next' where "next' = cur\<lparr>ps_Revision := ps_Revision cur + 1,
      ps_Grants := (ps_Grants cur)[i := (ps_Grants cur ! i)\<lparr>gr_Enabled := cp_Enabled c, gr_UpdatedAt := now\<rparr>]\<rparr>"
  obtain serr w2 where save: "rep_Save R (ps_Revision cur) next' w1 = (serr, w2)" by force
  note step = Service_Change_def check_ctx_def validPermission_iff Let_def
  show thesis
  proof (cases "gr_Enabled (ps_Grants cur ! i) = cp_Enabled c")
    case same: True
    then show thesis
      using True nn gi by (intro kept) (simp_all add: step flip: cur_def i_def)
  next
    case diff: False
    show thesis
    proof (cases "now = 0 \<or> serr \<noteq> None")
      case bad: True
      show thesis
      proof (cases "now = 0")
        case zero: True
        have "\<exists>err. Service_Change R s ctx c w = Some (Inl err, s, w1)"
          using True nn diff now zero by (auto simp: step simp flip: cur_def i_def)
        then show thesis using now by (auto intro: refused)
      next
        case nonzero: False
        with bad obtain err where err: "serr = Some err" by blast
        have "Service_Change R s ctx c w =
            Some (Inl (privacy_classify ''change privacy permission'' err), s, w2)"
          using True nn diff now save nonzero err
          by (simp add: step flip: cur_def i_def next'_def)
        then show thesis
          using True now save err can i nonzero
          by (intro unsaved [of err w2 now w1 next'])
            (simp_all add: cur_def [symmetric] next'_def canonical_update)
      qed
    next
      case good: False
      have "Service_Change R s ctx c w = Some (Inr next', s\<lparr>srv_current := next'\<rparr>, w2)"
        using True nn diff now save good
        by (simp add: step flip: cur_def i_def next'_def)
      then show thesis
        using True i gi diff now save good can
        by (intro saved [of next' w2 cur i now w1])
          (simp_all add: cur_def [symmetric] next'_def canonical_update granted_update)
    qed
  qed
qed


lemma Service_Change_ok:
  assumes "canonical (srv_current s)"
  shows "\<exists>res s' w'. Service_Change R s ctx c w = Some (res, s', w') \<and> canonical (srv_current s')"
  using assms by (cases rule: Service_Change_cases [OF assms, of R ctx c w]) auto

lemma Service_run_ok:
  "canonical (srv_current s) \<Longrightarrow> \<exists>s' w'. Service_run R s cs w = Some (s', w') \<and> canonical (srv_current s')"
proof (induction cs arbitrary: s w)
  case (Cons x cs)
  obtain ctx c where x: "x = (ctx, c)" by force
  from Service_Change_ok [OF Cons.prems, of R ctx c w] obtain res s' w' where
    "Service_Change R s ctx c w = Some (res, s', w')" "canonical (srv_current s')" by blast
  with Cons.IH show ?case by (simp add: x)
qed simp

text \<open>A service that was created never meets an unknown grant: every sequence of changes returns,
  with a snapshot that has one grant per permission in the fixed order and a time in every enabled
  grant, so that no later change panics either.\<close>

theorem permission_changes_total:
  assumes "Service_New R d ctx0 w0 = (Inr s0, w)"
  shows "\<exists>s' w'. Service_run R s0 cs w = Some (s', w') \<and> canonical (srv_current s') \<and>
    (\<forall>ctx c v. Service_Change R s' ctx c v \<noteq> None)"
proof -
  from Service_run_ok [OF Service_New_canonical [OF assms], of R cs w] obtain s' w' where
    r: "Service_run R s0 cs w = Some (s', w')" "canonical (srv_current s')" by blast
  then have "Service_Change R s' ctx c v \<noteq> None" for ctx c v
    using Service_Change_ok [of s' R ctx c v] by auto
  with r show ?thesis by blast
qed

text \<open>A repository in memory and a clock that ticks, for the examples.\<close>

definition demo_repository :: "(privacy_Snapshot \<times> time) Repository" where
  "demo_repository =
     \<lparr>rep_Load = (\<lambda>w. (Inr (fst w), w)),
      rep_Save = (\<lambda>n s w. if ps_Revision (fst w) = n then (None, (s, snd w))
                          else (Some (New_fault StaleInput ''save'' (Leaf ''stale'')), w)),
      rep_Now = (\<lambda>w. (snd w, (fst w, snd w + 1)))\<rparr>"

definition demo_service :: Service where
  "demo_service =
     \<lparr>srv_current = \<lparr>ps_Revision = 0, ps_Grants = map (\<lambda>p. \<lparr>gr_Permission = p, gr_Enabled = False,
        gr_UpdatedAt = 0\<rparr>) permissionOrder\<rparr>\<rparr>"

definition demo_changes :: "(privacy_ctx \<times> ChangePermission) list" where
  "demo_changes =
     [(Live, \<lparr>cp_Permission = FaceDetection, cp_Enabled = True\<rparr>),
      (Live, \<lparr>cp_Permission = OtherPermission ''X'', cp_Enabled = True\<rparr>),
      (NilContext, \<lparr>cp_Permission = FaceLiveness, cp_Enabled = True\<rparr>)]"

lemma demo_New:
  "Service_New demo_repository True Live (\<lparr>ps_Revision = 0, ps_Grants = []\<rparr>, 5) =
     (Inr demo_service, (\<lparr>ps_Revision = 0, ps_Grants = []\<rparr>, 5))"
  by code_simp

lemma permission_changes_total_witness:
  "\<exists>s' w'. Service_run demo_repository demo_service demo_changes (\<lparr>ps_Revision = 0, ps_Grants = []\<rparr>, 5) =
       Some (s', w') \<and> canonical (srv_current s')"
  using permission_changes_total [OF demo_New, of demo_changes] by blast

text \<open>A change that returns an error leaves the service as it was. One that succeeds shows a snapshot
  in which exactly the permission asked for has the state asked for; when it had that state before,
  nothing happened, and otherwise the revision is the next one and that very snapshot was saved,
  against the old revision, before it was shown.\<close>

theorem change_one_permission:
  assumes "Service_New R d ctx0 w0 = (Inr s0, w1)"
    and "Service_run R s0 cs w1 = Some (s, w)"
    and "Service_Change R s ctx c w = Some (res, s', w')"
  shows "case res of
      Inl err \<Rightarrow> s' = s
    | Inr snap \<Rightarrow>
        srv_current s' = snap \<and>
        granted snap = (if cp_Enabled c then insert (cp_Permission c) (granted (srv_current s))
                        else granted (srv_current s) - {cp_Permission c}) \<and>
        (if granted snap = granted (srv_current s) then s' = s \<and> w' = w
         else ps_Revision snap = ps_Revision (srv_current s) + 1 \<and>
           (\<exists>w2. rep_Save R (ps_Revision (srv_current s)) snap w2 = (None, w')))"
proof -
  from Service_run_ok [OF Service_New_canonical [OF assms(1)], of R cs w1] assms(2)
  have "canonical (srv_current s)" by auto
  then show ?thesis
  proof (cases rule: Service_Change_cases [of _ R ctx c w])
    case kept
    then have "(if cp_Enabled c then insert (cp_Permission c) (granted (srv_current s))
        else granted (srv_current s) - {cp_Permission c}) = granted (srv_current s)" by auto
    with kept assms(3) show ?thesis by auto
  next
    case (saved now w1 w2 i cur next')
    then have "granted next' \<noteq> granted cur" by (auto simp: set_eq_iff)
    with saved(9) saved assms(3) show ?thesis by auto
  qed (use assms(3) in auto)
qed

lemma change_one_permission_witness:
  "let p = FaceLiveness; st = the (Service_run demo_repository demo_service demo_changes
         (\<lparr>ps_Revision = 0, ps_Grants = []\<rparr>, 5));
       r = the (Service_Change demo_repository (fst st) Live \<lparr>cp_Permission = p, cp_Enabled = True\<rparr> (snd st))
   in isl (fst r) = False \<and> granted (srv_current (fst (snd r))) = insert p (granted (srv_current (fst st)))"
proof -
  let ?w = "(\<lparr>ps_Revision = 0, ps_Grants = []\<rparr>, 5)"
  let ?run = "Service_run demo_repository demo_service demo_changes ?w"
  let ?st = "the ?run"
  let ?ch = "Service_Change demo_repository (fst ?st) Live \<lparr>cp_Permission = FaceLiveness, cp_Enabled = True\<rparr> (snd ?st)"
  have r: "?run = Some (fst ?st, snd ?st)" by code_simp
  have c: "?ch = Some (fst (the ?ch), fst (snd (the ?ch)), snd (snd (the ?ch)))" by code_simp
  have "isl (fst (the ?ch)) = False" by code_simp
  with change_one_permission [OF demo_New r c] show ?thesis
    by (simp add: Let_def split: sum.splits)
qed

section \<open>Durability\<close>

text \<open>
  What the service relies on from a repository: \<open>stored\<close> is what it persists; a load reads it, a save
  of a canonical snapshot that succeeds replaces it, one that fails keeps it or replaces it, one whose expected revision is
  not the persisted one fails and keeps it.
\<close>

locale permission_store =
  fixes R :: "'w Repository"
    and stored :: "'w \<Rightarrow> privacy_Snapshot"
  assumes load_reads: "rep_Load R w = (Inr s, w') \<Longrightarrow> s = stored w"
    and load_keeps: "rep_Load R w = (r, w') \<Longrightarrow> stored w' = stored w"
    and now_keeps: "rep_Now R w = (t, w') \<Longrightarrow> stored w' = stored w"
    and save_stores: "canonical s \<Longrightarrow> rep_Save R n s w = (None, w') \<Longrightarrow> stored w' = s"
    and save_fails: "canonical s \<Longrightarrow> rep_Save R n s w = (Some err, w') \<Longrightarrow>
      stored w' = stored w \<or> stored w' = s"
    and save_stale: "ps_Revision (stored w) \<noteq> n \<Longrightarrow>
      rep_Save R n s w = (e, w') \<Longrightarrow> e \<noteq> None \<and> stored w' = stored w"
begin

text \<open>The persisted snapshot is the current one, or one revision ahead of it.\<close>

definition in_step :: "Service \<Rightarrow> 'w \<Rightarrow> bool" where
  "in_step s w = (canonicalize (stored w) = Inr (srv_current s))"

definition ahead :: "Service \<Rightarrow> 'w \<Rightarrow> bool" where
  "ahead s w = (ps_Revision (stored w) = ps_Revision (srv_current s) + 1)"

lemma New_in_step:
  assumes "Service_New R d ctx w = (Inr s, w')"
  shows "in_step s w'"
proof -
  from assms obtain loaded where l: "rep_Load R w = (Inr loaded, w')"
    and c: "canonicalize loaded = Inr (srv_current s)"
    by (auto simp: Service_New_def Let_def split: if_splits option.splits sum.splits prod.splits)
  from load_reads [OF l] load_keeps [OF l] c show ?thesis by (simp add: in_step_def)
qed

lemma in_step_revision: "in_step s w \<Longrightarrow> ps_Revision (stored w) = ps_Revision (srv_current s)"
  by (auto simp: in_step_def dest: canonicalize_canonical)

lemma refused_keeps: "w' = w \<or> w' = snd (rep_Now R w) \<Longrightarrow> stored w' = stored w"
  by (metis now_keeps prod.collapse)

lemma Change_in_step:
  assumes "in_step s w" "canonical (srv_current s)" "ps_Revision (srv_current s) + 1 \<noteq> 0"
    and "Service_Change R s ctx c w = Some (res, s', w')"
  shows "in_step s' w' \<or> ahead s' w'"
  using assms(2)
proof (cases rule: Service_Change_cases [of _ R ctx c w])
  case (refused err w'')
  then show ?thesis using assms(1,4) refused_keeps [of w'' w] by (simp add: in_step_def)
next
  case (unsaved now w1 w2 err next')
  then show ?thesis
    using assms(1,4) save_fails [OF unsaved(4) unsaved(6)] now_keeps [OF unsaved(3)]
    by (auto simp: in_step_def ahead_def)
next
  case (saved now w1 w2 i cur next')
  have "canonicalize next' = Inr next'"
    using saved(3,9) assms(3) by (intro canonicalize_id saved(11)) simp
  then show ?thesis using assms(4) saved(1) save_stores [OF saved(11) saved(10)] by (auto simp: in_step_def)
qed (use assms in simp)

lemma Change_ahead:
  assumes "ahead s w" "canonical (srv_current s)"
    and "Service_Change R s ctx c w = Some (res, s', w')"
  shows "s' = s \<and> ahead s w' \<and>
    (ctx = Live \<longrightarrow> (cp_Permission c \<in> granted (srv_current s) \<longleftrightarrow> cp_Enabled c) \<or> (\<exists>err. res = Inl err))"
proof -
  have stale: "ps_Revision (stored v) \<noteq> ps_Revision (srv_current s)" if "stored v = stored w" for v
    using assms(1) that by (simp add: ahead_def)
  show ?thesis
    using assms(2)
  proof (cases rule: Service_Change_cases [of _ R ctx c w])
    case (refused err w'')
    then show ?thesis using assms(1,3) refused_keeps [of w'' w] by (auto simp: ahead_def)
  next
    case (unsaved now w1 w2 err next')
    then show ?thesis
      using assms(1,3) save_stale [OF stale unsaved(6)] now_keeps [OF unsaved(3)]
      by (auto simp: ahead_def)
  next
    case (saved now w1 w2 i cur next')
    then show ?thesis
      using save_stale [OF stale, of w1 next' None w2] now_keeps [OF saved(7)] by simp
  qed (use assms in auto)
qed

lemma run_ahead:
  assumes "ahead s w" "canonical (srv_current s)" "Service_run R s cs w = Some (s', w')"
  shows "s' = s \<and> ahead s w'"
  using assms
proof (induction cs arbitrary: w)
  case (Cons x cs)
  obtain ctx c where x: "x = (ctx, c)" by force
  from Cons.prems(3) obtain res s1 w1 where
    st: "Service_Change R s ctx c w = Some (res, s1, w1)" and r: "Service_run R s1 cs w1 = Some (s', w')"
    by (auto simp: x split: option.splits)
  from Change_ahead [OF Cons.prems(1,2) st] Cons.IH [of w1] Cons.prems(2) r show ?case by simp
qed simp

lemma run_in_step_or_ahead:
  assumes "in_step s w" "canonical (srv_current s)" "Service_run R s cs w = Some (s', w')"
    and "unat (ps_Revision (srv_current s)) + length cs < 2 ^ 64"
  shows "in_step s' w' \<or> ahead s' w'"
  using assms
proof (induction cs arbitrary: s w)
  case (Cons x cs)
  obtain ctx c where x: "x = (ctx, c)" by force
  from Cons.prems(3) obtain res s1 w1 where
    st: "Service_Change R s ctx c w = Some (res, s1, w1)" and r: "Service_run R s1 cs w1 = Some (s', w')"
    by (auto simp: x split: option.splits)
  let ?r = "ps_Revision (srv_current s)"
  have u: "unat (?r + 1) = unat ?r + 1" using Cons.prems(4) by (simp add: unat_word_ariths)
  then have nz: "?r + 1 \<noteq> 0" by (metis Suc_eq_plus1 nat.distinct(1) unat_0)
  from Service_Change_ok [OF Cons.prems(2), of R ctx c w] st have can: "canonical (srv_current s1)" by auto
  have rev: "ps_Revision (srv_current s1) = ?r \<or> ps_Revision (srv_current s1) = ?r + 1"
    using st by (cases rule: Service_Change_cases [OF Cons.prems(2), of R ctx c w]) auto
  from Change_in_step [OF Cons.prems(1,2) nz st] show ?case
  proof
    assume "in_step s1 w1"
    then show ?thesis using rev u Cons.prems(4) by (intro Cons.IH [OF _ can r]) auto
  next
    assume "ahead s1 w1"
    from run_ahead [OF this can r] show ?thesis by simp
  qed
qed simp

lemma restart_in_step:
  assumes "in_step s w" "Service_New R d ctx w = (Inr s2, w')"
  shows "s2 = s"
proof -
  from assms(2) obtain loaded where l: "rep_Load R w = (Inr loaded, w')"
    and c: "canonicalize loaded = Inr (srv_current s2)"
    by (auto simp: Service_New_def Let_def split: if_splits option.splits sum.splits prod.splits)
  from load_reads [OF l] assms(1) c show ?thesis by (simp add: in_step_def)
qed

lemma restart_ahead:
  assumes "ahead s w" "Service_New R d ctx w = (Inr s2, w')"
  shows "ps_Revision (srv_current s2) = ps_Revision (srv_current s) + 1"
  using in_step_revision [OF New_in_step [OF assms(2)]] assms
  by (auto simp: ahead_def Service_New_def Let_def split: if_splits option.splits sum.splits prod.splits
      dest!: load_keeps)

end

end
