(* ===== verification/Time_Text.thy ===== *)
theory Time_Text
  imports Go_Prelude "HOL-Library.Monad_Syntax"
begin

text \<open>
  Instants as JSON strings: \<^verbatim>\<open>time.Time.MarshalJSON\<close> and \<^verbatim>\<open>UnmarshalJSON\<close> of the standard
  library, as the privacy file uses them. Rendering adds the offset of the location, in minutes, as
  an argument; parsing is \<^verbatim>\<open>time.Parse\<close> with the layout \<^verbatim>\<open>time.RFC3339\<close>, which takes one-digit
  hours, a comma before the fraction, and offsets up to 24:60. The main lemma is that parsing gives
  back the instant rendered, whatever the offset.
\<close>

section \<open>Rendering\<close>

definition day_ns :: int where
  "day_ns = 86400 * 1000000000"

definition clock_text :: "int \<Rightarrow> string" where
  "clock_text s = pad 2 (s div 3600) @ '':'' @ pad 2 (s div 60 mod 60) @ '':'' @ pad 2 (s mod 60)"

definition RFC3339_local :: "time \<Rightarrow> string" where
  "RFC3339_local t =
     (let (y, m, d) = civil_of_days (t div day_ns); ns = t mod day_ns
      in show_year y @ ''-'' @ pad 2 m @ ''-'' @ pad 2 d @ ''T'' @
         clock_text (ns div 1000000000) @ show_fraction (ns mod 1000000000))"

definition zone_text :: "int \<Rightarrow> string" where
  "zone_text off =
     (if off = 0 then ''Z''
      else (if off < 0 then CHR ''-'' else CHR ''+'') #
           pad 2 (\<bar>off\<bar> div 60) @ '':'' @ pad 2 (\<bar>off\<bar> mod 60))"

definition zone_ns :: "int \<Rightarrow> int" where
  "zone_ns off = off * (60 * 1000000000)"

text \<open>\<open>None\<close>: a year outside of 0 to 9999, or an offset of a day or more.\<close>

definition MarshalTime :: "int \<Rightarrow> time \<Rightarrow> string option" where
  "MarshalTime off t =
     (let lt = t + zone_ns off; year = fst (civil_of_days (lt div day_ns))
      in if year < 0 \<or> 9999 < year then None
         else if 24 \<le> \<bar>off\<bar> div 60 then None
         else Some (RFC3339_local lt @ zone_text off))"

section \<open>Parsing\<close>

definition isDigit :: "char \<Rightarrow> bool" where
  "isDigit c = (48 \<le> (of_char c :: nat) \<and> of_char c \<le> (57 :: nat))"

definition digit_val :: "char \<Rightarrow> int" where
  "digit_val c = of_char c - 48"

definition dec_val :: "string \<Rightarrow> int" where
  "dec_val ds = foldl (\<lambda>n c. 10 * n + digit_val c) 0 ds"

text \<open>\<^verbatim>\<open>getnum\<close>, with two digits required or not; \<open>n\<close> digits; a literal.\<close>

fun getnum2 :: "string \<Rightarrow> (int \<times> string) option" where
  "getnum2 (a # b # s) = (if isDigit a \<and> isDigit b then Some (10 * digit_val a + digit_val b, s) else None)"
| "getnum2 _ = None"

fun getnum :: "string \<Rightarrow> (int \<times> string) option" where
  "getnum [] = None"
| "getnum [a] = (if isDigit a then Some (digit_val a, []) else None)"
| "getnum (a # b # s) =
     (if \<not> isDigit a then None
      else if isDigit b then Some (10 * digit_val a + digit_val b, s)
      else Some (digit_val a, b # s))"

fun getyear :: "string \<Rightarrow> (int \<times> string) option" where
  "getyear (a # b # c # d # s) =
     (if list_all isDigit [a, b, c, d] then Some (dec_val [a, b, c, d], s) else None)"
| "getyear _ = None"

fun skip :: "char \<Rightarrow> string \<Rightarrow> string option" where
  "skip c [] = None"
| "skip c (x # s) = (if x = c then Some s else None)"

definition check :: "bool \<Rightarrow> unit option" where
  "check b = (if b then Some () else None)"

fun take_fraction :: "string \<Rightarrow> int \<times> string" where
  "take_fraction (p # c # s) =
     (if (p = CHR ''.'' \<or> p = CHR '','') \<and> isDigit c
      then let ds = take 9 (takeWhile isDigit (c # s))
           in (dec_val ds * 10 ^ (9 - length ds), dropWhile isDigit (c # s))
      else (0, p # c # s))"
| "take_fraction s = (0, s)"

text \<open>The offset in minutes.\<close>

fun take_zone :: "string \<Rightarrow> (int \<times> string) option" where
  "take_zone [] = None"
| "take_zone (z # s) =
     (if z = CHR ''Z'' then Some (0, s)
      else do {
        (hr, s) \<leftarrow> getnum2 s;
        s \<leftarrow> skip (CHR '':'') s;
        (mm, s) \<leftarrow> getnum2 s;
        check (hr \<le> 24 \<and> mm \<le> 60);
        if z = CHR ''+'' then Some (hr * 60 + mm, s)
        else if z = CHR ''-'' then Some (- (hr * 60 + mm), s)
        else None
      })"

definition leap :: "int \<Rightarrow> bool" where
  "leap y = (y mod 4 = 0 \<and> (y mod 100 \<noteq> 0 \<or> y mod 400 = 0))"

definition daysIn :: "int \<Rightarrow> int \<Rightarrow> int" where
  "daysIn m y = (if m = 2 then (if leap y then 29 else 28)
     else if m = 4 \<or> m = 6 \<or> m = 9 \<or> m = 11 then 30 else 31)"

definition days_of_civil :: "int \<Rightarrow> int \<Rightarrow> int \<Rightarrow> int" where
  "days_of_civil y m d =
     (let y1 = (if m \<le> 2 then y - 1 else y);
          yoe = y1 mod 400;
          doy = (153 * ((m + 9) mod 12) + 2) div 5 + d - 1
      in y1 div 400 * 146097 + (365 * yoe + yoe div 4 - yoe div 100 + doy) - 306)"

definition parse_RFC3339 :: "string \<Rightarrow> time option" where
  "parse_RFC3339 s = do {
     (y, s) \<leftarrow> getyear s;
     s \<leftarrow> skip (CHR ''-'') s;
     (m, s) \<leftarrow> getnum2 s;
     check (1 \<le> m \<and> m \<le> 12);
     s \<leftarrow> skip (CHR ''-'') s;
     (d, s) \<leftarrow> getnum2 s;
     s \<leftarrow> skip (CHR ''T'') s;
     (hh, s) \<leftarrow> getnum s;
     check (hh < 24);
     s \<leftarrow> skip (CHR '':'') s;
     (mi, s) \<leftarrow> getnum2 s;
     check (mi < 60);
     s \<leftarrow> skip (CHR '':'') s;
     (ss, s) \<leftarrow> getnum2 s;
     check (ss < 60);
     let (ns, s) = take_fraction s;
     (off, s) \<leftarrow> take_zone s;
     check (s = []);
     check (1 \<le> d \<and> d \<le> daysIn m y);
     Some (days_of_civil y m d * day_ns + (hh * 3600 + mi * 60 + ss) * 1000000000 + ns - zone_ns off)
   }"

section \<open>Dates\<close>

text \<open>Years of an era of 400 years, starting in March: their first days.\<close>

definition year_start :: "int \<Rightarrow> int" where
  "year_start y = 365 * y + y div 4 - y div 100"

definition year_end :: "int \<Rightarrow> int" where
  "year_end y = (if y = 399 then 146096 else year_start (y + 1) - 1)"

definition year_num :: "int \<Rightarrow> int" where
  "year_num d = d - d div 1460 + d div 36524 - d div 146096"

lemma year_num_step: "0 \<le> d \<Longrightarrow> d < 146096 \<Longrightarrow> year_num d \<le> year_num (d + 1)"
proof (cases "d = 146095")
  case False
  assume d: "0 \<le> d" "d < 146096"
  have "(d + 1) div 1460 \<le> d div 1460 + 1" using zdiv_mono1 [of "d + 1" "d + 1460" 1460] by simp
  moreover have "d div 36524 \<le> (d + 1) div 36524" by (rule zdiv_mono1) simp_all
  moreover have "d div 146096 = 0" "(d + 1) div 146096 = 0"
    using False d by (auto intro!: div_pos_pos_trivial)
  moreover have "d - a + c - e \<le> d + 1 - a' + c' - e'"
    if "a' \<le> a + 1" "c \<le> c'" "e = 0" "e' = 0" for a a' c c' e e' :: int
    using that by simp
  ultimately show ?thesis unfolding year_num_def by blast
qed (simp add: year_num_def)

lemma year_num_mono:
  assumes "0 \<le> a" "a \<le> b" "b \<le> 146096"
  shows "year_num a \<le> year_num b"
  using assms(2,3)
proof (induction b rule: int_ge_induct)
  case (step i)
  then show ?case using year_num_step [of i] assms(1) by simp
qed simp

lemma year_bounds:
  "list_all (\<lambda>y. 365 * y \<le> year_num (year_start y) \<and> year_num (year_end y) < 365 * (y + 1) \<and>
       0 \<le> year_start y \<and> year_end y \<le> 146096 \<and> year_end y \<le> year_start y + 365) [0..399]"
  by code_simp

lemma year_bound:
  assumes "0 \<le> y" "y < 400"
  shows "365 * y \<le> year_num (year_start y)" "year_num (year_end y) < 365 * (y + 1)"
    "0 \<le> year_start y" "year_end y \<le> 146096" "year_end y \<le> year_start y + 365"
  using year_bounds assms by (auto simp: list_all_iff)

lemma year_exists:
  assumes "0 \<le> d" "d \<le> 146096"
  shows "\<exists>y. 0 \<le> y \<and> y < 400 \<and> year_start y \<le> d \<and> d \<le> year_end y"
proof -
  have ex: "d < year_start (int n) \<Longrightarrow> \<exists>y. 0 \<le> y \<and> y < int n \<and> year_start y \<le> d \<and> d < year_start (y + 1)" for n
  proof (induction n)
    case (Suc n)
    then show ?case
      by (cases "d < year_start (int n)") (auto intro: exI [of _ "int n"] simp: algebra_simps)
  qed (use assms(1) in \<open>simp add: year_start_def\<close>)
  show ?thesis
  proof (cases "d = 146096")
    case True
    then show ?thesis by (intro exI [of _ 399]) (simp add: year_start_def year_end_def)
  next
    case False
    with assms ex [of 400] obtain y where "0 \<le> y" "y < 400" "year_start y \<le> d" "d < year_start (y + 1)"
      by (auto simp: year_start_def)
    with assms(2) show ?thesis by (intro exI [of _ y]) (auto simp: year_end_def)
  qed
qed

lemma year_of_day:
  assumes "0 \<le> d" "d \<le> 146096"
  defines "y \<equiv> year_num d div 365"
  shows "0 \<le> y \<and> y < 400 \<and> year_start y \<le> d \<and> d \<le> year_end y"
proof -
  from year_exists [OF assms(1,2)] obtain z where z: "0 \<le> z" "z < 400" "year_start z \<le> d" "d \<le> year_end z"
    by blast
  note b = year_bound [OF z(1,2)]
  have "year_num (year_start z) \<le> year_num d" "year_num d \<le> year_num (year_end z)"
    using z(3,4) assms(1,2) b(3,4) by (auto intro: year_num_mono)
  with b(1,2) have "365 * z \<le> year_num d" "year_num d < 365 * (z + 1)" by linarith+
  then have "y = z" unfolding y_def by (intro int_div_pos_eq [of _ _ _ "year_num d - 365 * z"]) simp_all
  with z show ?thesis by simp
qed

lemma month_of_day:
  "list_all (\<lambda>doy. let mp = (5 * doy + 2) div 153; d = doy - (153 * mp + 2) div 5 + 1;
                       m = (if mp < 10 then mp + 3 else mp - 9)
     in 1 \<le> m \<and> m \<le> 12 \<and> (m + 9) mod 12 = mp \<and> 1 \<le> d \<and>
        d \<le> (if m = 2 then (if doy = 365 then 29 else 28) else daysIn m 1) \<and> (doy = 365 \<longrightarrow> m = 2))
     [0..365::int]"
  by code_simp

lemma last_day_leap:
  assumes "0 \<le> y" "y < 400" "year_end y - year_start y = 365"
  shows "leap (y + 1 + era * 400)"
proof -
  have "list_all (\<lambda>y. year_end y - year_start y = 365 \<longrightarrow> leap (y + 1)) [0..399::int]" by code_simp
  with assms have "leap (y + 1)" by (auto simp: list_all_iff)
  moreover have "leap (y + 1 + era * 400) = leap (y + 1)"
  proof -
    have "(y + 1 + era * 400) mod 4 = (y + 1) mod 4" "(y + 1 + era * 400) mod 100 = (y + 1) mod 100"
      "(y + 1 + era * 400) mod 400 = (y + 1) mod 400"
      using mod_mult_self1 [of "y + 1" "era * 100" 4] mod_mult_self1 [of "y + 1" "era * 4" 100]
        mod_mult_self1 [of "y + 1" era 400]
      by (simp_all add: algebra_simps)
    then show ?thesis unfolding leap_def by simp
  qed
  ultimately show ?thesis by simp
qed

lemma civil_inverse:
  assumes "civil_of_days n = (y, m, d)"
  shows "days_of_civil y m d = n" "1 \<le> m" "m \<le> 12" "1 \<le> d" "d \<le> daysIn m y"
proof -
  define era doe where "era = (n + 306) div 146097" and "doe = (n + 306) mod 146097"
  define yoe where "yoe = year_num doe div 365"
  define doy where "doy = doe - year_start yoe"
  define mp where "mp = (5 * doy + 2) div 153"
  have doe: "0 \<le> doe" "doe \<le> 146096" by (simp_all add: doe_def)
  from year_of_day [OF this] have yoe: "0 \<le> yoe" "yoe < 400" "year_start yoe \<le> doe" "doe \<le> year_end yoe"
    by (simp_all add: yoe_def)
  from year_bound(5) [OF yoe(1,2)] have doy: "0 \<le> doy" "doy \<le> 365" "doy = 365 \<Longrightarrow> year_end yoe - year_start yoe = 365"
    using yoe(3,4) by (auto simp: doy_def)
  have yoe_eq: "yoe = (doe - doe div 1460 + doe div 36524 - doe div 146096) div 365"
    by (simp add: yoe_def year_num_def)
  have doy_eq: "doy = doe - (365 * yoe + yoe div 4 - yoe div 100)"
    by (simp add: doy_def year_start_def)
  have cv: "civil_of_days n =
      (yoe + era * 400 + (if (if mp < 10 then mp + 3 else mp - 9) \<le> 2 then 1 else 0),
       if mp < 10 then mp + 3 else mp - 9, doy - (153 * mp + 2) div 5 + 1)"
    unfolding civil_of_days_def Let_def era_def [symmetric] doe_def [symmetric] yoe_eq [symmetric]
      doy_eq [symmetric] mp_def [symmetric] by (rule refl)
  from trans [OF assms [symmetric] cv]
  have "y = yoe + era * 400 + (if (if mp < 10 then mp + 3 else mp - 9) \<le> 2 then 1 else 0)"
    and em: "m = (if mp < 10 then mp + 3 else mp - 9)" and ed: "d = doy - (153 * mp + 2) div 5 + 1"
    by (simp_all only: prod.inject)
  then have "y = yoe + era * 400 + (if m \<le> 2 then 1 else 0)" by (simp only:)
  note eqs = ed em this
  have "doy \<in> set [0..365]" using doy(1,2) by simp
  from month_of_day [unfolded list_all_iff, THEN bspec, OF this]
  have ck: "1 \<le> m" "m \<le> 12" "(m + 9) mod 12 = mp" "1 \<le> d"
    "d \<le> (if m = 2 then (if doy = 365 then 29 else 28) else daysIn m 1)" "doy = 365 \<longrightarrow> m = 2"
    unfolding Let_def mp_def [symmetric] em [symmetric] ed [symmetric] by blast+
  have y1: "(if m \<le> 2 then y - 1 else y) = yoe + era * 400" by (simp add: eqs(3))
  have "(yoe + era * 400) div 400 = era" "(yoe + era * 400) mod 400 = yoe" using yoe(1,2) by simp_all
  moreover have "(153 * mp + 2) div 5 + d - 1 = doy" by (simp add: eqs(1))
  ultimately have "days_of_civil y m d = era * 146097 + (year_start yoe + doy) - 306"
    unfolding days_of_civil_def y1 Let_def ck(3) by (simp add: year_start_def)
  also have "\<dots> = n"
    using div_mult_mod_eq [of "n + 306" 146097] by (simp add: doy_def doe_def era_def)
  finally show "days_of_civil y m d = n" .
  show "1 \<le> m" "m \<le> 12" "1 \<le> d" by fact+
  show "d \<le> daysIn m y"
  proof (cases "m = 2")
    case True
    then show ?thesis
      using ck(5) last_day_leap [OF yoe(1,2) doy(3), of era] eqs(3)
      by (cases "doy = 365") (auto simp: daysIn_def algebra_simps)
  next
    case False
    then show ?thesis using ck(5) by (simp add: daysIn_def)
  qed
qed

section \<open>Digits\<close>

lemma isDigit_digit [simp]: "0 \<le> n \<Longrightarrow> n < 10 \<Longrightarrow> isDigit (digit n)"
proof -
  assume "0 \<le> n" "n < 10"
  then have "n \<in> set [0..9]" by simp
  moreover have "list_all (\<lambda>n. isDigit (digit n)) [0..9]" by code_simp
  ultimately show ?thesis by (simp only: list_all_iff)
qed

lemma digit_val_digit [simp]: "0 \<le> n \<Longrightarrow> n < 10 \<Longrightarrow> digit_val (digit n) = n"
  by (simp add: digit_val_def digit_def)

lemma dec_val_snoc [simp]: "dec_val (ds @ [c]) = 10 * dec_val ds + digit_val c"
  by (simp add: dec_val_def)

lemma dec_val_Nil [simp]: "dec_val [] = 0"
  by (simp add: dec_val_def)

lemma pad_one: "0 \<le> n \<Longrightarrow> n < 10 \<Longrightarrow> pad 1 n = [digit n]"
  by (simp add: pad_def digits.simps [of n])

lemma pad_Suc: "0 \<le> n \<Longrightarrow> 1 \<le> k \<Longrightarrow> pad (Suc k) n = pad k (n div 10) @ [digit (n mod 10)]"
proof (cases "n < 10")
  case True
  assume "0 \<le> n" "1 \<le> k"
  then obtain j where "k = Suc j" by (cases k) auto
  moreover have "digit 0 = CHR ''0''" by code_simp
  moreover have "replicate j c @ [c] = c # replicate j c" for c :: char
    by (simp add: replicate_append_same)
  ultimately show ?thesis
    using True \<open>0 \<le> n\<close> by (simp add: pad_def digits.simps [of n] digits.simps [of 0])
qed (simp add: pad_def digits.simps [of n] Let_def)

lemma pad_digits:
  assumes "1 \<le> k" "0 \<le> n" "n < 10 ^ k"
  shows "length (pad k n) = k \<and> list_all isDigit (pad k n) \<and> dec_val (pad k n) = n"
  using assms
proof (induction k arbitrary: n rule: dec_induct)
  case base
  then show ?case by (simp add: pad_one [unfolded One_nat_def] dec_val_def)
next
  case (step k)
  have "n div 10 < 10 ^ k" using step.prems by simp
  with step.IH [of "n div 10"] step.prems pad_Suc [OF step.prems(1) step.hyps(1)] show ?case by simp
qed

lemma getnum2_pad [simp]:
  assumes "0 \<le> n" "n < 100"
  shows "getnum2 (pad 2 n @ s) = Some (n, s)" "getnum (pad 2 n @ s) = Some (n, s)"
proof -
  from pad_digits [of 2 n] assms have p: "length (pad 2 n) = 2" "list_all isDigit (pad 2 n)" "dec_val (pad 2 n) = n"
    by simp_all
  then obtain a b where "pad 2 n = [a, b]" by (auto simp: numeral_2_eq_2 length_Suc_conv)
  with p show "getnum2 (pad 2 n @ s) = Some (n, s)" "getnum (pad 2 n @ s) = Some (n, s)"
    by (simp_all add: dec_val_def)
qed

lemma getyear_pad:
  assumes "0 \<le> n" "n < 10000"
  shows "getyear (pad 4 n @ s) = Some (n, s)"
proof -
  from pad_digits [of 4 n] assms have p: "length (pad 4 n) = 4" "list_all isDigit (pad 4 n)" "dec_val (pad 4 n) = n"
    by simp_all
  then obtain a b c d where "pad 4 n = [a, b, c, d]" by (auto simp: eval_nat_numeral length_Suc_conv)
  with p show ?thesis by simp
qed

lemma dec_val_zeros: "dec_val (ds @ replicate k (CHR ''0'')) = dec_val ds * 10 ^ k"
proof (induction k)
  case (Suc k)
  have z: "digit_val (CHR ''0'') = 0" by code_simp
  have "dec_val ((ds @ replicate k (CHR ''0'')) @ [CHR ''0'']) = 10 * (dec_val ds * 10 ^ k)"
    using Suc by (simp only: dec_val_snoc z)
  then show ?case by (simp add: replicate_append_same [symmetric])
qed simp

lemma strip_right: "\<exists>k. ds = rev (dropWhile (\<lambda>x. x = c) (rev ds)) @ replicate k c"
proof -
  have "takeWhile (\<lambda>x. x = c) (rev ds) = replicate (length (takeWhile (\<lambda>x. x = c) (rev ds))) c"
    by (rule replicate_eqI) (auto dest: set_takeWhileD)
  then have "rev (takeWhile (\<lambda>x. x = c) (rev ds)) = replicate (length (takeWhile (\<lambda>x. x = c) (rev ds))) c"
    by (metis rev_replicate)
  moreover have "ds = rev (dropWhile (\<lambda>x. x = c) (rev ds)) @ rev (takeWhile (\<lambda>x. x = c) (rev ds))"
    by (metis rev_append rev_rev_ident takeWhile_dropWhile_id)
  ultimately show ?thesis by metis
qed

section \<open>Round trip\<close>

lemma take_fraction_show:
  assumes "0 \<le> ns" "ns < 1000000000"
    and "z \<noteq> []" "\<not> isDigit (hd z)" "hd z \<noteq> CHR ''.''" "hd z \<noteq> CHR '',''"
  shows "take_fraction (show_fraction ns @ z) = (ns, z)"
proof (cases "ns = 0")
  case True
  from assms(3) obtain c r where z: "z = c # r" by (cases z) auto
  then have "take_fraction z = (0, z)" using assms(5,6) by (cases r) auto
  then show ?thesis using True by (simp add: show_fraction_def)
next
  case False
  define ds where "ds = rev (dropWhile (\<lambda>x. x = CHR ''0'') (rev (pad 9 ns)))"
  from strip_right [of "pad 9 ns" "CHR ''0''"] obtain k where k: "pad 9 ns = ds @ replicate k (CHR ''0'')"
    by (auto simp: ds_def)
  from pad_digits [of 9 ns] assms(1,2) have p: "length (pad 9 ns) = 9" "list_all isDigit (pad 9 ns)"
    "dec_val (pad 9 ns) = ns" by simp_all
  with k have ds: "list_all isDigit ds" "length ds + k = 9" "dec_val ds * 10 ^ k = ns"
    by (simp_all add: dec_val_zeros)
  with False obtain c r where c: "ds = c # r" by (cases ds) auto
  have "takeWhile isDigit (ds @ z) = ds" "dropWhile isDigit (ds @ z) = z"
    using ds(1) assms(3,4) by (cases z; simp add: list_all_iff takeWhile_append2 dropWhile_append2)+
  moreover have "9 - length ds = k" "take 9 ds = ds" using ds(2) by simp_all
  ultimately have "take_fraction (CHR ''.'' # ds @ z) = (ns, z)"
    using ds by (simp add: c)
  then show ?thesis using False by (simp add: show_fraction_def ds_def)
qed

lemma zone_text_hd:
  "zone_text off \<noteq> [] \<and> \<not> isDigit (hd (zone_text off)) \<and>
   hd (zone_text off) \<noteq> CHR ''.'' \<and> hd (zone_text off) \<noteq> CHR '',''"
  by (simp add: zone_text_def isDigit_def)

lemma take_zone_text:
  assumes "\<bar>off\<bar> div 60 < 24"
  shows "take_zone (zone_text off) = Some (off, [])"
proof -
  have h: "0 \<le> \<bar>off\<bar> div 60" "0 \<le> \<bar>off\<bar> mod 60" "\<bar>off\<bar> mod 60 < 60" by simp_all
  have g: "getnum2 (pad 2 (\<bar>off\<bar> mod 60)) = Some (\<bar>off\<bar> mod 60, [])"
    using getnum2_pad(1) [of "\<bar>off\<bar> mod 60" "[]"] h by simp
  have "\<bar>off\<bar> div 60 * 60 + \<bar>off\<bar> mod 60 = \<bar>off\<bar>" by simp
  with h assms show ?thesis by (auto simp: zone_text_def check_def g)
qed

lemma clock_parts:
  fixes s :: int
  assumes "0 \<le> s" "s < 86400"
  shows "0 \<le> s div 3600" "s div 3600 < 24" "0 \<le> s div 60 mod 60" "s div 60 mod 60 < 60" "0 \<le> s mod 60"
    "s mod 60 < 60" "(s div 3600) * 3600 + (s div 60 mod 60) * 60 + s mod 60 = s"
proof -
  have "s div 3600 = s div 60 div 60" by (simp add: zdiv_zmult2_eq [symmetric])
  then show "(s div 3600) * 3600 + (s div 60 mod 60) * 60 + s mod 60 = s"
    using div_mult_mod_eq [of "s div 60" 60] div_mult_mod_eq [of s 60] by linarith
qed (use assms in auto)

lemma parse_MarshalTime:
  assumes "MarshalTime off t = Some s"
  shows "parse_RFC3339 s = Some t"
proof -
  define lt where "lt = t + zone_ns off"
  obtain y m d where civ: "civil_of_days (lt div day_ns) = (y, m, d)" by (metis prod_cases3)
  define ns sec fr where "ns = lt mod day_ns" and "sec = ns div 1000000000" and "fr = ns mod 1000000000"
  from assms civ have y: "0 \<le> y" "y < 10000" and off: "\<bar>off\<bar> div 60 < 24"
    and s: "s = RFC3339_local lt @ zone_text off"
    by (auto simp: MarshalTime_def Let_def lt_def split: if_splits)
  note cv = civil_inverse [OF civ]
  have "daysIn m y \<le> 31" by (simp add: daysIn_def)
  with cv have d: "0 \<le> d" "d < 100" by linarith+
  have nsb: "0 \<le> ns" "ns < 86400 * 1000000000" by (simp_all add: ns_def day_ns_def)
  then have sec: "0 \<le> sec" "sec < 86400" and fr: "0 \<le> fr" "fr < 1000000000" and nseq: "sec * 1000000000 + fr = ns"
    by (simp_all add: sec_def fr_def)
  define hh mi ss where "hh = sec div 3600" and "mi = sec div 60 mod 60" and "ss = sec mod 60"
  note parts = clock_parts [OF sec, folded hh_def mi_def ss_def]
  have shown: "s = pad 4 y @ CHR ''-'' # pad 2 m @ CHR ''-'' # pad 2 d @ CHR ''T'' #
      pad 2 hh @ CHR '':'' # pad 2 mi @ CHR '':'' # pad 2 ss @ show_fraction fr @ zone_text off"
    using y(1) by (simp add: s RFC3339_local_def civ Let_def show_year_def clock_text_def
        hh_def mi_def ss_def ns_def [symmetric] sec_def [symmetric] fr_def [symmetric])
  have "days_of_civil y m d * day_ns + sec * 1000000000 + fr = lt"
    by (metis add.assoc cv(1) div_mult_mod_eq ns_def nseq)
  then have total: "days_of_civil y m d * day_ns + (hh * 3600 + mi * 60 + ss) * 1000000000 + fr - zone_ns off = t"
    by (simp only: parts(7)) (simp add: lt_def)
  have chk: "check True = Some ()" by (simp add: check_def)
  note frac = take_fraction_show [OF fr, of "zone_text off"] zone_text_hd [of off]
  show ?thesis
    using parts cv(2-5) d frac
    by (simp add: parse_RFC3339_def shown getyear_pad [OF y] take_zone_text [OF off] chk) (use total in simp)
qed

end
