(* ===== verification/Json.thy ===== *)
theory Json
  imports Time_Text
begin

text \<open>
  JSON text as \<^verbatim>\<open>encoding/json\<close> of the standard library writes and reads it: values as trees whose
  strings and numbers keep the bytes of the text, the grammar of the scanner, the escapes of
  \<^verbatim>\<open>Marshal\<close> and their decoding, and the folding of object keys. A string is a list of bytes. The
  main lemma is that the parser inverts the printer, with fuel linear in the length of the text.
\<close>

section \<open>Values and their text\<close>

datatype json =
    J_null
  | J_bool bool
  | J_num string
  | J_str string
  | J_arr "json list"
  | J_obj "(string \<times> json) list"

definition byte :: "char \<Rightarrow> nat" where
  "byte c = of_char c"

definition quote_char :: char where
  "quote_char = char_of (34 :: nat)"

definition backslash :: char where
  "backslash = char_of (92 :: nat)"

fun commas :: "string list \<Rightarrow> string" where
  "commas [] = []"
| "commas [x] = x"
| "commas (x # y # r) = x @ CHR '','' # commas (y # r)"

fun json_text :: "json \<Rightarrow> string" where
  "json_text J_null = ''null''"
| "json_text (J_bool b) = show_bool b"
| "json_text (J_num s) = s"
| "json_text (J_str raw) = quote_char # raw @ [quote_char]"
| "json_text (J_arr vs) = CHR ''['' # commas (map json_text vs) @ '']''"
| "json_text (J_obj ms) =
     CHR ''{'' # commas (map (\<lambda>(k, v). quote_char # k @ [quote_char, CHR '':''] @ json_text v) ms) @ ''}''"

section \<open>Parsing\<close>

definition is_ws :: "char \<Rightarrow> bool" where
  "is_ws c = (byte c \<in> {32, 9, 13, 10})"

definition skip_ws :: "string \<Rightarrow> string" where
  "skip_ws s = dropWhile is_ws s"

definition isHex :: "char \<Rightarrow> bool" where
  "isHex c = (isDigit c \<or> (97 \<le> byte c \<and> byte c \<le> 102) \<or> (65 \<le> byte c \<and> byte c \<le> 70))"

text \<open>The bytes up to the closing quote, with their escapes checked, and what follows it.\<close>

fun lex_string :: "string \<Rightarrow> (string \<times> string) option" where
  "lex_string [] = None"
| "lex_string (c # s) =
     (if c = quote_char then Some ([], s)
      else if byte c < 32 then None
      else if c = backslash then
        (case s of
           e # t \<Rightarrow>
             if e \<in> set ''bfnrt/'' \<union> {backslash, quote_char} then
               map_option (\<lambda>(r, u). (c # e # r, u)) (lex_string t)
             else if e = CHR ''u'' \<and> 4 \<le> length t \<and> list_all isHex (take 4 t) then
               map_option (\<lambda>(r, u). (c # e # take 4 t @ r, u)) (lex_string (drop 4 t))
             else None
         | [] \<Rightarrow> None)
      else map_option (\<lambda>(r, u). (c # r, u)) (lex_string s))"

definition span_digits :: "string \<Rightarrow> (string \<times> string) option" where
  "span_digits s =
     (if s \<noteq> [] \<and> isDigit (hd s) then Some (takeWhile isDigit s, dropWhile isDigit s) else None)"

definition lex_fraction :: "string \<Rightarrow> (string \<times> string) option" where
  "lex_fraction s =
     (case s of
        c # t \<Rightarrow> if c = CHR ''.'' then map_option (\<lambda>(d, u). (c # d, u)) (span_digits t) else Some ([], s)
      | [] \<Rightarrow> Some ([], []))"

definition lex_exponent :: "string \<Rightarrow> (string \<times> string) option" where
  "lex_exponent s =
     (case s of
        c # t \<Rightarrow>
          if c = CHR ''e'' \<or> c = CHR ''E'' then
            (case t of
               g # u \<Rightarrow> if g = CHR ''+'' \<or> g = CHR ''-''
                        then map_option (\<lambda>(d, v). (c # g # d, v)) (span_digits u)
                        else map_option (\<lambda>(d, v). (c # d, v)) (span_digits t)
             | [] \<Rightarrow> None)
          else Some ([], s)
      | [] \<Rightarrow> Some ([], []))"

definition lex_number :: "string \<Rightarrow> (string \<times> string) option" where
  "lex_number s =
     (let sign = takeWhile (\<lambda>c. c = CHR ''-'') (take 1 s); t = drop (length sign) s
      in do {
        (ip, u) \<leftarrow> (if t \<noteq> [] \<and> hd t = CHR ''0'' then Some (''0'', tl t) else span_digits t);
        (fp, u) \<leftarrow> lex_fraction u;
        (ep, u) \<leftarrow> lex_exponent u;
        Some (sign @ ip @ fp @ ep, u)
      })"

definition lex_word :: "string \<Rightarrow> json \<Rightarrow> string \<Rightarrow> (json \<times> string) option" where
  "lex_word w v s = (if take (length w) s = w then Some (v, drop (length w) s) else None)"

fun parse_value :: "nat \<Rightarrow> string \<Rightarrow> (json \<times> string) option"
  and parse_elems :: "nat \<Rightarrow> string \<Rightarrow> (json list \<times> string) option"
  and parse_members :: "nat \<Rightarrow> string \<Rightarrow> ((string \<times> json) list \<times> string) option" where
  "parse_value 0 s = None"
| "parse_value (Suc n) s =
     (case skip_ws s of
        [] \<Rightarrow> None
      | c # r \<Rightarrow>
          if c = CHR ''{'' then
            (case skip_ws r of
               [] \<Rightarrow> None
             | d # t \<Rightarrow> if d = CHR ''}'' then Some (J_obj [], t)
                        else map_option (\<lambda>(ms, u). (J_obj ms, u)) (parse_members n r))
          else if c = CHR ''['' then
            (case skip_ws r of
               [] \<Rightarrow> None
             | d # t \<Rightarrow> if d = CHR '']'' then Some (J_arr [], t)
                        else map_option (\<lambda>(vs, u). (J_arr vs, u)) (parse_elems n r))
          else if c = quote_char then map_option (\<lambda>(raw, t). (J_str raw, t)) (lex_string r)
          else if c = CHR ''t'' then lex_word ''true'' (J_bool True) (c # r)
          else if c = CHR ''f'' then lex_word ''false'' (J_bool False) (c # r)
          else if c = CHR ''n'' then lex_word ''null'' J_null (c # r)
          else map_option (\<lambda>(d, t). (J_num d, t)) (lex_number (c # r)))"
| "parse_elems 0 s = None"
| "parse_elems (Suc n) s =
     (case parse_value n s of
        None \<Rightarrow> None
      | Some (v, t) \<Rightarrow>
          (case skip_ws t of
             [] \<Rightarrow> None
           | d # u \<Rightarrow>
               if d = CHR '','' then map_option (\<lambda>(vs, x). (v # vs, x)) (parse_elems n u)
               else if d = CHR '']'' then Some ([v], u) else None))"
| "parse_members 0 s = None"
| "parse_members (Suc n) s =
     (case skip_ws s of
        [] \<Rightarrow> None
      | q # r \<Rightarrow>
          if q \<noteq> quote_char then None
          else do {
            (k, t) \<leftarrow> lex_string r;
            t \<leftarrow> skip (CHR '':'') (skip_ws t);
            (v, u) \<leftarrow> parse_value n t;
            (case skip_ws u of
               [] \<Rightarrow> None
             | d # x \<Rightarrow>
                 if d = CHR '','' then map_option (\<lambda>(ms, y). ((k, v) # ms, y)) (parse_members n x)
                 else if d = CHR ''}'' then Some ([(k, v)], x) else None)
          })"

definition parse_json :: "string \<Rightarrow> (json \<times> string) option" where
  "parse_json s = parse_value (2 * length s + 1) s"

section \<open>Strings\<close>

text \<open>The length of the UTF-8 sequence a non-empty string starts with, 0 when it is not valid.\<close>

definition cont_byte :: "char \<Rightarrow> bool" where
  "cont_byte c = (128 \<le> byte c \<and> byte c \<le> 191)"

fun utf8_len :: "string \<Rightarrow> nat" where
  "utf8_len [] = 0"
| "utf8_len (a # s) =
     (let x = byte a; in_second = (\<lambda>b. (if x = 224 then 160 else if x = 240 then 144 else 128) \<le> byte b \<and>
                                   byte b \<le> (if x = 237 then 159 else if x = 244 then 143 else 191))
      in if x < 128 then 1
         else if 194 \<le> x \<and> x \<le> 223 then (case s of b # _ \<Rightarrow> if cont_byte b then 2 else 0 | [] \<Rightarrow> 0)
         else if 224 \<le> x \<and> x \<le> 239 then
           (case s of b # c # _ \<Rightarrow> if in_second b \<and> cont_byte c then 3 else 0 | _ \<Rightarrow> 0)
         else if 240 \<le> x \<and> x \<le> 244 then
           (case s of b # c # d # _ \<Rightarrow> if in_second b \<and> cont_byte c \<and> cont_byte d then 4 else 0 | _ \<Rightarrow> 0)
         else 0)"

definition utf8_encode :: "nat \<Rightarrow> string" where
  "utf8_encode n =
     map char_of
       (if n < 128 then [n]
        else if n < 2048 then [192 + n div 64, 128 + n mod 64]
        else if n < 65536 then [224 + n div 4096, 128 + n div 64 mod 64, 128 + n mod 64]
        else [240 + n div 262144, 128 + n div 4096 mod 64, 128 + n div 64 mod 64, 128 + n mod 64])"

definition hex_char :: "nat \<Rightarrow> char" where
  "hex_char n = char_of (if n < 10 then 48 + n else 87 + n)"

text \<open>The body of a quoted string, with HTML characters escaped as \<^verbatim>\<open>Marshal\<close> does.\<close>

definition quote_ascii :: "char \<Rightarrow> string" where
  "quote_ascii c =
     (if c = quote_char \<or> c = backslash then [backslash, c]
      else if byte c = 8 then [backslash, CHR ''b'']
      else if byte c = 12 then [backslash, CHR ''f'']
      else if byte c = 10 then [backslash, CHR ''n'']
      else if byte c = 13 then [backslash, CHR ''r'']
      else if byte c = 9 then [backslash, CHR ''t'']
      else if byte c < 32 \<or> c \<in> set ''<>&'' then
        backslash # ''u00'' @ [hex_char (byte c div 16), hex_char (byte c mod 16)]
      else [c])"

fun json_quote :: "string \<Rightarrow> string" where
  "json_quote [] = []"
| "json_quote (c # s) =
     (if byte c < 128 then quote_ascii c @ json_quote s
      else let n = utf8_len (c # s); seq = take n (c # s)
           in if n = 0 then backslash # ''ufffd'' @ json_quote s
              else (if seq = utf8_encode 8232 then backslash # ''u2028''
                    else if seq = utf8_encode 8233 then backslash # ''u2029''
                    else seq) @ json_quote (drop (n - 1) s))"

definition hex_val :: "char \<Rightarrow> nat" where
  "hex_val c = (if isDigit c then byte c - 48 else if 97 \<le> byte c then byte c - 87 else byte c - 55)"

definition hex4 :: "string \<Rightarrow> nat" where
  "hex4 s = foldl (\<lambda>n c. 16 * n + hex_val c) 0 (take 4 s)"

text \<open>\<^verbatim>\<open>unquote\<close>: lone surrogates and bytes that are not UTF-8 become the replacement character.\<close>

definition escape_char :: "char \<Rightarrow> char" where
  "escape_char e =
     (if e = CHR ''b'' then char_of (8 :: nat) else if e = CHR ''f'' then char_of (12 :: nat)
      else if e = CHR ''n'' then char_of (10 :: nat) else if e = CHR ''r'' then char_of (13 :: nat)
      else if e = CHR ''t'' then char_of (9 :: nat) else e)"

definition second_unit :: "string \<Rightarrow> nat option" where
  "second_unit s =
     (if take 2 s = [backslash, CHR ''u''] \<and> 6 \<le> length s \<and> list_all isHex (take 4 (drop 2 s))
      then Some (hex4 (drop 2 s)) else None)"

fun unquote :: "string \<Rightarrow> string" where
  "unquote [] = []"
| "unquote (c # s) =
     (if c = backslash then
        (case s of
           [] \<Rightarrow> []
         | e # t \<Rightarrow>
             if e = CHR ''u'' then
               let rr = hex4 t
               in if 55296 \<le> rr \<and> rr < 57344 then
                    (case second_unit (drop 4 t) of
                       Some lo \<Rightarrow>
                         if rr < 56320 \<and> 56320 \<le> lo \<and> lo < 57344
                         then utf8_encode (65536 + (rr - 55296) * 1024 + (lo - 56320)) @ unquote (drop 10 t)
                         else utf8_encode 65533 @ unquote (drop 4 t)
                     | None \<Rightarrow> utf8_encode 65533 @ unquote (drop 4 t))
                  else utf8_encode rr @ unquote (drop 4 t)
             else escape_char e # unquote t)
      else if byte c < 128 then c # unquote s
      else let n = utf8_len (c # s)
           in if n = 0 then utf8_encode 65533 @ unquote s
              else take n (c # s) @ unquote (drop (n - 1) s))"

text \<open>
  \<^verbatim>\<open>foldName\<close>, exact for comparing with a name of ASCII letters: two non-ASCII letters fold to ASCII,
  the long s and the Kelvin sign.
\<close>

fun fold_key :: "string \<Rightarrow> string" where
  "fold_key [] = []"
| "fold_key (c # s) =
     (if 97 \<le> byte c \<and> byte c \<le> 122 then char_of (byte c - 32) # fold_key s
      else if take 2 (c # s) = utf8_encode 383 then CHR ''S'' # fold_key (drop 1 s)
      else if take 3 (c # s) = utf8_encode 8490 then CHR ''K'' # fold_key (drop 2 s)
      else c # fold_key s)"

section \<open>The parser inverts the printer\<close>

text \<open>Bytes that are written as they are; trees of such strings and of decimal numbers.\<close>

definition plain :: "char \<Rightarrow> bool" where
  "plain c = (32 \<le> byte c \<and> byte c < 127 \<and> c \<notin> set ''<>&'' \<union> {quote_char, backslash})"

fun json_ok :: "json \<Rightarrow> bool" where
  "json_ok (J_num s) = (s \<noteq> [] \<and> list_all isDigit s \<and> (hd s = CHR ''0'' \<longrightarrow> s = ''0''))"
| "json_ok (J_str raw) = list_all plain raw"
| "json_ok (J_arr vs) = (\<forall>v \<in> set vs. json_ok v)"
| "json_ok (J_obj ms) = (\<forall>(k, v) \<in> set ms. list_all plain k \<and> json_ok v)"
| "json_ok _ = True"

definition follows :: "string \<Rightarrow> bool" where
  "follows rest = (rest = [] \<or> \<not> isDigit (hd rest) \<and> hd rest \<notin> set ''.eE'')"

lemma plain_quote: "list_all plain s \<Longrightarrow> json_quote s = s"
proof (induction s)
  case (Cons c s)
  then have "quote_ascii c = [c]" "byte c < 128" by (auto simp: quote_ascii_def plain_def)
  then show ?case using Cons by simp
qed simp

lemma plain_unquote: "list_all plain s \<Longrightarrow> unquote s = s"
  by (induction s) (auto simp: plain_def)

lemma plain_lex: "list_all plain s \<Longrightarrow> lex_string (s @ quote_char # rest) = Some (s, rest)"
  by (induction s) (auto simp: plain_def)

lemma mark_chars [simp]:
  "is_ws quote_char = False" "quote_char \<noteq> CHR ''{''" "quote_char \<noteq> CHR ''[''" "quote_char \<noteq> CHR '']''"
  "is_ws (CHR ''{'') = False" "is_ws (CHR ''['') = False" "is_ws (CHR ''}'') = False"
  "is_ws (CHR '']'') = False" "is_ws (CHR '','') = False" "is_ws (CHR '':'') = False"
  "CHR ''}'' \<noteq> quote_char" "quote_char \<noteq> CHR ''}''"
  "CHR ''n'' \<noteq> quote_char" "CHR ''t'' \<noteq> quote_char" "CHR ''f'' \<noteq> quote_char"
  "is_ws (CHR ''n'') = False" "is_ws (CHR ''t'') = False" "is_ws (CHR ''f'') = False"
  by code_simp+

lemma skip_ws_Cons [simp]: "\<not> is_ws c \<Longrightarrow> skip_ws (c # r) = c # r"
  by (simp add: skip_ws_def)

lemma follows_mark [simp]: "follows (CHR '','' # r)" "follows (CHR '']'' # r)" "follows (CHR ''}'' # r)"
  by (simp_all add: follows_def isDigit_def)

lemma digit_not_mark:
  assumes "isDigit c"
  shows "\<not> is_ws c" "c \<noteq> CHR ''{''" "c \<noteq> CHR ''[''" "c \<noteq> CHR '']''" "c \<noteq> quote_char"
    "c \<noteq> CHR ''t''" "c \<noteq> CHR ''f''" "c \<noteq> CHR ''n''" "c \<noteq> CHR ''-''"
  using assms by (auto simp: isDigit_def is_ws_def byte_def quote_char_def)

lemma json_text_hd:
  assumes "json_ok j"
  shows "\<exists>c r. json_text j = c # r \<and> \<not> is_ws c \<and> c \<noteq> CHR '']''"
proof (cases j)
  case (J_num s)
  with assms show ?thesis by (cases s) (auto simp: digit_not_mark)
qed (auto simp: show_bool_def)

lemma lex_number_digits:
  assumes "s \<noteq> []" "list_all isDigit s" "hd s = CHR ''0'' \<longrightarrow> s = ''0''" "follows rest"
  shows "lex_number (s @ rest) = Some (s, rest)"
proof -
  from assms(1) obtain c r where s: "s = c # r" by (cases s) auto
  with assms(2) have c: "isDigit c" by simp
  have f: "lex_fraction rest = Some ([], rest)" "lex_exponent rest = Some ([], rest)"
    using assms(4) by (auto simp: follows_def lex_fraction_def lex_exponent_def split: list.splits)
  have "takeWhile isDigit (s @ rest) = s" "dropWhile isDigit (s @ rest) = rest"
    using assms(2,4) by (cases rest; simp add: follows_def list_all_iff takeWhile_append2 dropWhile_append2)+
  then have "span_digits (s @ rest) = Some (s, rest)" by (simp add: span_digits_def s c)
  then show ?thesis
    using digit_not_mark(9) [OF c] assms(3) f by (auto simp: lex_number_def s Let_def)
qed

lemma parse_elems_commas:
  assumes "\<And>v rest n. v \<in> set vs \<Longrightarrow> follows rest \<Longrightarrow> 2 * length (json_text v) < n \<Longrightarrow>
      parse_value n (json_text v @ rest) = Some (v, rest)"
    and "vs \<noteq> []" "2 * length (commas (map json_text vs)) + 1 < n"
  shows "parse_elems n (commas (map json_text vs) @ CHR '']'' # rest) = Some (vs, rest)"
  using assms
proof (induction vs arbitrary: n)
  case (Cons v vs)
  from Cons.prems(3) obtain k where n: "n = Suc k" by (cases n) auto
  show ?case
  proof (cases vs)
    case Nil
    then show ?thesis using Cons.prems(3) Cons.prems(1) [of v "CHR '']'' # rest" k] by (simp add: n)
  next
    case (Cons w ws)
    then have "parse_elems k (commas (map json_text vs) @ CHR '']'' # rest) = Some (vs, rest)"
      using Cons.prems(3) by (intro Cons.IH [OF Cons.prems(1)]) (auto simp: n)
    then show ?thesis
      using Cons.prems(3) Cons.prems(1) [of v "CHR '','' # commas (map json_text vs) @ CHR '']'' # rest" k]
      by (simp add: n Cons)
  qed
qed simp

definition member_text :: "string \<times> json \<Rightarrow> string" where
  "member_text = (\<lambda>(k, v). quote_char # k @ [quote_char, CHR '':''] @ json_text v)"

lemma parse_members_commas:
  assumes "\<And>k v rest n. (k, v) \<in> set ms \<Longrightarrow> follows rest \<Longrightarrow> 2 * length (json_text v) < n \<Longrightarrow>
      list_all plain k \<and> parse_value n (json_text v @ rest) = Some (v, rest)"
    and "ms \<noteq> []" "2 * length (commas (map member_text ms)) + 1 < n"
  shows "parse_members n (commas (map member_text ms) @ CHR ''}'' # rest) = Some (ms, rest)"
  using assms
proof (induction ms arbitrary: n)
  case (Cons m ms)
  obtain key v where m: "m = (key, v)" by force
  from Cons.prems(3) obtain j where n: "n = Suc j" by (cases n) auto
  show ?case
  proof (cases ms)
    case Nil
    then show ?thesis
      using Cons.prems(3) Cons.prems(1) [of key v "CHR ''}'' # rest" j]
      by (simp add: n m member_text_def plain_lex)
  next
    case (Cons w ws)
    then have "parse_members j (commas (map member_text ms) @ CHR ''}'' # rest) = Some (ms, rest)"
      using Cons.prems(3) by (intro Cons.IH [OF Cons.prems(1)]) (auto simp: n)
    then show ?thesis
      using Cons.prems(3) Cons.prems(1) [of key v "CHR '','' # commas (map member_text ms) @ CHR ''}'' # rest" j]
      by (simp add: n m Cons member_text_def plain_lex)
  qed
qed simp

lemma commas_hd: "vs \<noteq> [] \<Longrightarrow> \<exists>t. commas (map f vs) = f (hd vs) @ t"
  by (cases vs; cases "tl vs") auto

lemma parse_value_text:
  assumes "json_ok j" "follows rest" "2 * length (json_text j) < n"
  shows "parse_value n (json_text j @ rest) = Some (j, rest)"
  using assms
proof (induction j arbitrary: rest n)
  case (J_num s)
  from J_num.prems(3) obtain k where n: "n = Suc k" by (cases n) auto
  from J_num.prems(1) obtain c r where s: "s = c # r" "isDigit c" by (cases s) auto
  from lex_number_digits [of s rest] J_num.prems show ?case
    using digit_not_mark [OF s(2)] by (simp add: n s)
next
  case (J_arr vs)
  from J_arr.prems(3) obtain k where n: "n = Suc k" by (cases n) auto
  show ?case
  proof (cases "vs = []")
    case False
    have e: "parse_elems k (commas (map json_text vs) @ CHR '']'' # rest) = Some (vs, rest)"
      using J_arr.prems False by (intro parse_elems_commas J_arr.IH) (auto simp: n)
    from json_text_hd [of "hd vs"] J_arr.prems(1) False obtain c r where
      c: "json_text (hd vs) = c # r" "\<not> is_ws c" "c \<noteq> CHR '']''" by auto
    with commas_hd [OF False, of json_text] obtain t where t: "commas (map json_text vs) = c # t" by auto
    show ?thesis using e c by (simp add: n t)
  qed (simp add: n)
next
  case (J_obj ms)
  from J_obj.prems(3) obtain k where n: "n = Suc k" by (cases n) auto
  have mt: "json_text (J_obj ms) = CHR ''{'' # commas (map member_text ms) @ ''}''"
    by (simp add: member_text_def)
  show ?case
  proof (cases "ms = []")
    case False
    have e: "parse_members k (commas (map member_text ms) @ CHR ''}'' # rest) = Some (ms, rest)"
    proof (rule parse_members_commas)
      fix key v rest' n'
      assume "(key, v) \<in> set ms" "follows rest'" "2 * length (json_text v) < n'"
      then show "list_all plain key \<and> parse_value n' (json_text v @ rest') = Some (v, rest')"
        using J_obj.prems(1) J_obj.IH [of "(key, v)" v] by auto
    qed (use J_obj.prems(3) [unfolded mt n] False in auto)
    from commas_hd [OF False, of member_text] obtain t where t: "commas (map member_text ms) = quote_char # t"
      by (auto simp: member_text_def split: prod.splits)
    show ?thesis using e unfolding mt by (simp add: n t)
  qed (simp add: n)
next
  case (J_str raw)
  then obtain k where n: "n = Suc k" by (cases n) auto
  from J_str show ?case by (simp add: n plain_lex)
qed (auto simp: gr0_conv_Suc show_bool_def lex_word_def dest!: gr_implies_not0 not0_implies_Suc)

lemma parse_json_text:
  assumes "json_ok j" "follows rest"
  shows "parse_json (json_text j @ rest) = Some (j, rest)"
  unfolding parse_json_def using assms by (intro parse_value_text) auto

section \<open>The fuel is enough\<close>

lemma skip_ws_shorter: "skip_ws s = c # r \<Longrightarrow> length r < length s"
  using length_dropWhile_le [of is_ws s] by (simp add: skip_ws_def)

lemma lex_string_shorter: "lex_string s = Some (r, t) \<Longrightarrow> length t < length s"
proof (induction "length s" arbitrary: s r t rule: less_induct)
  case less
  then obtain c u where s: "s = c # u" by (cases s) auto
  have IH: "\<And>x r t. length x \<le> length u \<Longrightarrow> lex_string x = Some (r, t) \<Longrightarrow> length t < length x"
    using less.hyps s by simp
  show ?case
    using less.prems s IH [of u]
    by (auto split: if_splits list.splits dest!: IH [rotated])
qed

lemma span_digits_shorter: "span_digits s = Some (d, t) \<Longrightarrow> length t < length s"
  by (cases s) (auto simp: span_digits_def le_imp_less_Suc length_dropWhile_le split: if_splits)

lemma lex_fraction_le: "lex_fraction s = Some (d, t) \<Longrightarrow> length t \<le> length s"
  by (auto simp: lex_fraction_def split: list.splits if_splits dest!: span_digits_shorter)

lemma lex_exponent_le: "lex_exponent s = Some (d, t) \<Longrightarrow> length t \<le> length s"
  by (auto simp: lex_exponent_def split: list.splits if_splits dest!: span_digits_shorter)

lemma lex_number_shorter:
  assumes "lex_number s = Some (d, t)"
  shows "length t < length s"
proof -
  define u where "u = drop (length (takeWhile (\<lambda>c. c = CHR ''-'') (take 1 s))) s"
  have u: "length u \<le> length s" by (simp add: u_def)
  from assms obtain ip x fp y ep where
    x: "(if u \<noteq> [] \<and> hd u = CHR ''0'' then Some (''0'', tl u) else span_digits u) = Some (ip, x)"
    and y: "lex_fraction x = Some (fp, y)" "lex_exponent y = Some (ep, t)"
    unfolding lex_number_def Let_def u_def [symmetric] by (auto split: bind_splits)
  from x have "length x < length u"
    by (cases u) (auto split: if_splits dest: span_digits_shorter)
  with lex_fraction_le [OF y(1)] lex_exponent_le [OF y(2)] u show ?thesis by linarith
qed

lemma lex_word_le: "lex_word w v (c # r) = Some (x, t) \<Longrightarrow> w \<noteq> [] \<Longrightarrow> length t \<le> length r"
  by (cases w) (auto simp: lex_word_def split: if_splits)

lemma skip_shorter: "skip c s = Some t \<Longrightarrow> length t < length s"
  by (cases s) (auto split: if_splits)

lemma skip_ws_le: "length (skip_ws s) \<le> length s"
  by (simp add: skip_ws_def length_dropWhile_le)

definition shortens :: "nat \<Rightarrow> bool" where
  "shortens n =
     ((\<forall>s v t. parse_value n s = Some (v, t) \<longrightarrow> length t < length s) \<and>
      (\<forall>s v t. parse_elems n s = Some (v, t) \<longrightarrow> length t < length s) \<and>
      (\<forall>s v t. parse_members n s = Some (v, t) \<longrightarrow> length t < length s))"

lemma shortensD:
  assumes "shortens n"
  shows "parse_value n s = Some (v, t) \<Longrightarrow> length t < length s"
    "parse_elems n s = Some (vs, t) \<Longrightarrow> length t < length s"
    "parse_members n s = Some (ms, t) \<Longrightarrow> length t < length s"
  using assms by (auto simp: shortens_def)

lemma parse_shortens: "shortens n"
proof (induction n)
  case (Suc n)
  note IH = shortensD [OF Suc]
  have "length t < length s" if p: "parse_value (Suc n) s = Some (v, t)" for s v t
  proof -
    from p obtain c r where sk: "skip_ws s = c # r" by (auto split: list.splits)
    have "length t \<le> length r"
      using p unfolding parse_value.simps sk list.case
      by (auto simp del: parse_value.simps parse_elems.simps parse_members.simps
          split: if_splits list.splits
          dest!: skip_ws_shorter IH lex_string_shorter lex_number_shorter lex_word_le)
    with skip_ws_shorter [OF sk] show ?thesis by linarith
  qed
  moreover have "length t < length s" if p: "parse_elems (Suc n) s = Some (v, t)" for s v t
    using p unfolding parse_elems.simps
    by (auto simp del: parse_value.simps parse_elems.simps parse_members.simps
        split: if_splits list.splits option.splits dest!: skip_ws_shorter IH)
  moreover have "length t < length s" if p: "parse_members (Suc n) s = Some (v, t)" for s v t
  proof -
    from p obtain q r where sk: "skip_ws s = q # r" by (auto split: list.splits)
    from p obtain k x y w u where l: "lex_string r = Some (k, x)" "skip (CHR '':'') (skip_ws x) = Some y"
      "parse_value n y = Some (w, u)" by (auto simp: sk split: if_splits bind_splits)
    have "length t < length u"
      using p l unfolding parse_members.simps sk list.case
      by (auto simp del: parse_value.simps parse_elems.simps parse_members.simps
          split: if_splits list.splits option.splits dest!: skip_ws_shorter IH(3))
    with l skip_ws_shorter [OF sk] lex_string_shorter [OF l(1)] skip_shorter [OF l(2)] skip_ws_le [of x] IH(1) [OF l(3)]
    show ?thesis by linarith
  qed
  ultimately show ?case by (auto simp: shortens_def)
qed (simp add: shortens_def)

definition stable :: "nat \<Rightarrow> bool" where
  "stable n =
     ((\<forall>s. 2 * length s < n \<longrightarrow> parse_value (Suc n) s = parse_value n s) \<and>
      (\<forall>s. 2 * length s + 1 < n \<longrightarrow> parse_elems (Suc n) s = parse_elems n s) \<and>
      (\<forall>s. 2 * length s + 1 < n \<longrightarrow> parse_members (Suc n) s = parse_members n s))"

lemma parse_stable: "stable n"
proof (induction n)
  case (Suc n)
  then have IH: "2 * length s < n \<Longrightarrow> parse_value (Suc n) s = parse_value n s"
    "2 * length s + 1 < n \<Longrightarrow> parse_elems (Suc n) s = parse_elems n s"
    "2 * length s + 1 < n \<Longrightarrow> parse_members (Suc n) s = parse_members n s" for s
    by (simp_all add: stable_def)
  note once = parse_value.simps(2) parse_elems.simps(2) parse_members.simps(2)
  have "parse_value (Suc (Suc n)) s = parse_value (Suc n) s" if "2 * length s < Suc n" for s
  proof (cases "skip_ws s")
    case (Cons c r)
    with skip_ws_shorter [OF Cons] that IH(2,3) [of r] show ?thesis
      unfolding once(1) [of "Suc n"] once(1) [of n] by (simp del: once split: list.split)
  qed (simp add: once(1))
  moreover have "parse_elems (Suc (Suc n)) s = parse_elems (Suc n) s" if "2 * length s + 1 < Suc n" for s
  proof (cases "parse_value n s")
    case (Some p)
    obtain v t where p: "p = (v, t)" by force
    note shorter = shortensD(1) [OF parse_shortens Some [unfolded p]]
    show ?thesis
    proof (cases "skip_ws t")
      case (Cons d u)
      have "parse_elems (Suc n) u = parse_elems n u"
        using skip_ws_shorter [OF Cons] shorter that by (intro IH(2)) linarith
      then show ?thesis using IH(1) [of s] that Some p Cons
        unfolding once(2) [of "Suc n"] once(2) [of n] by (simp del: once)
    qed (use IH(1) [of s] that Some p in \<open>simp add: once(2) del: once(1)\<close>)
  qed (use IH(1) [of s] that in \<open>simp del: once(1)\<close>)
  moreover have "parse_members (Suc (Suc n)) s = parse_members (Suc n) s" if "2 * length s + 1 < Suc n" for s
  proof (cases "skip_ws s")
    case (Cons q r)
    have "parse_value (Suc n) y = parse_value n y \<and>
        (parse_value n y = Some (w, u) \<longrightarrow> skip_ws u = d # z \<longrightarrow> parse_members (Suc n) z = parse_members n z)"
      if l: "lex_string r = Some (k, x)" "skip (CHR '':'') (skip_ws x) = Some y" for k x y w u d z
    proof -
      have "length y < length r" using lex_string_shorter [OF l(1)] skip_shorter [OF l(2)] skip_ws_le [of x]
        by linarith
      with skip_ws_shorter [OF Cons] \<open>2 * length s + 1 < Suc n\<close> have y: "2 * length y + 2 < n" by linarith
      then show ?thesis
        using IH(1) [of y] IH(3) [of z] shortensD(1) [OF parse_shortens] skip_ws_shorter by fastforce
    qed
    then show ?thesis
      unfolding once(3) [of "Suc n"] once(3) [of n]
      by (auto simp del: once simp: Cons split: bind_split option.splits list.splits)
  qed (simp add: once(3))
  ultimately show ?case by (simp add: stable_def)
qed (simp add: stable_def)

lemma parse_json_fuel:
  assumes "2 * length s < n"
  shows "parse_value n s = parse_json s"
proof -
  from assms have "2 * length s + 1 \<le> n" by simp
  then show ?thesis
  proof (induction n rule: dec_induct)
    case (step n)
    then show ?case using parse_stable [of n] by (simp add: stable_def del: parse_value.simps)
  qed (simp add: parse_json_def)
qed

end
