(* ===== verification/Privacy_Document.thy ===== *)
theory Privacy_Document
  imports Privacy Json
begin

text \<open>
  The privacy document of \<^verbatim>\<open>adapters/storage/privacyfile/repository.go\<close>: \<^verbatim>\<open>encodeDocument\<close> and
  \<^verbatim>\<open>decodeDocument\<close> over the JSON text of \<^verbatim>\<open>Json\<close>. \<open>zone\<close> is the offset, in minutes, with which an
  instant is written. Decoding into the Go structures is modelled with its details: keys are matched
  exactly or folded, unknown keys are refused, null leaves a field alone, a repeated key is decoded
  over the earlier value, and array elements are decoded over what the slice held. Every scanner
  or type error makes \<^verbatim>\<open>Decode\<close> return an error; the text of that error is not modelled.
\<close>

section \<open>Documents\<close>

record grantDocument =
  gd_Permission :: string
  gd_Enabled :: bool
  gd_UpdatedAt :: time

record document =
  doc_SchemaVersion :: string
  doc_Revision :: "64 word"
  doc_Grants :: "grantDocument list"

definition schemaVersion :: string where
  "schemaVersion = ''v1''"

fun Permission_string :: "Permission \<Rightarrow> string" where
  "Permission_string CameraCapture = ''CAMERA_CAPTURE''"
| "Permission_string MicrophoneCapture = ''MICROPHONE_CAPTURE''"
| "Permission_string FaceDetection = ''FACE_DETECTION''"
| "Permission_string FaceIdentification = ''FACE_IDENTIFICATION''"
| "Permission_string FaceLiveness = ''FACE_LIVENESS''"
| "Permission_string SpeakerIdentification = ''SPEAKER_IDENTIFICATION''"
| "Permission_string SpeakerVerification = ''SPEAKER_VERIFICATION''"
| "Permission_string SpeechTranscription = ''SPEECH_TRANSCRIPTION''"
| "Permission_string (OtherPermission s) = s"

definition Permission_of :: "string \<Rightarrow> Permission" where
  "Permission_of s =
     (case find (\<lambda>p. Permission_string p = s) permissionOrder of
        Some p \<Rightarrow> p
      | None \<Rightarrow> OtherPermission s)"

section \<open>Encoding\<close>

definition quoted :: "string \<Rightarrow> json" where
  "quoted s = J_str (json_quote s)"

definition marshal_grant :: "(time \<Rightarrow> int) \<Rightarrow> grantDocument \<Rightarrow> json option" where
  "marshal_grant zone g =
     (case MarshalTime (zone (gd_UpdatedAt g)) (gd_UpdatedAt g) of
        None \<Rightarrow> None
      | Some t \<Rightarrow>
          Some (J_obj [(''permission'', quoted (gd_Permission g)),
                       (''enabled'', J_bool (gd_Enabled g)),
                       (''updated_at'', J_str t)]))"

fun marshal_grants :: "(time \<Rightarrow> int) \<Rightarrow> grantDocument list \<Rightarrow> json list option" where
  "marshal_grants zone [] = Some []"
| "marshal_grants zone (g # gs) =
     (case marshal_grant zone g of
        None \<Rightarrow> None
      | Some j \<Rightarrow> map_option (\<lambda>js. j # js) (marshal_grants zone gs))"

definition marshal_document :: "(time \<Rightarrow> int) \<Rightarrow> document \<Rightarrow> json option" where
  "marshal_document zone doc =
     map_option (\<lambda>gs. J_obj [(''schema_version'', quoted (doc_SchemaVersion doc)),
                             (''revision'', J_num (show_dec (uint (doc_Revision doc)))),
                             (''grants'', J_arr gs)])
       (marshal_grants zone (doc_Grants doc))"

definition encodeDocument :: "(time \<Rightarrow> int) \<Rightarrow> privacy_Snapshot \<Rightarrow> goerror + string" where
  "encodeDocument zone snapshot =
     (let doc = \<lparr>doc_SchemaVersion = schemaVersion,
                 doc_Revision = ps_Revision snapshot,
                 doc_Grants = map (\<lambda>g. \<lparr>gd_Permission = Permission_string (gr_Permission g),
                                       gd_Enabled = gr_Enabled g,
                                       gd_UpdatedAt = gr_UpdatedAt g\<rparr>) (ps_Grants snapshot)\<rparr>
      in case marshal_document zone doc of
           None \<Rightarrow> Inl (Wrapf ''encode versioned privacy document'' (Leaf ''json: error calling MarshalJSON''))
         | Some j \<Rightarrow> Inr (json_text j @ [CHR 0x0A]))"

section \<open>Decoding\<close>

definition match_field :: "string list \<Rightarrow> string \<Rightarrow> string option" where
  "match_field names raw =
     (let key = unquote raw
      in if key \<in> set names then Some key else find (\<lambda>n. fold_key n = fold_key key) names)"

definition decode_string :: "string \<Rightarrow> json \<Rightarrow> string option" where
  "decode_string old j = (case j of J_str raw \<Rightarrow> Some (unquote raw) | J_null \<Rightarrow> Some old | _ \<Rightarrow> None)"

definition decode_bool :: "bool \<Rightarrow> json \<Rightarrow> bool option" where
  "decode_bool old j = (case j of J_bool b \<Rightarrow> Some b | J_null \<Rightarrow> Some old | _ \<Rightarrow> None)"

definition decode_uint64 :: "64 word \<Rightarrow> json \<Rightarrow> 64 word option" where
  "decode_uint64 old j =
     (case j of
        J_num s \<Rightarrow> if list_all isDigit s \<and> dec_val s < 2 ^ 64 then Some (word_of_int (dec_val s)) else None
      | J_null \<Rightarrow> Some old
      | _ \<Rightarrow> None)"

definition decode_time :: "time \<Rightarrow> json \<Rightarrow> time option" where
  "decode_time old j = (case j of J_str raw \<Rightarrow> parse_RFC3339 raw | J_null \<Rightarrow> Some old | _ \<Rightarrow> None)"

definition grant_names :: "string list" where
  "grant_names = [''permission'', ''enabled'', ''updated_at'']"

fun decode_grant_fields :: "(string \<times> json) list \<Rightarrow> grantDocument \<Rightarrow> grantDocument option" where
  "decode_grant_fields [] g = Some g"
| "decode_grant_fields ((raw, j) # ms) g =
     (case match_field grant_names raw of
        None \<Rightarrow> None
      | Some f \<Rightarrow>
          (case (if f = ''permission'' then map_option (\<lambda>v. g\<lparr>gd_Permission := v\<rparr>) (decode_string (gd_Permission g) j)
                 else if f = ''enabled'' then map_option (\<lambda>v. g\<lparr>gd_Enabled := v\<rparr>) (decode_bool (gd_Enabled g) j)
                 else map_option (\<lambda>v. g\<lparr>gd_UpdatedAt := v\<rparr>) (decode_time (gd_UpdatedAt g) j)) of
             None \<Rightarrow> None
           | Some g' \<Rightarrow> decode_grant_fields ms g'))"

definition decode_grant :: "grantDocument \<Rightarrow> json \<Rightarrow> grantDocument option" where
  "decode_grant old j =
     (case j of J_obj ms \<Rightarrow> decode_grant_fields ms old | J_null \<Rightarrow> Some old | _ \<Rightarrow> None)"

definition zero_grant :: grantDocument where
  "zero_grant = \<lparr>gd_Permission = [], gd_Enabled = False, gd_UpdatedAt = 0\<rparr>"

text \<open>Elements are decoded over those of the backing array.\<close>

fun decode_elements :: "json list \<Rightarrow> grantDocument list \<Rightarrow> grantDocument list option" where
  "decode_elements [] backing = Some backing"
| "decode_elements (j # js) backing =
     (case decode_grant (case backing of [] \<Rightarrow> zero_grant | g # _ \<Rightarrow> g) j of
        None \<Rightarrow> None
      | Some g \<Rightarrow> map_option (\<lambda>gs. g # gs) (decode_elements js (tl backing)))"

text \<open>A document being decoded: the slice of grants is its backing array and its length.\<close>

record decoding =
  dg_SchemaVersion :: string
  dg_Revision :: "64 word"
  dg_backing :: "grantDocument list"
  dg_len :: nat

definition decode_slice :: "json \<Rightarrow> decoding \<Rightarrow> decoding option" where
  "decode_slice j d =
     (case j of
        J_arr js \<Rightarrow>
          if js = [] then Some (d\<lparr>dg_backing := [], dg_len := 0\<rparr>)
          else map_option (\<lambda>b. d\<lparr>dg_backing := b, dg_len := length js\<rparr>) (decode_elements js (dg_backing d))
      | J_null \<Rightarrow> Some (d\<lparr>dg_backing := [], dg_len := 0\<rparr>)
      | _ \<Rightarrow> None)"

definition document_names :: "string list" where
  "document_names = [''schema_version'', ''revision'', ''grants'']"

fun decode_fields :: "(string \<times> json) list \<Rightarrow> decoding \<Rightarrow> decoding option" where
  "decode_fields [] d = Some d"
| "decode_fields ((raw, j) # ms) d =
     (case match_field document_names raw of
        None \<Rightarrow> None
      | Some f \<Rightarrow>
          (case (if f = ''schema_version''
                 then map_option (\<lambda>v. d\<lparr>dg_SchemaVersion := v\<rparr>) (decode_string (dg_SchemaVersion d) j)
                 else if f = ''revision''
                 then map_option (\<lambda>v. d\<lparr>dg_Revision := v\<rparr>) (decode_uint64 (dg_Revision d) j)
                 else decode_slice j d) of
             None \<Rightarrow> None
           | Some d' \<Rightarrow> decode_fields ms d'))"

definition unmarshal_document :: "json \<Rightarrow> document option" where
  "unmarshal_document j =
     (let zero = \<lparr>dg_SchemaVersion = [], dg_Revision = 0, dg_backing = [], dg_len = 0\<rparr>
      in map_option (\<lambda>d. \<lparr>doc_SchemaVersion = dg_SchemaVersion d, doc_Revision = dg_Revision d,
                          doc_Grants = take (dg_len d) (dg_backing d)\<rparr>)
           (case j of J_obj ms \<Rightarrow> decode_fields ms zero | J_null \<Rightarrow> Some zero | _ \<Rightarrow> None))"

definition decodeDocument :: "string \<Rightarrow> goerror + privacy_Snapshot" where
  "decodeDocument encoded =
     (case Option.bind (parse_json encoded) (\<lambda>(j, rest). map_option (\<lambda>doc. (doc, rest)) (unmarshal_document j)) of
        None \<Rightarrow> Inl (Wrapf ''decode versioned privacy document'' (Leaf ''json''))
      | Some (doc, rest) \<Rightarrow>
          if skip_ws rest \<noteq> [] then
            Inl (Wrapf ''reject trailing privacy document'' (Leaf ''multiple JSON documents are not allowed''))
          else if doc_SchemaVersion doc \<noteq> schemaVersion then Inl (Leaf ''unsupported privacy schema %q'')
          else Inr \<lparr>ps_Revision = doc_Revision doc,
                    ps_Grants = map (\<lambda>g. \<lparr>gr_Permission = Permission_of (gd_Permission g),
                                          gr_Enabled = gd_Enabled g,
                                          gr_UpdatedAt = gd_UpdatedAt g\<rparr>) (doc_Grants doc)\<rparr>)"

section \<open>Round trip\<close>

lemma isDigit_plain: "isDigit c \<Longrightarrow> plain c"
  by (auto simp: isDigit_def plain_def byte_def quote_char_def backslash_def)

lemma list_isDigit_plain: "list_all isDigit s \<Longrightarrow> list_all plain s"
  by (auto simp: list_all_iff isDigit_plain)

lemma digits_isDigit: "0 \<le> n \<Longrightarrow> list_all isDigit (digits n)"
  by (induction n rule: digits.induct) (subst digits.simps, simp)

lemma dec_val_digits: "0 \<le> n \<Longrightarrow> dec_val (digits n) = n"
  by (induction n rule: digits.induct) (subst digits.simps, auto simp: dec_val_def)

lemma digits_no_zero: "0 < n \<Longrightarrow> hd (digits n) \<noteq> CHR ''0''"
proof (induction n rule: digits.induct)
  case (1 n)
  show ?case
  proof (cases "n < 10")
    case True
    have "digit 0 = CHR ''0''" by code_simp
    with True 1 digit_inject [of n 0] show ?thesis by (auto simp: digits.simps [of n])
  next
    case False
    with 1 show ?thesis by (auto simp: digits.simps [of n])
  qed
qed

lemma digits_zero: "digits 0 = ''0''"
  by code_simp

lemma pad_plain [simp]: "0 \<le> n \<Longrightarrow> list_all plain (pad k n)"
proof (rule list_isDigit_plain)
  assume "0 \<le> n"
  moreover have "isDigit (CHR ''0'')" by (simp add: isDigit_def)
  ultimately show "list_all isDigit (pad k n)"
    using digits_isDigit [of n] by (auto simp: pad_def Let_def list_all_iff)
qed

lemma list_all_strip: "list_all P s \<Longrightarrow> list_all P (dropWhile Q (rev s))"
  by (auto simp: list_all_iff dest: set_dropWhileD)

lemma time_plain:
  assumes "MarshalTime off t = Some s"
  shows "list_all plain s"
proof -
  have c: "list_all plain ''-:T.Z+''" by code_simp
  then have c: "plain (CHR ''-'')" "plain (CHR '':'')" "plain (CHR ''T'')" "plain (CHR ''.'')" "plain (CHR ''Z'')"
    "plain (CHR ''+'')" by simp_all
  define lt where "lt = t + zone_ns off"
  obtain y m d where civ: "civil_of_days (lt div day_ns) = (y, m, d)" by (metis prod_cases3)
  from assms civ have y: "0 \<le> y" and s: "s = RFC3339_local lt @ zone_text off"
    by (auto simp: MarshalTime_def Let_def lt_def split: if_splits)
  define ns where "ns = lt mod day_ns"
  have ns: "0 \<le> ns" by (simp add: ns_def day_ns_def)
  then have "0 \<le> ns div 1000000000" by simp
  then have "list_all plain (clock_text (ns div 1000000000))"
    by (simp add: clock_text_def c)
  moreover have "list_all plain (show_fraction (ns mod 1000000000))"
    by (simp add: show_fraction_def c list_all_strip)
  moreover have "list_all plain (zone_text off)" by (simp add: zone_text_def c)
  moreover have "list_all plain (pad 2 m)" "list_all plain (pad 2 d)"
    using civil_inverse(2,4) [OF civ] by (simp_all add: pad_plain)
  ultimately show ?thesis
    using y by (simp add: s RFC3339_local_def Let_def civ show_year_def c ns_def [symmetric])
qed

lemma Permission_string_plain: "validPermission p \<Longrightarrow> list_all plain (Permission_string p)"
proof -
  have "list_all (\<lambda>p. list_all plain (Permission_string p)) permissionOrder" by code_simp
  then show "validPermission p \<Longrightarrow> list_all plain (Permission_string p)"
    by (simp add: validPermission_iff list_all_iff)
qed

lemma Permission_of_string: "validPermission p \<Longrightarrow> Permission_of (Permission_string p) = p"
proof -
  have "list_all (\<lambda>p. Permission_of (Permission_string p) = p) permissionOrder" by code_simp
  then show "validPermission p \<Longrightarrow> Permission_of (Permission_string p) = p"
    by (simp add: validPermission_iff list_all_iff)
qed

lemma field_names:
  "match_field grant_names ''permission'' = Some ''permission''"
  "match_field grant_names ''enabled'' = Some ''enabled''"
  "match_field grant_names ''updated_at'' = Some ''updated_at''"
  "match_field document_names ''schema_version'' = Some ''schema_version''"
  "match_field document_names ''revision'' = Some ''revision''"
  "match_field document_names ''grants'' = Some ''grants''"
  by code_simp+

lemma plain_letters [simp]:
  "plain (CHR ''a'')" "plain (CHR ''b'')" "plain (CHR ''c'')" "plain (CHR ''d'')" "plain (CHR ''e'')"
  "plain (CHR ''g'')" "plain (CHR ''h'')" "plain (CHR ''i'')" "plain (CHR ''l'')" "plain (CHR ''m'')"
  "plain (CHR ''n'')" "plain (CHR ''o'')" "plain (CHR ''p'')" "plain (CHR ''r'')" "plain (CHR ''s'')"
  "plain (CHR ''t'')" "plain (CHR ''u'')" "plain (CHR ''v'')" "plain (CHR ''_'')"
  by code_simp+

lemma decode_marshal_grant:
  assumes "marshal_grant zone g = Some j" "list_all plain (gd_Permission g)"
  shows "json_ok j \<and> decode_grant old j = Some g"
proof -
  from assms(1) obtain t where t: "MarshalTime (zone (gd_UpdatedAt g)) (gd_UpdatedAt g) = Some t"
    and j: "j = J_obj [(''permission'', quoted (gd_Permission g)), (''enabled'', J_bool (gd_Enabled g)),
                       (''updated_at'', J_str t)]"
    by (auto simp: marshal_grant_def split: option.splits)
  from time_plain [OF t] parse_MarshalTime [OF t] assms(2) show ?thesis
    by (simp add: j decode_grant_def field_names quoted_def plain_quote plain_unquote
        decode_string_def decode_bool_def decode_time_def)
qed

lemma decode_marshal_grants:
  assumes "marshal_grants zone gs = Some js" "list_all (\<lambda>g. list_all plain (gd_Permission g)) gs"
  shows "(\<forall>j \<in> set js. json_ok j) \<and> length js = length gs \<and> decode_elements js [] = Some gs"
  using assms
proof (induction gs arbitrary: js)
  case (Cons g gs)
  then obtain j js' where j: "marshal_grant zone g = Some j" "marshal_grants zone gs = Some js'" "js = j # js'"
    by (auto split: option.splits)
  with decode_marshal_grant [OF j(1)] Cons show ?case by simp
qed simp

lemma decode_revision:
  "json_ok (J_num (show_dec (uint r)))"
  "decode_uint64 old (J_num (show_dec (uint (r :: 64 word)))) = Some r"
proof -
  have u: "0 \<le> uint r" "uint r < 2 ^ 64" using uint_lt2p [of r] by simp_all
  then have "show_dec (uint r) = digits (uint r)" by (simp add: show_dec_def)
  moreover have "hd (digits (uint r)) = CHR ''0'' \<longrightarrow> digits (uint r) = ''0''"
    using digits_no_zero [of "uint r"] digits_zero u(1) by (cases "uint r = 0") auto
  ultimately show "json_ok (J_num (show_dec (uint r)))"
    "decode_uint64 old (J_num (show_dec (uint r))) = Some r"
    using digits_isDigit [OF u(1)] dec_val_digits [OF u(1)] u(2) by (simp_all add: decode_uint64_def)
qed

lemma decode_encode:
  assumes "encodeDocument zone s = Inr bytes" "list_all (\<lambda>g. validPermission (gr_Permission g)) (ps_Grants s)"
  shows "decodeDocument bytes = Inr s"
proof -
  define gs where "gs = map (\<lambda>g. \<lparr>gd_Permission = Permission_string (gr_Permission g),
      gd_Enabled = gr_Enabled g, gd_UpdatedAt = gr_UpdatedAt g\<rparr>) (ps_Grants s)"
  from assms(1) obtain js where js: "marshal_grants zone gs = Some js"
    and bytes: "bytes = json_text (J_obj [(''schema_version'', quoted schemaVersion),
        (''revision'', J_num (show_dec (uint (ps_Revision s)))), (''grants'', J_arr js)]) @ [CHR 0x0A]"
    by (auto simp: encodeDocument_def marshal_document_def Let_def gs_def split: option.splits)
  have "list_all (\<lambda>g. list_all plain (gd_Permission g)) gs"
    using assms(2) Permission_string_plain by (fastforce simp: gs_def list_all_iff)
  from decode_marshal_grants [OF js this]
  have ok: "\<forall>j \<in> set js. json_ok j" "length js = length gs" "decode_elements js [] = Some gs" by simp_all
  have sv: "list_all plain schemaVersion" by code_simp
  have nl: "follows [CHR 0x0A]" "skip_ws [CHR 0x0A] = []" by code_simp+
  have "parse_json bytes = Some (J_obj [(''schema_version'', quoted schemaVersion),
        (''revision'', J_num (show_dec (uint (ps_Revision s)))), (''grants'', J_arr js)], [CHR 0x0A])"
    unfolding bytes using ok(1) decode_revision(1) nl(1) sv
    by (intro parse_json_text) (auto simp: field_names quoted_def plain_quote simp del: json_text.simps)
  moreover have "unmarshal_document (J_obj [(''schema_version'', quoted schemaVersion),
        (''revision'', J_num (show_dec (uint (ps_Revision s)))), (''grants'', J_arr js)]) =
      Some \<lparr>doc_SchemaVersion = schemaVersion, doc_Revision = ps_Revision s, doc_Grants = gs\<rparr>"
    using ok(2,3) by (cases "js = []")
      (simp_all add: unmarshal_document_def field_names quoted_def decode_string_def decode_slice_def
        decode_revision(2) plain_quote plain_unquote sv Let_def)
  moreover have "map (\<lambda>g. \<lparr>gr_Permission = Permission_of (gd_Permission g), gr_Enabled = gd_Enabled g,
      gr_UpdatedAt = gd_UpdatedAt g\<rparr>) gs = ps_Grants s"
    using assms(2) by (auto simp: gs_def list_all_iff Permission_of_string intro!: map_idI)
  ultimately show ?thesis
    by (simp add: decodeDocument_def nl(2))
qed

end
