(* ===== verification/Privacy_File.thy ===== *)
theory Privacy_File
  imports Privacy_Document
begin

text \<open>
  Package \<^verbatim>\<open>adapters/storage/privacyfile\<close> (\<^verbatim>\<open>repository.go\<close>): one private, versioned file that is
  replaced through a temporary file. The file system is a map from cleaned absolute paths to what
  \<^verbatim>\<open>Lstat\<close> finds there. Every system call consumes one entry of a schedule of faults (none left: it
  succeeds), every check of the context one entry of a schedule of errors, and the random part of a
  temporary name comes from a list. \<open>fs_log\<close> records the file system after each change, so that
  what a crash or another process can see between two calls is part of the result. The mutex makes
  \<^verbatim>\<open>Load\<close> and \<^verbatim>\<open>Save\<close> atomic within the process; another process that swaps the file between \<^verbatim>\<open>Lstat\<close>
  and \<^verbatim>\<open>open\<close> is a fault of the open.
\<close>

section \<open>The file system\<close>

type_synonym path = "string list"

datatype fs_kind = Regular string | Directory | Symlink | Irregular

record fs_node =
  nd_kind :: fs_kind
  nd_perm :: nat
  nd_sticky :: bool

datatype oserror = ENOENT | EEXIST | ELOOP | EACCES | EIO

datatype fs_fault = No_fault | Denied | Broken | Raced_symlink | Raced_file

record fs_world =
  fs :: "path \<rightharpoonup> fs_node"
  fs_faults :: "fs_fault list"
  fs_ctx :: "goerror option list"
  fs_random :: "string list"
  fs_clock :: "time list"
  fs_log :: "(path \<rightharpoonup> fs_node) list"

type_synonym 'a sys = "fs_world \<Rightarrow> (oserror + 'a) \<times> fs_world"
type_synonym 'a io = "fs_world \<Rightarrow> (goerror + 'a) \<times> fs_world"

text \<open>A call that can fail, and one whose failure ends the function with an error.\<close>

definition call :: "(fs_fault \<Rightarrow> 'a sys) \<Rightarrow> 'a sys" where
  "call f w =
     (case fs_faults w of
        [] \<Rightarrow> f No_fault w
      | Denied # r \<Rightarrow> (Inl EACCES, w\<lparr>fs_faults := r\<rparr>)
      | Broken # r \<Rightarrow> (Inl EIO, w\<lparr>fs_faults := r\<rparr>)
      | x # r \<Rightarrow> f x (w\<lparr>fs_faults := r\<rparr>))"

definition and_then ::
    "(fs_world \<Rightarrow> ('e + 'a) \<times> fs_world) \<Rightarrow> ('a \<Rightarrow> fs_world \<Rightarrow> ('e + 'b) \<times> fs_world) \<Rightarrow>
     fs_world \<Rightarrow> ('e + 'b) \<times> fs_world" where
  "and_then m f w =
     (case m w of
        (Inl err, w1) \<Rightarrow> (Inl err, w1)
      | (Inr x, w1) \<Rightarrow> f x w1)"

definition handle :: "'a sys \<Rightarrow> (oserror \<Rightarrow> 'b io) \<Rightarrow> ('a \<Rightarrow> 'b io) \<Rightarrow> 'b io" where
  "handle m h f w =
     (case m w of
        (Inl err, w1) \<Rightarrow> h err w1
      | (Inr x, w1) \<Rightarrow> f x w1)"

definition return_ok :: "'a \<Rightarrow> fs_world \<Rightarrow> ('e + 'a) \<times> fs_world" where
  "return_ok x w = (Inr x, w)"

definition return_err :: "'e \<Rightarrow> fs_world \<Rightarrow> ('e + 'a) \<times> fs_world" where
  "return_err err w = (Inl err, w)"

definition put :: "path \<Rightarrow> fs_node option \<Rightarrow> fs_world \<Rightarrow> fs_world" where
  "put p n w = w\<lparr>fs := (fs w)(p := n), fs_log := fs_log w @ [(fs w)(p := n)]\<rparr>"

definition Lstat :: "path \<Rightarrow> fs_node sys" where
  "Lstat p = call (\<lambda>_ w. (case fs w p of None \<Rightarrow> Inl ENOENT | Some n \<Rightarrow> Inr n, w))"

definition Mkdir :: "path \<Rightarrow> nat \<Rightarrow> unit sys" where
  "Mkdir p perm =
     call (\<lambda>_ w. if fs w p \<noteq> None then (Inl EEXIST, w)
                  else (Inr (), put p (Some \<lparr>nd_kind = Directory, nd_perm = perm, nd_sticky = False\<rparr>) w))"

definition Chmod :: "path \<Rightarrow> nat \<Rightarrow> unit sys" where
  "Chmod p perm =
     call (\<lambda>_ w. case fs w p of
        None \<Rightarrow> (Inl ENOENT, w)
      | Some n \<Rightarrow> (Inr (), put p (Some (n\<lparr>nd_perm := perm\<rparr>)) w))"

text \<open>An open file, with whether it is the file that \<^verbatim>\<open>Lstat\<close> saw.\<close>

definition OpenFile :: "path \<Rightarrow> (fs_node \<times> bool) sys" where
  "OpenFile p =
     call (\<lambda>x w.
       (case fs w p of
          None \<Rightarrow> Inl ENOENT
        | Some n \<Rightarrow>
            if nd_kind n = Symlink \<or> x = Raced_symlink then Inl ELOOP
            else Inr (n, x \<noteq> Raced_file), w))"

definition maxDocumentBytes :: nat where
  "maxDocumentBytes = 64 * 1024"

definition ReadAll :: "fs_node \<Rightarrow> string sys" where
  "ReadAll n =
     call (\<lambda>_ w. (case nd_kind n of
        Regular content \<Rightarrow> Inr (take (maxDocumentBytes + 1) content)
      | _ \<Rightarrow> Inl EIO, w))"

definition temp_name :: "string \<Rightarrow> string" where
  "temp_name r = ''.privacy-'' @ r @ ''.tmp''"

text \<open>\<^verbatim>\<open>os.CreateTemp\<close> tries names until one does not exist.\<close>

definition CreateTemp :: "path \<Rightarrow> path sys" where
  "CreateTemp dir =
     call (\<lambda>_ w.
       case dropWhile (\<lambda>r. fs w (dir @ [temp_name r]) \<noteq> None) (fs_random w) of
         [] \<Rightarrow> (Inl EEXIST, w)
       | r # rs \<Rightarrow>
           let p = dir @ [temp_name r]
           in (Inr p, put p (Some \<lparr>nd_kind = Regular [], nd_perm = 384, nd_sticky = False\<rparr>)
                 (w\<lparr>fs_random := rs\<rparr>)))"

text \<open>A write that breaks leaves half of the bytes.\<close>

definition Write :: "path \<Rightarrow> string \<Rightarrow> unit sys" where
  "Write p content w =
     (let n = the (fs w p)
      in case fs_faults w of
           Broken # r \<Rightarrow>
             (Inl EIO, put p (Some (n\<lparr>nd_kind := Regular (take (length content div 2) content)\<rparr>))
                         (w\<lparr>fs_faults := r\<rparr>))
         | _ \<Rightarrow> call (\<lambda>_ v. (Inr (), put p (Some (n\<lparr>nd_kind := Regular content\<rparr>)) v)) w)"

text \<open>The calls that leave the map as it is: \<^verbatim>\<open>Sync\<close>, \<^verbatim>\<open>Close\<close>, \<^verbatim>\<open>Stat\<close>, opening the directory.\<close>

definition Effectless :: "unit sys" where
  "Effectless = call (\<lambda>_ w. (Inr (), w))"

definition Rename :: "path \<Rightarrow> path \<Rightarrow> unit sys" where
  "Rename a b =
     call (\<lambda>_ w. case fs w a of
        None \<Rightarrow> (Inl ENOENT, w)
      | Some n \<Rightarrow>
          if a = b then (Inr (), w)
          else let f = (fs w)(b := Some n, a := None)
               in (Inr (), w\<lparr>fs := f, fs_log := fs_log w @ [f]\<rparr>))"

definition Remove :: "path \<Rightarrow> unit sys" where
  "Remove p =
     call (\<lambda>_ w. if fs w p = None then (Inl ENOENT, w) else (Inr (), put p None w))"

section \<open>The repository\<close>

definition privateDirMode :: nat where
  "privateDirMode = 448"

definition privateFileMode :: nat where
  "privateFileMode = 384"

text \<open>\<^verbatim>\<open>Perm() & 0o077\<close>.\<close>

definition shared_mode :: "fs_node \<Rightarrow> bool" where
  "shared_mode n = (nd_perm n mod 64 \<noteq> 0)"

definition is_regular :: "fs_node \<Rightarrow> bool" where
  "is_regular n = (case nd_kind n of Regular _ \<Rightarrow> True | _ \<Rightarrow> False)"

definition contextFault :: "string \<Rightarrow> goerror \<Rightarrow> goerror" where
  "contextFault op err =
     (if ErrIs err ContextDeadlineExceeded then New_fault DeadlineExceeded op err
      else New_fault Unavailable op err)"

definition oserror_text :: "oserror \<Rightarrow> string" where
  "oserror_text e =
     (case e of ENOENT \<Rightarrow> ''no such file or directory'' | EEXIST \<Rightarrow> ''file exists''
      | ELOOP \<Rightarrow> ''too many levels of symbolic links'' | EACCES \<Rightarrow> ''permission denied''
      | EIO \<Rightarrow> ''input/output error'')"

definition filesystemFault :: "string \<Rightarrow> oserror \<Rightarrow> goerror" where
  "filesystemFault op err =
     (if err = EACCES then New_fault PermissionDenied op (Leaf (oserror_text err))
      else New_fault Unavailable op (Leaf (oserror_text err)))"

definition or_fault :: "string \<Rightarrow> 'a sys \<Rightarrow> 'a io" where
  "or_fault op m = handle m (\<lambda>err. return_err (filesystemFault op err)) return_ok"

definition validateContext :: "string \<Rightarrow> bool \<Rightarrow> unit io" where
  "validateContext op nilctx w =
     (if nilctx then (Inl (New_fault InvalidInput op (Leaf ''context is required'')), w)
      else case fs_ctx w of
          [] \<Rightarrow> (Inr (), w)
        | e # r \<Rightarrow>
            (case e of Some err \<Rightarrow> Inl (contextFault op err) | None \<Rightarrow> Inr (), w\<lparr>fs_ctx := r\<rparr>))"

text \<open>\<^verbatim>\<open>filepath.Clean\<close> of an absolute path, as the list of its elements.\<close>

fun split_path :: "string \<Rightarrow> string list" where
  "split_path [] = [[]]"
| "split_path (c # s) =
     (if c = CHR ''/'' then [] # split_path s
      else (case split_path s of [] \<Rightarrow> [[c]] | e # es \<Rightarrow> (c # e) # es))"

definition clean_path :: "string \<Rightarrow> path" where
  "clean_path s =
     foldl (\<lambda>acc e. if e = [] \<or> e = ''.'' then acc else if e = ''..'' then butlast acc else acc @ [e])
       [] (split_path s)"

definition is_space :: "char \<Rightarrow> bool" where
  "is_space c = (byte c \<in> {9, 10, 11, 12, 13, 32})"

definition Repository_New :: "string \<Rightarrow> goerror + path" where
  "Repository_New path =
     (let op = ''create privacy file repository''
      in if list_all is_space path \<or> take 1 path \<noteq> ''/'' then
           Inl (New_fault InvalidInput op (Leaf ''an absolute path is required''))
         else let cleaned = clean_path path
              in if cleaned = [] then
                   Inl (New_fault InvalidInput op (Leaf ''path must identify a file''))
                 else Inr cleaned)"

definition blank_snapshot :: privacy_Snapshot where
  "blank_snapshot = \<lparr>ps_Revision = 0, ps_Grants = []\<rparr>"

text \<open>The checks on what \<^verbatim>\<open>Lstat\<close> found at the path, shared by loading and replacing.\<close>

definition check_target :: "string \<Rightarrow> fs_node \<Rightarrow> unit io" where
  "check_target op info =
     (if nd_kind info = Symlink then
        return_err (New_fault PermissionDenied op (Leaf ''privacy file must not be a symlink''))
      else if \<not> is_regular info then
        return_err (New_fault InvalidInput op (Leaf ''privacy path is not a regular file''))
      else if shared_mode info then
        return_err (New_fault PermissionDenied op (Leaf ''privacy file is accessible to group or world''))
      else return_ok ())"

definition read_document :: "path \<Rightarrow> bool \<Rightarrow> string \<Rightarrow> privacy_Snapshot io" where
  "read_document path nilctx op =
     handle (OpenFile path)
       (\<lambda>err. if err = ELOOP
              then return_err (New_fault PermissionDenied op (Leaf ''privacy file must not be a symlink''))
              else return_err (filesystemFault op err))
       (\<lambda>(n, same).
          and_then (or_fault op Effectless) (\<lambda>_.
          if \<not> is_regular n \<or> \<not> same then
            return_err (New_fault PermissionDenied op (Leaf ''privacy file changed during secure open''))
          else
            and_then (or_fault op (ReadAll n)) (\<lambda>encoded.
            if maxDocumentBytes < length encoded then
              return_err (New_fault InvalidInput op (Leaf ''privacy document exceeds size limit''))
            else
              and_then (validateContext op nilctx) (\<lambda>_.
              case decodeDocument encoded of
                Inl err \<Rightarrow> return_err (New_fault InvalidInput op err)
              | Inr decoded \<Rightarrow> return_ok decoded))))"

definition loadLocked :: "path \<Rightarrow> bool \<Rightarrow> string \<Rightarrow> privacy_Snapshot io" where
  "loadLocked path nilctx op =
     and_then (validateContext op nilctx) (\<lambda>_.
     handle (Lstat path)
       (\<lambda>err. if err = ENOENT then return_ok blank_snapshot else return_err (filesystemFault op err))
       (\<lambda>info. and_then (check_target op info) (\<lambda>_. read_document path nilctx op)))"

definition Repository_Load :: "path \<Rightarrow> bool \<Rightarrow> privacy_Snapshot io" where
  "Repository_Load path nilctx =
     (let op = ''load privacy permissions''
      in and_then (validateContext op nilctx) (\<lambda>_. loadLocked path nilctx op))"

text \<open>The loop of \<^verbatim>\<open>ensurePrivateDirectory\<close>, over the elements below \<open>current\<close>.\<close>

definition lstat_or_make :: "path \<Rightarrow> string \<Rightarrow> fs_node io" where
  "lstat_or_make current op =
     handle (Lstat current)
       (\<lambda>err. if err = ENOENT then
                handle (Mkdir current privateDirMode)
                  (\<lambda>err. if err = EEXIST then or_fault op (Lstat current)
                         else return_err (filesystemFault op err))
                  (\<lambda>_. or_fault op (Lstat current))
              else return_err (filesystemFault op err))
       return_ok"

fun ensure_elements :: "bool \<Rightarrow> string \<Rightarrow> path \<Rightarrow> string list \<Rightarrow> unit io" where
  "ensure_elements nilctx op current [] = return_ok ()"
| "ensure_elements nilctx op current (element # rest) =
     (if element = [] \<or> element = ''.'' then ensure_elements nilctx op current rest
      else
        and_then (validateContext op nilctx) (\<lambda>_.
        and_then (lstat_or_make (current @ [element]) op) (\<lambda>info.
        if nd_kind info = Symlink then
          return_err (New_fault PermissionDenied op (Leaf ''directory %s must not be a symlink''))
        else if nd_kind info \<noteq> Directory then
          return_err (New_fault InvalidInput op (Leaf ''path component %s is not a directory''))
        else ensure_elements nilctx op (current @ [element]) rest)))"

definition ensurePrivateDirectory :: "bool \<Rightarrow> path \<Rightarrow> string \<Rightarrow> unit io" where
  "ensurePrivateDirectory nilctx cleaned op =
     and_then (ensure_elements nilctx op [] cleaned) (\<lambda>_.
     and_then (or_fault op (Lstat cleaned)) (\<lambda>info.
     if shared_mode info then
       if cleaned = [] \<or> nd_sticky info then
         return_err (New_fault PermissionDenied op (Leaf ''shared directory cannot be used as the privacy directory''))
       else
         and_then (or_fault op (Chmod cleaned privateDirMode)) (\<lambda>_.
         and_then (or_fault op (Lstat cleaned)) (\<lambda>info.
         if nd_kind info \<noteq> Directory \<or> shared_mode info then
           return_err (New_fault PermissionDenied op (Leaf ''privacy directory permissions could not be secured''))
         else return_ok ()))
     else return_ok ()))"

definition rejectUnsafeExistingTarget :: "path \<Rightarrow> string \<Rightarrow> unit io" where
  "rejectUnsafeExistingTarget path op =
     handle (Lstat path)
       (\<lambda>err. if err = ENOENT then return_ok () else return_err (filesystemFault op err))
       (check_target op)"

definition syncDirectory :: "path \<Rightarrow> unit sys" where
  "syncDirectory path = and_then Effectless (\<lambda>_. Effectless)"

text \<open>\<^verbatim>\<open>replaceLocked\<close>: up to closing the temporary file, from there on, and the deferred clean-up.\<close>

definition fill_temporary :: "path \<Rightarrow> string \<Rightarrow> string \<Rightarrow> unit io" where
  "fill_temporary temporary encoded op =
     and_then (or_fault op (Chmod temporary privateFileMode)) (\<lambda>_.
     and_then (or_fault op (Write temporary encoded)) (\<lambda>_.
     or_fault op Effectless))"

definition publish_temporary :: "path \<Rightarrow> path \<Rightarrow> bool \<Rightarrow> string \<Rightarrow> unit io" where
  "publish_temporary path temporary nilctx op =
     and_then (or_fault op Effectless) (\<lambda>_.
     and_then (validateContext op nilctx) (\<lambda>_.
     and_then (or_fault op (Rename temporary path)) (\<lambda>_.
     or_fault op (syncDirectory (butlast path)))))"

definition replaceLocked :: "path \<Rightarrow> bool \<Rightarrow> string \<Rightarrow> string \<Rightarrow> unit io" where
  "replaceLocked path nilctx encoded op =
     (let parent = butlast path
      in and_then (ensurePrivateDirectory nilctx parent op) (\<lambda>_.
         and_then (rejectUnsafeExistingTarget path op) (\<lambda>_.
         and_then (validateContext op nilctx) (\<lambda>_.
         and_then (or_fault op (CreateTemp parent)) (\<lambda>temporary w.
           case fill_temporary temporary encoded op w of
             (Inl err, w1) \<Rightarrow>
               let w2 = snd (Effectless w1) in (Inl err, snd (Remove temporary w2))
           | (Inr _, w1) \<Rightarrow>
               (case publish_temporary path temporary nilctx op w1 of
                  (r, w2) \<Rightarrow> (r, snd (Remove temporary w2))))))))"

definition Repository_Save ::
    "path \<Rightarrow> (time \<Rightarrow> int) \<Rightarrow> bool \<Rightarrow> 64 word \<Rightarrow> privacy_Snapshot \<Rightarrow> unit io" where
  "Repository_Save path zone nilctx expectedRevision snapshot =
     (let op = ''save privacy permissions''
      in and_then (validateContext op nilctx) (\<lambda>_.
         case encodeDocument zone snapshot of
           Inl err \<Rightarrow> return_err (New_fault InvalidInput op err)
         | Inr encoded \<Rightarrow>
             if maxDocumentBytes < length encoded then
               return_err (New_fault InvalidInput op (Leaf ''privacy document exceeds size limit''))
             else
               and_then (validateContext op nilctx) (\<lambda>_.
               and_then (loadLocked path nilctx op) (\<lambda>current.
               if ps_Revision current \<noteq> expectedRevision then
                 return_err (New_fault StaleInput op
                   (Leaf ''persisted revision %d does not match expected revision %d''))
               else if expectedRevision = - 1 \<or> ps_Revision snapshot \<noteq> expectedRevision + 1 then
                 return_err (New_fault InvalidInput op
                   (Leaf ''snapshot revision must immediately follow expected revision''))
               else
                 and_then (validateContext op nilctx) (\<lambda>_.
                 replaceLocked path nilctx encoded op)))))"

text \<open>The repository and the clock as the ports of the privacy service.\<close>

definition read_clock :: "fs_world \<Rightarrow> time \<times> fs_world" where
  "read_clock w = (case fs_clock w of [] \<Rightarrow> (0, w) | t # r \<Rightarrow> (t, w\<lparr>fs_clock := r\<rparr>))"

definition file_repository :: "path \<Rightarrow> (time \<Rightarrow> int) \<Rightarrow> fs_world Repository" where
  "file_repository path zone =
     \<lparr>rep_Load = Repository_Load path False,
      rep_Save = (\<lambda>n s w. case Repository_Save path zone False n s w of
          (Inl err, w1) \<Rightarrow> (Some err, w1)
        | (Inr _, w1) \<Rightarrow> (None, w1)),
      rep_Now = read_clock\<rparr>"

section \<open>What the calls do to one path\<close>

text \<open>Between two worlds, every file system that existed shows the same node at \<open>p\<close>.\<close>

definition quiet :: "path \<Rightarrow> fs_world \<Rightarrow> fs_world \<Rightarrow> bool" where
  "quiet p w w' =
     (fs w' p = fs w p \<and> (\<exists>l. fs_log w' = fs_log w @ l \<and> (\<forall>f \<in> set l. f p = fs w p)))"

definition quiet_at :: "path \<Rightarrow> (fs_world \<Rightarrow> 'a \<times> fs_world) \<Rightarrow> bool" where
  "quiet_at p m = (\<forall>w. quiet p w (snd (m w)))"

named_theorems quiet_intros "calls that leave one path alone"

lemma quiet_refl [simp]: "quiet p w w"
  by (simp add: quiet_def)

lemma quiet_trans: "quiet p w1 w2 \<Longrightarrow> quiet p w2 w3 \<Longrightarrow> quiet p w1 w3"
  unfolding quiet_def by (elim conjE exE) (simp, fastforce)

lemma quiet_put:
  assumes "p \<noteq> q"
  shows "quiet p w (put q n w)" "quiet p w (put q n (w\<lparr>fs_faults := x\<rparr>))"
    "quiet p w (put q n (w\<lparr>fs_random := z\<rparr>))"
  using assms by (simp_all add: quiet_def put_def)

lemma quiet_update [simp]:
  "quiet p w (v\<lparr>fs_faults := x\<rparr>) = quiet p w v" "quiet p (v\<lparr>fs_faults := x\<rparr>) w = quiet p v w"
  "quiet p w (v\<lparr>fs_ctx := y\<rparr>) = quiet p w v" "quiet p (v\<lparr>fs_ctx := y\<rparr>) w = quiet p v w"
  "quiet p w (v\<lparr>fs_random := z\<rparr>) = quiet p w v" "quiet p (v\<lparr>fs_random := z\<rparr>) w = quiet p v w"
  "quiet p w (v\<lparr>fs_clock := t\<rparr>) = quiet p w v"
  by (simp_all add: quiet_def)

lemma quiet_atD: "quiet_at p m \<Longrightarrow> m w = (r, w') \<Longrightarrow> quiet p w w'"
  by (auto simp: quiet_at_def dest: spec [of _ w])

lemma quiet_call [quiet_intros]:
  assumes "\<And>x. quiet_at p (f x)"
  shows "quiet_at p (call f)"
  using assms unfolding quiet_at_def call_def
  by (auto split: list.splits fs_fault.splits) (metis quiet_update(2))+

lemma quiet_and_then [quiet_intros]:
  assumes "quiet_at p m" "\<And>x. quiet_at p (f x)"
  shows "quiet_at p (and_then m f)"
  unfolding quiet_at_def
proof
  fix w
  obtain r w1 where m: "m w = (r, w1)" by force
  from quiet_atD [OF assms(1) m] have q: "quiet p w w1" .
  show "quiet p w (snd (and_then m f w))"
  proof (cases r)
    case (Inr x)
    from assms(2) [of x] have "quiet p w1 (snd (f x w1))" by (simp add: quiet_at_def)
    with q show ?thesis by (simp add: and_then_def m Inr quiet_trans [OF q])
  qed (simp add: and_then_def m q)
qed

lemma quiet_handle [quiet_intros]:
  assumes "quiet_at p m" "\<And>err. quiet_at p (h err)" "\<And>x. quiet_at p (f x)"
  shows "quiet_at p (handle m h f)"
  unfolding quiet_at_def
proof
  fix w
  obtain r w1 where m: "m w = (r, w1)" by force
  from quiet_atD [OF assms(1) m] have q: "quiet p w w1" .
  moreover have "quiet p w1 (snd (h err w1))" "quiet p w1 (snd (f x w1))" for err x
    using assms(2,3) by (simp_all add: quiet_at_def)
  ultimately show "quiet p w (snd (handle m h f w))"
    by (auto simp: handle_def m quiet_trans [OF q] split: sum.splits)
qed

lemma quiet_basic [quiet_intros]:
  "quiet_at p (return_ok x)" "quiet_at p (return_err err)" "quiet_at p (validateContext op nilctx)"
  by (auto simp: quiet_at_def return_ok_def return_err_def validateContext_def split: list.splits option.splits)

lemma quiet_or_fault [quiet_intros]: "quiet_at p m \<Longrightarrow> quiet_at p (or_fault op m)"
  unfolding or_fault_def by (intro quiet_intros)

lemma quiet_check_target [quiet_intros]: "quiet_at p (check_target op info)"
  by (simp add: check_target_def quiet_intros)

lemma quiet_calls [quiet_intros]:
  "quiet_at p (Lstat q)" "quiet_at p (OpenFile q)" "quiet_at p (ReadAll n)" "quiet_at p Effectless"
  unfolding Lstat_def OpenFile_def ReadAll_def Effectless_def
  by (intro quiet_call; simp add: quiet_at_def)+

lemma quiet_changes:
  assumes "p \<noteq> q"
  shows "quiet_at p (Mkdir q perm)" "quiet_at p (Chmod q perm)" "quiet_at p (Write q content)"
    "quiet_at p (Remove q)"
proof -
  show "quiet_at p (Mkdir q perm)" "quiet_at p (Chmod q perm)" "quiet_at p (Remove q)"
    unfolding Mkdir_def Chmod_def Remove_def using assms
    by (intro quiet_call; auto simp: quiet_at_def quiet_put split: option.splits)+
  have "quiet_at p (call (\<lambda>_ v. (Inr (), put q n v)))" for n
    using assms by (intro quiet_call) (simp add: quiet_at_def quiet_put)
  then show "quiet_at p (Write q content)"
    using assms unfolding quiet_at_def Write_def
    by (auto simp: Let_def quiet_put split: list.splits fs_fault.splits)
qed

lemma quiet_syncDirectory [quiet_intros]: "quiet_at p (syncDirectory q)"
  unfolding syncDirectory_def by (intro quiet_intros)

lemma quiet_CreateTemp:
  assumes "\<forall>r. p \<noteq> dir @ [temp_name r]"
  shows "quiet_at p (CreateTemp dir)"
  unfolding CreateTemp_def using assms
  by (intro quiet_call) (auto simp: quiet_at_def Let_def quiet_put split: list.splits)


lemma quiet_read_document [quiet_intros]: "quiet_at p (read_document path nilctx op)"
  unfolding read_document_def by (intro quiet_handle) (auto intro!: quiet_intros split: if_splits sum.splits)

lemma quiet_loadLocked [quiet_intros]: "quiet_at p (loadLocked path nilctx op)"
  unfolding loadLocked_def by (intro quiet_intros) (auto intro!: quiet_intros)

lemma quiet_lstat_or_make: "p \<noteq> q \<Longrightarrow> quiet_at p (lstat_or_make q op)"
  unfolding lstat_or_make_def by (intro quiet_handle) (auto intro!: quiet_intros quiet_changes)

text \<open>Making the directories touches shorter paths only.\<close>

lemma quiet_ensure_elements:
  "length current + length es < length p \<Longrightarrow> quiet_at p (ensure_elements nilctx op current es)"
proof (induction es arbitrary: current)
  case (Cons e rest)
  then have p: "p \<noteq> current @ [e]" by auto
  show ?case
  proof (cases "e = [] \<or> e = ''.''")
    case True
    then show ?thesis using Cons by simp
  next
    case False
    have "quiet_at p (if nd_kind info = Symlink
            then return_err (New_fault PermissionDenied op (Leaf ''directory %s must not be a symlink''))
            else if nd_kind info \<noteq> Directory
              then return_err (New_fault InvalidInput op (Leaf ''path component %s is not a directory''))
              else ensure_elements nilctx op (current @ [e]) rest)" for info
      using Cons by (auto intro: quiet_intros)
    then have "quiet_at p (and_then (validateContext op nilctx) (\<lambda>_.
        and_then (lstat_or_make (current @ [e]) op) (\<lambda>info.
        if nd_kind info = Symlink then
          return_err (New_fault PermissionDenied op (Leaf ''directory %s must not be a symlink''))
        else if nd_kind info \<noteq> Directory then
          return_err (New_fault InvalidInput op (Leaf ''path component %s is not a directory''))
        else ensure_elements nilctx op (current @ [e]) rest)))"
      by (intro quiet_and_then quiet_basic quiet_lstat_or_make p)
    then show ?thesis using False by (simp only: ensure_elements.simps if_False)
  qed
qed (simp add: quiet_intros)

lemma quiet_ensurePrivateDirectory:
  assumes "length dir < length p"
  shows "quiet_at p (ensurePrivateDirectory nilctx dir op)"
proof -
  from assms have "p \<noteq> dir" by auto
  with assms show ?thesis
    unfolding ensurePrivateDirectory_def
    by (intro quiet_and_then quiet_or_fault quiet_ensure_elements quiet_calls quiet_changes)
      (auto intro!: quiet_intros quiet_changes)
qed

lemma quiet_fill_temporary: "p \<noteq> q \<Longrightarrow> quiet_at p (fill_temporary q encoded op)"
  unfolding fill_temporary_def by (intro quiet_intros quiet_changes)

section \<open>Loading\<close>

text \<open>Loading changes nothing, and returns what the file holds.\<close>

definition stored :: "path \<Rightarrow> fs_world \<Rightarrow> privacy_Snapshot" where
  "stored p w =
     (case fs w p of
        Some n \<Rightarrow> (case nd_kind n of
            Regular content \<Rightarrow> (case decodeDocument content of Inr s \<Rightarrow> s | Inl _ \<Rightarrow> blank_snapshot)
          | _ \<Rightarrow> blank_snapshot)
      | None \<Rightarrow> blank_snapshot)"

definition frozen :: "(fs_world \<Rightarrow> 'a \<times> fs_world) \<Rightarrow> bool" where
  "frozen m = (\<forall>w. fs (snd (m w)) = fs w)"

lemma frozenD: "frozen m \<Longrightarrow> m w = (r, w') \<Longrightarrow> fs w' = fs w"
  by (auto simp: frozen_def dest: spec [of _ w])

lemma frozen_simple:
  "frozen (validateContext op nilctx)" "frozen (Lstat q)" "frozen (OpenFile q)" "frozen (ReadAll n)"
  "frozen Effectless"
  by (auto simp: frozen_def validateContext_def Lstat_def OpenFile_def ReadAll_def Effectless_def call_def
      split: list.splits fs_fault.splits option.splits)

lemma and_then_Inr:
  "and_then m f w = (Inr y, w') \<longleftrightarrow> (\<exists>x w1. m w = (Inr x, w1) \<and> f x w1 = (Inr y, w'))"
  by (auto simp: and_then_def split: prod.splits sum.splits)

lemma handle_Inr:
  "handle m h f w = (Inr y, w') \<longleftrightarrow>
     (\<exists>x w1. m w = (Inr x, w1) \<and> f x w1 = (Inr y, w')) \<or> (\<exists>err w1. m w = (Inl err, w1) \<and> h err w1 = (Inr y, w'))"
  by (auto simp: handle_def split: prod.splits sum.splits)

lemma or_fault_Inr: "or_fault op m w = (Inr y, w') \<longleftrightarrow> m w = (Inr y, w')"
  by (auto simp: or_fault_def handle_Inr return_err_def return_ok_def)

lemmas io_Inr = and_then_Inr handle_Inr or_fault_Inr return_ok_def return_err_def

lemma Lstat_Inr: "Lstat p w = (Inr n, w') \<Longrightarrow> fs w p = Some n \<and> fs w' = fs w"
  by (auto simp: Lstat_def call_def split: list.splits fs_fault.splits option.splits)

lemma Lstat_ENOENT: "Lstat p w = (Inl ENOENT, w') \<Longrightarrow> fs w p = None"
  by (auto simp: Lstat_def call_def split: list.splits fs_fault.splits option.splits)

lemma OpenFile_Inr: "OpenFile p w = (Inr (n, same), w') \<Longrightarrow> fs w p = Some n \<and> fs w' = fs w"
  by (auto simp: OpenFile_def call_def split: list.splits fs_fault.splits option.splits if_splits)

lemma ReadAll_Inr:
  "ReadAll n w = (Inr c, w') \<Longrightarrow> \<exists>content. nd_kind n = Regular content \<and> c = take (maxDocumentBytes + 1) content"
  by (auto simp: ReadAll_def call_def split: list.splits fs_fault.splits fs_kind.splits)

lemma read_document_Inr:
  assumes "read_document p nilctx op w = (Inr s, w')"
  shows "s = stored p w"
proof -
  from assms obtain n same w1 w2 c w3 where o: "OpenFile p w = (Inr (n, same), w1)"
    and c: "ReadAll n w2 = (Inr c, w3)" "\<not> maxDocumentBytes < length c" "decodeDocument c = Inr s"
    by (auto simp: read_document_def io_Inr split: if_splits sum.splits)
  from ReadAll_Inr [OF c(1)] obtain content where
    k: "nd_kind n = Regular content" "c = take (maxDocumentBytes + 1) content" by blast
  with c(2) have "c = content" by (cases "length content \<le> maxDocumentBytes") auto
  with OpenFile_Inr [OF o] k(1) c(3) show ?thesis by (simp add: stored_def)
qed

lemma loadLocked_Inr:
  assumes "loadLocked p nilctx op w = (Inr s, w')"
  shows "s = stored p w"
proof -
  from assms obtain w1 where v: "validateContext op nilctx w = (Inr (), w1)"
    and h: "handle (Lstat p)
       (\<lambda>err. if err = ENOENT then return_ok blank_snapshot else return_err (filesystemFault op err))
       (\<lambda>info. and_then (check_target op info) (\<lambda>_. read_document p nilctx op)) w1 = (Inr s, w')"
    by (auto simp: loadLocked_def and_then_Inr)
  have e: "fs w1 = fs w" by (rule frozenD [OF frozen_simple(1) v])
  have st: "stored p v = stored p w" if "fs v = fs w" for v using that by (simp add: stored_def)
  from h show ?thesis
    unfolding handle_Inr
  proof (elim disjE exE conjE)
    fix info w2
    assume l: "Lstat p w1 = (Inr info, w2)"
      and r: "and_then (check_target op info) (\<lambda>_. read_document p nilctx op) w2 = (Inr s, w')"
    then have "read_document p nilctx op w2 = (Inr s, w')"
      by (auto simp: and_then_Inr check_target_def return_ok_def return_err_def split: if_splits)
    from read_document_Inr [OF this] Lstat_Inr [OF l] e st [of w2] show ?thesis by simp
  next
    fix err w2
    assume l: "Lstat p w1 = (Inl err, w2)"
      and r: "(if err = ENOENT then return_ok blank_snapshot else return_err (filesystemFault op err)) w2 = (Inr s, w')"
    then have "fs w1 p = None" "s = blank_snapshot"
      using Lstat_ENOENT [of p w1 w2] by (auto simp: return_ok_def return_err_def split: if_splits)
    with e show ?thesis by (simp add: stored_def)
  qed
qed

section \<open>Replacing\<close>

text \<open>Between two worlds, every file system that existed shows the old node at \<open>p\<close> or the new one.\<close>

definition replaces :: "path \<Rightarrow> fs_node \<Rightarrow> fs_world \<Rightarrow> fs_world \<Rightarrow> bool" where
  "replaces p n w w' =
     ((fs w' p = fs w p \<or> fs w' p = Some n) \<and>
      (\<exists>l. fs_log w' = fs_log w @ l \<and> (\<forall>f \<in> set l. f p = fs w p \<or> f p = Some n)))"

lemma quiet_replaces: "quiet p w w' \<Longrightarrow> replaces p n w w'"
  unfolding quiet_def replaces_def by blast

lemma replaces_trans_quiet: "quiet p w1 w2 \<Longrightarrow> replaces p n w2 w3 \<Longrightarrow> replaces p n w1 w3"
  unfolding quiet_def replaces_def by (elim conjE exE) (simp, fastforce)

lemma replaces_quiet_trans: "replaces p n w1 w2 \<Longrightarrow> quiet p w2 w3 \<Longrightarrow> replaces p n w1 w3"
  unfolding quiet_def replaces_def by (elim conjE exE) (simp, fastforce)

lemma and_then_cases:
  assumes "and_then m f w = (r, w')" "quiet_at p m"
  obtains (failed) err where "r = Inl err" "quiet p w w'"
    | (passed) x w1 where "m w = (Inr x, w1)" "quiet p w w1" "f x w1 = (r, w')"
proof -
  obtain r1 w1 where m: "m w = (r1, w1)" by force
  from quiet_atD [OF assms(2) m] assms(1) m failed passed show thesis
    by (cases r1) (auto simp: and_then_def)
qed

lemma Rename_replaces:
  assumes "Rename q p w = (r, w')" "p \<noteq> q" "fs w q = Some n"
  shows "replaces p n w w' \<and> (r = Inr () \<longrightarrow> fs w' p = Some n)"
  using assms
  by (auto simp: Rename_def call_def replaces_def Let_def split: list.splits fs_fault.splits)

lemma fill_temporary_Inr:
  assumes "fill_temporary q encoded op w = (Inr x, w')"
  shows "\<exists>n. fs w' q = Some n \<and> nd_kind n = Regular encoded \<and> nd_perm n = privateFileMode"
proof -
  from assms obtain w1 w2 where c: "Chmod q privateFileMode w = (Inr (), w1)"
    and wr: "Write q encoded w1 = (Inr (), w2)" and e: "Effectless w2 = (Inr x, w')"
    by (auto simp: fill_temporary_def io_Inr)
  from c obtain n where "fs w1 q = Some (n\<lparr>nd_perm := privateFileMode\<rparr>)"
    by (auto simp: Chmod_def call_def put_def split: list.splits fs_fault.splits option.splits)
  with wr have "fs w2 q = Some (n\<lparr>nd_perm := privateFileMode, nd_kind := Regular encoded\<rparr>)"
    by (auto simp: Write_def call_def put_def Let_def split: list.splits fs_fault.splits)
  with frozenD [OF frozen_simple(5) e] show ?thesis by simp
qed

lemma publish_temporary_replaces:
  assumes "publish_temporary p q nilctx op w = (r, w')" "p \<noteq> q" "fs w q = Some n"
  shows "replaces p n w w' \<and> (r = Inr () \<longrightarrow> fs w' p = Some n)"
proof -
  have qs: "quiet_at p (or_fault op Effectless)" "quiet_at p (validateContext op nilctx)"
    by (intro quiet_intros)+
  from assms(1) [unfolded publish_temporary_def] qs(1) show ?thesis
  proof (cases rule: and_then_cases)
    case (passed x w1)
    have e: "fs w1 = fs w" using passed(1) frozenD [OF frozen_simple(5)] by (auto simp: or_fault_Inr)
    from passed(3) qs(2) show ?thesis
    proof (cases rule: and_then_cases)
      case 2: (passed y w2)
      have "fs w2 = fs w" using e frozenD [OF frozen_simple(1) 2(1)] by simp
      with assms(3) have q: "fs w2 q = Some n" by simp
      have pre: "quiet p w w2" using passed(2) 2(2) by (rule quiet_trans)
      obtain rr w3 where rn: "Rename q p w2 = (rr, w3)" by force
      from Rename_replaces [OF rn assms(2) q] have rep: "replaces p n w2 w3" "rr = Inr () \<longrightarrow> fs w3 p = Some n"
        by simp_all
      show ?thesis
      proof (cases rr)
        case (Inl err)
        then have "w' = w3" "r \<noteq> Inr ()" using 2(3) rn
          by (auto simp: and_then_def or_fault_def handle_def return_err_def)
        then show ?thesis using replaces_trans_quiet [OF pre rep(1)] by simp
      next
        case (Inr u)
        then have s: "or_fault op (syncDirectory (butlast p)) w3 = (r, w')" using 2(3) rn
          by (auto simp: and_then_def or_fault_def handle_def return_ok_def)
        then have q3: "quiet p w3 w'" by (rule quiet_atD [rotated]) (intro quiet_intros)
        from replaces_trans_quiet [OF pre replaces_quiet_trans [OF rep(1) q3]] rep(2) Inr q3
        show ?thesis by (simp add: quiet_def)
      qed
    qed (auto intro: quiet_replaces quiet_trans [OF passed(2)])
  qed (auto intro: quiet_replaces)
qed

lemma CreateTemp_Inr:
  "CreateTemp dir w = (Inr q, w') \<Longrightarrow> \<exists>r. q = dir @ [temp_name r]"
  by (auto simp: CreateTemp_def call_def Let_def split: list.splits fs_fault.splits)

lemma replaceLocked_replaces:
  assumes "replaceLocked p nilctx encoded op w = (r, w')" "p \<noteq> []" "\<forall>r. last p \<noteq> temp_name r"
  shows "\<exists>n. nd_kind n = Regular encoded \<and> nd_perm n = privateFileMode \<and> replaces p n w w' \<and>
    (r = Inr () \<longrightarrow> fs w' p = Some n)"
proof -
  define any where "any = \<lparr>nd_kind = Regular encoded, nd_perm = privateFileMode, nd_sticky = False\<rparr>"
  have kept: ?thesis if "quiet p w w'" "r = Inl err" for err
    using quiet_replaces [OF that(1), of any] that(2) by (intro exI [of _ any]) (simp add: any_def)
  have np: "p \<noteq> butlast p @ [temp_name r]" for r
    using assms(2,3) append_butlast_last_id [of p] by (metis last_snoc)
  have q1: "quiet_at p (ensurePrivateDirectory nilctx (butlast p) op)"
    using assms(2) by (intro quiet_ensurePrivateDirectory) simp
  have q2: "quiet_at p (rejectUnsafeExistingTarget p op)"
    unfolding rejectUnsafeExistingTarget_def by (auto intro!: quiet_intros)
  have q4: "quiet_at p (or_fault op (CreateTemp (butlast p)))"
    using np by (intro quiet_intros quiet_CreateTemp) simp
  have q3: "quiet_at p (validateContext op nilctx)" by (intro quiet_intros)
  from assms(1) [unfolded replaceLocked_def Let_def] q1 show ?thesis
  proof (cases rule: and_then_cases)
    case 1: (passed x1 w1)
    from 1(3) q2 show ?thesis
    proof (cases rule: and_then_cases)
      case 2: (passed x2 w2)
      from 2(3) q3 show ?thesis
      proof (cases rule: and_then_cases)
        case 3: (passed x3 w3)
        from 3(3) q4 show ?thesis
        proof (cases rule: and_then_cases)
          case 4: (passed q w4)
          have pre: "quiet p w w4"
            using quiet_trans [OF quiet_trans [OF 1(2) 2(2)] quiet_trans [OF 3(2) 4(2)]] .
          from 4(1) CreateTemp_Inr [of "butlast p" w3 q w4] np have pq: "p \<noteq> q"
            by (auto simp: or_fault_Inr)
          obtain r5 w5 where f: "fill_temporary q encoded op w4 = (r5, w5)" by force
          from quiet_trans [OF pre quiet_atD [OF quiet_fill_temporary [OF pq] f]] have pre5: "quiet p w w5" .
          show ?thesis
          proof (cases r5)
            case (Inl err)
            then have w': "w' = snd (Remove q (snd (Effectless w5)))" and r: "r = Inl err"
              using 4(3) f by (auto simp: Let_def)
            have "quiet p w5 (snd (Effectless w5))" "quiet p (snd (Effectless w5)) w'"
              unfolding w' using quiet_calls(4) [of p] quiet_changes(4) [OF pq] by (simp_all add: quiet_at_def)
            from kept [OF quiet_trans [OF pre5 quiet_trans [OF this]] r] show ?thesis .
          next
            case (Inr x5)
            from fill_temporary_Inr [OF f [unfolded Inr]] obtain n where
              n: "fs w5 q = Some n" "nd_kind n = Regular encoded" "nd_perm n = privateFileMode" by blast
            obtain r6 w6 where pu: "publish_temporary p q nilctx op w5 = (r6, w6)" by force
            from publish_temporary_replaces [OF pu pq n(1)]
            have rep: "replaces p n w5 w6" "r6 = Inr () \<longrightarrow> fs w6 p = Some n" by simp_all
            have w': "w' = snd (Remove q w6)" "r = r6" using 4(3) f Inr pu by auto
            then have q6: "quiet p w6 w'" using quiet_changes(4) [OF pq] by (simp add: quiet_at_def)
            from replaces_trans_quiet [OF pre5 replaces_quiet_trans [OF rep(1) q6]] rep(2) q6 n w'(2)
            show ?thesis by (intro exI [of _ n]) (simp add: quiet_def)
          qed
        next
          case (failed err)
          from kept [OF quiet_trans [OF quiet_trans [OF 1(2) 2(2)] quiet_trans [OF 3(2) failed(2)]] failed(1)]
          show ?thesis .
        qed
      next
        case (failed err)
        from kept [OF quiet_trans [OF quiet_trans [OF 1(2) 2(2)] failed(2)] failed(1)] show ?thesis .
      qed
    next
      case (failed err)
      from kept [OF quiet_trans [OF 1(2) failed(2)] failed(1)] show ?thesis .
    qed
  next
    case (failed err)
    from kept [OF failed(2,1)] show ?thesis .
  qed
qed

lemma Repository_Save_replaces:
  assumes "Repository_Save p zone nilctx e s w = (r, w')" "p \<noteq> []" "\<forall>r. last p \<noteq> temp_name r"
  shows "quiet p w w' \<and> r \<noteq> Inr () \<or>
    (\<exists>encoded n. encodeDocument zone s = Inr encoded \<and> length encoded \<le> maxDocumentBytes \<and>
       nd_kind n = Regular encoded \<and> nd_perm n = privateFileMode \<and> replaces p n w w' \<and>
       (r = Inr () \<longrightarrow> fs w' p = Some n) \<and>
       ps_Revision (stored p w) = e \<and> e \<noteq> - 1 \<and> ps_Revision s = e + 1)"
proof -
  let ?op = "''save privacy permissions''"
  have q: "quiet_at p (validateContext ?op nilctx)" "quiet_at p (loadLocked p nilctx ?op)"
    by (intro quiet_intros)+
  have same: "stored p v = stored p w" if "quiet p w v" for v using that by (simp add: quiet_def stored_def)
  from assms(1) [unfolded Repository_Save_def Let_def] q(1) show ?thesis
  proof (cases rule: and_then_cases)
    case 1: (passed x1 w1)
    show ?thesis
    proof (cases "\<exists>encoded. encodeDocument zone s = Inr encoded \<and> length encoded \<le> maxDocumentBytes")
      case False
      with 1(3) have "w' = w1" "r \<noteq> Inr ()"
        by (auto simp: return_err_def split: sum.splits if_splits)
      with 1(2) show ?thesis by simp
    next
      case True
      then obtain enc where enc: "encodeDocument zone s = Inr enc" "length enc \<le> maxDocumentBytes" by blast
      from 1(3) [unfolded enc(1) sum.case if_not_P [OF enc(2) [unfolded not_less [symmetric]]]] q(1)
      show ?thesis
      proof (cases rule: and_then_cases)
        case 2: (passed x2 w2)
        have pre2: "quiet p w w2" using 1(2) 2(2) by (rule quiet_trans)
        from 2(3) q(2) show ?thesis
        proof (cases rule: and_then_cases)
          case 3: (passed cur w3)
          have pre3: "quiet p w w3" using pre2 3(2) by (rule quiet_trans)
          from loadLocked_Inr [OF 3(1)] same [OF pre2] have cur: "cur = stored p w" by simp
          show ?thesis
          proof (cases "ps_Revision cur \<noteq> e \<or> e = - 1 \<or> ps_Revision s \<noteq> e + 1")
            case True
            with 3(3) have "w' = w3" "r \<noteq> Inr ()" by (auto simp: return_err_def split: if_splits)
            with pre3 show ?thesis by simp
          next
            case False
            with 3(3) have "and_then (validateContext ?op nilctx) (\<lambda>_. replaceLocked p nilctx enc ?op) w3 = (r, w')"
              by simp
            from this q(1) show ?thesis
            proof (cases rule: and_then_cases)
              case 4: (passed x4 w4)
              have pre4: "quiet p w w4" using pre3 4(2) by (rule quiet_trans)
              from replaceLocked_replaces [OF 4(3) assms(2,3)] obtain n where
                n: "nd_kind n = Regular enc" "nd_perm n = privateFileMode" "replaces p n w4 w'"
                "r = Inr () \<longrightarrow> fs w' p = Some n" by blast
              from replaces_trans_quiet [OF pre4 n(3)] n enc False cur show ?thesis by blast
            qed (use quiet_trans [OF pre3] in auto)
          qed
        qed (use quiet_trans [OF pre2] in auto)
      qed (use quiet_trans [OF 1(2)] in auto)
    qed
  qed auto
qed

lemma stored_node:
  assumes "fs w p = Some n" "nd_kind n = Regular encoded" "encodeDocument zone s = Inr encoded" "canonical s"
  shows "stored p w = s"
proof -
  from assms(4) have "list_all (\<lambda>g. validPermission (gr_Permission g)) (ps_Grants s)"
    by (auto simp: canonical_def validPermission_iff list_all_iff dest!: arg_cong [of "map gr_Permission _" _ set])
  from decode_encode [OF assms(3) this] assms(1,2) show ?thesis by (simp add: stored_def)
qed

lemma Repository_Load_Inr:
  assumes "Repository_Load p nilctx w = (Inr s, w')"
  shows "s = stored p w"
proof -
  from assms obtain w1 where v: "validateContext ''load privacy permissions'' nilctx w = (Inr (), w1)"
    and l: "loadLocked p nilctx ''load privacy permissions'' w1 = (Inr s, w')"
    by (auto simp: Repository_Load_def Let_def and_then_Inr)
  from loadLocked_Inr [OF l] frozenD [OF frozen_simple(1) v] show ?thesis by (simp add: stored_def)
qed

lemma quiet_Repository_Load: "quiet_at p (Repository_Load q nilctx)"
  unfolding Repository_Load_def Let_def by (intro quiet_intros)

section \<open>The file as a permission store\<close>

text \<open>
  The contract of the privacy service, for every path whose last element is not the name of a
  temporary file of the repository, and at the default path of the desktop application.
\<close>

lemma file_repository_simps [simp]:
  "rep_Load (file_repository p zone) = Repository_Load p False"
  "rep_Now (file_repository p zone) = read_clock"
  by (simp_all add: file_repository_def)

lemma rep_Save_iff:
  "rep_Save (file_repository p zone) n s w = (None, w') \<longleftrightarrow> Repository_Save p zone False n s w = (Inr (), w')"
  "rep_Save (file_repository p zone) n s w = (Some err, w') \<longleftrightarrow> Repository_Save p zone False n s w = (Inl err, w')"
  by (auto simp: file_repository_def split: prod.splits sum.splits)

lemma stored_quiet: "quiet p w w' \<Longrightarrow> stored p w' = stored p w"
  by (simp add: quiet_def stored_def)

lemma stored_replaces:
  assumes "replaces p n w w'" "nd_kind n = Regular encoded" "encodeDocument zone s = Inr encoded" "canonical s"
  shows "stored p w' = stored p w \<or> stored p w' = s"
  using assms(1) stored_node [OF _ assms(2-4), of w' p]
  by (auto simp: replaces_def stored_def [of p w] stored_def [of p w'])

lemma Save_stored:
  assumes "Repository_Save p zone False n s w = (r, w')" "p \<noteq> []" "\<forall>x. last p \<noteq> temp_name x" "canonical s"
  shows "stored p w' = stored p w \<or> stored p w' = s" "r = Inr () \<Longrightarrow> stored p w' = s"
    "ps_Revision (stored p w) \<noteq> n \<Longrightarrow> r \<noteq> Inr () \<and> stored p w' = stored p w"
  using Repository_Save_replaces [OF assms(1-3)]
    stored_quiet [of p w w'] stored_replaces [of p _ w w'] stored_node [of w' p] assms(4) by blast+

locale private_file =
  fixes p :: path and zone :: "time \<Rightarrow> int"
  assumes path_given: "p \<noteq> []"
    and path_permanent: "last p \<noteq> temp_name x"

sublocale private_file \<subseteq> permission_store "file_repository p zone" "stored p"
proof
  show "rep_Load (file_repository p zone) w = (Inr s, w') \<Longrightarrow> s = stored p w" for w s w'
    by (simp add: Repository_Load_Inr)
  show "rep_Load (file_repository p zone) w = (r, w') \<Longrightarrow> stored p w' = stored p w" for w r w'
    using quiet_atD [OF quiet_Repository_Load] stored_quiet by simp
  show "rep_Now (file_repository p zone) w = (t, w') \<Longrightarrow> stored p w' = stored p w" for w t w'
    by (auto simp: read_clock_def stored_def split: list.splits)
  show "canonical s \<Longrightarrow> rep_Save (file_repository p zone) n s w = (None, w') \<Longrightarrow> stored p w' = s" for n s w w'
    using Save_stored(2) path_given path_permanent by (simp add: rep_Save_iff)
  show "canonical s \<Longrightarrow> rep_Save (file_repository p zone) n s w = (Some err, w') \<Longrightarrow>
      stored p w' = stored p w \<or> stored p w' = s" for n s w err w'
    using Save_stored(1) path_given path_permanent by (simp add: rep_Save_iff)
  show "ps_Revision (stored p w) \<noteq> n \<Longrightarrow> rep_Save (file_repository p zone) n s w = (e, w') \<Longrightarrow>
      e \<noteq> None \<and> stored p w' = stored p w" for w n s e w'
    using Repository_Save_replaces [OF _ path_given, of zone False n s w] path_permanent stored_quiet [of p w w']
    by (cases e) (auto simp: rep_Save_iff)
qed

definition desktop_path :: "path \<Rightarrow> path" where
  "desktop_path config = config @ [''proactive-interaction-engine'', ''privacy.v1.json'']"

lemma desktop_path_permanent: "last (desktop_path config) \<noteq> temp_name x"
proof -
  have "take 3 (temp_name x) = ''.pr''" by (simp add: temp_name_def)
  moreover have "take 3 (last (desktop_path config)) = ''pri''" by (simp add: desktop_path_def)
  ultimately show ?thesis by auto
qed

interpretation desktop: private_file "desktop_path config" zone for config zone
  by unfold_locales (simp add: desktop_path_def, rule desktop_path_permanent)

end
