(* ===== verification/Privacy_Restart.thy ===== *)
theory Privacy_Restart
  imports Privacy_File
begin

text \<open>
  What the privacy file promises: documents read back as they were written, a save shows the old
  document or the new one at every moment, and a service restarted on its file continues from the
  permissions it last confirmed, or from the one change whose directory sync failed.
\<close>

lemma canonical_permissions:
  "canonical s \<Longrightarrow> list_all (\<lambda>g. validPermission (gr_Permission g)) (ps_Grants s)"
  by (auto simp: canonical_def validPermission_iff list_all_iff dest!: arg_cong [of "map gr_Permission _" _ set])

lemma marshal_grants_None:
  "marshal_grants zone gs = None \<longleftrightarrow> (\<exists>g \<in> set gs. MarshalTime (zone (gd_UpdatedAt g)) (gd_UpdatedAt g) = None)"
  by (induction gs) (auto simp: marshal_grant_def split: option.splits)

lemma encodeDocument_Inl:
  "encodeDocument zone s = Inl err \<Longrightarrow>
    \<exists>g \<in> set (ps_Grants s). MarshalTime (zone (gr_UpdatedAt g)) (gr_UpdatedAt g) = None"
  by (auto simp: encodeDocument_def marshal_document_def Let_def marshal_grants_None split: option.splits)

text \<open>A snapshot of known permissions is read back from its document exactly as it was, whatever the
  time zone it was written in; encoding fails only for an update time that has no RFC 3339 form.\<close>

theorem document_round_trip:
  assumes "\<forall>g \<in> set (ps_Grants s). validPermission (gr_Permission g)"
  shows "case encodeDocument zone s of
      Inr encoded \<Rightarrow> decodeDocument encoded = Inr s
    | Inl err \<Rightarrow> \<exists>g \<in> set (ps_Grants s). MarshalTime (zone (gr_UpdatedAt g)) (gr_UpdatedAt g) = None"
  using assms decode_encode [of zone s] encodeDocument_Inl [of zone s]
  by (auto simp: list_all_iff split: sum.splits)

definition demo_snapshot :: privacy_Snapshot where
  "demo_snapshot =
     \<lparr>ps_Revision = 3, ps_Grants =
        [\<lparr>gr_Permission = CameraCapture, gr_Enabled = True, gr_UpdatedAt = 63922608000120000000\<rparr>,
         \<lparr>gr_Permission = FaceLiveness, gr_Enabled = False, gr_UpdatedAt = 0\<rparr>]\<rparr>"

lemma demo_encoded:
  "map_sum id (filter (\<lambda>c. c \<noteq> quote_char)) (encodeDocument (\<lambda>t. if t = 0 then 0 else 480) demo_snapshot) =
     Inr (''{schema_version:v1,revision:3,grants:['' @
          ''{permission:CAMERA_CAPTURE,enabled:true,updated_at:2026-08-18T08:00:00.12+08:00},'' @
          ''{permission:FACE_LIVENESS,enabled:false,updated_at:0001-01-01T00:00:00Z}]}'' @ [CHR 0x0A])"
  by code_simp

lemma document_round_trip_witness:
  "\<exists>encoded. encodeDocument (\<lambda>t. if t = 0 then 0 else 480) demo_snapshot = Inr encoded \<and>
     decodeDocument encoded = Inr demo_snapshot"
proof -
  have "\<forall>g \<in> set (ps_Grants demo_snapshot). validPermission (gr_Permission g)" by code_simp
  moreover have "\<not> isl (encodeDocument (\<lambda>t. if t = 0 then 0 else 480) demo_snapshot)" by code_simp
  ultimately show ?thesis
    using document_round_trip [of demo_snapshot "\<lambda>t. if t = 0 then 0 else 480"] by (auto split: sum.splits)
qed

lemma clean_load:
  assumes "fs v p = Some n" "nd_kind n = Regular encoded" "nd_perm n = privateFileMode"
    and "length encoded \<le> maxDocumentBytes" "decodeDocument encoded = Inr s"
    and "fs_faults v = []" "fs_ctx v = []"
  shows "Repository_Load p False v = (Inr s, v)"
  using assms
  by (simp add: Repository_Load_def Let_def loadLocked_def read_document_def and_then_def handle_def
      or_fault_def return_ok_def return_err_def validateContext_def Lstat_def OpenFile_def ReadAll_def
      Effectless_def call_def check_target_def is_regular_def shared_mode_def privateFileMode_def)

lemma saved_loads:
  assumes "Repository_Save p zone False e s w = (Inr (), w')" "p \<noteq> []" "\<forall>x. last p \<noteq> temp_name x" "canonical s"
    and "fs v p = fs w' p" "fs_faults v = []" "fs_ctx v = []"
  shows "Repository_Load p False v = (Inr s, v)"
proof -
  from Repository_Save_replaces [OF assms(1-3)] obtain enc n where
    "encodeDocument zone s = Inr enc" "length enc \<le> maxDocumentBytes"
    "nd_kind n = Regular enc" "nd_perm n = privateFileMode" "fs w' p = Some n" by blast
  then show ?thesis
    using assms(5-7) decode_encode [OF _ canonical_permissions [OF assms(4)]]
    by (intro clean_load [of v p n enc]) auto
qed

text \<open>C38. Saving is atomic: whatever system call fails and whenever the context ends, every file system
  that existed in between shows the old document or the new one. A save that succeeds was given the
  successor of the persisted revision, and the next undisturbed load returns what was saved.\<close>

theorem save_atomic:
  assumes "\<forall>x. last p \<noteq> temp_name x" "p \<noteq> []" "canonical s"
    and "Repository_Save p zone False expected s w = (r, w')"
  shows "\<exists>seen. fs_log w' = fs_log w @ seen \<and>
      (\<forall>f \<in> set seen. stored p (w\<lparr>fs := f\<rparr>) \<in> {stored p w, s}) \<and>
      (case r of
         Inl err \<Rightarrow> stored p w' \<in> {stored p w, s}
       | Inr _ \<Rightarrow> ps_Revision (stored p w) = expected \<and> expected \<noteq> - 1 \<and> ps_Revision s = expected + 1 \<and>
           (\<forall>v. fs v p = fs w' p \<and> fs_faults v = [] \<and> fs_ctx v = [] \<longrightarrow>
              Repository_Load p False v = (Inr s, v)))"
proof -
  from Repository_Save_replaces [OF assms(4,2,1)] show ?thesis
  proof
    assume q: "quiet p w w' \<and> r \<noteq> Inr ()"
    then obtain l where l: "fs_log w' = fs_log w @ l" "\<forall>f \<in> set l. f p = fs w p" by (auto simp: quiet_def)
    moreover from q have "stored p w' = stored p w" by (simp add: stored_quiet)
    ultimately show ?thesis
      using q by (intro exI [of _ l]) (auto simp: stored_def split: sum.splits)
  next
    assume "\<exists>encoded n. encodeDocument zone s = Inr encoded \<and> length encoded \<le> maxDocumentBytes \<and>
       nd_kind n = Regular encoded \<and> nd_perm n = privateFileMode \<and> replaces p n w w' \<and>
       (r = Inr () \<longrightarrow> fs w' p = Some n) \<and>
       ps_Revision (stored p w) = expected \<and> expected \<noteq> - 1 \<and> ps_Revision s = expected + 1"
    then obtain enc n where e: "encodeDocument zone s = Inr enc" "length enc \<le> maxDocumentBytes"
      and n: "nd_kind n = Regular enc" "nd_perm n = privateFileMode" "replaces p n w w'"
        "r = Inr () \<longrightarrow> fs w' p = Some n"
      and rev: "ps_Revision (stored p w) = expected" "expected \<noteq> - 1" "ps_Revision s = expected + 1"
      by blast
    note new = stored_node [OF _ n(1) e(1) assms(3)]
    from n(3) obtain l where l: "fs_log w' = fs_log w @ l" "\<forall>f \<in> set l. f p = fs w p \<or> f p = Some n"
      by (auto simp: replaces_def)
    have "stored p (w\<lparr>fs := f\<rparr>) \<in> {stored p w, s}" if "f \<in> set l" for f
      using l(2) that new [of "w\<lparr>fs := f\<rparr>" p] by (auto simp: stored_def)
    moreover have "Repository_Load p False v = (Inr s, v)"
      if "r = Inr ()" "fs v p = fs w' p" "fs_faults v = []" "fs_ctx v = []" for v
      using saved_loads [OF assms(4) [unfolded that(1)] assms(2,1,3) that(2-4)] .
    ultimately show ?thesis
      using l(1) rev stored_replaces [OF n(3,1) e(1) assms(3)]
      by (intro exI [of _ l]) (auto split: sum.splits)
  qed
qed

text \<open>A home directory, with the outcomes of the next system calls, for the examples.\<close>

definition home :: "fs_fault list \<Rightarrow> time list \<Rightarrow> fs_world" where
  "home faults clock =
     \<lparr>fs = (\<lambda>p. if p = [''home''] then Some \<lparr>nd_kind = Directory, nd_perm = 493, nd_sticky = False\<rparr> else None),
      fs_faults = faults, fs_ctx = [], fs_random = [''1'', ''2'', ''3''],
      fs_clock = clock, fs_log = []\<rparr>"

definition home_zone :: "time \<Rightarrow> int" where
  "home_zone t = (if t = 0 then 0 else 480)"

definition saved_snapshot :: privacy_Snapshot where
  "saved_snapshot = \<lparr>ps_Revision = 1, ps_Grants = map (\<lambda>p. \<lparr>gr_Permission = p, gr_Enabled = (p = CameraCapture),
      gr_UpdatedAt = (if p = CameraCapture then 63922608000120000000 else 0)\<rparr>) permissionOrder\<rparr>"

lemma saved_snapshot_fits:
  "case encodeDocument home_zone saved_snapshot of Inr e \<Rightarrow> int (length e) < 1000 | Inl _ \<Rightarrow> False"
  by code_simp

lemma save_atomic_witness:
  "\<exists>seen. fs_log (snd (Repository_Save (desktop_path [''home'']) home_zone False 0 saved_snapshot (home [] []))) = seen \<and>
     (\<forall>f \<in> set seen. stored (desktop_path [''home'']) ((home [] [])\<lparr>fs := f\<rparr>)
        \<in> {stored (desktop_path [''home'']) (home [] []), saved_snapshot})"
proof -
  let ?r = "Repository_Save (desktop_path [''home'']) home_zone False 0 saved_snapshot (home [] [])"
  have "canonical saved_snapshot" by code_simp
  moreover have "desktop_path [''home''] \<noteq> []" by (simp add: desktop_path_def)
  ultimately show ?thesis
    using save_atomic [of "desktop_path [''home'']" saved_snapshot home_zone 0 "home [] []" "fst ?r" "snd ?r"]
      desktop_path_permanent by (auto simp: home_def)
qed

text \<open>C39. A service restarted on the file of the desktop application has the permissions of the service
  that ran before it, whatever calls failed. The only exception is one revision ahead: a change that
  was reported as failed is on disk, and then the old service can change nothing any more.\<close>

theorem restart_restores_permissions:
  assumes "Service_New (file_repository (desktop_path config) zone) True ctx0 w0 = (Inr s0, w1)"
    and "Service_run (file_repository (desktop_path config) zone) s0 cs w1 = Some (s, w2)"
    and "unat (ps_Revision (srv_current s0)) + length cs < 2 ^ 64"
    and "Service_New (file_repository (desktop_path config) zone) True ctx1 w2 = (Inr s1, w3)"
  shows "s1 = s \<or>
    ps_Revision (srv_current s1) = ps_Revision (srv_current s) + 1 \<and>
    (\<forall>cs' s' w'. Service_run (file_repository (desktop_path config) zone) s cs' w2 = Some (s', w') \<longrightarrow> s' = s)"
proof -
  note can = Service_New_canonical [OF assms(1)]
  from Service_run_ok [OF can, of "file_repository (desktop_path config) zone" cs w1] assms(2)
  have can': "canonical (srv_current s)" by simp
  from desktop.run_in_step_or_ahead [OF desktop.New_in_step [OF assms(1)] can assms(2,3)] show ?thesis
  proof
    assume "desktop.in_step config s w2"
    from desktop.restart_in_step [OF this assms(4)] show ?thesis by simp
  next
    assume a: "desktop.ahead config s w2"
    from desktop.restart_ahead [OF a assms(4)] desktop.run_ahead [OF a can'] show ?thesis by blast
  qed
qed

lemmas home_steps =
  Repository_Save_def Let_def loadLocked_def and_then_def handle_def or_fault_def return_ok_def return_err_def
  validateContext_def Lstat_def Effectless_def call_def check_target_def shared_mode_def privateDirMode_def
  replaceLocked_def ensurePrivateDirectory_def lstat_or_make_def rejectUnsafeExistingTarget_def
  fill_temporary_def publish_temporary_def syncDirectory_def Mkdir_def Chmod_def Write_def CreateTemp_def
  Rename_def Remove_def put_def blank_snapshot_def home_def desktop_path_def temp_name_def

lemma home_save:
  assumes "encodeDocument zone s = Inr enc" "length enc \<le> maxDocumentBytes" "ps_Revision s = 1"
  shows "\<exists>w. Repository_Save (desktop_path [''home'']) zone False 0 s (home [] c) = (Inr (), w) \<and> fs_faults w = [] \<and> fs_ctx w = []"
  using assms by (simp add: home_steps)

definition home_repository :: "fs_world Repository" where
  "home_repository = file_repository (desktop_path [''home'']) home_zone"

definition allow_camera :: ChangePermission where
  "allow_camera = \<lparr>cp_Permission = CameraCapture, cp_Enabled = True\<rparr>"

lemma home_change:
  "\<exists>w. Service_Change home_repository demo_service Live allow_camera (home [] [63922608000120000000]) =
       Some (Inr saved_snapshot, \<lparr>srv_current = saved_snapshot\<rparr>, w) \<and>
     Repository_Load (desktop_path [''home'']) False w = (Inr saved_snapshot, w)"
proof -
  from saved_snapshot_fits obtain e where "encodeDocument home_zone saved_snapshot = Inr e" "int (length e) < 1000"
    by (auto split: sum.splits)
  then obtain w where sv: "Repository_Save (desktop_path [''home'']) home_zone False 0 saved_snapshot (home [] []) = (Inr (), w)"
    and w: "fs_faults w = []" "fs_ctx w = []"
    using home_save [of home_zone saved_snapshot e "[]"] by (auto simp: maxDocumentBytes_def saved_snapshot_def)
  have "canonical saved_snapshot" by code_simp
  then have "Repository_Load (desktop_path [''home'']) False w = (Inr saved_snapshot, w)"
    using desktop_path_permanent w by (intro saved_loads [OF sv]) (simp_all add: desktop_path_def)
  moreover have "grantIndex (ps_Grants (srv_current demo_service)) CameraCapture = 0"
    "\<not> gr_Enabled (ps_Grants (srv_current demo_service) ! 0)" "validPermission CameraCapture"
    "ps_Revision (srv_current demo_service) = 0" by code_simp+
  moreover have "(srv_current demo_service)\<lparr>ps_Revision := 1, ps_Grants := (ps_Grants (srv_current demo_service))
      [0 := (ps_Grants (srv_current demo_service) ! 0)\<lparr>gr_Enabled := True, gr_UpdatedAt := 63922608000120000000\<rparr>]\<rparr>
      = saved_snapshot" by code_simp
  moreover have "read_clock (home [] [63922608000120000000]) = (63922608000120000000, home [] [])"
    by (simp add: read_clock_def home_def)
  moreover have "demo_service\<lparr>srv_current := s\<rparr> = \<lparr>srv_current = s\<rparr>" for s by (simp add: demo_service_def)
  ultimately show ?thesis
    using sv by (intro exI [of _ w])
      (simp add: Service_Change_def Let_def check_ctx_def allow_camera_def home_repository_def file_repository_def)
qed

lemma restart_restores_permissions_witness:
  "\<exists>w2 s1 w3. Service_run home_repository demo_service [(Live, allow_camera)] (home [] [63922608000120000000]) =
       Some (\<lparr>srv_current = saved_snapshot\<rparr>, w2) \<and>
     Service_New home_repository True Live w2 = (Inr s1, w3) \<and>
     (s1 = \<lparr>srv_current = saved_snapshot\<rparr> \<or> ps_Revision (srv_current s1) = 2)"
proof -
  from home_change obtain w where
    ch: "Service_Change home_repository demo_service Live allow_camera (home [] [63922608000120000000]) =
       Some (Inr saved_snapshot, \<lparr>srv_current = saved_snapshot\<rparr>, w)"
    and ld: "Repository_Load (desktop_path [''home'']) False w = (Inr saved_snapshot, w)" by blast
  have "canonical saved_snapshot" "ps_Revision saved_snapshot \<noteq> 0" by code_simp+
  then have new: "Service_New home_repository True Live w = (Inr \<lparr>srv_current = saved_snapshot\<rparr>, w)"
    using ld canonicalize_id by (simp add: Service_New_def check_ctx_def home_repository_def Let_def)
  have "Repository_Load (desktop_path [''home'']) False (home [] c) = (Inr blank_snapshot, home [] c)" for c
    by (simp add: Repository_Load_def Let_def loadLocked_def and_then_def handle_def validateContext_def
        Lstat_def call_def home_def desktop_path_def return_ok_def)
  moreover have "canonicalize blank_snapshot = Inr (srv_current demo_service)" by code_simp
  ultimately have "Service_New home_repository True Live (home [] c) = (Inr demo_service, home [] c)" for c
    by (simp add: Service_New_def check_ctx_def home_repository_def Let_def)
  moreover have "Service_run home_repository demo_service [(Live, allow_camera)] (home [] [63922608000120000000]) =
      Some (\<lparr>srv_current = saved_snapshot\<rparr>, w)" by (simp add: ch)
  ultimately show ?thesis
    using restart_restores_permissions [of "[''home'']" home_zone Live _ demo_service _ "[(Live, allow_camera)]"
        "\<lparr>srv_current = saved_snapshot\<rparr>" w Live "\<lparr>srv_current = saved_snapshot\<rparr>" w] new
    by (auto simp: home_repository_def saved_snapshot_def demo_service_def)
qed

text \<open>When syncing the directory fails the change is refused, but persisted.\<close>

lemma home_sync_fails:
  assumes "encodeDocument zone s = Inr enc" "length enc \<le> maxDocumentBytes" "canonical s" "ps_Revision s = 1"
  shows "\<exists>err w. Repository_Save (desktop_path [''home'']) zone False 0 s
        (home [No_fault, No_fault, No_fault, No_fault, No_fault, No_fault, No_fault, No_fault, No_fault,
               No_fault, No_fault, No_fault, No_fault, No_fault, Broken] c) =
      (Inl err, w) \<and> stored (desktop_path [''home'']) w = s"
  using assms(1,2,4) decode_encode [OF assms(1) canonical_permissions [OF assms(3)]]
  by (simp add: home_steps stored_def)

end
