(* ===== verification/Runner.thy ===== *)
theory Runner
  imports Engine_Inv
begin

text \<open>
  Package \<^verbatim>\<open>internal/runtime/lifecycle\<close> (\<^verbatim>\<open>runner.go\<close>): the loop that gives the engine its single
  writer. The two bounded queues, the one unit of active work and the scheduled wakeup are the
  state; \<^verbatim>\<open>Run\<close> is a step function with a program counter, one step per \<^verbatim>\<open>select\<close>, and an
  argument that resolves the choice where several cases of a blocking \<^verbatim>\<open>select\<close> are ready. A work
  goroutine takes effect at the step in which it completes; \<open>ctxSeen\<close> is the context error it meets.
  The clients' sends, cancellations, timers and the end of the context of \<^verbatim>\<open>Run\<close> are steps of their
  own, so every interleaving of them with the loop is a run.
\<close>

section \<open>State\<close>

record 'e processor =
  pr_Process :: "goerror option \<Rightarrow> Observation \<Rightarrow> 'e \<Rightarrow> (Result \<times> goerror option) \<times> 'e"
  pr_StopAll :: "Command \<Rightarrow> 'e \<Rightarrow> goerror option \<times> 'e"
  pr_CommitUserRejection :: "goerror option \<Rightarrow> Command \<Rightarrow> 'e \<Rightarrow> goerror option \<times> 'e"
  pr_NextWakeup :: "'e \<Rightarrow> Wakeup option"
  pr_AdvanceAt :: "goerror option \<Rightarrow> Wakeup \<Rightarrow> 'e \<Rightarrow> (Result \<times> goerror option) \<times> 'e"
  pr_Now :: "'e \<Rightarrow> time"

record RunnerConfig =
  rc_ObservationCapacity :: int
  rc_ControlCapacity :: int
  rc_StopTimeout :: duration

definition DefaultConfig :: RunnerConfig where
  "DefaultConfig = \<lparr>rc_ObservationCapacity = 256, rc_ControlCapacity = 32,
                    rc_StopTimeout = 50 * Millisecond\<rparr>"

definition RunnerConfig_Validate :: "RunnerConfig \<Rightarrow> goerror option" where
  "RunnerConfig_Validate c =
     (if rc_ObservationCapacity c \<le> 0 \<or> rc_ControlCapacity c \<le> 0 then
        Some (Leaf ''observation and control capacities must be positive'')
      else if rc_StopTimeout c \<le> 0 then Some (Leaf ''stop timeout must be positive'')
      else None)"

type_synonym workResult = "Result \<times> goerror option"

text \<open>A request is identified by its number; \<open>or_ctxErr\<close> is the error of its context.\<close>

record observationRequest =
  or_id :: nat
  or_ctxErr :: "goerror option"
  or_input :: Observation

record controlRequest =
  cr_id :: nat
  cr_command :: Command

datatype work_kind = ObservationWork observationRequest | WakeupWork Wakeup

record activeWork =
  wo_kind :: work_kind
  wo_cancelled :: bool
  wo_completed :: "workResult option"

text \<open>\<open>sw_timer\<close>: no timer, or the instant it is set for and whether it has fired.\<close>

record scheduledWakeup =
  sw_wakeup :: Wakeup
  sw_timer :: "(time \<times> bool) option"
  sw_due :: bool

datatype run_pc =
    NotStarted
  | PollControls
  | PollWork
  | SelectIdle
  | SelectBusy
  | Returned goerror

record 'e Runner =
  rn_config :: RunnerConfig
  rn_processor :: 'e
  rn_observations :: "observationRequest list"
  rn_controls :: "controlRequest list"
  rn_active :: "activeWork option"
  rn_scheduled :: "scheduledWakeup option"
  rn_pc :: run_pc
  rn_ctxErr :: "goerror option"
  rn_responses :: "(nat \<times> workResult) list"
  rn_controlResponses :: "(nat \<times> goerror option) list"
  rn_accepted :: "nat list"
  rn_acceptedControls :: "nat list"

definition Runner_New :: "RunnerConfig \<Rightarrow> 'e option \<Rightarrow> goerror + 'e Runner" where
  "Runner_New config deps =
     (case RunnerConfig_Validate config of
        Some err \<Rightarrow> Inl (Wrapf ''validate lifecycle config'' err)
      | None \<Rightarrow>
          (case deps of
             None \<Rightarrow> Inl (Leaf ''processor and clock are required'')
           | Some p \<Rightarrow>
               Inr \<lparr>rn_config = config, rn_processor = p, rn_observations = [], rn_controls = [],
                    rn_active = None, rn_scheduled = None, rn_pc = NotStarted, rn_ctxErr = None,
                    rn_responses = [], rn_controlResponses = [], rn_accepted = [],
                    rn_acceptedControls = []\<rparr>))"

definition runnerUnavailable :: goerror where
  "runnerUnavailable = New_fault Unavailable ''submit to lifecycle'' (Leaf ''runner is not running'')"

section \<open>Submitting\<close>

text \<open>
  The send of a request: \<open>None\<close> while it blocks on a full queue. A request that is sent waits for
  its response, for the end of \<^verbatim>\<open>Run\<close> or for its own context; \<open>preferCtx\<close> resolves the race of
  the last two with a response that is there.
\<close>

definition SubmitObservation_send ::
    "goerror option \<Rightarrow> Observation \<Rightarrow> 'e Runner \<Rightarrow> (goerror + nat \<times> 'e Runner) option" where
  "SubmitObservation_send ctxErr input r =
     (case ctxErr of
        Some err \<Rightarrow> Some (Inl err)
      | None \<Rightarrow>
          if int (length (rn_observations r)) < rc_ObservationCapacity (rn_config r) then
            let i = length (rn_accepted r) in
            Some (Inr (i, r\<lparr>rn_observations := rn_observations r @
                               [\<lparr>or_id = i, or_ctxErr = None, or_input = input\<rparr>],
                            rn_accepted := rn_accepted r @ [i]\<rparr>))
          else (case rn_pc r of Returned err \<Rightarrow> Some (Inl runnerUnavailable) | _ \<Rightarrow> None))"

definition SubmitControl_send ::
    "goerror option \<Rightarrow> Command \<Rightarrow> 'e Runner \<Rightarrow> (goerror + nat \<times> 'e Runner) option" where
  "SubmitControl_send ctxErr command r =
     (case Command_Validate command of
        Some err \<Rightarrow> Some (Inl err)
      | None \<Rightarrow>
          (case ctxErr of
             Some err \<Rightarrow> Some (Inl err)
           | None \<Rightarrow>
               if int (length (rn_controls r)) < rc_ControlCapacity (rn_config r) then
                 let i = length (rn_acceptedControls r) in
                 Some (Inr (i, r\<lparr>rn_controls := rn_controls r @ [\<lparr>cr_id = i, cr_command = command\<rparr>],
                                 rn_acceptedControls := rn_acceptedControls r @ [i]\<rparr>))
               else (case rn_pc r of Returned err \<Rightarrow> Some (Inl runnerUnavailable) | _ \<Rightarrow> None)))"

definition SubmitObservation_await ::
    "bool \<Rightarrow> goerror option \<Rightarrow> nat \<Rightarrow> 'e Runner \<Rightarrow> workResult option" where
  "SubmitObservation_await preferCtx ctxErr i r =
     (case (ctxErr, map_of (rn_responses r) i) of
        (Some err, None) \<Rightarrow> Some (zero_Result, Some err)
      | (Some err, Some res) \<Rightarrow> Some (if preferCtx then (zero_Result, Some err) else res)
      | (None, Some res) \<Rightarrow> Some res
      | (None, None) \<Rightarrow>
          (case rn_pc r of Returned err \<Rightarrow> Some (zero_Result, Some runnerUnavailable) | _ \<Rightarrow> None))"

definition SubmitControl_await ::
    "bool \<Rightarrow> goerror option \<Rightarrow> nat \<Rightarrow> 'e Runner \<Rightarrow> goerror option option" where
  "SubmitControl_await preferCtx ctxErr i r =
     (case (ctxErr, map_of (rn_controlResponses r) i) of
        (Some err, None) \<Rightarrow> Some (Some err)
      | (Some err, Some res) \<Rightarrow> Some (if preferCtx then Some err else res)
      | (None, Some res) \<Rightarrow> Some res
      | (None, None) \<Rightarrow>
          (case rn_pc r of Returned err \<Rightarrow> Some (Some runnerUnavailable) | _ \<Rightarrow> None))"

section \<open>The operations of the loop\<close>

definition work_run ::
    "'e processor \<Rightarrow> goerror option \<Rightarrow> work_kind \<Rightarrow> 'e \<Rightarrow> workResult \<times> 'e" where
  "work_run P ctxSeen kind p =
     (case kind of
        ObservationWork req \<Rightarrow> pr_Process P ctxSeen (or_input req) p
      | WakeupWork wk \<Rightarrow> pr_AdvanceAt P ctxSeen wk p)"

text \<open>The goroutine of the active work completes, unless it has.\<close>

definition complete_work :: "'e processor \<Rightarrow> goerror option \<Rightarrow> 'e Runner \<Rightarrow> 'e Runner" where
  "complete_work P ctxSeen r =
     (case rn_active r of
        None \<Rightarrow> r
      | Some a \<Rightarrow>
          (case wo_completed a of
             Some res \<Rightarrow> r
           | None \<Rightarrow>
               let (res, p') = work_run P ctxSeen (wo_kind a) (rn_processor r)
               in r\<lparr>rn_processor := p', rn_active := Some (a\<lparr>wo_completed := Some res\<rparr>)\<rparr>))"

definition cancel_work :: "'e Runner \<Rightarrow> 'e Runner" where
  "cancel_work r = r\<lparr>rn_active := map_option (\<lambda>a. a\<lparr>wo_cancelled := True\<rparr>) (rn_active r)\<rparr>"

text \<open>\<^verbatim>\<open>finish\<close> of a completed work: the response of an observation, the error of a wakeup.\<close>

definition finish_work :: "'e Runner \<Rightarrow> goerror option \<times> 'e Runner" where
  "finish_work r =
     (case rn_active r of
        None \<Rightarrow> (None, r)
      | Some a \<Rightarrow>
          (case wo_completed a of
             None \<Rightarrow> (None, r)
           | Some (res, err) \<Rightarrow>
               (case wo_kind a of
                  ObservationWork req \<Rightarrow>
                    (None, r\<lparr>rn_active := None,
                             rn_responses := rn_responses r @ [(or_id req, res, err)]\<rparr>)
                | WakeupWork wk \<Rightarrow>
                    (case err of
                       None \<Rightarrow> None
                     | Some e \<Rightarrow>
                         if ErrIs e ContextCanceled then None
                         else Some (Wrapf (''advance wakeup '' @ wk_Token wk) e),
                     r\<lparr>rn_active := None\<rparr>))))"

definition startObservation :: "observationRequest \<Rightarrow> 'e Runner \<Rightarrow> 'e Runner" where
  "startObservation req r =
     (case or_ctxErr req of
        Some err \<Rightarrow> r\<lparr>rn_responses := rn_responses r @ [(or_id req, zero_Result, Some err)]\<rparr>
      | None \<Rightarrow> r\<lparr>rn_active := Some \<lparr>wo_kind = ObservationWork req, wo_cancelled = False,
                                     wo_completed = None\<rparr>\<rparr>)"

definition startWakeup :: "Wakeup \<Rightarrow> 'e Runner \<Rightarrow> 'e Runner" where
  "startWakeup wk r =
     r\<lparr>rn_active := Some \<lparr>wo_kind = WakeupWork wk, wo_cancelled = False, wo_completed = None\<rparr>\<rparr>"

definition refreshWakeup :: "'e processor \<Rightarrow> 'e Runner \<Rightarrow> 'e Runner" where
  "refreshWakeup P r =
     (case pr_NextWakeup P (rn_processor r) of
        None \<Rightarrow> r\<lparr>rn_scheduled := None\<rparr>
      | Some wk \<Rightarrow>
          if \<not> After (wk_Deadline wk) (pr_Now P (rn_processor r)) then
            r\<lparr>rn_scheduled := Some \<lparr>sw_wakeup = wk, sw_timer = None, sw_due = True\<rparr>\<rparr>
          else
            r\<lparr>rn_scheduled := Some \<lparr>sw_wakeup = wk, sw_timer = Some (wk_Deadline wk, False),
                                     sw_due = False\<rparr>\<rparr>)"

definition handleControl ::
    "'e processor \<Rightarrow> goerror option \<Rightarrow> controlRequest \<Rightarrow> 'e Runner \<Rightarrow> goerror option \<times> 'e Runner" where
  "handleControl P ctxSeen req r =
     (let r1 = cancel_work r;
          (stopErr, p1) = pr_StopAll P (cr_command req) (rn_processor r1);
          (workErr, r2) = finish_work (complete_work P ctxSeen (r1\<lparr>rn_processor := p1\<rparr>));
          (commitErr, p2) =
            (if ctl_Reason (cr_command req) = ReasonUserRejected
             then pr_CommitUserRejection P (rn_ctxErr r2) (cr_command req) (rn_processor r2)
             else (None, rn_processor r2))
      in (workErr,
          r2\<lparr>rn_processor := p2,
             rn_controlResponses := rn_controlResponses r2 @
               [(cr_id req, errors_Join [stopErr, commitErr])]\<rparr>))"

definition shutdownCommand :: Command where
  "shutdownCommand =
     \<lparr>ctl_ID = ''runtime-shutdown'', ctl_Kind = StopAll, ctl_Reason = ReasonShutdown,
      ctl_SubjectID = [], ctl_OccurredAt = 0, ctl_TraceID = ''runtime-shutdown''\<rparr>"

definition rejectQueuedControls :: "goerror \<Rightarrow> 'e Runner \<Rightarrow> 'e Runner" where
  "rejectQueuedControls cause r =
     r\<lparr>rn_controls := [],
       rn_controlResponses := rn_controlResponses r @ map (\<lambda>q. (cr_id q, Some cause)) (rn_controls r)\<rparr>"

definition rejectQueued :: "goerror \<Rightarrow> 'e Runner \<Rightarrow> 'e Runner" where
  "rejectQueued cause r =
     rejectQueuedControls cause
       (r\<lparr>rn_observations := [],
          rn_responses := rn_responses r @
            map (\<lambda>q. (or_id q, zero_Result, Some cause)) (rn_observations r)\<rparr>)"

text \<open>\<^verbatim>\<open>shutdown\<close>, with the \<^verbatim>\<open>stopScheduled\<close> of its callers and the return of \<^verbatim>\<open>Run\<close>.\<close>

definition shutdown :: "'e processor \<Rightarrow> goerror option \<Rightarrow> goerror \<Rightarrow> 'e Runner \<Rightarrow> 'e Runner" where
  "shutdown P ctxSeen cause r =
     (let r1 = cancel_work (r\<lparr>rn_scheduled := None\<rparr>);
          (stopErr, p1) = pr_StopAll P shutdownCommand (rn_processor r1);
          r2 = snd (finish_work (complete_work P ctxSeen (r1\<lparr>rn_processor := p1\<rparr>)));
          r3 = rejectQueued cause r2
      in r3\<lparr>rn_pc := Returned
              (case stopErr of
                 Some e \<Rightarrow> New_fault Unavailable ''stop actions during lifecycle shutdown'' e
               | None \<Rightarrow> cause)\<rparr>)"

definition after_work :: "'e processor \<Rightarrow> goerror option \<Rightarrow> goerror option \<times> 'e Runner \<Rightarrow> 'e Runner" where
  "after_work P ctxSeen wr =
     (let r = refreshWakeup P (snd wr) in
      case fst wr of
        None \<Rightarrow> r\<lparr>rn_pc := PollControls\<rparr>
      | Some err \<Rightarrow> shutdown P ctxSeen err r)"

definition take_control :: "'e processor \<Rightarrow> goerror option \<Rightarrow> 'e Runner \<Rightarrow> 'e Runner" where
  "take_control P ctxSeen r =
     (case rn_controls r of
        [] \<Rightarrow> r
      | req # rest \<Rightarrow> after_work P ctxSeen (handleControl P ctxSeen req (r\<lparr>rn_controls := rest\<rparr>)))"

section \<open>The loop of Run\<close>

text \<open>The start of \<^verbatim>\<open>Run\<close>, which may be called once (\<^verbatim>\<open>markStarted\<close>).\<close>

definition Run_begin :: "'e processor \<Rightarrow> 'e Runner \<Rightarrow> goerror + 'e Runner" where
  "Run_begin P r =
     (if rn_pc r \<noteq> NotStarted then
        Inl (New_fault InvalidInput ''run lifecycle'' (Leaf ''runner may only run once''))
      else Inr ((refreshWakeup P r)\<lparr>rn_pc := PollControls\<rparr>))"

datatype select_case = CaseDone | CaseControl | CaseObservation | CaseTimer | CaseCompleted

text \<open>One step of \<^verbatim>\<open>Run\<close>; \<open>None\<close> when the chosen case of a blocking \<^verbatim>\<open>select\<close> is not ready.\<close>

fun run_step ::
    "'e processor \<Rightarrow> goerror option \<Rightarrow> select_case \<Rightarrow> 'e Runner \<Rightarrow> 'e Runner option" where
  "run_step P ctxSeen ch r =
     (case rn_pc r of
        NotStarted \<Rightarrow> (case Run_begin P r of Inl err \<Rightarrow> None | Inr r' \<Rightarrow> Some r')
      | PollControls \<Rightarrow>
          (case rn_controls r of
             [] \<Rightarrow> Some (r\<lparr>rn_pc := (if rn_active r = None then PollWork else SelectBusy)\<rparr>)
           | _ # _ \<Rightarrow> Some (take_control P ctxSeen r))
      | PollWork \<Rightarrow>
          (case rn_observations r of
             req # rest \<Rightarrow>
               Some ((startObservation req (r\<lparr>rn_observations := rest\<rparr>))\<lparr>rn_pc := PollControls\<rparr>)
           | [] \<Rightarrow>
               (case rn_scheduled r of
                  Some s \<Rightarrow>
                    if sw_due s
                    then Some ((startWakeup (sw_wakeup s) r)\<lparr>rn_scheduled := None, rn_pc := PollControls\<rparr>)
                    else Some (r\<lparr>rn_pc := SelectIdle\<rparr>)
                | None \<Rightarrow> Some (r\<lparr>rn_pc := SelectIdle\<rparr>)))
      | SelectIdle \<Rightarrow>
          (case ch of
             CaseDone \<Rightarrow> map_option (\<lambda>err. shutdown P ctxSeen err r) (rn_ctxErr r)
           | CaseControl \<Rightarrow> (if rn_controls r = [] then None else Some (take_control P ctxSeen r))
           | CaseObservation \<Rightarrow>
               (case rn_observations r of
                  [] \<Rightarrow> None
                | req # rest \<Rightarrow>
                    Some ((startObservation req (r\<lparr>rn_observations := rest\<rparr>))\<lparr>rn_pc := PollControls\<rparr>))
           | CaseTimer \<Rightarrow>
               (case rn_scheduled r of
                  Some s \<Rightarrow>
                    (case sw_timer s of
                       Some (t, True) \<Rightarrow>
                         Some (r\<lparr>rn_scheduled := Some (s\<lparr>sw_timer := None, sw_due := True\<rparr>),
                                 rn_pc := PollControls\<rparr>)
                     | _ \<Rightarrow> None)
                | None \<Rightarrow> None)
           | CaseCompleted \<Rightarrow> None)
      | SelectBusy \<Rightarrow>
          (case ch of
             CaseDone \<Rightarrow> map_option (\<lambda>err. shutdown P ctxSeen err r) (rn_ctxErr r)
           | CaseControl \<Rightarrow> (if rn_controls r = [] then None else Some (take_control P ctxSeen r))
           | CaseCompleted \<Rightarrow>
               (case rn_active r of
                  Some a \<Rightarrow>
                    (case wo_completed a of
                       Some res \<Rightarrow> Some (after_work P ctxSeen (finish_work r))
                     | None \<Rightarrow> None)
                | None \<Rightarrow> None)
           | _ \<Rightarrow> None)
      | Returned err \<Rightarrow> None)"

section \<open>Runs\<close>

text \<open>The steps of the rest of the program: clients, contexts, timers and work goroutines.\<close>

datatype runner_event =
    EvObservation "goerror option" Observation
  | EvControl "goerror option" Command
  | EvCancelRequest nat goerror
  | EvCancelRun goerror
  | EvTimer
  | EvWorkDone "goerror option"
  | EvLoop "goerror option" select_case

fun runner_step :: "'e processor \<Rightarrow> runner_event \<Rightarrow> 'e Runner \<Rightarrow> 'e Runner option" where
  "runner_step P (EvObservation ctxErr x) r =
     (case SubmitObservation_send ctxErr x r of
        None \<Rightarrow> None | Some (Inl err) \<Rightarrow> Some r | Some (Inr (i, r')) \<Rightarrow> Some r')"
| "runner_step P (EvControl ctxErr c) r =
     (case SubmitControl_send ctxErr c r of
        None \<Rightarrow> None | Some (Inl err) \<Rightarrow> Some r | Some (Inr (i, r')) \<Rightarrow> Some r')"
| "runner_step P (EvCancelRequest i err) r =
     Some (r\<lparr>rn_observations := map (\<lambda>q. if or_id q = i then q\<lparr>or_ctxErr := Some err\<rparr> else q)
                (rn_observations r)\<rparr>)"
| "runner_step P (EvCancelRun err) r = Some (r\<lparr>rn_ctxErr := Some err\<rparr>)"
| "runner_step P EvTimer r =
     (case rn_scheduled r of
        None \<Rightarrow> None
      | Some s \<Rightarrow>
          (case sw_timer s of
             None \<Rightarrow> None
           | Some (t, fired) \<Rightarrow> Some (r\<lparr>rn_scheduled := Some (s\<lparr>sw_timer := Some (t, True)\<rparr>)\<rparr>)))"
| "runner_step P (EvWorkDone ctxSeen) r = Some (complete_work P ctxSeen r)"
| "runner_step P (EvLoop ctxSeen ch) r = run_step P ctxSeen ch r"

inductive runner_run ::
    "'e processor \<Rightarrow> ('e \<Rightarrow> 'e \<Rightarrow> bool) \<Rightarrow> RunnerConfig \<Rightarrow> 'e \<Rightarrow> 'e Runner \<Rightarrow> bool"
  for P env cfg p0 where
    runner_new: "Runner_New cfg (Some p0) = Inr r \<Longrightarrow> runner_run P env cfg p0 r"
  | runner_env: "runner_run P env cfg p0 r \<Longrightarrow> env (rn_processor r) p' \<Longrightarrow>
      runner_run P env cfg p0 (r\<lparr>rn_processor := p'\<rparr>)"
  | runner_event: "runner_run P env cfg p0 r \<Longrightarrow> runner_step P ev r = Some r' \<Longrightarrow>
      runner_run P env cfg p0 r'"

section \<open>The invariant\<close>

text \<open>The identifiers of the observations in the order the runner treats them.\<close>

definition active_ids :: "'e Runner \<Rightarrow> nat list" where
  "active_ids r =
     (case rn_active r of
        None \<Rightarrow> []
      | Some a \<Rightarrow> (case wo_kind a of ObservationWork q \<Rightarrow> [or_id q] | WakeupWork wk \<Rightarrow> []))"

definition obs_ids :: "'e Runner \<Rightarrow> nat list" where
  "obs_ids r = map fst (rn_responses r) @ active_ids r @ map or_id (rn_observations r)"

definition ctl_ids :: "'e Runner \<Rightarrow> nat list" where
  "ctl_ids r = map fst (rn_controlResponses r) @ map cr_id (rn_controls r)"

definition counts :: "nat list \<Rightarrow> bool" where
  "counts xs = (xs = [0..<length xs])"

definition queues_ok :: "'e Runner \<Rightarrow> bool" where
  "queues_ok r =
     (obs_ids r = rn_accepted r \<and> ctl_ids r = rn_acceptedControls r \<and>
      counts (rn_accepted r) \<and> counts (rn_acceptedControls r) \<and>
      int (length (rn_observations r)) \<le> rc_ObservationCapacity (rn_config r) \<and>
      int (length (rn_controls r)) \<le> rc_ControlCapacity (rn_config r))"

definition pc_ok :: "'e Runner \<Rightarrow> bool" where
  "pc_ok r =
     (case rn_pc r of
        NotStarted \<Rightarrow> rn_active r = None \<and> rn_scheduled r = None
      | PollControls \<Rightarrow> True
      | PollWork \<Rightarrow> rn_active r = None
      | SelectIdle \<Rightarrow> rn_active r = None
      | SelectBusy \<Rightarrow> rn_active r \<noteq> None
      | Returned err \<Rightarrow> rn_active r = None \<and> rn_scheduled r = None)"

text \<open>While nothing runs, the schedule is the processor's: due, or with a timer at the deadline.\<close>

definition schedule_ok :: "'e processor \<Rightarrow> 'e Runner \<Rightarrow> bool" where
  "schedule_ok P r =
     (rn_active r = None \<and> rn_pc r \<in> {PollControls, PollWork, SelectIdle} \<longrightarrow>
        map_option sw_wakeup (rn_scheduled r) = pr_NextWakeup P (rn_processor r) \<and>
        (\<forall>s. rn_scheduled r = Some s \<longrightarrow>
           sw_due s \<or> (\<exists>fired. sw_timer s = Some (wk_Deadline (sw_wakeup s), fired))))"

definition runner_ok :: "'e processor \<Rightarrow> 'e Runner \<Rightarrow> bool" where
  "runner_ok P r = (queues_ok r \<and> pc_ok r \<and> schedule_ok P r)"

section \<open>The operations keep the queues\<close>

text \<open>What every internal operation of the loop keeps: the order of the observations and of the
  controls, the queues, and what was accepted.\<close>

definition same_work :: "'e Runner \<Rightarrow> 'e Runner \<Rightarrow> bool" where
  "same_work r r' =
     (obs_ids r' = obs_ids r \<and> ctl_ids r' = ctl_ids r \<and>
      rn_accepted r' = rn_accepted r \<and> rn_acceptedControls r' = rn_acceptedControls r \<and>
      rn_config r' = rn_config r \<and>
      length (rn_observations r') \<le> length (rn_observations r) \<and>
      length (rn_controls r') \<le> length (rn_controls r))"

lemma same_work_refl [simp]: "same_work r r"
  by (simp add: same_work_def)

lemma same_work_trans: "same_work r1 r2 \<Longrightarrow> same_work r2 r3 \<Longrightarrow> same_work r1 r3"
  by (simp add: same_work_def)

lemma same_work_queues: "same_work r r' \<Longrightarrow> queues_ok r \<Longrightarrow> queues_ok r'"
  by (simp add: same_work_def queues_ok_def)

lemmas ids_defs = obs_ids_def ctl_ids_def active_ids_def

lemma same_work_frame [simp]:
  "same_work r (r'\<lparr>rn_pc := pc\<rparr>) = same_work r r'"
  "same_work r (r'\<lparr>rn_processor := p\<rparr>) = same_work r r'"
  "same_work r (r'\<lparr>rn_scheduled := s\<rparr>) = same_work r r'"
  "same_work (r\<lparr>rn_processor := p\<rparr>) r' = same_work r r'"
  "same_work (r\<lparr>rn_scheduled := s\<rparr>) r' = same_work r r'"
  by (simp_all add: same_work_def ids_defs)

lemma same_work_cancel: "same_work r (cancel_work r)"
  by (simp add: same_work_def ids_defs cancel_work_def split: option.splits)

lemma same_work_complete: "same_work r (complete_work P sn r)"
  by (simp add: same_work_def ids_defs complete_work_def Let_def case_prod_beta split: option.splits)

lemma same_work_finish: "same_work r (snd (finish_work r))"
  by (simp add: same_work_def ids_defs finish_work_def case_prod_beta split: option.splits work_kind.splits)

lemma same_work_refresh: "same_work r (refreshWakeup P r)"
  by (simp add: same_work_def ids_defs refreshWakeup_def split: option.splits)

lemma finish_complete_active: "rn_active (snd (finish_work (complete_work P sn r))) = None"
  by (simp add: finish_work_def complete_work_def Let_def case_prod_beta split: option.splits work_kind.splits)

text \<open>The common part of a control and a shutdown: stop, then join the active work.\<close>

definition stop_and_join ::
    "'e processor \<Rightarrow> goerror option \<Rightarrow> Command \<Rightarrow> 'e Runner \<Rightarrow> goerror option \<times> 'e Runner" where
  "stop_and_join P sn c r =
     finish_work (complete_work P sn
       ((cancel_work r)\<lparr>rn_processor := snd (pr_StopAll P c (rn_processor r))\<rparr>))"

lemma stop_and_join_same: "same_work r (snd (stop_and_join P sn c r))"
proof -
  let ?r1 = "(cancel_work r)\<lparr>rn_processor := snd (pr_StopAll P c (rn_processor r))\<rparr>"
  have "same_work r ?r1" by (simp add: same_work_cancel)
  also have "same_work ?r1 (snd (finish_work (complete_work P sn ?r1)))"
    by (rule same_work_trans [OF same_work_complete same_work_finish])
  finally (same_work_trans) show ?thesis by (simp add: stop_and_join_def)
qed

lemma stop_and_join_frame:
  "rn_active (snd (stop_and_join P sn c r)) = None"
  "rn_observations (snd (stop_and_join P sn c r)) = rn_observations r"
  "rn_controls (snd (stop_and_join P sn c r)) = rn_controls r"
  "rn_controlResponses (snd (stop_and_join P sn c r)) = rn_controlResponses r"
  "rn_scheduled (snd (stop_and_join P sn c r)) = rn_scheduled r"
  "rn_ctxErr (snd (stop_and_join P sn c r)) = rn_ctxErr r"
  by (simp_all add: stop_and_join_def finish_complete_active)
    (simp_all add: finish_work_def complete_work_def cancel_work_def Let_def case_prod_beta
      split: option.splits work_kind.splits)

lemma handleControl_join:
  "handleControl P sn req r =
     (let (workErr, r2) = stop_and_join P sn (cr_command req) r;
          stopErr = fst (pr_StopAll P (cr_command req) (rn_processor r));
          (commitErr, p2) =
            (if ctl_Reason (cr_command req) = ReasonUserRejected
             then pr_CommitUserRejection P (rn_ctxErr r2) (cr_command req) (rn_processor r2)
             else (None, rn_processor r2))
      in (workErr,
          r2\<lparr>rn_processor := p2,
             rn_controlResponses := rn_controlResponses r2 @
               [(cr_id req, errors_Join [stopErr, commitErr])]\<rparr>))"
  by (simp add: handleControl_def stop_and_join_def Let_def case_prod_beta cancel_work_def)

lemma shutdown_join:
  "shutdown P sn cause r =
     (rejectQueued cause (snd (stop_and_join P sn shutdownCommand (r\<lparr>rn_scheduled := None\<rparr>))))
       \<lparr>rn_pc := Returned (case fst (pr_StopAll P shutdownCommand (rn_processor r)) of
          Some e \<Rightarrow> New_fault Unavailable ''stop actions during lifecycle shutdown'' e
        | None \<Rightarrow> cause)\<rparr>"
  by (simp add: shutdown_def stop_and_join_def Let_def case_prod_beta cancel_work_def)

lemma same_work_reject: "rn_active r = None \<Longrightarrow> same_work r (rejectQueued cause r)"
  by (simp add: same_work_def ids_defs rejectQueued_def rejectQueuedControls_def comp_def)

lemma same_work_shutdown: "same_work r (shutdown P sn cause r)"
proof -
  let ?j = "snd (stop_and_join P sn shutdownCommand (r\<lparr>rn_scheduled := None\<rparr>))"
  have "same_work r ?j" using stop_and_join_same [of "r\<lparr>rn_scheduled := None\<rparr>"] by simp
  also have "same_work ?j (rejectQueued cause ?j)"
    by (rule same_work_reject) (rule stop_and_join_frame)
  finally (same_work_trans) show ?thesis by (simp add: shutdown_join)
qed

lemma shutdown_frame:
  "rn_active (shutdown P sn cause r) = None"
  "rn_scheduled (shutdown P sn cause r) = None"
  "rn_observations (shutdown P sn cause r) = []"
  "rn_controls (shutdown P sn cause r) = []"
  "\<exists>err. rn_pc (shutdown P sn cause r) = Returned err"
  by (simp_all add: shutdown_join rejectQueued_def rejectQueuedControls_def stop_and_join_frame)

lemma handleControl_same:
  assumes "rn_controls r = req # rest"
  shows "same_work r (snd (handleControl P sn req (r\<lparr>rn_controls := rest\<rparr>)))"
  using stop_and_join_same [of "r\<lparr>rn_controls := rest\<rparr>" P sn "cr_command req"] assms
  by (auto simp: handleControl_join case_prod_beta Let_def same_work_def ids_defs stop_and_join_frame
      split: option.splits)

lemma handleControl_active: "rn_active (snd (handleControl P sn req r)) = None"
  by (simp add: handleControl_join case_prod_beta Let_def stop_and_join_frame)

lemma after_work_same: "same_work r (snd wr) \<Longrightarrow> same_work r (after_work P sn wr)"
  using same_work_trans [OF same_work_trans [OF _ same_work_refresh] same_work_shutdown]
    same_work_trans [OF _ same_work_refresh]
  by (auto simp: after_work_def Let_def split: option.splits)

lemma take_control_same: "same_work r (take_control P sn r)"
  by (auto simp: take_control_def intro: after_work_same handleControl_same split: list.splits)

section \<open>The steps keep the invariant\<close>

lemma refresh_schedule:
  "map_option sw_wakeup (rn_scheduled (refreshWakeup P r)) = pr_NextWakeup P (rn_processor r)"
  "rn_scheduled (refreshWakeup P r) = Some s \<Longrightarrow>
     sw_due s \<or> sw_timer s = Some (wk_Deadline (sw_wakeup s), False)"
  "rn_processor (refreshWakeup P r) = rn_processor r"
  "rn_active (refreshWakeup P r) = rn_active r"
  by (auto simp: refreshWakeup_def split: option.splits if_splits)

lemma refresh_schedule_ok: "schedule_ok P ((refreshWakeup P r)\<lparr>rn_pc := pc\<rparr>)"
  using refresh_schedule [of P r] by (auto simp: schedule_ok_def)

lemma shutdown_ok: "queues_ok r \<Longrightarrow> runner_ok P (shutdown P sn cause r)"
  using shutdown_frame [of P sn cause r]
  by (auto simp: runner_ok_def pc_ok_def schedule_ok_def intro: same_work_queues [OF same_work_shutdown])

lemma after_work_ok:
  assumes "queues_ok (snd wr)" "rn_active (snd wr) = None"
  shows "runner_ok P (after_work P sn wr)"
proof (cases "fst wr")
  case None
  have "queues_ok ((refreshWakeup P (snd wr))\<lparr>rn_pc := PollControls\<rparr>)"
    by (rule same_work_queues [OF _ assms(1)]) (simp add: same_work_refresh)
  with None show ?thesis
    by (simp add: after_work_def runner_ok_def pc_ok_def refresh_schedule_ok)
next
  case (Some err)
  then show ?thesis
    by (simp add: after_work_def shutdown_ok same_work_queues [OF same_work_refresh assms(1)])
qed

lemma take_control_ok:
  assumes "queues_ok r" "rn_controls r \<noteq> []"
  shows "runner_ok P (take_control P sn r)"
proof -
  obtain req rest where c: "rn_controls r = req # rest" using assms(2) by (cases "rn_controls r") auto
  show ?thesis
    unfolding take_control_def c list.case
    by (rule after_work_ok) (rule same_work_queues [OF handleControl_same [OF c] assms(1)],
      rule handleControl_active)
qed

lemma same_work_start:
  assumes "rn_observations r = req # rest" "rn_active r = None"
  shows "same_work r (startObservation req (r\<lparr>rn_observations := rest\<rparr>))"
  using assms by (simp add: same_work_def ids_defs startObservation_def split: option.splits)

lemma start_ok:
  assumes "runner_ok P r" "rn_observations r = req # rest" "rn_active r = None"
    and "rn_pc r \<in> {PollWork, SelectIdle}"
  shows "runner_ok P ((startObservation req (r\<lparr>rn_observations := rest\<rparr>))\<lparr>rn_pc := PollControls\<rparr>)"
proof -
  have "queues_ok ((startObservation req (r\<lparr>rn_observations := rest\<rparr>))\<lparr>rn_pc := PollControls\<rparr>)"
    by (rule same_work_queues [of r]) (use assms same_work_start in \<open>simp_all add: runner_ok_def\<close>)
  with assms show ?thesis
    by (auto simp: runner_ok_def pc_ok_def schedule_ok_def startObservation_def split: option.splits)
qed

lemma queues_ok_pc [simp]:
  "queues_ok (r\<lparr>rn_pc := pc\<rparr>) = queues_ok r"
  "queues_ok (r\<lparr>rn_scheduled := s\<rparr>) = queues_ok r"
  "queues_ok (r\<lparr>rn_processor := p\<rparr>) = queues_ok r"
  "queues_ok (r\<lparr>rn_ctxErr := e\<rparr>) = queues_ok r"
  by (simp_all add: queues_ok_def ids_defs)

lemma pc_ok_frame [simp]:
  "pc_ok (r\<lparr>rn_observations := qs\<rparr>) = pc_ok r"
  "pc_ok (r\<lparr>rn_accepted := is\<rparr>) = pc_ok r"
  "pc_ok (r\<lparr>rn_controls := cs\<rparr>) = pc_ok r"
  "pc_ok (r\<lparr>rn_acceptedControls := is\<rparr>) = pc_ok r"
  "pc_ok (r\<lparr>rn_processor := p\<rparr>) = pc_ok r"
  "pc_ok (r\<lparr>rn_ctxErr := e\<rparr>) = pc_ok r"
  by (simp_all add: pc_ok_def split: run_pc.split)

lemma schedule_ok_frame [simp]:
  "schedule_ok P (r\<lparr>rn_observations := qs\<rparr>) = schedule_ok P r"
  "schedule_ok P (r\<lparr>rn_accepted := is\<rparr>) = schedule_ok P r"
  "schedule_ok P (r\<lparr>rn_controls := cs\<rparr>) = schedule_ok P r"
  "schedule_ok P (r\<lparr>rn_acceptedControls := is\<rparr>) = schedule_ok P r"
  "schedule_ok P (r\<lparr>rn_ctxErr := e\<rparr>) = schedule_ok P r"
  by (simp_all add: schedule_ok_def)

lemma run_step_poll_ok:
  assumes "runner_ok P r" "run_step P sn ch r = Some r'" "rn_pc r \<in> {NotStarted, PollControls, PollWork}"
  shows "runner_ok P r'"
proof -
  have q: "queues_ok r" using assms by (simp add: runner_ok_def)
  consider "rn_pc r = NotStarted" | "rn_pc r = PollControls" "rn_controls r = []"
    | "rn_pc r = PollControls" "rn_controls r \<noteq> []"
    | req rest where "rn_pc r = PollWork" "rn_observations r = req # rest"
    | "rn_pc r = PollWork" "rn_observations r = []"
    using assms(3) by (cases "rn_observations r") auto
  then show ?thesis
  proof cases
    case 1
    with assms q show ?thesis
      by (auto simp: Run_begin_def runner_ok_def pc_ok_def refresh_schedule_ok
          intro: same_work_queues [OF same_work_refresh])
  next
    case 2
    with assms show ?thesis by (auto simp: runner_ok_def pc_ok_def schedule_ok_def)
  next
    case 3
    with assms take_control_ok [OF q] show ?thesis by (auto split: list.splits)
  next
    case (4 req rest)
    with assms start_ok [of P r req rest] show ?thesis by (auto simp: runner_ok_def pc_ok_def)
  next
    case 5
    with assms q show ?thesis
      by (auto simp: runner_ok_def pc_ok_def schedule_ok_def startWakeup_def queues_ok_def ids_defs
          split: option.splits if_splits)
  qed
qed

lemma run_step_select_ok:
  assumes "runner_ok P r" "run_step P sn ch r = Some r'" "rn_pc r \<in> {SelectIdle, SelectBusy}"
  shows "runner_ok P r'"
proof -
  have q: "queues_ok r" using assms by (simp add: runner_ok_def)
  have fin: "runner_ok P (after_work P sn (finish_work r))" if "rn_active r = Some a" "wo_completed a = Some res" for a res
  proof (rule after_work_ok)
    show "queues_ok (snd (finish_work r))" by (rule same_work_queues [OF same_work_finish q])
    show "rn_active (snd (finish_work r)) = None"
      using that by (simp add: finish_work_def case_prod_beta split: work_kind.splits)
  qed
  show ?thesis
  proof (cases "rn_pc r = SelectIdle")
    case True
    with assms q show ?thesis
    proof (cases ch)
      case CaseObservation
      with True assms start_ok [of P r] show ?thesis
        by (auto simp: runner_ok_def pc_ok_def split: list.splits)
    next
      case CaseTimer
      with True assms show ?thesis
        by (auto simp: runner_ok_def pc_ok_def schedule_ok_def split: option.splits bool.splits)
    qed (use shutdown_ok take_control_ok in \<open>auto split: if_splits\<close>)
  next
    case False
    with assms(3) have "rn_pc r = SelectBusy" by simp
    with assms(1,2) q fin show ?thesis
      by (cases ch) (auto simp: shutdown_ok take_control_ok split: if_splits option.splits)
  qed
qed

lemma complete_work_ok: "runner_ok P r \<Longrightarrow> runner_ok P (complete_work P sn r)"
proof -
  assume ok: "runner_ok P r"
  have "queues_ok (complete_work P sn r)"
    by (rule same_work_queues [OF same_work_complete]) (use ok in \<open>simp add: runner_ok_def\<close>)
  moreover have "pc_ok (complete_work P sn r) \<and> schedule_ok P (complete_work P sn r)"
  proof (cases "rn_active r")
    case None
    with ok show ?thesis by (simp add: complete_work_def runner_ok_def)
  next
    case (Some a)
    with ok show ?thesis
      by (auto simp: complete_work_def runner_ok_def pc_ok_def schedule_ok_def Let_def case_prod_beta
          split: option.splits run_pc.splits)
  qed
  ultimately show ?thesis by (simp add: runner_ok_def)
qed

lemma counts_snoc: "counts xs \<Longrightarrow> counts (xs @ [length xs])"
proof -
  assume "counts xs"
  then have "xs = [0..<length xs]" by (simp add: counts_def)
  then have "xs @ [length xs] = [0..<Suc (length xs)]" by simp
  then show ?thesis by (simp add: counts_def)
qed

lemma counts_distinct: "counts xs \<Longrightarrow> distinct xs"
  by (metis counts_def distinct_upt)

lemma submit_observation_ok:
  assumes ok: "runner_ok P r" and s: "SubmitObservation_send ctx x r = Some (Inr (i, r'))"
  shows "runner_ok P r'"
proof -
  have r': "r' = r\<lparr>rn_observations := rn_observations r @
        [\<lparr>or_id = length (rn_accepted r), or_ctxErr = None, or_input = x\<rparr>],
      rn_accepted := rn_accepted r @ [length (rn_accepted r)]\<rparr>"
    and cap: "int (length (rn_observations r)) < rc_ObservationCapacity (rn_config r)"
    using s by (auto simp: SubmitObservation_send_def Let_def split: option.splits if_splits run_pc.splits)
  from ok cap counts_snoc [of "rn_accepted r"] show ?thesis
    unfolding r' by (simp add: runner_ok_def queues_ok_def ids_defs)
qed

lemma submit_control_ok:
  assumes ok: "runner_ok P r" and s: "SubmitControl_send ctx c r = Some (Inr (i, r'))"
  shows "runner_ok P r'"
proof -
  have r': "r' = r\<lparr>rn_controls := rn_controls r @ [\<lparr>cr_id = length (rn_acceptedControls r), cr_command = c\<rparr>],
      rn_acceptedControls := rn_acceptedControls r @ [length (rn_acceptedControls r)]\<rparr>"
    and cap: "int (length (rn_controls r)) < rc_ControlCapacity (rn_config r)"
    using s by (auto simp: SubmitControl_send_def Let_def split: option.splits if_splits run_pc.splits)
  from ok cap counts_snoc [of "rn_acceptedControls r"] show ?thesis
    unfolding r' by (simp add: runner_ok_def queues_ok_def ids_defs)
qed

lemma cancel_request_ok:
  assumes "runner_ok P r"
  shows "runner_ok P (r\<lparr>rn_observations :=
    map (\<lambda>q. if or_id q = i then q\<lparr>or_ctxErr := Some err\<rparr> else q) (rn_observations r)\<rparr>)"
proof -
  have "map or_id (map (\<lambda>q. if or_id q = i then q\<lparr>or_ctxErr := Some err\<rparr> else q) qs) = map or_id qs"
    for qs :: "observationRequest list"
    by (induction qs) simp_all
  with assms show ?thesis
    by (simp add: runner_ok_def queues_ok_def ids_defs del: map_map)
qed

lemma timer_ok:
  assumes "runner_ok P r" "rn_scheduled r = Some s" "sw_timer s = Some (t, f)"
  shows "runner_ok P (r\<lparr>rn_scheduled := Some (s\<lparr>sw_timer := Some (t, True)\<rparr>)\<rparr>)"
  using assms by (auto simp: runner_ok_def pc_ok_def schedule_ok_def split: run_pc.splits)

lemma runner_step_ok:
  assumes "runner_ok P r" "runner_step P ev r = Some r'"
  shows "runner_ok P r'"
proof (cases ev)
  case (EvLoop sn ch)
  with assms show ?thesis
    using run_step_poll_ok [of P r sn ch r'] run_step_select_ok [of P r sn ch r']
    by (cases "rn_pc r") (auto simp del: run_step.simps, simp)
next
  case (EvCancelRun err)
  with assms show ?thesis by (auto simp: runner_ok_def)
next
  case EvTimer
  with assms timer_ok [OF assms(1)] show ?thesis by (auto split: option.splits)
qed (use assms submit_observation_ok [OF assms(1)] submit_control_ok [OF assms(1)]
    complete_work_ok [OF assms(1)] cancel_request_ok [OF assms(1)]
    in \<open>auto split: option.splits sum.splits\<close>)

lemma Runner_New_ok: "Runner_New cfg (Some p) = Inr r \<Longrightarrow> runner_ok P r"
  by (auto simp: Runner_New_def RunnerConfig_Validate_def runner_ok_def queues_ok_def ids_defs pc_ok_def
      schedule_ok_def counts_def split: option.splits if_splits)

lemma runner_run_ok:
  assumes env: "\<And>p p'. env p p' \<Longrightarrow> pr_NextWakeup P p' = pr_NextWakeup P p"
    and run: "runner_run P env cfg p0 r"
  shows "runner_ok P r"
  using run
proof (induction rule: runner_run.induct)
  case (runner_env r p')
  then show ?case using env [OF runner_env(2)] by (auto simp: runner_ok_def schedule_ok_def)
qed (auto intro: Runner_New_ok runner_step_ok)

section \<open>Lemmas for the properties\<close>

lemma after_work_returned:
  "rn_pc (after_work P sn wr) = Returned err \<Longrightarrow> \<exists>r0 cause. after_work P sn wr = shutdown P sn cause r0"
  by (auto simp: after_work_def Let_def split: option.splits)

lemma run_step_returned:
  assumes "run_step P sn ch r = Some r'" "rn_pc r' = Returned err"
  shows "\<exists>r0 cause. r' = shutdown P sn cause r0"
proof -
  have ctl: "\<exists>r0 cause. take_control P sn r = shutdown P sn cause r0"
    if "rn_pc (take_control P sn r) = Returned err" "rn_controls r \<noteq> []"
    using that by (auto simp: take_control_def split: list.splits intro: after_work_returned)
  have start: "rn_pc ((startObservation req r1)\<lparr>rn_pc := PollControls\<rparr>) \<noteq> Returned err"
    for req and r1 :: "'a Runner" by simp
  show ?thesis
  proof (cases "rn_pc r")
    case PollControls
    with assms ctl show ?thesis by (auto split: list.splits if_splits)
  next
    case SelectIdle
    with assms ctl show ?thesis
      by (cases ch) (auto split: list.splits option.splits if_splits bool.splits)
  next
    case SelectBusy
    with assms ctl after_work_returned [of P sn "finish_work r" err] show ?thesis
      by (cases ch) (auto split: option.splits if_splits)
  qed (use assms in \<open>auto simp: Run_begin_def split: list.splits option.splits if_splits\<close>)
qed

lemma counts_eq: "counts xs \<Longrightarrow> xs = [0..<length xs]"
  by (simp add: counts_def)

lemma runner_run_ids:
  assumes "runner_run P (\<lambda>p p'. pr_NextWakeup P p' = pr_NextWakeup P p) cfg p0 r"
  shows "map fst (rn_responses r) @ active_ids r @ map or_id (rn_observations r) =
      [0..<length (rn_accepted r)] \<and>
    map fst (rn_controlResponses r) @ map cr_id (rn_controls r) = [0..<length (rn_acceptedControls r)] \<and>
    int (length (rn_observations r)) \<le> rc_ObservationCapacity (rn_config r) \<and>
    int (length (rn_controls r)) \<le> rc_ControlCapacity (rn_config r)"
proof -
  have "queues_ok r" using runner_run_ok [OF _ assms] by (simp add: runner_ok_def)
  then show ?thesis
    using counts_eq [of "rn_accepted r"] counts_eq [of "rn_acceptedControls r"]
    by (simp add: queues_ok_def obs_ids_def ctl_ids_def)
qed

end
