(* ===== verification/Runner_Engine.thy ===== *)
theory Runner_Engine
  imports Runner Simulator
begin

text \<open>
  The runner on the engine. The interface between the two is \<^verbatim>\<open>lifecycle.Processor\<close>: the locale
  \<open>processor_closed\<close> says that a set of processor states is closed under the operations the runner
  calls, and proves that the runner never leaves it. Interpreted on the engine with the states of
  its runs, this is the single-writer property: whatever the clients, timers and cancellations do,
  the engine under the runner is in a state of a sequential run of its operations, so every
  property of those runs holds of it.
\<close>

section \<open>Definitions\<close>

definition engine_processor :: "'w ports \<Rightarrow> (Engine \<times> 'w) processor" where
  "engine_processor P =
     \<lparr>pr_Process = (\<lambda>ctx x (e, w). Engine_Process P e ctx x w),
      pr_StopAll = (\<lambda>c (e, w). let (err, w') = Engine_StopAll P c w in (err, (e, w'))),
      pr_CommitUserRejection = (\<lambda>ctx c (e, w). CommitUserRejection P e ctx c w),
      pr_NextWakeup = (\<lambda>(e, w). NextWakeup e),
      pr_AdvanceAt = (\<lambda>ctx wk (e, w). AdvanceAt P e ctx wk w),
      pr_Now = (\<lambda>(e, w). fst (port_Now P w))\<rparr>"

text \<open>Between two operations the environment may move, the engine does not.\<close>

definition world_env :: "('w \<Rightarrow> 'w \<Rightarrow> bool) \<Rightarrow> Engine \<times> 'w \<Rightarrow> Engine \<times> 'w \<Rightarrow> bool" where
  "world_env env p p' = (fst p' = fst p \<and> env (snd p) (snd p'))"

fun runner_steps :: "'e processor \<Rightarrow> runner_event list \<Rightarrow> 'e Runner \<Rightarrow> 'e Runner option" where
  "runner_steps P [] r = Some r"
| "runner_steps P (ev # evs) r =
     (case runner_step P ev r of None \<Rightarrow> None | Some r' \<Rightarrow> runner_steps P evs r')"

section \<open>The interface\<close>

locale processor_closed =
  fixes P :: "'e processor" and R :: "'e \<Rightarrow> bool"
  assumes process_closed: "R p \<Longrightarrow> R (snd (pr_Process P ctx x p))"
    and stop_closed: "R p \<Longrightarrow> R (snd (pr_StopAll P c p))"
    and commit_closed: "R p \<Longrightarrow> R (snd (pr_CommitUserRejection P ctx c p))"
    and advance_closed: "R p \<Longrightarrow> R (snd (pr_AdvanceAt P ctx wk p))"
begin

lemma work_closed: "R p \<Longrightarrow> R (snd (work_run P sn k p))"
  by (cases k) (simp_all add: work_run_def process_closed advance_closed)

lemma complete_closed: "R (rn_processor r) \<Longrightarrow> R (rn_processor (complete_work P sn r))"
  by (simp add: complete_work_def Let_def case_prod_beta work_closed split: option.splits)

lemma finish_processor: "rn_processor (snd (finish_work r)) = rn_processor r"
  by (simp add: finish_work_def case_prod_beta split: option.splits work_kind.splits)

lemma join_closed: "R (rn_processor r) \<Longrightarrow> R (rn_processor (snd (stop_and_join P sn c r)))"
  by (simp add: stop_and_join_def finish_processor complete_closed stop_closed)

lemma handle_closed: "R (rn_processor r) \<Longrightarrow> R (rn_processor (snd (handleControl P sn req r)))"
  by (simp add: handleControl_join Let_def case_prod_beta join_closed commit_closed)

lemma shutdown_closed: "R (rn_processor r) \<Longrightarrow> R (rn_processor (shutdown P sn cause r))"
  using join_closed [of "r\<lparr>rn_scheduled := None\<rparr>" sn shutdownCommand]
  by (simp add: shutdown_join rejectQueued_def rejectQueuedControls_def)

lemma after_closed: "R (rn_processor (snd wr)) \<Longrightarrow> R (rn_processor (after_work P sn wr))"
  by (simp add: after_work_def Let_def refresh_schedule shutdown_closed split: option.splits)

lemma take_closed: "R (rn_processor r) \<Longrightarrow> R (rn_processor (take_control P sn r))"
  by (simp add: take_control_def after_closed handle_closed split: list.splits)

lemma start_processor: "rn_processor (startObservation req r) = rn_processor r"
  by (simp add: startObservation_def split: option.splits)

lemma run_step_closed:
  assumes "R (rn_processor r)" "run_step P sn ch r = Some r'"
  shows "R (rn_processor r')"
proof (cases "rn_pc r")
  case SelectIdle
  with assms show ?thesis
    by (cases ch) (auto simp: shutdown_closed take_closed start_processor
        split: list.splits option.splits if_splits bool.splits)
next
  case SelectBusy
  with assms show ?thesis
    by (cases ch) (auto simp: shutdown_closed take_closed finish_processor
        intro!: after_closed split: option.splits if_splits)
qed (use assms in \<open>auto simp: Run_begin_def refresh_schedule take_closed start_processor startWakeup_def
       split: list.splits option.splits if_splits\<close>)

lemma runner_step_closed:
  assumes "R (rn_processor r)" "runner_step P ev r = Some r'"
  shows "R (rn_processor r')"
proof (cases ev)
  case (EvLoop sn ch)
  with assms run_step_closed show ?thesis by (simp del: run_step.simps)
next
  case (EvWorkDone sn)
  with assms complete_closed show ?thesis by auto
qed (use assms in \<open>auto simp: SubmitObservation_send_def SubmitControl_send_def Let_def
       split: option.splits sum.splits if_splits run_pc.splits\<close>)

lemma runner_run_closed:
  assumes "runner_run P env cfg p0 r" "R p0" and env: "\<And>p p'. R p \<Longrightarrow> env p p' \<Longrightarrow> R p'"
  shows "R (rn_processor r)"
  using assms(1)
proof (induction rule: runner_run.induct)
  case (runner_new r)
  then show ?case using assms(2) by (auto simp: Runner_New_def split: option.splits)
next
  case (runner_env r p')
  then show ?case using env by simp
next
  case (runner_event r ev r')
  then show ?case by (blast intro: runner_step_closed)
qed

end

section \<open>The engine provides it\<close>

interpretation engine_runs: processor_closed "engine_processor P" "\<lambda>(e, w). engine_run P env cfg w0 e w"
  for P env cfg w0
proof unfold_locales
  fix p ctx x
  assume "case p of (e, w) \<Rightarrow> engine_run P env cfg w0 e w"
  then show "case snd (pr_Process (engine_processor P) ctx x p) of (e, w) \<Rightarrow> engine_run P env cfg w0 e w"
    by (cases p; cases "Engine_Process P (fst p) ctx x (snd p)") (auto simp: engine_processor_def intro: run_process)
next
  fix p c
  assume "case p of (e, w) \<Rightarrow> engine_run P env cfg w0 e w"
  then show "case snd (pr_StopAll (engine_processor P) c p) of (e, w) \<Rightarrow> engine_run P env cfg w0 e w"
    by (cases p; cases "Engine_StopAll P c (snd p)") (auto simp: engine_processor_def intro: run_stop)
next
  fix p ctx c
  assume "case p of (e, w) \<Rightarrow> engine_run P env cfg w0 e w"
  then show "case snd (pr_CommitUserRejection (engine_processor P) ctx c p) of (e, w) \<Rightarrow> engine_run P env cfg w0 e w"
    by (cases p; cases "CommitUserRejection P (fst p) ctx c (snd p)") (auto simp: engine_processor_def intro: run_commit)
next
  fix p ctx wk
  assume "case p of (e, w) \<Rightarrow> engine_run P env cfg w0 e w"
  then show "case snd (pr_AdvanceAt (engine_processor P) ctx wk p) of (e, w) \<Rightarrow> engine_run P env cfg w0 e w"
    by (cases p; cases "AdvanceAt P (fst p) ctx wk (snd p)") (auto simp: engine_processor_def intro: run_advance)
qed

section \<open>A concrete run\<close>

lemma runner_steps_run:
  "runner_run P env cfg p0 r \<Longrightarrow> runner_steps P evs r = Some r' \<Longrightarrow> runner_run P env cfg p0 r'"
  by (induction evs arbitrary: r) (auto split: option.splits intro: runner_event)

text \<open>The simulator's engine under the runner: two observations and a rejection are sent, the first
  observation is started, then the context of \<^verbatim>\<open>Run\<close> ends.\<close>

definition demo_runner :: "(Engine \<times> sim) Runner" where
  "demo_runner = projr (Runner_New DefaultConfig (Some (projr (Engine_New defaultConfig True), sim_start)))"

definition demo_reject :: Command where
  "demo_reject =
     \<lparr>ctl_ID = ''control-1'', ctl_Kind = StopAll, ctl_Reason = ReasonUserRejected,
      ctl_SubjectID = ''user-1'', ctl_OccurredAt = startedAt, ctl_TraceID = ''trace''\<rparr>"

definition demo_events :: "runner_event list" where
  "demo_events =
     [EvLoop None CaseDone, EvLoop None CaseDone,
      EvObservation None (presence ''obs-left'' 1 startedAt False),
      EvObservation None (presence ''obs-return'' 2 startedAt True),
      EvLoop None CaseDone]"

lemma demo_new:
  "Runner_New DefaultConfig (Some (projr (Engine_New defaultConfig True), sim_start)) = Inr demo_runner"
  "Engine_New defaultConfig True = Inr (projr (Engine_New defaultConfig True))"
  by (simp_all add: demo_runner_def Runner_New_def RunnerConfig_Validate_def DefaultConfig_def
      Engine_New_def Config_Validate_def defaultConfig_def Minute_def Second_def Millisecond_def)

lemma demo_runner_run:
  "runner_run (engine_processor sim_ports) env DefaultConfig
     (projr (Engine_New defaultConfig True), sim_start) demo_runner"
  by (rule runner_new [OF demo_new(1)])

lemma runner_steps_append:
  "runner_steps P (xs @ ys) r = (case runner_steps P xs r of None \<Rightarrow> None | Some r' \<Rightarrow> runner_steps P ys r')"
  by (induction xs arbitrary: r) (simp_all split: option.splits)

definition demo_more :: "runner_event list" where
  "demo_more = [EvLoop None CaseDone, EvControl None demo_reject, EvCancelRun ContextCanceled]"

lemma demo_events_eval:
  "map_option rn_accepted (runner_steps (engine_processor sim_ports) demo_events demo_runner) = Some [0, 1]"
  by code_simp

lemma demo_more_eval:
  "(case runner_steps (engine_processor sim_ports) (demo_events @ demo_more) demo_runner of
      None \<Rightarrow> None
    | Some r \<Rightarrow> map_option (\<lambda>r'. (rn_pc r', rn_accepted r', rn_acceptedControls r'))
        (run_step (engine_processor sim_ports) (Some ContextCanceled) CaseDone r)) =
   Some (Returned ContextCanceled, [0, 1], [0])"
  by code_simp

section \<open>Properties\<close>

text \<open>Every accepted request is answered exactly once and in order, under every interleaving of
  clients, cancellations, timers and the loop: the requests are numbered as they are accepted, and
  the numbers of the responses sent, of the active work and of the queue are, one after the other,
  all the numbers; the same holds of the controls. Both queues stay within their capacities.\<close>

theorem requests_answered_in_order:
  assumes "runner_run P (\<lambda>p p'. pr_NextWakeup P p' = pr_NextWakeup P p) cfg p0 r"
  shows "map fst (rn_responses r) @ active_ids r @ map or_id (rn_observations r) =
      [0..<length (rn_accepted r)] \<and>
    map fst (rn_controlResponses r) @ map cr_id (rn_controls r) = [0..<length (rn_acceptedControls r)] \<and>
    int (length (rn_observations r)) \<le> rc_ObservationCapacity (rn_config r) \<and>
    int (length (rn_controls r)) \<le> rc_ControlCapacity (rn_config r)"
  by (rule runner_run_ids [OF assms])

theorem requests_answered_in_order_witness:
  "\<exists>r. runner_steps (engine_processor sim_ports) demo_events demo_runner = Some r \<and>
     map fst (rn_responses r) @ active_ids r @ map or_id (rn_observations r) = [0, 1]"
proof -
  obtain r where r: "runner_steps (engine_processor sim_ports) demo_events demo_runner = Some r"
      "rn_accepted r = [0, 1]"
    using demo_events_eval by auto
  from requests_answered_in_order [OF runner_steps_run [OF demo_runner_run r(1)]] r show ?thesis
    by (simp add: upt_rec)
qed



text \<open>Controls come first: when the loop looks at its queues and a control waits, the next step
  is its treatment. The active work, if any, is cancelled, stopped and joined before it (its
  response is out), the control is answered, a rejection is committed to the processor that the
  joined work left, and no other work has been started.\<close>

theorem control_first:
  assumes "rn_pc r = PollControls" "rn_controls r = req # rest"
    and join: "stop_and_join P sn (cr_command req) (r\<lparr>rn_controls := rest\<rparr>) = (None, r1)"
    and commit: "ctl_Reason (cr_command req) = ReasonUserRejected"
      "pr_CommitUserRejection P (rn_ctxErr r) (cr_command req) (rn_processor r1) = (commitErr, p2)"
  shows "\<exists>r'. run_step P sn ch r = Some r' \<and> rn_active r' = None \<and> rn_observations r' = rn_observations r \<and>
    rn_processor r' = p2 \<and> map fst (rn_responses r') = map fst (rn_responses r) @ active_ids r \<and>
    rn_controlResponses r' = rn_controlResponses r @
      [(cr_id req, errors_Join [fst (pr_StopAll P (cr_command req) (rn_processor r)), commitErr])]"
proof -
  let ?r0 = "r\<lparr>rn_controls := rest\<rparr>"
  have r1: "rn_active r1 = None" "rn_observations r1 = rn_observations r" "rn_ctxErr r1 = rn_ctxErr r"
      "rn_controlResponses r1 = rn_controlResponses r"
    using stop_and_join_frame [of P sn "cr_command req" ?r0] join by simp_all
  have "obs_ids r1 = obs_ids ?r0"
    using stop_and_join_same [of ?r0 P sn "cr_command req"] join by (simp add: same_work_def)
  then have resp: "map fst (rn_responses r1) = map fst (rn_responses r) @ active_ids r"
    using r1 by (simp add: obs_ids_def active_ids_def)
  have refresh: "rn_observations (refreshWakeup P x) = rn_observations x"
      "rn_responses (refreshWakeup P x) = rn_responses x"
      "rn_controlResponses (refreshWakeup P x) = rn_controlResponses x" for x
    by (simp_all add: refreshWakeup_def split: option.splits)
  show ?thesis
    using assms(1,2) commit r1 resp
    by (simp add: take_control_def handleControl_join join after_work_def Let_def refresh refresh_schedule)
qed

theorem control_first_witness:
  "\<exists>r'. run_step (engine_processor sim_ports) None CaseDone
       (demo_runner\<lparr>rn_pc := PollControls, rn_controls := [\<lparr>cr_id = 0, cr_command = demo_reject\<rparr>]\<rparr>) = Some r' \<and>
     rn_active r' = None \<and> map fst (rn_controlResponses r') = [0]"
proof -
  let ?r = "demo_runner\<lparr>rn_pc := PollControls, rn_controls := [\<lparr>cr_id = 0, cr_command = demo_reject\<rparr>]\<rparr>"
  let ?P = "engine_processor sim_ports"
  have start: "rn_active demo_runner = None" "rn_controlResponses demo_runner = []"
    by (simp_all add: demo_runner_def Runner_New_def RunnerConfig_Validate_def DefaultConfig_def Millisecond_def)
  obtain r1 where r1: "stop_and_join ?P None demo_reject (?r\<lparr>rn_controls := []\<rparr>) = (None, r1)"
    using start by (simp add: stop_and_join_def cancel_work_def complete_work_def finish_work_def)
  obtain commitErr p2 where
    "pr_CommitUserRejection ?P (rn_ctxErr ?r) demo_reject (rn_processor r1) = (commitErr, p2)"
    by (meson surj_pair)
  then show ?thesis
    using control_first [of ?r "\<lparr>cr_id = 0, cr_command = demo_reject\<rparr>" "[]" ?P None r1 commitErr p2 CaseDone]
      r1 start by (auto simp: demo_reject_def simp del: run_step.simps)
qed

text \<open>No wakeup is lost: whenever the loop is between two works, the wakeup it has scheduled is
  the one the processor asks for, and it is either due or has a timer set for its deadline.\<close>

theorem wakeup_scheduled:
  assumes run: "runner_run P (\<lambda>p p'. pr_NextWakeup P p' = pr_NextWakeup P p) cfg p0 r"
    and "rn_active r = None" "rn_pc r \<in> {PollControls, PollWork, SelectIdle}"
  shows "map_option sw_wakeup (rn_scheduled r) = pr_NextWakeup P (rn_processor r) \<and>
    (case rn_scheduled r of None \<Rightarrow> True
     | Some s \<Rightarrow> sw_due s \<or> map_option fst (sw_timer s) = Some (wk_Deadline (sw_wakeup s)))"
proof -
  have "schedule_ok P r" using runner_run_ok [OF _ run] by (simp add: runner_ok_def)
  with assms(2,3) show ?thesis by (auto simp: schedule_ok_def split: option.splits)
qed

theorem wakeup_scheduled_witness:
  "\<exists>r. runner_steps (engine_processor sim_ports) [EvLoop None CaseDone] demo_runner = Some r \<and>
     map_option sw_wakeup (rn_scheduled r) = pr_NextWakeup (engine_processor sim_ports) (rn_processor r)"
proof -
  have start: "rn_active demo_runner = None" "rn_pc demo_runner = NotStarted"
    by (simp_all add: demo_runner_def Runner_New_def RunnerConfig_Validate_def DefaultConfig_def Millisecond_def)
  then obtain r where r: "runner_steps (engine_processor sim_ports) [EvLoop None CaseDone] demo_runner = Some r"
      "rn_active r = None" "rn_pc r = PollControls"
    by (simp add: Run_begin_def refresh_schedule)
  then show ?thesis
    using wakeup_scheduled [OF runner_steps_run [OF demo_runner_run r(1)]] by blast
qed



text \<open>A control whose stop fails is answered with an error of no category: the engine's error
  is categorized as unavailable, but the runner joins it with the (nil) error of the commit, and
  \<^verbatim>\<open>fault.IsCode\<close> does not look into joined errors. Its clients, which map errors by category, take
  it for an internal one.\<close>

theorem stop_failure_loses_category:
  assumes valid: "Command_Validate (cr_command req) = None"
    and stop: "fst (port_StopAll P (ctl_Reason (cr_command req)) (snd (rn_processor r))) = Some err"
  shows "\<exists>stopErr res.
    fst (pr_StopAll (engine_processor P) (cr_command req) (rn_processor r)) = Some stopErr \<and>
    IsCode stopErr Unavailable \<and>
    rn_controlResponses (snd (handleControl (engine_processor P) sn req r)) =
      rn_controlResponses r @ [(cr_id req, Some res)] \<and>
    (\<forall>code. \<not> IsCode res code)"
proof -
  let ?s = "New_fault Unavailable ''stop all actions'' err"
  have s: "fst (pr_StopAll (engine_processor P) (cr_command req) (rn_processor r)) = Some ?s"
    using valid stop by (cases "rn_processor r")
      (simp add: engine_processor_def Engine_StopAll_def Let_def case_prod_beta)
  have join: "\<exists>res. errors_Join [Some ?s, c] = Some res \<and> (\<forall>code. \<not> IsCode res code)" for c
    using errors_Join_None_iff [of "[Some ?s, c]"] errors_Join_not_IsCode [of "[Some ?s, c]"]
    by (cases "errors_Join [Some ?s, c]") auto
  show ?thesis
    using s join
    by (auto simp: handleControl_join Let_def case_prod_beta stop_and_join_frame)
qed

theorem stop_failure_loses_category_witness:
  "\<exists>stopErr res.
     fst (pr_StopAll (engine_processor (sim_ports\<lparr>port_StopAll := (\<lambda>x w. (Some (Leaf ''down''), w))\<rparr>))
       demo_reject (rn_processor demo_runner)) = Some stopErr \<and> IsCode stopErr Unavailable \<and>
     rn_controlResponses (snd (handleControl
       (engine_processor (sim_ports\<lparr>port_StopAll := (\<lambda>x w. (Some (Leaf ''down''), w))\<rparr>))
       None \<lparr>cr_id = 0, cr_command = demo_reject\<rparr> demo_runner)) =
       rn_controlResponses demo_runner @ [(0, Some res)] \<and> \<not> IsCode res Unavailable"
proof -
  have "Command_Validate demo_reject = None"
    by (simp add: validate_simps demo_reject_def startedAt_def Second_def Millisecond_def)
  then show ?thesis
    using stop_failure_loses_category [of "\<lparr>cr_id = 0, cr_command = demo_reject\<rparr>"
        "sim_ports\<lparr>port_StopAll := (\<lambda>x w. (Some (Leaf ''down''), w))\<rparr>" demo_runner "Leaf ''down''" None]
    by auto
qed

end
