(* ===== verification/Commands.thy ===== *)
theory Commands
  imports Runner_Engine Engine_Props
begin

text \<open>
  Two small programs: \<^verbatim>\<open>cmd/conformance\<close>, a smoke test of the fake embodiment, and \<^verbatim>\<open>cmd/engine\<close>, which puts
  engine and runner together. A program is what it prints on the way out: the error it exits with, if any.
\<close>

section \<open>Conformance\<close>

definition conformance_command :: ActionCommand where
  "conformance_command =
     \<lparr>com_ID = ''action-conformance-1'', com_InteractionID = ''interaction-conformance-1'',
      com_TraceID = ''trace-conformance-1'', com_Deadline = startedAt + Second, com_Preemption = PreemptInterruptible,
      com_RequiredCapability = Acknowledge, com_Idempotency = IdempotentByActionID,
      com_Action = \<lparr>act_Type = Acknowledge, act_TemplateID = [], act_Resource = Gesture, act_Timeout = Second\<rparr>\<rparr>"

text \<open>The last state of the stream; none is the zero value.\<close>

fun terminal_state :: "execution \<Rightarrow> ActionState option" where
  "terminal_state (Stream items) =
     (case [sta_State s. Received s \<leftarrow> items] of [] \<Rightarrow> None | states \<Rightarrow> Some (last states))"
| "terminal_state x = None"

fun conformance_attempts :: "nat \<Rightarrow> Driver \<Rightarrow> goerror + Driver" where
  "conformance_attempts 0 d = Inr d"
| "conformance_attempts (Suc n) d =
     (case fake_Execute d None startedAt conformance_command of
        (ExecError err, d1) \<Rightarrow> Inl err
      | (stream, d1) \<Rightarrow>
          if terminal_state stream \<noteq> Some ActionCompleted then Inl (Leaf ''attempt %d terminal state = %s'')
          else conformance_attempts n d1)"

definition conformance :: "Driver \<Rightarrow> goerror option" where
  "conformance d0 =
     (case conformance_attempts 2 d0 of
        Inl err \<Rightarrow> Some err
      | Inr d \<Rightarrow>
          if length (fake_Commands d) \<noteq> 1 then Some (Leaf ''adapter violated action-id idempotency'')
          else (case fake_StopAll d None ReasonUserRejected of
              (Some err, d1) \<Rightarrow> Some err
            | (None, d1) \<Rightarrow>
                if fake_StopReasons d1 \<noteq> [ReasonUserRejected] then
                  Some (Leaf ''adapter did not record the typed StopAll reason'')
                else None))"

definition conformance_main :: "goerror option" where
  "conformance_main = conformance (NewDriver [Acknowledge \<mapsto> \<lparr>cap_Supported = True, cap_Interruptible = True\<rparr>])"

section \<open>The engine\<close>

definition runtimeConfig :: Config where
  "runtimeConfig = defaultConfig\<lparr>cfg_ConfigHash := ''config.runtime.v1''\<rparr>"

text \<open>\<^verbatim>\<open>main\<close> up to the call of \<^verbatim>\<open>Run\<close>, over the world \<open>w\<close> of driver, audit store and clock, and what follows that call.\<close>

definition engine_main :: "'w \<Rightarrow> goerror + (Engine \<times> 'w) Runner" where
  "engine_main w =
     bind_result (Engine_New runtimeConfig True) (\<lambda>core. Runner_New DefaultConfig (Some (core, w)))"

definition engine_exit :: "goerror option \<Rightarrow> goerror option" where
  "engine_exit err =
     (case err of None \<Rightarrow> None | Some e \<Rightarrow> if ErrIs e ContextCanceled then None else Some e)"

section \<open>What they do\<close>

lemma conformance_passes: "conformance_main = None"
  by code_simp

text \<open>The test finds what it looks for: it passes exactly on drivers that support the capability and that the two
  attempts leave with one command and the one stop reason.\<close>

lemma conformance_fresh:
  assumes "drv_executed d = Map.empty"
  shows "conformance d = None \<longleftrightarrow>
    supported (drv_capabilities d) Acknowledge \<and> drv_commands d = [] \<and> drv_stopReasons d = []"
  using assms
  by (auto simp: conformance_def numeral_2_eq_2 fake_Execute_def statusStream_def complete_lifecycle_def fake_Commands_def
      fake_StopAll_def fake_StopReasons_def conformance_command_def Second_def Millisecond_def Let_def split: if_splits)

text \<open>The program starts, and the engine it runs keeps its invariant under every interleaving.\<close>

lemma engine_main_runs:
  assumes "engine_main w = Inr r0" "runner_run (engine_processor P) (\<lambda>_ _. False) DefaultConfig p0 r"
    and "p0 = rn_processor r0"
  shows "engine_inv (fst (rn_processor r)) \<and> eng_config (fst (rn_processor r)) = runtimeConfig"
proof -
  obtain core where core: "Engine_New runtimeConfig True = Inr core" "p0 = (core, w)"
    using assms(1,3) by (auto simp: engine_main_def bind_result_def Runner_New_def split: sum.splits option.splits)
  have "case rn_processor r of (e, w') \<Rightarrow> engine_run P (\<lambda>_ _. False) runtimeConfig w e w'"
    by (rule engine_runs.runner_run_closed [OF assms(2)]) (use core in \<open>simp_all add: run_new\<close>)
  then show ?thesis
    by (auto simp: case_prod_beta dest: engine_run_inv engine_run_config)
qed

lemma engine_main_starts: "\<exists>r. engine_main w = Inr r"
  by (simp add: engine_main_def bind_result_def runtimeConfig_def Engine_New_def Config_Validate_def defaultConfig_def
      Runner_New_def RunnerConfig_Validate_def DefaultConfig_def Minute_def Second_def Millisecond_def)

end
