(* ===== verification/Readiness.thy ===== *)
theory Readiness
  imports Fault "HOL-Library.List_Lexorder" "HOL-Library.Char_ord" "HOL-Library.Product_Lexorder"
    "HOL-Library.Multiset"
begin

text \<open>
  Package \<^verbatim>\<open>internal/application/readiness\<close> (\<^verbatim>\<open>types.go\<close>, \<^verbatim>\<open>evaluator.go\<close>): whether the
  capabilities a scenario selects are available at an instant. The string types of the package are
  strings here too, since the issues are sorted by them; Go compares strings bytewise, which is the
  order of \<^verbatim>\<open>Char_ord\<close> and \<^verbatim>\<open>List_Lexorder\<close>. A \<^verbatim>\<open>map[K]struct{}\<close> is a set.
\<close>

section \<open>Data\<close>

type_synonym CapabilityKind = string
type_synonym Fallback = string

abbreviation "PERSON_PRESENCE \<equiv> ''PERSON_PRESENCE''"
abbreviation "FACE_DETECTION \<equiv> ''FACE_DETECTION''"
abbreviation "FACE_IDENTIFICATION \<equiv> ''FACE_IDENTIFICATION''"
abbreviation "FACE_LIVENESS \<equiv> ''FACE_LIVENESS''"
abbreviation "VOICE_ACTIVITY \<equiv> ''VOICE_ACTIVITY''"
abbreviation "SPEAKER_IDENTIFICATION \<equiv> ''SPEAKER_IDENTIFICATION''"
abbreviation "SPEAKER_VERIFICATION \<equiv> ''SPEAKER_VERIFICATION''"
abbreviation "SPEECH_TRANSCRIPTION \<equiv> ''SPEECH_TRANSCRIPTION''"
abbreviation "ATTENTION_ESTIMATION \<equiv> ''ATTENTION_ESTIMATION''"
abbreviation "BUSY_STATE \<equiv> ''BUSY_STATE''"
abbreviation "GESTURE_DETECTION \<equiv> ''GESTURE_DETECTION''"
abbreviation "DEVICE_STATE \<equiv> ''DEVICE_STATE''"
abbreviation "DISPLAY_TEXT \<equiv> ''DISPLAY_TEXT''"
abbreviation "AVATAR_ATTEND \<equiv> ''AVATAR_ATTEND''"
abbreviation "AVATAR_EXPRESSION \<equiv> ''AVATAR_EXPRESSION''"
abbreviation "SPEECH_SYNTHESIS \<equiv> ''SPEECH_SYNTHESIS''"
abbreviation "GESTURE \<equiv> ''GESTURE''"
abbreviation "LIGHT \<equiv> ''LIGHT''"
abbreviation "LOCOMOTION \<equiv> ''LOCOMOTION''"

abbreviation "ANONYMOUS_SUBJECT \<equiv> ''ANONYMOUS_SUBJECT''"
abbreviation "NO_VOICE_REPLY \<equiv> ''NO_VOICE_REPLY''"
abbreviation "NO_TRANSCRIPT \<equiv> ''NO_TRANSCRIPT''"
abbreviation "VISUAL_ONLY \<equiv> ''VISUAL_ONLY''"
abbreviation "AUDIO_ONLY \<equiv> ''AUDIO_ONLY''"

record CapabilityRequirement =
  req_Kind :: CapabilityKind
  req_ProviderID :: string

record OptionalCapability =
  opt_Kind :: CapabilityKind
  opt_ProviderID :: string
  opt_Fallback :: Fallback

record ScenarioRequirements =
  sc_ID :: string
  sc_Required :: "CapabilityRequirement list"
  sc_Optional :: "OptionalCapability list"

datatype ProviderHealth = Healthy | Unhealthy | OtherHealth string

record ProviderSnapshot =
  pv_ProviderID :: string
  pv_InstanceID :: string
  pv_ProtocolVersion :: string
  pv_ImplementationVersion :: string
  pv_Capabilities :: "CapabilityKind list"
  pv_Health :: ProviderHealth
  pv_LeaseExpiresAt :: time

record BiometricPolicySnapshot =
  bp_Enabled :: bool
  bp_Authorized :: "CapabilityKind list"
  bp_Enrolled :: "CapabilityKind list"

datatype ActivationStatus = Ready | Degraded | Blocked

record Issue =
  is_Capability :: CapabilityKind
  is_ProviderID :: string
  is_Code :: fault_Code
  is_Fallback :: Fallback

record Activation =
  ac_Status :: ActivationStatus
  ac_Issues :: "Issue list"

section \<open>Validation\<close>

definition evaluateOp :: string where
  "evaluateOp = ''evaluate scenario readiness''"

definition invalidInput :: "string \<Rightarrow> goerror" where
  "invalidInput format = New_fault InvalidInput evaluateOp (Leaf format)"

definition validCapability :: "CapabilityKind \<Rightarrow> bool" where
  "validCapability kind = (kind \<in> set
     [PERSON_PRESENCE, FACE_DETECTION, FACE_IDENTIFICATION, FACE_LIVENESS,
      VOICE_ACTIVITY, SPEAKER_IDENTIFICATION, SPEAKER_VERIFICATION,
      SPEECH_TRANSCRIPTION, ATTENTION_ESTIMATION, BUSY_STATE, GESTURE_DETECTION,
      DEVICE_STATE, DISPLAY_TEXT, AVATAR_ATTEND, AVATAR_EXPRESSION,
      SPEECH_SYNTHESIS, GESTURE, LIGHT, LOCOMOTION])"

definition validFallback :: "CapabilityKind \<Rightarrow> Fallback \<Rightarrow> bool" where
  "validFallback kind fallback =
     (if kind \<in> set [FACE_IDENTIFICATION, FACE_LIVENESS, SPEAKER_IDENTIFICATION, SPEAKER_VERIFICATION]
        then fallback = ANONYMOUS_SUBJECT
      else if kind = VOICE_ACTIVITY then fallback = NO_VOICE_REPLY
      else if kind = SPEECH_TRANSCRIPTION then fallback = NO_TRANSCRIPT
      else if kind = SPEECH_SYNTHESIS then fallback = VISUAL_ONLY
      else if kind \<in> set [DISPLAY_TEXT, AVATAR_ATTEND, AVATAR_EXPRESSION] then fallback = AUDIO_ONLY
      else False)"

definition isBiometric :: "CapabilityKind \<Rightarrow> bool" where
  "isBiometric kind = (kind \<in> set
     [FACE_DETECTION, FACE_IDENTIFICATION, FACE_LIVENESS, SPEAKER_IDENTIFICATION, SPEAKER_VERIFICATION])"

definition requiresEnrollment :: "CapabilityKind \<Rightarrow> bool" where
  "requiresEnrollment kind = (kind \<in> set
     [FACE_IDENTIFICATION, SPEAKER_IDENTIFICATION, SPEAKER_VERIFICATION])"

definition validateSelection ::
    "CapabilityKind \<Rightarrow> string \<Rightarrow> CapabilityKind set \<Rightarrow> goerror + CapabilityKind set" where
  "validateSelection kind providerID selected =
     (if \<not> validCapability kind then Inl (invalidInput ''unknown capability %q'')
      else if providerID = [] then Inl (invalidInput ''provider id is required for capability %q'')
      else if kind \<in> selected then Inl (invalidInput ''capability %q is selected more than once'')
      else Inr (insert kind selected))"

text \<open>The two loops of \<^verbatim>\<open>ValidateScenario\<close>.\<close>

fun validateRequired ::
    "CapabilityRequirement list \<Rightarrow> CapabilityKind set \<Rightarrow> goerror + CapabilityKind set" where
  "validateRequired [] selected = Inr selected"
| "validateRequired (r # rs) selected =
     (case validateSelection (req_Kind r) (req_ProviderID r) selected of
        Inl err \<Rightarrow> Inl err
      | Inr selected' \<Rightarrow> validateRequired rs selected')"

fun validateOptional ::
    "OptionalCapability list \<Rightarrow> CapabilityKind set \<Rightarrow> goerror + CapabilityKind set" where
  "validateOptional [] selected = Inr selected"
| "validateOptional (x # xs) selected =
     (case validateSelection (opt_Kind x) (opt_ProviderID x) selected of
        Inl err \<Rightarrow> Inl err
      | Inr selected' \<Rightarrow>
          if \<not> validFallback (opt_Kind x) (opt_Fallback x)
          then Inl (invalidInput ''fallback %q is not valid for capability %q'')
          else validateOptional xs selected')"

definition ValidateScenario :: "ScenarioRequirements \<Rightarrow> goerror option" where
  "ValidateScenario sc =
     (if sc_ID sc = [] then Some (invalidInput ''scenario id is required'')
      else if length (sc_Required sc) + length (sc_Optional sc) = 0 then
        Some (invalidInput ''scenario %q declares no capabilities'')
      else (case validateRequired (sc_Required sc) {} of
          Inl err \<Rightarrow> Some err
        | Inr selected \<Rightarrow>
            (case validateOptional (sc_Optional sc) selected of
               Inl err \<Rightarrow> Some err
             | Inr selected' \<Rightarrow> None)))"

fun validateDeclared :: "CapabilityKind list \<Rightarrow> CapabilityKind set \<Rightarrow> goerror option" where
  "validateDeclared [] seenCapabilities = None"
| "validateDeclared (c # cs) seenCapabilities =
     (if \<not> validCapability c then
        Some (invalidInput ''provider %q declares unknown capability %q'')
      else if c \<in> seenCapabilities then
        Some (invalidInput ''provider %q declares capability %q more than once'')
      else validateDeclared cs (insert c seenCapabilities))"

definition validateProvider :: "ProviderSnapshot \<Rightarrow> goerror option" where
  "validateProvider p =
     (if pv_ProviderID p = [] \<or> pv_InstanceID p = [] \<or> pv_ProtocolVersion p = [] \<or>
         pv_ImplementationVersion p = [] then
        Some (invalidInput ''provider id, instance id, protocol version, and implementation version are required'')
      else if IsZero (pv_LeaseExpiresAt p) then
        Some (invalidInput ''provider %q lease expiry is required'')
      else if pv_Health p \<noteq> Healthy \<and> pv_Health p \<noteq> Unhealthy then
        Some (invalidInput ''provider %q has unknown health %q'')
      else if length (pv_Capabilities p) = 0 then
        Some (invalidInput ''provider %q declares no capabilities'')
      else validateDeclared (pv_Capabilities p) {})"

fun validateProviders_from ::
    "ProviderSnapshot list \<Rightarrow> (string \<rightharpoonup> ProviderSnapshot) \<Rightarrow> goerror + (string \<rightharpoonup> ProviderSnapshot)" where
  "validateProviders_from [] m = Inr m"
| "validateProviders_from (p # ps) m =
     (case validateProvider p of
        Some err \<Rightarrow> Inl err
      | None \<Rightarrow>
          if m (pv_ProviderID p) \<noteq> None then
            Inl (invalidInput ''provider %q has more than one snapshot'')
          else validateProviders_from ps (m(pv_ProviderID p \<mapsto> p)))"

definition validateProviders ::
    "ProviderSnapshot list \<Rightarrow> goerror + (string \<rightharpoonup> ProviderSnapshot)" where
  "validateProviders ps = validateProviders_from ps Map.empty"

fun validatePolicyKinds_from ::
    "CapabilityKind list \<Rightarrow> (CapabilityKind \<Rightarrow> bool) \<Rightarrow> CapabilityKind set \<Rightarrow>
     goerror + CapabilityKind set" where
  "validatePolicyKinds_from [] allowed validated = Inr validated"
| "validatePolicyKinds_from (c # cs) allowed validated =
     (if \<not> validCapability c \<or> \<not> allowed c then
        Inl (invalidInput ''%s capability %q is not allowed'')
      else if c \<in> validated then Inl (invalidInput ''%s capability %q is duplicated'')
      else validatePolicyKinds_from cs allowed (insert c validated))"

definition validatePolicyKinds ::
    "CapabilityKind list \<Rightarrow> (CapabilityKind \<Rightarrow> bool) \<Rightarrow> goerror + CapabilityKind set" where
  "validatePolicyKinds cs allowed = validatePolicyKinds_from cs allowed {}"

definition validateBiometricPolicy ::
    "BiometricPolicySnapshot \<Rightarrow> goerror + CapabilityKind set \<times> CapabilityKind set" where
  "validateBiometricPolicy policy =
     (case validatePolicyKinds (bp_Authorized policy) isBiometric of
        Inl err \<Rightarrow> Inl err
      | Inr authorized \<Rightarrow>
          (case validatePolicyKinds (bp_Enrolled policy) requiresEnrollment of
             Inl err \<Rightarrow> Inl err
           | Inr enrolled \<Rightarrow> Inr (authorized, enrolled)))"

section \<open>Evaluation\<close>

fun providerSupports_in :: "CapabilityKind list \<Rightarrow> CapabilityKind \<Rightarrow> bool" where
  "providerSupports_in [] required = False"
| "providerSupports_in (c # cs) required = (if c = required then True else providerSupports_in cs required)"

definition providerSupports :: "ProviderSnapshot \<Rightarrow> CapabilityKind \<Rightarrow> bool" where
  "providerSupports p required = providerSupports_in (pv_Capabilities p) required"

text \<open>\<open>None\<close> is the result \<^verbatim>\<open>Issue{}, false\<close>.\<close>

definition evaluateCapability ::
    "CapabilityKind \<Rightarrow> string \<Rightarrow> Fallback \<Rightarrow> (string \<rightharpoonup> ProviderSnapshot) \<Rightarrow> bool \<Rightarrow>
     CapabilityKind set \<Rightarrow> CapabilityKind set \<Rightarrow> time \<Rightarrow> Issue option" where
  "evaluateCapability kind providerID fallback providers biometricEnabled authorized enrolled now =
     (let issue = \<lambda>code. Some \<lparr>is_Capability = kind, is_ProviderID = providerID, is_Code = code,
                               is_Fallback = fallback\<rparr>
      in case providers providerID of
           None \<Rightarrow> issue Unavailable
         | Some provider \<Rightarrow>
             if \<not> providerSupports provider kind then issue CapabilityMissing
             else if pv_Health provider = Unhealthy then issue Unavailable
             else if \<not> Before now (pv_LeaseExpiresAt provider) then issue DeadlineExceeded
             else if \<not> isBiometric kind then None
             else if \<not> biometricEnabled then issue PolicyBlocked
             else if kind \<notin> authorized then issue PermissionDenied
             else if requiresEnrollment kind then
               (if kind \<notin> enrolled then issue PolicyBlocked else None)
             else None)"

text \<open>The order of \<^verbatim>\<open>sort.Slice\<close>: by capability, then by provider.\<close>

definition issue_key :: "Issue \<Rightarrow> CapabilityKind \<times> string" where
  "issue_key i = (is_Capability i, is_ProviderID i)"

definition EvaluateAt ::
    "ScenarioRequirements \<Rightarrow> ProviderSnapshot list \<Rightarrow> BiometricPolicySnapshot \<Rightarrow> time \<Rightarrow>
     goerror + Activation" where
  "EvaluateAt sc providers policy now =
     (case ValidateScenario sc of
        Some err \<Rightarrow> Inl err
      | None \<Rightarrow>
          (case validateProviders providers of
             Inl err \<Rightarrow> Inl err
           | Inr providerByID \<Rightarrow>
               (case validateBiometricPolicy policy of
                  Inl err \<Rightarrow> Inl err
                | Inr (authorized, enrolled) \<Rightarrow>
                    let evaluate = \<lambda>kind providerID fallback.
                          evaluateCapability kind providerID fallback providerByID (bp_Enabled policy)
                            authorized enrolled now;
                        blocking = List.map_filter (\<lambda>r. evaluate (req_Kind r) (req_ProviderID r) [])
                          (sc_Required sc);
                        degrading = List.map_filter
                          (\<lambda>x. evaluate (opt_Kind x) (opt_ProviderID x) (opt_Fallback x)) (sc_Optional sc);
                        issues = sort_key issue_key (blocking @ degrading)
                    in Inr \<lparr>ac_Status = (if blocking \<noteq> [] then Blocked
                                         else if length issues > 0 then Degraded else Ready),
                            ac_Issues = issues\<rparr>)))"


section \<open>Specification\<close>

text \<open>The selected capabilities with their providers and fallbacks; a required one has no fallback.\<close>

definition selections :: "ScenarioRequirements \<Rightarrow> (CapabilityKind \<times> string \<times> Fallback) list" where
  "selections sc =
     map (\<lambda>r. (req_Kind r, req_ProviderID r, [])) (sc_Required sc) @
     map (\<lambda>x. (opt_Kind x, opt_ProviderID x, opt_Fallback x)) (sc_Optional sc)"

definition scenario_ok :: "ScenarioRequirements \<Rightarrow> bool" where
  "scenario_ok sc =
     (sc_ID sc \<noteq> [] \<and> selections sc \<noteq> [] \<and> distinct (map fst (selections sc)) \<and>
      (\<forall>(k, i, fb) \<in> set (selections sc). validCapability k \<and> i \<noteq> []) \<and>
      (\<forall>x \<in> set (sc_Optional sc). validFallback (opt_Kind x) (opt_Fallback x)))"

definition provider_ok :: "ProviderSnapshot \<Rightarrow> bool" where
  "provider_ok p =
     (pv_ProviderID p \<noteq> [] \<and> pv_InstanceID p \<noteq> [] \<and> pv_ProtocolVersion p \<noteq> [] \<and>
      pv_ImplementationVersion p \<noteq> [] \<and> pv_LeaseExpiresAt p \<noteq> 0 \<and>
      pv_Health p \<in> {Healthy, Unhealthy} \<and> pv_Capabilities p \<noteq> [] \<and>
      distinct (pv_Capabilities p) \<and> (\<forall>c \<in> set (pv_Capabilities p). validCapability c))"

definition providers_ok :: "ProviderSnapshot list \<Rightarrow> bool" where
  "providers_ok ps = (distinct (map pv_ProviderID ps) \<and> (\<forall>p \<in> set ps. provider_ok p))"

definition policy_ok :: "BiometricPolicySnapshot \<Rightarrow> bool" where
  "policy_ok pol =
     (distinct (bp_Authorized pol) \<and> distinct (bp_Enrolled pol) \<and>
      (\<forall>c \<in> set (bp_Authorized pol). isBiometric c) \<and>
      (\<forall>c \<in> set (bp_Enrolled pol). requiresEnrollment c))"

text \<open>When a selected capability can be used.\<close>

definition available ::
    "ProviderSnapshot list \<Rightarrow> BiometricPolicySnapshot \<Rightarrow> time \<Rightarrow> CapabilityKind \<Rightarrow> string \<Rightarrow> bool" where
  "available ps pol now kind i =
     ((\<exists>p \<in> set ps. pv_ProviderID p = i \<and> kind \<in> set (pv_Capabilities p) \<and> pv_Health p = Healthy \<and>
         now < pv_LeaseExpiresAt p) \<and>
      (isBiometric kind \<longrightarrow> bp_Enabled pol \<and> kind \<in> set (bp_Authorized pol) \<and>
         (requiresEnrollment kind \<longrightarrow> kind \<in> set (bp_Enrolled pol))))"

section \<open>Validation lemmas\<close>

lemma validateSelection_Inr:
  "validateSelection k i S = Inr S' \<longleftrightarrow> validCapability k \<and> i \<noteq> [] \<and> k \<notin> S \<and> S' = insert k S"
  by (auto simp: validateSelection_def)

lemma validateRequired_Inr:
  "validateRequired rs S = Inr S' \<longleftrightarrow>
     (\<forall>r \<in> set rs. validCapability (req_Kind r) \<and> req_ProviderID r \<noteq> [] \<and> req_Kind r \<notin> S) \<and>
     distinct (map req_Kind rs) \<and> S' = S \<union> req_Kind ` set rs"
  by (induction rs arbitrary: S) (auto simp: validateSelection_Inr error_returns image_iff)

lemma validateOptional_Inr:
  "validateOptional xs S = Inr S' \<longleftrightarrow>
     (\<forall>x \<in> set xs. validCapability (opt_Kind x) \<and> opt_ProviderID x \<noteq> [] \<and> opt_Kind x \<notin> S \<and>
        validFallback (opt_Kind x) (opt_Fallback x)) \<and>
     distinct (map opt_Kind xs) \<and> S' = S \<union> opt_Kind ` set xs"
  by (induction xs arbitrary: S) (auto simp: validateSelection_Inr error_returns image_iff)

lemma ValidateScenario_None [validate_simps]: "ValidateScenario sc = None \<longleftrightarrow> scenario_ok sc"
proof -
  have "scenario_ok sc \<longleftrightarrow> sc_ID sc \<noteq> [] \<and> selections sc \<noteq> [] \<and>
      (\<forall>r \<in> set (sc_Required sc). validCapability (req_Kind r) \<and> req_ProviderID r \<noteq> []) \<and>
      distinct (map req_Kind (sc_Required sc)) \<and>
      (\<forall>x \<in> set (sc_Optional sc). validCapability (opt_Kind x) \<and> opt_ProviderID x \<noteq> [] \<and>
         opt_Kind x \<notin> req_Kind ` set (sc_Required sc) \<and> validFallback (opt_Kind x) (opt_Fallback x)) \<and>
      distinct (map opt_Kind (sc_Optional sc))"
    unfolding scenario_ok_def selections_def by (simp add: comp_def ball_Un) (auto simp: disjoint_iff; metis imageI)
  then show ?thesis
    by (simp add: ValidateScenario_def error_returns validateRequired_Inr validateOptional_Inr selections_def)
qed

text \<open>Every error of the package is a fault of category \<^verbatim>\<open>InvalidInput\<close>.\<close>

lemma IsCode_invalidInput [simp]: "IsCode (invalidInput f) c \<longleftrightarrow> c = InvalidInput"
  by (auto simp: invalidInput_def New_fault_def)

lemma validateSelection_Inl: "validateSelection k i S = Inl e \<Longrightarrow> IsCode e InvalidInput"
  by (auto simp: validateSelection_def split: if_splits)

lemma validateRequired_Inl: "validateRequired rs S = Inl e \<Longrightarrow> IsCode e InvalidInput"
  by (induction rs arbitrary: S) (auto dest: validateSelection_Inl split: sum.splits)

lemma validateOptional_Inl: "validateOptional xs S = Inl e \<Longrightarrow> IsCode e InvalidInput"
  by (induction xs arbitrary: S) (auto dest: validateSelection_Inl split: sum.splits if_splits)

lemma ValidateScenario_Some: "ValidateScenario sc = Some e \<Longrightarrow> IsCode e InvalidInput"
  by (auto simp: ValidateScenario_def dest: validateRequired_Inl validateOptional_Inl
      split: sum.splits if_splits)

lemma validateDeclared_None:
  "validateDeclared cs S = None \<longleftrightarrow> (\<forall>c \<in> set cs. validCapability c \<and> c \<notin> S) \<and> distinct cs"
  by (induction cs arbitrary: S) auto

lemma validateProvider_None [validate_simps]: "validateProvider p = None \<longleftrightarrow> provider_ok p"
  by (auto simp: validateProvider_def provider_ok_def validateDeclared_None)

lemma validateDeclared_Some: "validateDeclared cs S = Some e \<Longrightarrow> IsCode e InvalidInput"
  by (induction cs arbitrary: S) (auto split: if_splits)

lemma validateProvider_Some: "validateProvider p = Some e \<Longrightarrow> IsCode e InvalidInput"
  by (auto simp: validateProvider_def dest: validateDeclared_Some split: if_splits)

lemma validateProviders_Inl: "validateProviders ps = Inl e \<Longrightarrow> IsCode e InvalidInput"
proof -
  have "validateProviders_from ps m = Inl e \<Longrightarrow> IsCode e InvalidInput" for m
    by (induction ps arbitrary: m) (auto dest: validateProvider_Some split: option.splits if_splits)
  then show "validateProviders ps = Inl e \<Longrightarrow> IsCode e InvalidInput" by (simp add: validateProviders_def)
qed

text \<open>The map has the snapshots under their identifiers.\<close>

lemma validateProviders_from_Inr:
  "(\<exists>m'. validateProviders_from ps m = Inr m') \<longleftrightarrow>
     providers_ok ps \<and> (\<forall>p \<in> set ps. m (pv_ProviderID p) = None)"
proof (induction ps arbitrary: m)
  case (Cons p ps)
  then show ?case
    by (cases "validateProvider p") (auto simp: providers_ok_def image_iff simp flip: validateProvider_None)
qed (simp add: providers_ok_def)

lemma validateProviders_from_lookup:
  "validateProviders_from ps m = Inr m' \<Longrightarrow>
     m' i = Some p \<longleftrightarrow> m i = Some p \<or> p \<in> set ps \<and> pv_ProviderID p = i"
proof (induction ps arbitrary: m)
  case (Cons q ps)
  then have "m (pv_ProviderID q) = None" "validateProviders_from ps (m(pv_ProviderID q \<mapsto> q)) = Inr m'"
    by (auto simp: error_returns split: if_splits)
  with Cons.IH [OF this(2)] show ?case by auto
qed simp

lemma validateProviders_ok: "(\<exists>m. validateProviders ps = Inr m) \<longleftrightarrow> providers_ok ps"
  by (simp add: validateProviders_def validateProviders_from_Inr)

lemma provider_lookup:
  "validateProviders ps = Inr m \<Longrightarrow> m i = Some p \<longleftrightarrow> p \<in> set ps \<and> pv_ProviderID p = i"
  by (simp add: validateProviders_def validateProviders_from_lookup)

lemma validatePolicyKinds_from_Inr:
  "validatePolicyKinds_from cs f S = Inr S' \<longleftrightarrow>
     (\<forall>c \<in> set cs. validCapability c \<and> f c \<and> c \<notin> S) \<and> distinct cs \<and> S' = S \<union> set cs"
  by (induction cs arbitrary: S) auto

lemma validatePolicyKinds_Inl: "validatePolicyKinds cs f = Inl e \<Longrightarrow> IsCode e InvalidInput"
proof -
  have "validatePolicyKinds_from cs f S = Inl e \<Longrightarrow> IsCode e InvalidInput" for S
    by (induction cs arbitrary: S) (auto split: if_splits)
  then show "validatePolicyKinds cs f = Inl e \<Longrightarrow> IsCode e InvalidInput" by (simp add: validatePolicyKinds_def)
qed

lemma biometric_kinds: "isBiometric c \<Longrightarrow> validCapability c" "requiresEnrollment c \<Longrightarrow> isBiometric c"
  by (auto simp: isBiometric_def requiresEnrollment_def validCapability_def)

lemma validateBiometricPolicy_Inr:
  "validateBiometricPolicy pol = Inr (A, E) \<longleftrightarrow>
     policy_ok pol \<and> A = set (bp_Authorized pol) \<and> E = set (bp_Enrolled pol)"
  by (auto simp: validateBiometricPolicy_def validatePolicyKinds_def validatePolicyKinds_from_Inr
      policy_ok_def error_returns dest: biometric_kinds)

lemma providerSupports_iff: "providerSupports p k \<longleftrightarrow> k \<in> set (pv_Capabilities p)"
proof -
  have "providerSupports_in cs k \<longleftrightarrow> k \<in> set cs" for cs by (induction cs) auto
  then show ?thesis by (simp add: providerSupports_def)
qed

section \<open>Evaluation lemmas\<close>

text \<open>The issue of a selection, over the inputs that passed validation.\<close>

definition issue_of ::
    "ProviderSnapshot list \<Rightarrow> BiometricPolicySnapshot \<Rightarrow> time \<Rightarrow> CapabilityKind \<times> string \<times> Fallback \<Rightarrow>
     Issue option" where
  "issue_of ps pol now = (\<lambda>(k, i, fb).
     case validateProviders ps of
       Inl err \<Rightarrow> None
     | Inr m \<Rightarrow> evaluateCapability k i fb m (bp_Enabled pol) (set (bp_Authorized pol))
         (set (bp_Enrolled pol)) now)"

definition blocking :: "ScenarioRequirements \<Rightarrow> (CapabilityKind \<times> string \<times> Fallback) list" where
  "blocking sc = map (\<lambda>r. (req_Kind r, req_ProviderID r, [])) (sc_Required sc)"

definition degrading :: "ScenarioRequirements \<Rightarrow> (CapabilityKind \<times> string \<times> Fallback) list" where
  "degrading sc = map (\<lambda>x. (opt_Kind x, opt_ProviderID x, opt_Fallback x)) (sc_Optional sc)"

lemma selections_parts: "selections sc = blocking sc @ degrading sc"
  by (simp add: selections_def blocking_def degrading_def)

lemma map_filter_map: "List.map_filter f (map g xs) = List.map_filter (\<lambda>x. f (g x)) xs"
  by (simp add: List.map_filter_def comp_def filter_map)

lemma map_filter_append: "List.map_filter f (xs @ ys) = List.map_filter f xs @ List.map_filter f ys"
  by (simp add: List.map_filter_def)

lemma set_map_filter': "set (List.map_filter f xs) = {y. \<exists>x \<in> set xs. f x = Some y}"
  by (force simp: List.map_filter_def)

lemma mset_map_filter: "mset xs = mset ys \<Longrightarrow> mset (List.map_filter f xs) = mset (List.map_filter f ys)"
  by (simp add: List.map_filter_def mset_filter)

text \<open>\<open>EvaluateAt\<close> in closed form.\<close>

lemma EvaluateAt_Inr:
  "EvaluateAt sc ps pol now = Inr act \<longleftrightarrow>
     scenario_ok sc \<and> providers_ok ps \<and> policy_ok pol \<and>
     act = \<lparr>ac_Status = (if List.map_filter (issue_of ps pol now) (blocking sc) \<noteq> [] then Blocked
                         else if List.map_filter (issue_of ps pol now) (selections sc) \<noteq> [] then Degraded
                         else Ready),
            ac_Issues = sort_key issue_key (List.map_filter (issue_of ps pol now) (selections sc))\<rparr>"
proof (cases "scenario_ok sc \<and> providers_ok ps \<and> policy_ok pol")
  case True
  then obtain m where m: "validateProviders ps = Inr m" using validateProviders_ok by blast
  have pol: "validateBiometricPolicy pol = Inr (set (bp_Authorized pol), set (bp_Enrolled pol))"
    using True by (simp add: validateBiometricPolicy_Inr)
  have sc: "ValidateScenario sc = None" using True by (simp add: validate_simps)
  have "EvaluateAt sc ps pol now = Inr
      \<lparr>ac_Status = (if List.map_filter (issue_of ps pol now) (blocking sc) \<noteq> [] then Blocked
                    else if List.map_filter (issue_of ps pol now) (selections sc) \<noteq> [] then Degraded
                    else Ready),
       ac_Issues = sort_key issue_key (List.map_filter (issue_of ps pol now) (selections sc))\<rparr>"
    unfolding EvaluateAt_def sc m pol
    by (simp add: Let_def issue_of_def m selections_parts map_filter_append blocking_def degrading_def
        map_filter_map)
  with True show ?thesis by auto
next
  case False
  have "EvaluateAt sc ps pol now \<noteq> Inr act"
  proof
    assume "EvaluateAt sc ps pol now = Inr act"
    then have "ValidateScenario sc = None" "\<exists>m. validateProviders ps = Inr m"
      "\<exists>A E. validateBiometricPolicy pol = Inr (A, E)"
      by (auto simp: EvaluateAt_def error_returns)
    with False show False
      by (simp add: validate_simps validateProviders_ok validateBiometricPolicy_Inr)
  qed
  with False show ?thesis by blast
qed

lemma issue_of_key:
  "issue_of ps pol now (k, i, fb) = Some x \<Longrightarrow> is_Capability x = k \<and> is_ProviderID x = i \<and> is_Fallback x = fb"
  by (auto simp: issue_of_def evaluateCapability_def Let_def split: sum.splits option.splits if_splits)

lemma unknown_health: "providers_ok ps \<Longrightarrow> p \<in> set ps \<Longrightarrow> pv_Health p \<noteq> Unhealthy \<longleftrightarrow> pv_Health p = Healthy"
  by (auto simp: providers_ok_def provider_ok_def)

lemma issue_of_None:
  assumes "providers_ok ps"
  shows "issue_of ps pol now (k, i, fb) = None \<longleftrightarrow> available ps pol now k i"
proof -
  from assms obtain m where m: "validateProviders ps = Inr m" using validateProviders_ok by blast
  note l = provider_lookup [OF m]
  show ?thesis
  proof (cases "m i")
    case None
    have "pv_ProviderID p \<noteq> i" if "p \<in> set ps" for p using l [of i p] None that by simp
    then show ?thesis by (auto simp: issue_of_def m None evaluateCapability_def available_def)
  next
    case (Some p)
    with l [of i p] have p: "p \<in> set ps" "pv_ProviderID p = i" by auto
    have un: "q = p" if "q \<in> set ps" "pv_ProviderID q = i" for q using l [of i q] Some that by simp
    have ex: "(\<exists>q \<in> set ps. pv_ProviderID q = i \<and> P q) \<longleftrightarrow> P p" for P using p un by blast
    show ?thesis
      unfolding available_def ex using unknown_health [OF assms p(1)]
      by (auto simp: issue_of_def m Some evaluateCapability_def providerSupports_iff)
  qed
qed

lemma distinct_keys:
  assumes "distinct (map fst xs)" "\<And>k i fb y. f (k, i, fb) = Some y \<Longrightarrow> is_Capability y = k"
  shows "distinct (map is_Capability (List.map_filter f xs))"
proof -
  have "map is_Capability (List.map_filter f xs) = map fst (filter (\<lambda>x. f x \<noteq> None) xs)"
    using assms(2) by (auto simp: List.map_filter_def)
  then show ?thesis using assms(1) by (simp add: distinct_map_filter)
qed


lemma issues_distinct:
  "scenario_ok sc \<Longrightarrow> distinct (map is_Capability (List.map_filter (issue_of ps pol now) (selections sc)))"
  by (rule distinct_keys) (auto simp: scenario_ok_def dest: issue_of_key)

lemma sort_key_perm:
  assumes "mset xs = mset ys" "distinct (map is_Capability xs)"
  shows "sort_key issue_key xs = sort_key issue_key ys"
proof (rule sort_key_inj_key_eq)
  show "inj_on issue_key (set xs)"
    using assms(2) by (auto simp: distinct_map inj_on_def issue_key_def)
qed (use assms(1) in simp_all)

lemma issue_of_perm:
  assumes "mset ps = mset ps'" "providers_ok ps" "mset (bp_Authorized pol) = mset (bp_Authorized pol')"
    and "mset (bp_Enrolled pol) = mset (bp_Enrolled pol')" "bp_Enabled pol = bp_Enabled pol'"
  shows "issue_of ps pol now = issue_of ps' pol' now"
proof -
  have "providers_ok ps'"
    using assms(1,2) mset_eq_imp_distinct_iff [of "map pv_ProviderID ps" "map pv_ProviderID ps'"]
    by (simp add: providers_ok_def mset_eq_setD [OF assms(1)])
  with assms(2) obtain m m' where m: "validateProviders ps = Inr m" "validateProviders ps' = Inr m'"
    using validateProviders_ok by metis
  have "m = m'"
  proof
    fix i
    show "m i = m' i"
      using provider_lookup [OF m(1), of i] provider_lookup [OF m(2), of i] mset_eq_setD [OF assms(1)]
      by (metis option.exhaust)
  qed
  with m show ?thesis
    using mset_eq_setD [OF assms(3)] mset_eq_setD [OF assms(4)] assms(5)
    by (simp add: issue_of_def fun_eq_iff)
qed

section \<open>Properties\<close>

text \<open>An evaluation used as an example.\<close>

definition demo_scenario :: ScenarioRequirements where
  "demo_scenario =
     \<lparr>sc_ID = ''welcome'', sc_Required = [\<lparr>req_Kind = PERSON_PRESENCE, req_ProviderID = ''cam''\<rparr>],
      sc_Optional = [\<lparr>opt_Kind = VOICE_ACTIVITY, opt_ProviderID = ''mic'', opt_Fallback = NO_VOICE_REPLY\<rparr>,
                     \<lparr>opt_Kind = FACE_IDENTIFICATION, opt_ProviderID = ''cam'',
                      opt_Fallback = ANONYMOUS_SUBJECT\<rparr>]\<rparr>"

definition demo_provider :: "string \<Rightarrow> CapabilityKind list \<Rightarrow> time \<Rightarrow> ProviderSnapshot" where
  "demo_provider i caps lease =
     \<lparr>pv_ProviderID = i, pv_InstanceID = ''1'', pv_ProtocolVersion = ''v1'', pv_ImplementationVersion = ''1'',
      pv_Capabilities = caps, pv_Health = Healthy, pv_LeaseExpiresAt = lease\<rparr>"

definition demo_providers :: "ProviderSnapshot list" where
  "demo_providers = [demo_provider ''cam'' [PERSON_PRESENCE, FACE_IDENTIFICATION] 10,
                     demo_provider ''mic'' [VOICE_ACTIVITY] 5]"

definition demo_policy :: BiometricPolicySnapshot where
  "demo_policy = \<lparr>bp_Enabled = True, bp_Authorized = [FACE_IDENTIFICATION], bp_Enrolled = []\<rparr>"

definition demo_activation :: Activation where
  "demo_activation =
     \<lparr>ac_Status = Degraded,
      ac_Issues = [\<lparr>is_Capability = FACE_IDENTIFICATION, is_ProviderID = ''cam'', is_Code = PolicyBlocked,
                    is_Fallback = ANONYMOUS_SUBJECT\<rparr>,
                   \<lparr>is_Capability = VOICE_ACTIVITY, is_ProviderID = ''mic'', is_Code = DeadlineExceeded,
                    is_Fallback = NO_VOICE_REPLY\<rparr>]\<rparr>"

lemma demo_evaluation: "EvaluateAt demo_scenario demo_providers demo_policy 5 = Inr demo_activation"
  by code_simp

text \<open>C9. Readiness is exact: a selection that validates is evaluated to \<^verbatim>\<open>BLOCKED\<close> when a required
  capability is not available, to \<^verbatim>\<open>DEGRADED\<close> when only optional ones are not, to \<^verbatim>\<open>READY\<close> when all
  are; and the issues, sorted by capability without duplicates, are those of the selected capabilities
  that are not available, each with its selected provider and its declared fallback.\<close>

theorem readiness_exact:
  assumes "EvaluateAt sc ps pol now = Inr act"
  shows "ac_Status act =
      (if \<exists>r \<in> set (sc_Required sc). \<not> available ps pol now (req_Kind r) (req_ProviderID r) then Blocked
       else if \<exists>x \<in> set (sc_Optional sc). \<not> available ps pol now (opt_Kind x) (opt_ProviderID x) then Degraded
       else Ready) \<and>
    set (map (\<lambda>i. (is_Capability i, is_ProviderID i, is_Fallback i)) (ac_Issues act)) =
      {s \<in> set (selections sc). case s of (k, i, fb) \<Rightarrow> \<not> available ps pol now k i} \<and>
    sorted (map is_Capability (ac_Issues act)) \<and> distinct (map is_Capability (ac_Issues act))"
proof -
  let ?f = "issue_of ps pol now"
  let ?is = "List.map_filter ?f (selections sc)"
  from assms have ok: "scenario_ok sc" "providers_ok ps"
    and act: "act = \<lparr>ac_Status = (if List.map_filter ?f (blocking sc) \<noteq> [] then Blocked
        else if ?is \<noteq> [] then Degraded else Ready), ac_Issues = sort_key issue_key ?is\<rparr>"
    by (simp_all add: EvaluateAt_Inr)
  note none = issue_of_None [OF ok(2), of pol now]
  have some: "(\<exists>y. ?f (k, i, fb) = Some y) \<longleftrightarrow> \<not> available ps pol now k i" for k i fb
    using none [of k i fb] by auto
  have empty: "List.map_filter ?f xs \<noteq> [] \<longleftrightarrow> (\<exists>(k, i, fb) \<in> set xs. \<not> available ps pol now k i)" for xs
    using some by (force simp: set_map_filter' simp flip: set_empty)
  have status: "ac_Status act =
      (if \<exists>r \<in> set (sc_Required sc). \<not> available ps pol now (req_Kind r) (req_ProviderID r) then Blocked
       else if \<exists>x \<in> set (sc_Optional sc). \<not> available ps pol now (opt_Kind x) (opt_ProviderID x) then Degraded
       else Ready)"
    unfolding act empty by (auto simp: selections_parts blocking_def degrading_def)
  have issues: "set (map (\<lambda>i. (is_Capability i, is_ProviderID i, is_Fallback i)) ?is) =
      {s \<in> set (selections sc). case s of (k, i, fb) \<Rightarrow> \<not> available ps pol now k i}"
  proof (rule set_eqI)
    fix s :: "CapabilityKind \<times> string \<times> Fallback"
    obtain k i fb where s: "s = (k, i, fb)" by (cases s)
    have "(is_Capability y, is_ProviderID y, is_Fallback y) = t" if "?f t = Some y" for t y
      using that by (cases t) (simp add: issue_of_key)
    then have "(\<exists>t y. t \<in> set (selections sc) \<and> ?f t = Some y \<and>
        (is_Capability y, is_ProviderID y, is_Fallback y) = s) \<longleftrightarrow>
      s \<in> set (selections sc) \<and> (\<exists>y. ?f s = Some y)"
      by blast
    then show "s \<in> set (map (\<lambda>i. (is_Capability i, is_ProviderID i, is_Fallback i)) ?is) \<longleftrightarrow>
        s \<in> {s \<in> set (selections sc). case s of (k, i, fb) \<Rightarrow> \<not> available ps pol now k i}"
      using some [of k i fb] by (auto simp: set_map_filter' image_iff s)
  qed
  have "sorted (map issue_key (sort_key issue_key ?is))" by (rule sorted_sort_key)
  then have "sorted (map is_Capability (sort_key issue_key ?is))"
    unfolding sorted_map by (rule sorted_wrt_mono_rel [rotated]) (auto simp: issue_key_def less_eq_prod_def)
  moreover have "distinct (map is_Capability (sort_key issue_key ?is))"
  proof -
    have "mset (map is_Capability (sort_key issue_key ?is)) = mset (map is_Capability ?is)" by simp
    from mset_eq_imp_distinct_iff [OF this] issues_distinct [OF ok(1), of ps pol now]
    show ?thesis by blast
  qed
  ultimately show ?thesis using status issues by (simp add: act)
qed

lemma readiness_exact_witness:
  "ac_Status demo_activation = Degraded \<and> available demo_providers demo_policy 5 PERSON_PRESENCE ''cam'' \<and>
   \<not> available demo_providers demo_policy 5 VOICE_ACTIVITY ''mic''"
proof -
  have "ac_Status demo_activation = Degraded" by code_simp
  moreover have "(VOICE_ACTIVITY, ''mic'', NO_VOICE_REPLY) \<in>
      set (map (\<lambda>i. (is_Capability i, is_ProviderID i, is_Fallback i)) (ac_Issues demo_activation))"
    by code_simp
  moreover have "sc_Required demo_scenario = [\<lparr>req_Kind = PERSON_PRESENCE, req_ProviderID = ''cam''\<rparr>]"
    by (simp add: demo_scenario_def)
  ultimately show ?thesis
    using readiness_exact [OF demo_evaluation] by (simp only:) (auto split: if_splits)
qed

text \<open>The result does not depend on the order in which the selection, the providers and the policy
  are written down.\<close>

theorem readiness_order_independent:
  assumes "mset (sc_Required sc) = mset (sc_Required sc')" "mset (sc_Optional sc) = mset (sc_Optional sc')"
    and "sc_ID sc = sc_ID sc'" "mset ps = mset ps'" "bp_Enabled pol = bp_Enabled pol'"
    and "mset (bp_Authorized pol) = mset (bp_Authorized pol')"
    and "mset (bp_Enrolled pol) = mset (bp_Enrolled pol')"
    and "EvaluateAt sc ps pol now = Inr act"
  shows "EvaluateAt sc' ps' pol' now = Inr act"
proof -
  let ?f = "issue_of ps pol now"
  from assms(8) have ok: "scenario_ok sc" "providers_ok ps" "policy_ok pol" by (simp_all add: EvaluateAt_Inr)
  have b: "mset (blocking sc) = mset (blocking sc')" and s: "mset (selections sc) = mset (selections sc')"
    using assms(1,2) by (simp_all add: blocking_def selections_def)
  have "distinct (map fst (selections sc')) \<longleftrightarrow> distinct (map fst (selections sc))"
    using s by (intro mset_eq_imp_distinct_iff) simp
  then have ok': "scenario_ok sc'" "providers_ok ps'" "policy_ok pol'"
    using ok assms(3) mset_eq_setD [OF s] mset_eq_setD [OF assms(2)] mset_eq_setD [OF assms(4)]
      mset_eq_setD [OF assms(6)] mset_eq_setD [OF assms(7)] s
      mset_eq_imp_distinct_iff [OF assms(6)] mset_eq_imp_distinct_iff [OF assms(7)]
      mset_eq_imp_distinct_iff [of "map pv_ProviderID ps" "map pv_ProviderID ps'"] assms(4)
    by (auto simp: scenario_ok_def providers_ok_def policy_ok_def)
  have f: "issue_of ps' pol' now = ?f" using issue_of_perm [OF assms(4) ok(2) assms(6,7,5)] by simp
  have e: "List.map_filter ?f xs = [] \<longleftrightarrow> List.map_filter ?f ys = []" if "mset xs = mset ys" for xs ys
    using mset_map_filter [OF that, of ?f] by (metis mset_zero_iff)
  have "sort_key issue_key (List.map_filter ?f (selections sc)) =
      sort_key issue_key (List.map_filter ?f (selections sc'))"
    by (rule sort_key_perm [OF mset_map_filter [OF s] issues_distinct [OF ok(1)]])
  with assms(8) ok' e [OF b] e [OF s] show ?thesis by (simp add: EvaluateAt_Inr f)
qed

lemma readiness_order_independent_witness:
  "EvaluateAt (demo_scenario\<lparr>sc_Optional := rev (sc_Optional demo_scenario)\<rparr>) (rev demo_providers)
     demo_policy 5 = Inr demo_activation"
  by (rule readiness_order_independent [OF _ _ _ _ _ _ _ demo_evaluation]) simp_all

text \<open>The evaluation fails exactly on an ill-formed selection, set of snapshots or policy, and then
  always with an error of category \<^verbatim>\<open>InvalidInput\<close>; it never depends on the time.\<close>

theorem readiness_errors:
  "(case EvaluateAt sc ps pol now of
      Inl err \<Rightarrow> IsCode err InvalidInput
    | Inr act \<Rightarrow> scenario_ok sc \<and> providers_ok ps \<and> policy_ok pol) \<and>
   (isl (EvaluateAt sc ps pol now) \<longleftrightarrow> \<not> (scenario_ok sc \<and> providers_ok ps \<and> policy_ok pol))"
proof (cases "EvaluateAt sc ps pol now")
  case (Inl err)
  then have "\<not> (scenario_ok sc \<and> providers_ok ps \<and> policy_ok pol)"
    using EvaluateAt_Inr [of sc ps pol now] by auto
  moreover have "IsCode err InvalidInput"
    using Inl by (auto simp: EvaluateAt_def validateBiometricPolicy_def Let_def
        dest: ValidateScenario_Some validateProviders_Inl validatePolicyKinds_Inl
        split: option.splits sum.splits)
  ultimately show ?thesis by (simp add: Inl)
next
  case (Inr act)
  then show ?thesis using EvaluateAt_Inr [of sc ps pol now act] by simp
qed

end
