(* ===== verification/Rpc_Status.thy ===== *)
theory Rpc_Status
  imports Fault
begin

text \<open>
  What the transport adapters use of the gRPC status package: a status error is the code and the
  message it was built from. \<^verbatim>\<open>status.FromContextError\<close> is code of that package; it is the parameter
  \<open>fce\<close> of the operations that call it.
\<close>

datatype grpc_code =
    Code_Canceled | Code_InvalidArgument | Code_DeadlineExceeded | Code_NotFound | Code_AlreadyExists
  | Code_PermissionDenied | Code_FailedPrecondition | Code_Internal | Code_Unavailable
  | Code_Unauthenticated | Code_Aborted | Code_Other nat

datatype rpc_error = RpcError (rpc_code: grpc_code) (rpc_message: string)

definition contextStatus :: "(goerror \<Rightarrow> rpc_error) \<Rightarrow> goerror option \<Rightarrow> rpc_error option" where
  "contextStatus fce ctxErr = map_option fce ctxErr"

end
