(* ===== verification/Registry.thy ===== *)
theory Registry
  imports Readiness Rpc_Status "HOL-Library.AList" "HOL-Library.Word"
begin

text \<open>
  Package \<^verbatim>\<open>adapters/capability/registry\<close> (\<^verbatim>\<open>registry.go\<close>, \<^verbatim>\<open>mapper.go\<close>): the in-memory provider leases.
  The two indexes hold pointers to shared records, so records live in a store: an address is a
  position of \<open>rg_records\<close>, a Go map is an association list (its iteration order never shows, since
  \<^verbatim>\<open>Snapshots\<close> sorts), a channel of capacity one is an option. The operations hold the lock for all
  they do, so they are atomic; the two context checks of an RPC are two arguments. Enumerations of the
  protocol are their numbers, \<^verbatim>\<open>timestamppb.New(t)\<close> is represented by \<open>t\<close>.
\<close>

section \<open>Data\<close>

record registrationDeclaration =
  rd_providerID :: string
  rd_instanceID :: string
  rd_protocolVersion :: string
  rd_implementationVersion :: string
  rd_capabilities :: "CapabilityKind list"
  rd_health :: ProviderHealth
  rd_healthReason :: int

record providerRecord =
  rec_declaration :: registrationDeclaration
  rec_leaseID :: string
  rec_snapshot :: ProviderSnapshot

record Registry =
  rg_leaseDuration :: duration
  rg_records :: "providerRecord list"
  rg_byProvider :: "(string \<times> nat) list"
  rg_byLease :: "(string \<times> nat) list"
  rg_subs :: "(64 word \<times> ProviderSnapshot list option) list"
  rg_nextSubID :: "64 word"

text \<open>The messages of the protocol.\<close>

record RegisterRequest =
  rq_ProviderId :: string
  rq_InstanceId :: string
  rq_ProtocolVersion :: string
  rq_ImplementationVersion :: string
  rq_Capabilities :: "int list"
  rq_Health :: int
  rq_HealthReason :: int

record RegisterResponse =
  rs_LeaseId :: string
  rs_ExpiresAt :: time

record HeartbeatRequest =
  hq_LeaseId :: string
  hq_Health :: int
  hq_HealthReason :: int

text \<open>
  What an RPC meets: its context error before and after the lock, the clock, and the results of the
  calls of \<^verbatim>\<open>rand.Read\<close>.
\<close>

record rpc_call =
  ca_ctx :: "goerror option"
  ca_ctxLocked :: "goerror option"
  ca_now :: time
  ca_random :: "(goerror + 8 word list) list"

definition SupportedProtocolVersion :: string where
  "SupportedProtocolVersion = ''v1''"

section \<open>Mapping requests\<close>

definition capability_numbers :: "(int \<times> CapabilityKind) list" where
  "capability_numbers =
     [(1, PERSON_PRESENCE), (2, FACE_DETECTION), (3, FACE_IDENTIFICATION), (4, FACE_LIVENESS),
      (5, VOICE_ACTIVITY), (6, SPEAKER_IDENTIFICATION), (7, SPEAKER_VERIFICATION),
      (8, SPEECH_TRANSCRIPTION), (9, ATTENTION_ESTIMATION), (10, BUSY_STATE), (11, GESTURE_DETECTION),
      (12, DEVICE_STATE), (13, DISPLAY_TEXT), (14, AVATAR_ATTEND), (15, AVATAR_EXPRESSION),
      (16, SPEECH_SYNTHESIS), (17, GESTURE), (18, LIGHT), (19, LOCOMOTION)]"

definition mapCapability :: "int \<Rightarrow> CapabilityKind option" where
  "mapCapability n = map_of capability_numbers n"

text \<open>The loop over the sorted copy; the first argument is the previous element.\<close>

fun normalizeCapabilities_from :: "int option \<Rightarrow> int list \<Rightarrow> rpc_error + CapabilityKind list" where
  "normalizeCapabilities_from prev [] = Inr []"
| "normalizeCapabilities_from prev (c # cs) =
     (if prev = Some c then Inl (RpcError Code_InvalidArgument ''capability is duplicated'')
      else case mapCapability c of
          None \<Rightarrow> Inl (RpcError Code_InvalidArgument ''capability is unspecified or unknown'')
        | Some k \<Rightarrow>
            (case normalizeCapabilities_from (Some c) cs of
               Inl err \<Rightarrow> Inl err
             | Inr ks \<Rightarrow> Inr (k # ks)))"

definition normalizeCapabilities :: "int list \<Rightarrow> rpc_error + CapabilityKind list" where
  "normalizeCapabilities input =
     (if length input = 0 then Inl (RpcError Code_InvalidArgument ''at least one capability is required'')
      else normalizeCapabilities_from None (sort input))"

definition validHealthReason :: "int \<Rightarrow> bool" where
  "validHealthReason reason = (reason \<in> set [1, 2, 3, 4, 5, 6, 7, 8])"

definition normalizeHealth :: "int \<Rightarrow> int \<Rightarrow> rpc_error + ProviderHealth" where
  "normalizeHealth state reason =
     (if \<not> validHealthReason reason then
        Inl (RpcError Code_InvalidArgument ''health reason is unspecified or unknown'')
      else if state = 1 then
        (if reason \<noteq> 1 then Inl (RpcError Code_InvalidArgument ''healthy provider must use NONE reason'')
         else Inr Healthy)
      else if state = 3 then
        (if reason = 1 then Inl (RpcError Code_InvalidArgument ''unhealthy provider must use a failure reason'')
         else Inr Unhealthy)
      else Inl (RpcError Code_InvalidArgument ''health state is unspecified or unknown''))"

definition normalizeRegistration :: "RegisterRequest option \<Rightarrow> rpc_error + registrationDeclaration" where
  "normalizeRegistration request =
     (case request of
        None \<Rightarrow> Inl (RpcError Code_InvalidArgument ''registration request is required'')
      | Some rq \<Rightarrow>
          if rq_ProviderId rq = [] \<or> rq_InstanceId rq = [] \<or> rq_ProtocolVersion rq = [] \<or>
             rq_ImplementationVersion rq = [] then
            Inl (RpcError Code_InvalidArgument
              ''provider id, instance id, protocol version, and implementation version are required'')
          else if rq_ProtocolVersion rq \<noteq> SupportedProtocolVersion then
            Inl (RpcError Code_FailedPrecondition ''unsupported capability provider protocol'')
          else (case normalizeCapabilities (rq_Capabilities rq) of
              Inl err \<Rightarrow> Inl err
            | Inr capabilities \<Rightarrow>
                (case normalizeHealth (rq_Health rq) (rq_HealthReason rq) of
                   Inl err \<Rightarrow> Inl err
                 | Inr health \<Rightarrow>
                     Inr \<lparr>rd_providerID = rq_ProviderId rq, rd_instanceID = rq_InstanceId rq,
                          rd_protocolVersion = rq_ProtocolVersion rq,
                          rd_implementationVersion = rq_ImplementationVersion rq,
                          rd_capabilities = capabilities, rd_health = health,
                          rd_healthReason = rq_HealthReason rq\<rparr>)))"

definition normalizeHeartbeat :: "HeartbeatRequest option \<Rightarrow> rpc_error + string \<times> ProviderHealth" where
  "normalizeHeartbeat request =
     (case request of
        None \<Rightarrow> Inl (RpcError Code_InvalidArgument ''heartbeat lease id is required'')
      | Some hq \<Rightarrow>
          if hq_LeaseId hq = [] then
            Inl (RpcError Code_InvalidArgument ''heartbeat lease id is required'')
          else (case normalizeHealth (hq_Health hq) (hq_HealthReason hq) of
              Inl err \<Rightarrow> Inl err
            | Inr health \<Rightarrow> Inr (hq_LeaseId hq, health)))"

section \<open>Operations\<close>

definition Registry_New :: "bool \<Rightarrow> duration \<Rightarrow> goerror + Registry" where
  "Registry_New clockPresent leaseDuration =
     (if \<not> clockPresent then Inl (Leaf ''capability registry clock is required'')
      else if leaseDuration \<le> 0 then Inl (Leaf ''capability registry lease duration must be positive'')
      else Inr \<lparr>rg_leaseDuration = leaseDuration, rg_records = [], rg_byProvider = [], rg_byLease = [],
               rg_subs = [], rg_nextSubID = 0\<rparr>)"

definition record_at :: "Registry \<Rightarrow> nat \<Rightarrow> providerRecord" where
  "record_at r a = rg_records r ! a"

definition snapshotsLocked :: "Registry \<Rightarrow> ProviderSnapshot list" where
  "snapshotsLocked r =
     sort_key pv_ProviderID (map (\<lambda>(p, a). rec_snapshot (record_at r a)) (rg_byProvider r))"

definition notifySubscribersLocked :: "Registry \<Rightarrow> Registry" where
  "notifySubscribersLocked r =
     r\<lparr>rg_subs := map (\<lambda>(i, ch). (i, Some (snapshotsLocked r))) (rg_subs r)\<rparr>"

definition sameDeclaration :: "registrationDeclaration \<Rightarrow> registrationDeclaration \<Rightarrow> bool" where
  "sameDeclaration left right =
     (if rd_providerID left \<noteq> rd_providerID right \<or> rd_instanceID left \<noteq> rd_instanceID right \<or>
         rd_protocolVersion left \<noteq> rd_protocolVersion right \<or>
         rd_implementationVersion left \<noteq> rd_implementationVersion right \<or>
         rd_health left \<noteq> rd_health right \<or> rd_healthReason left \<noteq> rd_healthReason right \<or>
         length (rd_capabilities left) \<noteq> length (rd_capabilities right) then False
      else list_all2 (=) (rd_capabilities left) (rd_capabilities right))"

definition registerResponse :: "providerRecord \<Rightarrow> RegisterResponse" where
  "registerResponse rec =
     \<lparr>rs_LeaseId = rec_leaseID rec, rs_ExpiresAt = pv_LeaseExpiresAt (rec_snapshot rec)\<rparr>"

text \<open>\<^verbatim>\<open>hex.EncodeToString\<close>.\<close>

definition hex_digit :: "nat \<Rightarrow> char" where
  "hex_digit n = ''0123456789abcdef'' ! n"

definition hex_encode :: "8 word list \<Rightarrow> string" where
  "hex_encode bytes = concat (map (\<lambda>b. [hex_digit (unat b div 16), hex_digit (unat b mod 16)]) bytes)"

text \<open>The loop of \<^verbatim>\<open>newLeaseIDLocked\<close> over the random draws; \<open>None\<close> when it has not returned by the last.\<close>

fun newLeaseIDLocked :: "(string \<times> nat) list \<Rightarrow> (goerror + 8 word list) list \<Rightarrow> (goerror + string) option" where
  "newLeaseIDLocked byLease [] = None"
| "newLeaseIDLocked byLease (Inl err # draws) = Some (Inl err)"
| "newLeaseIDLocked byLease (Inr bytes # draws) =
     (if map_of byLease (hex_encode bytes) = None then Some (Inr (hex_encode bytes))
      else newLeaseIDLocked byLease draws)"

definition new_record :: "registrationDeclaration \<Rightarrow> string \<Rightarrow> time \<Rightarrow> providerRecord" where
  "new_record d leaseID expiresAt =
     \<lparr>rec_declaration = d, rec_leaseID = leaseID,
      rec_snapshot = \<lparr>pv_ProviderID = rd_providerID d, pv_InstanceID = rd_instanceID d,
        pv_ProtocolVersion = rd_protocolVersion d, pv_ImplementationVersion = rd_implementationVersion d,
        pv_Capabilities = rd_capabilities d, pv_Health = rd_health d, pv_LeaseExpiresAt = expiresAt\<rparr>\<rparr>"

definition install :: "providerRecord \<Rightarrow> Registry \<Rightarrow> Registry" where
  "install rec r =
     (let p = rd_providerID (rec_declaration rec);
          a = length (rg_records r);
          byLease = (case map_of (rg_byProvider r) p of
             Some previous \<Rightarrow> AList.delete (rec_leaseID (record_at r previous)) (rg_byLease r)
           | None \<Rightarrow> rg_byLease r)
      in notifySubscribersLocked
           (r\<lparr>rg_records := rg_records r @ [rec], rg_byProvider := AList.update p a (rg_byProvider r),
              rg_byLease := AList.update (rec_leaseID rec) a byLease\<rparr>))"

definition RegisterCapabilityProvider ::
    "(goerror \<Rightarrow> rpc_error) \<Rightarrow> rpc_call \<Rightarrow> RegisterRequest option \<Rightarrow> Registry \<Rightarrow>
     ((rpc_error + RegisterResponse) \<times> Registry) option" where
  "RegisterCapabilityProvider fce ca request r =
     (case contextStatus fce (ca_ctx ca) of
        Some err \<Rightarrow> Some (Inl err, r)
      | None \<Rightarrow>
          (case normalizeRegistration request of
             Inl err \<Rightarrow> Some (Inl err, r)
           | Inr d \<Rightarrow>
               (case contextStatus fce (ca_ctxLocked ca) of
                  Some err \<Rightarrow> Some (Inl err, r)
                | None \<Rightarrow>
                    let now = ca_now ca;
                        issue =
                          (case newLeaseIDLocked (rg_byLease r) (ca_random ca) of
                             None \<Rightarrow> None
                           | Some (Inl err) \<Rightarrow>
                               Some (Inl (RpcError Code_Internal ''issue capability provider lease''), r)
                           | Some (Inr leaseID) \<Rightarrow>
                               let rec = new_record d leaseID (Add now (rg_leaseDuration r))
                               in Some (Inr (registerResponse rec), install rec r))
                    in (case map_of (rg_byProvider r) (rd_providerID d) of
                          Some a \<Rightarrow>
                            let current = record_at r a in
                            if Before now (pv_LeaseExpiresAt (rec_snapshot current)) then
                              (if \<not> sameDeclaration (rec_declaration current) d then
                                 Some (Inl (RpcError Code_AlreadyExists
                                   ''active provider id has a different declaration''), r)
                               else Some (Inr (registerResponse current), r))
                            else issue
                        | None \<Rightarrow> issue))))"

definition HeartbeatCapabilityProvider ::
    "(goerror \<Rightarrow> rpc_error) \<Rightarrow> rpc_call \<Rightarrow> HeartbeatRequest option \<Rightarrow> Registry \<Rightarrow>
     (rpc_error + time) \<times> Registry" where
  "HeartbeatCapabilityProvider fce ca request r =
     (case contextStatus fce (ca_ctx ca) of
        Some err \<Rightarrow> (Inl err, r)
      | None \<Rightarrow>
          (case normalizeHeartbeat request of
             Inl err \<Rightarrow> (Inl err, r)
           | Inr (leaseID, health) \<Rightarrow>
               (case contextStatus fce (ca_ctxLocked ca) of
                  Some err \<Rightarrow> (Inl err, r)
                | None \<Rightarrow>
                    (case map_of (rg_byLease r) leaseID of
                       None \<Rightarrow> (Inl (RpcError Code_NotFound ''capability provider lease not found''), r)
                     | Some a \<Rightarrow>
                         let rec = record_at r a; now = ca_now ca in
                         if \<not> Before now (pv_LeaseExpiresAt (rec_snapshot rec)) then
                           (Inl (RpcError Code_DeadlineExceeded ''capability provider lease expired''), r)
                         else
                           let expiresAt = Add now (rg_leaseDuration r);
                               rec' = rec\<lparr>rec_snapshot := (rec_snapshot rec)
                                 \<lparr>pv_Health := health, pv_LeaseExpiresAt := expiresAt\<rparr>\<rparr>
                           in (Inr expiresAt,
                               notifySubscribersLocked (r\<lparr>rg_records := (rg_records r)[a := rec']\<rparr>))))))"

definition UnregisterCapabilityProvider ::
    "(goerror \<Rightarrow> rpc_error) \<Rightarrow> rpc_call \<Rightarrow> string option \<Rightarrow> Registry \<Rightarrow> rpc_error option \<times> Registry" where
  "UnregisterCapabilityProvider fce ca request r =
     (case contextStatus fce (ca_ctx ca) of
        Some err \<Rightarrow> (Some err, r)
      | None \<Rightarrow>
          if request = None \<or> request = Some [] then
            (Some (RpcError Code_InvalidArgument ''lease id is required''), r)
          else (case contextStatus fce (ca_ctxLocked ca) of
              Some err \<Rightarrow> (Some err, r)
            | None \<Rightarrow>
                (case map_of (rg_byLease r) (the request) of
                   None \<Rightarrow> (Some (RpcError Code_NotFound ''capability provider lease not found''), r)
                 | Some a \<Rightarrow>
                     let rec = record_at r a;
                         p = rd_providerID (rec_declaration rec);
                         byProvider = (if map_of (rg_byProvider r) p = Some a
                           then AList.delete p (rg_byProvider r) else rg_byProvider r)
                     in (None, notifySubscribersLocked
                           (r\<lparr>rg_byLease := AList.delete (rec_leaseID rec) (rg_byLease r),
                              rg_byProvider := byProvider\<rparr>)))))"

definition Snapshots :: "Registry \<Rightarrow> ProviderSnapshot list" where
  "Snapshots r = snapshotsLocked r"

text \<open>\<^verbatim>\<open>Subscribe\<close> and the function it returns; the reader's receive is a step of its own.\<close>

definition Subscribe :: "Registry \<Rightarrow> (ProviderSnapshot list \<times> 64 word) \<times> Registry" where
  "Subscribe r =
     (let i = rg_nextSubID r
      in ((snapshotsLocked r, i), r\<lparr>rg_subs := AList.update i None (rg_subs r), rg_nextSubID := i + 1\<rparr>))"

definition cancel_subscription :: "64 word \<Rightarrow> Registry \<Rightarrow> Registry" where
  "cancel_subscription i r = r\<lparr>rg_subs := AList.delete i (rg_subs r)\<rparr>"

definition receive_update :: "64 word \<Rightarrow> Registry \<Rightarrow> (ProviderSnapshot list \<times> Registry) option" where
  "receive_update i r =
     (case map_of (rg_subs r) i of
        Some (Some v) \<Rightarrow> Some (v, r\<lparr>rg_subs := AList.update i None (rg_subs r)\<rparr>)
      | _ \<Rightarrow> None)"

definition LeaseSnapshot :: "string \<Rightarrow> Registry \<Rightarrow> ProviderSnapshot option" where
  "LeaseSnapshot leaseID r =
     (case map_of (rg_byLease r) leaseID of
        None \<Rightarrow> None
      | Some a \<Rightarrow> Some (rec_snapshot (record_at r a)))"

definition RevokeProvider :: "string \<Rightarrow> Registry \<Rightarrow> bool \<times> Registry" where
  "RevokeProvider providerID r =
     (if providerID = [] then (False, r)
      else (case map_of (rg_byProvider r) providerID of
          None \<Rightarrow> (False, r)
        | Some a \<Rightarrow>
            (True, notifySubscribersLocked
              (r\<lparr>rg_byProvider := AList.delete providerID (rg_byProvider r),
                 rg_byLease := AList.delete (rec_leaseID (record_at r a)) (rg_byLease r)\<rparr>))))"


section \<open>Specification\<close>

text \<open>
  What the registry promises: one current record per provider, found by provider or by lease. The two
  indexes and the shared records implement a single map.
\<close>

definition entries :: "Registry \<Rightarrow> string \<rightharpoonup> providerRecord" where
  "entries r = (\<lambda>p. map_option (record_at r) (map_of (rg_byProvider r) p))"

definition rec_provider :: "providerRecord \<Rightarrow> string" where
  "rec_provider rec = rd_providerID (rec_declaration rec)"

definition rec_expires :: "providerRecord \<Rightarrow> time" where
  "rec_expires rec = pv_LeaseExpiresAt (rec_snapshot rec)"

definition record_ok :: "providerRecord \<Rightarrow> bool" where
  "record_ok rec = (pv_ProviderID (rec_snapshot rec) = rec_provider rec \<and> provider_ok (rec_snapshot rec))"

definition registry_ok :: "Registry \<Rightarrow> bool" where
  "registry_ok r =
     (distinct (map fst (rg_byProvider r)) \<and> distinct (map fst (rg_subs r)) \<and>
      (\<forall>p a. map_of (rg_byProvider r) p = Some a \<longrightarrow>
         a < length (rg_records r) \<and> rec_provider (record_at r a) = p \<and>
         map_of (rg_byLease r) (rec_leaseID (record_at r a)) = Some a) \<and>
      (\<forall>l a. map_of (rg_byLease r) l = Some a \<longrightarrow>
         a < length (rg_records r) \<and> rec_leaseID (record_at r a) = l \<and>
         map_of (rg_byProvider r) (rec_provider (record_at r a)) = Some a) \<and>
      (\<forall>a < length (rg_records r). record_ok (record_at r a)) \<and> 0 < rg_leaseDuration r)"

lemma registry_okD:
  assumes "registry_ok r"
  shows "map_of (rg_byProvider r) p = Some a \<Longrightarrow>
      a < length (rg_records r) \<and> rec_provider (record_at r a) = p \<and>
      map_of (rg_byLease r) (rec_leaseID (record_at r a)) = Some a"
    and "map_of (rg_byLease r) l = Some a \<Longrightarrow>
      a < length (rg_records r) \<and> rec_leaseID (record_at r a) = l \<and>
      map_of (rg_byProvider r) (rec_provider (record_at r a)) = Some a"
    and "a < length (rg_records r) \<Longrightarrow> record_ok (record_at r a)"
  using assms by (auto simp: registry_ok_def)

lemma notify_frame [frame_simps]:
  "rg_records (notifySubscribersLocked r) = rg_records r"
  "rg_byProvider (notifySubscribersLocked r) = rg_byProvider r"
  "rg_byLease (notifySubscribersLocked r) = rg_byLease r"
  "rg_leaseDuration (notifySubscribersLocked r) = rg_leaseDuration r"
  "rg_nextSubID (notifySubscribersLocked r) = rg_nextSubID r"
  "record_at (notifySubscribersLocked r) = record_at r"
  "entries (notifySubscribersLocked r) = entries r"
  "map fst (rg_subs (notifySubscribersLocked r)) = map fst (rg_subs r)"
  by (simp_all add: notifySubscribersLocked_def record_at_def [abs_def] entries_def comp_def case_prod_beta)

lemma registry_ok_notify [simp]: "registry_ok (notifySubscribersLocked r) = registry_ok r"
  by (simp add: registry_ok_def frame_simps)

lemma entries_Some:
  "entries r p = Some rec \<longleftrightarrow> (\<exists>a. map_of (rg_byProvider r) p = Some a \<and> rec = record_at r a)"
  by (auto simp: entries_def)

lemma entries_provider:
  "registry_ok r \<Longrightarrow> entries r p = Some rec \<Longrightarrow> rec_provider rec = p \<and> record_ok rec"
  by (auto simp: entries_Some dest: registry_okD)

text \<open>The lease index finds the record of the map that has the lease.\<close>

lemma byLease_Some:
  assumes "registry_ok r"
  shows "(\<exists>a. map_of (rg_byLease r) l = Some a \<and> record_at r a = rec) \<longleftrightarrow>
     (\<exists>p. entries r p = Some rec) \<and> rec_leaseID rec = l"
  using registry_okD(1) [OF assms] registry_okD(2) [OF assms] by (auto simp: entries_Some) metis+

text \<open>Two providers do not share a lease.\<close>

lemma lease_unique:
  assumes "registry_ok r" "entries r p = Some x" "entries r q = Some y" "rec_leaseID x = rec_leaseID y"
  shows "p = q"
  using assms(2-4) registry_okD(1) [OF assms(1)] by (auto simp: entries_Some) (metis option.inject)

section \<open>The three changes of the store\<close>

lemma install_ok:
  assumes ok: "registry_ok r" and fresh: "map_of (rg_byLease r) (rec_leaseID rec) = None"
    and rec: "record_ok rec"
  shows "registry_ok (install rec r) \<and> entries (install rec r) = (entries r)(rec_provider rec \<mapsto> rec)"
proof -
  let ?p = "rec_provider rec" and ?n = "length (rg_records r)"
  define L where "L = (case map_of (rg_byProvider r) ?p of
      Some previous \<Rightarrow> AList.delete (rec_leaseID (record_at r previous)) (rg_byLease r) | None \<Rightarrow> rg_byLease r)"
  define r' where "r' = r\<lparr>rg_records := rg_records r @ [rec],
      rg_byProvider := AList.update ?p ?n (rg_byProvider r), rg_byLease := AList.update (rec_leaseID rec) ?n L\<rparr>"
  have inst: "install rec r = notifySubscribersLocked r'"
    by (simp add: install_def r'_def L_def rec_provider_def Let_def)
  have at: "record_at r' a = (if a = ?n then rec else record_at r a)" if "a \<le> ?n" for a
    using that by (simp add: record_at_def r'_def nth_append)
  have old: "a < ?n" if "map_of (rg_byProvider r) q = Some a" for q a
    using registry_okD(1) [OF ok that] by simp
  have L: "map_of L l = (if \<exists>a. map_of (rg_byProvider r) ?p = Some a \<and> rec_leaseID (record_at r a) = l
      then None else map_of (rg_byLease r) l)" for l
    by (auto simp: L_def delete_conv' split: option.splits)
  have P: "map_of (rg_byProvider r') = (map_of (rg_byProvider r))(?p \<mapsto> ?n)"
    by (simp add: r'_def update_conv')
  have Q: "map_of (rg_byLease r') = (map_of L)(rec_leaseID rec \<mapsto> ?n)"
    by (simp add: r'_def update_conv')
  have e: "entries r' = (entries r)(?p \<mapsto> rec)"
  proof
    fix q
    show "entries r' q = ((entries r)(?p \<mapsto> rec)) q"
      using old [of q] by (cases "map_of (rg_byProvider r) q") (auto simp: entries_def P at)
  qed
  have ok': "registry_ok r'"
    unfolding registry_ok_def
  proof (intro conjI allI impI)
    show "distinct (map fst (rg_byProvider r'))" "distinct (map fst (rg_subs r'))" "0 < rg_leaseDuration r'"
      using ok by (simp_all add: r'_def registry_ok_def distinct_update)
  next
    fix q a assume q: "map_of (rg_byProvider r') q = Some a"
    show "a < length (rg_records r')" using q [unfolded P] old [of q a] by (auto simp: r'_def split: if_splits)
    show "rec_provider (record_at r' a) = q"
      using q at [of a] old [of q a] registry_okD(1) [OF ok, of q a] by (auto simp: P split: if_splits)
    show "map_of (rg_byLease r') (rec_leaseID (record_at r' a)) = Some a"
    proof (cases "q = ?p")
      case True
      with q show ?thesis by (simp add: P Q at)
    next
      case False
      with q have qa: "map_of (rg_byProvider r) q = Some a" by (simp add: P)
      from registry_okD(1) [OF ok this] have la: "map_of (rg_byLease r) (rec_leaseID (record_at r a)) = Some a"
        and "rec_provider (record_at r a) = q" by auto
      have "\<not> (map_of (rg_byProvider r) ?p = Some b \<and> rec_leaseID (record_at r b) = rec_leaseID (record_at r a))" for b
        using registry_okD(1) [OF ok, of ?p b] la False \<open>rec_provider (record_at r a) = q\<close>
        by (metis option.inject)
      then have "map_of L (rec_leaseID (record_at r a)) = Some a" using la by (simp add: L)
      moreover have "rec_leaseID (record_at r a) \<noteq> rec_leaseID rec" using la fresh by auto
      ultimately show ?thesis using old [OF qa] by (simp add: Q at)
    qed
  next
    fix l a assume l: "map_of (rg_byLease r') l = Some a"
    have *: "a = ?n \<and> l = rec_leaseID rec \<or> l \<noteq> rec_leaseID rec \<and> map_of (rg_byLease r) l = Some a \<and>
        a < ?n \<and> rec_leaseID (record_at r a) = l \<and> map_of (rg_byProvider r) (rec_provider (record_at r a)) = Some a
        \<and> rec_provider (record_at r a) \<noteq> ?p"
      using l registry_okD(2) [OF ok, of l a] by (auto simp: Q L split: if_splits)
    then show "a < length (rg_records r')" "rec_leaseID (record_at r' a) = l"
      "map_of (rg_byProvider r') (rec_provider (record_at r' a)) = Some a"
      by (auto simp: at P) (auto simp: r'_def)
  next
    fix a assume "a < length (rg_records r')"
    then show "record_ok (record_at r' a)"
      using rec registry_okD(3) [OF ok, of a] at [of a] by (auto simp: r'_def)
  qed
  from e ok' show ?thesis by (simp add: inst frame_simps)
qed

lemma replace_ok:
  assumes ok: "registry_ok r" and l: "map_of (rg_byLease r) l = Some a"
    and rec: "rec_declaration rec = rec_declaration (record_at r a)" "rec_leaseID rec = l" "record_ok rec"
  shows "registry_ok (r\<lparr>rg_records := (rg_records r)[a := rec]\<rparr>) \<and>
    entries (r\<lparr>rg_records := (rg_records r)[a := rec]\<rparr>) = (entries r)(rec_provider rec \<mapsto> rec)"
proof -
  let ?r = "r\<lparr>rg_records := (rg_records r)[a := rec]\<rparr>"
  from registry_okD(2) [OF ok l] have a: "a < length (rg_records r)" "rec_leaseID (record_at r a) = l"
    "map_of (rg_byProvider r) (rec_provider (record_at r a)) = Some a" by auto
  have at: "record_at ?r b = (if b = a then rec else record_at r b)" for b
    using a(1) by (cases "b < length (rg_records r)") (auto simp: record_at_def nth_list_update)
  have pr: "rec_provider rec = rec_provider (record_at r a)" using rec(1) by (simp add: rec_provider_def)
  have same: "rec_provider (record_at ?r b) = rec_provider (record_at r b)"
    "rec_leaseID (record_at ?r b) = rec_leaseID (record_at r b)" for b
    using a(2) rec(2) pr by (auto simp: at)
  have "record_ok (record_at ?r b)" if "b < length (rg_records r)" for b
    using rec(3) registry_okD(3) [OF ok that] by (simp add: at)
  then have "registry_ok ?r"
    using ok unfolding registry_ok_def same by simp
  moreover have "entries ?r = (entries r)(rec_provider rec \<mapsto> rec)"
  proof
    fix q
    show "entries ?r q = ((entries r)(rec_provider rec \<mapsto> rec)) q"
    proof (cases "map_of (rg_byProvider r) q")
      case None
      then show ?thesis using a(3) by (auto simp: entries_def pr)
    next
      case (Some b)
      have "b = a \<longleftrightarrow> q = rec_provider rec"
        using registry_okD(1) [OF ok Some] a(3) Some pr by (metis option.inject)
      with Some show ?thesis by (simp add: entries_def at)
    qed
  qed
  ultimately show ?thesis by blast
qed

lemma remove_ok:
  assumes ok: "registry_ok r" and p: "map_of (rg_byProvider r) p = Some a"
  shows "registry_ok (r\<lparr>rg_byProvider := AList.delete p (rg_byProvider r),
        rg_byLease := AList.delete (rec_leaseID (record_at r a)) (rg_byLease r)\<rparr>) \<and>
    entries (r\<lparr>rg_byProvider := AList.delete p (rg_byProvider r),
        rg_byLease := AList.delete (rec_leaseID (record_at r a)) (rg_byLease r)\<rparr>) = (entries r)(p := None)"
proof -
  let ?r = "r\<lparr>rg_byProvider := AList.delete p (rg_byProvider r),
        rg_byLease := AList.delete (rec_leaseID (record_at r a)) (rg_byLease r)\<rparr>"
  have at: "record_at ?r = record_at r" by (simp add: record_at_def fun_eq_iff)
  note pa = registry_okD(1) [OF ok p]
  have "registry_ok ?r"
    unfolding registry_ok_def at
  proof (intro conjI allI impI)
    show "distinct (map fst (rg_byProvider ?r))" "distinct (map fst (rg_subs ?r))" "0 < rg_leaseDuration ?r"
      using ok by (simp_all add: registry_ok_def distinct_delete)
  next
    fix q b assume "map_of (rg_byProvider ?r) q = Some b"
    then have q: "q \<noteq> p" "map_of (rg_byProvider r) q = Some b" by (auto simp: delete_conv' split: if_splits)
    note qb = registry_okD(1) [OF ok q(2)]
    show "b < length (rg_records ?r)" "rec_provider (record_at r b) = q" using qb by auto
    show "map_of (rg_byLease ?r) (rec_leaseID (record_at r b)) = Some b"
    proof -
      have "rec_leaseID (record_at r b) \<noteq> rec_leaseID (record_at r a)"
        using q(1) qb pa by (metis option.inject)
      then show ?thesis using qb by (simp add: delete_conv')
    qed
  next
    fix l b assume "map_of (rg_byLease ?r) l = Some b"
    then have l: "l \<noteq> rec_leaseID (record_at r a)" "map_of (rg_byLease r) l = Some b"
      by (auto simp: delete_conv' split: if_splits)
    note lb = registry_okD(2) [OF ok l(2)]
    show "b < length (rg_records ?r)" "rec_leaseID (record_at r b) = l" using lb by auto
    show "map_of (rg_byProvider ?r) (rec_provider (record_at r b)) = Some b"
    proof -
      have "rec_provider (record_at r b) \<noteq> p"
        using l(1) lb p by (metis option.inject)
      then show ?thesis using lb by (simp add: delete_conv')
    qed
  next
    fix b assume "b < length (rg_records ?r)"
    then show "record_ok (record_at r b)" using registry_okD(3) [OF ok, of b] by simp
  qed
  moreover have "entries ?r = (entries r)(p := None)"
    by (simp add: fun_eq_iff entries_def delete_conv' at)
  ultimately show ?thesis by blast
qed


section \<open>What the mapper accepts\<close>

lemma mapCapability_valid: "mapCapability n = Some k \<Longrightarrow> validCapability k"
  by (auto simp: mapCapability_def capability_numbers_def validCapability_def split: if_splits)

lemma mapCapability_inj: "mapCapability m = Some k \<Longrightarrow> mapCapability n = Some k \<Longrightarrow> m = n"
proof -
  have d: "distinct (map snd capability_numbers)" by code_simp
  assume "mapCapability m = Some k" "mapCapability n = Some k"
  then have "(m, k) \<in> set capability_numbers" "(n, k) \<in> set capability_numbers"
    by (auto simp: mapCapability_def dest: map_of_SomeD)
  with d show "m = n" by (fastforce simp: distinct_map inj_on_def)
qed

lemma normalizeCapabilities_from_Inr:
  assumes "normalizeCapabilities_from prev cs = Inr ks" "sorted cs" "\<forall>p c. prev = Some p \<longrightarrow> c \<in> set cs \<longrightarrow> p \<le> c"
  shows "map Some ks = map mapCapability cs \<and> distinct cs \<and> (\<forall>p. prev = Some p \<longrightarrow> p \<notin> set cs)"
  using assms
proof (induction cs arbitrary: prev ks)
  case (Cons c cs)
  then obtain k ks' where k: "prev \<noteq> Some c" "mapCapability c = Some k" "ks = k # ks'"
    "normalizeCapabilities_from (Some c) cs = Inr ks'"
    by (auto simp: error_returns split: if_splits option.splits)
  have "map Some ks' = map mapCapability cs \<and> distinct cs \<and> (\<forall>p. Some c = Some p \<longrightarrow> p \<notin> set cs)"
    using Cons.prems(2) by (intro Cons.IH [OF k(4)]) auto
  then show ?case using k Cons.prems(2,3) by force
qed simp

lemma normalizeCapabilities_Inr:
  assumes "normalizeCapabilities input = Inr ks"
  shows "ks \<noteq> [] \<and> distinct ks \<and> (\<forall>k \<in> set ks. validCapability k) \<and>
    set (map Some ks) = mapCapability ` set input"
proof -
  from assms have ne: "input \<noteq> []" and n: "normalizeCapabilities_from None (sort input) = Inr ks"
    by (auto simp: normalizeCapabilities_def split: if_splits)
  from normalizeCapabilities_from_Inr [OF n] have m: "map Some ks = map mapCapability (sort input)"
    and d: "distinct (sort input)" by auto
  have "inj_on mapCapability (set (sort input))"
  proof (rule inj_onI)
    fix x y assume "x \<in> set (sort input)" "y \<in> set (sort input)" and e: "mapCapability x = mapCapability y"
    then have "mapCapability x \<in> set (map Some ks)" unfolding m by (simp del: set_sort)
    with e show "x = y" by (auto dest: mapCapability_inj)
  qed
  with d have "distinct (map Some ks)" unfolding m by (simp add: distinct_map)
  moreover have s: "set (map Some ks) = mapCapability ` set input" unfolding m by simp
  moreover have "validCapability k" if "k \<in> set ks" for k
  proof -
    from that have "Some k \<in> set (map Some ks)" by simp
    then show ?thesis unfolding s by (auto dest: mapCapability_valid [OF sym])
  qed
  moreover have "ks \<noteq> []" using m ne by (metis length_0_conv length_map length_sort)
  ultimately show ?thesis by (simp add: distinct_map)
qed

lemma normalizeHealth_Inr: "normalizeHealth st re = Inr h \<Longrightarrow> h \<in> {Healthy, Unhealthy}"
  by (auto simp: normalizeHealth_def split: if_splits)

lemma normalizeRegistration_Inr:
  assumes "normalizeRegistration request = Inr d" "e \<noteq> 0"
  shows "record_ok (new_record d l e)"
proof -
  from assms(1) obtain rq where rq: "request = Some rq" by (auto simp: normalizeRegistration_def split: option.splits)
  with assms(1) show ?thesis
    using assms(2) normalizeCapabilities_Inr [of "rq_Capabilities rq" "rd_capabilities d"]
      normalizeHealth_Inr [of "rq_Health rq" "rq_HealthReason rq" "rd_health d"]
    by (auto simp: normalizeRegistration_def error_returns record_ok_def provider_ok_def new_record_def
        rec_provider_def split: if_splits)
qed

lemma normalizeHeartbeat_Inr: "normalizeHeartbeat request = Inr (l, h) \<Longrightarrow> h \<in> {Healthy, Unhealthy}"
  by (auto simp: normalizeHeartbeat_def error_returns dest: normalizeHealth_Inr split: option.splits if_splits)

lemma sameDeclaration_iff: "sameDeclaration x y \<longleftrightarrow> x = y"
proof -
  have "x = y" if "list_all2 (=) (rd_capabilities x) (rd_capabilities y)" "rd_providerID x = rd_providerID y"
    "rd_instanceID x = rd_instanceID y" "rd_protocolVersion x = rd_protocolVersion y"
    "rd_implementationVersion x = rd_implementationVersion y" "rd_health x = rd_health y"
    "rd_healthReason x = rd_healthReason y"
    using that by (cases x; cases y) (simp only: list.rel_eq registrationDeclaration.simps)
  then show ?thesis by (auto simp: sameDeclaration_def list.rel_refl)
qed

lemma newLeaseID_fresh: "newLeaseIDLocked L draws = Some (Inr l) \<Longrightarrow> map_of L l = None"
  by (induction L draws rule: newLeaseIDLocked.induct) (auto split: if_splits)

section \<open>What the operations do\<close>

text \<open>A registration is refused, keeps the current record, or installs a new one.\<close>

lemma Register_cases:
  assumes "RegisterCapabilityProvider fce ca request r = Some (out, r')"
  obtains (refused) err where "out = Inl err" "r' = r"
  | (kept) d a where "normalizeRegistration request = Inr d" "map_of (rg_byProvider r) (rd_providerID d) = Some a"
      "rec_declaration (record_at r a) = d" "ca_now ca < rec_expires (record_at r a)"
      "out = Inr (registerResponse (record_at r a))" "r' = r"
  | (installed) d l where "normalizeRegistration request = Inr d"
      "\<forall>a. map_of (rg_byProvider r) (rd_providerID d) = Some a \<longrightarrow> rec_expires (record_at r a) \<le> ca_now ca"
      "map_of (rg_byLease r) l = None"
      "out = Inr (registerResponse (new_record d l (ca_now ca + rg_leaseDuration r)))"
      "r' = install (new_record d l (ca_now ca + rg_leaseDuration r)) r"
proof (cases "contextStatus fce (ca_ctx ca) = None \<and> contextStatus fce (ca_ctxLocked ca) = None")
  case False
  with assms show thesis
    by (auto simp: RegisterCapabilityProvider_def intro: refused split: option.splits sum.splits)
next
  case True
  show thesis
  proof (cases "normalizeRegistration request")
    case (Inl err)
    with True assms show thesis by (auto simp: RegisterCapabilityProvider_def intro: refused)
  next
    case (Inr d)
    define issue where "issue = (case newLeaseIDLocked (rg_byLease r) (ca_random ca) of
         None \<Rightarrow> None
       | Some (Inl err) \<Rightarrow> Some (Inl (RpcError Code_Internal ''issue capability provider lease''), r)
       | Some (Inr l) \<Rightarrow> Some (Inr (registerResponse (new_record d l (ca_now ca + rg_leaseDuration r))),
           install (new_record d l (ca_now ca + rg_leaseDuration r)) r))"
    have reg: "RegisterCapabilityProvider fce ca request r =
        (case map_of (rg_byProvider r) (rd_providerID d) of
           Some a \<Rightarrow>
             if ca_now ca < rec_expires (record_at r a) then
               (if rec_declaration (record_at r a) \<noteq> d then
                  Some (Inl (RpcError Code_AlreadyExists ''active provider id has a different declaration''), r)
                else Some (Inr (registerResponse (record_at r a)), r))
             else issue
         | None \<Rightarrow> issue)"
      unfolding RegisterCapabilityProvider_def issue_def Let_def
      using True Inr by (simp add: sameDeclaration_iff rec_expires_def split: option.split)
    have issued: thesis
      if i: "issue = Some (out, r')"
        "\<forall>a. map_of (rg_byProvider r) (rd_providerID d) = Some a \<longrightarrow> rec_expires (record_at r a) \<le> ca_now ca"
    proof (cases "newLeaseIDLocked (rg_byLease r) (ca_random ca)")
      case None
      with i show thesis by (simp add: issue_def)
    next
      case (Some x)
      show thesis
      proof (cases x)
        case (Inl err)
        with i Some show thesis by (intro refused) (auto simp: issue_def)
      next
        case l: (Inr l)
        from newLeaseID_fresh Some l have "map_of (rg_byLease r) l = None" by blast
        with i Some l Inr show thesis by (intro installed [of d l]) (auto simp: issue_def)
      qed
    qed
    show thesis
    proof (cases "map_of (rg_byProvider r) (rd_providerID d)")
      case None
      with assms reg show thesis by (intro issued) auto
    next
      case (Some a)
      show thesis
      proof (cases "ca_now ca < rec_expires (record_at r a)")
        case True
        with Some assms reg Inr show thesis
          by (cases "rec_declaration (record_at r a) = d") (auto intro: refused kept)
      next
        case False
        with Some assms reg show thesis by (intro issued) auto
      qed
    qed
  qed
qed


definition renewed :: "providerRecord \<Rightarrow> ProviderHealth \<Rightarrow> time \<Rightarrow> providerRecord" where
  "renewed rec health expiresAt =
     rec\<lparr>rec_snapshot := (rec_snapshot rec)\<lparr>pv_Health := health, pv_LeaseExpiresAt := expiresAt\<rparr>\<rparr>"

lemma Heartbeat_cases:
  assumes "HeartbeatCapabilityProvider fce ca request r = (out, r')"
  obtains (refused) err where "out = Inl err" "r' = r"
  | (renewal) l h a where "normalizeHeartbeat request = Inr (l, h)" "map_of (rg_byLease r) l = Some a"
      "ca_now ca < rec_expires (record_at r a)" "out = Inr (ca_now ca + rg_leaseDuration r)"
      "r' = notifySubscribersLocked (r\<lparr>rg_records :=
         (rg_records r)[a := renewed (record_at r a) h (ca_now ca + rg_leaseDuration r)]\<rparr>)"
proof (cases out)
  case (Inl err)
  then have "r' = r"
    using assms by (simp add: HeartbeatCapabilityProvider_def Let_def split: option.splits sum.splits prod.splits if_splits)
  with Inl show thesis by (rule refused)
next
  case (Inr t)
  then obtain l h a where "normalizeHeartbeat request = Inr (l, h)" "map_of (rg_byLease r) l = Some a"
    using assms by (simp add: HeartbeatCapabilityProvider_def split: option.splits sum.splits prod.splits)
  with Inr assms show thesis
    by (intro renewal [of l h a])
      (auto simp: HeartbeatCapabilityProvider_def renewed_def rec_expires_def Let_def
        split: option.splits if_splits)
qed

lemma Unregister_cases:
  assumes "UnregisterCapabilityProvider fce ca request r = (out, r')" "registry_ok r"
  obtains (refused) err where "out = Some err" "r' = r"
  | (removal) l p a where "request = Some l" "map_of (rg_byLease r) l = Some a" "out = None"
      "map_of (rg_byProvider r) p = Some a" "l = rec_leaseID (record_at r a)"
      "r' = notifySubscribersLocked (r\<lparr>rg_byProvider := AList.delete p (rg_byProvider r),
              rg_byLease := AList.delete (rec_leaseID (record_at r a)) (rg_byLease r)\<rparr>)"
proof (cases "\<exists>l a. request = Some l \<and> map_of (rg_byLease r) l = Some a \<and> out = None")
  case True
  then obtain l a where la: "request = Some l" "map_of (rg_byLease r) l = Some a" "out = None" by blast
  note a = registry_okD(2) [OF assms(2) la(2)]
  have "r' = notifySubscribersLocked (r\<lparr>rg_byLease := AList.delete (rec_leaseID (record_at r a)) (rg_byLease r),
      rg_byProvider := AList.delete (rec_provider (record_at r a)) (rg_byProvider r)\<rparr>)"
    using assms(1) la a
    by (auto simp: UnregisterCapabilityProvider_def Let_def rec_provider_def split: option.splits if_splits)
  moreover have "r\<lparr>rg_byLease := x, rg_byProvider := y\<rparr> = r\<lparr>rg_byProvider := y, rg_byLease := x\<rparr>" for x y
    by (cases r) simp
  ultimately show thesis
    using la a by (intro removal [of l a "rec_provider (record_at r a)"]) simp_all
next
  case False
  show thesis
  proof (cases out)
    case None
    with assms(1) have "\<exists>l a. request = Some l \<and> map_of (rg_byLease r) l = Some a"
      by (cases request) (auto simp: UnregisterCapabilityProvider_def Let_def split: option.splits if_splits)
    with None False show thesis by blast
  next
    case (Some err)
    with assms(1) have "r' = r"
      by (simp add: UnregisterCapabilityProvider_def Let_def split: option.splits if_splits)
    with Some show thesis by (rule refused)
  qed
qed

lemma Revoke_cases:
  assumes "RevokeProvider p r = (out, r')"
  obtains (absent) "out = False" "r' = r" "p = [] \<or> map_of (rg_byProvider r) p = None"
  | (removal) a where "out = True" "map_of (rg_byProvider r) p = Some a"
      "r' = notifySubscribersLocked (r\<lparr>rg_byProvider := AList.delete p (rg_byProvider r),
              rg_byLease := AList.delete (rec_leaseID (record_at r a)) (rg_byLease r)\<rparr>)"
  using assms by (auto simp: RevokeProvider_def split: option.splits if_splits)

text \<open>The effect on the map of the current records.\<close>

lemma install_new_ok:
  assumes "registry_ok r" "normalizeRegistration request = Inr d" "map_of (rg_byLease r) l = None" "0 \<le> now"
  shows "registry_ok (install (new_record d l (now + rg_leaseDuration r)) r) \<and>
    entries (install (new_record d l (now + rg_leaseDuration r)) r) =
      (entries r)(rd_providerID d \<mapsto> new_record d l (now + rg_leaseDuration r))"
proof -
  let ?rec = "new_record d l (now + rg_leaseDuration r)"
  have "now + rg_leaseDuration r \<noteq> 0" using assms(1,4) by (simp add: registry_ok_def)
  from normalizeRegistration_Inr [OF assms(2) this] have "record_ok ?rec" .
  moreover have "rec_leaseID ?rec = l" "rec_provider ?rec = rd_providerID d"
    by (simp_all add: new_record_def rec_provider_def)
  ultimately show ?thesis using install_ok [of r ?rec] assms(1,3) by simp
qed

lemma renewal_ok:
  assumes "registry_ok r" "map_of (rg_byLease r) l = Some a" "h \<in> {Healthy, Unhealthy}" "0 \<le> now"
  shows "registry_ok (r\<lparr>rg_records := (rg_records r)[a := renewed (record_at r a) h (now + rg_leaseDuration r)]\<rparr>) \<and>
    entries (r\<lparr>rg_records := (rg_records r)[a := renewed (record_at r a) h (now + rg_leaseDuration r)]\<rparr>) =
      (entries r)(rec_provider (record_at r a) \<mapsto> renewed (record_at r a) h (now + rg_leaseDuration r))"
proof -
  let ?rec = "renewed (record_at r a) h (now + rg_leaseDuration r)"
  note a = registry_okD(2) [OF assms(1,2)]
  have "0 < rg_leaseDuration r" using assms(1) by (simp add: registry_ok_def)
  then have "record_ok ?rec"
    using registry_okD(3) [OF assms(1), of a] a assms(3,4)
    by (auto simp: record_ok_def renewed_def rec_provider_def provider_ok_def)
  then show ?thesis
    using replace_ok [OF assms(1,2), of ?rec] a by (simp add: renewed_def rec_provider_def)
qed

section \<open>Runs\<close>

text \<open>
  An RPC, a revocation, a subscription with its cancellation, and the receive of a subscriber. \<open>view\<close>
  is what each subscriber was given last.
\<close>

datatype registry_op =
    OpRegister rpc_call "RegisterRequest option"
  | OpHeartbeat rpc_call "HeartbeatRequest option"
  | OpUnregister rpc_call "string option"
  | OpRevoke string
  | OpSubscribe
  | OpCancel "64 word"
  | OpReceive "64 word"

fun registry_step ::
    "(goerror \<Rightarrow> rpc_error) \<Rightarrow> registry_op \<Rightarrow> Registry \<times> (64 word \<rightharpoonup> ProviderSnapshot list) \<Rightarrow>
     (Registry \<times> (64 word \<rightharpoonup> ProviderSnapshot list)) option" where
  "registry_step fce (OpRegister ca rq) (r, view) =
     map_option (\<lambda>(out, r'). (r', view)) (RegisterCapabilityProvider fce ca rq r)"
| "registry_step fce (OpHeartbeat ca rq) (r, view) =
     Some (snd (HeartbeatCapabilityProvider fce ca rq r), view)"
| "registry_step fce (OpUnregister ca rq) (r, view) =
     Some (snd (UnregisterCapabilityProvider fce ca rq r), view)"
| "registry_step fce (OpRevoke p) (r, view) = Some (snd (RevokeProvider p r), view)"
| "registry_step fce OpSubscribe (r, view) =
     (let ((snapshots, i), r') = Subscribe r in Some (r', view(i \<mapsto> snapshots)))"
| "registry_step fce (OpCancel i) (r, view) = Some (cancel_subscription i r, view)"
| "registry_step fce (OpReceive i) (r, view) =
     map_option (\<lambda>(v, r'). (r', view(i \<mapsto> v))) (receive_update i r)"

text \<open>The clock does not show an instant before Go's zero time.\<close>

fun op_ok :: "registry_op \<Rightarrow> bool" where
  "op_ok (OpRegister ca rq) = (0 \<le> ca_now ca)"
| "op_ok (OpHeartbeat ca rq) = (0 \<le> ca_now ca)"
| "op_ok _ = True"

fun registry_steps ::
    "(goerror \<Rightarrow> rpc_error) \<Rightarrow> registry_op list \<Rightarrow> Registry \<times> (64 word \<rightharpoonup> ProviderSnapshot list) \<Rightarrow>
     (Registry \<times> (64 word \<rightharpoonup> ProviderSnapshot list)) option" where
  "registry_steps fce [] st = Some st"
| "registry_steps fce (op # ops) st =
     (case registry_step fce op st of None \<Rightarrow> None | Some st' \<Rightarrow> registry_steps fce ops st')"

text \<open>A pending update is the current view; without one the subscriber has it.\<close>

definition subscribers_current :: "Registry \<times> (64 word \<rightharpoonup> ProviderSnapshot list) \<Rightarrow> bool" where
  "subscribers_current st =
     ((\<forall>i v. map_of (rg_subs (fst st)) i = Some (Some v) \<longrightarrow> v = Snapshots (fst st)) \<and>
      (\<forall>i. map_of (rg_subs (fst st)) i = Some None \<longrightarrow> snd st i = Some (Snapshots (fst st))))"

lemma subscribers_current_notify [simp]: "subscribers_current (notifySubscribersLocked r, view)"
  by (auto simp: subscribers_current_def notifySubscribersLocked_def Snapshots_def snapshotsLocked_def
      record_at_def map_of_map)

lemma subscribers_current_install [simp]: "subscribers_current (install rec r, view)"
  by (simp add: install_def Let_def)


lemma registry_step_ok:
  assumes "registry_step fce op (r, view) = Some (r', view')" "op_ok op" "registry_ok r"
  shows "registry_ok r'"
proof (cases op)
  case (OpRegister ca rq)
  with assms(1) obtain out where "RegisterCapabilityProvider fce ca rq r = Some (out, r')" by auto
  then show ?thesis
  proof (cases rule: Register_cases)
    case (installed d l)
    with assms(2,3) OpRegister show ?thesis using install_new_ok [of r rq d l "ca_now ca"] by simp
  qed (use assms(3) in simp_all)
next
  case (OpHeartbeat ca rq)
  with assms(1) obtain out where "HeartbeatCapabilityProvider fce ca rq r = (out, r')"
    by (cases "HeartbeatCapabilityProvider fce ca rq r") auto
  then show ?thesis
  proof (cases rule: Heartbeat_cases)
    case (renewal l h a)
    with assms(2,3) OpHeartbeat normalizeHeartbeat_Inr [OF renewal(1)] show ?thesis
      using renewal_ok [of r l a h "ca_now ca"] by simp
  qed (use assms(3) in simp)
next
  case (OpUnregister ca rq)
  with assms(1) obtain out where u: "UnregisterCapabilityProvider fce ca rq r = (out, r')"
    by (cases "UnregisterCapabilityProvider fce ca rq r") auto
  from u assms(3) show ?thesis
  proof (cases rule: Unregister_cases)
    case (removal l p a)
    then show ?thesis using remove_ok [OF assms(3), of p a] by simp
  qed (use assms(3) in simp)
next
  case (OpRevoke p)
  with assms(1) obtain out where "RevokeProvider p r = (out, r')" by (cases "RevokeProvider p r") auto
  then show ?thesis
  proof (cases rule: Revoke_cases)
    case (removal a)
    then show ?thesis using remove_ok [OF assms(3), of p a] by simp
  qed (use assms(3) in simp)
qed (use assms in \<open>auto simp: Subscribe_def Let_def cancel_subscription_def receive_update_def registry_ok_def
      record_at_def distinct_update distinct_delete split: option.splits\<close>)

lemma registry_step_view:
  assumes "registry_step fce op (r, view) = Some (r', view')" "registry_ok r" "subscribers_current (r, view)"
  shows "subscribers_current (r', view')"
proof (cases op)
  case (OpRegister ca rq)
  with assms(1) obtain out where "RegisterCapabilityProvider fce ca rq r = Some (out, r')" "view' = view" by auto
  then show ?thesis using assms(3) by (cases rule: Register_cases) auto
next
  case (OpHeartbeat ca rq)
  with assms(1) have "HeartbeatCapabilityProvider fce ca rq r = (fst (HeartbeatCapabilityProvider fce ca rq r), r')"
    "view' = view" by auto
  then show ?thesis using assms(3) by (cases rule: Heartbeat_cases) auto
next
  case (OpUnregister ca rq)
  with assms(1) have u: "UnregisterCapabilityProvider fce ca rq r = (fst (UnregisterCapabilityProvider fce ca rq r), r')"
    "view' = view" by auto
  from u(1) assms(2) show ?thesis using assms(3) u(2) by (cases rule: Unregister_cases) auto
next
  case (OpRevoke p)
  with assms(1) have "RevokeProvider p r = (fst (RevokeProvider p r), r')" "view' = view" by auto
  then show ?thesis using assms(3) by (cases rule: Revoke_cases) auto
next
  case (OpReceive i)
  with assms(1) obtain v where v: "map_of (rg_subs r) i = Some (Some v)"
    "r' = r\<lparr>rg_subs := AList.update i None (rg_subs r)\<rparr>" "view' = view(i \<mapsto> v)"
    by (auto simp: receive_update_def split: option.splits)
  have s: "Snapshots r' = Snapshots r" by (simp add: v(2) Snapshots_def snapshotsLocked_def record_at_def)
  from v(1) assms(3) have "v = Snapshots r" by (simp add: subscribers_current_def)
  with assms(3) show ?thesis by (auto simp: subscribers_current_def s) (auto simp: v update_conv' split: if_splits)
qed (use assms in \<open>auto simp: subscribers_current_def Subscribe_def Let_def cancel_subscription_def receive_update_def
      update_conv' delete_conv' Snapshots_def snapshotsLocked_def record_at_def split: option.splits if_splits\<close>)

lemma registry_steps_ok:
  assumes "registry_steps fce ops st = Some st'" "\<forall>op \<in> set ops. op_ok op" "registry_ok (fst st)"
    "subscribers_current st"
  shows "registry_ok (fst st') \<and> subscribers_current st'"
  using assms
proof (induction ops arbitrary: st)
  case (Cons op ops)
  obtain r view where st: "st = (r, view)" by force
  from Cons.prems(1) obtain r' view' where s: "registry_step fce op (r, view) = Some (r', view')"
    and rest: "registry_steps fce ops (r', view') = Some st'"
    by (auto simp: st split: option.splits)
  from Cons.prems(2-4) registry_step_ok [OF s] registry_step_view [OF s] show ?case
    by (intro Cons.IH [OF rest]) (simp_all add: st)
qed simp

lemma Registry_New_ok: "Registry_New True d = Inr r \<Longrightarrow> registry_ok r \<and> subscribers_current (r, view)"
  by (auto simp: Registry_New_def registry_ok_def subscribers_current_def split: if_splits)

text \<open>What \<^verbatim>\<open>Snapshots\<close> returns.\<close>

lemma Snapshots_entries:
  assumes "registry_ok r"
  shows "sorted (map pv_ProviderID (Snapshots r))" "distinct (map pv_ProviderID (Snapshots r))"
    "set (Snapshots r) = {rec_snapshot rec | rec p. entries r p = Some rec}"
proof -
  let ?f = "\<lambda>(p, a). rec_snapshot (record_at r a)"
  have d: "distinct (map fst (rg_byProvider r))" using assms by (simp add: registry_ok_def)
  have id: "pv_ProviderID (rec_snapshot (record_at r a)) = p" if "(p, a) \<in> set (rg_byProvider r)" for p a
    using registry_okD(1) [OF assms, of p a] registry_okD(3) [OF assms, of a] that d
    by (auto simp: record_ok_def)
  show "sorted (map pv_ProviderID (Snapshots r))"
    by (simp add: Snapshots_def snapshotsLocked_def)
  have "map pv_ProviderID (map ?f (rg_byProvider r)) = map fst (rg_byProvider r)"
    using id by auto
  then have "distinct (map pv_ProviderID (map ?f (rg_byProvider r)))" using d by (simp only:)
  moreover have "mset (map pv_ProviderID (Snapshots r)) = mset (map pv_ProviderID (map ?f (rg_byProvider r)))"
    by (simp only: Snapshots_def snapshotsLocked_def mset_map mset_sort)
  ultimately show "distinct (map pv_ProviderID (Snapshots r))"
    using mset_eq_imp_distinct_iff by blast
  have "set (Snapshots r) = ?f ` set (rg_byProvider r)"
    by (simp add: Snapshots_def snapshotsLocked_def)
  also have "\<dots> = {rec_snapshot rec | rec p. entries r p = Some rec}"
    using d by (force simp: entries_Some image_iff)
  finally show "set (Snapshots r) = {rec_snapshot rec | rec p. entries r p = Some rec}" .
qed

lemma Snapshots_providers_ok:
  assumes "registry_ok r"
  shows "providers_ok (Snapshots r)"
  using Snapshots_entries [OF assms] entries_provider [OF assms]
  by (auto simp: providers_ok_def record_ok_def)


lemma registry_reachable:
  assumes "Registry_New True dur = Inr r0" "registry_steps fce ops (r0, Map.empty) = Some (r, view)"
    and "\<forall>op \<in> set ops. op_ok op"
  shows "registry_ok r \<and> subscribers_current (r, view)"
  using registry_steps_ok [OF assms(2,3)] Registry_New_ok [OF assms(1), of Map.empty] by simp

section \<open>Properties\<close>

text \<open>A run used as an example: two providers register, one is renewed, the other revoked.\<close>

definition demo_fce :: "goerror \<Rightarrow> rpc_error" where
  "demo_fce err = RpcError Code_Canceled ''context''"

definition demo_call :: "time \<Rightarrow> 8 word \<Rightarrow> rpc_call" where
  "demo_call now b = \<lparr>ca_ctx = None, ca_ctxLocked = None, ca_now = now, ca_random = [Inr (replicate 16 b)]\<rparr>"

definition demo_request :: "string \<Rightarrow> int \<Rightarrow> RegisterRequest option" where
  "demo_request p c = Some \<lparr>rq_ProviderId = p, rq_InstanceId = ''i'', rq_ProtocolVersion = ''v1'',
     rq_ImplementationVersion = ''1'', rq_Capabilities = [c], rq_Health = 1, rq_HealthReason = 1\<rparr>"

definition demo_heartbeat :: "HeartbeatRequest option" where
  "demo_heartbeat = Some \<lparr>hq_LeaseId = hex_encode (replicate 16 7), hq_Health = 3, hq_HealthReason = 2\<rparr>"

definition demo_ops :: "registry_op list" where
  "demo_ops =
     [OpSubscribe, OpRegister (demo_call 1 7) (demo_request ''cam'' 1),
      OpRegister (demo_call 2 9) (demo_request ''mic'' 5), OpReceive 0,
      OpHeartbeat (demo_call 5 0) demo_heartbeat, OpRevoke ''mic'']"

definition demo_registry :: Registry where
  "demo_registry = \<lparr>rg_leaseDuration = 10, rg_records = [], rg_byProvider = [], rg_byLease = [],
     rg_subs = [], rg_nextSubID = 0\<rparr>"

lemma demo_registry_New: "Registry_New True 10 = Inr demo_registry"
  by (simp add: Registry_New_def demo_registry_def)

lemma demo_ops_ok: "\<forall>op \<in> set demo_ops. op_ok op"
  by (simp add: demo_ops_def demo_call_def)

lemma demo_registry_eval:
  "map_option (\<lambda>(r, view). (map pv_ProviderID (Snapshots r), map pv_LeaseExpiresAt (Snapshots r),
       map_option (map_option (map pv_ProviderID)) (map_of (rg_subs r) 0)))
     (registry_steps demo_fce demo_ops (demo_registry, Map.empty)) =
   Some ([''cam''], [15], Some (Some [''cam'']))"
  by code_simp

lemma demo_registry_run:
  obtains r view v where "registry_steps demo_fce demo_ops (demo_registry, Map.empty) = Some (r, view)"
    "map pv_ProviderID (Snapshots r) = [''cam'']" "map_of (rg_subs r) 0 = Some (Some v)"
    "map pv_ProviderID v = [''cam'']"
  using demo_registry_eval by (auto split: prod.splits)

text \<open>The abstract operations on the map of the current records.\<close>

definition spec_register ::
    "time \<Rightarrow> duration \<Rightarrow> RegisterRequest option \<Rightarrow> (string \<rightharpoonup> providerRecord) \<Rightarrow>
     rpc_error + RegisterResponse \<Rightarrow> (string \<rightharpoonup> providerRecord) \<Rightarrow> bool" where
  "spec_register now dur request m out m' =
     (case out of
        Inl err \<Rightarrow> m' = m
      | Inr resp \<Rightarrow>
          \<exists>d rec. normalizeRegistration request = Inr d \<and> resp = registerResponse rec \<and>
            rec_declaration rec = d \<and> now < rec_expires rec \<and> m' = m(rd_providerID d \<mapsto> rec) \<and>
            (case m (rd_providerID d) of
               Some cur \<Rightarrow> if now < rec_expires cur then rec = cur
                 else rec = new_record d (rec_leaseID rec) (now + dur) \<and>
                      (\<forall>p x. m p = Some x \<longrightarrow> rec_leaseID x \<noteq> rec_leaseID rec)
             | None \<Rightarrow> rec = new_record d (rec_leaseID rec) (now + dur) \<and>
                      (\<forall>p x. m p = Some x \<longrightarrow> rec_leaseID x \<noteq> rec_leaseID rec)))"

definition spec_heartbeat ::
    "time \<Rightarrow> duration \<Rightarrow> HeartbeatRequest option \<Rightarrow> (string \<rightharpoonup> providerRecord) \<Rightarrow> rpc_error + time \<Rightarrow>
     (string \<rightharpoonup> providerRecord) \<Rightarrow> bool" where
  "spec_heartbeat now dur request m out m' =
     (case out of
        Inl err \<Rightarrow> m' = m
      | Inr t \<Rightarrow>
          \<exists>l h p rec. normalizeHeartbeat request = Inr (l, h) \<and> m p = Some rec \<and> rec_leaseID rec = l \<and>
            now < rec_expires rec \<and> t = now + dur \<and> m' = m(p \<mapsto> renewed rec h t))"

definition spec_unregister ::
    "string option \<Rightarrow> (string \<rightharpoonup> providerRecord) \<Rightarrow> rpc_error option \<Rightarrow> (string \<rightharpoonup> providerRecord) \<Rightarrow> bool" where
  "spec_unregister request m out m' =
     (case out of
        Some err \<Rightarrow> m' = m
      | None \<Rightarrow> \<exists>p rec. m p = Some rec \<and> request = Some (rec_leaseID rec) \<and> m' = m(p := None))"

definition spec_revoke :: "string \<Rightarrow> (string \<rightharpoonup> providerRecord) \<Rightarrow> bool \<Rightarrow> (string \<rightharpoonup> providerRecord) \<Rightarrow> bool" where
  "spec_revoke p m out m' = (if out then m p \<noteq> None \<and> m' = m(p := None) else m' = m \<and> (p = [] \<or> m p = None))"

text \<open>C8. The registry, with its two indexes over shared records, implements one map from providers to
  records with distinct leases: a registration keeps the active record of the same declaration or puts a
  new one under a lease no record has, a heartbeat renews exactly the unexpired record of its lease, and
  an unregistration or a revocation removes exactly one record; errors change nothing.\<close>

theorem registry_refines:
  assumes "Registry_New True dur = Inr r0" "registry_steps fce ops (r0, Map.empty) = Some (r, view)"
    and "\<forall>op \<in> set ops. op_ok op" "0 \<le> ca_now ca"
  shows "(RegisterCapabilityProvider fce ca rq r = Some (out1, r1) \<longrightarrow>
       spec_register (ca_now ca) (rg_leaseDuration r) rq (entries r) out1 (entries r1)) \<and>
     (HeartbeatCapabilityProvider fce ca hq r = (out2, r2) \<longrightarrow>
       spec_heartbeat (ca_now ca) (rg_leaseDuration r) hq (entries r) out2 (entries r2)) \<and>
     (UnregisterCapabilityProvider fce ca uq r = (out3, r3) \<longrightarrow>
       spec_unregister uq (entries r) out3 (entries r3)) \<and>
     (RevokeProvider p r = (out4, r4) \<longrightarrow> spec_revoke p (entries r) out4 (entries r4))"
proof -
  have ok: "registry_ok r"
    using registry_reachable [OF assms(1-3)] by simp
  then have dur: "0 < rg_leaseDuration r" by (simp add: registry_ok_def)
  have register: "spec_register (ca_now ca) (rg_leaseDuration r) rq (entries r) out1 (entries r1)"
    if "RegisterCapabilityProvider fce ca rq r = Some (out1, r1)"
    using that
  proof (cases rule: Register_cases)
    case (kept d a)
    then have "entries r (rd_providerID d) = Some (record_at r a)" by (simp add: entries_def)
    with kept show ?thesis by (auto simp: spec_register_def intro!: exI [of _ "record_at r a"])
  next
    case (installed d l)
    let ?rec = "new_record d l (ca_now ca + rg_leaseDuration r)"
    have l: "rec_leaseID ?rec = l" "rec_declaration ?rec = d" "rec_expires ?rec = ca_now ca + rg_leaseDuration r"
      by (simp_all add: new_record_def rec_expires_def)
    have "rec_leaseID x \<noteq> l" if "entries r p = Some x" for p x
      using that registry_okD(1) [OF ok] installed(3) by (auto simp: entries_Some)
    moreover have "rec_expires cur \<le> ca_now ca" if "entries r (rd_providerID d) = Some cur" for cur
      using that installed(2) by (auto simp: entries_Some)
    ultimately show ?thesis
      using install_new_ok [OF ok installed(1,3) assms(4)] installed(1,4,5) l dur
      by (auto simp: spec_register_def intro!: exI [of _ ?rec] split: option.split)
  qed (simp add: spec_register_def)
  have heartbeat: "spec_heartbeat (ca_now ca) (rg_leaseDuration r) hq (entries r) out2 (entries r2)"
    if "HeartbeatCapabilityProvider fce ca hq r = (out2, r2)"
    using that
  proof (cases rule: Heartbeat_cases)
    case (renewal l h a)
    note a = registry_okD(2) [OF ok renewal(2)]
    then have "entries r (rec_provider (record_at r a)) = Some (record_at r a)" by (simp add: entries_def)
    then show ?thesis
      using renewal_ok [OF ok renewal(2) normalizeHeartbeat_Inr [OF renewal(1)] assms(4)] renewal a
      by (auto simp: spec_heartbeat_def frame_simps)
  qed (simp add: spec_heartbeat_def)
  have unregister: "spec_unregister uq (entries r) out3 (entries r3)"
    if "UnregisterCapabilityProvider fce ca uq r = (out3, r3)"
    using that ok
  proof (cases rule: Unregister_cases)
    case (removal l p a)
    then have "entries r p = Some (record_at r a)" by (simp add: entries_def)
    with removal remove_ok [OF ok removal(4)] show ?thesis by (auto simp: spec_unregister_def frame_simps)
  qed (simp add: spec_unregister_def)
  have revoke: "spec_revoke p (entries r) out4 (entries r4)" if "RevokeProvider p r = (out4, r4)"
    using that
  proof (cases rule: Revoke_cases)
    case absent
    then show ?thesis by (auto simp: spec_revoke_def entries_def)
  next
    case (removal a)
    with remove_ok [OF ok removal(2)] show ?thesis by (auto simp: spec_revoke_def entries_def frame_simps)
  qed
  from register heartbeat unregister revoke show ?thesis by blast
qed

lemma registry_refines_witness:
  "\<exists>r view out r1. registry_steps demo_fce demo_ops (demo_registry, Map.empty) = Some (r, view) \<and>
     RegisterCapabilityProvider demo_fce (demo_call 20 8) (demo_request ''cam'' 1) r = Some (Inr out, r1) \<and>
     spec_register 20 (rg_leaseDuration r) (demo_request ''cam'' 1) (entries r) (Inr out) (entries r1)"
proof -
  have ev: "(case registry_steps demo_fce demo_ops (demo_registry, Map.empty) of
      None \<Rightarrow> False
    | Some (r, view) \<Rightarrow>
        (case RegisterCapabilityProvider demo_fce (demo_call 20 8) (demo_request ''cam'' 1) r of
           Some (Inr out, r1) \<Rightarrow> True | _ \<Rightarrow> False)) = True"
    by code_simp
  obtain r view v where st: "registry_steps demo_fce demo_ops (demo_registry, Map.empty) = Some (r, view)"
    by (rule demo_registry_run)
  from ev [unfolded st] obtain out r1 where
    rg: "RegisterCapabilityProvider demo_fce (demo_call 20 8) (demo_request ''cam'' 1) r = Some (Inr out, r1)"
    by (simp split: option.splits prod.splits sum.splits)
  have n: "ca_now (demo_call 20 8) = 20" by (simp add: demo_call_def)
  then have "0 \<le> ca_now (demo_call 20 8)" by simp
  note ref = registry_refines [OF demo_registry_New st demo_ops_ok this, unfolded n]
  have "spec_register 20 (rg_leaseDuration r) (demo_request ''cam'' 1) (entries r) (Inr out) (entries r1)"
    by (rule ref [THEN conjunct1, THEN mp, OF rg])
  with st rg show ?thesis by (intro exI conjI)
qed

text \<open>Whatever was registered, renewed and removed before, the lease index and the snapshots show the
  same records: a lease leads to the one record that holds it, no two records share a lease, and
  \<^verbatim>\<open>Snapshots\<close> lists the current records sorted by provider without duplicates, each of them fit for
  the readiness evaluation.\<close>

theorem registry_views_agree:
  assumes "Registry_New True dur = Inr r0" "registry_steps fce ops (r0, Map.empty) = Some (r, view)"
    and "\<forall>op \<in> set ops. op_ok op"
  shows "(\<forall>l s. LeaseSnapshot l r = Some s \<longleftrightarrow>
       (\<exists>p rec. entries r p = Some rec \<and> rec_leaseID rec = l \<and> rec_snapshot rec = s)) \<and>
     (\<forall>p q x y. entries r p = Some x \<longrightarrow> entries r q = Some y \<longrightarrow> rec_leaseID x = rec_leaseID y \<longrightarrow> p = q) \<and>
     set (Snapshots r) = {rec_snapshot rec | rec p. entries r p = Some rec} \<and>
     sorted (map pv_ProviderID (Snapshots r)) \<and> providers_ok (Snapshots r)"
proof -
  have ok: "registry_ok r"
    using registry_reachable [OF assms(1-3)] by simp
  have "LeaseSnapshot l r = Some s \<longleftrightarrow>
      (\<exists>p rec. entries r p = Some rec \<and> rec_leaseID rec = l \<and> rec_snapshot rec = s)" for l s
    using byLease_Some [OF ok, of l] by (auto simp: LeaseSnapshot_def split: option.splits) metis+
  with lease_unique [OF ok] Snapshots_entries [OF ok] Snapshots_providers_ok [OF ok] show ?thesis by blast
qed

lemma registry_views_agree_witness:
  "\<exists>r view. registry_steps demo_fce demo_ops (demo_registry, Map.empty) = Some (r, view) \<and>
     length (Snapshots r) = 1 \<and> providers_ok (Snapshots r)"
proof -
  obtain r view v where st: "registry_steps demo_fce demo_ops (demo_registry, Map.empty) = Some (r, view)"
    and m: "map pv_ProviderID (Snapshots r) = [''cam'']"
    by (rule demo_registry_run)
  from arg_cong [OF m, of length] have "length (Snapshots r) = 1" by simp
  moreover have "providers_ok (Snapshots r)"
    using registry_views_agree [OF demo_registry_New st demo_ops_ok] by (elim conjE)
  ultimately show ?thesis using st by (intro exI conjI)
qed

text \<open>A subscriber is never left with an old view: the update that waits in its channel is the
  current snapshot, and when none waits, the one it received last is.\<close>

theorem subscribers_see_latest:
  assumes "Registry_New True dur = Inr r0" "registry_steps fce ops (r0, Map.empty) = Some (r, view)"
    and "\<forall>op \<in> set ops. op_ok op" "map_of (rg_subs r) i = Some ch"
  shows "(case ch of Some v \<Rightarrow> v | None \<Rightarrow> the (view i)) = Snapshots r"
  using registry_reachable [OF assms(1-3)] assms(4)
  by (auto simp: subscribers_current_def split: option.split)


lemma subscribers_see_latest_witness:
  "\<exists>r view v. registry_steps demo_fce demo_ops (demo_registry, Map.empty) = Some (r, view) \<and>
     map_of (rg_subs r) 0 = Some (Some v) \<and> v = Snapshots r"
proof -
  obtain r view v where st: "registry_steps demo_fce demo_ops (demo_registry, Map.empty) = Some (r, view)"
    "map_of (rg_subs r) 0 = Some (Some v)"
    by (rule demo_registry_run)
  with subscribers_see_latest [OF demo_registry_New st(1) demo_ops_ok st(2)] show ?thesis by simp
qed

end
