(* ===== verification/Ingress_Server.thy ===== *)
theory Ingress_Server
  imports Registry Engine_Replies
begin

text \<open>
  Package \<^verbatim>\<open>adapters/input/ingress\<close> (\<^verbatim>\<open>server.go\<close>, \<^verbatim>\<open>mapper.go\<close>): the trusted boundary through which
  observations of remote providers reach the runtime. A request is what the protocol accessors return
  for it; a timestamp or duration message is nil, rejected by its \<^verbatim>\<open>CheckValid\<close>, or the value its
  conversion gives. \<open>publish_view\<close> holds what the ports of the server answered during the call, each
  at its own instant, so that changes between the reads are covered.
\<close>

section \<open>Data\<close>

datatype 'a wire_value = NilMessage | InvalidMessage | ValidMessage 'a

text \<open>The alternatives of the payload; \<open>None\<close> inside is a nil message in the alternative.\<close>

datatype wire_payload =
    WirePersonPresence "bool option"
  | WireUserBusy "(bool \<times> int) option"
  | WireSpeechActivity "bool option"
  | WireUserReply "unit option"
  | WireUserControl "unit option"
  | WireQuietMode "unit option"
  | WireDeviceCondition "unit option"
  | WireNoPayload
  | WireOtherPayload

record ObservationEnvelope =
  wi_Id :: string
  wi_SourceId :: string
  wi_SourceSeq :: "64 word"
  wi_SubjectId :: string
  wi_TraceId :: string
  wi_OccurredAt :: "time wire_value"
  wi_Ttl :: "duration wire_value"
  wi_Confidence :: float32
  wi_Payload :: wire_payload

record PublishRequest =
  pq_ProviderLeaseId :: string
  pq_Observation :: "ObservationEnvelope option"

record mappedRequest =
  mr_input :: Observation
  mr_capability :: CapabilityKind
  mr_speech :: bool
  mr_speechActive :: bool
  mr_rejectedReason :: string

datatype ReceiptStatus = ReceiptAccepted | ReceiptStale | ReceiptRejected

record ObservationReceipt =
  or_ObservationId :: string
  or_Status :: ReceiptStatus
  or_ReasonCode :: string

record publish_view =
  vi_ctx :: "goerror option"
  vi_Activation :: Activation
  vi_Now :: time
  vi_Lease :: "string \<Rightarrow> ProviderSnapshot option"
  vi_Window :: "ReplyAcceptanceWindow option"
  vi_ctxSubmit :: "goerror option"

record ingress_Server =
  sv_selected :: "CapabilityKind \<rightharpoonup> string"

abbreviation "reasonLeaseNotFound \<equiv> ''LEASE_NOT_FOUND''"
abbreviation "reasonLeaseExpired \<equiv> ''LEASE_EXPIRED''"
abbreviation "reasonProviderUnhealthy \<equiv> ''PROVIDER_UNHEALTHY''"
abbreviation "reasonProviderNotSelected \<equiv> ''PROVIDER_NOT_SELECTED''"
abbreviation "reasonProviderInstanceMismatch \<equiv> ''PROVIDER_INSTANCE_MISMATCH''"
abbreviation "reasonCapabilityNotDeclared \<equiv> ''CAPABILITY_NOT_DECLARED''"
abbreviation "reasonPayloadNotAllowed \<equiv> ''PAYLOAD_NOT_ALLOWED''"
abbreviation "reasonInactiveSpeech \<equiv> ''INACTIVE_SPEECH''"
abbreviation "reasonReplyWindowClosed \<equiv> ''REPLY_WINDOW_CLOSED''"
abbreviation "reasonTTLExpired \<equiv> ''TTL_EXPIRED''"
abbreviation "reasonEngineStaleInput \<equiv> ''ENGINE_STALE_INPUT''"
abbreviation "reasonScenarioBlocked \<equiv> ''SCENARIO_BLOCKED''"

section \<open>Mapping\<close>

definition mapBusyReason :: "bool \<Rightarrow> int \<Rightarrow> BusyReason option" where
  "mapBusyReason busy reason =
     (if \<not> busy then (if reason \<noteq> 0 then None else Some BusyUnknown)
      else if reason = 1 then Some BusyOnCall
      else if reason = 2 then Some BusyFocused
      else None)"

definition bad_confidence :: "float32 \<Rightarrow> bool" where
  "bad_confidence c = (c = NaN \<or> c = PosInf \<or> c = NegInf \<or> f32_less c (Fin 0) \<or> f32_less (Fin 1) c)"

text \<open>The \<^verbatim>\<open>switch\<close> over the payload, on the value with the metadata.\<close>

definition mapPayload :: "wire_payload \<Rightarrow> mappedRequest \<Rightarrow> goerror + mappedRequest" where
  "mapPayload payload mapped =
     (case payload of
        WirePersonPresence None \<Rightarrow> Inl (Leaf ''person presence payload is required'')
      | WirePersonPresence (Some present) \<Rightarrow>
          Inr (mapped\<lparr>mr_capability := PERSON_PRESENCE,
                      mr_input := (mr_input mapped)\<lparr>obs_PersonPresence := Some \<lparr>pp_Present = present\<rparr>\<rparr>\<rparr>)
      | WireUserBusy None \<Rightarrow> Inl (Leaf ''user busy payload is required'')
      | WireUserBusy (Some (busy, reason)) \<Rightarrow>
          (case mapBusyReason busy reason of
             None \<Rightarrow> Inl (Leaf ''user busy state and reason are inconsistent'')
           | Some busyReason \<Rightarrow>
               Inr (mapped\<lparr>mr_capability := BUSY_STATE,
                           mr_input := (mr_input mapped)
                             \<lparr>obs_UserBusy := Some \<lparr>ub_Busy = busy, ub_Reason = busyReason\<rparr>\<rparr>\<rparr>))
      | WireSpeechActivity None \<Rightarrow> Inl (Leaf ''speech activity payload is required'')
      | WireSpeechActivity (Some active) \<Rightarrow>
          Inr (mapped\<lparr>mr_capability := VOICE_ACTIVITY, mr_speech := True, mr_speechActive := active,
                      mr_input := (mr_input mapped)\<lparr>obs_Confidence := Fin 1, obs_UserReply := Some ()\<rparr>\<rparr>)
      | WireUserReply None \<Rightarrow> Inl (Leaf ''user reply payload is required'')
      | WireUserReply (Some _) \<Rightarrow> Inr (mapped\<lparr>mr_rejectedReason := reasonPayloadNotAllowed\<rparr>)
      | WireUserControl None \<Rightarrow> Inl (Leaf ''user control payload is required'')
      | WireUserControl (Some _) \<Rightarrow> Inr (mapped\<lparr>mr_rejectedReason := reasonPayloadNotAllowed\<rparr>)
      | WireQuietMode None \<Rightarrow> Inl (Leaf ''quiet mode payload is required'')
      | WireQuietMode (Some _) \<Rightarrow> Inr (mapped\<lparr>mr_rejectedReason := reasonPayloadNotAllowed\<rparr>)
      | WireDeviceCondition None \<Rightarrow> Inl (Leaf ''device condition payload is required'')
      | WireDeviceCondition (Some _) \<Rightarrow> Inr (mapped\<lparr>mr_rejectedReason := reasonPayloadNotAllowed\<rparr>)
      | WireNoPayload \<Rightarrow> Inl (Leaf ''observation payload is required'')
      | WireOtherPayload \<Rightarrow> Inr (mapped\<lparr>mr_rejectedReason := reasonPayloadNotAllowed\<rparr>))"

definition mapped_metadata :: "ObservationEnvelope \<Rightarrow> time \<Rightarrow> duration \<Rightarrow> mappedRequest" where
  "mapped_metadata wire occurredAt ttl =
     \<lparr>mr_input = \<lparr>obs_ID = wi_Id wire, obs_SourceID = wi_SourceId wire,
        obs_SourceSeq = wi_SourceSeq wire, obs_OccurredAt = occurredAt, obs_TTL = ttl,
        obs_SubjectID = wi_SubjectId wire, obs_Confidence = wi_Confidence wire,
        obs_TraceID = wi_TraceId wire, obs_PersonPresence = None, obs_UserBusy = None,
        obs_QuietMode = None, obs_UserReply = None\<rparr>,
      mr_capability = [], mr_speech = False, mr_speechActive = False, mr_rejectedReason = []\<rparr>"

definition mapPublishRequest :: "PublishRequest option \<Rightarrow> goerror + mappedRequest" where
  "mapPublishRequest request =
     (case request of
        None \<Rightarrow> Inl (Leaf ''request, provider lease, and observation are required'')
      | Some rq \<Rightarrow>
     (case pq_Observation rq of
        None \<Rightarrow> Inl (Leaf ''request, provider lease, and observation are required'')
      | Some wire \<Rightarrow>
          if pq_ProviderLeaseId rq = [] then
            Inl (Leaf ''request, provider lease, and observation are required'')
          else if wi_Id wire = [] \<or> wi_SourceId wire = [] \<or> wi_SourceSeq wire = 0 \<or>
                  wi_SubjectId wire = [] \<or> wi_TraceId wire = [] then
            Inl (Leaf ''observation metadata is incomplete'')
          else
     (case wi_OccurredAt wire of
        NilMessage \<Rightarrow> Inl (Leaf ''observation timestamp is invalid'')
      | InvalidMessage \<Rightarrow> Inl (Leaf ''observation timestamp is invalid'')
      | ValidMessage occurredAt \<Rightarrow>
     (case wi_Ttl wire of
        NilMessage \<Rightarrow> Inl (Leaf ''observation ttl is invalid'')
      | InvalidMessage \<Rightarrow> Inl (Leaf ''observation ttl is invalid'')
      | ValidMessage ttl \<Rightarrow>
          if ttl \<le> 0 then Inl (Leaf ''observation ttl is invalid'')
          else if bad_confidence (wi_Confidence wire) then Inl (Leaf ''observation confidence is invalid'')
          else
            mapPayload (wi_Payload wire) (mapped_metadata wire occurredAt ttl)))))"

section \<open>The server\<close>

fun selected_required :: "CapabilityRequirement list \<Rightarrow> (CapabilityKind \<rightharpoonup> string) \<Rightarrow> CapabilityKind \<rightharpoonup> string" where
  "selected_required [] m = m"
| "selected_required (r # rs) m = selected_required rs (m(req_Kind r \<mapsto> req_ProviderID r))"

fun selected_optional :: "OptionalCapability list \<Rightarrow> (CapabilityKind \<rightharpoonup> string) \<Rightarrow> CapabilityKind \<rightharpoonup> string" where
  "selected_optional [] m = m"
| "selected_optional (x # xs) m = selected_optional xs (m(opt_Kind x \<mapsto> opt_ProviderID x))"

definition NewServer :: "bool \<Rightarrow> ScenarioRequirements \<Rightarrow> goerror + ingress_Server" where
  "NewServer depsPresent scenario =
     (if \<not> depsPresent then
        Inl (Leaf ''lease reader, observation submitter, reply window reader, activation reader, and clock are required'')
      else (case ValidateScenario scenario of
          Some err \<Rightarrow> Inl err
        | None \<Rightarrow>
            Inr \<lparr>sv_selected = selected_optional (sc_Optional scenario)
                   (selected_required (sc_Required scenario) Map.empty)\<rparr>))"

definition receipt :: "string \<Rightarrow> ReceiptStatus \<Rightarrow> string \<Rightarrow> ObservationReceipt" where
  "receipt observationID status reason =
     \<lparr>or_ObservationId = observationID, or_Status = status, or_ReasonCode = reason\<rparr>"

definition accepted :: "string \<Rightarrow> ObservationReceipt" where
  "accepted observationID = receipt observationID ReceiptAccepted []"

definition rejected :: "string \<Rightarrow> string \<Rightarrow> ObservationReceipt" where
  "rejected observationID reason = receipt observationID ReceiptRejected reason"

definition stale :: "string \<Rightarrow> string \<Rightarrow> ObservationReceipt" where
  "stale observationID reason = receipt observationID ReceiptStale reason"

text \<open>The reason of a refusal, empty when the lease authorizes the observation.\<close>

definition authorize ::
    "ingress_Server \<Rightarrow> (string \<Rightarrow> ProviderSnapshot option) \<Rightarrow> string \<Rightarrow> mappedRequest \<Rightarrow> time \<Rightarrow> string" where
  "authorize s leases leaseID mapped now =
     (case leases leaseID of
        None \<Rightarrow> reasonLeaseNotFound
      | Some provider \<Rightarrow>
          if pv_Health provider \<noteq> Healthy then reasonProviderUnhealthy
          else if \<not> Before now (pv_LeaseExpiresAt provider) then reasonLeaseExpired
          else if sv_selected s (mr_capability mapped) \<noteq> Some (pv_ProviderID provider) then
            reasonProviderNotSelected
          else if pv_InstanceID provider \<noteq> obs_SourceID (mr_input mapped) then
            reasonProviderInstanceMismatch
          else if list_ex (\<lambda>c. c = mr_capability mapped) (pv_Capabilities provider) then []
          else reasonCapabilityNotDeclared)"

definition replyWindowContains :: "ReplyAcceptanceWindow option \<Rightarrow> Observation \<Rightarrow> bool" where
  "replyWindowContains window input =
     (case window of
        None \<Rightarrow> False
      | Some rw \<Rightarrow>
          raw_SubjectID rw \<noteq> [] \<and> raw_SubjectID rw = obs_SubjectID input \<and>
          Before (raw_OpenedAt rw) (raw_Deadline rw) \<and>
          \<not> Before (obs_OccurredAt input) (raw_OpenedAt rw) \<and>
          Before (obs_OccurredAt input) (raw_Deadline rw))"

definition submitStatus :: "(goerror \<Rightarrow> rpc_error) \<Rightarrow> goerror \<Rightarrow> rpc_error" where
  "submitStatus fce err =
     (if ErrIs err ContextCanceled \<or> ErrIs err ContextDeadlineExceeded then fce err
      else if IsCode err InvalidInput then
        RpcError Code_InvalidArgument ''application rejected canonical observation''
      else if IsCode err Unavailable then RpcError Code_Unavailable ''application unavailable''
      else if IsCode err DeadlineExceeded then
        RpcError Code_DeadlineExceeded ''application deadline exceeded''
      else RpcError Code_Internal ''application observation processing failed'')"

text \<open>\<^verbatim>\<open>Publish\<close> up to the submission: an answer, or the observation to submit.\<close>

definition publish_admit ::
    "(goerror \<Rightarrow> rpc_error) \<Rightarrow> ingress_Server \<Rightarrow> publish_view \<Rightarrow> PublishRequest option \<Rightarrow>
     (rpc_error + ObservationReceipt) + Observation" where
  "publish_admit fce s v request =
     (case contextStatus fce (vi_ctx v) of
        Some err \<Rightarrow> Inl (Inl err)
      | None \<Rightarrow>
     (case mapPublishRequest request of
        Inl err \<Rightarrow> Inl (Inl (RpcError Code_InvalidArgument ''invalid observation transport''))
      | Inr mapped \<Rightarrow>
          let input = mr_input mapped; activation = vi_Activation v; now = vi_Now v in
          if mr_rejectedReason mapped \<noteq> [] then
            Inl (Inr (rejected (obs_ID input) (mr_rejectedReason mapped)))
          else if ac_Status activation \<noteq> Ready \<and> ac_Status activation \<noteq> Degraded then
            Inl (Inr (rejected (obs_ID input) reasonScenarioBlocked))
          else
            let reason = authorize s (vi_Lease v) (pq_ProviderLeaseId (the request)) mapped now in
            if reason \<noteq> [] then Inl (Inr (rejected (obs_ID input) reason))
            else if After now (Add (obs_OccurredAt input) (obs_TTL input)) then
              Inl (Inr (stale (obs_ID input) reasonTTLExpired))
            else
     (case Observation_ValidateAt input now of
        Some err \<Rightarrow>
          if IsCode err StaleInput then Inl (Inr (stale (obs_ID input) reasonTTLExpired))
          else Inl (Inl (RpcError Code_InvalidArgument ''invalid canonical observation''))
      | None \<Rightarrow>
          if mr_speech mapped \<and> \<not> mr_speechActive mapped then
            Inl (Inr (rejected (obs_ID input) reasonInactiveSpeech))
          else if mr_speech mapped \<and> \<not> replyWindowContains (vi_Window v) input then
            Inl (Inr (rejected (obs_ID input) reasonReplyWindowClosed))
          else (case contextStatus fce (vi_ctxSubmit v) of
              Some err \<Rightarrow> Inl (Inl err)
            | None \<Rightarrow> Inr input))))"

text \<open>\<open>submit\<close> is the runtime's \<^verbatim>\<open>SubmitObservation\<close> with its context.\<close>

definition Publish ::
    "(goerror \<Rightarrow> rpc_error) \<Rightarrow> (Observation \<Rightarrow> 'w \<Rightarrow> (Result \<times> goerror option) \<times> 'w) \<Rightarrow> ingress_Server \<Rightarrow>
     publish_view \<Rightarrow> PublishRequest option \<Rightarrow> 'w \<Rightarrow> (rpc_error + ObservationReceipt) \<times> 'w" where
  "Publish fce submit s v request w =
     (case publish_admit fce s v request of
        Inl out \<Rightarrow> (out, w)
      | Inr input \<Rightarrow>
          let ((result, err), w') = submit input w in
          (case err of
             Some e \<Rightarrow>
               (if IsCode e StaleInput then Inr (stale (obs_ID input) reasonEngineStaleInput)
                else Inl (submitStatus fce e), w')
           | None \<Rightarrow> (Inr (accepted (obs_ID input)), w')))"


section \<open>Lemmas\<close>

lemma authorize_empty:
  "authorize s leases l m now = [] \<longleftrightarrow>
     (\<exists>p. leases l = Some p \<and> pv_Health p = Healthy \<and> now < pv_LeaseExpiresAt p \<and>
        sv_selected s (mr_capability m) = Some (pv_ProviderID p) \<and>
        pv_InstanceID p = obs_SourceID (mr_input m) \<and> mr_capability m \<in> set (pv_Capabilities p))"
  by (auto simp: authorize_def list_ex_iff split: option.split)

text \<open>What is mapped and not rejected: the capability that the payload needs, and nothing else.\<close>

definition needed_capability :: "Observation \<Rightarrow> CapabilityKind option" where
  "needed_capability x =
     (case the_payload x of
        Some (Presence _) \<Rightarrow> Some PERSON_PRESENCE
      | Some (Busy _ _) \<Rightarrow> Some BUSY_STATE
      | Some Reply \<Rightarrow> Some VOICE_ACTIVITY
      | _ \<Rightarrow> None)"

lemma good_confidence: "\<not> bad_confidence c \<Longrightarrow> \<exists>q. c = Fin q \<and> 0 \<le> q \<and> q \<le> 1"
  by (cases c) (auto simp: bad_confidence_def)

lemma mapPayload_Inr:
  assumes "mapPayload payload (mapped_metadata wire t ttl) = Inr m" "mr_rejectedReason m = []"
  shows "needed_capability (mr_input m) = Some (mr_capability m) \<and>
    (mr_speech m \<longleftrightarrow> the_payload (mr_input m) = Some Reply) \<and>
    obs_Confidence (mr_input m) \<in> {wi_Confidence wire, Fin 1}"
  using assms(1) [symmetric] assms(2)
  by (cases payload) (auto simp: mapPayload_def mapped_metadata_def needed_capability_def the_payload_def
      split: option.splits)

lemma mapPublishRequest_Inr:
  assumes "mapPublishRequest request = Inr m" "mr_rejectedReason m = []"
  obtains rq where "request = Some rq" "pq_ProviderLeaseId rq \<noteq> []"
    "needed_capability (mr_input m) = Some (mr_capability m)"
    "mr_speech m \<longleftrightarrow> the_payload (mr_input m) = Some Reply"
    "\<exists>q. obs_Confidence (mr_input m) = Fin q \<and> 0 \<le> q \<and> q \<le> 1"
proof -
  from assms(1) obtain rq wire t ttl where rq: "request = Some rq" "pq_ProviderLeaseId rq \<noteq> []"
    and c: "\<not> bad_confidence (wi_Confidence wire)"
    and m: "mapPayload (wi_Payload wire) (mapped_metadata wire t ttl) = Inr m"
    by (auto simp: mapPublishRequest_def split: option.splits wire_value.splits if_splits)
  from mapPayload_Inr [OF m assms(2)] good_confidence [OF c] show thesis
    by (intro that [OF rq]) auto
qed

lemma selected_required_lookup:
  "selected_required rs m k = Some i \<Longrightarrow> m k = Some i \<or> (\<exists>r \<in> set rs. req_Kind r = k \<and> req_ProviderID r = i)"
proof (induction rs arbitrary: m)
  case (Cons r rs)
  from Cons.prems have "selected_required rs (m(req_Kind r \<mapsto> req_ProviderID r)) k = Some i" by simp
  from Cons.IH [OF this] show ?case by (auto split: if_splits)
qed simp

lemma selected_optional_lookup:
  "selected_optional xs m k = Some i \<Longrightarrow> m k = Some i \<or> (\<exists>x \<in> set xs. opt_Kind x = k \<and> opt_ProviderID x = i)"
proof (induction xs arbitrary: m)
  case (Cons x xs)
  from Cons.prems have "selected_optional xs (m(opt_Kind x \<mapsto> opt_ProviderID x)) k = Some i" by simp
  from Cons.IH [OF this] show ?case by (auto split: if_splits)
qed simp

lemma NewServer_selected:
  assumes "NewServer d sc = Inr s" "sv_selected s k = Some i"
  shows "\<exists>fb. (k, i, fb) \<in> set (selections sc)"
proof -
  from assms(1) have s: "sv_selected s = selected_optional (sc_Optional sc) (selected_required (sc_Required sc) Map.empty)"
    by (auto simp: NewServer_def split: if_splits option.splits)
  from assms(2) have "(\<exists>x \<in> set (sc_Optional sc). opt_Kind x = k \<and> opt_ProviderID x = i) \<or>
      selected_required (sc_Required sc) Map.empty k = Some i"
    unfolding s using selected_optional_lookup by blast
  then show ?thesis
  proof
    assume "selected_required (sc_Required sc) Map.empty k = Some i"
    from selected_required_lookup [OF this] obtain r where "r \<in> set (sc_Required sc)" "req_Kind r = k"
      "req_ProviderID r = i" by auto
    then have "(k, i, []) \<in> set (selections sc)" by (auto simp: selections_def)
    then show ?thesis ..
  next
    assume "\<exists>x \<in> set (sc_Optional sc). opt_Kind x = k \<and> opt_ProviderID x = i"
    then obtain x where "x \<in> set (sc_Optional sc)" "opt_Kind x = k" "opt_ProviderID x = i" by blast
    then have "(k, i, opt_Fallback x) \<in> set (selections sc)" by (auto simp: selections_def)
    then show ?thesis ..
  qed
qed

lemma publish_admit_Inr:
  "publish_admit fce s v request = Inr x \<longleftrightarrow>
     (\<exists>m. mapPublishRequest request = Inr m \<and> x = mr_input m \<and> mr_rejectedReason m = [] \<and>
        vi_ctx v = None \<and> vi_ctxSubmit v = None \<and>
        (ac_Status (vi_Activation v) = Ready \<or> ac_Status (vi_Activation v) = Degraded) \<and>
        authorize s (vi_Lease v) (pq_ProviderLeaseId (the request)) m (vi_Now v) = [] \<and>
        Observation_ValidateAt x (vi_Now v) = None \<and>
        (mr_speech m \<longrightarrow> mr_speechActive m \<and> replyWindowContains (vi_Window v) x))"
proof (cases "mapPublishRequest request")
  case (Inr m)
  have "Observation_ValidateAt (mr_input m) (vi_Now v) = None \<Longrightarrow>
      \<not> obs_OccurredAt (mr_input m) + obs_TTL (mr_input m) < vi_Now v"
    by (simp add: ValidateAt_None)
  with Inr show ?thesis
    by (auto simp: publish_admit_def contextStatus_def Let_def split: option.splits if_splits)
qed (auto simp: publish_admit_def split: option.splits)

lemma Publish_accepted:
  assumes "Publish fce submit s v request w = (Inr (accepted i), w')"
  obtains x res where "publish_admit fce s v request = Inr x" "submit x w = ((res, None), w')" "i = obs_ID x"
proof -
  have "False" if "publish_admit fce s v request = Inl (Inr (accepted i))"
    using that
    by (auto simp: publish_admit_def Let_def accepted_def rejected_def stale_def receipt_def
        split: option.splits sum.splits if_splits)
  with assms show thesis
    by (auto simp: Publish_def case_prod_beta accepted_def rejected_def stale_def receipt_def prod_eq_iff
        intro!: that split: sum.splits option.splits if_splits)
qed


section \<open>Properties\<close>

text \<open>C7. Only the current holder of a lease gets through. When \<^verbatim>\<open>Publish\<close> accepts against the leases of
  the registry, the runtime processed the observation without error, and at that moment the lease led to
  a current, healthy, unexpired record of the provider that the scenario selects for the very capability
  the payload needs, which the record declares; the observation comes from the instance of that record,
  was valid, has a confidence in the unit interval (no NaN, no infinity), is never a quiet-mode change,
  and is a reply only inside the published reply window.\<close>

theorem publish_from_current_provider:
  assumes "NewServer True sc = Inr s"
    and "Registry_New True dur = Inr r0" "registry_steps rfce ops (r0, Map.empty) = Some (r, view)"
    and "\<forall>op \<in> set ops. op_ok op" "vi_Lease v = (\<lambda>l. LeaseSnapshot l r)"
    and "Publish fce submit s v (Some rq) w = (Inr (accepted i), w')"
  shows "\<exists>x res rec k fb q.
     submit x w = ((res, None), w') \<and> i = obs_ID x \<and>
     entries r (rec_provider rec) = Some rec \<and> rec_leaseID rec = pq_ProviderLeaseId rq \<and>
     pv_Health (rec_snapshot rec) = Healthy \<and> vi_Now v < rec_expires rec \<and>
     needed_capability x = Some k \<and> (k, rec_provider rec, fb) \<in> set (selections sc) \<and>
     k \<in> set (pv_Capabilities (rec_snapshot rec)) \<and>
     obs_SourceID x = pv_InstanceID (rec_snapshot rec) \<and>
     Observation_ValidateAt x (vi_Now v) = None \<and> obs_Confidence x = Fin q \<and> 0 \<le> q \<and> q \<le> 1 \<and>
     (the_payload x = Some Reply \<longrightarrow> replyWindowContains (vi_Window v) x)"
proof -
  obtain x res where x: "publish_admit fce s v (Some rq) = Inr x" "submit x w = ((res, None), w')" "i = obs_ID x"
    using assms(6) by (rule Publish_accepted)
  from x(1) obtain m where m: "mapPublishRequest (Some rq) = Inr m" "x = mr_input m" "mr_rejectedReason m = []"
    and a: "authorize s (vi_Lease v) (pq_ProviderLeaseId rq) m (vi_Now v) = []"
    and val: "Observation_ValidateAt x (vi_Now v) = None"
    and sp: "mr_speech m \<longrightarrow> mr_speechActive m \<and> replyWindowContains (vi_Window v) x"
    by (auto simp: publish_admit_Inr)
  from a obtain p where p: "LeaseSnapshot (pq_ProviderLeaseId rq) r = Some p" "pv_Health p = Healthy"
    "vi_Now v < pv_LeaseExpiresAt p" "sv_selected s (mr_capability m) = Some (pv_ProviderID p)"
    "pv_InstanceID p = obs_SourceID x" "mr_capability m \<in> set (pv_Capabilities p)"
    by (auto simp: authorize_empty assms(5) m(2))
  have ok: "registry_ok r" using registry_reachable [OF assms(2-4)] by simp
  from p(1) byLease_Some [OF ok, of "pq_ProviderLeaseId rq"] obtain pr rec where
    rec: "entries r pr = Some rec" "rec_leaseID rec = pq_ProviderLeaseId rq" "rec_snapshot rec = p"
    by (auto simp: LeaseSnapshot_def split: option.splits)
  with entries_provider [OF ok rec(1)] have pr: "rec_provider rec = pr" "pv_ProviderID p = pr"
    by (simp_all add: record_ok_def)
  obtain fb where sel: "(mr_capability m, pr, fb) \<in> set (selections sc)"
    using NewServer_selected [OF assms(1) p(4)] by (auto simp: pr)
  obtain q where "needed_capability x = Some (mr_capability m)" "mr_speech m \<longleftrightarrow> the_payload x = Some Reply"
    "obs_Confidence x = Fin q" "0 \<le> q" "q \<le> 1"
    using m by (auto elim: mapPublishRequest_Inr)
  then show ?thesis
    using x(2,3) rec p pr sel val sp by (intro exI [of _ x] exI [of _ res] exI [of _ rec]
        exI [of _ "mr_capability m"] exI [of _ fb] exI [of _ q]) (simp add: rec_expires_def)
qed

text \<open>A provider that registers and publishes.\<close>

definition demo_register :: "registry_op list" where
  "demo_register = [OpRegister (demo_call 1 7) (demo_request ''cam'' 1)]"

definition demo_publish :: PublishRequest where
  "demo_publish =
     \<lparr>pq_ProviderLeaseId = hex_encode (replicate 16 7),
      pq_Observation = Some \<lparr>wi_Id = ''obs-1'', wi_SourceId = ''i'', wi_SourceSeq = 1, wi_SubjectId = ''user-1'',
        wi_TraceId = ''t'', wi_OccurredAt = ValidMessage 2, wi_Ttl = ValidMessage 10, wi_Confidence = Fin 1,
        wi_Payload = WirePersonPresence (Some True)\<rparr>\<rparr>"

definition demo_view :: "Registry \<Rightarrow> publish_view" where
  "demo_view r = \<lparr>vi_ctx = None, vi_Activation = \<lparr>ac_Status = Ready, ac_Issues = []\<rparr>, vi_Now = 3,
     vi_Lease = (\<lambda>l. LeaseSnapshot l r), vi_Window = None, vi_ctxSubmit = None\<rparr>"

definition demo_submit :: "Observation \<Rightarrow> unit \<Rightarrow> (Result \<times> goerror option) \<times> unit" where
  "demo_submit x w = ((zero_Result, None), w)"

definition demo_server :: ingress_Server where
  "demo_server = \<lparr>sv_selected = selected_optional (sc_Optional demo_scenario)
                   (selected_required (sc_Required demo_scenario) Map.empty)\<rparr>"

lemma publish_from_current_provider_witness:
  "\<exists>r view x res rec. registry_steps demo_fce demo_register (demo_registry, Map.empty) = Some (r, view) \<and>
     Publish demo_fce demo_submit demo_server (demo_view r) (Some demo_publish) () = (Inr (accepted ''obs-1''), ()) \<and>
     demo_submit x () = ((res, None), ()) \<and> entries r (rec_provider rec) = Some rec \<and>
     obs_SourceID x = pv_InstanceID (rec_snapshot rec)"
proof -
  have "ValidateScenario demo_scenario = None" by code_simp
  then have new: "NewServer True demo_scenario = Inr demo_server"
    by (simp add: NewServer_def demo_server_def)
  have ev: "(case registry_steps demo_fce demo_register (demo_registry, Map.empty) of
      None \<Rightarrow> False
    | Some (r, view) \<Rightarrow> Publish demo_fce demo_submit demo_server (demo_view r) (Some demo_publish) () =
        (Inr (accepted ''obs-1''), ())) = True"
    by code_simp
  then obtain r view where st: "registry_steps demo_fce demo_register (demo_registry, Map.empty) = Some (r, view)"
    by (cases "registry_steps demo_fce demo_register (demo_registry, Map.empty)") auto
  from ev [unfolded st] have
    pb: "Publish demo_fce demo_submit demo_server (demo_view r) (Some demo_publish) () = (Inr (accepted ''obs-1''), ())"
    by (simp only: option.case prod.case)
  have ok: "\<forall>op \<in> set demo_register. op_ok op" by (simp add: demo_register_def demo_call_def)
  have "vi_Lease (demo_view r) = (\<lambda>l. LeaseSnapshot l r)" by (simp add: demo_view_def)
  note C = publish_from_current_provider [OF new demo_registry_New st ok this pb]
  have "\<exists>x res rec. demo_submit x () = ((res, None), ()) \<and> entries r (rec_provider rec) = Some rec \<and>
      obs_SourceID x = pv_InstanceID (rec_snapshot rec)"
    using C by (elim exE conjE) (intro exI conjI, assumption+)
  with st pb show ?thesis by blast
qed

text \<open>C10. Speech ends the interaction end to end. When \<^verbatim>\<open>Publish\<close> lets a speech activity through against
  the window an engine has published, and that engine then takes the observation (its ingress has not
  seen it), the reply is accepted: exactly one outcome, accepted at the instant of the speech, and the
  wakeup and the window are gone.\<close>

theorem speech_ends_interaction:
  assumes "engine_run P env cfg w0 e w" "vi_Window v = CurrentReplyAcceptanceWindow e"
    and "publish_admit fce s v request = Inr x" "the_payload x = Some Reply"
    and "fst (ingress_accept (eng_ingress e) x (fst (port_Now P w))) = None"
  shows "let ((res, err), e', w') = Engine_Process P e None x w in
    map out_Kind (res_Outcomes res) = [Accepted] \<and>
    map out_OccurredAt (res_Outcomes res) = [obs_OccurredAt x] \<and>
    NextWakeup e' = None \<and> CurrentReplyAcceptanceWindow e' = None \<and> tracker_abs (eng_episodes e') = Idle"
proof -
  from assms(3) obtain m where m: "mapPublishRequest request = Inr m" "x = mr_input m" "mr_rejectedReason m = []"
    and sp: "mr_speech m \<longrightarrow> replyWindowContains (vi_Window v) x"
    by (auto simp: publish_admit_Inr)
  have "mr_speech m" using m assms(4) by (auto elim: mapPublishRequest_Inr)
  with sp obtain rw where rw: "eng_replyWindow e = Some rw" "raw_SubjectID rw = obs_SubjectID x"
    "raw_OpenedAt rw \<le> obs_OccurredAt x" "obs_OccurredAt x < raw_Deadline rw"
    by (auto simp: replyWindowContains_def assms(2) CurrentReplyAcceptanceWindow_def split: option.splits)
  have inv: "engine_inv e" by (rule engine_run_inv [OF assms(1)])
  with rw(1) obtain p where pend: "eng_pendingReply e = Some p"
    by (auto simp: engine_inv_def reply_sync_def split: option.splits)
  from inv pend obtain ep :: Episode and win :: ResponseWindow where
    "eng_replyWindow e = Some \<lparr>raw_SubjectID = ep_SubjectID ep, raw_OpenedAt = win_OpenedAt win,
       raw_Deadline = win_Deadline win\<rparr>" "ep_SubjectID ep = cfg_SubjectID (eng_config e)"
    by (rule pendingE)
  then have "raw_SubjectID rw = cfg_SubjectID (eng_config e)" unfolding rw(1) by auto
  with rw(2) assms(5) have "admissible P e x w" by (simp add: admissible_def)
  from reply_decided [OF assms(1) this assms(4)] rw show ?thesis
    by (cases "Engine_Process P e None x w") (simp add: CurrentReplyAcceptanceWindow_def case_prod_beta)
qed


definition demo_speech :: PublishRequest where
  "demo_speech =
     \<lparr>pq_ProviderLeaseId = ''lease'',
      pq_Observation = Some \<lparr>wi_Id = ''obs-reply'', wi_SourceId = ''simulator'', wi_SourceSeq = 3,
        wi_SubjectId = ''user-1'', wi_TraceId = ''trace-simulator-1'',
        wi_OccurredAt = ValidMessage (startedAt + 45 * Minute + 4 * Second),
        wi_Ttl = ValidMessage Minute, wi_Confidence = Fin 0,
        wi_Payload = WireSpeechActivity (Some True)\<rparr>\<rparr>"

definition demo_speech_view :: publish_view where
  "demo_speech_view =
     \<lparr>vi_ctx = None, vi_Activation = \<lparr>ac_Status = Degraded, ac_Issues = []\<rparr>,
      vi_Now = startedAt + 45 * Minute + 4 * Second,
      vi_Lease = (\<lambda>l. Some ((demo_provider ''mic'' [VOICE_ACTIVITY] (startedAt + 60 * Minute))
        \<lparr>pv_InstanceID := ''simulator''\<rparr>)),
      vi_Window = Some \<lparr>raw_SubjectID = ''user-1'', raw_OpenedAt = startedAt + 45 * Minute,
        raw_Deadline = startedAt + 45 * Minute + 8 * Second\<rparr>,
      vi_ctxSubmit = None\<rparr>"

lemma speech_ends_interaction_witness:
  "\<exists>x res err e' w'. publish_admit demo_fce demo_server demo_speech_view (Some demo_speech) = Inr x \<and>
     Engine_Process sim_ports (fst demo) None x demo_replying = ((res, err), e', w') \<and>
     map out_Kind (res_Outcomes res) = [Accepted] \<and> NextWakeup e' = None"
proof -
  let ?t = "startedAt + 45 * Minute + 4 * Second"
  let ?x = "(userReply ''obs-reply'' 3 ?t)\<lparr>obs_Confidence := Fin 1\<rparr>"
  have adm: "publish_admit demo_fce demo_server demo_speech_view (Some demo_speech) = Inr ?x"
    by code_simp
  have win: "vi_Window demo_speech_view = CurrentReplyAcceptanceWindow (fst demo)"
    by (simp add: demo_speech_view_def demo_facts(3))
  have pl: "the_payload ?x = Some Reply"
    by (simp add: userReply_def blank_observation_def the_payload_def)
  have "fst (ingress_accept (eng_ingress (fst demo)) ?x ?t) =
      fst (ingress_accept (eng_ingress (fst demo)) (userReply ''obs-reply'' 3 ?t) ?t)"
    by (simp add: ingress_accept_def Let_def Observation_ValidateAt_def payload_count_def userReply_def
        blank_observation_def split: option.split)
  then have acc: "fst (ingress_accept (eng_ingress (fst demo)) ?x (fst (port_Now sim_ports demo_replying))) = None"
    using demo_facts(6) by (simp add: demo_replying_def NewFake_def)
  from speech_ends_interaction [OF demo_replying_run win adm pl acc] adm show ?thesis
    by (cases "Engine_Process sim_ports (fst demo) None ?x demo_replying") (auto simp: Let_def)
qed

end
