(* ===== verification/Activation_View.thy ===== *)
theory Activation_View
  imports Ingress_Server
begin

text \<open>
  \<^verbatim>\<open>cmd/desktop/readiness.go\<close>: the activation of the selected scenario at the clock's instant, over the
  registry's snapshots and the in-process providers of the desktop runtime. Copies of slices
  (\<^verbatim>\<open>cloneScenario\<close>) are the values themselves.
\<close>

section \<open>Definitions\<close>

record activationView =
  av_scenario :: ScenarioRequirements
  av_ttsEnabled :: bool

definition newActivationView :: "ScenarioRequirements \<Rightarrow> bool \<Rightarrow> bool \<Rightarrow> goerror + activationView" where
  "newActivationView scenario depsPresent ttsEnabled =
     (if \<not> depsPresent then Inl (Leaf ''provider snapshots and clock are required'')
      else (case ValidateScenario scenario of
          Some err \<Rightarrow> Inl err
        | None \<Rightarrow> Inr \<lparr>av_scenario = scenario, av_ttsEnabled = ttsEnabled\<rparr>))"

definition localProvider :: "string \<Rightarrow> CapabilityKind \<Rightarrow> time \<Rightarrow> ProviderSnapshot" where
  "localProvider i capability now =
     \<lparr>pv_ProviderID = i, pv_InstanceID = i @ ''-in-process'', pv_ProtocolVersion = ''v1'',
      pv_ImplementationVersion = ''desktop.v1'', pv_Capabilities = [capability], pv_Health = Healthy,
      pv_LeaseExpiresAt = Add now Minute\<rparr>"

definition local_providers :: "activationView \<Rightarrow> time \<Rightarrow> ProviderSnapshot list" where
  "local_providers v now =
     localProvider ''web-avatar'' DISPLAY_TEXT now #
       (if av_ttsEnabled v then [localProvider ''speech-dispatcher'' SPEECH_SYNTHESIS now] else [])"

definition CurrentActivation :: "activationView \<Rightarrow> time \<Rightarrow> ProviderSnapshot list \<Rightarrow> Activation" where
  "CurrentActivation v now snapshots =
     (case EvaluateAt (av_scenario v) (snapshots @ local_providers v now)
         \<lparr>bp_Enabled = False, bp_Authorized = [], bp_Enrolled = []\<rparr> now of
        Inl err \<Rightarrow> \<lparr>ac_Status = Blocked, ac_Issues = []\<rparr>
      | Inr activation \<Rightarrow> activation)"

text \<open>The identifiers of the in-process providers.\<close>

definition reserved_ids :: "activationView \<Rightarrow> string set" where
  "reserved_ids v = {''web-avatar''} \<union> (if av_ttsEnabled v then {''speech-dispatcher''} else {})"

section \<open>Lemmas\<close>

lemma localProvider_ok: "0 \<le> now \<Longrightarrow> i \<noteq> [] \<Longrightarrow> validCapability k \<Longrightarrow> provider_ok (localProvider i k now)"
  by (simp add: provider_ok_def localProvider_def Minute_def Second_def Millisecond_def)

lemma local_ids: "map pv_ProviderID (local_providers v now) =
    ''web-avatar'' # (if av_ttsEnabled v then [''speech-dispatcher''] else [])"
  by (simp add: local_providers_def localProvider_def)

lemma local_providers_ok:
  assumes "0 \<le> now"
  shows "\<forall>p \<in> set (local_providers v now). provider_ok p"
proof -
  have "validCapability DISPLAY_TEXT" "validCapability SPEECH_SYNTHESIS" by (simp_all add: validCapability_def)
  with assms show ?thesis by (auto simp: local_providers_def intro!: localProvider_ok)
qed

lemma providers_ok_with_local:
  assumes "providers_ok ps" "0 \<le> now"
  shows "providers_ok (ps @ local_providers v now) \<longleftrightarrow>
    (\<forall>p \<in> set ps. pv_ProviderID p \<notin> reserved_ids v)"
proof -
  have d: "distinct (map pv_ProviderID (local_providers v now))" unfolding local_ids by simp
  have s: "pv_ProviderID ` set (local_providers v now) = reserved_ids v"
    using arg_cong [OF local_ids [of v now], of set] by (auto simp: reserved_ids_def)
  show ?thesis
    using assms local_providers_ok [OF assms(2), of v] d
    by (auto simp: providers_ok_def s simp flip: s)
qed

section \<open>Properties\<close>

text \<open>C37. The activation a client sees is the exact evaluation of the validated scenario over the
  registry and the in-process providers, except when a remote provider is registered under the
  identifier of an in-process one: then the evaluation is an error, which the view turns into a block
  without issues, and the ingress refuses every observation that it would otherwise map.\<close>

theorem activation_or_reserved:
  assumes "newActivationView sc True tts = Inr av"
    and "Registry_New True dur = Inr r0" "registry_steps rfce ops (r0, Map.empty) = Some (r, view)"
    and "\<forall>op \<in> set ops. op_ok op" "0 \<le> now"
  shows "if \<forall>i \<in> reserved_ids av. entries r i = None
    then EvaluateAt sc (Snapshots r @ local_providers av now)
           \<lparr>bp_Enabled = False, bp_Authorized = [], bp_Enrolled = []\<rparr> now =
         Inr (CurrentActivation av now (Snapshots r))
    else CurrentActivation av now (Snapshots r) = \<lparr>ac_Status = Blocked, ac_Issues = []\<rparr> \<and>
         (\<forall>fce s v rq x. vi_Activation v = CurrentActivation av now (Snapshots r) \<longrightarrow>
            publish_admit fce s v rq \<noteq> Inr x)"
proof -
  have av: "av_scenario av = sc" "scenario_ok sc"
    using assms(1) by (auto simp: newActivationView_def validate_simps split: option.splits)
  have ok: "registry_ok r" using registry_reachable [OF assms(2-4)] by simp
  have ids: "pv_ProviderID ` set (Snapshots r) = {i. entries r i \<noteq> None}"
    using Snapshots_entries(3) [OF ok] entries_provider [OF ok]
    by (auto simp: record_ok_def image_iff) metis+
  let ?pol = "\<lparr>bp_Enabled = False, bp_Authorized = [], bp_Enrolled = []\<rparr>"
  let ?ps = "Snapshots r @ local_providers av now"
  have "policy_ok ?pol" by (simp add: policy_ok_def)
  with av have e: "(\<exists>act. EvaluateAt sc ?ps ?pol now = Inr act) \<longleftrightarrow> providers_ok ?ps"
    by (auto simp: EvaluateAt_Inr)
  have p: "providers_ok ?ps \<longleftrightarrow> (\<forall>i \<in> reserved_ids av. entries r i = None)"
  proof -
    have "(\<forall>p \<in> set (Snapshots r). pv_ProviderID p \<notin> reserved_ids av) \<longleftrightarrow>
        (\<forall>i \<in> reserved_ids av. i \<notin> pv_ProviderID ` set (Snapshots r))" by auto
    then show ?thesis
      using providers_ok_with_local [OF Snapshots_providers_ok [OF ok] assms(5), of av] by (simp add: ids)
  qed
  show ?thesis
  proof (cases "providers_ok ?ps")
    case True
    with e obtain act where "EvaluateAt sc ?ps ?pol now = Inr act" by blast
    with True p show ?thesis by (simp add: CurrentActivation_def av(1))
  next
    case False
    with e obtain err where "EvaluateAt sc ?ps ?pol now = Inl err"
      by (cases "EvaluateAt sc ?ps ?pol now") auto
    then have "CurrentActivation av now (Snapshots r) = \<lparr>ac_Status = Blocked, ac_Issues = []\<rparr>"
      by (simp add: CurrentActivation_def av(1))
    with False p show ?thesis by (auto simp: publish_admit_Inr)
  qed
qed

text \<open>A remote provider that takes the identifier of the in-process avatar.\<close>

definition demo_intruder :: "registry_op list" where
  "demo_intruder = [OpRegister (demo_call 1 7) (demo_request ''web-avatar'' 1)]"

lemma activation_or_reserved_witness:
  "\<exists>r view. registry_steps demo_fce demo_intruder (demo_registry, Map.empty) = Some (r, view) \<and>
     CurrentActivation \<lparr>av_scenario = demo_scenario, av_ttsEnabled = True\<rparr> 3 (Snapshots r) =
       \<lparr>ac_Status = Blocked, ac_Issues = []\<rparr>"
proof -
  let ?av = "\<lparr>av_scenario = demo_scenario, av_ttsEnabled = True\<rparr>"
  have "ValidateScenario demo_scenario = None" by code_simp
  then have new: "newActivationView demo_scenario True True = Inr ?av" by (simp add: newActivationView_def)
  have ev: "(case registry_steps demo_fce demo_intruder (demo_registry, Map.empty) of
      None \<Rightarrow> False
    | Some (r, view) \<Rightarrow> \<not> Option.is_none (entries r ''web-avatar'')) = True"
    by code_simp
  then obtain r view where st: "registry_steps demo_fce demo_intruder (demo_registry, Map.empty) = Some (r, view)"
    by (cases "registry_steps demo_fce demo_intruder (demo_registry, Map.empty)") auto
  from ev [unfolded st] have "entries r ''web-avatar'' \<noteq> None"
    by (simp only: option.case prod.case) (auto simp: Option.is_none_def)
  then have taken: "(\<forall>i \<in> reserved_ids ?av. entries r i = None) = False" by (simp add: reserved_ids_def)
  have "\<forall>op \<in> set demo_intruder. op_ok op" by (simp add: demo_intruder_def demo_call_def)
  from activation_or_reserved [OF new demo_registry_New st this, of 3]
  have "CurrentActivation ?av 3 (Snapshots r) = \<lparr>ac_Status = Blocked, ac_Issues = []\<rparr>"
    unfolding taken if_False by simp
  with st show ?thesis by (intro exI conjI)
qed

end
