(* ===== verification/Scenario_Loader.thy ===== *)
theory Scenario_Loader
  imports Registry Json
begin

text \<open>
  Package \<^verbatim>\<open>adapters/config/scenario\<close> (\<^verbatim>\<open>loader.go\<close>): a scenario manifest is decoded,
  mapped to the selection of capabilities that the readiness evaluator takes, validated, put into a canonical
  order and hashed. The YAML package and SHA-256 are parameters: \<open>decode\<close> is \<^verbatim>\<open>Decode\<close> of
  \<^verbatim>\<open>yaml.NewDecoder\<close> with known fields only, given how \<^verbatim>\<open>strictString\<close> unmarshals, and
  leaves the reader behind the first document; \<open>trailing\<close> is the second \<^verbatim>\<open>Decode\<close>;
  \<open>sha256\<close> gives the bytes of the digest. \<^verbatim>\<open>encoding/json\<close> is the one of \<^verbatim>\<open>Json\<close>:
  it never fails on strings.
\<close>

section \<open>The manifest\<close>

datatype yaml_Kind = ScalarNode | OtherNode

record yaml_Node =
  nd_Kind :: yaml_Kind
  nd_Tag :: string
  nd_Value :: string

fun UnmarshalYAML :: "yaml_Node option \<Rightarrow> goerror + string" where
  "UnmarshalYAML None = Inl (Leaf ''value must be a YAML string'')"
| "UnmarshalYAML (Some node) =
     (if nd_Kind node \<noteq> ScalarNode \<or> nd_Tag node \<noteq> ''!!str'' then Inl (Leaf ''value must be a YAML string'')
      else Inr (nd_Value node))"

record wireRequirement =
  wr_Capability :: string
  wr_ProviderID :: string

record wireOptional =
  wo_Capability :: string
  wo_ProviderID :: string
  wo_Fallback :: string

record wireScenario =
  ws_ID :: string
  ws_Version :: string
  ws_Required :: "wireRequirement list"
  ws_Optional :: "wireOptional list"

record wireManifest =
  wm_SchemaVersion :: string
  wm_Scenario :: "wireScenario option"

record LoadedScenario =
  ls_Version :: string
  ls_Requirements :: ScenarioRequirements
  ls_Hash :: string

text \<open>The second \<^verbatim>\<open>Decode\<close>: \<^verbatim>\<open>io.EOF\<close>, another error, or one more document.\<close>

datatype yaml_trailing = TrailingEOF | TrailingError goerror | TrailingDocument

section \<open>Mapping\<close>

definition load_invalid :: "goerror \<Rightarrow> goerror" where
  "load_invalid err = New_fault InvalidInput ''load scenario manifest'' err"

definition supportedSchemaVersion :: string where
  "supportedSchemaVersion = ''v1''"

definition capability_names :: "(string \<times> CapabilityKind) list" where
  "capability_names =
     [(''PERSON_PRESENCE'', PERSON_PRESENCE), (''FACE_DETECTION'', FACE_DETECTION),
      (''FACE_IDENTIFICATION'', FACE_IDENTIFICATION), (''FACE_LIVENESS'', FACE_LIVENESS),
      (''VOICE_ACTIVITY'', VOICE_ACTIVITY), (''SPEAKER_IDENTIFICATION'', SPEAKER_IDENTIFICATION),
      (''SPEAKER_VERIFICATION'', SPEAKER_VERIFICATION), (''SPEECH_TRANSCRIPTION'', SPEECH_TRANSCRIPTION),
      (''ATTENTION_ESTIMATION'', ATTENTION_ESTIMATION), (''BUSY_STATE'', BUSY_STATE),
      (''GESTURE_DETECTION'', GESTURE_DETECTION), (''DEVICE_STATE'', DEVICE_STATE),
      (''DISPLAY_TEXT'', DISPLAY_TEXT), (''AVATAR_ATTEND'', AVATAR_ATTEND),
      (''AVATAR_EXPRESSION'', AVATAR_EXPRESSION), (''SPEECH_SYNTHESIS'', SPEECH_SYNTHESIS),
      (''GESTURE'', GESTURE), (''LIGHT'', LIGHT), (''LOCOMOTION'', LOCOMOTION)]"

definition scenario_mapCapability :: "string \<Rightarrow> CapabilityKind option" where
  "scenario_mapCapability = map_of capability_names"

definition mapFallback :: "string \<Rightarrow> Fallback option" where
  "mapFallback = map_of
     [(''ANONYMOUS_SUBJECT'', ANONYMOUS_SUBJECT), (''NO_VOICE_REPLY'', NO_VOICE_REPLY),
      (''NO_TRANSCRIPT'', NO_TRANSCRIPT), (''VISUAL_ONLY'', VISUAL_ONLY), (''AUDIO_ONLY'', AUDIO_ONLY)]"

text \<open>The two loops of \<^verbatim>\<open>mapRequirements\<close>.\<close>

fun map_required :: "wireRequirement list \<Rightarrow> goerror + CapabilityRequirement list" where
  "map_required [] = Inr []"
| "map_required (item # items) =
     (case scenario_mapCapability (wr_Capability item) of
        None \<Rightarrow> Inl (load_invalid (Leaf ''unknown capability %q''))
      | Some kind \<Rightarrow>
          (case map_required items of
             Inl err \<Rightarrow> Inl err
           | Inr rs \<Rightarrow> Inr (\<lparr>req_Kind = kind, req_ProviderID = wr_ProviderID item\<rparr> # rs)))"

fun map_optional :: "wireOptional list \<Rightarrow> goerror + OptionalCapability list" where
  "map_optional [] = Inr []"
| "map_optional (item # items) =
     (case scenario_mapCapability (wo_Capability item) of
        None \<Rightarrow> Inl (load_invalid (Leaf ''unknown capability %q''))
      | Some kind \<Rightarrow>
          (case mapFallback (wo_Fallback item) of
             None \<Rightarrow> Inl (load_invalid (Leaf ''unknown fallback %q''))
           | Some fallback \<Rightarrow>
               (case map_optional items of
                  Inl err \<Rightarrow> Inl err
                | Inr rs \<Rightarrow>
                    Inr (\<lparr>opt_Kind = kind, opt_ProviderID = wo_ProviderID item, opt_Fallback = fallback\<rparr> # rs))))"

definition mapRequirements :: "wireScenario \<Rightarrow> goerror + ScenarioRequirements" where
  "mapRequirements input =
     (case map_required (ws_Required input) of
        Inl err \<Rightarrow> Inl err
      | Inr required \<Rightarrow>
          (case map_optional (ws_Optional input) of
             Inl err \<Rightarrow> Inl err
           | Inr optional \<Rightarrow> Inr \<lparr>sc_ID = ws_ID input, sc_Required = required, sc_Optional = optional\<rparr>))"

section \<open>Canonical form\<close>

text \<open>The orders of the two \<^verbatim>\<open>sort.Slice\<close> calls; each compares every field, so that it does not matter
  that \<^verbatim>\<open>sort.Slice\<close> is not stable.\<close>

definition required_key :: "CapabilityRequirement \<Rightarrow> string \<times> string" where
  "required_key r = (req_Kind r, req_ProviderID r)"

definition optional_key :: "OptionalCapability \<Rightarrow> string \<times> string \<times> string" where
  "optional_key x = (opt_Kind x, opt_ProviderID x, opt_Fallback x)"

definition normalizeRequirements :: "ScenarioRequirements \<Rightarrow> ScenarioRequirements" where
  "normalizeRequirements sc =
     sc\<lparr>sc_Required := sort_key required_key (sc_Required sc), sc_Optional := sort_key optional_key (sc_Optional sc)\<rparr>"

definition json_string :: "string \<Rightarrow> json" where
  "json_string s = J_str (json_quote s)"

definition canonicalRequirement :: "CapabilityRequirement \<Rightarrow> json" where
  "canonicalRequirement item =
     J_obj [(''capability'', json_string (req_Kind item)), (''provider_id'', json_string (req_ProviderID item))]"

definition canonicalOptional :: "OptionalCapability \<Rightarrow> json" where
  "canonicalOptional item =
     J_obj [(''capability'', json_string (opt_Kind item)), (''provider_id'', json_string (opt_ProviderID item)),
            (''fallback'', json_string (opt_Fallback item))]"

definition canonicalContent :: "string \<Rightarrow> string \<Rightarrow> ScenarioRequirements \<Rightarrow> json" where
  "canonicalContent schemaVersion scenarioVersion sc =
     J_obj [(''schema_version'', json_string schemaVersion), (''scenario_id'', json_string (sc_ID sc)),
            (''scenario_version'', json_string scenarioVersion),
            (''required'', J_arr (map canonicalRequirement (sc_Required sc))),
            (''optional'', J_arr (map canonicalOptional (sc_Optional sc)))]"

definition hashCanonical ::
    "(string \<Rightarrow> 8 word list) \<Rightarrow> string \<Rightarrow> string \<Rightarrow> ScenarioRequirements \<Rightarrow> string" where
  "hashCanonical sha256 schemaVersion scenarioVersion sc =
     hex_encode (sha256 (json_text (canonicalContent schemaVersion scenarioVersion sc)))"

section \<open>Load\<close>

definition Load ::
    "(string \<Rightarrow> 8 word list) \<Rightarrow> ((yaml_Node option \<Rightarrow> goerror + string) \<Rightarrow> 'r \<Rightarrow> (goerror + wireManifest) \<times> 'r) \<Rightarrow>
     ('r \<Rightarrow> yaml_trailing) \<Rightarrow> 'r option \<Rightarrow> goerror + LoadedScenario" where
  "Load sha256 decode trailing reader =
     (case reader of
        None \<Rightarrow> Inl (load_invalid (Leaf ''reader is required''))
      | Some r \<Rightarrow>
          (case decode UnmarshalYAML r of
             (Inl err, r1) \<Rightarrow> Inl (load_invalid (Wrapf ''decode manifest'' err))
           | (Inr wire, r1) \<Rightarrow>
               (case trailing r1 of
                  TrailingError err \<Rightarrow> Inl (load_invalid (Wrapf ''decode trailing document'' err))
                | TrailingDocument \<Rightarrow> Inl (load_invalid (Leaf ''multiple YAML documents are not allowed''))
                | TrailingEOF \<Rightarrow>
                    if wm_SchemaVersion wire \<noteq> supportedSchemaVersion then
                      Inl (load_invalid (Leaf ''unsupported schema version %q''))
                    else (case wm_Scenario wire of
                        None \<Rightarrow> Inl (load_invalid (Leaf ''scenario is required''))
                      | Some scenario \<Rightarrow>
                          if ws_Version scenario = [] then
                            Inl (load_invalid (Leaf ''scenario version is required''))
                          else (case mapRequirements scenario of
                              Inl err \<Rightarrow> Inl err
                            | Inr requirements \<Rightarrow>
                                (case ValidateScenario requirements of
                                   Some err \<Rightarrow> Inl (load_invalid err)
                                 | None \<Rightarrow>
                                     let normalized = normalizeRequirements requirements
                                     in Inr \<lparr>ls_Version = ws_Version scenario, ls_Requirements = normalized,
                                             ls_Hash = hashCanonical sha256 (wm_SchemaVersion wire)
                                                         (ws_Version scenario) normalized\<rparr>))))))"

section \<open>What is accepted\<close>

text \<open>The selection a manifest writes down.\<close>

definition declared_required :: "wireRequirement \<Rightarrow> CapabilityRequirement" where
  "declared_required r = \<lparr>req_Kind = wr_Capability r, req_ProviderID = wr_ProviderID r\<rparr>"

definition declared_optional :: "wireOptional \<Rightarrow> OptionalCapability" where
  "declared_optional x =
     \<lparr>opt_Kind = wo_Capability x, opt_ProviderID = wo_ProviderID x, opt_Fallback = wo_Fallback x\<rparr>"

definition declared :: "wireScenario \<Rightarrow> ScenarioRequirements" where
  "declared ws =
     \<lparr>sc_ID = ws_ID ws, sc_Required = map declared_required (ws_Required ws),
      sc_Optional = map declared_optional (ws_Optional ws)\<rparr>"

lemma identity_lookup:
  "\<forall>(a, b) \<in> set xs. a = b \<Longrightarrow> map_of xs s = (if s \<in> fst ` set xs then Some s else None)"
  by (induction xs) auto

lemma scenario_mapCapability_valid:
  "scenario_mapCapability s = (if validCapability s then Some s else None)"
proof -
  have "\<forall>(a, b) \<in> set capability_names. a = b" "map fst capability_names =
     [PERSON_PRESENCE, FACE_DETECTION, FACE_IDENTIFICATION, FACE_LIVENESS, VOICE_ACTIVITY, SPEAKER_IDENTIFICATION,
      SPEAKER_VERIFICATION, SPEECH_TRANSCRIPTION, ATTENTION_ESTIMATION, BUSY_STATE, GESTURE_DETECTION,
      DEVICE_STATE, DISPLAY_TEXT, AVATAR_ATTEND, AVATAR_EXPRESSION, SPEECH_SYNTHESIS, GESTURE, LIGHT, LOCOMOTION]"
    by (simp_all add: capability_names_def)
  then show ?thesis
    using identity_lookup [of capability_names s]
    by (simp add: scenario_mapCapability_def validCapability_def flip: set_map)
qed

lemma mapFallback_valid:
  "mapFallback s = (if s \<in> {ANONYMOUS_SUBJECT, NO_VOICE_REPLY, NO_TRANSCRIPT, VISUAL_ONLY, AUDIO_ONLY} then Some s else None)"
  by (simp add: mapFallback_def)

lemma validFallback_known: "validFallback k s \<Longrightarrow> mapFallback s = Some s"
  by (auto simp: mapFallback_valid validFallback_def split: if_splits)

lemma map_required_Inr:
  "map_required items = Inr rs \<longleftrightarrow>
     (\<forall>r \<in> set items. validCapability (wr_Capability r)) \<and> rs = map declared_required items"
  by (induction items arbitrary: rs)
    (auto simp: scenario_mapCapability_valid declared_required_def sum_case_Inr)

lemma map_optional_Inr:
  "map_optional items = Inr rs \<longleftrightarrow>
     (\<forall>x \<in> set items. validCapability (wo_Capability x) \<and> mapFallback (wo_Fallback x) \<noteq> None) \<and>
     rs = map declared_optional items"
proof (induction items arbitrary: rs)
  case (Cons x items)
  have "mapFallback (wo_Fallback x) = Some f \<Longrightarrow> f = wo_Fallback x" for f
    by (simp add: mapFallback_valid split: if_splits)
  with Cons show ?case
    by (cases "mapFallback (wo_Fallback x)")
      (auto simp: scenario_mapCapability_valid declared_optional_def sum_case_Inr)
qed auto

lemma mapRequirements_Inr:
  "mapRequirements ws = Inr sc \<longleftrightarrow>
     (\<forall>r \<in> set (ws_Required ws). validCapability (wr_Capability r)) \<and>
     (\<forall>x \<in> set (ws_Optional ws). validCapability (wo_Capability x) \<and> mapFallback (wo_Fallback x) \<noteq> None) \<and>
     sc = declared ws"
  by (auto simp: mapRequirements_def declared_def map_required_Inr map_optional_Inr sum_case_Inr)

lemma selected_declared:
  assumes "scenario_ok (declared ws)"
  shows "mapRequirements ws = Inr (declared ws)" "ValidateScenario (declared ws) = None"
proof -
  show "ValidateScenario (declared ws) = None"
    using assms by (simp add: ValidateScenario_None)
  have "validCapability (wr_Capability r)" if "r \<in> set (ws_Required ws)" for r
    using assms that by (fastforce simp: scenario_ok_def selections_def declared_def declared_required_def)
  moreover have "validCapability (wo_Capability x) \<and> mapFallback (wo_Fallback x) \<noteq> None"
    if "x \<in> set (ws_Optional ws)" for x
    using assms that by (fastforce simp: scenario_ok_def selections_def declared_def declared_optional_def
        dest: validFallback_known)
  ultimately show "mapRequirements ws = Inr (declared ws)"
    by (simp add: mapRequirements_Inr)
qed

lemma map_required_Inl: "map_required items = Inl e \<Longrightarrow> IsCode e InvalidInput"
  by (induction items arbitrary: e) (auto simp: load_invalid_def split: option.splits sum.splits)

lemma map_optional_Inl: "map_optional items = Inl e \<Longrightarrow> IsCode e InvalidInput"
  by (induction items arbitrary: e) (auto simp: load_invalid_def split: option.splits sum.splits)

lemma mapRequirements_Inl: "mapRequirements ws = Inl e \<Longrightarrow> IsCode e InvalidInput"
  by (auto simp: mapRequirements_def split: sum.splits dest: map_required_Inl map_optional_Inl)

text \<open>The loaded scenario of an accepted manifest.\<close>

definition loaded :: "(string \<Rightarrow> 8 word list) \<Rightarrow> wireScenario \<Rightarrow> LoadedScenario" where
  "loaded sha256 ws =
     \<lparr>ls_Version = ws_Version ws, ls_Requirements = normalizeRequirements (declared ws),
      ls_Hash = hashCanonical sha256 ''v1'' (ws_Version ws) (normalizeRequirements (declared ws))\<rparr>"

definition accepted_manifest :: "wireManifest \<Rightarrow> wireScenario \<Rightarrow> bool" where
  "accepted_manifest wire ws =
     (wm_SchemaVersion wire = ''v1'' \<and> wm_Scenario wire = Some ws \<and> ws_Version ws \<noteq> [] \<and> scenario_ok (declared ws))"

lemma Load_Inr:
  "Load sha256 decode trailing reader = Inr l \<longleftrightarrow>
     (\<exists>r wire r1 ws. reader = Some r \<and> decode UnmarshalYAML r = (Inr wire, r1) \<and> trailing r1 = TrailingEOF \<and>
        accepted_manifest wire ws \<and> l = loaded sha256 ws)"
proof
  assume "Load sha256 decode trailing reader = Inr l"
  then obtain r wire r1 ws sc where "reader = Some r" "decode UnmarshalYAML r = (Inr wire, r1)"
    "trailing r1 = TrailingEOF" "wm_SchemaVersion wire = ''v1''" "wm_Scenario wire = Some ws" "ws_Version ws \<noteq> []"
    "mapRequirements ws = Inr sc" "ValidateScenario sc = None"
    "l = \<lparr>ls_Version = ws_Version ws, ls_Requirements = normalizeRequirements sc,
          ls_Hash = hashCanonical sha256 ''v1'' (ws_Version ws) (normalizeRequirements sc)\<rparr>"
    by (auto simp: Load_def supportedSchemaVersion_def Let_def
        split: option.splits prod.splits sum.splits yaml_trailing.splits if_splits)
  moreover from this(7,8) have "sc = declared ws" "scenario_ok sc"
    by (simp_all add: mapRequirements_Inr ValidateScenario_None)
  ultimately show "\<exists>r wire r1 ws. reader = Some r \<and> decode UnmarshalYAML r = (Inr wire, r1) \<and> trailing r1 = TrailingEOF \<and>
      accepted_manifest wire ws \<and> l = loaded sha256 ws"
    by (intro exI [of _ r] exI [of _ wire] exI [of _ r1] exI [of _ ws]) (simp add: accepted_manifest_def loaded_def)
next
  assume "\<exists>r wire r1 ws. reader = Some r \<and> decode UnmarshalYAML r = (Inr wire, r1) \<and> trailing r1 = TrailingEOF \<and>
      accepted_manifest wire ws \<and> l = loaded sha256 ws"
  then show "Load sha256 decode trailing reader = Inr l"
    by (auto simp: Load_def accepted_manifest_def loaded_def supportedSchemaVersion_def selected_declared
        Let_def)
qed

lemma Load_Inl: "Load sha256 decode trailing reader = Inl e \<Longrightarrow> IsCode e InvalidInput"
  by (auto simp: Load_def load_invalid_def Let_def dest: mapRequirements_Inl
      split: option.splits prod.splits sum.splits yaml_trailing.splits if_splits)

section \<open>The canonical form\<close>

lemma sort_key_perm_iff:
  assumes "inj k"
  shows "sort_key k xs = sort_key k ys \<longleftrightarrow> mset xs = mset ys"
proof
  assume "sort_key k xs = sort_key k ys"
  then show "mset xs = mset ys"
    by (metis mset_sort)
next
  assume "mset xs = mset ys"
  moreover have "inj_on k (set xs)"
    using assms by (rule inj_on_subset) simp
  ultimately show "sort_key k xs = sort_key k ys"
    by (intro sort_key_inj_key_eq) simp_all
qed

lemma keys_inj: "inj required_key" "inj optional_key" "inj declared_required" "inj declared_optional"
  by (auto simp: inj_def required_key_def optional_key_def declared_required_def declared_optional_def)

lemma normalize_eq:
  "normalizeRequirements sc = normalizeRequirements sc' \<longleftrightarrow>
     sc_ID sc = sc_ID sc' \<and> mset (sc_Required sc) = mset (sc_Required sc') \<and> mset (sc_Optional sc) = mset (sc_Optional sc')"
  by (cases sc; cases sc') (simp add: normalizeRequirements_def sort_key_perm_iff keys_inj)

lemma mset_map_inj: "inj f \<Longrightarrow> mset (map f xs) = mset (map f ys) \<longleftrightarrow> mset xs = mset ys"
  by (metis inj_eq mset_map multiset.inj_map)

lemma declared_eq:
  "normalizeRequirements (declared ws) = normalizeRequirements (declared ws') \<longleftrightarrow>
     ws_ID ws = ws_ID ws' \<and> mset (ws_Required ws) = mset (ws_Required ws') \<and> mset (ws_Optional ws) = mset (ws_Optional ws')"
  by (simp add: normalize_eq declared_def mset_map_inj keys_inj flip: mset_map)

text \<open>Hexadecimal text stands for its bytes.\<close>

lemma hex_digit_inject: "a < 16 \<Longrightarrow> b < 16 \<Longrightarrow> hex_digit a = hex_digit b \<longleftrightarrow> a = b"
proof -
  have "distinct ''0123456789abcdef''" "length ''0123456789abcdef'' = 16"
    by simp_all
  then show "a < 16 \<Longrightarrow> b < 16 \<Longrightarrow> ?thesis"
    unfolding hex_digit_def by (metis nth_eq_iff_index_eq)
qed

lemma hex_encode_inject: "hex_encode xs = hex_encode ys \<longleftrightarrow> xs = ys"
proof
  show "hex_encode xs = hex_encode ys \<Longrightarrow> xs = ys"
  proof (induction xs arbitrary: ys)
    case (Cons x xs)
    then obtain y ys' where ys: "ys = y # ys'"
      by (cases ys) (auto simp: hex_encode_def)
    have "unat x < 2 ^ 8" "unat y < 2 ^ 8"
      using unsigned_less [of x, where 'a = nat] unsigned_less [of y, where 'a = nat] by simp_all
    then have "unat x div 16 < 16" "unat y div 16 < 16"
      by simp_all
    moreover have "hex_digit (unat x div 16) = hex_digit (unat y div 16)" "hex_digit (unat x mod 16) = hex_digit (unat y mod 16)"
      and "hex_encode xs = hex_encode ys'"
      using Cons.prems by (simp_all add: ys hex_encode_def)
    ultimately have "unat x div 16 = unat y div 16" "unat x mod 16 = unat y mod 16" "xs = ys'"
      using Cons.IH by (simp_all add: hex_digit_inject)
    then have "unat x = unat y" "xs = ys'"
      by (metis div_mult_mod_eq)+
    then show ?case
      by (simp add: ys unsigned_word_eqI)
  qed (cases ys; simp add: hex_encode_def)
qed simp

text \<open>Plain printable ASCII without characters that JSON escapes.\<close>

definition plain_scenario :: "string \<Rightarrow> ScenarioRequirements \<Rightarrow> bool" where
  "plain_scenario version sc =
     (list_all plain version \<and> list_all plain (sc_ID sc) \<and>
      (\<forall>r \<in> set (sc_Required sc). list_all plain (req_Kind r) \<and> list_all plain (req_ProviderID r)) \<and>
      (\<forall>x \<in> set (sc_Optional sc). list_all plain (opt_Kind x) \<and> list_all plain (opt_ProviderID x) \<and>
         list_all plain (opt_Fallback x)))"

lemma json_string_plain: "list_all plain s \<Longrightarrow> json_string s = J_str s"
  by (simp add: json_string_def plain_quote)

lemma letters_plain: "list_all plain ''abcdefghijklmnopqrstuvwxyz_1''"
  by code_simp

lemmas letter_plain = letters_plain [unfolded list.pred_inject]

lemma canonicalContent_ok:
  "plain_scenario version sc \<Longrightarrow> json_ok (canonicalContent ''v1'' version sc)"
  by (auto simp: plain_scenario_def canonicalContent_def canonicalRequirement_def canonicalOptional_def
      json_string_plain letter_plain)

lemma canonical_required:
  "(\<forall>r \<in> set xs \<union> set ys. list_all plain (req_Kind r) \<and> list_all plain (req_ProviderID r)) \<Longrightarrow>
     map canonicalRequirement xs = map canonicalRequirement ys \<longleftrightarrow> xs = ys"
  by (rule inj_on_map_eq_map, rule inj_onI) (auto simp: canonicalRequirement_def json_string_plain)

lemma canonical_optional:
  "(\<forall>x \<in> set xs \<union> set ys. list_all plain (opt_Kind x) \<and> list_all plain (opt_ProviderID x) \<and>
     list_all plain (opt_Fallback x)) \<Longrightarrow>
     map canonicalOptional xs = map canonicalOptional ys \<longleftrightarrow> xs = ys"
  by (rule inj_on_map_eq_map, rule inj_onI) (auto simp: canonicalOptional_def json_string_plain)

lemma canonicalContent_eq:
  assumes "plain_scenario v sc" "plain_scenario v' sc'"
  shows "canonicalContent ''v1'' v sc = canonicalContent ''v1'' v' sc' \<longleftrightarrow> v = v' \<and> sc = sc'"
proof -
  have "map canonicalRequirement (sc_Required sc) = map canonicalRequirement (sc_Required sc') \<longleftrightarrow> sc_Required sc = sc_Required sc'"
    "map canonicalOptional (sc_Optional sc) = map canonicalOptional (sc_Optional sc') \<longleftrightarrow> sc_Optional sc = sc_Optional sc'"
    using assms by (auto simp: plain_scenario_def intro!: canonical_required canonical_optional)
  then show ?thesis
    using assms by (cases sc; cases sc') (auto simp: canonicalContent_def plain_scenario_def json_string_plain)
qed

lemma json_text_inject: "json_ok j \<Longrightarrow> json_ok j' \<Longrightarrow> json_text j = json_text j' \<longleftrightarrow> j = j'"
  by (metis append_Nil2 follows_def option.inject parse_json_text prod.inject)

definition canonical_text :: "string \<Rightarrow> ScenarioRequirements \<Rightarrow> string" where
  "canonical_text version sc = json_text (canonicalContent ''v1'' version sc)"

lemma hash_eq:
  assumes "plain_scenario v sc" "plain_scenario v' sc'" "inj_on sha256 {canonical_text v sc, canonical_text v' sc'}"
  shows "hashCanonical sha256 ''v1'' v sc = hashCanonical sha256 ''v1'' v' sc' \<longleftrightarrow> v = v' \<and> sc = sc'"
proof -
  have "canonical_text v sc = canonical_text v' sc' \<longleftrightarrow> v = v' \<and> sc = sc'"
    using assms(1,2) by (simp add: canonical_text_def json_text_inject canonicalContent_ok canonicalContent_eq)
  then show ?thesis
    using assms(3) by (auto simp: hashCanonical_def hex_encode_inject inj_on_def simp flip: canonical_text_def)
qed

section \<open>Properties\<close>

text \<open>A selection in another order.\<close>

lemma scenario_ok_perm:
  assumes "sc_ID sc = sc_ID sc'" "mset (sc_Required sc) = mset (sc_Required sc')" "mset (sc_Optional sc) = mset (sc_Optional sc')"
  shows "scenario_ok sc \<longleftrightarrow> scenario_ok sc'"
proof -
  have s: "mset (selections sc) = mset (selections sc')"
    using assms(2,3) by (simp add: selections_def)
  then have "distinct (map fst (selections sc)) \<longleftrightarrow> distinct (map fst (selections sc'))"
    by (intro mset_eq_imp_distinct_iff) simp
  with assms(1) s mset_eq_setD [OF s] mset_eq_setD [OF assms(3)] show ?thesis
    by (metis scenario_ok_def mset_zero_iff)
qed

lemma normalized:
  "sc_ID (normalizeRequirements sc) = sc_ID sc"
  "mset (sc_Required (normalizeRequirements sc)) = mset (sc_Required sc)"
  "mset (sc_Optional (normalizeRequirements sc)) = mset (sc_Optional sc)"
  by (simp_all add: normalizeRequirements_def)

lemma normalized_ok: "scenario_ok (normalizeRequirements sc) \<longleftrightarrow> scenario_ok sc"
  by (rule scenario_ok_perm) (simp_all add: normalized)

text \<open>What a reader holds: one document, and nothing after it.\<close>

definition reads ::
    "((yaml_Node option \<Rightarrow> goerror + string) \<Rightarrow> 'r \<Rightarrow> (goerror + wireManifest) \<times> 'r) \<Rightarrow> ('r \<Rightarrow> yaml_trailing) \<Rightarrow>
     'r option \<Rightarrow> wireScenario \<Rightarrow> bool" where
  "reads decode trailing reader ws =
     (\<exists>r wire r1. reader = Some r \<and> decode UnmarshalYAML r = (Inr wire, r1) \<and> trailing r1 = TrailingEOF \<and>
        accepted_manifest wire ws)"

lemma Load_reads: "Load sha256 decode trailing reader = Inr l \<longleftrightarrow> (\<exists>ws. reads decode trailing reader ws \<and> l = loaded sha256 ws)"
  by (auto simp: Load_Inr reads_def)

text \<open>An evaluation does not see the order the loader chose.\<close>

lemma evaluate_loaded:
  "EvaluateAt (normalizeRequirements sc) ps pol now = Inr act \<longleftrightarrow> EvaluateAt sc ps pol now = Inr act"
proof
  show "EvaluateAt (normalizeRequirements sc) ps pol now = Inr act \<Longrightarrow> EvaluateAt sc ps pol now = Inr act"
    by (rule readiness_order_independent [of "normalizeRequirements sc"]) (simp_all add: normalized)
  show "EvaluateAt sc ps pol now = Inr act \<Longrightarrow> EvaluateAt (normalizeRequirements sc) ps pol now = Inr act"
    by (rule readiness_order_independent [of sc]) (simp_all add: normalized)
qed

text \<open>C23. Loading is exact: it succeeds if and only if the reader holds one document of schema v1 whose scenario has
  a version and a valid selection, and then returns that selection, in canonical order, still valid, and
  evaluated as the one written down at any instant; every failure is an \<^verbatim>\<open>InvalidInput\<close>.\<close>

theorem load_exact:
  "case Load sha256 decode trailing reader of
     Inl err \<Rightarrow> IsCode err InvalidInput \<and> (\<nexists>ws. reads decode trailing reader ws)
   | Inr l \<Rightarrow> (\<exists>ws. reads decode trailing reader ws \<and> ls_Version l = ws_Version ws \<and>
       ValidateScenario (ls_Requirements l) = None \<and> sc_ID (ls_Requirements l) = ws_ID ws \<and>
       mset (selections (ls_Requirements l)) = mset (selections (declared ws)) \<and>
       sorted (map required_key (sc_Required (ls_Requirements l))) \<and>
       sorted (map optional_key (sc_Optional (ls_Requirements l))) \<and>
       (\<forall>ps pol now act. EvaluateAt (ls_Requirements l) ps pol now = Inr act \<longleftrightarrow>
          EvaluateAt (declared ws) ps pol now = Inr act))"
proof (cases "Load sha256 decode trailing reader")
  case (Inl err)
  then have "\<nexists>ws. reads decode trailing reader ws"
    by (metis Load_reads sum.distinct(1))
  with Inl show ?thesis
    by (simp add: Load_Inl)
next
  case (Inr l)
  then obtain ws where ws: "reads decode trailing reader ws" "l = loaded sha256 ws"
    by (auto simp: Load_reads)
  then have "scenario_ok (declared ws)"
    by (auto simp: reads_def accepted_manifest_def)
  with ws show ?thesis
    unfolding Inr by (intro sum.case [THEN iffD2] exI [of _ ws])
      (simp add: loaded_def ValidateScenario_None normalized_ok evaluate_loaded selections_def normalized,
       simp add: normalizeRequirements_def declared_def)
qed

text \<open>C24. The hash identifies the selection: of two manifests with plain ASCII identifiers that load, with a digest
  that does not collide on their two canonical texts, the hashes agree if and only if the loaded scenarios
  do, and that is so if and only if the manifests name the same scenario, version and entries, in any
  order.\<close>

theorem hash_identifies_selection:
  assumes "reads decode trailing reader ws" "reads decode trailing reader' ws'"
    and "plain_scenario (ws_Version ws) (declared ws)" "plain_scenario (ws_Version ws') (declared ws')"
    and "inj_on sha256 {canonical_text (ws_Version ws) (normalizeRequirements (declared ws)),
                        canonical_text (ws_Version ws') (normalizeRequirements (declared ws'))}"
  shows "\<exists>l l'. Load sha256 decode trailing reader = Inr l \<and> Load sha256 decode trailing reader' = Inr l' \<and>
    (ls_Hash l = ls_Hash l' \<longleftrightarrow> l = l') \<and>
    (l = l' \<longleftrightarrow> ws_ID ws = ws_ID ws' \<and> ws_Version ws = ws_Version ws' \<and>
       mset (ws_Required ws) = mset (ws_Required ws') \<and> mset (ws_Optional ws) = mset (ws_Optional ws'))"
proof -
  have plain: "plain_scenario v (normalizeRequirements sc) \<longleftrightarrow> plain_scenario v sc" for v sc
    by (simp add: plain_scenario_def normalizeRequirements_def)
  have "hashCanonical sha256 ''v1'' (ws_Version ws) (normalizeRequirements (declared ws)) =
      hashCanonical sha256 ''v1'' (ws_Version ws') (normalizeRequirements (declared ws')) \<longleftrightarrow>
      ws_Version ws = ws_Version ws' \<and> normalizeRequirements (declared ws) = normalizeRequirements (declared ws')"
    using assms(3-5) by (intro hash_eq) (simp_all add: plain)
  then have "ls_Hash (loaded sha256 ws) = ls_Hash (loaded sha256 ws') \<longleftrightarrow> loaded sha256 ws = loaded sha256 ws'"
    and "loaded sha256 ws = loaded sha256 ws' \<longleftrightarrow> ws_Version ws = ws_Version ws' \<and>
      normalizeRequirements (declared ws) = normalizeRequirements (declared ws')"
    by (auto simp: loaded_def)
  moreover have "Load sha256 decode trailing reader = Inr (loaded sha256 ws)"
    "Load sha256 decode trailing reader' = Inr (loaded sha256 ws')"
    using assms(1,2) by (auto simp: Load_reads)
  ultimately show ?thesis
    by (auto simp: declared_eq)
qed

text \<open>Two manifests with their optional entries in different orders.\<close>

definition demo_wire :: wireScenario where
  "demo_wire =
     \<lparr>ws_ID = ''welcome'', ws_Version = ''v1'',
      ws_Required = [\<lparr>wr_Capability = ''PERSON_PRESENCE'', wr_ProviderID = ''cam''\<rparr>],
      ws_Optional = [\<lparr>wo_Capability = ''VOICE_ACTIVITY'', wo_ProviderID = ''mic'', wo_Fallback = ''NO_VOICE_REPLY''\<rparr>,
                     \<lparr>wo_Capability = ''FACE_IDENTIFICATION'', wo_ProviderID = ''cam'',
                      wo_Fallback = ''ANONYMOUS_SUBJECT''\<rparr>]\<rparr>"

definition demo_decode ::
    "(yaml_Node option \<Rightarrow> goerror + string) \<Rightarrow> bool option \<Rightarrow> (goerror + wireManifest) \<times> bool option" where
  "demo_decode unmarshal r =
     (Inr \<lparr>wm_SchemaVersion = (case unmarshal (Some \<lparr>nd_Kind = ScalarNode, nd_Tag = ''!!str'', nd_Value = ''v1''\<rparr>) of
             Inl err \<Rightarrow> [] | Inr s \<Rightarrow> s),
           wm_Scenario = Some (if r = Some True then demo_wire\<lparr>ws_Optional := rev (ws_Optional demo_wire)\<rparr> else demo_wire)\<rparr>,
      None)"

definition demo_trailing :: "bool option \<Rightarrow> yaml_trailing" where
  "demo_trailing r = (if r = None then TrailingEOF else TrailingDocument)"

definition demo_sha :: "string \<Rightarrow> 8 word list" where
  "demo_sha s = map of_char s"

lemma demo_wire_ok: "scenario_ok (declared demo_wire)"
  using ValidateScenario_None [of "declared demo_wire"] by code_simp

lemma demo_reads:
  "reads demo_decode demo_trailing (Some (Some False)) demo_wire"
  "reads demo_decode demo_trailing (Some (Some True)) (demo_wire\<lparr>ws_Optional := rev (ws_Optional demo_wire)\<rparr>)"
proof -
  have "scenario_ok (declared (demo_wire\<lparr>ws_Optional := rev (ws_Optional demo_wire)\<rparr>))"
    using scenario_ok_perm [of "declared demo_wire" "declared (demo_wire\<lparr>ws_Optional := rev (ws_Optional demo_wire)\<rparr>)"]
      demo_wire_ok by (simp add: declared_def)
  moreover have "ws_Version demo_wire \<noteq> []"
    by (simp add: demo_wire_def)
  ultimately show "reads demo_decode demo_trailing (Some (Some False)) demo_wire"
    "reads demo_decode demo_trailing (Some (Some True)) (demo_wire\<lparr>ws_Optional := rev (ws_Optional demo_wire)\<rparr>)"
    using demo_wire_ok by (simp_all add: reads_def demo_decode_def demo_trailing_def accepted_manifest_def)
qed

lemma hash_identifies_selection_witness:
  "\<exists>l l'. Load demo_sha demo_decode demo_trailing (Some (Some False)) = Inr l \<and>
     Load demo_sha demo_decode demo_trailing (Some (Some True)) = Inr l' \<and> ls_Hash l = ls_Hash l' \<and> l = l'"
proof -
  have "plain_scenario (ws_Version demo_wire) (declared demo_wire)"
    "plain_scenario (ws_Version demo_wire) (declared (demo_wire\<lparr>ws_Optional := rev (ws_Optional demo_wire)\<rparr>))"
    by code_simp+
  moreover have "normalizeRequirements (declared (demo_wire\<lparr>ws_Optional := rev (ws_Optional demo_wire)\<rparr>)) =
      normalizeRequirements (declared demo_wire)"
    by (simp add: declared_eq)
  ultimately show ?thesis
    using hash_identifies_selection [OF demo_reads, of demo_sha] by (auto simp: demo_wire_def)
qed

end
