(* ===== verification/App_Run.thy ===== *)
theory App_Run
  imports Fault
begin

text \<open>
  The run of the desktop process (\<^verbatim>\<open>cmd/desktop/app.go\<close>, \<^verbatim>\<open>App.Run\<close> and \<^verbatim>\<open>run\<close>): four
  services run in goroutines, each sends its error on its own channel when it returns; \<^verbatim>\<open>run\<close> waits for
  the first of them, or for the end of its context, then stops and joins all four in a fixed order. The
  services are the environment: an event says that one of them returned, with what. The program counter stands
  at the statements where \<^verbatim>\<open>run\<close> can block.
\<close>

section \<open>State\<close>

text \<open>What \<^verbatim>\<open>http.Server.Serve\<close> returns: the sentinel \<^verbatim>\<open>ErrServerClosed\<close> or something else.\<close>

datatype serve_result = ErrServerClosed | ServeError "goerror option"

datatype app_pc =
    AppSelect
  | AppShutdown
  | AppAwaitServer
  | AppAwaitWorkers
  | AppAwaitTransport
  | AppAwaitRunner
  | AppReturned "goerror option"

text \<open>What the \<^verbatim>\<open>select\<close> took.\<close>

datatype app_cause = CauseContext goerror | CauseServer | CauseRunner | CauseWorkers | CauseTransport

text \<open>A channel of capacity one: \<open>None\<close> while its goroutine runs. The flags \<^verbatim>\<open>serverFinished\<close> and so
  on say that \<^verbatim>\<open>run\<close> has received from it.\<close>

record App_run =
  ap_pc :: app_pc
  ap_firstErr :: "goerror option"
  ap_cause :: "app_cause option"
  ap_shutdownErr :: "goerror option"
  ap_serverDone :: "serve_result option"
  ap_runnerDone :: "goerror option option"
  ap_workerDone :: "goerror option option"
  ap_transportDone :: "goerror option option"
  ap_serverFinished :: bool
  ap_runnerFinished :: bool
  ap_workerFinished :: bool
  ap_transportFinished :: bool
  ap_uiCancelled :: bool
  ap_workersCancelled :: bool
  ap_transportCancelled :: bool
  ap_runnerCancelled :: bool

record App =
  app_started :: bool

section \<open>Run\<close>

definition App_Run_begin :: "bool \<Rightarrow> App \<Rightarrow> (goerror + App_run) \<times> App" where
  "App_Run_begin ctxPresent a =
     (if \<not> ctxPresent then (Inl (New_fault InvalidInput ''run desktop app'' (Leaf ''context is required'')), a)
      else if app_started a then
        (Inl (New_fault InvalidInput ''run desktop app'' (Leaf ''desktop app may only run once'')), a)
      else (Inr \<lparr>ap_pc = AppSelect, ap_firstErr = None, ap_cause = None, ap_shutdownErr = None,
                 ap_serverDone = None, ap_runnerDone = None, ap_workerDone = None, ap_transportDone = None,
                 ap_serverFinished = False, ap_runnerFinished = False, ap_workerFinished = False,
                 ap_transportFinished = False, ap_uiCancelled = False, ap_workersCancelled = False,
                 ap_transportCancelled = False, ap_runnerCancelled = False\<rparr>,
            a\<lparr>app_started := True\<rparr>))"

datatype app_event =
    ServerReturns serve_result
  | RunnerReturns "goerror option"
  | WorkersReturn "goerror option"
  | TransportReturns "goerror option"
  | TakeContext goerror
  | TakeServer
  | TakeRunner
  | TakeWorkers
  | TakeTransport
  | ShutdownReturns "goerror option"
  | Proceed

text \<open>The errors that count for each service.\<close>

fun server_failure :: "serve_result \<Rightarrow> goerror option" where
  "server_failure ErrServerClosed = None"
| "server_failure (ServeError err) = err"

definition runner_failure :: "goerror option \<Rightarrow> goerror option" where
  "runner_failure e = (case e of None \<Rightarrow> None | Some err \<Rightarrow> if ErrIs err ContextCanceled then None else Some err)"

definition note_failure :: "goerror option \<Rightarrow> App_run \<Rightarrow> App_run" where
  "note_failure e s = (if ap_firstErr s = None then s\<lparr>ap_firstErr := e\<rparr> else s)"

text \<open>The clauses of the \<^verbatim>\<open>select\<close>; behind it \<^verbatim>\<open>run\<close> cancels the user interface and calls
  \<^verbatim>\<open>Shutdown\<close>.\<close>

fun app_select :: "app_event \<Rightarrow> App_run \<Rightarrow> App_run option" where
  "app_select (TakeContext err) s = Some (s\<lparr>ap_cause := Some (CauseContext err), ap_firstErr := Some err\<rparr>)"
| "app_select TakeServer s =
     (case ap_serverDone s of
        None \<Rightarrow> None
      | Some r \<Rightarrow> Some (s\<lparr>ap_cause := Some CauseServer, ap_serverFinished := True, ap_firstErr := server_failure r\<rparr>))"
| "app_select TakeRunner s =
     (case ap_runnerDone s of
        None \<Rightarrow> None
      | Some e \<Rightarrow> Some (s\<lparr>ap_cause := Some CauseRunner, ap_runnerFinished := True, ap_firstErr := runner_failure e\<rparr>))"
| "app_select TakeWorkers s =
     (case ap_workerDone s of
        None \<Rightarrow> None
      | Some e \<Rightarrow> Some (s\<lparr>ap_cause := Some CauseWorkers, ap_workerFinished := True, ap_firstErr := e\<rparr>))"
| "app_select TakeTransport s =
     (case ap_transportDone s of
        None \<Rightarrow> None
      | Some e \<Rightarrow> Some (s\<lparr>ap_cause := Some CauseTransport, ap_transportFinished := True, ap_firstErr := e\<rparr>))"
| "app_select _ s = None"

text \<open>The end: an interrupt is a success.\<close>

definition app_result :: "goerror option \<Rightarrow> goerror option" where
  "app_result firstErr =
     (case firstErr of None \<Rightarrow> None | Some err \<Rightarrow> if ErrIs err ContextCanceled then None else Some err)"

text \<open>The joins, in their order; each goes on when the channel has been received from or can be.\<close>

definition await_server :: "App_run \<Rightarrow> App_run option" where
  "await_server s =
     map_option (\<lambda>s1. s1\<lparr>ap_workersCancelled := True, ap_pc := AppAwaitWorkers\<rparr>)
       (if ap_serverFinished s then Some s
        else map_option (\<lambda>r. note_failure (server_failure r) (s\<lparr>ap_serverFinished := True\<rparr>)) (ap_serverDone s))"

definition await_workers :: "App_run \<Rightarrow> App_run option" where
  "await_workers s =
     map_option (\<lambda>s1. s1\<lparr>ap_transportCancelled := True, ap_pc := AppAwaitTransport\<rparr>)
       (if ap_workerFinished s then Some s
        else map_option (\<lambda>e. note_failure e (s\<lparr>ap_workerFinished := True\<rparr>)) (ap_workerDone s))"

definition await_transport :: "App_run \<Rightarrow> App_run option" where
  "await_transport s =
     map_option (\<lambda>s1. s1\<lparr>ap_runnerCancelled := True, ap_pc := AppAwaitRunner\<rparr>)
       (if ap_transportFinished s then Some s
        else map_option (\<lambda>e. note_failure e (s\<lparr>ap_transportFinished := True\<rparr>)) (ap_transportDone s))"

definition await_runner :: "App_run \<Rightarrow> App_run option" where
  "await_runner s =
     map_option (\<lambda>s1. s1\<lparr>ap_pc := AppReturned (app_result (ap_firstErr s1))\<rparr>)
       (if ap_runnerFinished s then Some s
        else map_option (\<lambda>e. note_failure (runner_failure e) (s\<lparr>ap_runnerFinished := True\<rparr>)) (ap_runnerDone s))"

text \<open>One step of \<^verbatim>\<open>run\<close>.\<close>

definition app_proceed :: "app_event \<Rightarrow> App_run \<Rightarrow> App_run option" where
  "app_proceed ev s =
     (case (ap_pc s, ev) of
        (AppSelect, _) \<Rightarrow> map_option (\<lambda>s1. s1\<lparr>ap_uiCancelled := True, ap_pc := AppShutdown\<rparr>) (app_select ev s)
      | (AppShutdown, ShutdownReturns e) \<Rightarrow> Some ((note_failure e (s\<lparr>ap_shutdownErr := e\<rparr>))\<lparr>ap_pc := AppAwaitServer\<rparr>)
      | (AppAwaitServer, Proceed) \<Rightarrow> await_server s
      | (AppAwaitWorkers, Proceed) \<Rightarrow> await_workers s
      | (AppAwaitTransport, Proceed) \<Rightarrow> await_transport s
      | (AppAwaitRunner, Proceed) \<Rightarrow> await_runner s
      | _ \<Rightarrow> None)"

text \<open>A step of the process: a service returns, once, or \<^verbatim>\<open>run\<close> goes on.\<close>

fun app_step :: "app_event \<Rightarrow> App_run \<Rightarrow> App_run option" where
  "app_step (ServerReturns r) s = (if ap_serverDone s = None then Some (s\<lparr>ap_serverDone := Some r\<rparr>) else None)"
| "app_step (RunnerReturns e) s = (if ap_runnerDone s = None then Some (s\<lparr>ap_runnerDone := Some e\<rparr>) else None)"
| "app_step (WorkersReturn e) s = (if ap_workerDone s = None then Some (s\<lparr>ap_workerDone := Some e\<rparr>) else None)"
| "app_step (TransportReturns e) s =
     (if ap_transportDone s = None then Some (s\<lparr>ap_transportDone := Some e\<rparr>) else None)"
| "app_step ev s = app_proceed ev s"

fun app_steps :: "app_event list \<Rightarrow> App_run \<Rightarrow> App_run option" where
  "app_steps [] s = Some s"
| "app_steps (ev # evs) s = (case app_step ev s of None \<Rightarrow> None | Some s' \<Rightarrow> app_steps evs s')"

section \<open>Invariant\<close>

fun app_level :: "app_pc \<Rightarrow> nat" where
  "app_level AppSelect = 0"
| "app_level AppShutdown = 1"
| "app_level AppAwaitServer = 2"
| "app_level AppAwaitWorkers = 3"
| "app_level AppAwaitTransport = 4"
| "app_level AppAwaitRunner = 5"
| "app_level (AppReturned r) = 6"

fun first_failure :: "goerror option list \<Rightarrow> goerror option" where
  "first_failure [] = None"
| "first_failure (e # es) = (if e = None then first_failure es else e)"

lemma first_failure_append: "first_failure (es @ fs) = (if first_failure es = None then first_failure fs else first_failure es)"
  by (induction es) auto

lemma first_failure_None: "first_failure (es @ [None]) = first_failure es"
  by (induction es) auto

lemma first_failure_repeat: "e \<in> set es \<Longrightarrow> first_failure (es @ [e]) = first_failure es"
  by (induction es) (auto simp: first_failure_None)

text \<open>What each service that returned reported, as \<^verbatim>\<open>run\<close> weighs it.\<close>

definition serve_report :: "serve_result option \<Rightarrow> goerror option" where
  "serve_report d = (case d of None \<Rightarrow> None | Some r \<Rightarrow> server_failure r)"

definition done_report :: "goerror option option \<Rightarrow> goerror option" where
  "done_report d = (case d of None \<Rightarrow> None | Some e \<Rightarrow> e)"

definition runner_report :: "goerror option option \<Rightarrow> goerror option" where
  "runner_report d = (case d of None \<Rightarrow> None | Some e \<Rightarrow> runner_failure e)"

definition cause_report :: "App_run \<Rightarrow> goerror option" where
  "cause_report s =
     (case ap_cause s of
        None \<Rightarrow> None
      | Some (CauseContext err) \<Rightarrow> Some err
      | Some CauseServer \<Rightarrow> serve_report (ap_serverDone s)
      | Some CauseRunner \<Rightarrow> runner_report (ap_runnerDone s)
      | Some CauseWorkers \<Rightarrow> done_report (ap_workerDone s)
      | Some CauseTransport \<Rightarrow> done_report (ap_transportDone s))"

text \<open>The reports seen when the program counter stands at a level, in the order in which they count.\<close>

definition reports :: "nat \<Rightarrow> App_run \<Rightarrow> goerror option list" where
  "reports n s =
     take n [cause_report s, ap_shutdownErr s, serve_report (ap_serverDone s), done_report (ap_workerDone s),
             done_report (ap_transportDone s), runner_report (ap_runnerDone s)]"

definition flags_ok :: "App_run \<Rightarrow> bool" where
  "flags_ok s =
     (let n = app_level (ap_pc s) in
      (ap_uiCancelled s \<longleftrightarrow> 1 \<le> n) \<and> (ap_workersCancelled s \<longleftrightarrow> 3 \<le> n) \<and>
      (ap_transportCancelled s \<longleftrightarrow> 4 \<le> n) \<and> (ap_runnerCancelled s \<longleftrightarrow> 5 \<le> n) \<and>
      (ap_cause s = None \<longleftrightarrow> n = 0) \<and>
      (ap_serverFinished s \<longleftrightarrow> ap_cause s = Some CauseServer \<or> 3 \<le> n) \<and>
      (ap_workerFinished s \<longleftrightarrow> ap_cause s = Some CauseWorkers \<or> 4 \<le> n) \<and>
      (ap_transportFinished s \<longleftrightarrow> ap_cause s = Some CauseTransport \<or> 5 \<le> n) \<and>
      (ap_runnerFinished s \<longleftrightarrow> ap_cause s = Some CauseRunner \<or> 6 \<le> n) \<and>
      (ap_serverFinished s \<longrightarrow> ap_serverDone s \<noteq> None) \<and> (ap_workerFinished s \<longrightarrow> ap_workerDone s \<noteq> None) \<and>
      (ap_transportFinished s \<longrightarrow> ap_transportDone s \<noteq> None) \<and> (ap_runnerFinished s \<longrightarrow> ap_runnerDone s \<noteq> None))"

definition app_ok :: "App_run \<Rightarrow> bool" where
  "app_ok s =
     (flags_ok s \<and> ap_firstErr s = first_failure (reports (app_level (ap_pc s)) s) \<and>
      (\<forall>r. ap_pc s = AppReturned r \<longrightarrow> r = app_result (ap_firstErr s)))"

lemma app_ok_begin: "App_Run_begin ctx a = (Inr s, a') \<Longrightarrow> app_ok s \<and> ap_pc s = AppSelect"
  by (auto simp: App_Run_begin_def app_ok_def flags_ok_def reports_def split: if_splits)

lemma cause_report_frame [simp]:
  "ap_cause s \<noteq> Some CauseServer \<Longrightarrow> cause_report (s\<lparr>ap_serverDone := a\<rparr>) = cause_report s"
  "ap_cause s \<noteq> Some CauseRunner \<Longrightarrow> cause_report (s\<lparr>ap_runnerDone := b\<rparr>) = cause_report s"
  "ap_cause s \<noteq> Some CauseWorkers \<Longrightarrow> cause_report (s\<lparr>ap_workerDone := b\<rparr>) = cause_report s"
  "ap_cause s \<noteq> Some CauseTransport \<Longrightarrow> cause_report (s\<lparr>ap_transportDone := b\<rparr>) = cause_report s"
  by (simp_all add: cause_report_def split: option.splits app_cause.splits)

lemma flags_okD:
  assumes "flags_ok s"
  shows "ap_serverDone s = None \<Longrightarrow> ap_cause s \<noteq> Some CauseServer \<and> app_level (ap_pc s) < 3"
    "ap_workerDone s = None \<Longrightarrow> ap_cause s \<noteq> Some CauseWorkers \<and> app_level (ap_pc s) < 4"
    "ap_transportDone s = None \<Longrightarrow> ap_cause s \<noteq> Some CauseTransport \<and> app_level (ap_pc s) < 5"
    "ap_runnerDone s = None \<Longrightarrow> ap_cause s \<noteq> Some CauseRunner \<and> app_level (ap_pc s) < 6"
  using assms unfolding flags_ok_def Let_def by (metis not_le)+

lemma app_level_cases:
  "app_level pc < 3 \<Longrightarrow> app_level pc \<in> {0, 1, 2}" "app_level pc < 4 \<Longrightarrow> app_level pc \<in> {0, 1, 2, 3}"
  "app_level pc < 5 \<Longrightarrow> app_level pc \<in> {0, 1, 2, 3, 4}" "app_level pc < 6 \<Longrightarrow> app_level pc \<in> {0, 1, 2, 3, 4, 5}"
  by auto

text \<open>A service returns: nothing that was reported changes.\<close>

lemma reports_environment:
  assumes "flags_ok s"
  shows "ap_serverDone s = None \<Longrightarrow> reports (app_level (ap_pc s)) (s\<lparr>ap_serverDone := Some r\<rparr>) = reports (app_level (ap_pc s)) s"
    "ap_runnerDone s = None \<Longrightarrow> reports (app_level (ap_pc s)) (s\<lparr>ap_runnerDone := Some e\<rparr>) = reports (app_level (ap_pc s)) s"
    "ap_workerDone s = None \<Longrightarrow> reports (app_level (ap_pc s)) (s\<lparr>ap_workerDone := Some e\<rparr>) = reports (app_level (ap_pc s)) s"
    "ap_transportDone s = None \<Longrightarrow> reports (app_level (ap_pc s)) (s\<lparr>ap_transportDone := Some e\<rparr>) = reports (app_level (ap_pc s)) s"
  using flags_okD [OF assms] app_level_cases [of "ap_pc s"] by (auto simp: reports_def)

lemma flags_environment:
  assumes "flags_ok s"
  shows "flags_ok (s\<lparr>ap_serverDone := Some r\<rparr>)" "flags_ok (s\<lparr>ap_runnerDone := Some e\<rparr>)"
    "flags_ok (s\<lparr>ap_workerDone := Some e\<rparr>)" "flags_ok (s\<lparr>ap_transportDone := Some e\<rparr>)"
  using assms unfolding flags_ok_def Let_def by simp_all

lemma app_ok_environment:
  assumes "app_ok s"
  shows "ap_serverDone s = None \<Longrightarrow> app_ok (s\<lparr>ap_serverDone := Some r\<rparr>)"
    "ap_runnerDone s = None \<Longrightarrow> app_ok (s\<lparr>ap_runnerDone := Some e\<rparr>)"
    "ap_workerDone s = None \<Longrightarrow> app_ok (s\<lparr>ap_workerDone := Some e\<rparr>)"
    "ap_transportDone s = None \<Longrightarrow> app_ok (s\<lparr>ap_transportDone := Some e\<rparr>)"
  using assms by (auto simp: app_ok_def flags_environment reports_environment)

text \<open>The \<^verbatim>\<open>select\<close> makes the first report.\<close>

lemma app_ok_select:
  assumes "app_ok s" "ap_pc s = AppSelect" "app_select ev s = Some s1"
  shows "app_ok (s1\<lparr>ap_uiCancelled := True, ap_pc := AppShutdown\<rparr>)"
proof -
  have "\<not> ap_workersCancelled s \<and> \<not> ap_transportCancelled s \<and> \<not> ap_runnerCancelled s \<and>
      \<not> ap_serverFinished s \<and> \<not> ap_workerFinished s \<and> \<not> ap_transportFinished s \<and> \<not> ap_runnerFinished s"
    using assms(1,2) by (simp add: app_ok_def flags_ok_def Let_def)
  with assms(3) show ?thesis
    by (cases ev) (auto simp: app_ok_def flags_ok_def reports_def cause_report_def serve_report_def done_report_def
        runner_report_def split: option.splits)
qed

text \<open>A join appends a report, or repeats the one that came first.\<close>

lemma note_failure_frame [simp]:
  "ap_pc (note_failure e s) = ap_pc s" "ap_cause (note_failure e s) = ap_cause s"
  "ap_shutdownErr (note_failure e s) = ap_shutdownErr s" "ap_serverDone (note_failure e s) = ap_serverDone s"
  "ap_runnerDone (note_failure e s) = ap_runnerDone s" "ap_workerDone (note_failure e s) = ap_workerDone s"
  "ap_transportDone (note_failure e s) = ap_transportDone s" "ap_serverFinished (note_failure e s) = ap_serverFinished s"
  "ap_runnerFinished (note_failure e s) = ap_runnerFinished s" "ap_workerFinished (note_failure e s) = ap_workerFinished s"
  "ap_transportFinished (note_failure e s) = ap_transportFinished s" "ap_uiCancelled (note_failure e s) = ap_uiCancelled s"
  "ap_workersCancelled (note_failure e s) = ap_workersCancelled s"
  "ap_transportCancelled (note_failure e s) = ap_transportCancelled s"
  "ap_runnerCancelled (note_failure e s) = ap_runnerCancelled s"
  "ap_firstErr (note_failure e s) = (if ap_firstErr s = None then e else ap_firstErr s)"
  by (simp_all add: note_failure_def)

lemma reports_cong:
  assumes "ap_cause s' = ap_cause s" "ap_shutdownErr s' = ap_shutdownErr s" "ap_serverDone s' = ap_serverDone s"
    "ap_workerDone s' = ap_workerDone s" "ap_transportDone s' = ap_transportDone s" "ap_runnerDone s' = ap_runnerDone s"
  shows "cause_report s' = cause_report s" "reports n s' = reports n s"
proof -
  show "cause_report s' = cause_report s"
    using assms by (simp add: cause_report_def split: option.splits app_cause.splits)
  with assms show "reports n s' = reports n s"
    by (simp add: reports_def)
qed

lemma reports_Suc:
  "reports 3 s = reports 2 s @ [serve_report (ap_serverDone s)]"
  "reports 4 s = reports 3 s @ [done_report (ap_workerDone s)]"
  "reports 5 s = reports 4 s @ [done_report (ap_transportDone s)]"
  "reports 6 s = reports 5 s @ [runner_report (ap_runnerDone s)]"
  by (simp_all add: reports_def)

lemma join_report:
  assumes "first = first_failure (reports n s)" "reports m s = reports n s @ [e]" "0 < n"
    and "finished \<Longrightarrow> e = cause_report s"
  shows "(if finished \<or> first \<noteq> None then first else e) = first_failure (reports m s)"
proof (cases finished)
  case True
  then have "e \<in> set (reports n s)"
    using assms(3,4) by (cases n) (simp_all add: reports_def)
  with True assms(1,2) show ?thesis
    by (simp add: first_failure_repeat)
qed (use assms in \<open>simp add: first_failure_append\<close>)

lemma await_server_ok:
  assumes "app_ok s" "ap_pc s = AppAwaitServer" "await_server s = Some s'"
  shows "app_ok s'"
proof -
  have ok: "flags_ok s" "ap_firstErr s = first_failure (reports 2 s)"
    using assms(1,2) by (simp_all add: app_ok_def)
  have finished: "ap_serverFinished s \<longleftrightarrow> ap_cause s = Some CauseServer" "ap_serverFinished s \<Longrightarrow> ap_serverDone s \<noteq> None"
    using ok(1) assms(2) unfolding flags_ok_def Let_def by simp_all
  define x where "x = (if ap_serverFinished s \<or> ap_firstErr s \<noteq> None then ap_firstErr s else serve_report (ap_serverDone s))"
  have s': "s' = s\<lparr>ap_firstErr := x, ap_serverFinished := True, ap_workersCancelled := True, ap_pc := AppAwaitWorkers\<rparr>" and returned: "ap_serverDone s \<noteq> None"
    using assms(3) finished(2)
    by (cases s; auto simp: await_server_def note_failure_def serve_report_def x_def split: if_splits)+
  have "flags_ok s'"
    using ok(1) assms(2) returned unfolding s' flags_ok_def Let_def by simp
  moreover have "reports 3 s' = reports 3 s"
    unfolding s' by (intro reports_cong) simp_all
  moreover have "x = first_failure (reports 3 s)"
    unfolding x_def using finished(1)
    by (intro join_report [OF ok(2) reports_Suc(1)]) (simp_all add: cause_report_def)
  ultimately show ?thesis
    by (simp add: app_ok_def s')
qed

lemma await_workers_ok:
  assumes "app_ok s" "ap_pc s = AppAwaitWorkers" "await_workers s = Some s'"
  shows "app_ok s'"
proof -
  have ok: "flags_ok s" "ap_firstErr s = first_failure (reports 3 s)"
    using assms(1,2) by (simp_all add: app_ok_def)
  have finished: "ap_workerFinished s \<longleftrightarrow> ap_cause s = Some CauseWorkers" "ap_workerFinished s \<Longrightarrow> ap_workerDone s \<noteq> None"
    using ok(1) assms(2) unfolding flags_ok_def Let_def by simp_all
  define x where "x = (if ap_workerFinished s \<or> ap_firstErr s \<noteq> None then ap_firstErr s else done_report (ap_workerDone s))"
  have s': "s' = s\<lparr>ap_firstErr := x, ap_workerFinished := True, ap_transportCancelled := True, ap_pc := AppAwaitTransport\<rparr>" and returned: "ap_workerDone s \<noteq> None"
    using assms(3) finished(2)
    by (cases s; auto simp: await_workers_def note_failure_def done_report_def x_def split: if_splits)+
  have "flags_ok s'"
    using ok(1) assms(2) returned unfolding s' flags_ok_def Let_def by simp
  moreover have "reports 4 s' = reports 4 s"
    unfolding s' by (intro reports_cong) simp_all
  moreover have "x = first_failure (reports 4 s)"
    unfolding x_def using finished(1)
    by (intro join_report [OF ok(2) reports_Suc(2)]) (simp_all add: cause_report_def)
  ultimately show ?thesis
    by (simp add: app_ok_def s')
qed

lemma await_transport_ok:
  assumes "app_ok s" "ap_pc s = AppAwaitTransport" "await_transport s = Some s'"
  shows "app_ok s'"
proof -
  have ok: "flags_ok s" "ap_firstErr s = first_failure (reports 4 s)"
    using assms(1,2) by (simp_all add: app_ok_def)
  have finished: "ap_transportFinished s \<longleftrightarrow> ap_cause s = Some CauseTransport" "ap_transportFinished s \<Longrightarrow> ap_transportDone s \<noteq> None"
    using ok(1) assms(2) unfolding flags_ok_def Let_def by simp_all
  define x where "x = (if ap_transportFinished s \<or> ap_firstErr s \<noteq> None then ap_firstErr s else done_report (ap_transportDone s))"
  have s': "s' = s\<lparr>ap_firstErr := x, ap_transportFinished := True, ap_runnerCancelled := True, ap_pc := AppAwaitRunner\<rparr>" and returned: "ap_transportDone s \<noteq> None"
    using assms(3) finished(2)
    by (cases s; auto simp: await_transport_def note_failure_def done_report_def x_def split: if_splits)+
  have "flags_ok s'"
    using ok(1) assms(2) returned unfolding s' flags_ok_def Let_def by simp
  moreover have "reports 5 s' = reports 5 s"
    unfolding s' by (intro reports_cong) simp_all
  moreover have "x = first_failure (reports 5 s)"
    unfolding x_def using finished(1)
    by (intro join_report [OF ok(2) reports_Suc(3)]) (simp_all add: cause_report_def)
  ultimately show ?thesis
    by (simp add: app_ok_def s')
qed

lemma await_runner_ok:
  assumes "app_ok s" "ap_pc s = AppAwaitRunner" "await_runner s = Some s'"
  shows "app_ok s'"
proof -
  have ok: "flags_ok s" "ap_firstErr s = first_failure (reports 5 s)"
    using assms(1,2) by (simp_all add: app_ok_def)
  have finished: "ap_runnerFinished s \<longleftrightarrow> ap_cause s = Some CauseRunner" "ap_runnerFinished s \<Longrightarrow> ap_runnerDone s \<noteq> None"
    using ok(1) assms(2) unfolding flags_ok_def Let_def by simp_all
  define x where "x = (if ap_runnerFinished s \<or> ap_firstErr s \<noteq> None then ap_firstErr s else runner_report (ap_runnerDone s))"
  have s': "s' = s\<lparr>ap_firstErr := x, ap_runnerFinished := True, ap_pc := AppReturned (app_result x)\<rparr>" and returned: "ap_runnerDone s \<noteq> None"
    using assms(3) finished(2)
    by (cases s; auto simp: await_runner_def note_failure_def runner_report_def x_def split: if_splits)+
  have "flags_ok s'"
    using ok(1) assms(2) returned unfolding s' flags_ok_def Let_def by simp
  moreover have "reports 6 s' = reports 6 s"
    unfolding s' by (intro reports_cong) simp_all
  moreover have "x = first_failure (reports 6 s)"
    unfolding x_def using finished(1)
    by (intro join_report [OF ok(2) reports_Suc(4)]) (simp_all add: cause_report_def)
  ultimately show ?thesis
    by (simp add: app_ok_def s')
qed

lemma app_shutdown_ok:
  assumes "app_ok s" "ap_pc s = AppShutdown"
  shows "app_ok ((note_failure e (s\<lparr>ap_shutdownErr := e\<rparr>))\<lparr>ap_pc := AppAwaitServer\<rparr>)" (is "app_ok ?s'")
proof -
  have ok: "flags_ok s" "ap_firstErr s = first_failure [cause_report s]"
    using assms by (simp_all add: app_ok_def reports_def)
  have "cause_report ?s' = cause_report s"
    by (simp add: cause_report_def split: option.splits app_cause.splits)
  then have "ap_firstErr ?s' = first_failure (reports 2 ?s')"
    using ok(2) by (simp add: reports_def)
  moreover have "flags_ok ?s'"
    using ok(1) assms(2) by (simp add: flags_ok_def Let_def)
  ultimately show ?thesis
    by (simp add: app_ok_def)
qed

lemma app_proceed_ok:
  assumes "app_ok s" "app_proceed ev s = Some s'"
  shows "app_ok s'"
proof (cases "ap_pc s")
  case AppSelect
  with assms show ?thesis
    by (auto simp: app_proceed_def intro: app_ok_select)
qed (use assms in \<open>auto simp: app_proceed_def split: app_event.splits
    intro: app_shutdown_ok await_server_ok await_workers_ok await_transport_ok await_runner_ok\<close>)

lemma app_step_ok: "app_ok s \<Longrightarrow> app_step ev s = Some s' \<Longrightarrow> app_ok s'"
  by (cases ev) (auto split: if_splits intro: app_ok_environment app_proceed_ok)

lemma app_steps_ok: "app_steps evs s = Some s' \<Longrightarrow> app_ok s \<Longrightarrow> app_ok s'"
  by (induction evs s rule: app_steps.induct) (auto split: option.splits dest: app_step_ok)

section \<open>Progress\<close>

definition all_returned :: "App_run \<Rightarrow> bool" where
  "all_returned s =
     (ap_serverDone s \<noteq> None \<and> ap_workerDone s \<noteq> None \<and> ap_transportDone s \<noteq> None \<and> ap_runnerDone s \<noteq> None)"

text \<open>What \<^verbatim>\<open>run\<close> waits for was told to stop.\<close>

definition told_pending :: "App_run \<Rightarrow> bool" where
  "told_pending s =
     (case ap_pc s of
        AppAwaitServer \<Rightarrow> ap_uiCancelled s \<and> ap_serverDone s = None
      | AppAwaitWorkers \<Rightarrow> ap_workersCancelled s \<and> ap_workerDone s = None
      | AppAwaitTransport \<Rightarrow> ap_transportCancelled s \<and> ap_transportDone s = None
      | AppAwaitRunner \<Rightarrow> ap_runnerCancelled s \<and> ap_runnerDone s = None
      | _ \<Rightarrow> False)"

lemma app_proceed_level:
  assumes "app_proceed ev s = Some s'"
  shows "app_level (ap_pc s') = Suc (app_level (ap_pc s))"
  using assms
  by (auto simp: app_proceed_def await_server_def await_workers_def await_transport_def await_runner_def
      split: app_pc.splits app_event.splits if_splits)

lemma app_step_Proceed: "app_step Proceed s = app_proceed Proceed s" "app_step (ShutdownReturns e) s = app_proceed (ShutdownReturns e) s"
  by simp_all

lemma flags_facts:
  assumes "flags_ok s"
  shows "ap_uiCancelled s \<longleftrightarrow> 1 \<le> app_level (ap_pc s)" "ap_workersCancelled s \<longleftrightarrow> 3 \<le> app_level (ap_pc s)"
    "ap_transportCancelled s \<longleftrightarrow> 4 \<le> app_level (ap_pc s)" "ap_runnerCancelled s \<longleftrightarrow> 5 \<le> app_level (ap_pc s)"
    "3 \<le> app_level (ap_pc s) \<Longrightarrow> ap_serverDone s \<noteq> None" "4 \<le> app_level (ap_pc s) \<Longrightarrow> ap_workerDone s \<noteq> None"
    "5 \<le> app_level (ap_pc s) \<Longrightarrow> ap_transportDone s \<noteq> None" "6 \<le> app_level (ap_pc s) \<Longrightarrow> ap_runnerDone s \<noteq> None"
  using assms unfolding flags_ok_def Let_def by metis+

lemma cause_level:
  assumes "app_ok s" "ap_cause s \<noteq> None"
  shows "0 < app_level (ap_pc s)" "ap_pc s \<noteq> AppSelect"
proof -
  show "0 < app_level (ap_pc s)"
    using assms unfolding app_ok_def flags_ok_def Let_def by blast
  then show "ap_pc s \<noteq> AppSelect"
    by auto
qed

lemma app_progress:
  assumes "app_ok s" "ap_cause s \<noteq> None"
  obtains r where "ap_pc s = AppReturned r"
  | "told_pending s"
  | ev s' where "ev \<in> {Proceed, ShutdownReturns None}" "app_proceed ev s = Some s'"
proof -
  have flags: "flags_ok s"
    using assms(1) by (simp add: app_ok_def)
  show thesis
  proof (cases "ap_pc s")
    case AppSelect
    with assms show thesis
      by (simp add: app_ok_def flags_ok_def Let_def)
  next
    case AppShutdown
    then show thesis
      using that(3) [of "ShutdownReturns None"] by (simp add: app_proceed_def)
  next
    case (AppReturned r)
    then show thesis
      by (rule that(1))
  next
    case AppAwaitServer
    show thesis
    proof (cases "await_server s")
      case None
      with AppAwaitServer have "told_pending s"
        using flags_facts [OF flags] by (auto simp: await_server_def told_pending_def split: if_splits)
      then show thesis
        by (rule that(2))
    next
      case (Some s')
      with AppAwaitServer show thesis
        using that(3) [of Proceed s'] by (simp add: app_proceed_def)
    qed
  next
    case AppAwaitWorkers
    show thesis
    proof (cases "await_workers s")
      case None
      with AppAwaitWorkers have "told_pending s"
        using flags_facts [OF flags] by (auto simp: await_workers_def told_pending_def split: if_splits)
      then show thesis
        by (rule that(2))
    next
      case (Some s')
      with AppAwaitWorkers show thesis
        using that(3) [of Proceed s'] by (simp add: app_proceed_def)
    qed
  next
    case AppAwaitTransport
    show thesis
    proof (cases "await_transport s")
      case None
      with AppAwaitTransport have "told_pending s"
        using flags_facts [OF flags] by (auto simp: await_transport_def told_pending_def split: if_splits)
      then show thesis
        by (rule that(2))
    next
      case (Some s')
      with AppAwaitTransport show thesis
        using that(3) [of Proceed s'] by (simp add: app_proceed_def)
    qed
  next
    case AppAwaitRunner
    show thesis
    proof (cases "await_runner s")
      case None
      with AppAwaitRunner have "told_pending s"
        using flags_facts [OF flags] by (auto simp: await_runner_def told_pending_def split: if_splits)
      then show thesis
        by (rule that(2))
    next
      case (Some s')
      with AppAwaitRunner show thesis
        using that(3) [of Proceed s'] by (simp add: app_proceed_def)
    qed
  qed
qed

lemma app_proceed_frame:
  assumes "app_proceed ev s = Some s'" "ap_pc s \<noteq> AppSelect"
  shows "all_returned s' \<longleftrightarrow> all_returned s" "ap_cause s' = ap_cause s"
  using assms
  by (auto simp: app_proceed_def await_server_def await_workers_def await_transport_def await_runner_def all_returned_def
      split: app_pc.splits app_event.splits if_splits)

lemma app_returns:
  assumes "app_ok s" "ap_cause s \<noteq> None" "all_returned s"
  shows "\<exists>evs s' r. length evs = 6 - app_level (ap_pc s) \<and> app_steps evs s = Some s' \<and> ap_pc s' = AppReturned r"
  using assms
proof (induction "6 - app_level (ap_pc s)" arbitrary: s)
  case 0
  then have "app_level (ap_pc s) = 6"
    by (cases "ap_pc s") simp_all
  then obtain r where "ap_pc s = AppReturned r"
    by (cases "ap_pc s") simp_all
  then show ?case
    by (intro exI [of _ "[]"]) simp
next
  case (Suc n)
  have "\<not> told_pending s" "\<And>r. ap_pc s \<noteq> AppReturned r"
    using Suc.hyps(2) Suc.prems(3) by (auto simp: told_pending_def all_returned_def split: app_pc.splits)
  then obtain ev s1 where step: "ev \<in> {Proceed, ShutdownReturns None}" "app_proceed ev s = Some s1"
    using app_progress [OF Suc.prems(1,2)] by metis
  note frame = app_proceed_frame [OF step(2) cause_level(2) [OF Suc.prems(1,2)]]
  have "ap_cause s1 \<noteq> None" "all_returned s1"
    unfolding frame by (rule Suc.prems)+
  moreover have "app_ok s1"
    by (rule app_proceed_ok [OF Suc.prems(1) step(2)])
  moreover have "n = 6 - app_level (ap_pc s1)"
    using Suc.hyps(2) unfolding app_proceed_level [OF step(2)] by arith
  ultimately obtain evs s' r where "length evs = n" "app_steps evs s1 = Some s'" "ap_pc s' = AppReturned r"
    using Suc.hyps(1) [of s1] by blast
  moreover from step have "app_step ev s = Some s1"
    by (auto simp: app_step_Proceed)
  ultimately show ?case
    using Suc.hyps(2) by (intro exI [of _ "ev # evs"] exI [of _ s'] exI [of _ r]) (simp del: app_step.simps)
qed

section \<open>Properties\<close>

text \<open>C19. The desktop stops in order: the workers are told to stop only after the panel server has returned, the
  transport of the workers only after the workers have, and the runner, whose end stops the avatar, only
  after all of them. When \<^verbatim>\<open>Run\<close> returns, nothing is left running, and the result is the first report
  in that order, nil when that is an interrupt.\<close>

theorem app_stops_in_order:
  assumes "App_Run_begin True a = (Inr s0, a')" "app_steps evs s0 = Some s"
  shows "(ap_workersCancelled s \<longrightarrow> ap_uiCancelled s \<and> ap_serverDone s \<noteq> None) \<and>
    (ap_transportCancelled s \<longrightarrow> ap_workersCancelled s \<and> ap_workerDone s \<noteq> None) \<and>
    (ap_runnerCancelled s \<longrightarrow> ap_transportCancelled s \<and> ap_transportDone s \<noteq> None) \<and>
    (\<forall>r. ap_pc s = AppReturned r \<longrightarrow> ap_runnerCancelled s \<and> all_returned s \<and>
       r = app_result (first_failure [cause_report s, ap_shutdownErr s, serve_report (ap_serverDone s),
              done_report (ap_workerDone s), done_report (ap_transportDone s), runner_report (ap_runnerDone s)]))"
proof -
  have ok: "app_ok s"
    using app_steps_ok [OF assms(2)] app_ok_begin [OF assms(1)] by blast
  then have "ap_pc s = AppReturned r \<Longrightarrow> reports 6 s = [cause_report s, ap_shutdownErr s, serve_report (ap_serverDone s),
      done_report (ap_workerDone s), done_report (ap_transportDone s), runner_report (ap_runnerDone s)] \<and>
      r = app_result (first_failure (reports 6 s))" for r
    by (simp add: app_ok_def reports_def)
  moreover have flags: "flags_ok s"
    using ok by (simp add: app_ok_def)
  have "ap_workersCancelled s \<Longrightarrow> ap_uiCancelled s \<and> ap_serverDone s \<noteq> None"
    "ap_transportCancelled s \<Longrightarrow> ap_workersCancelled s \<and> ap_workerDone s \<noteq> None"
    "ap_runnerCancelled s \<Longrightarrow> ap_transportCancelled s \<and> ap_transportDone s \<noteq> None"
    using flags_facts [OF flags] by linarith+
  moreover have "ap_pc s = AppReturned r \<Longrightarrow> ap_runnerCancelled s \<and> all_returned s" for r
    using flags_facts [OF flags] by (simp add: all_returned_def)
  ultimately show ?thesis
    by metis
qed

text \<open>C20. Once a service ended or the process was interrupted, \<^verbatim>\<open>Run\<close> returns: every step takes it one join
  further, it only ever waits for a service that it told to stop, and as soon as all four services have
  returned it needs at most five steps more.\<close>

theorem app_run_returns:
  assumes "App_Run_begin True a = (Inr s0, a')" "app_steps evs s0 = Some s" "ap_cause s \<noteq> None"
  shows "((\<exists>r. ap_pc s = AppReturned r) \<or> told_pending s \<or>
      (\<exists>ev s'. app_proceed ev s = Some s' \<and> app_level (ap_pc s') = Suc (app_level (ap_pc s)))) \<and>
    (all_returned s \<longrightarrow> (\<exists>evs' s' r. length evs' \<le> 5 \<and> app_steps evs' s = Some s' \<and> ap_pc s' = AppReturned r))"
proof (intro conjI impI)
  have ok: "app_ok s"
    using app_steps_ok [OF assms(2)] app_ok_begin [OF assms(1)] by blast
  show "(\<exists>r. ap_pc s = AppReturned r) \<or> told_pending s \<or>
      (\<exists>ev s'. app_proceed ev s = Some s' \<and> app_level (ap_pc s') = Suc (app_level (ap_pc s)))"
    using app_progress [OF ok assms(3)] app_proceed_level by metis
  have "6 - app_level (ap_pc s) \<le> 5"
    using cause_level(1) [OF ok assms(3)] by simp
  then show "all_returned s \<Longrightarrow> \<exists>evs' s' r. length evs' \<le> 5 \<and> app_steps evs' s = Some s' \<and> ap_pc s' = AppReturned r"
    using app_returns [OF ok assms(3)] by metis
qed

text \<open>The process is interrupted, and the runner cannot stop the avatar: the failure is lost, since the interrupt
  was the first report.\<close>

definition demo_stop_failure :: goerror where
  "demo_stop_failure = New_fault Unavailable ''stop actions during lifecycle shutdown'' (Leaf ''avatar'')"

definition demo_app_events :: "app_event list" where
  "demo_app_events =
     [TakeContext ContextCanceled, ShutdownReturns None, ServerReturns ErrServerClosed, Proceed, WorkersReturn None,
      Proceed, TransportReturns None, Proceed, RunnerReturns (Some demo_stop_failure), Proceed]"

lemma demo_app_run:
  assumes "App_Run_begin True \<lparr>app_started = False\<rparr> = (Inr s0, a')"
  shows "\<exists>s. app_steps demo_app_events s0 = Some s \<and> ap_pc s = AppReturned None"
    and "\<exists>s. app_steps (take 9 demo_app_events) s0 = Some s \<and> ap_pc s = AppAwaitRunner \<and>
      ap_cause s = Some (CauseContext ContextCanceled) \<and> all_returned s"
  using assms
  by (auto simp: App_Run_begin_def demo_app_events_def app_proceed_def await_server_def await_workers_def
      await_transport_def await_runner_def note_failure_def runner_failure_def app_result_def all_returned_def
      demo_stop_failure_def)

lemma app_stops_in_order_witness:
  "\<exists>a a' s0 s. App_Run_begin True a = (Inr s0, a') \<and> app_steps demo_app_events s0 = Some s \<and>
     ap_pc s = AppReturned None \<and> all_returned s \<and> runner_report (ap_runnerDone s) = Some demo_stop_failure"
proof -
  obtain s0 a' where start: "App_Run_begin True \<lparr>app_started = False\<rparr> = (Inr s0, a')"
    by (simp add: App_Run_begin_def)
  obtain s where s: "app_steps demo_app_events s0 = Some s" "ap_pc s = AppReturned None"
    using demo_app_run(1) [OF start] by blast
  from app_stops_in_order [OF start s(1)] s(2) have "all_returned s"
    by metis
  moreover have "runner_report (ap_runnerDone s) = Some demo_stop_failure"
    using start s(1)
    by (auto simp: App_Run_begin_def demo_app_events_def app_proceed_def await_server_def await_workers_def
      await_transport_def await_runner_def note_failure_def runner_failure_def app_result_def runner_report_def
      demo_stop_failure_def)
  ultimately show ?thesis
    using start s by blast
qed

lemma app_run_returns_witness:
  "\<exists>a a' s0 s evs' s' r. App_Run_begin True a = (Inr s0, a') \<and> app_steps (take 9 demo_app_events) s0 = Some s \<and>
     length evs' \<le> 5 \<and> app_steps evs' s = Some s' \<and> ap_pc s' = AppReturned r"
proof -
  obtain s0 a' where start: "App_Run_begin True \<lparr>app_started = False\<rparr> = (Inr s0, a')"
    by (simp add: App_Run_begin_def)
  obtain s where s: "app_steps (take 9 demo_app_events) s0 = Some s" "ap_cause s = Some (CauseContext ContextCanceled)"
    "all_returned s"
    using demo_app_run(2) [OF start] by blast
  then have "ap_cause s \<noteq> None"
    by simp
  from app_run_returns [OF start s(1) this] show ?thesis
    using start s(1,3) by blast
qed

end
