(* ===== verification/Go_Strings.thy ===== *)
theory Go_Strings
  imports Go_Prelude
begin

text \<open>
  \<^verbatim>\<open>strings.TrimSpace\<close> on strings of UTF-8 bytes: the white space of Unicode, by its encodings.
\<close>

definition char_bytes :: "nat list \<Rightarrow> string" where
  "char_bytes ns = map char_of ns"

definition space_encodings :: "string list" where
  "space_encodings =
     map char_bytes
       ([[9], [10], [11], [12], [13], [32], [194, 133], [194, 160], [225, 154, 128]] @
        map (\<lambda>n. [226, 128, n]) ([128..<139] @ [168, 169, 175]) @ [[226, 129, 159], [227, 128, 128]])"

fun trim_left :: "string list \<Rightarrow> nat \<Rightarrow> string \<Rightarrow> string" where
  "trim_left spaces 0 s = s"
| "trim_left spaces (Suc n) s =
     (case find (\<lambda>e. e \<noteq> [] \<and> take (length e) s = e) spaces of
        Some e \<Rightarrow> trim_left spaces n (drop (length e) s)
      | None \<Rightarrow> s)"

text \<open>Every step drops a byte at least, so as many steps as bytes are enough.\<close>

definition TrimSpace :: "string \<Rightarrow> string" where
  "TrimSpace s =
     (let l = trim_left space_encodings (length s) s
      in rev (trim_left (map rev space_encodings) (length l) (rev l)))"

lemma trim_left_Nil [simp]: "trim_left spaces n [] = []"
  by (cases n) (auto simp: find_None_iff find_Some_iff split: option.splits)

lemma TrimSpace_Nil [simp]: "TrimSpace [] = []"
  by (simp add: TrimSpace_def)

text \<open>A string that begins and ends with printing ASCII characters is its own trimmed form.\<close>

definition printing :: "char \<Rightarrow> bool" where
  "printing c = (33 \<le> (of_char c :: nat) \<and> (of_char c :: nat) < 127)"

lemma space_encodings_ends:
  "\<forall>e \<in> set space_encodings. e \<noteq> [] \<and> \<not> printing (hd e) \<and> \<not> printing (last e)"
  by (simp add: space_encodings_def char_bytes_def printing_def upt_rec)

lemma trim_left_solid:
  assumes "\<forall>e \<in> set spaces. e \<noteq> [] \<longrightarrow> hd e \<noteq> hd s" "s \<noteq> []"
  shows "trim_left spaces n s = s"
proof (cases n)
  case (Suc m)
  have "e = [] \<or> take (length e) s \<noteq> e" if "e \<in> set spaces" for e
    using assms that by (cases e; cases s) auto
  then have "find (\<lambda>e. e \<noteq> [] \<and> take (length e) s = e) spaces = None"
    by (auto simp: find_None_iff)
  with Suc show ?thesis
    by simp
qed simp

lemma TrimSpace_printing:
  assumes "s \<noteq> []" "printing (hd s)" "printing (last s)"
  shows "TrimSpace s = s"
proof -
  have "trim_left space_encodings n s = s" for n
    by (rule trim_left_solid) (use assms space_encodings_ends in fastforce)+
  moreover have "trim_left (map rev space_encodings) n (rev s) = rev s" for n
    by (rule trim_left_solid) (use assms space_encodings_ends in \<open>fastforce simp: hd_rev\<close>)+
  ultimately show ?thesis
    by (simp add: TrimSpace_def)
qed

lemma TrimSpace_code [code]:
  "TrimSpace s =
     (if s = [] then []
      else if printing (hd s) \<and> printing (last s) then s
      else (let l = trim_left space_encodings (length s) s
            in rev (trim_left (map rev space_encodings) (length l) (rev l))))"
  using TrimSpace_printing [of s] by (auto simp: TrimSpace_def)

end
