(* ===== verification/Local_Transport.thy ===== *)
theory Local_Transport
  imports Privacy_File Go_Strings
begin

text \<open>
  Package \<^verbatim>\<open>adapters/transport/localgrpc\<close> (\<^verbatim>\<open>server.go\<close>): the private Unix socket on which the
  media workers reach the engine. The file system and its faults are those of \<^verbatim>\<open>Privacy_File\<close>; a socket
  is an irregular file. The gRPC server is what the code uses of it: \<^verbatim>\<open>Serve\<close> runs in a goroutine and
  returns with an error of its own, which \<^verbatim>\<open>Stop\<close> and a closed listener bring about. \<^verbatim>\<open>Run\<close> and every
  call of \<^verbatim>\<open>Close\<close> are threads with a program counter at the statements where another thread can come
  in between; \<^verbatim>\<open>sync.Once\<close> makes \<^verbatim>\<open>cleanup\<close> one step.
\<close>

section \<open>System calls\<close>

definition grpc_dir_name :: "string \<Rightarrow> string" where
  "grpc_dir_name r = ''proactive-grpc-'' @ r"

text \<open>\<^verbatim>\<open>os.MkdirTemp\<close> tries names until one does not exist.\<close>

definition MkdirTemp :: "path \<Rightarrow> path sys" where
  "MkdirTemp base =
     call (\<lambda>_ w.
       case dropWhile (\<lambda>r. fs w (base @ [grpc_dir_name r]) \<noteq> None) (fs_random w) of
         [] \<Rightarrow> (Inl EEXIST, w)
       | r # rs \<Rightarrow>
           let p = base @ [grpc_dir_name r]
           in (Inr p, put p (Some \<lparr>nd_kind = Directory, nd_perm = 448, nd_sticky = False\<rparr>) (w\<lparr>fs_random := rs\<rparr>)))"

text \<open>\<^verbatim>\<open>net.ListenUnix\<close> creates the socket, with the permissions the process mask leaves.\<close>

definition ListenUnix :: "path \<Rightarrow> unit sys" where
  "ListenUnix p =
     call (\<lambda>_ w. if fs w p \<noteq> None then (Inl EEXIST, w)
                  else (Inr (), put p (Some \<lparr>nd_kind = Irregular, nd_perm = 493, nd_sticky = False\<rparr>) w))"

text \<open>\<^verbatim>\<open>os.Remove\<close> of a directory with at most one entry: it fails while the entry is there.\<close>

definition RemoveDir :: "path \<Rightarrow> path \<Rightarrow> unit sys" where
  "RemoveDir entry p =
     call (\<lambda>_ w. if fs w p = None then (Inl ENOENT, w)
                  else if fs w entry \<noteq> None then (Inl EEXIST, w)
                  else (Inr (), put p None w))"

section \<open>State\<close>

datatype serverState = StateReady | StateRunning | StateClosed

record grpc_Server =
  gs_tempDir :: path
  gs_socketPath :: path
  gs_listening :: bool
  gs_grpcStopped :: bool
  gs_state :: serverState
  gs_runDone :: bool
  gs_cleaned :: bool
  gs_cleanupErr :: "goerror option"

definition path_text :: "path \<Rightarrow> string" where
  "path_text p = (if p = [] then ''/'' else concat (map (\<lambda>e. CHR ''/'' # e) p))"

definition gs_Address :: "grpc_Server \<Rightarrow> string" where
  "gs_Address s = ''unix://'' @ path_text (gs_socketPath s)"

section \<open>New\<close>

definition os_leaf :: "oserror \<Rightarrow> goerror" where
  "os_leaf err = Leaf (oserror_text err)"

definition validateRuntimeBase :: "string \<Rightarrow> path io" where
  "validateRuntimeBase input =
     (if TrimSpace input = [] \<or> input \<noteq> TrimSpace input \<or> take 1 input \<noteq> ''/'' then
        return_err (Leaf ''runtime base directory must be an explicit absolute path'')
      else
        let cleaned = clean_path input
        in handle (Lstat cleaned)
             (\<lambda>err. return_err (Wrapf ''inspect runtime base directory'' (os_leaf err)))
             (\<lambda>info.
                if nd_kind info \<noteq> Directory then return_err (Leaf ''runtime base must be a real directory'')
                else if shared_mode info then
                  return_err (Leaf ''runtime base must not be accessible to group or world'')
                else return_ok cleaned))"

text \<open>A call whose error is thrown away.\<close>

definition ignore :: "'a sys \<Rightarrow> unit io" where
  "ignore m = handle m (\<lambda>_. return_ok ()) (\<lambda>_. return_ok ())"

definition grpc_New :: "string \<Rightarrow> grpc_Server io" where
  "grpc_New runtimeBaseDir =
     (let op = ''create local worker grpc server'';
          unavailable = (\<lambda>err. return_err (New_fault Unavailable op (os_leaf err))) in
      (\<lambda>w. case validateRuntimeBase runtimeBaseDir w of
         (Inl err, w1) \<Rightarrow> (Inl (New_fault InvalidInput op err), w1)
       | (Inr base, w1) \<Rightarrow>
           handle (MkdirTemp base) unavailable (\<lambda>tempDir.
             let socketPath = tempDir @ [''workers.sock''] in
             handle (Chmod tempDir 448)
               (\<lambda>err. and_then (ignore (RemoveDir socketPath tempDir)) (\<lambda>_. unavailable err))
               (\<lambda>_. handle (ListenUnix socketPath)
                  (\<lambda>err. and_then (ignore (Remove socketPath)) (\<lambda>_.
                         and_then (ignore (RemoveDir socketPath tempDir)) (\<lambda>_. unavailable err)))
                  (\<lambda>_. handle (Chmod socketPath 384)
                     (\<lambda>err. and_then (ignore (Remove socketPath)) (\<lambda>_.
                            and_then (ignore (RemoveDir socketPath tempDir)) (\<lambda>_. unavailable err)))
                     (\<lambda>_. return_ok
                        \<lparr>gs_tempDir = tempDir, gs_socketPath = socketPath, gs_listening = True,
                         gs_grpcStopped = False, gs_state = StateReady, gs_runDone = False,
                         gs_cleaned = False, gs_cleanupErr = None\<rparr>)))) w1))"

section \<open>Threads\<close>

text \<open>What \<^verbatim>\<open>grpc.Serve\<close> returns: nil, one of the two errors of an orderly end, or another error.\<close>

datatype grpc_result = ServeNil | ServerStopped | ListenerClosed | GrpcFailed goerror

definition normalServeError :: "grpc_result \<Rightarrow> bool" where
  "normalServeError r = (case r of GrpcFailed err \<Rightarrow> False | _ \<Rightarrow> True)"

datatype grpc_run_pc =
    RunIdle
  | RunSelect
  | RunDrain
  | RunStop grpc_result
  | RunCleanup grpc_result
  | RunClosing grpc_result
  | RunReturned "goerror option"

datatype close_pc =
    CloseStop serverState
  | CloseJoin
  | CloseCleanup
  | CloseReturned "goerror option"

text \<open>The process: the server, the goroutine of \<^verbatim>\<open>Serve\<close> (\<open>None\<close>: not started), the thread of the one
  \<^verbatim>\<open>Run\<close> that got past the guard, the calls of \<^verbatim>\<open>Close\<close>.\<close>

record grpc_process =
  gp_server :: grpc_Server
  gp_world :: fs_world
  gp_serve :: "grpc_result option option"
  gp_run :: grpc_run_pc
  gp_closes :: "close_pc list"

definition stop_and_close :: "grpc_Server \<Rightarrow> grpc_Server" where
  "stop_and_close s = s\<lparr>gs_grpcStopped := True, gs_listening := False\<rparr>"

text \<open>The removals of \<^verbatim>\<open>cleanup\<close>: a file that is already gone is no failure.\<close>

definition removal :: "string \<Rightarrow> unit sys \<Rightarrow> fs_world \<Rightarrow> goerror option \<times> fs_world" where
  "removal what m w =
     (case m w of
        (Inr _, w1) \<Rightarrow> (None, w1)
      | (Inl err, w1) \<Rightarrow> (if err = ENOENT then None else Some (Wrapf what (os_leaf err)), w1))"

definition grpc_cleanup :: "grpc_process \<Rightarrow> grpc_process" where
  "grpc_cleanup p =
     (let s = gp_server p in
      if gs_cleaned s then p
      else
        let (e1, w1) = removal ''remove worker socket'' (Remove (gs_socketPath s)) (gp_world p);
            (e2, w2) = removal ''remove worker runtime directory'' (RemoveDir (gs_socketPath s) (gs_tempDir s)) w1
        in p\<lparr>gp_world := w2,
             gp_server := s\<lparr>gs_listening := False, gs_cleaned := True, gs_cleanupErr := errors_Join [e1, e2]\<rparr>\<rparr>)"

definition grpc_Run :: "bool \<Rightarrow> grpc_process \<Rightarrow> goerror option \<times> grpc_process" where
  "grpc_Run ctxPresent p =
     (let op = ''run local worker grpc server'' in
      if \<not> ctxPresent then (Some (New_fault InvalidInput op (Leaf ''context is required'')), p)
      else if gs_state (gp_server p) \<noteq> StateReady then
        (Some (New_fault InvalidInput op (Leaf ''server may only run once'')), p)
      else (None, p\<lparr>gp_server := (gp_server p)\<lparr>gs_state := StateRunning\<rparr>, gp_serve := Some None, gp_run := RunSelect\<rparr>))"

definition run_result :: "grpc_result \<Rightarrow> goerror option \<Rightarrow> goerror option" where
  "run_result r cleanupErr =
     (let op = ''run local worker grpc server'' in
      case r of
        GrpcFailed err \<Rightarrow> Some (New_fault Unavailable op err)
      | _ \<Rightarrow> (case cleanupErr of None \<Rightarrow> None | Some err \<Rightarrow> Some (New_fault Unavailable op err)))"

datatype grpc_event =
    CallRun bool
  | ServeReturns grpc_result
  | ContextEnds
  | RunStep
  | CallClose
  | CloseStep nat

definition run_turn :: "grpc_process \<Rightarrow> grpc_process option" where
  "run_turn p =
     (let s = gp_server p in
      case gp_run p of
        RunSelect \<Rightarrow> (case gp_serve p of Some (Some r) \<Rightarrow> Some (p\<lparr>gp_run := RunStop r\<rparr>) | _ \<Rightarrow> None)
      | RunDrain \<Rightarrow> (case gp_serve p of Some (Some r) \<Rightarrow> Some (p\<lparr>gp_run := RunStop r\<rparr>) | _ \<Rightarrow> None)
      | RunStop r \<Rightarrow> Some (p\<lparr>gp_server := stop_and_close s, gp_run := RunCleanup r\<rparr>)
      | RunCleanup r \<Rightarrow> Some ((grpc_cleanup p)\<lparr>gp_run := RunClosing r\<rparr>)
      | RunClosing r \<Rightarrow>
          Some (p\<lparr>gp_server := s\<lparr>gs_state := StateClosed, gs_runDone := True\<rparr>,
                  gp_run := RunReturned (run_result r (gs_cleanupErr s))\<rparr>)
      | _ \<Rightarrow> None)"

definition close_call :: "grpc_process \<Rightarrow> grpc_process" where
  "close_call p =
     (let s = gp_server p
      in p\<lparr>gp_server := (if gs_state s = StateReady then s\<lparr>gs_state := StateClosed\<rparr> else s),
           gp_closes := gp_closes p @ [if gs_state s = StateClosed then CloseCleanup else CloseStop (gs_state s)]\<rparr>)"

definition close_turn :: "nat \<Rightarrow> grpc_process \<Rightarrow> grpc_process option" where
  "close_turn i p =
     (if length (gp_closes p) \<le> i then None
      else (case gp_closes p ! i of
          CloseStop st \<Rightarrow>
            Some (p\<lparr>gp_server := stop_and_close (gp_server p),
                    gp_closes := (gp_closes p)[i := if st = StateRunning then CloseJoin else CloseCleanup]\<rparr>)
        | CloseJoin \<Rightarrow>
            if gs_runDone (gp_server p) then
              Some (p\<lparr>gp_closes := (gp_closes p)[i := CloseReturned (gs_cleanupErr (gp_server p))]\<rparr>)
            else None
        | CloseCleanup \<Rightarrow>
            (let p1 = grpc_cleanup p
             in Some (p1\<lparr>gp_closes := (gp_closes p1)[i := CloseReturned (gs_cleanupErr (gp_server p1))]\<rparr>))
        | CloseReturned e \<Rightarrow> None))"

text \<open>One step of the process.\<close>

fun grpc_step :: "grpc_event \<Rightarrow> grpc_process \<Rightarrow> grpc_process option" where
  "grpc_step (CallRun ctxPresent) p = Some (snd (grpc_Run ctxPresent p))"
| "grpc_step (ServeReturns r) p = (if gp_serve p = Some None then Some (p\<lparr>gp_serve := Some (Some r)\<rparr>) else None)"
| "grpc_step ContextEnds p =
     (if gp_run p = RunSelect then Some (p\<lparr>gp_server := stop_and_close (gp_server p), gp_run := RunDrain\<rparr>) else None)"
| "grpc_step RunStep p = run_turn p"
| "grpc_step CallClose p = Some (close_call p)"
| "grpc_step (CloseStep i) p = close_turn i p"

fun grpc_steps :: "grpc_event list \<Rightarrow> grpc_process \<Rightarrow> grpc_process option" where
  "grpc_steps [] p = Some p"
| "grpc_steps (ev # evs) p = (case grpc_step ev p of None \<Rightarrow> None | Some p' \<Rightarrow> grpc_steps evs p')"

definition grpc_boot :: "grpc_Server \<Rightarrow> fs_world \<Rightarrow> grpc_process" where
  "grpc_boot s w = \<lparr>gp_server = s, gp_world = w, gp_serve = None, gp_run = RunIdle, gp_closes = []\<rparr>"

section \<open>The system calls\<close>

text \<open>The faults that make a call fail, and what a call does to the file system.\<close>

definition hard_faults :: "fs_world \<Rightarrow> nat" where
  "hard_faults w = length (filter (\<lambda>x. x \<in> {Denied, Broken}) (fs_faults w))"

definition unchanged :: "fs_world \<Rightarrow> fs_world \<Rightarrow> bool" where
  "unchanged w w' = (fs w' = fs w \<and> fs_log w' = fs_log w)"

definition becomes :: "fs_world \<Rightarrow> (path \<rightharpoonup> fs_node) \<Rightarrow> fs_world \<Rightarrow> bool" where
  "becomes w f w' = (fs w' = f \<and> fs_log w' = fs_log w @ [f] \<and> hard_faults w' = hard_faults w)"

lemma call_outcome:
  assumes "call g w = (r, w')"
  obtains e where "r = Inl e" "unchanged w w'" "hard_faults w = Suc (hard_faults w')" "e \<noteq> ENOENT"
  | x v where "g x v = (r, w')" "unchanged w v" "hard_faults v = hard_faults w" "fs_random v = fs_random w"
proof (cases "fs_faults w")
  case Nil
  with assms show thesis
    by (intro that(2) [of No_fault w]) (auto simp: call_def unchanged_def)
next
  case (Cons x xs)
  show thesis
  proof (cases "x \<in> {Denied, Broken}")
    case True
    with Cons assms show thesis
      using that(1) [of EACCES] that(1) [of EIO] by (auto simp: call_def unchanged_def hard_faults_def)
  next
    case False
    with Cons assms show thesis
      by (intro that(2) [of x "w\<lparr>fs_faults := xs\<rparr>"])
        (auto simp: call_def unchanged_def hard_faults_def split: fs_fault.splits)
  qed
qed

lemma unchanged_trans: "unchanged u v \<Longrightarrow> unchanged v w \<Longrightarrow> unchanged u w"
  by (simp add: unchanged_def)

lemma becomes_put: "becomes w ((fs w)(p := n)) (put p n w)"
  by (simp add: becomes_def put_def hard_faults_def)

lemma becomes_after: "unchanged w v \<Longrightarrow> hard_faults v = hard_faults w \<Longrightarrow> becomes v f w' \<Longrightarrow> becomes w f w'"
  by (simp add: becomes_def unchanged_def)

lemma MkdirTemp_outcome:
  assumes "MkdirTemp base w = (r, w')"
  obtains e where "r = Inl e" "unchanged w w'"
  | name where "r = Inr (base @ [name])" "fs w (base @ [name]) = None"
      "becomes w ((fs w)(base @ [name] \<mapsto> \<lparr>nd_kind = Directory, nd_perm = 448, nd_sticky = False\<rparr>)) w'"
  using assms unfolding MkdirTemp_def
proof (elim call_outcome)
  fix e
  assume "r = Inl e" "unchanged w w'"
  then show thesis
    by (rule that(1))
next
  fix x v
  assume step: "(case dropWhile (\<lambda>r. fs v (base @ [grpc_dir_name r]) \<noteq> None) (fs_random v) of
       [] \<Rightarrow> (Inl EEXIST, v)
     | r # rs \<Rightarrow>
         let p = base @ [grpc_dir_name r]
         in (Inr p, put p (Some \<lparr>nd_kind = Directory, nd_perm = 448, nd_sticky = False\<rparr>) (v\<lparr>fs_random := rs\<rparr>))) = (r, w')"
    and v: "unchanged w v" "hard_faults v = hard_faults w"
  show thesis
  proof (cases "dropWhile (\<lambda>r. fs v (base @ [grpc_dir_name r]) \<noteq> None) (fs_random v)")
    case Nil
    then have "r = Inl EEXIST" "w' = v"
      using step unfolding Nil by simp_all
    with v(1) show thesis
      by (intro that(1)) simp_all
  next
    case (Cons name rs)
    have "fs v (base @ [grpc_dir_name name]) = None"
      using hd_dropWhile [of "\<lambda>r. fs v (base @ [grpc_dir_name r]) \<noteq> None" "fs_random v", unfolded Cons] by simp
    moreover have "r = Inr (base @ [grpc_dir_name name])"
      and "w' = put (base @ [grpc_dir_name name]) (Some \<lparr>nd_kind = Directory, nd_perm = 448, nd_sticky = False\<rparr>)
        (v\<lparr>fs_random := rs\<rparr>)"
      using step unfolding Cons by (simp_all add: Let_def)
    ultimately show thesis
      using v by (intro that(2) [of "grpc_dir_name name"]) (simp_all add: unchanged_def becomes_def put_def hard_faults_def)
  qed
qed

lemma Chmod_outcome:
  assumes "Chmod p perm w = (r, w')" "fs w p = Some n"
  obtains e where "r = Inl e" "unchanged w w'" "hard_faults w = Suc (hard_faults w')"
  | "r = Inr ()" "becomes w ((fs w)(p \<mapsto> n\<lparr>nd_perm := perm\<rparr>)) w'"
  using assms(1) unfolding Chmod_def
  by (elim call_outcome)
    (use assms(2) that in \<open>auto simp: unchanged_def becomes_def put_def hard_faults_def\<close>)

lemma ListenUnix_outcome:
  assumes "ListenUnix p w = (r, w')" "fs w p = None"
  obtains e where "r = Inl e" "unchanged w w'" "hard_faults w = Suc (hard_faults w')"
  | "r = Inr ()" "becomes w ((fs w)(p \<mapsto> \<lparr>nd_kind = Irregular, nd_perm = 493, nd_sticky = False\<rparr>)) w'"
  using assms(1) unfolding ListenUnix_def
  by (elim call_outcome)
    (use assms(2) that in \<open>auto simp: unchanged_def becomes_def put_def hard_faults_def\<close>)

lemma call_no_fault:
  assumes "hard_faults w = 0"
  shows "\<exists>x v. call g w = g x v \<and> unchanged w v \<and> hard_faults v = 0"
proof -
  obtain r w' where step: "call g w = (r, w')"
    by (cases "call g w") simp
  then show ?thesis
  proof (rule call_outcome)
    fix x v
    assume "g x v = (r, w')" "unchanged w v" "hard_faults v = hard_faults w"
    with step assms show ?thesis
      by (intro exI [of _ x] exI [of _ v]) simp
  qed (use assms in simp)
qed

text \<open>An ignored removal that meets no fault removes.\<close>

lemma Remove_no_fault:
  assumes "hard_faults w = 0"
  shows "fs (snd (Remove p w)) = (fs w)(p := None)" "hard_faults (snd (Remove p w)) = 0"
proof -
  obtain x v where "Remove p w = (if fs v p = None then (Inl ENOENT, v) else (Inr (), put p None v))"
    "unchanged w v" "hard_faults v = 0"
    using call_no_fault [OF assms, of "\<lambda>_ w. if fs w p = None then (Inl ENOENT, w) else (Inr (), put p None w)"]
    by (auto simp: Remove_def)
  then show "fs (snd (Remove p w)) = (fs w)(p := None)" "hard_faults (snd (Remove p w)) = 0"
    by (auto simp: unchanged_def put_def hard_faults_def fun_upd_idem)
qed

lemma RemoveDir_no_fault:
  assumes "hard_faults w = 0" "fs w entry = None"
  shows "fs (snd (RemoveDir entry p w)) = (fs w)(p := None)" "hard_faults (snd (RemoveDir entry p w)) = 0"
proof -
  obtain x v where "RemoveDir entry p w = (if fs v p = None then (Inl ENOENT, v)
      else if fs v entry \<noteq> None then (Inl EEXIST, v) else (Inr (), put p None v))"
    "unchanged w v" "hard_faults v = 0"
    using call_no_fault [OF assms(1), of "\<lambda>_ w. if fs w p = None then (Inl ENOENT, w)
      else if fs w entry \<noteq> None then (Inl EEXIST, w) else (Inr (), put p None w)"]
    by (auto simp: RemoveDir_def)
  then show "fs (snd (RemoveDir entry p w)) = (fs w)(p := None)" "hard_faults (snd (RemoveDir entry p w)) = 0"
    using assms(2) by (auto simp: unchanged_def put_def hard_faults_def fun_upd_idem)
qed

lemma ignore_snd: "ignore m w = (Inr (), snd (m w))"
  by (simp add: ignore_def handle_def return_ok_def split: prod.split sum.split)

text \<open>What \<^verbatim>\<open>New\<close> leaves: a private directory with a private socket, or nothing new.\<close>

definition transport_files :: "path \<Rightarrow> (path \<rightharpoonup> fs_node) \<Rightarrow> path \<rightharpoonup> fs_node" where
  "transport_files D f =
     f(D \<mapsto> \<lparr>nd_kind = Directory, nd_perm = 448, nd_sticky = False\<rparr>,
       D @ [''workers.sock''] \<mapsto> \<lparr>nd_kind = Irregular, nd_perm = 384, nd_sticky = False\<rparr>)"

definition ready_server :: "path \<Rightarrow> grpc_Server" where
  "ready_server D =
     \<lparr>gs_tempDir = D, gs_socketPath = D @ [''workers.sock''], gs_listening = True, gs_grpcStopped = False,
      gs_state = StateReady, gs_runDone = False, gs_cleaned = False, gs_cleanupErr = None\<rparr>"

text \<open>The socket is never outside a directory only its owner can enter.\<close>

definition socket_guarded :: "path \<Rightarrow> (path \<rightharpoonup> fs_node) \<Rightarrow> bool" where
  "socket_guarded D f =
     (f (D @ [''workers.sock'']) \<noteq> None \<longrightarrow> (\<exists>n. f D = Some n \<and> nd_kind n = Directory \<and> nd_perm n = 448))"

lemma validateRuntimeBase_Inr:
  assumes "validateRuntimeBase input w = (Inr base, w')"
  shows "base = clean_path input" "unchanged w w'" "hard_faults w' = hard_faults w"
    "\<exists>n. fs w base = Some n \<and> nd_kind n = Directory \<and> \<not> shared_mode n"
proof -
  obtain info where base: "base = clean_path input" and "Lstat base w = (Inr info, w')"
    and info: "nd_kind info = Directory" "\<not> shared_mode info"
    using assms by (auto simp: validateRuntimeBase_def handle_def return_err_def return_ok_def Let_def
        split: if_splits prod.splits sum.splits)
  then have "unchanged w w' \<and> hard_faults w' = hard_faults w \<and> fs w base = Some info"
    unfolding Lstat_def by (elim call_outcome) (auto simp: unchanged_def split: option.splits)
  with base info show "base = clean_path input" "unchanged w w'" "hard_faults w' = hard_faults w"
    "\<exists>n. fs w base = Some n \<and> nd_kind n = Directory \<and> \<not> shared_mode n"
    by auto
qed

lemma validateRuntimeBase_Inl:
  assumes "validateRuntimeBase input w = (Inl err, w')"
  shows "unchanged w w'"
proof (cases "TrimSpace input = [] \<or> input \<noteq> TrimSpace input \<or> take 1 input \<noteq> ''/''")
  case True
  with assms show ?thesis
    by (auto simp: validateRuntimeBase_def return_err_def unchanged_def)
next
  case False
  obtain r v where "Lstat (clean_path input) w = (r, v)"
    by (cases "Lstat (clean_path input) w") simp
  moreover from this have "unchanged w v"
    unfolding Lstat_def by (elim call_outcome) (auto simp: unchanged_def split: option.splits)
  ultimately show ?thesis
    using assms False by (auto simp: validateRuntimeBase_def handle_def return_err_def return_ok_def Let_def
        split: if_splits sum.splits)
qed

lemma unavailable_snd: "snd (and_then (ignore m) (\<lambda>_. return_err e) w) = snd (m w)"
  "fst (and_then (ignore m) (\<lambda>_. return_err e) w) = Inl e"
  by (simp_all add: and_then_def ignore_snd return_err_def)

lemma unavailable_snd2:
  "snd (and_then (ignore m) (\<lambda>_. and_then (ignore m') (\<lambda>_. return_err e)) w) = snd (m' (snd (m w)))"
  "fst (and_then (ignore m) (\<lambda>_. and_then (ignore m') (\<lambda>_. return_err e)) w) = Inl e"
  by (simp_all add: and_then_def ignore_snd return_err_def)

text \<open>The removals after a failed call, when that failure was the only fault.\<close>

lemma undo_files:
  assumes "hard_faults w = 0" "fs w = f(D \<mapsto> d, S := s)" "f D = None" "f S = None" "D \<noteq> S"
  shows "fs (snd (RemoveDir S D (snd (Remove S w)))) = f"
proof -
  have "fs (snd (Remove S w)) = f(D \<mapsto> d)"
    using Remove_no_fault(1) [OF assms(1), of S] assms(2,4,5) by (auto simp: fun_eq_iff)
  then have "fs (snd (RemoveDir S D (snd (Remove S w)))) = (f(D \<mapsto> d))(D := None)"
    using RemoveDir_no_fault(1) [OF Remove_no_fault(2) [OF assms(1), of S], of S D] assms(4,5) by simp
  with assms(3) show ?thesis
    by (auto simp: fun_eq_iff)
qed

abbreviation "grpc_op \<equiv> ''create local worker grpc server''"

lemma grpc_New_Inr:
  assumes "grpc_New base w = (Inr s, w')" "\<forall>p. fs w p = None \<longrightarrow> fs w (p @ [''workers.sock'']) = None"
  shows "\<exists>name. let D = clean_path base @ [name] in
    s = ready_server D \<and> fs w D = None \<and> fs w (D @ [''workers.sock'']) = None \<and> fs w' = transport_files D (fs w) \<and>
    (\<exists>n. fs w (clean_path base) = Some n \<and> nd_kind n = Directory \<and> \<not> shared_mode n) \<and>
    (\<exists>fs1 fs2. fs_log w' = fs_log w @ fs1 @ fs2 \<and> (\<forall>f \<in> set (fs1 @ fs2). socket_guarded D f))"
proof -
  let ?S = "\<lambda>D. D @ [''workers.sock'']"
  obtain base' w1 where v: "validateRuntimeBase base w = (Inr base', w1)"
    using assms(1) by (cases "validateRuntimeBase base w")
      (auto simp: grpc_New_def Let_def split: sum.splits)
  note base = validateRuntimeBase_Inr [OF v]
  obtain r2 w2 where mk: "MkdirTemp base' w1 = (r2, w2)"
    by (cases "MkdirTemp base' w1") simp
  show ?thesis
    using mk
  proof (rule MkdirTemp_outcome)
    fix e
    assume "r2 = Inl e"
    with assms(1) v mk show ?thesis
      by (simp add: grpc_New_def handle_def return_err_def Let_def)
  next
    fix name
    let ?D = "base' @ [name]" and ?d = "\<lparr>nd_kind = Directory, nd_perm = 448, nd_sticky = False\<rparr>"
    assume r2: "r2 = Inr ?D" and fresh: "fs w1 ?D = None" and b2: "becomes w1 ((fs w1)(?D \<mapsto> ?d)) w2"
    have f1: "fs w1 = fs w" "fs_log w1 = fs_log w"
      using base(2) by (simp_all add: unchanged_def)
    then have freshS: "fs w (?S ?D) = None"
      using assms(2) fresh by metis
    obtain r3 w3 where ch: "Chmod ?D 448 w2 = (r3, w3)"
      by (cases "Chmod ?D 448 w2") simp
    have "fs w2 ?D = Some ?d"
      using b2 by (simp add: becomes_def)
    from ch this show ?thesis
    proof (rule Chmod_outcome)
      fix e
      assume "r3 = Inl e"
      then have "fst (grpc_New base w) \<noteq> Inr s"
        using v mk r2 ch by (simp add: grpc_New_def handle_def unavailable_snd Let_def)
      with assms(1) show ?thesis
        by simp
    next
      assume r3: "r3 = Inr ()" and "becomes w2 ((fs w2)(?D \<mapsto> ?d\<lparr>nd_perm := 448\<rparr>)) w3"
      then have f3: "fs w3 = (fs w)(?D \<mapsto> ?d)" "fs_log w3 = fs_log w @ [(fs w)(?D \<mapsto> ?d), (fs w)(?D \<mapsto> ?d)]"
        using b2 f1 by (simp_all add: becomes_def)
      obtain r4 w4 where li: "ListenUnix (?S ?D) w3 = (r4, w4)"
        by (cases "ListenUnix (?S ?D) w3") simp
      have "fs w3 (?S ?D) = None"
        using f3 freshS by simp
      from li this show ?thesis
      proof (rule ListenUnix_outcome)
        fix e
        assume "r4 = Inl e"
        then have "fst (grpc_New base w) \<noteq> Inr s"
          using v mk r2 ch r3 li by (simp add: grpc_New_def handle_def unavailable_snd2 Let_def)
        with assms(1) show ?thesis
          by simp
      next
        let ?s = "\<lparr>nd_kind = Irregular, nd_perm = 493, nd_sticky = False\<rparr>"
        assume r4: "r4 = Inr ()" and b4: "becomes w3 ((fs w3)(?S ?D \<mapsto> ?s)) w4"
        obtain r5 w5 where ch5: "Chmod (?S ?D) 384 w4 = (r5, w5)"
          by (cases "Chmod (?S ?D) 384 w4") simp
        have "fs w4 (?S ?D) = Some ?s"
          using b4 by (simp add: becomes_def)
        from ch5 this show ?thesis
        proof (rule Chmod_outcome)
          fix e
          assume "r5 = Inl e"
          then have "fst (grpc_New base w) \<noteq> Inr s"
            using v mk r2 ch r3 li r4 ch5 by (simp add: grpc_New_def handle_def unavailable_snd2 Let_def)
          with assms(1) show ?thesis
            by simp
        next
          assume r5: "r5 = Inr ()" and b5: "becomes w4 ((fs w4)(?S ?D \<mapsto> ?s\<lparr>nd_perm := 384\<rparr>)) w5"
          have "s = ready_server ?D" "w' = w5"
            using assms(1) v mk r2 ch r3 li r4 ch5 r5
            by (simp_all add: grpc_New_def handle_def return_ok_def ready_server_def Let_def)
          moreover have "fs w5 = transport_files ?D (fs w)"
            using b4 b5 f3 by (simp add: becomes_def transport_files_def)
          moreover have "fs_log w5 = fs_log w @ [(fs w)(?D \<mapsto> ?d), (fs w)(?D \<mapsto> ?d)] @
              [(fs w)(?D \<mapsto> ?d, ?S ?D \<mapsto> ?s), transport_files ?D (fs w)]"
            using b4 b5 f3 by (simp add: becomes_def transport_files_def)
          moreover have "\<forall>f \<in> set ([(fs w)(?D \<mapsto> ?d), (fs w)(?D \<mapsto> ?d)] @
              [(fs w)(?D \<mapsto> ?d, ?S ?D \<mapsto> ?s), transport_files ?D (fs w)]). socket_guarded ?D f"
            by (simp add: socket_guarded_def transport_files_def)
          ultimately show ?thesis
            using base fresh freshS f1 unfolding Let_def by (metis (no_types))
        qed
      qed
    qed
  qed
qed

lemma grpc_New_Inl:
  assumes "grpc_New base w = (Inl err, w')" "\<forall>p. fs w p = None \<longrightarrow> fs w (p @ [''workers.sock'']) = None"
    and "hard_faults w \<le> 1"
  shows "fs w' = fs w"
proof -
  let ?S = "\<lambda>D. D @ [''workers.sock'']"
  have w': "w' = snd (grpc_New base w)"
    using assms(1) by simp
  obtain rv w1 where v: "validateRuntimeBase base w = (rv, w1)"
    by (cases "validateRuntimeBase base w") simp
  show ?thesis
  proof (cases rv)
    case (Inl e)
    with v w' validateRuntimeBase_Inl [of base w e w1] show ?thesis
      by (simp add: grpc_New_def Let_def unchanged_def)
  next
    case (Inr base')
    note base = validateRuntimeBase_Inr [OF v [unfolded Inr]]
    have f1: "fs w1 = fs w" "hard_faults w1 \<le> 1"
      using base(2,3) assms(3) by (simp_all add: unchanged_def)
    obtain r2 w2 where mk: "MkdirTemp base' w1 = (r2, w2)"
      by (cases "MkdirTemp base' w1") simp
    show ?thesis
      using mk
    proof (rule MkdirTemp_outcome)
      fix e
      assume "r2 = Inl e" "unchanged w1 w2"
      with w' v Inr mk f1 show ?thesis
        by (simp add: grpc_New_def handle_def return_err_def unchanged_def Let_def)
    next
      fix name
      let ?D = "base' @ [name]" and ?d = "\<lparr>nd_kind = Directory, nd_perm = 448, nd_sticky = False\<rparr>"
      assume r2: "r2 = Inr ?D" and fresh: "fs w1 ?D = None" and b2: "becomes w1 ((fs w1)(?D \<mapsto> ?d)) w2"
      have freshS: "fs w (?S ?D) = None"
        using assms(2) fresh f1(1) by metis
      have f2: "fs w2 = (fs w)(?D \<mapsto> ?d)" "hard_faults w2 \<le> 1"
        using b2 f1 by (simp_all add: becomes_def)
      obtain r3 w3 where ch: "Chmod ?D 448 w2 = (r3, w3)"
        by (cases "Chmod ?D 448 w2") simp
      have "fs w2 ?D = Some ?d"
        using f2 by simp
      from ch this show ?thesis
      proof (rule Chmod_outcome)
        fix e
        assume r3: "r3 = Inl e" and "unchanged w2 w3" "hard_faults w2 = Suc (hard_faults w3)"
        then have "hard_faults w3 = 0" "fs w3 = (fs w)(?D \<mapsto> ?d)"
          using f2 by (simp_all add: unchanged_def)
        moreover from this have "fs (snd (RemoveDir (?S ?D) ?D w3)) = (fs w3)(?D := None)"
          using freshS by (intro RemoveDir_no_fault(1)) simp_all
        moreover have "w' = snd (RemoveDir (?S ?D) ?D w3)"
          using w' v Inr mk r2 ch r3 by (simp add: grpc_New_def handle_def unavailable_snd Let_def)
        ultimately show ?thesis
          using fresh f1 by (auto simp: fun_eq_iff)
      next
        assume r3: "r3 = Inr ()" and b3: "becomes w2 ((fs w2)(?D \<mapsto> ?d\<lparr>nd_perm := 448\<rparr>)) w3"
        then have f3: "fs w3 = (fs w)(?D \<mapsto> ?d)" "hard_faults w3 \<le> 1"
          using f2 by (simp_all add: becomes_def)
        obtain r4 w4 where li: "ListenUnix (?S ?D) w3 = (r4, w4)"
          by (cases "ListenUnix (?S ?D) w3") simp
        have "fs w3 (?S ?D) = None"
          using f3 freshS by simp
        from li this show ?thesis
        proof (rule ListenUnix_outcome)
          fix e
          assume r4: "r4 = Inl e" and "unchanged w3 w4" "hard_faults w3 = Suc (hard_faults w4)"
          then have "hard_faults w4 = 0" "fs w4 = (fs w)(?D \<mapsto> ?d, ?S ?D := None)"
            using f3 freshS by (auto simp: unchanged_def fun_eq_iff)
          then have "fs (snd (RemoveDir (?S ?D) ?D (snd (Remove (?S ?D) w4)))) = fs w"
            using fresh freshS f1 by (intro undo_files) simp_all
          moreover have "w' = snd (RemoveDir (?S ?D) ?D (snd (Remove (?S ?D) w4)))"
            using w' v Inr mk r2 ch r3 li r4 by (simp add: grpc_New_def handle_def unavailable_snd2 Let_def)
          ultimately show ?thesis
            by simp
        next
          let ?s = "\<lparr>nd_kind = Irregular, nd_perm = 493, nd_sticky = False\<rparr>"
          assume r4: "r4 = Inr ()" and b4: "becomes w3 ((fs w3)(?S ?D \<mapsto> ?s)) w4"
          then have f4: "fs w4 = (fs w)(?D \<mapsto> ?d, ?S ?D \<mapsto> ?s)" "hard_faults w4 \<le> 1"
            using f3 by (simp_all add: becomes_def)
          obtain r5 w5 where ch5: "Chmod (?S ?D) 384 w4 = (r5, w5)"
            by (cases "Chmod (?S ?D) 384 w4") simp
          have "fs w4 (?S ?D) = Some ?s"
            using f4 by simp
          from ch5 this show ?thesis
          proof (rule Chmod_outcome)
            fix e
            assume r5: "r5 = Inl e" and "unchanged w4 w5" "hard_faults w4 = Suc (hard_faults w5)"
            then have "hard_faults w5 = 0" "fs w5 = (fs w)(?D \<mapsto> ?d, ?S ?D \<mapsto> ?s)"
              using f4 by (simp_all add: unchanged_def)
            then have "fs (snd (RemoveDir (?S ?D) ?D (snd (Remove (?S ?D) w5)))) = fs w"
              using fresh freshS f1 by (intro undo_files) simp_all
            moreover have "w' = snd (RemoveDir (?S ?D) ?D (snd (Remove (?S ?D) w5)))"
              using w' v Inr mk r2 ch r3 li r4 ch5 r5 by (simp add: grpc_New_def handle_def unavailable_snd2 Let_def)
            ultimately show ?thesis
              by simp
          next
            assume "r5 = Inr ()"
            then have "fst (grpc_New base w) \<noteq> Inl err"
              using v Inr mk r2 ch r3 li r4 ch5 by (simp add: grpc_New_def handle_def return_ok_def Let_def)
            with assms(1) show ?thesis
              by simp
          qed
        qed
      qed
    qed
  qed
qed

section \<open>The threads\<close>

text \<open>What one call of \<^verbatim>\<open>Close\<close> relies on.\<close>

definition run_over :: "grpc_process \<Rightarrow> bool" where
  "run_over p = (gp_run p = RunIdle \<or> (\<exists>r. gp_run p = RunReturned r))"

definition close_ok :: "grpc_process \<Rightarrow> close_pc \<Rightarrow> bool" where
  "close_ok p c =
     (let s = gp_server p in
      gs_state s \<noteq> StateReady \<and>
      (case c of
         CloseStop st \<Rightarrow> st = StateReady \<and> gp_run p = RunIdle \<or> st = StateRunning \<and> gp_run p \<noteq> RunIdle
       | CloseJoin \<Rightarrow> gp_run p \<noteq> RunIdle \<and> gs_grpcStopped s
       | CloseCleanup \<Rightarrow> run_over p
       | CloseReturned e \<Rightarrow> run_over p \<and> gs_cleaned s \<and> e = gs_cleanupErr s))"

definition serve_over :: "grpc_process \<Rightarrow> bool" where
  "serve_over p = (\<exists>r. gp_serve p = Some (Some r))"

definition run_ok :: "grpc_process \<Rightarrow> bool" where
  "run_ok p =
     (let s = gp_server p in
      case gp_run p of
        RunIdle \<Rightarrow> gs_state s \<noteq> StateRunning \<and> gp_serve p = None \<and> \<not> gs_runDone s \<and> (gs_cleaned s \<longrightarrow> gs_state s = StateClosed)
      | RunSelect \<Rightarrow> gs_state s = StateRunning \<and> gp_serve p \<noteq> None \<and> \<not> gs_runDone s \<and> \<not> gs_cleaned s
      | RunDrain \<Rightarrow> gs_state s = StateRunning \<and> gp_serve p \<noteq> None \<and> \<not> gs_runDone s \<and> \<not> gs_cleaned s \<and> gs_grpcStopped s
      | RunStop r \<Rightarrow> gs_state s = StateRunning \<and> serve_over p \<and> \<not> gs_runDone s \<and> \<not> gs_cleaned s
      | RunCleanup r \<Rightarrow> gs_state s = StateRunning \<and> serve_over p \<and> \<not> gs_runDone s \<and> \<not> gs_cleaned s
      | RunClosing r \<Rightarrow> gs_state s = StateRunning \<and> serve_over p \<and> \<not> gs_runDone s \<and> gs_cleaned s
      | RunReturned e \<Rightarrow> gs_state s = StateClosed \<and> serve_over p \<and> gs_runDone s \<and> gs_cleaned s)"

definition files_ok :: "grpc_process \<Rightarrow> bool" where
  "files_ok p =
     (let s = gp_server p in
      gs_cleaned s \<longrightarrow> \<not> gs_listening s \<and>
        (gs_cleanupErr s = None \<longrightarrow> fs (gp_world p) (gs_socketPath s) = None \<and> fs (gp_world p) (gs_tempDir s) = None))"

definition grpc_ok :: "grpc_process \<Rightarrow> bool" where
  "grpc_ok p = (run_ok p \<and> files_ok p \<and> (\<forall>c \<in> set (gp_closes p). close_ok p c))"

lemma errors_Join_pair: "errors_Join [a, b] = None \<longleftrightarrow> a = None \<and> b = None"
  by (cases a; cases b) (simp_all add: errors_Join_def List.map_filter_simps)

lemma Remove_None: "Remove p w = (Inr x, w') \<or> Remove p w = (Inl ENOENT, w') \<Longrightarrow> fs w' = (fs w)(p := None)"
  unfolding Remove_def
  by (elim disjE call_outcome) (auto simp: call_def unchanged_def put_def fun_eq_iff split: if_splits list.splits fs_fault.splits)

lemma RemoveDir_None:
  "RemoveDir q p w = (Inr x, w') \<or> RemoveDir q p w = (Inl ENOENT, w') \<Longrightarrow> fs w' = (fs w)(p := None)"
  unfolding RemoveDir_def
  by (elim disjE call_outcome) (auto simp: call_def unchanged_def put_def fun_eq_iff split: if_splits list.splits fs_fault.splits)

lemma removal_None:
  "removal what (Remove p) w = (None, w') \<Longrightarrow> fs w' = (fs w)(p := None)"
  "removal what (RemoveDir q p) w = (None, w') \<Longrightarrow> fs w' = (fs w)(p := None)"
  by (auto simp: removal_def split: prod.splits sum.splits if_splits intro: Remove_None RemoveDir_None)

lemma grpc_cleanup_facts:
  fixes p
  defines "p' \<equiv> grpc_cleanup p"
  shows "gs_cleaned (gp_server p')" "gs_state (gp_server p') = gs_state (gp_server p)"
    "gs_runDone (gp_server p') = gs_runDone (gp_server p)" "gs_grpcStopped (gp_server p') = gs_grpcStopped (gp_server p)"
    "gp_serve p' = gp_serve p" "gp_run p' = gp_run p" "gp_closes p' = gp_closes p"
    "gs_cleaned (gp_server p) \<Longrightarrow> p' = p" "files_ok p \<Longrightarrow> files_ok p'"
    "gs_tempDir (gp_server p') = gs_tempDir (gp_server p)" "gs_socketPath (gp_server p') = gs_socketPath (gp_server p)"
proof -
  obtain e1 w1 where r1: "removal ''remove worker socket'' (Remove (gs_socketPath (gp_server p))) (gp_world p) = (e1, w1)"
    by (metis surj_pair)
  obtain e2 w2 where r2: "removal ''remove worker runtime directory''
      (RemoveDir (gs_socketPath (gp_server p)) (gs_tempDir (gp_server p))) w1 = (e2, w2)"
    by (metis surj_pair)
  note eq = grpc_cleanup_def [of p, unfolded Let_def r1 prod.case r2]
  show "gs_cleaned (gp_server p')" "gs_state (gp_server p') = gs_state (gp_server p)"
    "gs_runDone (gp_server p') = gs_runDone (gp_server p)" "gs_grpcStopped (gp_server p') = gs_grpcStopped (gp_server p)"
    "gp_serve p' = gp_serve p" "gp_run p' = gp_run p" "gp_closes p' = gp_closes p"
    "gs_cleaned (gp_server p) \<Longrightarrow> p' = p"
    "gs_tempDir (gp_server p') = gs_tempDir (gp_server p)" "gs_socketPath (gp_server p') = gs_socketPath (gp_server p)"
    by (simp_all add: p'_def eq)
  show "files_ok p'" if "files_ok p"
  proof (cases "gs_cleaned (gp_server p)")
    case False
    have "fs w1 = (fs (gp_world p))(gs_socketPath (gp_server p) := None)" if "e1 = None"
      using removal_None(1) r1 that by blast
    moreover have "fs w2 = (fs w1)(gs_tempDir (gp_server p) := None)" if "e2 = None"
      using removal_None(2) r2 that by blast
    ultimately have "errors_Join [e1, e2] = None \<Longrightarrow>
        fs w2 (gs_socketPath (gp_server p)) = None \<and> fs w2 (gs_tempDir (gp_server p)) = None"
      by (auto simp: errors_Join_pair)
    with False show ?thesis
      by (simp add: p'_def eq files_ok_def)
  qed (use that in \<open>simp add: p'_def eq\<close>)
qed

lemma close_ok_mono:
  assumes "close_ok p c"
    and "gs_state (gp_server p') = StateReady \<Longrightarrow> gs_state (gp_server p) = StateReady"
    and "gp_run p' = RunIdle \<longleftrightarrow> gp_run p = RunIdle" "gs_grpcStopped (gp_server p) \<Longrightarrow> gs_grpcStopped (gp_server p')"
    and "run_over p \<Longrightarrow> run_over p'"
    and "gs_cleaned (gp_server p) \<Longrightarrow> gs_cleaned (gp_server p') \<and> gs_cleanupErr (gp_server p') = gs_cleanupErr (gp_server p)"
  shows "close_ok p' c"
  using assms by (cases c) (auto simp: close_ok_def Let_def)

lemma close_ok_cleanup: "close_ok p c \<Longrightarrow> close_ok (grpc_cleanup p) c"
  by (erule close_ok_mono) (auto simp: grpc_cleanup_facts run_over_def)

lemma run_turn_ok:
  assumes "grpc_ok p" "run_turn p = Some p'"
  shows "grpc_ok p'"
proof -
  have ok: "run_ok p" "files_ok p" "\<forall>c \<in> set (gp_closes p). close_ok p c"
    using assms(1) by (simp_all add: grpc_ok_def)
  have keep: "\<forall>c \<in> set (gp_closes p). close_ok p' c"
    if "gp_run p' \<noteq> RunIdle" "gp_run p \<noteq> RunIdle" "\<not> run_over p" "gs_state (gp_server p') \<noteq> StateReady"
      "gs_grpcStopped (gp_server p) \<Longrightarrow> gs_grpcStopped (gp_server p')"
    using ok(3) that by (fastforce simp: close_ok_def Let_def split: close_pc.splits)
  show ?thesis
  proof (cases "gp_run p")
    case RunSelect
    then obtain r where "gp_serve p = Some (Some r)" "p' = p\<lparr>gp_run := RunStop r\<rparr>"
      using assms(2) by (auto simp: run_turn_def Let_def split: option.splits)
    with RunSelect ok(1,2) keep show ?thesis
      by (simp add: grpc_ok_def run_ok_def files_ok_def serve_over_def run_over_def Let_def)
  next
    case RunDrain
    then obtain r where "gp_serve p = Some (Some r)" "p' = p\<lparr>gp_run := RunStop r\<rparr>"
      using assms(2) by (auto simp: run_turn_def Let_def split: option.splits)
    with RunDrain ok(1,2) keep show ?thesis
      by (simp add: grpc_ok_def run_ok_def files_ok_def serve_over_def run_over_def Let_def)
  next
    case (RunStop r)
    then have "p' = p\<lparr>gp_server := stop_and_close (gp_server p), gp_run := RunCleanup r\<rparr>"
      using assms(2) by (simp add: run_turn_def Let_def)
    with RunStop ok(1,2) keep show ?thesis
      by (simp add: grpc_ok_def run_ok_def files_ok_def serve_over_def run_over_def stop_and_close_def Let_def)
  next
    case (RunCleanup r)
    then have p': "p' = (grpc_cleanup p)\<lparr>gp_run := RunClosing r\<rparr>"
      using assms(2) by (simp add: run_turn_def Let_def)
    have "files_ok p'"
      using grpc_cleanup_facts(9) [OF ok(2)] by (simp add: p' files_ok_def)
    with p' RunCleanup ok(1) keep show ?thesis
      by (simp add: grpc_ok_def run_ok_def serve_over_def run_over_def grpc_cleanup_facts Let_def)
  next
    case (RunClosing r)
    then have "p' = p\<lparr>gp_server := (gp_server p)\<lparr>gs_state := StateClosed, gs_runDone := True\<rparr>,
        gp_run := RunReturned (run_result r (gs_cleanupErr (gp_server p)))\<rparr>"
      using assms(2) by (simp add: run_turn_def Let_def)
    with RunClosing ok(1,2) keep show ?thesis
      by (simp add: grpc_ok_def run_ok_def files_ok_def serve_over_def run_over_def Let_def)
  qed (use assms(2) in \<open>simp_all add: run_turn_def Let_def\<close>)
qed

lemma close_call_ok:
  assumes "grpc_ok p"
  shows "grpc_ok (close_call p)"
proof -
  have ok: "run_ok p" "files_ok p" "\<forall>c \<in> set (gp_closes p). close_ok p c"
    using assms by (simp_all add: grpc_ok_def)
  have "close_ok (close_call p) c" if "c \<in> set (gp_closes p)" for c
    using ok(3) that by (auto simp: close_call_def Let_def run_over_def intro: close_ok_mono)
  moreover have "run_ok (close_call p)" "files_ok (close_call p)"
    using ok(1,2) by (auto simp: close_call_def run_ok_def files_ok_def serve_over_def Let_def split: grpc_run_pc.splits)
  moreover have "close_ok (close_call p) (if gs_state (gp_server p) = StateClosed then CloseCleanup else CloseStop (gs_state (gp_server p)))"
    using ok(1) by (cases "gs_state (gp_server p)"; cases "gp_run p")
      (auto simp: close_call_def close_ok_def run_ok_def run_over_def Let_def)
  ultimately show ?thesis
    by (auto simp: grpc_ok_def) (auto simp: close_call_def Let_def)
qed

lemma grpc_ok_update:
  assumes "run_ok p'" "files_ok p'" "gp_closes p' = cs[i := x]" "close_ok p' x" "\<And>c. c \<in> set cs \<Longrightarrow> close_ok p' c"
  shows "grpc_ok p'"
  using assms set_update_subset_insert [of cs i x] by (auto simp: grpc_ok_def)

lemma close_turn_ok:
  assumes "grpc_ok p" "close_turn i p = Some p'"
  shows "grpc_ok p'"
proof -
  have ok: "run_ok p" "files_ok p" "\<forall>c \<in> set (gp_closes p). close_ok p c"
    using assms(1) by (simp_all add: grpc_ok_def)
  have i: "i < length (gp_closes p)"
    using assms(2) by (simp add: close_turn_def split: if_splits)
  then have c: "close_ok p (gp_closes p ! i)"
    using ok(3) by simp
  show ?thesis
  proof (cases "gp_closes p ! i")
    case (CloseStop st)
    then have p': "p' = p\<lparr>gp_server := stop_and_close (gp_server p),
        gp_closes := (gp_closes p)[i := if st = StateRunning then CloseJoin else CloseCleanup]\<rparr>"
      using assms(2) i by (simp add: close_turn_def)
    have "close_ok p' (if st = StateRunning then CloseJoin else CloseCleanup)"
      using c CloseStop by (auto simp: p' close_ok_def run_over_def stop_and_close_def Let_def)
    moreover have "close_ok p' c" if "c \<in> set (gp_closes p)" for c
      using ok(3) that by (auto simp: p' stop_and_close_def run_over_def intro: close_ok_mono)
    moreover have "run_ok p'" "files_ok p'"
      using ok(1,2) by (auto simp: p' run_ok_def files_ok_def stop_and_close_def serve_over_def Let_def split: grpc_run_pc.splits)
    moreover have "gp_closes p' = (gp_closes p)[i := if st = StateRunning then CloseJoin else CloseCleanup]"
      by (simp add: p')
    ultimately show ?thesis
      by (blast intro: grpc_ok_update)
  next
    case CloseJoin
    then have over: "gs_runDone (gp_server p)"
      and p': "p' = p\<lparr>gp_closes := (gp_closes p)[i := CloseReturned (gs_cleanupErr (gp_server p))]\<rparr>"
      using assms(2) i by (simp_all add: close_turn_def split: if_splits)
    have "\<exists>r. gp_run p = RunReturned r" "gs_cleaned (gp_server p)" "gs_state (gp_server p) = StateClosed"
      using ok(1) over by (auto simp: run_ok_def Let_def split: grpc_run_pc.splits)
    then have "close_ok p' (CloseReturned (gs_cleanupErr (gp_server p)))"
      by (simp add: p' close_ok_def run_over_def Let_def)
    moreover have "close_ok p' c" if "c \<in> set (gp_closes p)" for c
      using ok(3) that by (auto simp: p' run_over_def intro: close_ok_mono)
    moreover have "run_ok p'" "files_ok p'"
      using ok(1,2) by (auto simp: p' run_ok_def files_ok_def serve_over_def Let_def split: grpc_run_pc.splits)
    ultimately show ?thesis
      by (intro grpc_ok_update [of p']) (simp_all add: p')
  next
    case CloseCleanup
    let ?p1 = "grpc_cleanup p"
    have p': "p' = ?p1\<lparr>gp_closes := (gp_closes ?p1)[i := CloseReturned (gs_cleanupErr (gp_server ?p1))]\<rparr>"
      using assms(2) i CloseCleanup by (simp add: close_turn_def Let_def)
    have over: "run_over p" "gs_state (gp_server p) \<noteq> StateReady"
      using c CloseCleanup by (simp_all add: close_ok_def Let_def)
    then have "close_ok p' (CloseReturned (gs_cleanupErr (gp_server ?p1)))"
      by (simp add: p' close_ok_def run_over_def grpc_cleanup_facts Let_def)
    moreover have "close_ok p' c" if "c \<in> set (gp_closes p)" for c
      using close_ok_cleanup [of p c] ok(3) that by (auto simp: p' run_over_def intro: close_ok_mono)
    moreover have "run_ok p'"
      using ok(1) over by (auto simp: p' run_ok_def serve_over_def run_over_def grpc_cleanup_facts Let_def split: grpc_run_pc.splits)
        (metis serverState.exhaust)
    moreover have "files_ok p'"
      using grpc_cleanup_facts(9) [OF ok(2)] by (simp add: p' files_ok_def)
    ultimately show ?thesis
      by (intro grpc_ok_update [of p']) (simp_all add: p' grpc_cleanup_facts)
  qed (use assms(2) i in \<open>simp add: close_turn_def\<close>)
qed

lemma grpc_step_ok:
  assumes "grpc_ok p" "grpc_step ev p = Some p'"
  shows "grpc_ok p'"
proof -
  have ok: "run_ok p" "files_ok p" "\<forall>c \<in> set (gp_closes p). close_ok p c"
    using assms(1) by (simp_all add: grpc_ok_def)
  show ?thesis
  proof (cases ev)
    case (CallRun ctxPresent)
    then have p': "p' = snd (grpc_Run ctxPresent p)"
      using assms(2) by simp
    show ?thesis
    proof (cases "ctxPresent \<and> gs_state (gp_server p) = StateReady")
      case True
      then have "gp_closes p = []" "gp_run p = RunIdle"
        using ok by (auto simp: close_ok_def run_ok_def Let_def neq_Nil_conv split: grpc_run_pc.splits)
      with True ok show ?thesis
        by (auto simp: p' grpc_Run_def grpc_ok_def run_ok_def files_ok_def Let_def)
    qed (use assms(1) in \<open>auto simp: p' grpc_Run_def Let_def\<close>)
  next
    case (ServeReturns r)
    then have p': "p' = p\<lparr>gp_serve := Some (Some r)\<rparr>" "gp_serve p = Some None"
      using assms(2) by (simp_all split: if_splits)
    have "close_ok p' c" if "c \<in> set (gp_closes p)" for c
      using ok(3) that by (auto simp: p' run_over_def intro: close_ok_mono)
    moreover have "run_ok p'" "files_ok p'"
      using ok(1,2) p'(2) by (auto simp: p'(1) run_ok_def files_ok_def serve_over_def Let_def split: grpc_run_pc.splits)
    ultimately show ?thesis
      by (simp add: grpc_ok_def p'(1))
  next
    case ContextEnds
    then have p': "p' = p\<lparr>gp_server := stop_and_close (gp_server p), gp_run := RunDrain\<rparr>" "gp_run p = RunSelect"
      using assms(2) by (simp_all split: if_splits)
    have "close_ok p' c" if "c \<in> set (gp_closes p)" for c
      using ok(3) that p'(2) by (auto simp: p' run_over_def stop_and_close_def intro: close_ok_mono)
    moreover have "run_ok p'" "files_ok p'"
      using ok(1,2) p'(2) by (simp_all add: p'(1) run_ok_def files_ok_def stop_and_close_def Let_def)
    ultimately show ?thesis
      by (simp add: grpc_ok_def p'(1))
  qed (use assms in \<open>auto intro: run_turn_ok close_call_ok close_turn_ok\<close>)
qed

lemma grpc_steps_ok: "grpc_steps evs p = Some p' \<Longrightarrow> grpc_ok p \<Longrightarrow> grpc_ok p'"
  by (induction evs p rule: grpc_steps.induct) (auto split: option.splits dest: grpc_step_ok)

lemma grpc_boot_ok: "gs_state s = StateReady \<Longrightarrow> \<not> gs_cleaned s \<Longrightarrow> \<not> gs_runDone s \<Longrightarrow> grpc_ok (grpc_boot s w)"
  by (simp add: grpc_boot_def grpc_ok_def run_ok_def files_ok_def)

lemma close_turn_paths:
  "close_turn i p = Some p' \<Longrightarrow> gs_tempDir (gp_server p') = gs_tempDir (gp_server p) \<and>
     gs_socketPath (gp_server p') = gs_socketPath (gp_server p)"
  by (auto simp: close_turn_def stop_and_close_def grpc_cleanup_facts Let_def split: if_splits close_pc.splits)

lemma run_turn_paths:
  "run_turn p = Some p' \<Longrightarrow> gs_tempDir (gp_server p') = gs_tempDir (gp_server p) \<and>
     gs_socketPath (gp_server p') = gs_socketPath (gp_server p)"
  by (auto simp: run_turn_def stop_and_close_def grpc_cleanup_facts Let_def split: grpc_run_pc.splits option.splits)

lemma grpc_step_paths:
  "grpc_step ev p = Some p' \<Longrightarrow> gs_tempDir (gp_server p') = gs_tempDir (gp_server p) \<and>
     gs_socketPath (gp_server p') = gs_socketPath (gp_server p)"
  by (cases ev) (auto simp: grpc_Run_def close_call_def stop_and_close_def Let_def split: if_splits
      dest: close_turn_paths run_turn_paths)

lemma grpc_steps_paths:
  "grpc_steps evs p = Some p' \<Longrightarrow> gs_tempDir (gp_server p') = gs_tempDir (gp_server p) \<and>
     gs_socketPath (gp_server p') = gs_socketPath (gp_server p)"
  by (induction evs p rule: grpc_steps.induct) (auto split: option.splits dest: grpc_step_paths)

section \<open>Properties\<close>

text \<open>C21. The transport is private from its first instant and leaves nothing behind: on a well-formed file system
  \<^verbatim>\<open>New\<close> makes a fresh directory that only the owner can enter, in a base that is a real private directory,
  with a socket only the owner can use, and at every instant the socket is inside such a directory; and when
  it fails through one fault, the file system is as before.\<close>

theorem transport_private:
  assumes "grpc_New base w = (result, w')" "\<forall>p. fs w p = None \<longrightarrow> fs w (p @ [''workers.sock'']) = None"
    and "hard_faults w \<le> 1"
  shows "case result of
      Inl err \<Rightarrow> fs w' = fs w
    | Inr s \<Rightarrow> \<exists>name. gs_tempDir s = clean_path base @ [name] \<and> gs_socketPath s = gs_tempDir s @ [''workers.sock''] \<and>
        gs_Address s = ''unix://'' @ path_text (gs_socketPath s) \<and>
        fs w (gs_tempDir s) = None \<and> fs w' = transport_files (gs_tempDir s) (fs w) \<and>
        (\<exists>n. fs w (clean_path base) = Some n \<and> nd_kind n = Directory \<and> \<not> shared_mode n) \<and>
        (\<exists>states. fs_log w' = fs_log w @ states \<and> (\<forall>f \<in> set states. socket_guarded (gs_tempDir s) f))"
proof (cases result)
  case (Inl err)
  with assms grpc_New_Inl show ?thesis
    by simp
next
  case (Inr s)
  with grpc_New_Inr [OF assms(1) [unfolded Inr] assms(2)] show ?thesis
    by (auto simp: Let_def ready_server_def gs_Address_def)
qed

text \<open>C22. Whoever returns from \<^verbatim>\<open>Run\<close> or from any of the concurrent calls of \<^verbatim>\<open>Close\<close> finds the transport
  released: no goroutine serves, the listener is closed, the clean-up is done, and unless it reported a
  failure the socket and its directory are gone; every \<^verbatim>\<open>Close\<close> reports that same failure, and \<^verbatim>\<open>Run\<close>
  is refused from then on.\<close>

theorem transport_released:
  assumes "grpc_steps evs (grpc_boot (ready_server D) w) = Some p"
    and "gp_run p = RunReturned e \<or> CloseReturned e \<in> set (gp_closes p)"
  shows "gp_serve p \<noteq> Some None \<and> \<not> gs_listening (gp_server p) \<and> gs_state (gp_server p) = StateClosed \<and>
    gs_cleaned (gp_server p) \<and>
    (gs_cleanupErr (gp_server p) = None \<longrightarrow>
       fs (gp_world p) (D @ [''workers.sock'']) = None \<and> fs (gp_world p) D = None) \<and>
    (\<forall>e'. CloseReturned e' \<in> set (gp_closes p) \<longrightarrow> e' = gs_cleanupErr (gp_server p)) \<and>
    (\<forall>ctxPresent. \<exists>err. grpc_Run ctxPresent p = (Some err, p) \<and> IsCode err InvalidInput)"
proof -
  have "grpc_ok (grpc_boot (ready_server D) w)"
    by (rule grpc_boot_ok) (simp_all add: ready_server_def)
  with assms(1) have ok: "grpc_ok p"
    by (rule grpc_steps_ok)
  then have run: "run_ok p" "files_ok p" and close: "\<And>e'. CloseReturned e' \<in> set (gp_closes p) \<Longrightarrow> close_ok p (CloseReturned e')"
    by (auto simp: grpc_ok_def)
  have paths: "gs_tempDir (gp_server p) = D" "gs_socketPath (gp_server p) = D @ [''workers.sock'']"
    using grpc_steps_paths [OF assms(1)] by (simp_all add: grpc_boot_def ready_server_def)
  have over: "run_over p" "gs_cleaned (gp_server p)" "gs_state (gp_server p) \<noteq> StateReady"
    using assms(2) run(1) close [of e] by (auto simp: run_over_def close_ok_def run_ok_def Let_def)
  then have "gp_serve p \<noteq> Some None" "gs_state (gp_server p) = StateClosed"
    using run(1) by (auto simp: run_over_def run_ok_def serve_over_def Let_def)
  moreover have "\<forall>e'. CloseReturned e' \<in> set (gp_closes p) \<longrightarrow> e' = gs_cleanupErr (gp_server p)"
    using close by (simp add: close_ok_def Let_def)
  ultimately show ?thesis
    using over(2) run(2) paths by (auto simp: files_ok_def grpc_Run_def Let_def)
qed

text \<open>A pending \<^verbatim>\<open>Close\<close> never waits for something that was not stopped: it has a step, or the \<^verbatim>\<open>Run\<close> it joins
  has one, or \<^verbatim>\<open>Serve\<close> has still to return after the server was stopped.\<close>

lemma transport_close_waits:
  assumes "grpc_steps evs (grpc_boot (ready_server D) w) = Some p" "i < length (gp_closes p)"
    and "\<And>e. gp_closes p ! i \<noteq> CloseReturned e"
  shows "close_turn i p \<noteq> None \<or> run_turn p \<noteq> None \<or> gp_serve p = Some None \<and> gs_grpcStopped (gp_server p)"
proof -
  have "grpc_ok (grpc_boot (ready_server D) w)"
    by (rule grpc_boot_ok) (simp_all add: ready_server_def)
  with assms(1) have "grpc_ok p"
    by (rule grpc_steps_ok)
  then have ok: "run_ok p" "close_ok p (gp_closes p ! i)"
    using assms(2) by (simp_all add: grpc_ok_def)
  show ?thesis
  proof (cases "gp_closes p ! i")
    case CloseJoin
    then have "gp_run p \<noteq> RunIdle" "gs_grpcStopped (gp_server p)"
      using ok(2) by (simp_all add: close_ok_def Let_def)
    with ok(1) CloseJoin assms(2) show ?thesis
      by (cases "gp_run p") (auto simp: run_ok_def run_turn_def close_turn_def serve_over_def Let_def split: option.splits)
  qed (use assms(2,3) in \<open>auto simp: close_turn_def Let_def\<close>)
qed

text \<open>A transport under \<^verbatim>\<open>/run\<close>; while it serves, two calls of \<^verbatim>\<open>Close\<close> join it.\<close>

definition demo_runtime :: fs_world where
  "demo_runtime =
     \<lparr>fs = [[] \<mapsto> \<lparr>nd_kind = Directory, nd_perm = 493, nd_sticky = False\<rparr>,
            [''run''] \<mapsto> \<lparr>nd_kind = Directory, nd_perm = 448, nd_sticky = False\<rparr>],
      fs_faults = [], fs_ctx = [], fs_random = [''1''], fs_clock = [], fs_log = []\<rparr>"

lemma demo_runtime_parents: "fs demo_runtime p = None \<Longrightarrow> fs demo_runtime (p @ [''workers.sock'']) = None"
  by (cases p rule: rev_cases) (auto simp: demo_runtime_def split: if_splits)

lemma demo_transport: "fst (grpc_New ''/run/'' demo_runtime) = Inr (ready_server [''run'', ''proactive-grpc-1''])"
  by code_simp

lemma transport_private_witness:
  "\<exists>s w' name. grpc_New ''/run/'' demo_runtime = (Inr s, w') \<and> gs_tempDir s = clean_path ''/run/'' @ [name] \<and>
     fs w' = transport_files (gs_tempDir s) (fs demo_runtime)"
proof -
  let ?s = "ready_server [''run'', ''proactive-grpc-1'']"
  obtain w' where new: "grpc_New ''/run/'' demo_runtime = (Inr ?s, w')"
    using demo_transport by (metis prod.collapse)
  have "hard_faults demo_runtime \<le> 1"
    by (simp add: hard_faults_def demo_runtime_def)
  with transport_private [OF new] demo_runtime_parents show ?thesis
    using new by fastforce
qed

definition demo_grpc_events :: "grpc_event list" where
  "demo_grpc_events =
     [CallRun True, CallClose, CallClose, CloseStep 0, ServeReturns ServeNil, CloseStep 1, RunStep, RunStep, RunStep,
      RunStep, CloseStep 0, CloseStep 1]"

definition grpc_summary :: "grpc_process \<Rightarrow> grpc_run_pc \<times> close_pc list" where
  "grpc_summary p = (gp_run p, gp_closes p)"

lemma demo_grpc_run:
  "map_option grpc_summary (grpc_steps demo_grpc_events
     (grpc_boot (ready_server [''run'', ''proactive-grpc-1'']) (snd (grpc_New ''/run/'' demo_runtime)))) =
   Some (RunReturned None, [CloseReturned None, CloseReturned None])"
  by code_simp

lemma transport_released_witness:
  "\<exists>p. grpc_steps demo_grpc_events
     (grpc_boot (ready_server [''run'', ''proactive-grpc-1'']) (snd (grpc_New ''/run/'' demo_runtime))) = Some p \<and>
     fs (gp_world p) [''run'', ''proactive-grpc-1'', ''workers.sock''] = None \<and> gs_state (gp_server p) = StateClosed"
proof -
  let ?D = "[''run'', ''proactive-grpc-1'']" and ?w = "snd (grpc_New ''/run/'' demo_runtime)"
  obtain p where p: "grpc_steps demo_grpc_events (grpc_boot (ready_server ?D) ?w) = Some p"
    "gp_run p = RunReturned None" "gp_closes p = [CloseReturned None, CloseReturned None]"
    using demo_grpc_run by (auto simp: grpc_summary_def)
  note released = transport_released [OF p(1), of None]
  then have "gs_cleanupErr (gp_server p) = None"
    using p(2,3) by (metis list.set_intros(1))
  with released p show ?thesis
    by simp
qed

end
