(* ===== verification/Web_Avatar.thy ===== *)
theory Web_Avatar
  imports Dispatch Control Go_Strings "HOL-Library.AList"
begin

text \<open>
  Package \<^verbatim>\<open>adapters/embodiment/webavatar\<close> (\<^verbatim>\<open>driver.go\<close>, \<^verbatim>\<open>subscription.go\<close>): the embodiment of the
  desktop. Visual actions complete at once; an utterance is spoken by a goroutine of its own, at most one
  at a time, which the deadline, the caller and \<^verbatim>\<open>StopAll\<close> can cancel. The driver is a record; what
  runs between two uses of its lock is a step. The clock readings and the results of the text realizer and
  of the speaker are arguments of the steps that meet them. The goroutine of a speech is its program
  counter, kept under the identifier of its command.
\<close>

section \<open>Data\<close>

datatype Mode = ModeIdle | ModeAttending | ModeAcknowledging | ModeExpressing | ModeSpeaking | OtherMode string

record Update =
  upd_Revision :: "64 word"
  upd_Mode :: Mode
  upd_Text :: string
  upd_Speaking :: bool
  upd_ActionID :: string
  upd_OccurredAt :: time

text \<open>The cause of a cancelled action context: one of the three sentinels, or the caller's own.\<close>

datatype cancel_cause = ActionFinished | ActionStopped | ActionDeadline | ParentCause goerror

datatype speech_pc =
    Spawned
  | Realizing
  | Rendering string
  | Ending ActionState string string bool
  | Closed

record actionRecord =
  arc_command :: ActionCommand
  arc_statuses :: "ActionStatus list"
  arc_finalized :: bool
  arc_stream :: "ActionStatus list"

record activeSpeech =
  spe_deadline :: time
  spe_cause :: "cancel_cause option"
  spe_pc :: speech_pc

record Avatar =
  ava_speaker :: bool
  ava_capabilities :: Capabilities
  ava_current :: Update
  ava_records :: "string \<rightharpoonup> actionRecord"
  ava_active :: "string option"
  ava_speeches :: "string \<rightharpoonup> activeSpeech"
  ava_subscribers :: "(64 word \<times> Update option) list"
  ava_nextSubID :: "64 word"

definition zero_Update :: Update where
  "zero_Update = \<lparr>upd_Revision = 0, upd_Mode = OtherMode [], upd_Text = [], upd_Speaking = False,
     upd_ActionID = [], upd_OccurredAt = 0\<rparr>"

definition avatar_capabilities :: "bool \<Rightarrow> Capabilities" where
  "avatar_capabilities speaker =
     (let visual = \<lparr>cap_Supported = True, cap_Interruptible = True\<rparr>
      in [AttendUser \<mapsto> visual, Acknowledge \<mapsto> visual, Express \<mapsto> visual, ReturnIdle \<mapsto> visual,
          Speak \<mapsto> \<lparr>cap_Supported = speaker, cap_Interruptible = speaker\<rparr>])"

text \<open>
  \<^verbatim>\<open>New\<close>: which dependencies are present; a speaker may be left out, but not be a typed nil.
\<close>

datatype speaker_arg = NoSpeaker | TypedNil | ASpeaker

definition Avatar_New :: "bool \<Rightarrow> speaker_arg \<Rightarrow> bool \<Rightarrow> time \<Rightarrow> goerror + Avatar" where
  "Avatar_New realizer speaker clock now =
     (let op = ''create web avatar driver'' in
      if \<not> realizer then Inl (New_fault InvalidInput op (Leaf ''text realizer is required''))
      else if \<not> clock then Inl (New_fault InvalidInput op (Leaf ''clock is required''))
      else if speaker = TypedNil then
        Inl (New_fault InvalidInput op (Leaf ''speaker must not be typed nil''))
      else Inr \<lparr>ava_speaker = (speaker \<noteq> NoSpeaker), ava_capabilities = avatar_capabilities (speaker \<noteq> NoSpeaker),
                ava_current = zero_Update\<lparr>upd_Mode := ModeIdle, upd_OccurredAt := now\<rparr>,
                ava_records = Map.empty, ava_active = None, ava_speeches = Map.empty,
                ava_subscribers = [], ava_nextSubID = 0\<rparr>)"

section \<open>Publishing\<close>

definition avatar_publish :: "Update \<Rightarrow> Avatar \<Rightarrow> Avatar" where
  "avatar_publish update d =
     (let current = update\<lparr>upd_Revision := upd_Revision (ava_current d) + 1\<rparr>
      in d\<lparr>ava_current := current,
           ava_subscribers := map (\<lambda>(i, ch). (i, Some current)) (ava_subscribers d)\<rparr>)"

definition avatar_Current :: "Avatar \<Rightarrow> Update" where
  "avatar_Current d = ava_current d"

definition avatar_Subscribe :: "Avatar \<Rightarrow> (Update \<times> 64 word) \<times> Avatar" where
  "avatar_Subscribe d =
     (let i = ava_nextSubID d
      in ((ava_current d, i), d\<lparr>ava_subscribers := AList.update i None (ava_subscribers d), ava_nextSubID := i + 1\<rparr>))"

definition avatar_cancel :: "64 word \<Rightarrow> Avatar \<Rightarrow> Avatar" where
  "avatar_cancel i d = d\<lparr>ava_subscribers := AList.delete i (ava_subscribers d)\<rparr>"

definition avatar_receive :: "64 word \<Rightarrow> Avatar \<Rightarrow> (Update \<times> Avatar) option" where
  "avatar_receive i d =
     (case map_of (ava_subscribers d) i of
        Some (Some v) \<Rightarrow> Some (v, d\<lparr>ava_subscribers := AList.update i None (ava_subscribers d)\<rparr>)
      | _ \<Rightarrow> None)"

section \<open>Executing an action\<close>

text \<open>The context of a call: nil, live, or its error.\<close>

datatype call_ctx = CallNil | CallLive | CallErr goerror

definition avatar_context :: "string \<Rightarrow> call_ctx \<Rightarrow> goerror option" where
  "avatar_context op ctx =
     (case ctx of
        CallNil \<Rightarrow> Some (New_fault InvalidInput op (Leaf ''context is required''))
      | CallLive \<Rightarrow> None
      | CallErr err \<Rightarrow> Some (classifyContext op err))"

definition validateCommand :: "ActionCommand \<Rightarrow> goerror option" where
  "validateCommand c =
     (let invalid = (\<lambda>msg. Some (New_fault InvalidInput ''validate web avatar action'' (Leaf msg))) in
      if com_ID c = [] \<or> com_InteractionID c = [] \<or> com_TraceID c = [] then
        invalid ''id, interaction_id, and trace_id are required''
      else if IsZero (com_Deadline c) then invalid ''deadline is required''
      else if com_Preemption c \<noteq> PreemptInterruptible then invalid ''unsupported preemption %q''
      else if com_Idempotency c \<noteq> IdempotentByActionID then invalid ''unsupported idempotency %q''
      else if com_RequiredCapability c \<noteq> act_Type (com_Action c) then
        invalid ''required capability must match action type''
      else if act_Timeout (com_Action c) \<le> 0 then invalid ''action timeout must be positive''
      else (case act_Type (com_Action c) of
          Speak \<Rightarrow>
            if act_TemplateID (com_Action c) = [] then invalid ''speak action requires template_id'' else None
        | OtherActionType t \<Rightarrow> invalid ''unsupported action type %q''
        | _ \<Rightarrow> None))"

definition newStatus :: "ActionCommand \<Rightarrow> ActionState \<Rightarrow> time \<Rightarrow> string \<Rightarrow> ActionStatus" where
  "newStatus c state occurredAt reason =
     \<lparr>sta_ActionID = com_ID c, sta_InteractionID = com_InteractionID c, sta_TraceID = com_TraceID c,
      sta_State = state, sta_OccurredAt = occurredAt, sta_Reason = reason\<rparr>"

definition makeStatuses :: "ActionCommand \<Rightarrow> time \<Rightarrow> ActionState list \<Rightarrow> ActionStatus list" where
  "makeStatuses c occurredAt states = map (\<lambda>state. newStatus c state occurredAt []) states"

definition updateForVisualAction :: "ActionCommand \<Rightarrow> time \<Rightarrow> Update" where
  "updateForVisualAction c occurredAt =
     zero_Update\<lparr>upd_Mode := (case act_Type (com_Action c) of
                     AttendUser \<Rightarrow> ModeAttending
                   | Acknowledge \<Rightarrow> ModeAcknowledging
                   | Express \<Rightarrow> ModeExpressing
                   | _ \<Rightarrow> ModeIdle),
                 upd_ActionID := com_ID c, upd_OccurredAt := occurredAt\<rparr>"

text \<open>What \<^verbatim>\<open>Execute\<close> returns: a closed stream of statuses, or the stream of the record.\<close>

datatype avatar_stream = CompletedStream "ActionStatus list" | LiveStream string

definition visual_action :: "ActionCommand \<Rightarrow> time \<Rightarrow> time \<Rightarrow> Avatar \<Rightarrow> (goerror + avatar_stream) \<times> Avatar" where
  "visual_action c now published d =
     (let statuses = makeStatuses c now [ActionDispatched, ActionAccepted, ActionStarted] @
                     [newStatus c ActionCompleted now []]
      in (Inr (CompletedStream statuses),
          avatar_publish (updateForVisualAction c published)
            (d\<lparr>ava_records := (ava_records d)(com_ID c \<mapsto>
                 \<lparr>arc_command = c, arc_statuses = statuses, arc_finalized = True, arc_stream = []\<rparr>)\<rparr>)))"

definition start_speech :: "ActionCommand \<Rightarrow> time \<Rightarrow> Avatar \<Rightarrow> (goerror + avatar_stream) \<times> Avatar" where
  "start_speech c now d =
     (let initial = makeStatuses c now [ActionDispatched, ActionAccepted, ActionStarted]
      in (Inr (LiveStream (com_ID c)),
          d\<lparr>ava_records := (ava_records d)(com_ID c \<mapsto>
               \<lparr>arc_command = c, arc_statuses = initial, arc_finalized = False, arc_stream = initial\<rparr>),
            ava_active := Some (com_ID c),
            ava_speeches := (ava_speeches d)(com_ID c \<mapsto>
               \<lparr>spe_deadline = com_Deadline c, spe_cause = None, spe_pc = Spawned\<rparr>)\<rparr>))"

definition avatar_Execute ::
    "call_ctx \<Rightarrow> ActionCommand \<Rightarrow> time \<Rightarrow> time \<Rightarrow> Avatar \<Rightarrow> (goerror + avatar_stream) \<times> Avatar" where
  "avatar_Execute ctx c now published d =
     (let op = ''execute web avatar action'' in
      case avatar_context op ctx of
        Some err \<Rightarrow> (Inl err, d)
      | None \<Rightarrow>
          (case validateCommand c of
             Some err \<Rightarrow> (Inl err, d)
           | None \<Rightarrow>
               (case ava_records d (com_ID c) of
                  Some previous \<Rightarrow>
                    if arc_command previous \<noteq> c then
                      (Inl (New_fault AdapterRejected op (Leaf ''action id %s conflicts with its recorded command'')), d)
                    else if \<not> arc_finalized previous then
                      (Inl (New_fault AdapterRejected op (Leaf ''action %s is still active'')), d)
                    else (Inr (CompletedStream (arc_statuses previous)), d)
                | None \<Rightarrow>
                    if \<not> Before now (com_Deadline c) then
                      (Inl (New_fault DeadlineExceeded op (Leaf ''action %s deadline elapsed'')), d)
                    else if \<not> supported (ava_capabilities d) (com_RequiredCapability c) then
                      (Inl (New_fault CapabilityMissing op (Leaf ''capability %s is unavailable'')), d)
                    else if act_Type (com_Action c) = Speak \<and> ava_active d \<noteq> None then
                      (Inl (New_fault AdapterRejected op (Leaf ''another speech action is active'')), d)
                    else if act_Type (com_Action c) \<noteq> Speak then visual_action c now published d
                    else start_speech c now d)))"

definition avatar_Capabilities :: "call_ctx \<Rightarrow> Avatar \<Rightarrow> goerror + Capabilities" where
  "avatar_Capabilities ctx d =
     (case avatar_context ''read web avatar capabilities'' ctx of
        Some err \<Rightarrow> Inl err
      | None \<Rightarrow> Inr (ava_capabilities d))"

section \<open>The goroutine of a speech\<close>

text \<open>A context is cancelled once: the first cause stays.\<close>

definition cancel_with :: "cancel_cause \<Rightarrow> activeSpeech \<Rightarrow> activeSpeech" where
  "cancel_with cause sp = (if spe_cause sp = None then sp\<lparr>spe_cause := Some cause\<rparr> else sp)"

definition applyExactDeadline :: "time \<Rightarrow> activeSpeech \<Rightarrow> activeSpeech" where
  "applyExactDeadline now sp = (if \<not> Before now (spe_deadline sp) then cancel_with ActionDeadline sp else sp)"

text \<open>The state and the reason, or \<open>None\<close> when the third result is false.\<close>

fun terminalFromCause :: "cancel_cause option \<Rightarrow> (ActionState \<times> string) option" where
  "terminalFromCause None = None"
| "terminalFromCause (Some ActionFinished) = None"
| "terminalFromCause (Some ActionDeadline) = Some (ActionTimedOut, ''DEADLINE_EXCEEDED'')"
| "terminalFromCause (Some ActionStopped) = Some (ActionCancelled, ''STOP_ALL'')"
| "terminalFromCause (Some (ParentCause err)) =
     (if ErrIs err ContextDeadlineExceeded then Some (ActionTimedOut, ''DEADLINE_EXCEEDED'')
      else Some (ActionCancelled, ''CONTEXT_CANCELLED''))"

definition set_speech :: "string \<Rightarrow> activeSpeech \<Rightarrow> Avatar \<Rightarrow> Avatar" where
  "set_speech i sp d = d\<lparr>ava_speeches := (ava_speeches d)(i \<mapsto> sp)\<rparr>"

text \<open>What the environment gives the goroutine at its next step.\<close>

datatype speech_event =
    SpeechBegins time
  | SpeechRealized "goerror + string" time time
  | SpeechSpoken "goerror option" time
  | SpeechEnds time time

definition performSpeech_begin :: "string \<Rightarrow> time \<Rightarrow> activeSpeech \<Rightarrow> Avatar \<Rightarrow> Avatar" where
  "performSpeech_begin i now sp d =
     (let sp1 = applyExactDeadline now sp
      in case terminalFromCause (spe_cause sp1) of
          Some (state, reason) \<Rightarrow> set_speech i (sp1\<lparr>spe_pc := Ending state reason [] False\<rparr>) d
        | None \<Rightarrow> set_speech i (sp1\<lparr>spe_pc := Realizing\<rparr>) d)"

definition performSpeech_realized ::
    "string \<Rightarrow> goerror + string \<Rightarrow> time \<Rightarrow> time \<Rightarrow> activeSpeech \<Rightarrow> Avatar \<Rightarrow> Avatar" where
  "performSpeech_realized i utterance now published sp d =
     (let sp1 = applyExactDeadline now sp
      in case terminalFromCause (spe_cause sp1) of
          Some (state, reason) \<Rightarrow> set_speech i (sp1\<lparr>spe_pc := Ending state reason [] False\<rparr>) d
        | None \<Rightarrow>
            (case utterance of
               Inl err \<Rightarrow> set_speech i (sp1\<lparr>spe_pc := Ending ActionFailed ''TEXT_REALIZATION_FAILED'' [] False\<rparr>) d
             | Inr txt \<Rightarrow>
                 if TrimSpace txt = [] then
                   set_speech i (sp1\<lparr>spe_pc := Ending ActionFailed ''TEXT_REALIZATION_FAILED'' [] False\<rparr>) d
                 else
                   set_speech i (sp1\<lparr>spe_pc := Rendering txt\<rparr>)
                     (avatar_publish (zero_Update\<lparr>upd_Mode := ModeSpeaking, upd_Text := txt, upd_Speaking := True,
                        upd_ActionID := i, upd_OccurredAt := published\<rparr>) d)))"

definition performSpeech_spoken ::
    "string \<Rightarrow> string \<Rightarrow> goerror option \<Rightarrow> time \<Rightarrow> activeSpeech \<Rightarrow> Avatar \<Rightarrow> Avatar" where
  "performSpeech_spoken i txt err now sp d =
     (let sp1 = applyExactDeadline now sp
      in case terminalFromCause (spe_cause sp1) of
          Some (state, reason) \<Rightarrow> set_speech i (sp1\<lparr>spe_pc := Ending state reason txt True\<rparr>) d
        | None \<Rightarrow>
            (if err \<noteq> None then set_speech i (sp1\<lparr>spe_pc := Ending ActionFailed ''SPEECH_FAILED'' txt True\<rparr>) d
             else set_speech i (sp1\<lparr>spe_pc := Ending ActionCompleted [] txt True\<rparr>) d))"

definition finishSpeech ::
    "string \<Rightarrow> ActionState \<Rightarrow> string \<Rightarrow> string \<Rightarrow> bool \<Rightarrow> time \<Rightarrow> time \<Rightarrow> activeSpeech \<Rightarrow> Avatar \<Rightarrow> Avatar" where
  "finishSpeech i state reason txt visualized now published sp d =
     (case ava_records d i of
        None \<Rightarrow> d
      | Some rec \<Rightarrow>
          let status = newStatus (arc_command rec) state now reason;
              rec1 = rec\<lparr>arc_statuses := arc_statuses rec @ [status], arc_finalized := True,
                         arc_stream := arc_stream rec @ [status]\<rparr>;
              d1 = d\<lparr>ava_records := (ava_records d)(i \<mapsto> rec1)\<rparr>;
              d2 = (if visualized then
                      avatar_publish (zero_Update\<lparr>upd_Mode := ModeSpeaking, upd_Text := txt, upd_Speaking := False,
                        upd_ActionID := i, upd_OccurredAt := published\<rparr>) d1
                    else d1)
          in set_speech i (sp\<lparr>spe_pc := Closed\<rparr>)
               (if ava_active d2 = Some i then d2\<lparr>ava_active := None\<rparr> else d2))"

fun runSpeech :: "string \<Rightarrow> speech_event \<Rightarrow> Avatar \<Rightarrow> Avatar option" where
  "runSpeech i ev d =
     (case ava_speeches d i of
        None \<Rightarrow> None
      | Some sp \<Rightarrow>
          (case (spe_pc sp, ev) of
             (Spawned, SpeechBegins now) \<Rightarrow> Some (performSpeech_begin i now sp d)
           | (Realizing, SpeechRealized utterance now published) \<Rightarrow>
               Some (performSpeech_realized i utterance now published sp d)
           | (Rendering txt, SpeechSpoken err now) \<Rightarrow> Some (performSpeech_spoken i txt err now sp d)
           | (Ending state reason txt visualized, SpeechEnds now published) \<Rightarrow>
               Some (finishSpeech i state reason txt visualized now published (cancel_with ActionFinished sp) d)
           | _ \<Rightarrow> None))"

text \<open>The timer of the watching goroutine, and the end of the caller's context.\<close>

definition watch_deadline :: "string \<Rightarrow> time \<Rightarrow> Avatar \<Rightarrow> Avatar option" where
  "watch_deadline i now d =
     (case ava_speeches d i of
        None \<Rightarrow> None
      | Some sp \<Rightarrow>
          if Before now (spe_deadline sp) then None else Some (set_speech i (cancel_with ActionDeadline sp) d))"

definition parent_ends :: "string \<Rightarrow> goerror \<Rightarrow> Avatar \<Rightarrow> Avatar option" where
  "parent_ends i err d =
     (case ava_speeches d i of
        None \<Rightarrow> None
      | Some sp \<Rightarrow> Some (set_speech i (cancel_with (ParentCause err) sp) d))"

section \<open>Stopping\<close>

text \<open>
  \<^verbatim>\<open>StopAll\<close> up to its wait: the error of the context, or the speech it cancelled and joins; then, once
  that speech is closed, the rest of it with the answer of the speaker (none without a speaker).
\<close>

definition avatar_StopAll :: "call_ctx \<Rightarrow> Avatar \<Rightarrow> (goerror + string option) \<times> Avatar" where
  "avatar_StopAll ctx d =
     (case avatar_context ''stop web avatar actions'' ctx of
        Some err \<Rightarrow> (Inl err, d)
      | None \<Rightarrow>
          (case ava_active d of
             None \<Rightarrow> (Inr None, d)
           | Some i \<Rightarrow>
               (Inr (Some i),
                (case ava_speeches d i of
                   None \<Rightarrow> d
                 | Some sp \<Rightarrow> set_speech i (cancel_with ActionStopped sp) d))))"

definition avatar_stopped ::
    "string option \<Rightarrow> goerror option \<Rightarrow> time \<Rightarrow> Avatar \<Rightarrow> (goerror option \<times> Avatar) option" where
  "avatar_stopped joined stopErr now d =
     (if (case joined of None \<Rightarrow> True
          | Some i \<Rightarrow> (case ava_speeches d i of None \<Rightarrow> True | Some sp \<Rightarrow> spe_pc sp = Closed))
      then Some (if ava_speaker d then map_option (classifyContext ''stop web avatar actions'') stopErr else None,
                 avatar_publish (zero_Update\<lparr>upd_Mode := ModeIdle, upd_OccurredAt := now\<rparr>) d)
      else None)"

text \<open>The reader of the stream of a speech takes the next status.\<close>

definition take_status :: "string \<Rightarrow> Avatar \<Rightarrow> (ActionStatus \<times> Avatar) option" where
  "take_status i d =
     (case ava_records d i of
        None \<Rightarrow> None
      | Some rec \<Rightarrow>
          (case arc_stream rec of
             [] \<Rightarrow> None
           | s # rest \<Rightarrow> Some (s, d\<lparr>ava_records := (ava_records d)(i \<mapsto> rec\<lparr>arc_stream := rest\<rparr>)\<rparr>)))"

end
