(* ===== verification/Web_Avatar_Props.thy ===== *)
theory Web_Avatar_Props
  imports Web_Avatar
begin

text \<open>
  Runs of the web avatar: the life cycle of every action, the one active speech, the truth of the
  picture, replays, and the end of every speech.
\<close>

section \<open>Runs\<close>

datatype avatar_op =
    AvExecute call_ctx ActionCommand time time
  | AvSpeech string speech_event
  | AvDeadline string time
  | AvParent string goerror
  | AvStop call_ctx
  | AvStopped "string option" "goerror option" time
  | AvTake string
  | AvSubscribe
  | AvCancel "64 word"
  | AvReceive "64 word"

fun avatar_step :: "avatar_op \<Rightarrow> Avatar \<times> (64 word \<rightharpoonup> Update) \<Rightarrow> (Avatar \<times> (64 word \<rightharpoonup> Update)) option" where
  "avatar_step (AvExecute ctx c now published) (d, view) = Some (snd (avatar_Execute ctx c now published d), view)"
| "avatar_step (AvSpeech i ev) (d, view) = map_option (\<lambda>d'. (d', view)) (runSpeech i ev d)"
| "avatar_step (AvDeadline i now) (d, view) = map_option (\<lambda>d'. (d', view)) (watch_deadline i now d)"
| "avatar_step (AvParent i err) (d, view) = map_option (\<lambda>d'. (d', view)) (parent_ends i err d)"
| "avatar_step (AvStop ctx) (d, view) = Some (snd (avatar_StopAll ctx d), view)"
| "avatar_step (AvStopped joined err now) (d, view) =
     map_option (\<lambda>(out, d'). (d', view)) (avatar_stopped joined err now d)"
| "avatar_step (AvTake i) (d, view) = map_option (\<lambda>(s, d'). (d', view)) (take_status i d)"
| "avatar_step AvSubscribe (d, view) = (case avatar_Subscribe d of ((u, i), d') \<Rightarrow> Some (d', view(i \<mapsto> u)))"
| "avatar_step (AvCancel i) (d, view) = Some (avatar_cancel i d, view)"
| "avatar_step (AvReceive i) (d, view) = map_option (\<lambda>(u, d'). (d', view(i \<mapsto> u))) (avatar_receive i d)"

fun avatar_steps ::
    "avatar_op list \<Rightarrow> Avatar \<times> (64 word \<rightharpoonup> Update) \<Rightarrow> (Avatar \<times> (64 word \<rightharpoonup> Update)) option" where
  "avatar_steps [] st = Some st"
| "avatar_steps (op # ops) st =
     (case avatar_step op st of None \<Rightarrow> None | Some st' \<Rightarrow> avatar_steps ops st')"

section \<open>The invariant\<close>

text \<open>Three opening statuses at one instant; then, once the action is over, one terminal status.\<close>

definition life_cycle :: "ActionCommand \<Rightarrow> bool \<Rightarrow> ActionStatus list \<Rightarrow> bool" where
  "life_cycle c over sts =
     (\<exists>now rest. sts = makeStatuses c now [ActionDispatched, ActionAccepted, ActionStarted] @ rest \<and>
        (if over then \<exists>state t reason. isTerminalActionState state \<and> rest = [newStatus c state t reason]
         else rest = []))"

definition action_record_ok :: "string \<Rightarrow> actionRecord \<Rightarrow> bool" where
  "action_record_ok i rec =
     (com_ID (arc_command rec) = i \<and> life_cycle (arc_command rec) (arc_finalized rec) (arc_statuses rec) \<and>
      (\<exists>k. arc_stream rec = drop k (arc_statuses rec)))"

fun pc_ok :: "speech_pc \<Rightarrow> bool" where
  "pc_ok (Ending state reason txt visualized) = isTerminalActionState state"
| "pc_ok pc = True"

text \<open>The picture shows a speech only while that speech is being rendered.\<close>

fun displays :: "string \<Rightarrow> speech_pc \<Rightarrow> bool" where
  "displays txt (Rendering t) = (t = txt)"
| "displays txt (Ending state reason t visualized) = (visualized \<and> t = txt)"
| "displays txt pc = False"

definition picture_ok :: "Avatar \<Rightarrow> bool" where
  "picture_ok d =
     ((\<forall>m. upd_Mode (ava_current d) \<noteq> OtherMode m) \<and>
      (upd_Speaking (ava_current d) \<longrightarrow>
         upd_Mode (ava_current d) = ModeSpeaking \<and> ava_active d = Some (upd_ActionID (ava_current d)) \<and>
         (\<exists>sp. ava_speeches d (upd_ActionID (ava_current d)) = Some sp \<and>
               displays (upd_Text (ava_current d)) (spe_pc sp))))"

definition speeches_ok :: "Avatar \<Rightarrow> bool" where
  "speeches_ok d =
     ((\<forall>i rec. ava_records d i = Some rec \<longrightarrow> action_record_ok i rec \<and> (\<not> arc_finalized rec \<longrightarrow> ava_active d = Some i)) \<and>
      (\<forall>i. ava_active d = Some i \<longrightarrow>
         (\<exists>rec sp. ava_records d i = Some rec \<and> \<not> arc_finalized rec \<and> ava_speeches d i = Some sp \<and> spe_pc sp \<noteq> Closed)) \<and>
      (\<forall>i sp. ava_speeches d i = Some sp \<longrightarrow>
         ava_records d i \<noteq> None \<and> pc_ok (spe_pc sp) \<and> (spe_pc sp \<noteq> Closed \<longrightarrow> ava_active d = Some i)))"

definition updates_current :: "Avatar \<times> (64 word \<rightharpoonup> Update) \<Rightarrow> bool" where
  "updates_current st =
     ((\<forall>i v. map_of (ava_subscribers (fst st)) i = Some (Some v) \<longrightarrow> v = ava_current (fst st)) \<and>
      (\<forall>i. map_of (ava_subscribers (fst st)) i = Some None \<longrightarrow> snd st i = Some (ava_current (fst st))))"

lemma publish_simps [simp]:
  "ava_records (avatar_publish u d) = ava_records d"
  "ava_active (avatar_publish u d) = ava_active d"
  "ava_speeches (avatar_publish u d) = ava_speeches d"
  "ava_speaker (avatar_publish u d) = ava_speaker d"
  "ava_capabilities (avatar_publish u d) = ava_capabilities d"
  "ava_current (avatar_publish u d) = u\<lparr>upd_Revision := upd_Revision (ava_current d) + 1\<rparr>"
  by (simp_all add: avatar_publish_def Let_def)

lemma updates_current_publish [simp]: "updates_current (avatar_publish u d, view)"
  by (auto simp: updates_current_def avatar_publish_def Let_def map_of_map)

lemma set_speech_simps [simp]:
  "ava_records (set_speech i sp d) = ava_records d"
  "ava_active (set_speech i sp d) = ava_active d"
  "ava_speeches (set_speech i sp d) = (ava_speeches d)(i \<mapsto> sp)"
  "ava_current (set_speech i sp d) = ava_current d"
  "ava_subscribers (set_speech i sp d) = ava_subscribers d"
  by (simp_all add: set_speech_def)

lemma cancel_with_simps [simp]:
  "spe_pc (cancel_with cause sp) = spe_pc sp" "spe_pc (applyExactDeadline now sp) = spe_pc sp"
  by (simp_all add: cancel_with_def applyExactDeadline_def)

lemma zero_Update_simps [simp]: "upd_Speaking zero_Update = False" "upd_Text zero_Update = []"
  by (simp_all add: zero_Update_def)

lemma speeches_okI:
  assumes "\<And>i rec. ava_records d i = Some rec \<Longrightarrow> action_record_ok i rec \<and> (\<not> arc_finalized rec \<longrightarrow> ava_active d = Some i)"
    and "\<And>i. ava_active d = Some i \<Longrightarrow>
         \<exists>rec sp. ava_records d i = Some rec \<and> \<not> arc_finalized rec \<and> ava_speeches d i = Some sp \<and> spe_pc sp \<noteq> Closed"
    and "\<And>i sp. ava_speeches d i = Some sp \<Longrightarrow>
         ava_records d i \<noteq> None \<and> pc_ok (spe_pc sp) \<and> (spe_pc sp \<noteq> Closed \<longrightarrow> ava_active d = Some i)"
  shows "speeches_ok d"
  using assms unfolding speeches_ok_def by blast

lemma speeches_okD:
  assumes "speeches_ok d"
  shows "ava_records d i = Some rec \<Longrightarrow> action_record_ok i rec \<and> (\<not> arc_finalized rec \<longrightarrow> ava_active d = Some i)"
    and "ava_active d = Some i \<Longrightarrow>
         \<exists>rec sp. ava_records d i = Some rec \<and> \<not> arc_finalized rec \<and> ava_speeches d i = Some sp \<and> spe_pc sp \<noteq> Closed"
    and "ava_speeches d i = Some sp \<Longrightarrow>
         ava_records d i \<noteq> None \<and> pc_ok (spe_pc sp) \<and> (spe_pc sp \<noteq> Closed \<longrightarrow> ava_active d = Some i)"
  using assms unfolding speeches_ok_def by blast+

text \<open>A new program counter of the active speech, or a new cause of any speech.\<close>

lemma set_speech_ok:
  assumes "speeches_ok d" "ava_speeches d i = Some sp0" "spe_pc sp \<noteq> Closed \<longleftrightarrow> spe_pc sp0 \<noteq> Closed" "pc_ok (spe_pc sp)"
  shows "speeches_ok (set_speech i sp d)"
proof (rule speeches_okI)
  fix j rec
  assume "ava_records (set_speech i sp d) j = Some rec"
  then show "action_record_ok j rec \<and> (\<not> arc_finalized rec \<longrightarrow> ava_active (set_speech i sp d) = Some j)"
    using speeches_okD(1) [OF assms(1)] by simp
next
  fix j
  assume "ava_active (set_speech i sp d) = Some j"
  with speeches_okD(2) [OF assms(1), of j] assms(2,3)
  show "\<exists>rec sp'. ava_records (set_speech i sp d) j = Some rec \<and> \<not> arc_finalized rec \<and>
      ava_speeches (set_speech i sp d) j = Some sp' \<and> spe_pc sp' \<noteq> Closed"
    by (cases "j = i") auto
next
  fix j sp'
  assume "ava_speeches (set_speech i sp d) j = Some sp'"
  with speeches_okD(3) [OF assms(1)] assms(2-4)
  show "ava_records (set_speech i sp d) j \<noteq> None \<and> pc_ok (spe_pc sp') \<and>
      (spe_pc sp' \<noteq> Closed \<longrightarrow> ava_active (set_speech i sp d) = Some j)"
    by (cases "j = i") auto
qed

lemma speeches_ok_frame:
  assumes "speeches_ok d" "ava_records d' = ava_records d" "ava_active d' = ava_active d" "ava_speeches d' = ava_speeches d"
  shows "speeches_ok d'"
  using assms by (simp add: speeches_ok_def)

lemma speeches_ok_publish [simp]: "speeches_ok (avatar_publish u d) = speeches_ok d"
  by (simp add: speeches_ok_def)

lemma terminal_state: "terminalFromCause cause = Some (state, reason) \<Longrightarrow> isTerminalActionState state"
  by (cases cause rule: terminalFromCause.cases) (auto simp: isTerminalActionState_def split: if_splits)

text \<open>The end of a speech.\<close>

lemma life_cycle_end:
  "life_cycle c False sts \<Longrightarrow> isTerminalActionState state \<Longrightarrow> life_cycle c True (sts @ [newStatus c state now reason])"
  unfolding life_cycle_def if_True if_False by blast

lemma action_record_end:
  assumes "action_record_ok i rec" "\<not> arc_finalized rec" "isTerminalActionState state"
    and "status = newStatus (arc_command rec) state now reason"
  shows "action_record_ok i (rec\<lparr>arc_statuses := arc_statuses rec @ [status], arc_finalized := True,
                         arc_stream := arc_stream rec @ [status]\<rparr>)"
proof -
  from assms(1) obtain k where "arc_stream rec = drop k (arc_statuses rec)"
    by (auto simp: action_record_ok_def)
  then have "arc_stream rec @ [status] = drop (min k (length (arc_statuses rec))) (arc_statuses rec @ [status])"
    by (cases "k \<le> length (arc_statuses rec)") simp_all
  then have "\<exists>k. arc_stream rec @ [status] = drop k (arc_statuses rec @ [status])" ..
  with assms show ?thesis
    by (simp add: action_record_ok_def life_cycle_end del: drop_append)
qed

lemma speeches_ok_update:
  assumes "speeches_ok d" "\<And>j. j \<noteq> i \<Longrightarrow> ava_records d' j = ava_records d j \<and> ava_speeches d' j = ava_speeches d j"
    and "\<And>j. j \<noteq> i \<Longrightarrow> ava_active d' = Some j \<longleftrightarrow> ava_active d = Some j"
    and "ava_records d' i = Some rec" "action_record_ok i rec" "\<not> arc_finalized rec \<longleftrightarrow> ava_active d' = Some i"
    and "case ava_speeches d' i of None \<Rightarrow> arc_finalized rec
         | Some sp \<Rightarrow> pc_ok (spe_pc sp) \<and> (spe_pc sp = Closed \<longleftrightarrow> arc_finalized rec)"
  shows "speeches_ok d'"
proof (rule speeches_okI)
  fix j r
  assume "ava_records d' j = Some r"
  with assms speeches_okD(1) [OF assms(1)] show "action_record_ok j r \<and> (\<not> arc_finalized r \<longrightarrow> ava_active d' = Some j)"
    by (cases "j = i") auto
next
  fix j
  assume "ava_active d' = Some j"
  with assms(2-7) speeches_okD(2) [OF assms(1), of j]
  show "\<exists>rec sp. ava_records d' j = Some rec \<and> \<not> arc_finalized rec \<and> ava_speeches d' j = Some sp \<and> spe_pc sp \<noteq> Closed"
    by (cases "j = i") (auto split: option.splits)
next
  fix j sp
  assume "ava_speeches d' j = Some sp"
  with assms(2-7) speeches_okD(3) [OF assms(1), of j sp]
  show "ava_records d' j \<noteq> None \<and> pc_ok (spe_pc sp) \<and> (spe_pc sp \<noteq> Closed \<longrightarrow> ava_active d' = Some j)"
    by (cases "j = i") auto
qed

section \<open>Every step keeps it\<close>

lemma avatar_Execute_cases:
  obtains (refused) err where "avatar_Execute ctx c now published d = (Inl err, d)"
  | (replayed) rec where "avatar_Execute ctx c now published d = (Inr (CompletedStream (arc_statuses rec)), d)"
      "ava_records d (com_ID c) = Some rec" "arc_command rec = c" "arc_finalized rec"
  | (visual) "avatar_Execute ctx c now published d = visual_action c now published d"
      "ava_records d (com_ID c) = None" "act_Type (com_Action c) \<noteq> Speak"
  | (speech) "avatar_Execute ctx c now published d = start_speech c now d"
      "ava_records d (com_ID c) = None" "act_Type (com_Action c) = Speak" "ava_active d = None"
  by (cases "avatar_context ''execute web avatar action'' ctx"; cases "validateCommand c";
      cases "ava_records d (com_ID c)")
    (fastforce simp: avatar_Execute_def Let_def split: if_splits)+

definition avatar_ok :: "Avatar \<times> (64 word \<rightharpoonup> Update) \<Rightarrow> bool" where
  "avatar_ok st = (speeches_ok (fst st) \<and> picture_ok (fst st) \<and> updates_current st)"

lemma picture_ok_quiet:
  "upd_Speaking u = False \<Longrightarrow> \<forall>m. upd_Mode u \<noteq> OtherMode m \<Longrightarrow> picture_ok (avatar_publish u d)"
  by (simp add: picture_ok_def)

lemma visual_mode: "upd_Mode (updateForVisualAction c t) \<noteq> OtherMode m" "upd_Speaking (updateForVisualAction c t) = False"
  by (simp_all add: updateForVisualAction_def split: ActionType.split)

lemma visual_action_ok:
  assumes "speeches_ok d" "ava_records d (com_ID c) = None"
  shows "speeches_ok (snd (visual_action c now published d))"
proof -
  let ?d = "snd (visual_action c now published d)"
  have none: "ava_active d \<noteq> Some (com_ID c)"
    using assms(2) speeches_okD(2) [OF assms(1), of "com_ID c"] by auto
  moreover have "ava_speeches d (com_ID c) = None"
    using assms(2) speeches_okD(3) [OF assms(1), of "com_ID c"] by (cases "ava_speeches d (com_ID c)") simp_all
  ultimately have none: "ava_active d \<noteq> Some (com_ID c)" "ava_speeches d (com_ID c) = None" .
  have "isTerminalActionState ActionCompleted"
    by (simp add: isTerminalActionState_def)
  then have "life_cycle c True (makeStatuses c now [ActionDispatched, ActionAccepted, ActionStarted] @
      [newStatus c ActionCompleted now []])"
    unfolding life_cycle_def if_True by blast
  then have "action_record_ok (com_ID c) (the (ava_records ?d (com_ID c)))" "arc_finalized (the (ava_records ?d (com_ID c)))"
    by (auto simp: visual_action_def Let_def action_record_ok_def simp del: append.simps
        intro: exI [of _ 4] simp: makeStatuses_def)
  with none show ?thesis
    by (intro speeches_ok_update [OF assms(1), of "com_ID c" _ "the (ava_records ?d (com_ID c))"])
      (auto simp: visual_action_def Let_def)
qed

lemma start_speech_ok:
  assumes "speeches_ok d" "ava_records d (com_ID c) = None" "ava_active d = None"
  shows "speeches_ok (snd (start_speech c now d))"
proof -
  let ?d = "snd (start_speech c now d)"
  have "life_cycle c False (makeStatuses c now [ActionDispatched, ActionAccepted, ActionStarted])"
    unfolding life_cycle_def if_False by (intro exI [of _ now] exI [of _ "[]"]) simp
  then have "action_record_ok (com_ID c) (the (ava_records ?d (com_ID c)))"
    by (auto simp: start_speech_def Let_def action_record_ok_def intro: exI [of _ 0])
  with assms(2,3) show ?thesis
    by (intro speeches_ok_update [OF assms(1), of "com_ID c" _ "the (ava_records ?d (com_ID c))"])
      (auto simp: start_speech_def Let_def)
qed

lemma runSpeech_ok:
  assumes "speeches_ok d" "runSpeech i ev d = Some d'"
  shows "speeches_ok d'"
proof -
  from assms(2) obtain sp where sp: "ava_speeches d i = Some sp"
    by (auto split: option.splits)
  have goes_on: "speeches_ok (set_speech i sp' d)" "speeches_ok (set_speech i sp' (avatar_publish u d))"
    if "spe_pc sp' \<noteq> Closed" "spe_pc sp \<noteq> Closed" "pc_ok (spe_pc sp')" for sp' u
    using set_speech_ok [OF _ _ _ that(3), of _ i sp] assms(1) sp that(1,2) by simp_all
  have failed: "isTerminalActionState ActionFailed" "isTerminalActionState ActionCompleted"
    by (simp_all add: isTerminalActionState_def)
  show ?thesis
  proof (cases "(spe_pc sp, ev)")
    case (Pair pc e)
    show ?thesis
    proof (cases pc)
      case Spawned
      with assms(2) sp Pair show ?thesis
        by (auto simp: performSpeech_begin_def Let_def goes_on terminal_state split: speech_event.splits option.splits)
    next
      case Realizing
      with assms(2) sp Pair show ?thesis
        by (auto simp: performSpeech_realized_def Let_def goes_on terminal_state failed
            split: speech_event.splits option.splits sum.splits if_splits)
    next
      case (Rendering said)
      with assms(2) sp Pair show ?thesis
        by (auto simp: performSpeech_spoken_def Let_def goes_on terminal_state failed
            split: speech_event.splits option.splits if_splits)
    next
      case (Ending state reason said visualized)
      with assms(2) sp Pair obtain now published where
        d': "d' = finishSpeech i state reason said visualized now published (cancel_with ActionFinished sp) d"
        by (auto split: speech_event.splits)
      have pc: "spe_pc sp = Ending state reason said visualized"
        using Ending Pair by simp
      with speeches_okD(3) [OF assms(1) sp] have active: "ava_active d = Some i" and state: "isTerminalActionState state"
        by simp_all
      from speeches_okD(2) [OF assms(1) active] obtain rec where
        rec: "ava_records d i = Some rec" "\<not> arc_finalized rec"
        by blast
      let ?status = "newStatus (arc_command rec) state now reason"
      let ?rec = "rec\<lparr>arc_statuses := arc_statuses rec @ [?status], arc_finalized := True,
                      arc_stream := arc_stream rec @ [?status]\<rparr>"
      have "action_record_ok i ?rec"
        by (rule action_record_end) (use speeches_okD(1) [OF assms(1) rec(1)] rec(2) state in auto)
      moreover have "ava_records d' = (ava_records d)(i \<mapsto> ?rec)" "ava_active d' = None"
        "ava_speeches d' = (ava_speeches d)(i \<mapsto> (cancel_with ActionFinished sp)\<lparr>spe_pc := Closed\<rparr>)"
        using active rec by (simp_all add: d' finishSpeech_def Let_def)
      ultimately show ?thesis
        by (intro speeches_ok_update [OF assms(1), of i d' ?rec]) (simp_all add: active)
    next
      case Closed
      with assms(2) sp Pair show ?thesis
        by (simp split: speech_event.splits)
    qed
  qed
qed

lemma runSpeech_picture:
  assumes "speeches_ok d" "picture_ok d" "runSpeech i ev d = Some d'"
  shows "picture_ok d'"
proof -
  from assms(3) obtain sp where sp: "ava_speeches d i = Some sp"
    by (auto split: option.splits)
  show ?thesis
  proof (cases "spe_pc sp")
    case Spawned
    with assms(2,3) sp show ?thesis
      by (auto simp: performSpeech_begin_def Let_def picture_ok_def split: speech_event.splits option.splits)
  next
    case Realizing
    with speeches_okD(3) [OF assms(1) sp] have "ava_active d = Some i"
      by simp
    with Realizing assms(2,3) sp show ?thesis
      by (auto simp: performSpeech_realized_def Let_def picture_ok_def
          split: speech_event.splits option.splits sum.splits if_splits)
  next
    case (Rendering said)
    with assms(2,3) sp show ?thesis
      by (auto simp: performSpeech_spoken_def Let_def picture_ok_def split: speech_event.splits option.splits if_splits)
  next
    case (Ending state reason said visualized)
    with speeches_okD(3) [OF assms(1) sp] have active: "ava_active d = Some i"
      by simp
    from speeches_okD(2) [OF assms(1) active] obtain rec where "ava_records d i = Some rec"
      by blast
    with Ending active assms(2,3) sp show ?thesis
      by (auto simp: finishSpeech_def Let_def picture_ok_def split: speech_event.splits if_splits)
  next
    case Closed
    with assms(3) sp show ?thesis
      by (simp split: speech_event.splits)
  qed
qed

lemma cancelled_ok:
  assumes "speeches_ok d" "ava_speeches d i = Some sp"
  shows "speeches_ok (set_speech i (cancel_with cause sp) d)"
  by (rule set_speech_ok [OF assms]) (use speeches_okD(3) [OF assms] in simp_all)

lemma cancelled_picture:
  "picture_ok d \<Longrightarrow> ava_speeches d i = Some sp \<Longrightarrow> picture_ok (set_speech i (cancel_with cause sp) d)"
  by (auto simp: picture_ok_def)

lemma updates_current_frame:
  assumes "updates_current (d, view)" "ava_current d' = ava_current d" "ava_subscribers d' = ava_subscribers d"
  shows "updates_current (d', view)"
  using assms by (simp add: updates_current_def)

lemma set_speech_subscribers: "updates_current (set_speech i sp d, view) = updates_current (d, view)"
  by (simp add: updates_current_def)

lemma runSpeech_updates:
  assumes "runSpeech i ev d = Some d'" "updates_current (d, view)"
  shows "updates_current (d', view)"
proof -
  have active: "updates_current (e\<lparr>ava_active := a\<rparr>, view) = updates_current (e, view)"
    "updates_current (e\<lparr>ava_records := rs\<rparr>, view) = updates_current (e, view)" for e a rs
    by (simp_all add: updates_current_def)
  from assms show ?thesis
    by (auto simp: performSpeech_begin_def performSpeech_realized_def performSpeech_spoken_def finishSpeech_def
        Let_def set_speech_subscribers active
        split: option.splits speech_pc.splits speech_event.splits sum.splits if_splits)
qed

lemma avatar_subscribers_ok:
  assumes "updates_current (d, view)"
  shows "avatar_Subscribe d = ((u, i), d1) \<Longrightarrow> updates_current (d1, view(i \<mapsto> u))"
    and "avatar_receive i d = Some (v, d2) \<Longrightarrow> updates_current (d2, view(i \<mapsto> v))"
    and "updates_current (avatar_cancel i d, view)"
proof -
  show "avatar_Subscribe d = ((u, i), d1) \<Longrightarrow> updates_current (d1, view(i \<mapsto> u))"
    using assms by (auto simp: updates_current_def avatar_Subscribe_def Let_def update_conv' split: if_splits)
  show "updates_current (avatar_cancel i d, view)"
    using assms by (auto simp: updates_current_def avatar_cancel_def delete_conv' split: if_splits)
  assume "avatar_receive i d = Some (v, d2)"
  then have "map_of (ava_subscribers d) i = Some (Some v)"
    and d2: "d2 = d\<lparr>ava_subscribers := AList.update i None (ava_subscribers d)\<rparr>"
    by (auto simp: avatar_receive_def split: option.splits)
  with assms have "v = ava_current d"
    by (simp add: updates_current_def)
  with assms d2 show "updates_current (d2, view(i \<mapsto> v))"
    by (auto simp: updates_current_def update_conv' split: if_splits)
qed

lemma take_status_ok:
  assumes "take_status i d = Some (s, d')" "speeches_ok d"
  shows "speeches_ok d'"
proof -
  from assms(1) obtain rec rest where rec: "ava_records d i = Some rec" "arc_stream rec = s # rest"
    and d': "d' = d\<lparr>ava_records := (ava_records d)(i \<mapsto> rec\<lparr>arc_stream := rest\<rparr>)\<rparr>"
    by (auto simp: take_status_def split: option.splits list.splits)
  note D = speeches_okD [OF assms(2)]
  have "\<exists>k. rest = drop k (arc_statuses rec)"
  proof -
    from D(1) [OF rec(1)] obtain k where "s # rest = drop k (arc_statuses rec)"
      by (auto simp: action_record_ok_def rec(2))
    then have "rest = drop (Suc k) (arc_statuses rec)"
      by (metis drop_Suc list.sel(3) tl_drop)
    then show ?thesis ..
  qed
  with D(1) [OF rec(1)] have "action_record_ok i (rec\<lparr>arc_stream := rest\<rparr>)"
    by (simp add: action_record_ok_def)
  moreover have open_active: "\<not> arc_finalized rec \<longleftrightarrow> ava_active d = Some i"
    using D(1) [OF rec(1)] D(2) [of i] rec(1) by auto
  moreover have "case ava_speeches d i of None \<Rightarrow> arc_finalized rec
      | Some sp \<Rightarrow> pc_ok (spe_pc sp) \<and> (spe_pc sp = Closed \<longleftrightarrow> arc_finalized rec)"
  proof (cases "ava_speeches d i")
    case None
    with D(2) [of i] open_active show ?thesis
      by auto
  next
    case (Some sp)
    with D(2) [of i] D(3) [OF Some] open_active show ?thesis
      by auto
  qed
  ultimately show ?thesis
    by (intro speeches_ok_update [OF assms(2), of i d' "rec\<lparr>arc_stream := rest\<rparr>"])
      (simp_all add: d' split: option.splits)
qed

lemma avatar_step_ok:
  assumes "avatar_step op st = Some st'" "avatar_ok st"
  shows "avatar_ok st'"
proof -
  obtain d view where st: "st = (d, view)"
    by (cases st)
  have ok: "speeches_ok d" "picture_ok d" "updates_current (d, view)"
    using assms(2) by (simp_all add: avatar_ok_def st)
  have frame: "avatar_ok (d', view')" if "ava_records d' = ava_records d" "ava_active d' = ava_active d"
    "ava_speeches d' = ava_speeches d" "ava_current d' = ava_current d" "updates_current (d', view')" for d' view'
    using that ok(2) speeches_ok_frame [OF ok(1) that(1-3)] by (simp add: avatar_ok_def picture_ok_def)
  have cancelled: "avatar_ok (set_speech i (cancel_with cause sp) d, view)" if "ava_speeches d i = Some sp" for i cause sp
    using cancelled_ok [OF ok(1) that] cancelled_picture [OF ok(2) that] ok(3)
    by (simp add: avatar_ok_def set_speech_subscribers)
  show ?thesis
  proof (cases op)
    case (AvExecute ctx c now published)
    with assms(1) st have st': "st' = (snd (avatar_Execute ctx c now published d), view)"
      by simp
    show ?thesis
    proof (cases rule: avatar_Execute_cases [of ctx c now published d])
      case visual
      have "picture_ok (snd (visual_action c now published d))" "updates_current (snd (visual_action c now published d), view)"
        by (simp_all add: visual_action_def Let_def picture_ok_quiet visual_mode)
      with visual_action_ok [OF ok(1) visual(2), of now published] show ?thesis
        by (simp add: st' visual(1) avatar_ok_def)
    next
      case speech
      have "picture_ok (snd (start_speech c now d))"
        using ok(2) speech(4) by (simp add: start_speech_def Let_def picture_ok_def)
      moreover have "updates_current (snd (start_speech c now d), view)"
        by (rule updates_current_frame [OF ok(3)]) (simp_all add: start_speech_def Let_def)
      ultimately show ?thesis
        using start_speech_ok [OF ok(1) speech(2,4), of now] by (simp add: st' speech(1) avatar_ok_def)
    qed (use assms(2) st in \<open>simp_all add: st'\<close>)
  next
    case (AvSpeech i ev)
    with assms(1) st ok show ?thesis
      by (auto simp: avatar_ok_def simp del: runSpeech.simps intro: runSpeech_ok runSpeech_picture runSpeech_updates)
  next
    case (AvDeadline i now)
    with assms(1) st cancelled show ?thesis
      by (auto simp: watch_deadline_def split: option.splits if_splits)
  next
    case (AvParent i err)
    with assms(1) st cancelled show ?thesis
      by (auto simp: parent_ends_def split: option.splits)
  next
    case (AvStop ctx)
    with assms st cancelled show ?thesis
      by (auto simp: avatar_StopAll_def split: option.splits)
  next
    case (AvStopped joined err now)
    with assms(1) st ok(1) show ?thesis
      by (auto simp: avatar_stopped_def avatar_ok_def picture_ok_quiet split: if_splits)
  next
    case (AvTake i)
    with assms(1) st obtain s d' where d': "take_status i d = Some (s, d')" "st' = (d', view)"
      by auto
    then have "ava_current d' = ava_current d" "ava_subscribers d' = ava_subscribers d" "ava_active d' = ava_active d"
      "ava_speeches d' = ava_speeches d"
      by (auto simp: take_status_def split: option.splits list.splits)
    with take_status_ok [OF d'(1) ok(1)] ok(2,3) d'(2) show ?thesis
      by (simp add: avatar_ok_def picture_ok_def updates_current_def)
  next
    case AvSubscribe
    with assms(1) st obtain u i d' where d': "avatar_Subscribe d = ((u, i), d')" "st' = (d', view(i \<mapsto> u))"
      by (auto split: prod.splits)
    then show ?thesis
      using frame avatar_subscribers_ok(1) [OF ok(3) d'(1)] by (auto simp: avatar_Subscribe_def Let_def)
  next
    case (AvCancel i)
    with assms(1) st show ?thesis
      using frame avatar_subscribers_ok(3) [OF ok(3), of i] by (auto simp: avatar_cancel_def)
  next
    case (AvReceive i)
    with assms(1) st obtain v d' where d': "avatar_receive i d = Some (v, d')" "st' = (d', view(i \<mapsto> v))"
      by auto
    then show ?thesis
      using frame avatar_subscribers_ok(2) [OF ok(3) d'(1)] by (auto simp: avatar_receive_def split: option.splits)
  qed
qed

lemma avatar_steps_ok: "avatar_steps ops st = Some st' \<Longrightarrow> avatar_ok st \<Longrightarrow> avatar_ok st'"
  by (induction ops arbitrary: st) (auto split: option.splits intro: avatar_step_ok)

lemma Avatar_New_ok: "Avatar_New realizer speaker clock now = Inr d \<Longrightarrow> avatar_ok (d, view)"
  by (auto simp: Avatar_New_def Let_def avatar_ok_def speeches_ok_def picture_ok_def updates_current_def
      split: if_splits)

section \<open>What a record keeps\<close>

lemma runSpeech_other:
  assumes "runSpeech j ev d = Some d'" "i \<noteq> j"
  shows "ava_records d' i = ava_records d i \<and> ava_speeches d' i = ava_speeches d i"
  using assms
  by (auto simp: performSpeech_begin_def performSpeech_realized_def performSpeech_spoken_def finishSpeech_def Let_def
      split: option.splits speech_pc.splits speech_event.splits sum.splits if_splits)

text \<open>How a step can change the record and the speech of one action.\<close>

lemma avatar_step_action:
  assumes "avatar_step op (d, view) = Some (d', view')" "avatar_ok (d, view)" "ava_records d i = Some rec"
  obtains (same) "ava_records d' i = Some rec" "ava_speeches d' i = ava_speeches d i"
  | (taken) rest where "ava_records d' i = Some (rec\<lparr>arc_stream := rest\<rparr>)" "ava_speeches d' i = ava_speeches d i"
  | (cancelled) cause sp where "ava_records d' i = Some rec" "ava_speeches d i = Some sp"
      "ava_speeches d' i = Some (cancel_with cause sp)"
  | (speech) ev where "runSpeech i ev d = Some d'"
proof (cases op)
  case (AvExecute ctx c now published)
  then have d': "d' = snd (avatar_Execute ctx c now published d)"
    using assms(1) by simp
  have "ava_records d' i = Some rec \<and> ava_speeches d' i = ava_speeches d i"
    by (cases rule: avatar_Execute_cases [of ctx c now published d])
      (use assms(3) in \<open>auto simp: d' visual_action_def start_speech_def Let_def\<close>)
  then show thesis
    using same by blast
next
  case (AvSpeech j ev)
  then have run: "runSpeech j ev d = Some d'"
    using assms(1) by (auto simp del: runSpeech.simps)
  show thesis
  proof (cases "i = j")
    case True
    with run show thesis
      using speech by blast
  next
    case False
    from runSpeech_other [OF run this] assms(3) show thesis
      using same by simp
  qed
next
  case (AvDeadline j now)
  with assms show thesis
    using same cancelled by (cases "i = j") (auto simp: watch_deadline_def split: option.splits if_splits)
next
  case (AvParent j err)
  with assms show thesis
    using same cancelled by (cases "i = j") (auto simp: parent_ends_def split: option.splits)
next
  case (AvStop ctx)
  with assms show thesis
    using same cancelled by (cases "ava_active d = Some i") (auto simp: avatar_StopAll_def split: option.splits)
next
  case (AvTake j)
  with assms show thesis
    using same taken by (cases "i = j") (auto simp: take_status_def split: option.splits list.splits)
qed (use assms same in \<open>auto simp: avatar_stopped_def avatar_Subscribe_def avatar_cancel_def avatar_receive_def Let_def
      split: option.splits if_splits\<close>)

lemma runSpeech_finalized:
  assumes "runSpeech i ev d = Some d'" "speeches_ok d" "ava_records d i = Some rec"
  shows "\<not> arc_finalized rec"
proof -
  from assms(1) obtain sp where sp: "ava_speeches d i = Some sp"
    by (auto split: option.splits)
  with assms(1) have "spe_pc sp \<noteq> Closed"
    by (auto split: speech_event.splits)
  with speeches_okD(3) [OF assms(2) sp] speeches_okD(2) [OF assms(2), of i] assms(3) show ?thesis
    by auto
qed

lemma finalized_stays:
  assumes "avatar_step op (d, view) = Some (d', view')" "avatar_ok (d, view)" "ava_records d i = Some rec" "arc_finalized rec"
  shows "\<exists>rest. ava_records d' i = Some (rec\<lparr>arc_stream := rest\<rparr>)"
  using assms(1-3)
proof (cases rule: avatar_step_action)
  case same
  then show ?thesis
    by (intro exI [of _ "arc_stream rec"]) simp
next
  case cancelled
  then show ?thesis
    by (intro exI [of _ "arc_stream rec"]) simp
next
  case (speech ev)
  with runSpeech_finalized [OF speech _ assms(3)] assms(2,4) show ?thesis
    by (simp add: avatar_ok_def)
qed blast

lemma finalized_stays_run:
  "avatar_steps ops (d, view) = Some (d', view') \<Longrightarrow> avatar_ok (d, view) \<Longrightarrow> ava_records d i = Some rec \<Longrightarrow>
   arc_finalized rec \<Longrightarrow> \<exists>rest. ava_records d' i = Some (rec\<lparr>arc_stream := rest\<rparr>)"
proof (induction ops arbitrary: d view rec)
  case Nil
  then show ?case
    by (intro exI [of _ "arc_stream rec"]) simp
next
  case (Cons op ops)
  then obtain d1 view1 where step: "avatar_step op (d, view) = Some (d1, view1)"
    and rest: "avatar_steps ops (d1, view1) = Some (d', view')"
    by (auto split: option.splits)
  from finalized_stays [OF step Cons.prems(2-4)] obtain tail where
    "ava_records d1 i = Some (rec\<lparr>arc_stream := tail\<rparr>)"
    by blast
  from Cons.IH [OF rest avatar_step_ok [OF step Cons.prems(2)] this] Cons.prems(4) show ?case
    by simp
qed

section \<open>How a speech ends\<close>

fun speech_rank :: "speech_pc \<Rightarrow> nat" where
  "speech_rank Spawned = 4"
| "speech_rank Realizing = 3"
| "speech_rank (Rendering t) = 2"
| "speech_rank (Ending state reason t visualized) = 1"
| "speech_rank Closed = 0"

definition rank_of :: "string \<Rightarrow> Avatar \<Rightarrow> nat" where
  "rank_of i d = (case ava_speeches d i of None \<Rightarrow> 0 | Some sp \<Rightarrow> speech_rank (spe_pc sp))"

text \<open>A speech that \<^verbatim>\<open>StopAll\<close> cancelled, up to its last status.\<close>

definition stopping :: "string \<Rightarrow> Avatar \<Rightarrow> bool" where
  "stopping i d =
     (\<exists>rec sp. ava_records d i = Some rec \<and> ava_speeches d i = Some sp \<and>
        (case spe_pc sp of
           Ending state reason t visualized \<Rightarrow> state = ActionCancelled \<and> reason = ''STOP_ALL''
         | Closed \<Rightarrow> (\<exists>sts now. arc_statuses rec = sts @ [newStatus (arc_command rec) ActionCancelled now ''STOP_ALL''])
         | _ \<Rightarrow> spe_cause sp = Some ActionStopped))"

lemma stopped_cause [simp]:
  "spe_cause sp = Some cause \<Longrightarrow> cancel_with cause' sp = sp"
  "spe_cause sp = Some cause \<Longrightarrow> applyExactDeadline now sp = sp"
  by (simp_all add: cancel_with_def applyExactDeadline_def)

lemma stopping_speech:
  assumes "runSpeech i ev d = Some d'" "stopping i d"
  shows "stopping i d'"
proof -
  from assms(2) obtain rec sp where sp: "ava_records d i = Some rec" "ava_speeches d i = Some sp"
    by (auto simp: stopping_def)
  show ?thesis
    using assms sp
    by (cases "spe_pc sp")
      (auto simp: stopping_def performSpeech_begin_def performSpeech_realized_def performSpeech_spoken_def
        finishSpeech_def Let_def split: speech_event.splits)
qed

lemma stopping_step:
  assumes "avatar_step op (d, view) = Some (d', view')" "avatar_ok (d, view)" "stopping i d"
  shows "stopping i d'"
proof -
  from assms(3) obtain rec sp where sp: "ava_records d i = Some rec" "ava_speeches d i = Some sp"
    by (auto simp: stopping_def)
  from assms(1,2) sp(1) show ?thesis
  proof (cases rule: avatar_step_action)
    case (speech ev)
    with stopping_speech assms(3) show ?thesis
      by blast
  next
    case (cancelled cause sp')
    with assms(3) sp show ?thesis
      by (auto simp: stopping_def split: speech_pc.splits)
  qed (use assms(3) sp in \<open>auto simp: stopping_def split: speech_pc.splits\<close>)
qed

section \<open>Properties\<close>

definition demo_action :: "string \<Rightarrow> ActionType \<Rightarrow> ActionCommand" where
  "demo_action i kind =
     \<lparr>com_ID = i, com_InteractionID = ''x'', com_TraceID = ''t'', com_Deadline = 100,
      com_Preemption = PreemptInterruptible, com_RequiredCapability = kind, com_Idempotency = IdempotentByActionID,
      com_Action = \<lparr>act_Type = kind, act_TemplateID = ''hello'', act_Resource = Voice, act_Timeout = 5\<rparr>\<rparr>"

definition demo_avatar :: Avatar where
  "demo_avatar =
     \<lparr>ava_speaker = True, ava_capabilities = avatar_capabilities True,
      ava_current = zero_Update\<lparr>upd_Mode := ModeIdle, upd_OccurredAt := 1\<rparr>, ava_records = Map.empty,
      ava_active = None, ava_speeches = Map.empty, ava_subscribers = [], ava_nextSubID = 0\<rparr>"

lemma demo_avatar_New: "Avatar_New True ASpeaker True 1 = Inr demo_avatar"
  by (simp add: Avatar_New_def demo_avatar_def)

text \<open>A speech that is stopped while it is rendered.\<close>

definition speak_ops :: "avatar_op list" where
  "speak_ops =
     [AvExecute CallLive (demo_action ''a'' Speak) 2 2, AvSpeech ''a'' (SpeechBegins 3),
      AvSpeech ''a'' (SpeechRealized (Inr ''hi'') 4 5)]"

definition stop_ops :: "avatar_op list" where
  "stop_ops =
     [AvSpeech ''a'' (SpeechSpoken None 6), AvSpeech ''a'' (SpeechEnds 7 8), AvStopped (Some ''a'') None 9]"

lemma trim_hi: "TrimSpace ''hi'' = ''hi''"
  by (simp add: TrimSpace_printing printing_def)

lemma speak_run:
  "avatar_steps speak_ops (demo_avatar, Map.empty) =
     Some (avatar_publish (zero_Update\<lparr>upd_Mode := ModeSpeaking, upd_Text := ''hi'', upd_Speaking := True,
             upd_ActionID := ''a'', upd_OccurredAt := 5\<rparr>)
           (snd (start_speech (demo_action ''a'' Speak) 2 demo_avatar))
           \<lparr>ava_speeches := [''a'' \<mapsto> \<lparr>spe_deadline = 100, spe_cause = None, spe_pc = Rendering ''hi''\<rparr>]\<rparr>, Map.empty)"
  by (simp add: speak_ops_def avatar_Execute_def avatar_context_def validateCommand_def demo_action_def
      demo_avatar_def supported_def avatar_capabilities_def Let_def start_speech_def performSpeech_begin_def
      performSpeech_realized_def applyExactDeadline_def set_speech_def trim_hi avatar_publish_def)

text \<open>C34. In every state of every run each recorded action has its life cycle: dispatched, accepted and started at one
  instant and, exactly when it is over, one terminal status at the end, all with the identifiers of its
  command. What waits in its stream is an end of these statuses, four at most, so the capacity of the
  channel is never exceeded; only the active speech is not over; and the engine that awaits the whole
  stream succeeds exactly when the action completed.\<close>

theorem avatar_life_cycle:
  assumes "Avatar_New realizer speaker clock now0 = Inr d0"
    and "avatar_steps ops (d0, Map.empty) = Some (d, view)" "ava_records d i = Some rec"
  shows "com_ID (arc_command rec) = i \<and> life_cycle (arc_command rec) (arc_finalized rec) (arc_statuses rec) \<and>
    (\<exists>k. arc_stream rec = drop k (arc_statuses rec)) \<and> length (arc_stream rec) \<le> 4 \<and>
    (\<not> arc_finalized rec \<longleftrightarrow> ava_active d = Some i) \<and>
    (arc_finalized rec \<longrightarrow>
       (stream_verdict op (arc_statuses rec) = None \<longleftrightarrow> sta_State (last (arc_statuses rec)) = ActionCompleted))"
proof -
  have "avatar_ok (d, view)"
    by (rule avatar_steps_ok [OF assms(2) Avatar_New_ok [OF assms(1)]])
  then have ok: "speeches_ok d"
    by (simp add: avatar_ok_def)
  from speeches_okD(1) [OF ok assms(3)] have rec: "action_record_ok i rec" "\<not> arc_finalized rec \<longrightarrow> ava_active d = Some i"
    by simp_all
  from speeches_okD(2) [OF ok, of i] assms(3) have active: "ava_active d = Some i \<longrightarrow> \<not> arc_finalized rec"
    by auto
  from rec(1) obtain k where k: "arc_stream rec = drop k (arc_statuses rec)"
    by (auto simp: action_record_ok_def)
  from rec(1) obtain now rest where sts: "arc_statuses rec =
      makeStatuses (arc_command rec) now [ActionDispatched, ActionAccepted, ActionStarted] @ rest"
    "if arc_finalized rec then \<exists>state t reason. isTerminalActionState state \<and> rest = [newStatus (arc_command rec) state t reason]
     else rest = []"
    by (auto simp: action_record_ok_def life_cycle_def)
  then have "length (arc_statuses rec) \<le> 4"
    by (auto simp: makeStatuses_def split: if_splits)
  with k have bound: "length (arc_stream rec) \<le> 4"
    by simp
  have verdict: "stream_verdict op (arc_statuses rec) = None \<longleftrightarrow> sta_State (last (arc_statuses rec)) = ActionCompleted"
    if "arc_finalized rec"
    using sts that
    by (auto simp: stream_verdict_None completed_once_def makeStatuses_def newStatus_def isTerminalActionState_def)
  show ?thesis
    using rec active k bound verdict by (auto simp: action_record_ok_def)
qed

lemma avatar_life_cycle_witness:
  "\<exists>d rec. avatar_steps speak_ops (demo_avatar, Map.empty) = Some (d, Map.empty) \<and> ava_records d ''a'' = Some rec \<and>
     \<not> arc_finalized rec \<and> life_cycle (arc_command rec) False (arc_statuses rec)"
proof -
  let ?d = "fst (the (avatar_steps speak_ops (demo_avatar, Map.empty)))"
  let ?rec = "the (ava_records ?d ''a'')"
  have "avatar_steps speak_ops (demo_avatar, Map.empty) = Some (?d, Map.empty)" "ava_records ?d ''a'' = Some ?rec"
    "\<not> arc_finalized ?rec"
    by (simp_all add: speak_run start_speech_def demo_action_def Let_def)
  with avatar_life_cycle [OF demo_avatar_New, of speak_ops ?d Map.empty "''a''" ?rec] show ?thesis
    by (intro exI [of _ ?d] exI [of _ ?rec]) simp
qed

text \<open>An action is executed at most once: from the moment it is over, sending its command again gives the
  recorded statuses and changes nothing, whatever happens in between, and a different command with its
  identifier is rejected.\<close>

theorem avatar_replays:
  assumes "Avatar_New realizer speaker clock now0 = Inr d0"
    and "avatar_steps ops (d0, Map.empty) = Some (d, view)" "ava_records d i = Some rec" "arc_finalized rec"
    and "avatar_steps ops' (d, view) = Some (d', view')" "com_ID c = i" "validateCommand c = None"
  shows "avatar_Execute CallLive c now published d' =
    (if c = arc_command rec then Inr (CompletedStream (arc_statuses rec))
     else Inl (New_fault AdapterRejected ''execute web avatar action''
                 (Leaf ''action id %s conflicts with its recorded command'')), d')"
proof -
  have "avatar_ok (d, view)"
    by (rule avatar_steps_ok [OF assms(2) Avatar_New_ok [OF assms(1)]])
  from finalized_stays_run [OF assms(5) this assms(3,4)] obtain rest where
    "ava_records d' i = Some (rec\<lparr>arc_stream := rest\<rparr>)"
    by blast
  with assms(4,6,7) show ?thesis
    by (simp add: avatar_Execute_def avatar_context_def Let_def)
qed

definition attend_ops :: "avatar_op list" where
  "attend_ops = [AvExecute CallLive (demo_action ''b'' AttendUser) 2 2]"

lemma avatar_replays_witness:
  "let st = the (avatar_steps attend_ops (demo_avatar, Map.empty)); st' = the (avatar_steps speak_ops st)
   in isl (fst (avatar_Execute CallLive (demo_action ''b'' AttendUser) 200 200 (fst st'))) = False \<and>
      snd (avatar_Execute CallLive (demo_action ''b'' AttendUser) 200 200 (fst st')) = fst st'"
proof -
  let ?st = "the (avatar_steps attend_ops (demo_avatar, Map.empty))"
  let ?rec = "the (ava_records (fst ?st) ''b'')"
  note defs = attend_ops_def avatar_Execute_def avatar_context_def validateCommand_def demo_action_def
    demo_avatar_def supported_def avatar_capabilities_def Let_def visual_action_def
  have st: "avatar_steps attend_ops (demo_avatar, Map.empty) = Some (fst ?st, snd ?st)"
    "ava_records (fst ?st) ''b'' = Some ?rec" "arc_finalized ?rec" "arc_command ?rec = demo_action ''b'' AttendUser"
    by (simp_all add: defs)
  have "avatar_steps speak_ops ?st \<noteq> None"
    by (simp add: defs speak_ops_def start_speech_def performSpeech_begin_def performSpeech_realized_def
        applyExactDeadline_def trim_hi)
  then obtain d' view' where st': "avatar_steps speak_ops (fst ?st, snd ?st) = Some (d', view')"
    by auto
  have "com_ID (demo_action ''b'' AttendUser) = ''b''" "validateCommand (demo_action ''b'' AttendUser) = None"
    by (simp_all add: defs)
  from avatar_replays [OF demo_avatar_New st(1-3) st' this, of 200 200] st(4) st' show ?thesis
    by (simp add: Let_def)
qed

lemma stopping_run:
  "avatar_steps ops (d, view) = Some (d', view') \<Longrightarrow> avatar_ok (d, view) \<Longrightarrow> stopping i d \<Longrightarrow> stopping i d'"
proof (induction ops arbitrary: d view)
  case (Cons op ops)
  then obtain d1 view1 where step: "avatar_step op (d, view) = Some (d1, view1)"
    and rest: "avatar_steps ops (d1, view1) = Some (d', view')"
    by (auto split: option.splits)
  from Cons.IH [OF rest avatar_step_ok [OF step Cons.prems(2)] stopping_step [OF step Cons.prems(2,3)]]
  show ?case .
qed simp

text \<open>The goroutine of a speech always has a step, and each brings it nearer to its end.\<close>

lemma runSpeech_progress:
  assumes "speeches_ok d" "ava_speeches d i = Some sp"
  shows "spe_pc sp \<noteq> Closed \<Longrightarrow> \<exists>ev. runSpeech i ev d \<noteq> None"
    and "runSpeech i ev d = Some d' \<Longrightarrow> rank_of i d' < rank_of i d"
proof -
  show "\<exists>ev. runSpeech i ev d \<noteq> None" if "spe_pc sp \<noteq> Closed"
  proof (cases "spe_pc sp")
    case Spawned
    with assms(2) show ?thesis by (intro exI [of _ "SpeechBegins 0"]) simp
  next
    case Realizing
    with assms(2) show ?thesis by (intro exI [of _ "SpeechRealized (Inr []) 0 0"]) simp
  next
    case Rendering
    with assms(2) show ?thesis by (intro exI [of _ "SpeechSpoken None 0"]) simp
  next
    case Ending
    with assms(2) show ?thesis by (intro exI [of _ "SpeechEnds 0 0"]) simp
  qed (use that in simp)
  assume run: "runSpeech i ev d = Some d'"
  have "ava_records d i \<noteq> None"
    using speeches_okD(3) [OF assms] by simp
  with run assms(2) show "rank_of i d' < rank_of i d"
    by (cases "spe_pc sp")
      (auto simp: rank_of_def performSpeech_begin_def performSpeech_realized_def performSpeech_spoken_def finishSpeech_def
        Let_def split: option.splits speech_event.splits sum.splits if_splits)
qed

text \<open>\<^verbatim>\<open>StopAll\<close> ends an active speech that was not cancelled before and did not reach its end: whatever
  happens after it, the speech can only end CANCELLED by STOP_ALL; it has at most four steps left and
  always a next one until then; the call returns exactly when it is over, and leaves the avatar idle and
  silent.\<close>

theorem stop_cancels_speech:
  assumes "Avatar_New realizer speaker clock now0 = Inr d0"
    and "avatar_steps ops (d0, Map.empty) = Some (d, view)" "ava_active d = Some i" "ava_speeches d i = Some sp"
    and "spe_cause sp = None" "\<forall>state reason t v. spe_pc sp \<noteq> Ending state reason t v"
    and "avatar_StopAll CallLive d = (res, d1)" "avatar_steps ops' (d1, view) = Some (d', view')"
  shows "res = Inr (Some i) \<and>
    (\<exists>rec. ava_records d' i = Some rec \<and>
       (arc_finalized rec \<longrightarrow> (\<exists>now sts. arc_statuses rec = sts @ [newStatus (arc_command rec) ActionCancelled now ''STOP_ALL''])) \<and>
       (\<not> arc_finalized rec \<longrightarrow> 0 < rank_of i d' \<and> rank_of i d' \<le> 4 \<and> (\<exists>ev d''. runSpeech i ev d' = Some d'' \<and> rank_of i d'' < rank_of i d')) \<and>
       (case avatar_stopped (Some i) stopErr now d' of
          None \<Rightarrow> \<not> arc_finalized rec
        | Some (err, d'') \<Rightarrow> arc_finalized rec \<and> upd_Mode (ava_current d'') = ModeIdle \<and> \<not> upd_Speaking (ava_current d'')))"
proof -
  have ok: "avatar_ok (d, view)"
    by (rule avatar_steps_ok [OF assms(2) Avatar_New_ok [OF assms(1)]])
  then have speeches: "speeches_ok d"
    by (simp add: avatar_ok_def)
  from speeches_okD(2) [OF speeches assms(3)] assms(4) obtain rec0 where rec0: "ava_records d i = Some rec0" "spe_pc sp \<noteq> Closed"
    by auto
  from assms(3,4,7) have d1: "res = Inr (Some i)" "d1 = set_speech i (cancel_with ActionStopped sp) d"
    by (simp_all add: avatar_StopAll_def avatar_context_def)
  have step: "avatar_step (AvStop CallLive) (d, view) = Some (d1, view)"
    using assms(7) by simp
  have "spe_cause (cancel_with ActionStopped sp) = Some ActionStopped"
    using assms(5) by (simp add: cancel_with_def)
  with rec0 assms(6) have "stopping i d1"
    by (auto simp: stopping_def d1(2) split: speech_pc.split)
  with stopping_run [OF assms(8) avatar_step_ok [OF step ok]] have "stopping i d'" .
  then obtain rec sp' where rec: "ava_records d' i = Some rec" "ava_speeches d' i = Some sp'"
    and state: "case spe_pc sp' of
           Ending state reason t visualized \<Rightarrow> state = ActionCancelled \<and> reason = ''STOP_ALL''
         | Closed \<Rightarrow> (\<exists>sts now. arc_statuses rec = sts @ [newStatus (arc_command rec) ActionCancelled now ''STOP_ALL''])
         | _ \<Rightarrow> spe_cause sp' = Some ActionStopped"
    unfolding stopping_def by blast
  then have over: "spe_pc sp' = Closed \<Longrightarrow>
      \<exists>sts now. arc_statuses rec = sts @ [newStatus (arc_command rec) ActionCancelled now ''STOP_ALL'']"
    by simp
  have "avatar_ok (d', view')"
    by (rule avatar_steps_ok [OF assms(8) avatar_step_ok [OF step ok]])
  then have speeches': "speeches_ok d'"
    by (simp add: avatar_ok_def)
  have closed: "arc_finalized rec \<longleftrightarrow> spe_pc sp' = Closed"
  proof (cases "ava_active d' = Some i")
    case True
    with speeches_okD(2) [OF speeches' True] rec show ?thesis
      by auto
  next
    case False
    with speeches_okD(1) [OF speeches' rec(1)] speeches_okD(3) [OF speeches' rec(2)] show ?thesis
      by auto
  qed
  have open_step: "0 < rank_of i d' \<and> rank_of i d' \<le> 4 \<and> (\<exists>ev d''. runSpeech i ev d' = Some d'' \<and> rank_of i d'' < rank_of i d')"
    if "\<not> arc_finalized rec"
  proof -
    from that closed have "spe_pc sp' \<noteq> Closed" by simp
    moreover from runSpeech_progress(1) [OF speeches' rec(2) this] obtain ev d'' where "runSpeech i ev d' = Some d''"
      by auto
    ultimately show ?thesis
      using runSpeech_progress(2) [OF speeches' rec(2)] rec(2) by (cases "spe_pc sp'") (auto simp: rank_of_def)
  qed
  have returns: "case avatar_stopped (Some i) stopErr now d' of
      None \<Rightarrow> \<not> arc_finalized rec
    | Some (err, d'') \<Rightarrow> arc_finalized rec \<and> upd_Mode (ava_current d'') = ModeIdle \<and> \<not> upd_Speaking (ava_current d'')"
    using rec closed by (simp add: avatar_stopped_def)
  show ?thesis
    using d1(1) rec(1) over closed open_step returns by blast
qed

lemma stop_cancels_speech_witness:
  "\<exists>d d1 d' rec. avatar_steps speak_ops (demo_avatar, Map.empty) = Some (d, Map.empty) \<and>
     avatar_StopAll CallLive d = (Inr (Some ''a''), d1) \<and>
     avatar_steps (butlast stop_ops) (d1, Map.empty) = Some (d', Map.empty) \<and> ava_records d' ''a'' = Some rec \<and>
     sta_State (last (arc_statuses rec)) = ActionCancelled"
proof -
  let ?d = "fst (the (avatar_steps speak_ops (demo_avatar, Map.empty)))"
  let ?d1 = "snd (avatar_StopAll CallLive ?d)"
  let ?d' = "fst (the (avatar_steps (butlast stop_ops) (?d1, Map.empty)))"
  let ?sp = "the (ava_speeches ?d ''a'')"
  note defs = start_speech_def demo_action_def Let_def
  have d: "avatar_steps speak_ops (demo_avatar, Map.empty) = Some (?d, Map.empty)" "ava_active ?d = Some ''a''"
    "ava_speeches ?d ''a'' = Some ?sp" "spe_cause ?sp = None" "\<forall>state reason t v. spe_pc ?sp \<noteq> Ending state reason t v"
    by (simp_all add: speak_run defs)
  have d1: "avatar_StopAll CallLive ?d = (fst (avatar_StopAll CallLive ?d), ?d1)"
    by simp
  have run: "avatar_steps (butlast stop_ops) (?d1, Map.empty) = Some (?d', Map.empty)"
    by (simp add: speak_run defs stop_ops_def avatar_StopAll_def avatar_context_def set_speech_def cancel_with_def
        performSpeech_spoken_def applyExactDeadline_def finishSpeech_def)
  have over: "arc_finalized (the (ava_records ?d' ''a''))"
    by (simp add: speak_run defs stop_ops_def avatar_StopAll_def avatar_context_def set_speech_def cancel_with_def
        performSpeech_spoken_def applyExactDeadline_def finishSpeech_def)
  from stop_cancels_speech [OF demo_avatar_New d d1 run] obtain rec now sts where
    "fst (avatar_StopAll CallLive ?d) = Inr (Some ''a'')" "ava_records ?d' ''a'' = Some rec"
    "arc_statuses rec = sts @ [newStatus (arc_command rec) ActionCancelled now ''STOP_ALL'']"
    using over by force
  with d(1) d1 run show ?thesis
    by (intro exI [of _ ?d] exI [of _ ?d1] exI [of _ ?d'] exI [of _ rec]) (simp add: newStatus_def)
qed

text \<open>The avatar is shown speaking only while a speech renders that very text.\<close>

lemma avatar_picture:
  assumes "Avatar_New realizer speaker clock now0 = Inr d0" "avatar_steps ops (d0, Map.empty) = Some (d, view)"
  shows "picture_ok d" "updates_current (d, view)"
  using avatar_steps_ok [OF assms(2) Avatar_New_ok [OF assms(1)]] by (simp_all add: avatar_ok_def)

end
