(* ===== verification/Local_Speech.thy ===== *)
theory Local_Speech
  imports Web_Avatar_Props
begin

text \<open>
  The voice of the desktop: packages \<^verbatim>\<open>adapters/model/local\<close> (\<^verbatim>\<open>templates.go\<close>), a table of fixed
  texts, and \<^verbatim>\<open>adapters/tts/speechdispatcher\<close> (\<^verbatim>\<open>synthesizer.go\<close>), which runs an external command. The
  command runner is the parameter \<open>run\<close>: it takes the binary, the argument list and the state of its world.
  \<open>speech_turn\<close> puts both under the goroutine of a speech of \<^verbatim>\<open>Web_Avatar\<close>. Texts are UTF-8 bytes.
\<close>

section \<open>Templates\<close>

record UtteranceRequest =
  ur_TemplateID :: string
  ur_Style :: string
  ur_InteractionID :: string
  ur_TraceID :: string

record Utterance =
  ut_Text :: string
  ut_UsedFallback :: bool
  ut_ModelVersion :: string

definition greeting_text :: string where
  "greeting_text = char_bytes [228, 189, 160, 229, 155, 158, 230, 157, 165, 229, 149, 166, 227, 128, 130]"

type_synonym Templates = "string \<rightharpoonup> string"

definition NewTemplates :: Templates where
  "NewTemplates = [''welcome.return'' \<mapsto> greeting_text]"

definition Templates_Realize :: "Templates \<Rightarrow> goerror option \<Rightarrow> UtteranceRequest \<Rightarrow> goerror + Utterance" where
  "Templates_Realize t ctxErr request =
     (case ctxErr of
        Some err \<Rightarrow> Inl err
      | None \<Rightarrow>
          (case t (ur_TemplateID request) of
             None \<Rightarrow> Inl (Leaf ''template %s not found'')
           | Some txt \<Rightarrow> Inr \<lparr>ut_Text = txt, ut_UsedFallback = True, ut_ModelVersion = ''local-templates.v1''\<rparr>))"

section \<open>The synthesizer\<close>

type_synonym 'w CommandRunner = "string \<Rightarrow> string list \<Rightarrow> 'w \<Rightarrow> goerror option \<times> 'w"

record Synthesizer =
  syn_binaryPath :: string

definition Synthesizer_New :: "string \<Rightarrow> bool \<Rightarrow> goerror + Synthesizer" where
  "Synthesizer_New binaryPath runnerPresent =
     (let op = ''create speech dispatcher synthesizer'' in
      if TrimSpace binaryPath = [] then Inl (New_fault InvalidInput op (Leaf ''binary path is required''))
      else if \<not> runnerPresent then Inl (New_fault InvalidInput op (Leaf ''command runner is required''))
      else Inr \<lparr>syn_binaryPath = binaryPath\<rparr>)"

definition contextError :: "call_ctx \<Rightarrow> goerror option" where
  "contextError ctx =
     (case ctx of CallNil \<Rightarrow> Some (Leaf ''context is required'') | CallLive \<Rightarrow> None | CallErr err \<Rightarrow> Some err)"

definition classifyError :: "string \<Rightarrow> goerror \<Rightarrow> goerror" where
  "classifyError op err =
     (if ErrIs err ContextDeadlineExceeded then New_fault DeadlineExceeded op err else New_fault Unavailable op err)"

definition Synthesizer_Speak ::
    "'w CommandRunner \<Rightarrow> Synthesizer \<Rightarrow> call_ctx \<Rightarrow> string \<Rightarrow> 'w \<Rightarrow> goerror option \<times> 'w" where
  "Synthesizer_Speak run s ctx txt w =
     (let op = ''speak with speech dispatcher'' in
      if TrimSpace txt = [] then (Some (New_fault InvalidInput op (Leaf ''text is required'')), w)
      else (case contextError ctx of
          Some err \<Rightarrow> (Some (classifyError op err), w)
        | None \<Rightarrow>
            (case run (syn_binaryPath s) [''--wait'', ''--'', txt] w of
               (err, w1) \<Rightarrow> (map_option (classifyError op) err, w1))))"

definition Synthesizer_Stop :: "'w CommandRunner \<Rightarrow> Synthesizer \<Rightarrow> call_ctx \<Rightarrow> 'w \<Rightarrow> goerror option \<times> 'w" where
  "Synthesizer_Stop run s ctx w =
     (let op = ''stop speech dispatcher'' in
      case contextError ctx of
        Some err \<Rightarrow> (Some (classifyError op err), w)
      | None \<Rightarrow>
          (case run (syn_binaryPath s) [''--stop''] w of
             (err, w1) \<Rightarrow> (map_option (classifyError op) err, w1)))"

section \<open>The goroutine of a speech with its realizer and its speaker\<close>

text \<open>\<^verbatim>\<open>Err\<close> of the action context: cancelled by the driver, or by the caller with its own error.\<close>

definition speech_ctx :: "activeSpeech \<Rightarrow> call_ctx" where
  "speech_ctx sp =
     (case spe_cause sp of
        None \<Rightarrow> CallLive
      | Some (ParentCause err) \<Rightarrow> CallErr err
      | Some _ \<Rightarrow> CallErr ContextCanceled)"

definition realize_action :: "activeSpeech \<Rightarrow> ActionCommand \<Rightarrow> goerror + string" where
  "realize_action sp c =
     (case Templates_Realize NewTemplates (contextError (speech_ctx sp))
         \<lparr>ur_TemplateID = act_TemplateID (com_Action c), ur_Style = [],
          ur_InteractionID = com_InteractionID c, ur_TraceID = com_TraceID c\<rparr> of
        Inl err \<Rightarrow> Inl err
      | Inr utterance \<Rightarrow> Inr (ut_Text utterance))"

fun speech_turn ::
    "'w CommandRunner \<Rightarrow> Synthesizer \<Rightarrow> string \<Rightarrow> time \<Rightarrow> time \<Rightarrow> Avatar \<times> 'w \<Rightarrow> (Avatar \<times> 'w) option" where
  "speech_turn run s i now published (d, w) =
     (case (ava_speeches d i, ava_records d i) of
        (Some sp, Some rec) \<Rightarrow>
          (case spe_pc sp of
             Spawned \<Rightarrow> map_option (\<lambda>d1. (d1, w)) (runSpeech i (SpeechBegins now) d)
           | Realizing \<Rightarrow>
               map_option (\<lambda>d1. (d1, w))
                 (runSpeech i (SpeechRealized (realize_action sp (arc_command rec)) now published) d)
           | Rendering txt \<Rightarrow>
               (case Synthesizer_Speak run s (speech_ctx sp) txt w of
                  (err, w1) \<Rightarrow> map_option (\<lambda>d1. (d1, w1)) (runSpeech i (SpeechSpoken err now) d))
           | Ending state reason txt visualized \<Rightarrow>
               map_option (\<lambda>d1. (d1, w)) (runSpeech i (SpeechEnds now published) d)
           | Closed \<Rightarrow> None)
      | _ \<Rightarrow> None)"

fun speech_turns ::
    "'w CommandRunner \<Rightarrow> Synthesizer \<Rightarrow> string \<Rightarrow> (time \<times> time) list \<Rightarrow> Avatar \<times> 'w \<Rightarrow> (Avatar \<times> 'w) option" where
  "speech_turns run s i [] st = Some st"
| "speech_turns run s i ((now, published) # ts) st =
     (case speech_turn run s i now published st of None \<Rightarrow> None | Some st1 \<Rightarrow> speech_turns run s i ts st1)"

section \<open>Lemmas\<close>

lemma TrimSpace_greeting: "TrimSpace greeting_text = greeting_text"
  by code_simp

lemma greeting_nonempty: "greeting_text \<noteq> []"
  by (simp add: greeting_text_def char_bytes_def)

lemma Synthesizer_New_Inr:
  "Synthesizer_New binary True = Inr s \<longleftrightarrow> TrimSpace binary \<noteq> [] \<and> s = \<lparr>syn_binaryPath = binary\<rparr>"
  by (auto simp: Synthesizer_New_def Let_def)

text \<open>Only a live context reaches the command; what it is given cannot be read as an option.\<close>

lemma Speak_runs:
  "Synthesizer_Speak run s ctx txt w =
     (if TrimSpace txt \<noteq> [] \<and> ctx = CallLive then
        (map_option (classifyError ''speak with speech dispatcher'') (fst (run (syn_binaryPath s) [''--wait'', ''--'', txt] w)),
         snd (run (syn_binaryPath s) [''--wait'', ''--'', txt] w))
      else (fst (Synthesizer_Speak run s ctx txt w), w))"
  by (auto simp: Synthesizer_Speak_def contextError_def Let_def case_prod_beta split: call_ctx.splits)

text \<open>A speech that \<^verbatim>\<open>Execute\<close> started.\<close>

lemma Execute_starts:
  assumes "avatar_Execute ctx c now published d = (Inr (LiveStream i), d1)"
  shows "i = com_ID c \<and> d1 = snd (start_speech c now d)"
  using assms
  by (auto simp: avatar_Execute_def Let_def visual_action_def start_speech_def split: option.splits if_splits)


definition demo_greeting :: ActionCommand where
  "demo_greeting =
     (demo_action ''a'' Speak)\<lparr>com_Action := \<lparr>act_Type = Speak, act_TemplateID = ''welcome.return'', act_Resource = Voice, act_Timeout = 5\<rparr>\<rparr>"


end
