(* ===== verification/Supervisor.thy ===== *)
theory Supervisor
  imports Registry Privacy Go_Strings
begin

text \<open>
  Packages \<^verbatim>\<open>adapters/worker/supervisor\<close> (\<^verbatim>\<open>supervisor.go\<close>) and \<^verbatim>\<open>internal/runtime/provider\<close>
  (\<^verbatim>\<open>types.go\<close>): the owner of the camera and microphone worker processes. The processes, the clock,
  the lease source and the permission service are ports over an environment \<open>'w\<close>; a process is a
  number. The handlers of the loop of \<^verbatim>\<open>Run\<close> are functions on the supervisor and the environment, in
  the order of the calls; a channel is its buffer, a subscriber the one update it may hold.
\<close>

section \<open>Data\<close>

datatype provider_State =
  P_Disabled | P_Starting | P_Running | P_Degraded | P_Stopping | P_Other string

datatype provider_Reason =
    ReasonNone | ReasonDisabledByUser | ReasonPermissionDenied | ReasonDeviceUnavailable
  | ReasonDependencyUnavailable | ReasonModelUnavailable | ReasonInternalError | ReasonShuttingDown
  | ReasonOther string

record Runtime =
  rt_ProviderID :: string
  rt_State :: provider_State
  rt_Reason :: provider_Reason
  rt_UpdatedAt :: time

record provider_Snapshot =
  prs_Revision :: "64 word"
  prs_Providers :: "Runtime list"

record Spec =
  spec_ProviderID :: string
  spec_Permission :: Permission
  spec_Command :: string
  spec_Args :: "string list"
  spec_WorkingDir :: string
  spec_Env :: "string list"

record SupervisorConfig =
  sc_StopTimeout :: duration
  sc_HealthCheckInterval :: duration

record controller =
  ct_spec :: Spec
  ct_process :: "nat option"
  ct_failed :: bool
  ct_everHealthy :: bool
  ct_runtime :: Runtime

record Supervisor =
  sup_config :: SupervisorConfig
  sup_changes :: "ChangePermission list"
  sup_processes :: bool
  sup_started :: bool
  sup_controllers :: "controller list"
  sup_leaseState :: "ProviderSnapshot list"
  sup_revision :: "64 word"
  sup_subs :: "(64 word \<times> provider_Snapshot option) list"
  sup_nextSubID :: "64 word"

text \<open>
  The environment: reading the clock; starting a process (\<open>None\<close>: an error or a nil process); whether
  \<^verbatim>\<open>Done\<close> is ready; \<^verbatim>\<open>Signal\<close>; whether \<^verbatim>\<open>Done\<close> comes before the stop timeout; \<^verbatim>\<open>Kill\<close> and the wait
  that follows it; revoking a provider; reading the permissions.
\<close>

record 'w worker_ports =
  wp_Now :: "'w \<Rightarrow> time \<times> 'w"
  wp_Start :: "Spec \<Rightarrow> 'w \<Rightarrow> nat option \<times> 'w"
  wp_Done :: "nat \<Rightarrow> 'w \<Rightarrow> bool \<times> 'w"
  wp_Signal :: "nat \<Rightarrow> 'w \<Rightarrow> 'w"
  wp_DoneInTime :: "nat \<Rightarrow> duration \<Rightarrow> 'w \<Rightarrow> bool \<times> 'w"
  wp_Kill :: "nat \<Rightarrow> 'w \<Rightarrow> 'w"
  wp_Wait :: "nat \<Rightarrow> 'w \<Rightarrow> 'w"
  wp_Revoke :: "string \<Rightarrow> 'w \<Rightarrow> 'w"
  wp_Current :: "'w \<Rightarrow> (goerror + privacy_Snapshot) \<times> 'w"

section \<open>Construction\<close>

fun new_controllers ::
    "time \<Rightarrow> Spec list \<Rightarrow> string set \<Rightarrow> Permission set \<Rightarrow> goerror + controller list" where
  "new_controllers now [] seenProvider seenPermission = Inr []"
| "new_controllers now (spec # specs) seenProvider seenPermission =
     (let op = ''create local worker supervisor'' in
      if TrimSpace (spec_ProviderID spec) = [] \<or> spec_ProviderID spec \<noteq> TrimSpace (spec_ProviderID spec) \<or>
         TrimSpace (spec_Command spec) = [] then
        Inl (New_fault InvalidInput op (Leaf ''provider id and command are required''))
      else if spec_Permission spec \<noteq> CameraCapture \<and> spec_Permission spec \<noteq> MicrophoneCapture then
        Inl (New_fault InvalidInput op
          (Leaf ''only camera and microphone capture permissions may own workers''))
      else if spec_ProviderID spec \<in> seenProvider then
        Inl (New_fault InvalidInput op (Leaf ''provider id is duplicated''))
      else if spec_Permission spec \<in> seenPermission then
        Inl (New_fault InvalidInput op (Leaf ''worker permission is duplicated''))
      else (case new_controllers now specs (insert (spec_ProviderID spec) seenProvider)
                   (insert (spec_Permission spec) seenPermission) of
          Inl err \<Rightarrow> Inl err
        | Inr cs \<Rightarrow>
            Inr (\<lparr>ct_spec = spec, ct_process = None, ct_failed = False, ct_everHealthy = False,
                  ct_runtime = \<lparr>rt_ProviderID = spec_ProviderID spec, rt_State = P_Disabled,
                                rt_Reason = ReasonDisabledByUser, rt_UpdatedAt = now\<rparr>\<rparr> # cs)))"

definition Supervisor_New ::
    "'w worker_ports \<Rightarrow> SupervisorConfig \<Rightarrow> bool \<Rightarrow> Spec list \<Rightarrow> 'w \<Rightarrow> (goerror + Supervisor) \<times> 'w" where
  "Supervisor_New P config depsPresent specs w =
     (let op = ''create local worker supervisor'' in
      if sc_StopTimeout config \<le> 0 \<or> sc_HealthCheckInterval config \<le> 0 \<or> \<not> depsPresent then
        (Inl (New_fault InvalidInput op (Leaf ''positive timeout and all dependencies are required'')), w)
      else if length specs \<noteq> 2 then
        (Inl (New_fault InvalidInput op (Leaf ''camera and microphone worker specs are required'')), w)
      else
        let copied = sort_key spec_ProviderID specs;
            (now, w1) = wp_Now P w
        in if IsZero now then
             (Inl (New_fault InvalidInput op (Leaf ''clock returned zero time'')), w1)
           else (case new_controllers now copied {} {} of
               Inl err \<Rightarrow> (Inl err, w1)
             | Inr controllers \<Rightarrow>
                 (Inr \<lparr>sup_config = config, sup_changes = [], sup_processes = False, sup_started = False,
                       sup_controllers = controllers, sup_leaseState = [], sup_revision = 1,
                       sup_subs = [], sup_nextSubID = 0\<rparr>, w1)))"

section \<open>Runtime view\<close>

definition snapshotRuntime :: "Supervisor \<Rightarrow> provider_Snapshot" where
  "snapshotRuntime s =
     \<lparr>prs_Revision = sup_revision s, prs_Providers = map ct_runtime (sup_controllers s)\<rparr>"

definition notifyRuntime :: "Supervisor \<Rightarrow> Supervisor" where
  "notifyRuntime s = s\<lparr>sup_subs := map (\<lambda>(i, ch). (i, Some (snapshotRuntime s))) (sup_subs s)\<rparr>"

definition SubscribeProviderRuntime :: "Supervisor \<Rightarrow> (provider_Snapshot \<times> 64 word) \<times> Supervisor" where
  "SubscribeProviderRuntime s =
     (let i = sup_nextSubID s
      in ((snapshotRuntime s, i),
          s\<lparr>sup_subs := AList.update i None (sup_subs s), sup_nextSubID := i + 1\<rparr>))"

definition cancel_runtime :: "64 word \<Rightarrow> Supervisor \<Rightarrow> Supervisor" where
  "cancel_runtime i s = s\<lparr>sup_subs := AList.delete i (sup_subs s)\<rparr>"

definition receive_runtime :: "64 word \<Rightarrow> Supervisor \<Rightarrow> (provider_Snapshot \<times> Supervisor) option" where
  "receive_runtime i s =
     (case map_of (sup_subs s) i of
        Some (Some v) \<Rightarrow> Some (v, s\<lparr>sup_subs := AList.update i None (sup_subs s)\<rparr>)
      | _ \<Rightarrow> None)"

section \<open>Reconciliation\<close>

abbreviation item :: "Supervisor \<Rightarrow> nat \<Rightarrow> controller" where
  "item s i \<equiv> sup_controllers s ! i"

definition change_item :: "nat \<Rightarrow> (controller \<Rightarrow> controller) \<Rightarrow> Supervisor \<Rightarrow> Supervisor" where
  "change_item i f s = s\<lparr>sup_controllers := (sup_controllers s)[i := f (item s i)]\<rparr>"

definition setRuntimeLocked ::
    "'w worker_ports \<Rightarrow> nat \<Rightarrow> provider_State \<Rightarrow> provider_Reason \<Rightarrow> Supervisor \<times> 'w \<Rightarrow> Supervisor \<times> 'w" where
  "setRuntimeLocked P i state reason = (\<lambda>(s, w).
     let rt = ct_runtime (item s i)
     in if rt_State rt = state \<and> rt_Reason rt = reason then (s, w)
        else let (now, w1) = wp_Now P w;
                 s1 = change_item i (\<lambda>c. c\<lparr>ct_runtime := rt\<lparr>rt_State := state, rt_Reason := reason,
                                                             rt_UpdatedAt := now\<rparr>\<rparr>) s
             in (notifyRuntime (s1\<lparr>sup_revision := sup_revision s1 + 1\<rparr>), w1))"

definition removeLeaseStateLocked :: "string \<Rightarrow> Supervisor \<Rightarrow> Supervisor" where
  "removeLeaseStateLocked providerID s =
     s\<lparr>sup_leaseState := filter (\<lambda>v. pv_ProviderID v \<noteq> providerID) (sup_leaseState s)\<rparr>"

definition setLeases :: "ProviderSnapshot list \<Rightarrow> Supervisor \<Rightarrow> Supervisor" where
  "setLeases input s = s\<lparr>sup_leaseState := input\<rparr>"

fun permissionEnabled_in :: "Grant list \<Rightarrow> Permission \<Rightarrow> bool" where
  "permissionEnabled_in [] p = False"
| "permissionEnabled_in (g # gs) p = (if gr_Permission g = p then gr_Enabled g else permissionEnabled_in gs p)"

definition permissionEnabled :: "privacy_Snapshot \<Rightarrow> Permission \<Rightarrow> bool" where
  "permissionEnabled snapshot p = permissionEnabled_in (ps_Grants snapshot) p"

definition stopProcess :: "'w worker_ports \<Rightarrow> duration \<Rightarrow> nat \<Rightarrow> 'w \<Rightarrow> 'w" where
  "stopProcess P timeout p w =
     (case wp_DoneInTime P p timeout (wp_Signal P p w) of
        (True, w1) \<Rightarrow> w1
      | (False, w1) \<Rightarrow> wp_Wait P p (wp_Kill P p w1))"

definition refreshLeaseStateLocked :: "'w worker_ports \<Rightarrow> nat \<Rightarrow> Supervisor \<times> 'w \<Rightarrow> Supervisor \<times> 'w" where
  "refreshLeaseStateLocked P i = (\<lambda>(s, w).
     let (now, w1) = wp_Now P w
     in case find (\<lambda>v. pv_ProviderID v = spec_ProviderID (ct_spec (item s i))) (sup_leaseState s) of
          Some snapshot \<Rightarrow>
            let s1 = change_item i (\<lambda>c. c\<lparr>ct_everHealthy := True\<rparr>) s
            in if pv_Health snapshot = Healthy \<and> Before now (pv_LeaseExpiresAt snapshot)
               then setRuntimeLocked P i P_Running ReasonNone (s1, w1)
               else setRuntimeLocked P i P_Degraded ReasonDeviceUnavailable (s1, w1)
        | None \<Rightarrow>
            if ct_everHealthy (item s i) then setRuntimeLocked P i P_Degraded ReasonDeviceUnavailable (s, w1)
            else setRuntimeLocked P i P_Starting ReasonNone (s, w1))"

text \<open>The exit of the process is noticed first; then the process is stopped, started, or looked after.\<close>

definition notice_exit :: "'w worker_ports \<Rightarrow> nat \<Rightarrow> bool \<Rightarrow> Supervisor \<times> 'w \<Rightarrow> Supervisor \<times> 'w" where
  "notice_exit P i enabled = (\<lambda>(s, w).
     case ct_process (item s i) of
       None \<Rightarrow> (s, w)
     | Some p \<Rightarrow>
         (case wp_Done P p w of
            (False, w1) \<Rightarrow> (s, w1)
          | (True, w1) \<Rightarrow>
              let id = spec_ProviderID (ct_spec (item s i));
                  s1 = change_item i (\<lambda>c. c\<lparr>ct_process := None\<rparr>) s;
                  w2 = wp_Revoke P id w1;
                  s2 = removeLeaseStateLocked id s1
              in if enabled then
                   setRuntimeLocked P i P_Degraded ReasonInternalError
                     (change_item i (\<lambda>c. c\<lparr>ct_failed := True\<rparr>) s2, w2)
                 else (s2, w2)))"

definition stop_worker :: "'w worker_ports \<Rightarrow> nat \<Rightarrow> Supervisor \<times> 'w \<Rightarrow> Supervisor \<times> 'w" where
  "stop_worker P i = (\<lambda>(s, w).
     let s1 = change_item i (\<lambda>c. c\<lparr>ct_failed := False\<rparr>) s
     in case ct_process (item s1 i) of
          None \<Rightarrow> setRuntimeLocked P i P_Disabled ReasonDisabledByUser (s1, w)
        | Some p \<Rightarrow>
            let (s2, w2) = setRuntimeLocked P i P_Stopping ReasonShuttingDown (s1, w);
                id = spec_ProviderID (ct_spec (item s2 i));
                w3 = wp_Revoke P id (stopProcess P (sc_StopTimeout (sup_config s2)) p w2);
                s3 = change_item i (\<lambda>c. c\<lparr>ct_process := None, ct_everHealthy := False\<rparr>)
                       (removeLeaseStateLocked id s2)
            in setRuntimeLocked P i P_Disabled ReasonDisabledByUser (s3, w3))"

definition start_worker :: "'w worker_ports \<Rightarrow> nat \<Rightarrow> Supervisor \<times> 'w \<Rightarrow> Supervisor \<times> 'w" where
  "start_worker P i = (\<lambda>(s, w).
     let (s1, w1) = setRuntimeLocked P i P_Starting ReasonNone (s, w)
     in case wp_Start P (ct_spec (item s1 i)) w1 of
          (None, w2) \<Rightarrow>
            setRuntimeLocked P i P_Degraded ReasonDependencyUnavailable
              (change_item i (\<lambda>c. c\<lparr>ct_failed := True\<rparr>) s1, w2)
        | (Some p, w2) \<Rightarrow>
            refreshLeaseStateLocked P i (change_item i (\<lambda>c. c\<lparr>ct_process := Some p\<rparr>) s1, w2))"

definition reconcileOne :: "'w worker_ports \<Rightarrow> nat \<Rightarrow> bool \<Rightarrow> Supervisor \<times> 'w \<Rightarrow> Supervisor \<times> 'w" where
  "reconcileOne P i enabled sw =
     (let (s, w) = notice_exit P i enabled sw
      in if \<not> enabled then stop_worker P i (s, w)
         else (case ct_process (item s i) of
             None \<Rightarrow> if ct_failed (item s i) then (s, w) else start_worker P i (s, w)
           | Some p \<Rightarrow> refreshLeaseStateLocked P i (s, w)))"

definition reconcilePermission ::
    "'w worker_ports \<Rightarrow> Permission \<Rightarrow> bool \<Rightarrow> Supervisor \<times> 'w \<Rightarrow> Supervisor \<times> 'w" where
  "reconcilePermission P permission enabled = (\<lambda>(s, w).
     case find (\<lambda>i. spec_Permission (ct_spec (item s i)) = permission) [0..<length (sup_controllers s)] of
       Some i \<Rightarrow> reconcileOne P i enabled (s, w)
     | None \<Rightarrow> (s, w))"

definition reconcile_each ::
    "'w worker_ports \<Rightarrow> privacy_Snapshot \<Rightarrow> nat list \<Rightarrow> Supervisor \<times> 'w \<Rightarrow> Supervisor \<times> 'w" where
  "reconcile_each P permissions is sw =
     foldl (\<lambda>(s, w) i. reconcileOne P i (permissionEnabled permissions (spec_Permission (ct_spec (item s i)))) (s, w))
       sw is"

definition reconcileAll :: "'w worker_ports \<Rightarrow> Supervisor \<times> 'w \<Rightarrow> goerror option \<times> Supervisor \<times> 'w" where
  "reconcileAll P = (\<lambda>(s, w).
     case wp_Current P w of
       (Inl err, w1) \<Rightarrow> (Some err, s, w1)
     | (Inr permissions, w1) \<Rightarrow>
         (None, reconcile_each P permissions [0..<length (sup_controllers s)] (s, w1)))"

definition stop_one :: "'w worker_ports \<Rightarrow> nat \<Rightarrow> Supervisor \<times> 'w \<Rightarrow> Supervisor \<times> 'w" where
  "stop_one P i = (\<lambda>(s, w).
     let id = spec_ProviderID (ct_spec (item s i));
         (s1, w1) = (case ct_process (item s i) of
             None \<Rightarrow> (s, w)
           | Some p \<Rightarrow>
               let (s0, w0) = setRuntimeLocked P i P_Stopping ReasonShuttingDown (s, w)
               in (s0, wp_Revoke P id (stopProcess P (sc_StopTimeout (sup_config s0)) p w0)));
         s2 = change_item i (\<lambda>c. c\<lparr>ct_process := None, ct_failed := False, ct_everHealthy := False\<rparr>)
                (removeLeaseStateLocked id s1)
     in setRuntimeLocked P i P_Disabled ReasonDisabledByUser (s2, w1))"

definition stopAll :: "'w worker_ports \<Rightarrow> Supervisor \<times> 'w \<Rightarrow> Supervisor \<times> 'w" where
  "stopAll P = (\<lambda>(s, w). foldl (\<lambda>sw i. stop_one P i sw) (s, w) [0..<length (sup_controllers s)])"

section \<open>The loop\<close>

text \<open>
  \<^verbatim>\<open>Run\<close> up to the loop, and one iteration per ready case. A lease update is \<open>None\<close> when the channel
  is closed. The first component is the value returned, when the function returns.
\<close>

definition Run_start ::
    "'w worker_ports \<Rightarrow> bool \<Rightarrow> ProviderSnapshot list \<Rightarrow> Supervisor \<times> 'w \<Rightarrow>
     (goerror option) option \<times> Supervisor \<times> 'w" where
  "Run_start P nilctx initial = (\<lambda>(s, w).
     let op = ''run local worker supervisor'' in
     if nilctx then (Some (Some (New_fault InvalidInput op (Leaf ''context is required''))), s, w)
     else if sup_started s then
       (Some (Some (New_fault InvalidInput op (Leaf ''supervisor may only run once''))), s, w)
     else (case reconcileAll P (setLeases initial (s\<lparr>sup_started := True\<rparr>), w) of
         (Some err, sw) \<Rightarrow> (Some (Some err), sw)
       | (None, sw) \<Rightarrow> (None, sw)))"

datatype loop_case =
    ContextDone
  | TakeChange
  | LeaseUpdate "ProviderSnapshot list option"
  | ProcessSignal
  | HealthCheck

definition reconcile_or_stop ::
    "'w worker_ports \<Rightarrow> Supervisor \<times> 'w \<Rightarrow> (goerror option) option \<times> Supervisor \<times> 'w" where
  "reconcile_or_stop P sw =
     (case reconcileAll P sw of
        (Some err, sw1) \<Rightarrow> (Some (Some err), stopAll P sw1)
      | (None, sw1) \<Rightarrow> (None, sw1))"

fun loop_step ::
    "'w worker_ports \<Rightarrow> loop_case \<Rightarrow> Supervisor \<times> 'w \<Rightarrow> ((goerror option) option \<times> Supervisor \<times> 'w) option" where
  "loop_step P ContextDone (s, w) = Some (Some None, stopAll P (s, w))"
| "loop_step P TakeChange (s, w) =
     (case sup_changes s of
        [] \<Rightarrow> None
      | c # cs \<Rightarrow>
          Some (None, reconcilePermission P (cp_Permission c) (cp_Enabled c) (s\<lparr>sup_changes := cs\<rparr>, w)))"
| "loop_step P (LeaseUpdate None) (s, w) =
     Some (Some (Some (New_fault Unavailable ''run local worker supervisor''
                          (Leaf ''capability lease source closed''))), stopAll P (s, w))"
| "loop_step P (LeaseUpdate (Some snapshots)) (s, w) = Some (reconcile_or_stop P (setLeases snapshots s, w))"
| "loop_step P ProcessSignal (s, w) =
     (if sup_processes s then Some (reconcile_or_stop P (s\<lparr>sup_processes := False\<rparr>, w)) else None)"
| "loop_step P HealthCheck (s, w) = Some (reconcile_or_stop P (s, w))"

text \<open>
  \<^verbatim>\<open>Change\<close>: the command is persisted first; then it is sent to the loop, unless the context ends while
  the buffer of sixteen is full.
\<close>

definition changes_capacity :: nat where
  "changes_capacity = 16"

definition send_change :: "ChangePermission \<Rightarrow> goerror option \<Rightarrow> Supervisor \<Rightarrow> (goerror option \<times> Supervisor) option" where
  "send_change command ctxErr s =
     (if length (sup_changes s) < changes_capacity then Some (None, s\<lparr>sup_changes := sup_changes s @ [command]\<rparr>)
      else (case ctxErr of
          Some err \<Rightarrow> Some (Some err, s)
        | None \<Rightarrow> None))"

definition signal_process :: "Supervisor \<Rightarrow> Supervisor" where
  "signal_process s = s\<lparr>sup_processes := True\<rparr>"

section \<open>Frames\<close>

text \<open>
  What the operations on the controller \<open>i\<close> leave alone: the other controllers, the configuration, the
  channels, the identity of the controller and of its runtime view.
\<close>

definition same_frame :: "nat \<Rightarrow> Supervisor \<Rightarrow> Supervisor \<Rightarrow> bool" where
  "same_frame i s s' \<longleftrightarrow>
     length (sup_controllers s') = length (sup_controllers s) \<and>
     (\<forall>j. j \<noteq> i \<longrightarrow> item s' j = item s j) \<and>
     ct_spec (item s' i) = ct_spec (item s i) \<and>
     rt_ProviderID (ct_runtime (item s' i)) = rt_ProviderID (ct_runtime (item s i)) \<and>
     sup_config s' = sup_config s \<and> sup_changes s' = sup_changes s \<and>
     sup_processes s' = sup_processes s \<and> sup_started s' = sup_started s \<and>
     sup_nextSubID s' = sup_nextSubID s \<and> map fst (sup_subs s') = map fst (sup_subs s)"

lemma same_frame_refl [simp]: "same_frame i s s"
  by (simp add: same_frame_def)

lemma same_frame_trans: "same_frame i s s1 \<Longrightarrow> same_frame i s1 s2 = same_frame i s s2"
  by (auto simp: same_frame_def)

lemma same_frame_update [simp]:
  "same_frame i s0 (s\<lparr>sup_revision := n\<rparr>) = same_frame i s0 s"
  "same_frame i s0 (s\<lparr>sup_leaseState := ls\<rparr>) = same_frame i s0 s"
  by (simp_all add: same_frame_def)

lemma change_item_item:
  "item (change_item i f s) j = (if j = i \<and> i < length (sup_controllers s) then f (item s i) else item s j)"
  by (auto simp: change_item_def list_update_beyond not_less)

lemma change_item_frame [simp]:
  assumes "\<And>c. ct_spec (f c) = ct_spec c" "\<And>c. rt_ProviderID (ct_runtime (f c)) = rt_ProviderID (ct_runtime c)"
  shows "same_frame i s0 (change_item i f s) = same_frame i s0 s"
proof -
  have "same_frame i s (change_item i f s)"
    by (simp add: same_frame_def change_item_item assms) (simp add: change_item_def)
  then show ?thesis
    by (simp add: same_frame_def)
qed

lemma change_item_simps [simp]:
  "sup_revision (change_item i f s) = sup_revision s"
  "sup_leaseState (change_item i f s) = sup_leaseState s"
  "length (sup_controllers (change_item i f s)) = length (sup_controllers s)"
  "sup_config (change_item i f s) = sup_config s"
  "sup_subs (change_item i f s) = sup_subs s"
  by (simp_all add: change_item_def)

lemma notifyRuntime_simps [simp]:
  "sup_controllers (notifyRuntime s) = sup_controllers s"
  "sup_config (notifyRuntime s) = sup_config s"
  "sup_leaseState (notifyRuntime s) = sup_leaseState s"
  "same_frame i s0 (notifyRuntime s) = same_frame i s0 s"
  by (auto simp: notifyRuntime_def same_frame_def comp_def split_beta)

lemma removeLeaseStateLocked_simps [simp]:
  "sup_controllers (removeLeaseStateLocked p s) = sup_controllers s"
  "sup_config (removeLeaseStateLocked p s) = sup_config s"
  "sup_revision (removeLeaseStateLocked p s) = sup_revision s"
  "sup_subs (removeLeaseStateLocked p s) = sup_subs s"
  "same_frame i s0 (removeLeaseStateLocked p s) = same_frame i s0 s"
  by (auto simp: removeLeaseStateLocked_def same_frame_def)

lemma setRuntimeLocked_frame [simp]:
  "same_frame i s0 (fst (setRuntimeLocked P i st re sw)) = same_frame i s0 (fst sw)"
proof -
  have "same_frame i (fst sw) (fst (setRuntimeLocked P i st re sw))"
    by (auto simp: setRuntimeLocked_def split_beta Let_def same_frame_def change_item_item)
      (simp_all add: change_item_def notifyRuntime_def comp_def split_beta)
  then show ?thesis
    by (simp add: same_frame_def)
qed

lemma setRuntimeLocked_item [simp]:
  "ct_process (item (fst (setRuntimeLocked P i st re sw)) j) = ct_process (item (fst sw) j)"
  "ct_failed (item (fst (setRuntimeLocked P i st re sw)) j) = ct_failed (item (fst sw) j)"
  "ct_everHealthy (item (fst (setRuntimeLocked P i st re sw)) j) = ct_everHealthy (item (fst sw) j)"
  "ct_spec (item (fst (setRuntimeLocked P i st re sw)) j) = ct_spec (item (fst sw) j)"
  "length (sup_controllers (fst (setRuntimeLocked P i st re sw))) = length (sup_controllers (fst sw))"
  "sup_config (fst (setRuntimeLocked P i st re sw)) = sup_config (fst sw)"
  "sup_leaseState (fst (setRuntimeLocked P i st re sw)) = sup_leaseState (fst sw)"
  by (auto simp: setRuntimeLocked_def split_beta Let_def change_item_item)

lemma setRuntimeLocked_state [simp]:
  assumes "i < length (sup_controllers (fst sw))"
  shows "rt_State (ct_runtime (item (fst (setRuntimeLocked P i st re sw)) i)) = st"
    and "rt_Reason (ct_runtime (item (fst (setRuntimeLocked P i st re sw)) i)) = re"
  using assms by (auto simp: setRuntimeLocked_def split_beta Let_def change_item_item)

lemma refreshLeaseStateLocked_frame [simp]:
  "same_frame i s0 (fst (refreshLeaseStateLocked P i sw)) = same_frame i s0 (fst sw)"
  by (simp add: refreshLeaseStateLocked_def split_beta Let_def split: option.split)

lemma refreshLeaseStateLocked_item [simp]:
  "ct_process (item (fst (refreshLeaseStateLocked P i sw)) j) = ct_process (item (fst sw) j)"
  "ct_failed (item (fst (refreshLeaseStateLocked P i sw)) j) = ct_failed (item (fst sw) j)"
  by (simp_all add: refreshLeaseStateLocked_def split_beta Let_def change_item_item split: option.split)

lemma notice_exit_frame [simp]:
  "same_frame i s0 (fst (notice_exit P i enabled sw)) = same_frame i s0 (fst sw)"
  by (simp add: notice_exit_def split_beta Let_def split: option.split bool.split prod.split)

lemma stop_worker_frame [simp]: "same_frame i s0 (fst (stop_worker P i sw)) = same_frame i s0 (fst sw)"
  by (simp add: stop_worker_def split_beta Let_def split: option.split)

lemma start_worker_frame [simp]: "same_frame i s0 (fst (start_worker P i sw)) = same_frame i s0 (fst sw)"
  by (simp add: start_worker_def split_beta Let_def split: option.split prod.split)

lemma reconcileOne_frame [simp]: "same_frame i s0 (fst (reconcileOne P i enabled sw)) = same_frame i s0 (fst sw)"
  by (simp add: reconcileOne_def split_beta Let_def split: option.split)

lemma stop_one_frame [simp]: "same_frame i s0 (fst (stop_one P i sw)) = same_frame i s0 (fst sw)"
  by (simp add: stop_one_def split_beta Let_def split: option.split)

section \<open>What a controller may say\<close>

text \<open>
  Between two handlers the runtime view of a worker is determined by its process, its failure and its
  lease: with a process it is starting, running or degraded for the device; without one it is degraded
  for the failure that was noticed, or disabled.
\<close>

fun runtime_is :: "Runtime \<Rightarrow> provider_State \<Rightarrow> provider_Reason \<Rightarrow> bool" where
  "runtime_is rt st re = (rt_State rt = st \<and> rt_Reason rt = re)"

definition controller_ok :: "controller \<Rightarrow> bool" where
  "controller_ok c =
     (rt_ProviderID (ct_runtime c) = spec_ProviderID (ct_spec c) \<and>
      (case ct_process c of
         Some p \<Rightarrow>
           \<not> ct_failed c \<and>
           (runtime_is (ct_runtime c) P_Starting ReasonNone \<and> \<not> ct_everHealthy c \<or>
            runtime_is (ct_runtime c) P_Running ReasonNone \<and> ct_everHealthy c \<or>
            runtime_is (ct_runtime c) P_Degraded ReasonDeviceUnavailable \<and> ct_everHealthy c)
       | None \<Rightarrow>
           if ct_failed c then
             runtime_is (ct_runtime c) P_Degraded ReasonInternalError \<or>
             runtime_is (ct_runtime c) P_Degraded ReasonDependencyUnavailable
           else runtime_is (ct_runtime c) P_Disabled ReasonDisabledByUser))"

definition is_disabled :: "controller \<Rightarrow> bool" where
  "is_disabled c = (ct_process c = None \<and> \<not> ct_failed c \<and>
     runtime_is (ct_runtime c) P_Disabled ReasonDisabledByUser)"

lemma same_frame_id: "same_frame i s s' \<Longrightarrow>
    rt_ProviderID (ct_runtime (item s' i)) = rt_ProviderID (ct_runtime (item s i)) \<and>
    ct_spec (item s' i) = ct_spec (item s i)"
  by (simp add: same_frame_def)

lemma setRuntime_ProviderID [simp]:
  "rt_ProviderID (ct_runtime (item (fst (setRuntimeLocked P i st re sw)) i)) =
   rt_ProviderID (ct_runtime (item (fst sw) i))"
  using same_frame_id [of i "fst sw" "fst (setRuntimeLocked P i st re sw)"] by simp

lemma refreshLease_ok:
  assumes "i < length (sup_controllers (fst sw))" "ct_process (item (fst sw) i) = Some p"
    "\<not> ct_failed (item (fst sw) i)"
    "rt_ProviderID (ct_runtime (item (fst sw) i)) = spec_ProviderID (ct_spec (item (fst sw) i))"
  shows "controller_ok (item (fst (refreshLeaseStateLocked P i sw)) i)"
  using assms
  by (simp add: controller_ok_def refreshLeaseStateLocked_def split_beta Let_def change_item_item
      split: option.split)

lemma notice_exit_item:
  assumes "i < length (sup_controllers (fst sw))" "controller_ok (item (fst sw) i)"
  shows "(enabled \<longrightarrow> controller_ok (item (fst (notice_exit P i enabled sw)) i)) \<and>
    rt_ProviderID (ct_runtime (item (fst (notice_exit P i enabled sw)) i)) =
    spec_ProviderID (ct_spec (item (fst (notice_exit P i enabled sw)) i))"
  using assms
  by (auto simp: controller_ok_def notice_exit_def split_beta Let_def change_item_item
      split: option.split bool.split prod.split)

lemma stop_worker_disabled:
  assumes "i < length (sup_controllers (fst sw))"
  shows "is_disabled (item (fst (stop_worker P i sw)) i)"
  using assms
  by (simp add: is_disabled_def stop_worker_def split_beta Let_def change_item_item split: option.split)

lemma stop_one_disabled:
  assumes "i < length (sup_controllers (fst sw))"
  shows "is_disabled (item (fst (stop_one P i sw)) i) \<and> \<not> ct_everHealthy (item (fst (stop_one P i sw)) i)"
  using assms
  by (simp add: is_disabled_def stop_one_def split_beta Let_def change_item_item split: option.split)

lemma start_worker_ok:
  assumes "i < length (sup_controllers (fst sw))" "ct_process (item (fst sw) i) = None"
    "\<not> ct_failed (item (fst sw) i)"
    "rt_ProviderID (ct_runtime (item (fst sw) i)) = spec_ProviderID (ct_spec (item (fst sw) i))"
  shows "controller_ok (item (fst (start_worker P i sw)) i)"
proof -
  define sw1 where "sw1 = setRuntimeLocked P i P_Starting ReasonNone sw"
  have eq: "start_worker P i sw = (case (case sw1 of (s1, w1) \<Rightarrow> (s1, wp_Start P (ct_spec (item s1 i)) w1)) of
      (s1, None, w2) \<Rightarrow> setRuntimeLocked P i P_Degraded ReasonDependencyUnavailable
        (change_item i (\<lambda>c. c\<lparr>ct_failed := True\<rparr>) s1, w2)
    | (s1, Some p, w2) \<Rightarrow>
        refreshLeaseStateLocked P i (change_item i (\<lambda>c. c\<lparr>ct_process := Some p\<rparr>) s1, w2))"
    by (cases sw) (simp add: start_worker_def sw1_def Let_def split: prod.split)
  obtain out w2 where start: "wp_Start P (ct_spec (item (fst sw1) i)) (snd sw1) = (out, w2)"
    by (metis prod.exhaust)
  have sw1: "i < length (sup_controllers (fst sw1))" "ct_process (item (fst sw1) i) = None"
    "\<not> ct_failed (item (fst sw1) i)"
    "rt_ProviderID (ct_runtime (item (fst sw1) i)) = spec_ProviderID (ct_spec (item (fst sw1) i))"
    using assms by (simp_all add: sw1_def)
  show ?thesis
  proof (cases out)
    case None
    with start sw1 show ?thesis
      by (simp add: eq case_prod_beta' controller_ok_def change_item_item)
  next
    case (Some p)
    with start sw1 show ?thesis
      by (simp add: eq case_prod_beta' refreshLease_ok change_item_item)
  qed
qed

lemma is_disabled_ok:
  "is_disabled c \<Longrightarrow> rt_ProviderID (ct_runtime c) = spec_ProviderID (ct_spec c) \<Longrightarrow> controller_ok c"
  by (simp add: is_disabled_def controller_ok_def)

lemma reconcileOne_disabled:
  assumes "i < length (sup_controllers (fst sw))"
  shows "is_disabled (item (fst (reconcileOne P i False sw)) i)"
proof -
  have "same_frame i (fst sw) (fst (notice_exit P i False sw))"
    by simp
  with assms show ?thesis
    by (simp add: reconcileOne_def split_beta stop_worker_disabled same_frame_def)
qed

lemma reconcileOne_ok:
  assumes "i < length (sup_controllers (fst sw))" "controller_ok (item (fst sw) i)"
  shows "controller_ok (item (fst (reconcileOne P i enabled sw)) i)"
proof (cases enabled)
  case False
  have "same_frame i (fst sw) (fst (reconcileOne P i False sw))"
    by simp
  with assms(2) have "rt_ProviderID (ct_runtime (item (fst (reconcileOne P i False sw)) i)) =
      spec_ProviderID (ct_spec (item (fst (reconcileOne P i False sw)) i))"
    by (simp add: same_frame_def controller_ok_def split: option.splits if_splits)
  with False show ?thesis
    using reconcileOne_disabled [OF assms(1)] by (simp add: is_disabled_ok)
next
  case True
  define sw1 where "sw1 = notice_exit P i True sw"
  have "same_frame i (fst sw) (fst sw1)"
    by (simp add: sw1_def)
  with assms have i: "i < length (sup_controllers (fst sw1))"
    by (simp add: same_frame_def)
  have ok: "controller_ok (item (fst sw1) i)"
    using notice_exit_item [OF assms, of True P] by (simp add: sw1_def)
  have id: "rt_ProviderID (ct_runtime (item (fst sw1) i)) = spec_ProviderID (ct_spec (item (fst sw1) i))"
    using ok by (simp add: controller_ok_def)
  have out: "reconcileOne P i True sw =
      (case ct_process (item (fst sw1) i) of
         None \<Rightarrow> if ct_failed (item (fst sw1) i) then sw1 else start_worker P i sw1
       | Some p \<Rightarrow> refreshLeaseStateLocked P i sw1)"
    by (cases sw1) (simp add: reconcileOne_def sw1_def [symmetric] Let_def split: option.split)
  show ?thesis
  proof (cases "ct_process (item (fst sw1) i)")
    case None
    with out ok id i True show ?thesis
      by (simp add: start_worker_ok)
  next
    case (Some p)
    with ok have "\<not> ct_failed (item (fst sw1) i)"
      by (simp add: controller_ok_def)
    with Some out id i True show ?thesis
      by (simp add: refreshLease_ok)
  qed
qed

text \<open>A worker whose failure was noticed is left alone while its permission stays enabled.\<close>

lemma reconcileOne_failed:
  assumes "ct_process (item (fst sw) i) = None" "ct_failed (item (fst sw) i)"
  shows "reconcileOne P i True sw = sw"
  using assms by (simp add: reconcileOne_def notice_exit_def split_beta)

section \<open>All the controllers\<close>

definition supervisor_ok :: "Supervisor \<Rightarrow> bool" where
  "supervisor_ok s = (\<forall>c \<in> set (sup_controllers s). controller_ok c)"

lemma supervisor_ok_item: "supervisor_ok s = (\<forall>i < length (sup_controllers s). controller_ok (item s i))"
  by (simp add: supervisor_ok_def all_set_conv_all_nth)

lemma supervisor_ok_frame:
  assumes "same_frame i s s'" "i < length (sup_controllers s) \<Longrightarrow> controller_ok (item s' i)" "supervisor_ok s"
  shows "supervisor_ok s'"
  unfolding supervisor_ok_item
proof (intro allI impI)
  fix j
  assume "j < length (sup_controllers s')"
  with assms show "controller_ok (item s' j)"
    by (cases "j = i") (simp_all add: same_frame_def supervisor_ok_item)
qed

lemma reconcileOne_supervisor_ok:
  assumes "supervisor_ok (fst sw)"
  shows "supervisor_ok (fst (reconcileOne P i enabled sw))"
  by (rule supervisor_ok_frame [of i "fst sw"])
    (use assms in \<open>auto simp: reconcileOne_ok supervisor_ok_item\<close>)

lemma stop_one_supervisor_ok:
  assumes "supervisor_ok (fst sw)"
  shows "supervisor_ok (fst (stop_one P i sw))"
proof (rule supervisor_ok_frame [of i "fst sw"])
  assume i: "i < length (sup_controllers (fst sw))"
  with assms have "controller_ok (item (fst sw) i)"
    by (simp add: supervisor_ok_item)
  moreover have "same_frame i (fst sw) (fst (stop_one P i sw))"
    by simp
  ultimately show "controller_ok (item (fst (stop_one P i sw)) i)"
    using stop_one_disabled [OF i, of P]
    by (auto simp: same_frame_def controller_ok_def is_disabled_def split: option.splits if_splits)
qed (use assms in auto)

text \<open>Every controller of the list of indices has followed its permission.\<close>

definition settled :: "bool \<Rightarrow> controller \<Rightarrow> bool" where
  "settled enabled c = (controller_ok c \<and> (\<not> enabled \<longrightarrow> is_disabled c))"

definition same_shape :: "Supervisor \<Rightarrow> Supervisor \<Rightarrow> bool" where
  "same_shape s s' \<longleftrightarrow>
     length (sup_controllers s') = length (sup_controllers s) \<and>
     map ct_spec (sup_controllers s') = map ct_spec (sup_controllers s) \<and>
     sup_config s' = sup_config s \<and> sup_changes s' = sup_changes s \<and>
     sup_processes s' = sup_processes s \<and> sup_started s' = sup_started s \<and>
     sup_nextSubID s' = sup_nextSubID s \<and> map fst (sup_subs s') = map fst (sup_subs s)"

lemma same_shape_refl [simp]: "same_shape s s"
  by (simp add: same_shape_def)

lemma same_shape_trans: "same_shape s s1 \<Longrightarrow> same_shape s1 s2 \<Longrightarrow> same_shape s s2"
  by (simp add: same_shape_def)

lemma same_shape_frame: "same_frame i s s' \<Longrightarrow> same_shape s s'"
  by (simp add: same_frame_def same_shape_def list_eq_iff_nth_eq) metis

lemma same_shape_spec:
  "same_shape s s' \<Longrightarrow> i < length (sup_controllers s) \<Longrightarrow> ct_spec (item s' i) = ct_spec (item s i)"
  by (simp add: same_shape_def list_eq_iff_nth_eq)

lemma foldl_shape:
  assumes "\<And>i sw. same_frame i (fst sw) (fst (f i sw))"
  shows "same_shape (fst sw) (fst (foldl (\<lambda>sw i. f i sw) sw is))"
proof (induction "is" arbitrary: sw)
  case (Cons i "is")
  show ?case
    using same_shape_trans [OF same_shape_frame [OF assms [of i sw]] Cons.IH [of "f i sw"]] by simp
qed simp

lemma foldl_item:
  assumes "\<And>i sw. same_frame i (fst sw) (fst (f i sw))" "j \<notin> set is"
  shows "item (fst (foldl (\<lambda>sw i. f i sw) sw is)) j = item (fst sw) j"
  using assms(2)
proof (induction "is" arbitrary: sw)
  case (Cons i "is")
  then show ?case
    using assms(1) [of i sw] by (simp add: same_frame_def)
qed simp

text \<open>What the turn of the controller \<open>i\<close> makes of it stays as it is in the turns of the others.\<close>

lemma foldl_each:
  assumes frame: "\<And>i sw. same_frame i (fst sw) (fst (f i sw))" and "distinct is"
    and turn: "\<And>i sw'. i \<in> set is \<Longrightarrow> same_shape (fst sw) (fst sw') \<Longrightarrow> item (fst sw') i = item (fst sw) i \<Longrightarrow>
        Q i (item (fst (f i sw')) i)"
    and "i \<in> set is"
  shows "Q i (item (fst (foldl (\<lambda>sw i. f i sw) sw is)) i)"
proof -
  obtain xs ys where split: "is = xs @ i # ys"
    using \<open>i \<in> set is\<close> by (auto simp: in_set_conv_decomp)
  define sw1 where "sw1 = foldl (\<lambda>sw i. f i sw) sw xs"
  from \<open>distinct is\<close> split have "i \<notin> set xs" "i \<notin> set ys"
    by auto
  have "Q i (item (fst (f i sw1)) i)"
    by (rule turn)
      (use \<open>i \<in> set is\<close> \<open>i \<notin> set xs\<close> in
        \<open>auto simp: sw1_def foldl_item [OF frame] intro: foldl_shape [OF frame]\<close>)
  with split show ?thesis
    using foldl_item [OF frame \<open>i \<notin> set ys\<close>, of "f i sw1"] by (simp add: sw1_def)
qed

abbreviation reconcile_turn ::
    "'w worker_ports \<Rightarrow> privacy_Snapshot \<Rightarrow> nat \<Rightarrow> Supervisor \<times> 'w \<Rightarrow> Supervisor \<times> 'w" where
  "reconcile_turn P permissions i sw \<equiv>
     reconcileOne P i (permissionEnabled permissions (spec_Permission (ct_spec (item (fst sw) i)))) sw"

lemma reconcile_each_turns:
  "reconcile_each P permissions is sw = foldl (\<lambda>sw i. reconcile_turn P permissions i sw) sw is"
  by (simp add: reconcile_each_def split_beta')

lemma reconcile_each_shape: "same_shape (fst sw) (fst (reconcile_each P permissions is sw))"
  by (simp add: reconcile_each_turns foldl_shape)

lemma reconcile_each_settled:
  fixes sw :: "Supervisor \<times> 'a"
  assumes "supervisor_ok (fst sw)" "i < length (sup_controllers (fst sw))"
    "is = [0..<length (sup_controllers (fst sw))]"
  shows "settled (permissionEnabled permissions (spec_Permission (ct_spec (item (fst sw) i))))
    (item (fst (reconcile_each P permissions is sw)) i)"
  unfolding reconcile_each_turns
proof (rule foldl_each)
  fix j and sw' :: "Supervisor \<times> 'a"
  assume j: "j \<in> set is" and shape: "same_shape (fst sw) (fst sw')" and it: "item (fst sw') j = item (fst sw) j"
  let ?enabled = "permissionEnabled permissions (spec_Permission (ct_spec (item (fst sw) j)))"
  from j assms(3) shape have len: "j < length (sup_controllers (fst sw))" "j < length (sup_controllers (fst sw'))"
    by (auto simp: same_shape_def)
  with assms(1) it have "controller_ok (item (fst sw') j)"
    by (simp add: supervisor_ok_item)
  with len show "settled ?enabled (item (fst (reconcile_turn P permissions j sw')) j)"
    using reconcileOne_disabled [of j sw' P] by (cases ?enabled) (simp_all add: settled_def it reconcileOne_ok)
qed (use assms in auto)

lemma settled_supervisor_ok:
  assumes "same_shape s s'" "\<And>i. i < length (sup_controllers s) \<Longrightarrow> settled (en i) (item s' i)"
  shows "supervisor_ok s'"
  using assms by (simp add: supervisor_ok_item same_shape_def settled_def)

lemma stopAll_shape: "same_shape (fst sw) (fst (stopAll P sw))"
  using foldl_shape [of "stop_one P" sw "[0..<length (sup_controllers (fst sw))]"]
  by (cases sw) (simp add: stopAll_def)

lemma stopAll_disabled:
  fixes sw :: "Supervisor \<times> 'a"
  assumes "i < length (sup_controllers (fst sw))"
  shows "is_disabled (item (fst (stopAll P sw)) i)"
proof -
  let ?is = "[0..<length (sup_controllers (fst sw))]"
  have "is_disabled (item (fst (foldl (\<lambda>sw i. stop_one P i sw) sw ?is)) i)"
  proof (rule foldl_each [where Q = "\<lambda>_. is_disabled"])
    fix j and sw' :: "Supervisor \<times> 'a"
    assume "j \<in> set ?is" "same_shape (fst sw) (fst sw')"
    then show "is_disabled (item (fst (stop_one P j sw')) j)"
      by (simp add: same_shape_def stop_one_disabled)
  qed (use assms in auto)
  then show ?thesis
    by (cases sw) (simp add: stopAll_def)
qed

lemma foldl_preserves:
  assumes "\<And>i sw. I sw \<Longrightarrow> I (f i sw)" "I sw"
  shows "I (foldl (\<lambda>sw i. f i sw) sw is)"
  using assms(2) by (induction "is" arbitrary: sw) (simp_all add: assms(1))

lemma stopAll_preserves:
  assumes "\<And>i sw. I sw \<Longrightarrow> I (stop_one P i sw)" "I sw"
  shows "I (stopAll P sw)"
  using foldl_preserves [of I "stop_one P", OF assms] by (cases sw) (simp add: stopAll_def)

lemma reconcile_each_preserves:
  assumes "\<And>i enabled sw. I sw \<Longrightarrow> I (reconcileOne P i enabled sw)" "I sw"
  shows "I (reconcile_each P permissions is sw)"
  using foldl_preserves [of I "reconcile_turn P permissions", OF _ assms(2)] assms(1)
  by (simp add: reconcile_each_turns)

section \<open>Subscribers\<close>

text \<open>
  A pending update is the current runtime view; a subscriber without one has it. \<open>view\<close> is what each
  subscriber received last.
\<close>

definition views_current :: "(64 word \<rightharpoonup> provider_Snapshot) \<Rightarrow> Supervisor \<Rightarrow> bool" where
  "views_current view s =
     ((\<forall>i v. map_of (sup_subs s) i = Some (Some v) \<longrightarrow> v = snapshotRuntime s) \<and>
      (\<forall>i. map_of (sup_subs s) i = Some None \<longrightarrow> view i = Some (snapshotRuntime s)))"

lemma views_current_notify [simp]: "views_current view (notifyRuntime s)"
  by (auto simp: views_current_def notifyRuntime_def snapshotRuntime_def map_of_map)

lemma views_current_update [simp]:
  "views_current view (removeLeaseStateLocked p s) = views_current view s"
  "views_current view (setLeases ls s) = views_current view s"
  "views_current view (s\<lparr>sup_changes := cs\<rparr>) = views_current view s"
  "views_current view (s\<lparr>sup_processes := b\<rparr>) = views_current view s"
  "views_current view (s\<lparr>sup_started := b\<rparr>) = views_current view s"
  by (simp_all add: views_current_def snapshotRuntime_def removeLeaseStateLocked_def setLeases_def)

lemma views_current_change_item [simp]:
  assumes "\<And>c. ct_runtime (f c) = ct_runtime c"
  shows "views_current view (change_item i f s) = views_current view s"
proof -
  have "map ct_runtime (sup_controllers (change_item i f s)) = map ct_runtime (sup_controllers s)"
    by (simp add: list_eq_iff_nth_eq change_item_item assms)
  then show ?thesis
    by (simp add: views_current_def snapshotRuntime_def)
qed

lemma views_current_setRuntime [simp]:
  "views_current view (fst sw) \<Longrightarrow> views_current view (fst (setRuntimeLocked P i st re sw))"
  by (simp add: setRuntimeLocked_def split_beta Let_def)

lemma views_current_refresh [simp]:
  "views_current view (fst sw) \<Longrightarrow> views_current view (fst (refreshLeaseStateLocked P i sw))"
  by (simp add: refreshLeaseStateLocked_def split_beta Let_def split: option.split)

lemma views_current_reconcileOne:
  assumes "views_current view (fst sw)"
  shows "views_current view (fst (reconcileOne P i enabled sw))"
proof -
  have "views_current view (fst (notice_exit P i enabled sw))" for enabled
    using assms by (simp add: notice_exit_def split_beta Let_def split: option.split bool.split prod.split)
  moreover have "views_current view (fst (stop_worker P i sw'))" "views_current view (fst (start_worker P i sw'))"
    if "views_current view (fst sw')" for sw'
    using that by (simp_all add: stop_worker_def start_worker_def split_beta Let_def split: option.split prod.split)
  ultimately show ?thesis
    by (simp add: reconcileOne_def split_beta Let_def split: option.split)
qed

lemma views_current_stop_one:
  "views_current view (fst sw) \<Longrightarrow> views_current view (fst (stop_one P i sw))"
  by (simp add: stop_one_def split_beta Let_def split: option.split)

section \<open>Construction\<close>

lemma new_controllers_Inr:
  assumes "new_controllers now specs seenProvider seenPermission = Inr cs"
  shows "map ct_spec cs = specs \<and> list_all is_disabled cs \<and> list_all controller_ok cs \<and>
    list_all (\<lambda>c. rt_UpdatedAt (ct_runtime c) = now) cs \<and>
    distinct (map spec_ProviderID specs) \<and> distinct (map spec_Permission specs) \<and>
    spec_ProviderID ` set specs \<inter> seenProvider = {} \<and> spec_Permission ` set specs \<inter> seenPermission = {} \<and>
    spec_Permission ` set specs \<subseteq> {CameraCapture, MicrophoneCapture}"
  using assms
proof (induction specs arbitrary: seenProvider seenPermission cs)
  case (Cons spec specs)
  let ?provider = "insert (spec_ProviderID spec) seenProvider"
  let ?permission = "insert (spec_Permission spec) seenPermission"
  from Cons.prems obtain cs' where rest: "new_controllers now specs ?provider ?permission = Inr cs'"
    and head: "spec_ProviderID spec \<notin> seenProvider" "spec_Permission spec \<notin> seenPermission"
      "spec_Permission spec = CameraCapture \<or> spec_Permission spec = MicrophoneCapture"
    and cs: "cs = \<lparr>ct_spec = spec, ct_process = None, ct_failed = False, ct_everHealthy = False,
        ct_runtime = \<lparr>rt_ProviderID = spec_ProviderID spec, rt_State = P_Disabled,
                      rt_Reason = ReasonDisabledByUser, rt_UpdatedAt = now\<rparr>\<rparr> # cs'"
    by (auto simp: Let_def split: if_splits sum.splits)
  show ?case
    using Cons.IH [OF rest] head cs by (auto simp: is_disabled_def controller_ok_def)
qed simp

text \<open>\<^verbatim>\<open>New\<close> makes a supervisor of the two specs in the order of their ids, with no process and everything disabled.\<close>

lemma Supervisor_New_Inr:
  assumes "Supervisor_New P config present specs w = (Inr s, w')"
  shows "supervisor_ok s" "\<forall>c \<in> set (sup_controllers s). is_disabled c" "length (sup_controllers s) = 2"
    "map ct_spec (sup_controllers s) = sort_key spec_ProviderID specs"
    "spec_Permission ` set specs = {CameraCapture, MicrophoneCapture}"
    "distinct (map spec_Permission specs)" "views_current view s" "w' = snd (wp_Now P w)"
    "0 < sc_StopTimeout (sup_config s)" "sup_changes s = []" "\<not> sup_started s"
proof -
  from assms obtain cs where len: "length specs = 2"
    and cs: "new_controllers (fst (wp_Now P w)) (sort_key spec_ProviderID specs) {} {} = Inr cs"
    and s: "sup_controllers s = cs" "sup_subs s = []" "sup_config s = config" "0 < sc_StopTimeout config"
      "sup_changes s = []" "\<not> sup_started s" and w': "w' = snd (wp_Now P w)"
    by (auto simp: Supervisor_New_def Let_def split: if_splits prod.splits sum.splits)
  note made = new_controllers_Inr [OF cs]
  show "supervisor_ok s" "\<forall>c \<in> set (sup_controllers s). is_disabled c"
    using made s by (simp_all add: supervisor_ok_def list_all_iff)
  show "map ct_spec (sup_controllers s) = sort_key spec_ProviderID specs"
    using made s by simp
  then have "length (sup_controllers s) = length specs"
    by (metis length_map length_sort)
  with len show "length (sup_controllers s) = 2"
    by simp
  have "mset (map spec_Permission (sort_key spec_ProviderID specs)) = mset (map spec_Permission specs)"
    by simp
  with made show dist: "distinct (map spec_Permission specs)"
    by (metis mset_eq_imp_distinct_iff)
  have sub: "spec_Permission ` set specs \<subseteq> {CameraCapture, MicrophoneCapture}"
    using made by simp
  have "card (spec_Permission ` set specs) = 2"
    using distinct_card [OF dist] len by simp
  with sub show "spec_Permission ` set specs = {CameraCapture, MicrophoneCapture}"
    by (intro card_subset_eq) simp_all
  show "views_current view s"
    using s by (simp add: views_current_def)
  show "w' = snd (wp_Now P w)" "0 < sc_StopTimeout (sup_config s)" "sup_changes s = []" "\<not> sup_started s"
    using s w' by simp_all
qed

end
