(* ===== verification/Desktop_Mapper.thy ===== *)
theory Desktop_Mapper
  imports Supervisor Web_Avatar
begin

text \<open>
  The mapper of package \<^verbatim>\<open>adapters/ui/desktop\<close> (\<^verbatim>\<open>mapper.go\<close>): the avatar, the permissions and the
  provider runtime as messages of the desktop protocol. Enumerations of the protocol are their numbers; a
  timestamp is the instant it represents. Whether an instant is a valid timestamp is decided by the
  protobuf library: it is the parameter \<open>V\<close>.
\<close>

section \<open>Messages\<close>

record AvatarSnapshot =
  aw_Mode :: int
  aw_Text :: string
  aw_Speaking :: bool
  aw_ActionId :: string
  aw_OccurredAt :: time

record PermissionGrant =
  gw_Permission :: int
  gw_Enabled :: bool
  gw_UpdatedAt :: "time option"

record ProviderRuntime =
  rw_ProviderId :: string
  rw_State :: int
  rw_Reason :: int
  rw_UpdatedAt :: time

record DesktopState =
  ds_Revision :: "64 word"
  ds_Avatar :: AvatarSnapshot
  ds_Permissions :: "PermissionGrant list"
  ds_Providers :: "ProviderRuntime list"

section \<open>Timestamps\<close>

text \<open>The two errors of the library are one leaf.\<close>

definition requiredTimestamp :: "(time \<Rightarrow> bool) \<Rightarrow> time \<Rightarrow> goerror + time" where
  "requiredTimestamp V input =
     (if IsZero input then Inl (Leaf ''timestamp is required'')
      else if \<not> V input then Inl (Leaf ''invalid timestamp'')
      else Inr input)"

definition optionalTimestamp :: "(time \<Rightarrow> bool) \<Rightarrow> time \<Rightarrow> goerror + time option" where
  "optionalTimestamp V input =
     (if IsZero input then Inr None else map_sum (\<lambda>e. e) Some (requiredTimestamp V input))"

section \<open>The avatar\<close>

fun avatarModeToWire :: "Mode \<Rightarrow> goerror + int" where
  "avatarModeToWire ModeIdle = Inr 1"
| "avatarModeToWire ModeAttending = Inr 2"
| "avatarModeToWire ModeAcknowledging = Inr 3"
| "avatarModeToWire ModeExpressing = Inr 4"
| "avatarModeToWire ModeSpeaking = Inr 5"
| "avatarModeToWire (OtherMode m) = Inl (Leaf ''unknown avatar mode'')"

definition avatarToWire :: "(time \<Rightarrow> bool) \<Rightarrow> Update \<Rightarrow> goerror + AvatarSnapshot" where
  "avatarToWire V input =
     (case avatarModeToWire (upd_Mode input) of
        Inl err \<Rightarrow> Inl err
      | Inr mode \<Rightarrow>
          (case requiredTimestamp V (upd_OccurredAt input) of
             Inl err \<Rightarrow> Inl err
           | Inr occurredAt \<Rightarrow>
               if upd_Speaking input \<and> upd_Mode input \<noteq> ModeSpeaking then
                 Inl (Leaf ''speaking avatar must be in SPEAKING mode'')
               else Inr \<lparr>aw_Mode = mode, aw_Text = upd_Text input, aw_Speaking = upd_Speaking input,
                         aw_ActionId = upd_ActionID input, aw_OccurredAt = occurredAt\<rparr>))"

section \<open>Permissions\<close>

definition permission_numbers :: "(Permission \<times> int) list" where
  "permission_numbers =
     [(CameraCapture, 1), (MicrophoneCapture, 2), (Permission.FaceDetection, 3), (Permission.FaceIdentification, 4),
      (Permission.FaceLiveness, 5), (Permission.SpeakerIdentification, 6), (Permission.SpeakerVerification, 7),
      (Permission.SpeechTranscription, 8)]"

definition permissionToWire :: "Permission \<Rightarrow> goerror + int" where
  "permissionToWire p =
     (case map_of permission_numbers p of
        Some n \<Rightarrow> Inr n
      | None \<Rightarrow> Inl (Leaf ''unknown privacy permission''))"

definition permissionFromWire :: "int \<Rightarrow> goerror + Permission" where
  "permissionFromWire n =
     (case map_of (map prod.swap permission_numbers) n of
        Some p \<Rightarrow> Inr p
      | None \<Rightarrow> Inl (Leaf ''unknown desktop permission''))"

text \<open>The loop, with the permissions seen so far.\<close>

fun grants_to_wire ::
    "(time \<Rightarrow> bool) \<Rightarrow> Grant list \<Rightarrow> Permission set \<Rightarrow> goerror + PermissionGrant list \<times> Permission set" where
  "grants_to_wire V [] known = Inr ([], known)"
| "grants_to_wire V (grant # grants) known =
     (case permissionToWire (gr_Permission grant) of
        Inl err \<Rightarrow> Inl err
      | Inr permission \<Rightarrow>
          if gr_Permission grant \<in> known then Inl (Leaf ''duplicate permission grant'')
          else if gr_Enabled grant \<and> IsZero (gr_UpdatedAt grant) then
            Inl (Leaf ''enabled permission has no update time'')
          else (case optionalTimestamp V (gr_UpdatedAt grant) of
              Inl err \<Rightarrow> Inl err
            | Inr updatedAt \<Rightarrow>
                (case grants_to_wire V grants (insert (gr_Permission grant) known) of
                   Inl err \<Rightarrow> Inl err
                 | Inr (output, known') \<Rightarrow>
                     Inr (\<lparr>gw_Permission = permission, gw_Enabled = gr_Enabled grant, gw_UpdatedAt = updatedAt\<rparr> # output,
                          known'))))"

definition permissionsToWire :: "(time \<Rightarrow> bool) \<Rightarrow> privacy_Snapshot \<Rightarrow> goerror + PermissionGrant list" where
  "permissionsToWire V snapshot =
     (if ps_Revision snapshot = 0 \<and> list_ex (\<lambda>g. gr_Enabled g \<or> \<not> IsZero (gr_UpdatedAt g)) (ps_Grants snapshot) then
        Inl (Leaf ''revision zero contains changed permission'')
      else (case grants_to_wire V (ps_Grants snapshot) {} of
          Inl err \<Rightarrow> Inl err
        | Inr (output, known) \<Rightarrow>
            if card known \<noteq> length AllPermissions then Inl (Leaf ''permission snapshot is incomplete'')
            else Inr (sort_key gw_Permission output)))"

section \<open>Provider runtime\<close>

fun providerStateToWire :: "provider_State \<Rightarrow> goerror + int" where
  "providerStateToWire P_Disabled = Inr 1"
| "providerStateToWire P_Starting = Inr 2"
| "providerStateToWire P_Running = Inr 3"
| "providerStateToWire P_Degraded = Inr 4"
| "providerStateToWire P_Stopping = Inr 5"
| "providerStateToWire (P_Other s) = Inl (Leaf ''unknown provider state'')"

fun providerReasonToWire :: "provider_Reason \<Rightarrow> goerror + int" where
  "providerReasonToWire ReasonNone = Inr 1"
| "providerReasonToWire ReasonDisabledByUser = Inr 2"
| "providerReasonToWire ReasonPermissionDenied = Inr 3"
| "providerReasonToWire ReasonDeviceUnavailable = Inr 4"
| "providerReasonToWire ReasonDependencyUnavailable = Inr 5"
| "providerReasonToWire ReasonModelUnavailable = Inr 6"
| "providerReasonToWire ReasonInternalError = Inr 7"
| "providerReasonToWire ReasonShuttingDown = Inr 8"
| "providerReasonToWire (ReasonOther s) = Inl (Leaf ''unknown provider reason'')"

fun validProviderStateReason :: "provider_State \<Rightarrow> provider_Reason \<Rightarrow> bool" where
  "validProviderStateReason P_Disabled reason = (reason = ReasonDisabledByUser)"
| "validProviderStateReason P_Starting reason = (reason = ReasonNone)"
| "validProviderStateReason P_Running reason = (reason = ReasonNone)"
| "validProviderStateReason P_Degraded reason =
     (reason \<in> {ReasonPermissionDenied, ReasonDeviceUnavailable, ReasonDependencyUnavailable,
                ReasonModelUnavailable, ReasonInternalError})"
| "validProviderStateReason P_Stopping reason = (reason = ReasonShuttingDown)"
| "validProviderStateReason (P_Other s) reason = False"

fun runtimes_to_wire :: "(time \<Rightarrow> bool) \<Rightarrow> Runtime list \<Rightarrow> string set \<Rightarrow> goerror + ProviderRuntime list" where
  "runtimes_to_wire V [] known = Inr []"
| "runtimes_to_wire V (rt # rts) known =
     (if TrimSpace (rt_ProviderID rt) = [] \<or> rt_ProviderID rt \<noteq> TrimSpace (rt_ProviderID rt) then
        Inl (Leaf ''provider id is required'')
      else if rt_ProviderID rt \<in> known then Inl (Leaf ''duplicate provider runtime'')
      else (case providerStateToWire (rt_State rt) of
          Inl err \<Rightarrow> Inl err
        | Inr state \<Rightarrow>
            (case providerReasonToWire (rt_Reason rt) of
               Inl err \<Rightarrow> Inl err
             | Inr reason \<Rightarrow>
                 if \<not> validProviderStateReason (rt_State rt) (rt_Reason rt) then
                   Inl (Leaf ''invalid provider state and reason'')
                 else (case requiredTimestamp V (rt_UpdatedAt rt) of
                     Inl err \<Rightarrow> Inl err
                   | Inr updatedAt \<Rightarrow>
                       (case runtimes_to_wire V rts (insert (rt_ProviderID rt) known) of
                          Inl err \<Rightarrow> Inl err
                        | Inr output \<Rightarrow>
                            Inr (\<lparr>rw_ProviderId = rt_ProviderID rt, rw_State = state, rw_Reason = reason,
                                  rw_UpdatedAt = updatedAt\<rparr> # output))))))"

definition providersToWire :: "(time \<Rightarrow> bool) \<Rightarrow> provider_Snapshot \<Rightarrow> goerror + ProviderRuntime list" where
  "providersToWire V snapshot =
     map_sum (\<lambda>e. e) (sort_key rw_ProviderId) (runtimes_to_wire V (prs_Providers snapshot) {})"

section \<open>What the mapper accepts\<close>

lemma permission_wire: "permissionFromWire n = Inr p \<longleftrightarrow> permissionToWire p = Inr n"
  by (cases p) (auto simp: permissionFromWire_def permissionToWire_def permission_numbers_def split: option.splits if_splits)

lemma permissionFromWire_known: "permissionFromWire n = Inr p \<Longrightarrow> p \<in> set permissionOrder"
  by (auto simp: permissionFromWire_def permission_numbers_def permissionOrder_def split: option.splits if_splits)

lemma avatarToWire_Inr:
  assumes "\<And>m. upd_Mode u \<noteq> OtherMode m" "upd_Speaking u \<Longrightarrow> upd_Mode u = ModeSpeaking"
    and "upd_OccurredAt u \<noteq> 0" "V (upd_OccurredAt u)"
  shows "\<exists>w. avatarToWire V u = Inr w \<and> aw_Text w = upd_Text u \<and> aw_Speaking w = upd_Speaking u \<and>
    aw_ActionId w = upd_ActionID u \<and> aw_OccurredAt w = upd_OccurredAt u"
  using assms by (cases "upd_Mode u") (auto simp: avatarToWire_def requiredTimestamp_def)

text \<open>A canonical snapshot is complete, without duplicates, and in the order of the protocol.\<close>

definition grant_message :: "Grant \<Rightarrow> PermissionGrant" where
  "grant_message g =
     \<lparr>gw_Permission = the (map_of permission_numbers (gr_Permission g)), gw_Enabled = gr_Enabled g,
      gw_UpdatedAt = (if gr_UpdatedAt g = 0 then None else Some (gr_UpdatedAt g))\<rparr>"

lemma grants_to_wire_Inr:
  assumes "distinct (map gr_Permission gs)" "gr_Permission ` set gs \<subseteq> set permissionOrder"
    "gr_Permission ` set gs \<inter> known = {}"
    and "\<forall>g \<in> set gs. (gr_Enabled g \<longrightarrow> gr_UpdatedAt g \<noteq> 0) \<and> (gr_UpdatedAt g \<noteq> 0 \<longrightarrow> V (gr_UpdatedAt g))"
  shows "grants_to_wire V gs known = Inr (map grant_message gs, known \<union> gr_Permission ` set gs)"
  using assms
proof (induction gs arbitrary: known)
  case (Cons g gs)
  have "permissionToWire (gr_Permission g) = Inr (the (map_of permission_numbers (gr_Permission g)))"
    using Cons.prems(2) by (auto simp: permissionToWire_def permission_numbers_def permissionOrder_def)
  moreover have "optionalTimestamp V (gr_UpdatedAt g) = Inr (if gr_UpdatedAt g = 0 then None else Some (gr_UpdatedAt g))"
    using Cons.prems(4) by (simp add: optionalTimestamp_def requiredTimestamp_def)
  moreover have "grants_to_wire V gs (insert (gr_Permission g) known) =
      Inr (map grant_message gs, insert (gr_Permission g) known \<union> gr_Permission ` set gs)"
    by (rule Cons.IH) (use Cons.prems in auto)
  ultimately show ?case
    using Cons.prems by (auto simp: grant_message_def)
qed simp

lemma permission_numbers_sorted: "sorted (map (\<lambda>p. the (map_of permission_numbers p)) permissionOrder)"
  by (simp add: permission_numbers_def permissionOrder_def)

lemma permissionsToWire_Inr:
  assumes "canonical snap" "ps_Revision snap = 0 \<Longrightarrow> \<forall>g \<in> set (ps_Grants snap). gr_UpdatedAt g = 0"
    and "\<forall>g \<in> set (ps_Grants snap). gr_UpdatedAt g \<noteq> 0 \<longrightarrow> V (gr_UpdatedAt g)"
  shows "permissionsToWire V snap = Inr (map grant_message (ps_Grants snap))"
proof -
  let ?gs = "ps_Grants snap"
  have order: "map gr_Permission ?gs = permissionOrder" and time: "\<forall>g \<in> set ?gs. gr_Enabled g \<longrightarrow> gr_UpdatedAt g \<noteq> 0"
    using assms(1) by (auto simp: canonical_def list_all_iff)
  then have set: "gr_Permission ` set ?gs = set permissionOrder" and dist: "distinct (map gr_Permission ?gs)"
    by (metis set_map, metis distinct_permissionOrder)
  have wire: "grants_to_wire V ?gs {} = Inr (map grant_message ?gs, set permissionOrder)"
    using grants_to_wire_Inr [OF dist, of "{}" V] set time assms(3) by simp
  have "map gw_Permission (map grant_message ?gs) = map (\<lambda>p. the (map_of permission_numbers p)) permissionOrder"
    unfolding order [symmetric] by (simp add: grant_message_def)
  then have sorted: "sort_key gw_Permission (map grant_message ?gs) = map grant_message ?gs"
    using permission_numbers_sorted by (simp add: sort_key_id_if_sorted)
  have "card (set permissionOrder) = length AllPermissions"
    by (simp add: AllPermissions_def distinct_card [OF distinct_permissionOrder])
  moreover have "\<not> (ps_Revision snap = 0 \<and> list_ex (\<lambda>g. gr_Enabled g \<or> gr_UpdatedAt g \<noteq> 0) ?gs)"
    using assms(2) time by (auto simp: list_ex_iff)
  ultimately show ?thesis
    using wire sorted by (simp add: permissionsToWire_def)
qed

text \<open>A list of runtimes with proper identifiers and states is accepted.\<close>

definition runtime_valid :: "(time \<Rightarrow> bool) \<Rightarrow> Runtime \<Rightarrow> bool" where
  "runtime_valid V rt =
     (rt_ProviderID rt \<noteq> [] \<and> TrimSpace (rt_ProviderID rt) = rt_ProviderID rt \<and>
      validProviderStateReason (rt_State rt) (rt_Reason rt) \<and> rt_UpdatedAt rt \<noteq> 0 \<and> V (rt_UpdatedAt rt))"

lemma valid_pair_wire:
  "validProviderStateReason st re \<Longrightarrow> \<exists>m n. providerStateToWire st = Inr m \<and> providerReasonToWire re = Inr n"
  by (cases st) auto

lemma runtimes_to_wire_Inr:
  assumes "\<forall>rt \<in> set rts. runtime_valid V rt" "distinct (map rt_ProviderID rts)" "rt_ProviderID ` set rts \<inter> known = {}"
  shows "\<exists>ws. runtimes_to_wire V rts known = Inr ws \<and> map rw_ProviderId ws = map rt_ProviderID rts \<and>
    map (\<lambda>w. Inr (rw_State w)) ws = map (\<lambda>rt. providerStateToWire (rt_State rt)) rts"
  using assms
proof (induction rts arbitrary: known)
  case (Cons rt rts)
  from Cons.prems(1) have rt: "runtime_valid V rt"
    by simp
  then obtain m n where "providerStateToWire (rt_State rt) = Inr m" "providerReasonToWire (rt_Reason rt) = Inr n"
    using valid_pair_wire [of "rt_State rt" "rt_Reason rt"] by (auto simp: runtime_valid_def)
  moreover from Cons.IH [of "insert (rt_ProviderID rt) known"] Cons.prems obtain ws where
    "runtimes_to_wire V rts (insert (rt_ProviderID rt) known) = Inr ws" "map rw_ProviderId ws = map rt_ProviderID rts"
    "map (\<lambda>w. Inr (rw_State w)) ws = map (\<lambda>rt. providerStateToWire (rt_State rt)) rts"
    by auto
  ultimately show ?case
    using rt Cons.prems(3) by (auto simp: runtime_valid_def requiredTimestamp_def)
qed simp

lemma providersToWire_Inr:
  assumes "\<forall>rt \<in> set (prs_Providers snap). runtime_valid V rt" "distinct (map rt_ProviderID (prs_Providers snap))"
  shows "\<exists>ws. providersToWire V snap = Inr ws \<and> sorted (map rw_ProviderId ws) \<and>
    set (map rw_ProviderId ws) = set (map rt_ProviderID (prs_Providers snap))"
proof -
  obtain ws where "runtimes_to_wire V (prs_Providers snap) {} = Inr ws"
    and ids: "map rw_ProviderId ws = map rt_ProviderID (prs_Providers snap)"
    using runtimes_to_wire_Inr [OF assms, of "{}"] by auto
  then have "providersToWire V snap = Inr (sort_key rw_ProviderId ws)"
    by (simp add: providersToWire_def)
  moreover have "set (map rw_ProviderId (sort_key rw_ProviderId ws)) = set (map rt_ProviderID (prs_Providers snap))"
    using arg_cong [OF ids, of set] by simp
  ultimately show ?thesis
    by simp
qed

end
