(* ===== verification/Presenter.thy ===== *)
theory Presenter
  imports Desktop_Mapper
begin

text \<open>
  The presenter of the desktop panel (\<^verbatim>\<open>web/desktop/presenter/presenter.go\<close>): one message of the
  desktop service, validated and turned into what the panel shows. In a message every reference may
  be nil. The labels are the UTF-8 bytes of the source's Chinese texts.
\<close>

section \<open>Messages as received\<close>

record wire_state =
  ws_Revision :: "64 word"
  ws_Avatar :: "AvatarSnapshot option"
  ws_Permissions :: "PermissionGrant option list"
  ws_Providers :: "ProviderRuntime option list"

definition transported :: "DesktopState \<Rightarrow> wire_state" where
  "transported state =
     \<lparr>ws_Revision = ds_Revision state, ws_Avatar = Some (ds_Avatar state),
      ws_Permissions = map Some (ds_Permissions state), ws_Providers = map Some (ds_Providers state)\<rparr>"

section \<open>Views\<close>

record view_Avatar =
  va_Mode :: string
  va_CSSClass :: string
  va_Text :: string
  va_Speaking :: bool

record view_Permission =
  vp_ID :: string
  vp_Label :: string
  vp_Wire :: int
  vp_Enabled :: bool

record view_Provider =
  vr_ID :: string
  vr_State :: string
  vr_Reason :: string

record View =
  vw_Revision :: "64 word"
  vw_Avatar :: view_Avatar
  vw_Permissions :: "view_Permission list"
  vw_Providers :: "view_Provider list"
  vw_CameraEnabled :: bool
  vw_MicrophoneEnabled :: bool
  vw_BiometricsEnabled :: bool

section \<open>Mapping\<close>

definition avatar_modes :: "(int \<times> string \<times> string) list" where
  "avatar_modes =
     [(1, char_bytes [231, 169, 186, 233, 151, 178], ''idle''),
      (2, char_bytes [230, 173, 163, 229, 156, 168, 229, 133, 179, 230, 179, 168], ''attending''),
      (3, char_bytes [230, 173, 163, 229, 156, 168, 229, 155, 158, 229, 186, 148], ''acknowledging''),
      (4, char_bytes [230, 173, 163, 229, 156, 168, 232, 161, 168, 232, 190, 190], ''expressing''),
      (5, char_bytes [230, 173, 163, 229, 156, 168, 232, 175, 180, 232, 175, 157], ''speaking'')]"

definition mapAvatar :: "AvatarSnapshot \<Rightarrow> goerror + view_Avatar" where
  "mapAvatar input =
     (case map_of avatar_modes (aw_Mode input) of
        None \<Rightarrow> Inl (Leaf ''unknown avatar mode %d'')
      | Some (mode, class) \<Rightarrow>
          if aw_Speaking input \<and> aw_Mode input \<noteq> 5 then Inl (Leaf ''speaking flag requires SPEAKING mode'')
          else Inr \<lparr>va_Mode = mode, va_CSSClass = class, va_Text = aw_Text input, va_Speaking = aw_Speaking input\<rparr>)"

definition view_permissionOrder :: "int list" where
  "view_permissionOrder = [1, 2, 3, 4, 5, 6, 7, 8]"

definition permissionDefinitions :: "(int \<times> view_Permission) list" where
  "permissionDefinitions =
     (let def = (\<lambda>wire i label. (wire, \<lparr>vp_ID = i, vp_Label = label, vp_Wire = wire, vp_Enabled = False\<rparr>)) in
      [def 1 ''camera-capture'' (char_bytes [230, 145, 132, 229, 131, 143, 229, 164, 180, 233, 135, 135, 233, 155, 134]),
       def 2 ''microphone-capture'' (char_bytes [233, 186, 166, 229, 133, 139, 233, 163, 142, 233, 135, 135, 233, 155, 134]),
       def 3 ''face-detection'' (char_bytes [228, 186, 186, 232, 132, 184, 230, 163, 128, 230, 181, 139]),
       def 4 ''face-identification'' (char_bytes [228, 186, 186, 232, 132, 184, 232, 175, 134, 229, 136, 171]),
       def 5 ''face-liveness'' (char_bytes [228, 186, 186, 232, 132, 184, 230, 180, 187, 228, 189, 147]),
       def 6 ''speaker-identification'' (char_bytes [229, 163, 176, 231, 186, 185, 232, 175, 134, 229, 136, 171]),
       def 7 ''speaker-verification'' (char_bytes [229, 163, 176, 231, 186, 185, 233, 170, 140, 232, 175, 129]),
       def 8 ''speech-transcription'' (char_bytes [232, 175, 173, 233, 159, 179, 232, 189, 172, 229, 134, 153])])"

text \<open>The flags collected by the loop over the grants.\<close>

fun flags_by_wire :: "PermissionGrant option list \<Rightarrow> (int \<rightharpoonup> bool) \<Rightarrow> goerror + (int \<rightharpoonup> bool)" where
  "flags_by_wire [] byWire = Inr byWire"
| "flags_by_wire (None # grants) byWire = Inl (Leaf ''permission grant is required'')"
| "flags_by_wire (Some grant # grants) byWire =
     (if map_of permissionDefinitions (gw_Permission grant) = None then Inl (Leaf ''unknown permission %d'')
      else if byWire (gw_Permission grant) \<noteq> None then Inl (Leaf ''duplicate permission %d'')
      else flags_by_wire grants (byWire(gw_Permission grant \<mapsto> gw_Enabled grant)))"

text \<open>Reading a Go map at a missing key gives the zero value.\<close>

definition mapPermissions :: "PermissionGrant option list \<Rightarrow> goerror + view_Permission list" where
  "mapPermissions input =
     (if length input \<noteq> length permissionDefinitions then Inl (Leaf ''permission snapshot is incomplete'')
      else (case flags_by_wire input Map.empty of
          Inl err \<Rightarrow> Inl err
        | Inr byWire \<Rightarrow>
            Inr (map (\<lambda>wire. (the (map_of permissionDefinitions wire))
                        \<lparr>vp_Enabled := (case byWire wire of Some b \<Rightarrow> b | None \<Rightarrow> False)\<rparr>) view_permissionOrder)))"

definition provider_states :: "(int \<times> string) list" where
  "provider_states =
     [(1, char_bytes [229, 183, 178, 229, 133, 179, 233, 151, 173]), (2, char_bytes [229, 144, 175, 229, 138, 168, 228, 184, 173]),
      (3, char_bytes [232, 191, 144, 232, 161, 140, 228, 184, 173]), (4, char_bytes [229, 183, 178, 233, 153, 141, 231, 186, 167]),
      (5, char_bytes [229, 129, 156, 230, 173, 162, 228, 184, 173])]"

definition provider_reasons :: "(int \<times> string) list" where
  "provider_reasons =
     [(1, char_bytes [230, 173, 163, 229, 184, 184]),
      (2, char_bytes [231, 148, 168, 230, 136, 183, 229, 183, 178, 229, 133, 179, 233, 151, 173]),
      (3, char_bytes [230, 157, 131, 233, 153, 144, 232, 162, 171, 230, 139, 146, 231, 187, 157]),
      (4, char_bytes [232, 174, 190, 229, 164, 135, 228, 184, 141, 229, 143, 175, 231, 148, 168]),
      (5, char_bytes [228, 190, 157, 232, 181, 150, 228, 184, 141, 229, 143, 175, 231, 148, 168]),
      (6, char_bytes [230, 168, 161, 229, 158, 139, 228, 184, 141, 229, 143, 175, 231, 148, 168]),
      (7, char_bytes [229, 134, 133, 233, 131, 168, 233, 148, 153, 232, 175, 175]),
      (8, char_bytes [230, 173, 163, 229, 156, 168, 229, 133, 179, 233, 151, 173])]"

definition providerState :: "int \<Rightarrow> goerror + string" where
  "providerState n = (case map_of provider_states n of Some s \<Rightarrow> Inr s | None \<Rightarrow> Inl (Leaf ''unknown provider state %d''))"

definition providerReason :: "int \<Rightarrow> goerror + string" where
  "providerReason n = (case map_of provider_reasons n of Some s \<Rightarrow> Inr s | None \<Rightarrow> Inl (Leaf ''unknown provider reason %d''))"

fun providers_view :: "ProviderRuntime option list \<Rightarrow> string set \<Rightarrow> goerror + view_Provider list" where
  "providers_view [] known = Inr []"
| "providers_view (None # rest) known = Inl (Leaf ''provider id is required'')"
| "providers_view (Some p # rest) known =
     (if rw_ProviderId p = [] then Inl (Leaf ''provider id is required'')
      else if rw_ProviderId p \<in> known then Inl (Leaf ''duplicate provider %q'')
      else (case providerState (rw_State p) of
          Inl err \<Rightarrow> Inl err
        | Inr state \<Rightarrow>
            (case providerReason (rw_Reason p) of
               Inl err \<Rightarrow> Inl err
             | Inr reason \<Rightarrow>
                 (case providers_view rest (insert (rw_ProviderId p) known) of
                    Inl err \<Rightarrow> Inl err
                  | Inr output \<Rightarrow>
                      Inr (\<lparr>vr_ID = rw_ProviderId p, vr_State = state, vr_Reason = reason\<rparr> # output)))))"

definition mapProviders :: "ProviderRuntime option list \<Rightarrow> goerror + view_Provider list" where
  "mapProviders input = map_sum (\<lambda>e. e) (sort_key vr_ID) (providers_view input {})"

text \<open>The switch over the permissions of the view.\<close>

definition collect_flag :: "view_Permission \<Rightarrow> View \<Rightarrow> View" where
  "collect_flag p view =
     (if vp_Wire p = 1 then view\<lparr>vw_CameraEnabled := vp_Enabled p\<rparr>
      else if vp_Wire p = 2 then view\<lparr>vw_MicrophoneEnabled := vp_Enabled p\<rparr>
      else if vp_Wire p \<in> {3, 4, 5, 6, 7} then
        view\<lparr>vw_BiometricsEnabled := vw_BiometricsEnabled view \<or> vp_Enabled p\<rparr>
      else view)"

definition view_Build :: "wire_state option \<Rightarrow> goerror + View" where
  "view_Build input =
     (let required = Inl (Leaf ''desktop state, positive revision, and avatar are required'') in
      case input of
        None \<Rightarrow> required
      | Some state \<Rightarrow>
          if ws_Revision state = 0 then required
          else (case ws_Avatar state of
              None \<Rightarrow> required
            | Some snapshot \<Rightarrow>
                (case mapAvatar snapshot of
                   Inl err \<Rightarrow> Inl err
                 | Inr avatar \<Rightarrow>
                     (case mapPermissions (ws_Permissions state) of
                        Inl err \<Rightarrow> Inl err
                      | Inr permissions \<Rightarrow>
                          (case mapProviders (ws_Providers state) of
                             Inl err \<Rightarrow> Inl err
                           | Inr providers \<Rightarrow>
                               Inr (fold collect_flag permissions
                                 \<lparr>vw_Revision = ws_Revision state, vw_Avatar = avatar, vw_Permissions = permissions,
                                  vw_Providers = providers, vw_CameraEnabled = False, vw_MicrophoneEnabled = False,
                                  vw_BiometricsEnabled = False\<rparr>))))))"

end
