(* ===== verification/Desktop_Authorizer.thy ===== *)
theory Desktop_Authorizer
  imports Rpc_Status
begin

text \<open>
  The transport policy of the desktop control service (\<^verbatim>\<open>adapters/ui/desktop/authorizer.go\<close>): a bearer
  token, one exact origin, and a loopback peer. Byte slices are strings. What the gRPC package reads from a
  context is the record \<open>call_info\<close>; \<^verbatim>\<open>url.ParseRequestURI\<close> and \<^verbatim>\<open>net.ParseIP\<close> are the parameters
  \<open>parseURI\<close> and \<open>parseIP\<close>, of which only the fields of \<open>parsed_uri\<close> are looked at.
\<close>

section \<open>Base64\<close>

text \<open>
  \<^verbatim>\<open>base64.RawURLEncoding\<close> and its strict decoder: the alphabet of URLs, no padding, line ends
  skipped, unused bits zero.
\<close>

definition url_alphabet :: string where
  "url_alphabet = ''ABCDEFGHIJKLMNOPQRSTUVWXYZabcdefghijklmnopqrstuvwxyz0123456789-_''"

definition sextet :: "nat \<Rightarrow> char" where
  "sextet n = url_alphabet ! n"

fun position :: "char \<Rightarrow> string \<Rightarrow> nat option" where
  "position c [] = None"
| "position c (x # xs) = (if x = c then Some 0 else map_option Suc (position c xs))"

definition sextet_value :: "char \<Rightarrow> nat option" where
  "sextet_value c = position c url_alphabet"

abbreviation byte :: "char \<Rightarrow> nat" where
  "byte c \<equiv> of_char c"

fun base64_encode :: "string \<Rightarrow> string" where
  "base64_encode [] = []"
| "base64_encode [a] = [sextet (byte a div 4), sextet (byte a mod 4 * 16)]"
| "base64_encode [a, b] =
     [sextet (byte a div 4), sextet (byte a mod 4 * 16 + byte b div 16), sextet (byte b mod 16 * 4)]"
| "base64_encode (a # b # c # rest) =
     [sextet (byte a div 4), sextet (byte a mod 4 * 16 + byte b div 16),
      sextet (byte b mod 16 * 4 + byte c div 64), sextet (byte c mod 64)] @ base64_encode rest"

fun sextets_decode :: "nat list \<Rightarrow> string option" where
  "sextets_decode [] = Some []"
| "sextets_decode [p] = None"
| "sextets_decode [p, q] = (if q mod 16 \<noteq> 0 then None else Some [char_of (p * 4 + q div 16)])"
| "sextets_decode [p, q, r] =
     (if r mod 4 \<noteq> 0 then None else Some [char_of (p * 4 + q div 16), char_of (q mod 16 * 16 + r div 4)])"
| "sextets_decode (p # q # r # s # rest) =
     map_option (\<lambda>bs. char_of (p * 4 + q div 16) # char_of (q mod 16 * 16 + r div 4) # char_of (r mod 4 * 64 + s) # bs)
       (sextets_decode rest)"

fun sextet_values :: "string \<Rightarrow> nat list option" where
  "sextet_values [] = Some []"
| "sextet_values (c # cs) =
     (if c \<in> {CHR 0x0A, CHR 0x0D} then sextet_values cs
      else (case sextet_value c of
          None \<Rightarrow> None
        | Some v \<Rightarrow> map_option (\<lambda>vs. v # vs) (sextet_values cs)))"

definition base64_decode :: "string \<Rightarrow> string option" where
  "base64_decode s = Option.bind (sextet_values s) sextets_decode"

section \<open>The authorizer\<close>

definition tokenBytes :: nat where
  "tokenBytes = 32"

record LoopbackAuthorizer =
  lba_token :: string
  lba_origin :: string
  lba_wantBearerLen :: nat

record parsed_uri =
  uri_Scheme :: string
  uri_Host :: string
  uri_Port :: string
  uri_Hostname :: string
  uri_User :: bool
  uri_Path :: string
  uri_RawQuery :: string
  uri_Fragment :: string
  uri_RawFragment :: string

text \<open>\<^verbatim>\<open>net.IP\<close> is a slice of bytes; \<^verbatim>\<open>IsLoopback\<close> on its four-byte form, or on its sixteen bytes.\<close>

type_synonym ip = "nat list"

definition To4 :: "ip \<Rightarrow> ip option" where
  "To4 a =
     (if length a = 4 then Some a
      else if length a = 16 \<and> take 12 a = replicate 10 0 @ [255, 255] then Some (drop 12 a)
      else None)"

definition IsLoopback :: "ip \<Rightarrow> bool" where
  "IsLoopback a = (case To4 a of Some b \<Rightarrow> b ! 0 = 127 | None \<Rightarrow> a = replicate 15 0 @ [1])"

definition NewLoopbackAuthorizer ::
    "(string \<Rightarrow> parsed_uri option) \<Rightarrow> (string \<Rightarrow> ip option) \<Rightarrow> string \<Rightarrow> string \<Rightarrow> goerror + LoopbackAuthorizer" where
  "NewLoopbackAuthorizer parseURI parseIP token origin =
     (let invalid = (\<lambda>msg. Inl (New_fault InvalidInput ''create desktop loopback authorizer'' (Leaf msg)))
      in case base64_decode token of
          None \<Rightarrow> invalid ''token must contain at least 32 base64url bytes''
        | Some decoded \<Rightarrow>
            if length decoded < tokenBytes then invalid ''token must contain at least 32 base64url bytes''
            else (case parseURI origin of
                None \<Rightarrow> invalid ''origin must be an HTTP loopback IP with an explicit port''
              | Some parsed \<Rightarrow>
                  if uri_Scheme parsed \<noteq> ''http'' \<or> uri_Host parsed = [] \<or> uri_Port parsed = [] \<or> uri_User parsed \<or>
                     uri_Path parsed \<noteq> [] \<or> uri_RawQuery parsed \<noteq> [] \<or> uri_Fragment parsed \<noteq> [] \<or>
                     uri_RawFragment parsed \<noteq> [] then
                    invalid ''origin must be an HTTP loopback IP with an explicit port''
                  else (case parseIP (uri_Hostname parsed) of
                      None \<Rightarrow> invalid ''origin host must be a loopback IP''
                    | Some a \<Rightarrow>
                        if \<not> IsLoopback a then invalid ''origin host must be a loopback IP''
                        else Inr \<lparr>lba_token = token, lba_origin = origin,
                                  lba_wantBearerLen = length ''Bearer '' + length token\<rparr>)))"

text \<open>
  A context: nil, or what it carries. The address of the peer is a TCP address, with an \<^verbatim>\<open>IP\<close> that may be
  nil (the empty slice), or something else; the metadata maps lower-case keys to values.
\<close>

datatype peer_address = TCPAddr ip | OtherAddr

record call_info =
  cc_err :: "goerror option"
  cc_peer :: "peer_address option"
  cc_metadata :: "(string \<rightharpoonup> string list) option"

datatype desktop_ctx = NilCtx | Ctx call_info

definition metadata_Get :: "(string \<rightharpoonup> string list) \<Rightarrow> string \<Rightarrow> string list" where
  "metadata_Get md k = (case md k of None \<Rightarrow> [] | Some vs \<Rightarrow> vs)"

fun ConstantTimeCompare_from :: "string \<Rightarrow> string \<Rightarrow> nat \<Rightarrow> nat" where
  "ConstantTimeCompare_from (x # xs) (y # ys) v =
     ConstantTimeCompare_from xs ys (or v (xor (byte x) (byte y)))"
| "ConstantTimeCompare_from _ _ v = v"

definition ConstantTimeCompare :: "string \<Rightarrow> string \<Rightarrow> nat" where
  "ConstantTimeCompare xs ys =
     (if length xs \<noteq> length ys then 0 else if ConstantTimeCompare_from xs ys 0 = 0 then 1 else 0)"

definition matchesBearer :: "LoopbackAuthorizer \<Rightarrow> string \<Rightarrow> bool" where
  "matchesBearer a provided =
     (let expected = ''Bearer '' @ lba_token a
      in if length provided \<noteq> length expected then False else ConstantTimeCompare provided expected = 1)"

definition loopback_Authorize :: "LoopbackAuthorizer \<Rightarrow> desktop_ctx \<Rightarrow> rpc_error option" where
  "loopback_Authorize a ctx =
     (let notLoopback = Some (RpcError Code_PermissionDenied ''desktop peer is not loopback TCP'') in
      case ctx of
        NilCtx \<Rightarrow> notLoopback
      | Ctx info \<Rightarrow>
          (case cc_peer info of
             None \<Rightarrow> notLoopback
           | Some OtherAddr \<Rightarrow> notLoopback
           | Some (TCPAddr address) \<Rightarrow>
               if address = [] \<or> \<not> IsLoopback address then notLoopback
               else (case cc_metadata info of
                   None \<Rightarrow> Some (RpcError Code_Unauthenticated ''desktop bearer token is required'')
                 | Some incoming \<Rightarrow>
                     let origins = metadata_Get incoming ''origin'';
                         authorizations = metadata_Get incoming ''authorization''
                     in if length origins \<noteq> 1 \<or> origins ! 0 \<noteq> lba_origin a then
                          Some (RpcError Code_PermissionDenied ''desktop request origin is not allowed'')
                        else if length authorizations \<noteq> 1 \<or> \<not> matchesBearer a (authorizations ! 0) then
                          Some (RpcError Code_Unauthenticated ''desktop bearer token is invalid'')
                        else None)))"

text \<open>\<^verbatim>\<open>io.ReadFull\<close> gives its error, or the bytes asked for.\<close>

definition GenerateToken :: "(nat \<Rightarrow> goerror + string) option \<Rightarrow> goerror + string" where
  "GenerateToken random =
     (case random of
        None \<Rightarrow> Inl (New_fault InvalidInput ''generate desktop bearer token'' (Leaf ''random reader is required''))
      | Some read \<Rightarrow>
          (case read tokenBytes of
             Inl err \<Rightarrow> Inl (Wrapf ''generate desktop bearer token'' err)
           | Inr bytes \<Rightarrow> Inr (base64_encode bytes)))"

section \<open>Base64 round trip\<close>

lemma position_nth: "distinct xs \<Longrightarrow> n < length xs \<Longrightarrow> position (xs ! n) xs = Some n"
proof (induction xs arbitrary: n)
  case (Cons x xs)
  then show ?case by (cases n) auto
qed simp

lemma url_alphabet_facts: "distinct url_alphabet" "length url_alphabet = 64" "CHR 0x0A \<notin> set url_alphabet"
  "CHR 0x0D \<notin> set url_alphabet"
  by (simp_all add: url_alphabet_def)

lemma sextet_value_sextet [simp]: "n < 64 \<Longrightarrow> sextet_value (sextet n) = Some n"
  by (simp add: sextet_value_def sextet_def position_nth url_alphabet_facts)

lemma sextet_no_line_end [simp]: "n < 64 \<Longrightarrow> sextet n \<noteq> CHR 0x0A" "n < 64 \<Longrightarrow> sextet n \<noteq> CHR 0x0D"
  unfolding sextet_def using url_alphabet_facts by (metis nth_mem)+

lemma sextet_values_sextet [simp]:
  "n < 64 \<Longrightarrow> sextet_values (sextet n # cs) = map_option (\<lambda>vs. n # vs) (sextet_values cs)"
  by simp

lemma byte_bounds [simp]: "byte c div 4 < 64" "byte c mod 4 * 16 < 64" "byte c mod 16 * 4 < 64"
  "byte c mod 4 * 16 + byte d div 16 < 64" "byte c mod 16 * 4 + byte d div 64 < 64"
proof -
  have b: "byte x < 256" for x
    by simp
  show "byte c div 4 < 64" "byte c mod 4 * 16 < 64" "byte c mod 16 * 4 < 64"
    "byte c mod 4 * 16 + byte d div 16 < 64" "byte c mod 16 * 4 + byte d div 64 < 64"
    using b [of c] b [of d] by linarith+
qed

lemma char_of_byte: "n = byte c \<Longrightarrow> char_of n = c"
  by simp

text \<open>The three bytes of a group from its four sextets.\<close>

lemma group_bytes:
  assumes "b < (256::nat)" "c < 256"
  shows "a div 4 * 4 + a mod 4 * 16 div 16 = a"
    "a div 4 * 4 + (a mod 4 * 16 + b div 16) div 16 = a"
    "(a mod 4 * 16 + b div 16) mod 16 * 16 + b mod 16 * 4 div 4 = b"
    "(a mod 4 * 16 + b div 16) mod 16 * 16 + (b mod 16 * 4 + c div 64) div 4 = b"
    "(b mod 16 * 4 + c div 64) mod 4 * 64 + c mod 64 = c"
proof -
  have "(a mod 4 * 16 + b div 16) div 16 = a mod 4" "(a mod 4 * 16 + b div 16) mod 16 = b div 16"
    using assms by (simp_all add: div_mult_self3 less_mult_imp_div_less)
  moreover have "(b mod 16 * 4 + c div 64) div 4 = b mod 16" "(b mod 16 * 4 + c div 64) mod 4 = c div 64"
    using assms by (simp_all add: less_mult_imp_div_less)
  ultimately show "a div 4 * 4 + a mod 4 * 16 div 16 = a"
    "a div 4 * 4 + (a mod 4 * 16 + b div 16) div 16 = a"
    "(a mod 4 * 16 + b div 16) mod 16 * 16 + b mod 16 * 4 div 4 = b"
    "(a mod 4 * 16 + b div 16) mod 16 * 16 + (b mod 16 * 4 + c div 64) div 4 = b"
    "(b mod 16 * 4 + c div 64) mod 4 * 64 + c mod 64 = c"
    by simp_all
qed

lemma group_chars:
  "char_of (byte a div 4 * 4 + byte a mod 4 * 16 div 16) = a"
  "char_of (byte a div 4 * 4 + (byte a mod 4 * 16 + byte b div 16) div 16) = a"
  "char_of ((byte a mod 4 * 16 + byte b div 16) mod 16 * 16 + byte b mod 16 * 4 div 4) = b"
  "char_of ((byte a mod 4 * 16 + byte b div 16) mod 16 * 16 + (byte b mod 16 * 4 + byte c div 64) div 4) = b"
  "char_of ((byte b mod 16 * 4 + byte c div 64) mod 4 * 64 + byte c mod 64) = c"
  by (rule char_of_byte, rule group_bytes [OF nat_of_char_less_256 nat_of_char_less_256])+

lemma base64_values:
  "\<exists>vs. sextet_values (base64_encode bs) = Some vs \<and> sextets_decode vs = Some bs"
proof (induction bs rule: base64_encode.induct)
  case (2 a)
  have "byte a mod 4 * 16 mod 16 = 0"
    by simp
  then show ?case
    by (simp only: base64_encode.simps sextet_values_sextet byte_bounds sextet_values.simps(1) option.map sextets_decode.simps
        group_chars not_True_eq_False if_False) simp
next
  case (3 a b)
  let ?p = "byte a div 4" and ?q = "byte a mod 4 * 16 + byte b div 16" and ?r = "byte b mod 16 * 4"
  have "sextet_values (base64_encode [a, b]) = Some [?p, ?q, ?r]"
    by (simp only: base64_encode.simps sextet_values_sextet byte_bounds sextet_values.simps(1) option.map)
  moreover have "?r mod 4 = 0"
    by simp
  then have "sextets_decode [?p, ?q, ?r] = Some [char_of (?p * 4 + ?q div 16), char_of (?q mod 16 * 16 + ?r div 4)]"
    by (simp only: sextets_decode.simps simp_thms if_False)
  then have "sextets_decode [?p, ?q, ?r] = Some [a, b]"
    by (simp only: group_chars)
  ultimately show ?case
    by blast
next
  case (4 a b c rest)
  then obtain vs where "sextet_values (base64_encode rest) = Some vs" "sextets_decode vs = Some rest"
    by blast
  let ?p = "byte a div 4" and ?q = "byte a mod 4 * 16 + byte b div 16" and
    ?r = "byte b mod 16 * 4 + byte c div 64" and ?s = "byte c mod 64"
  have "byte c mod 64 < 64"
    by simp
  with \<open>sextet_values (base64_encode rest) = Some vs\<close>
  have "sextet_values (base64_encode (a # b # c # rest)) = Some (?p # ?q # ?r # ?s # vs)"
    by (simp only: base64_encode.simps append.simps sextet_values_sextet byte_bounds option.map)
  moreover have "sextets_decode (?p # ?q # ?r # ?s # vs) =
      Some (char_of (?p * 4 + ?q div 16) # char_of (?q mod 16 * 16 + ?r div 4) # char_of (?r mod 4 * 64 + ?s) # rest)"
    by (simp only: sextets_decode.simps \<open>sextets_decode vs = Some rest\<close> option.map)
  then have "sextets_decode (?p # ?q # ?r # ?s # vs) = Some (a # b # c # rest)"
    by (simp only: group_chars)
  ultimately show ?case
    by blast
qed simp

lemma base64_round_trip: "base64_decode (base64_encode bs) = Some bs"
  using base64_values [of bs] by (auto simp: base64_decode_def)

section \<open>What is authorized\<close>

lemma xor_nat_eq_0: "xor m n = (0::nat) \<longleftrightarrow> m = n"
proof
  assume "xor m n = 0"
  then have "xor (xor m n) n = xor 0 n"
    by simp
  then show "m = n"
    by (simp only: xor.assoc xor_self_eq xor.left_neutral xor.right_neutral)
qed simp

lemma compare_from: "length xs = length ys \<Longrightarrow> ConstantTimeCompare_from xs ys v = 0 \<longleftrightarrow> v = 0 \<and> xs = ys"
  by (induction xs ys v rule: ConstantTimeCompare_from.induct) (auto simp: or_eq_0_iff xor_nat_eq_0)

lemma ConstantTimeCompare_eq: "ConstantTimeCompare xs ys = 1 \<longleftrightarrow> xs = ys"
  by (auto simp: ConstantTimeCompare_def compare_from)

lemma matchesBearer_iff: "matchesBearer a s \<longleftrightarrow> s = ''Bearer '' @ lba_token a"
  unfolding matchesBearer_def Let_def ConstantTimeCompare_eq by auto

definition loopback_peer :: "call_info \<Rightarrow> bool" where
  "loopback_peer info = (\<exists>a. cc_peer info = Some (TCPAddr a) \<and> a \<noteq> [] \<and> IsLoopback a)"

lemma singleton_list: "length xs = 1 \<and> xs ! 0 = x \<longleftrightarrow> xs = [x]"
  by (cases xs) auto

lemma loopback_Authorize_iff:
  "loopback_Authorize a ctx = None \<longleftrightarrow>
     (\<exists>info md. ctx = Ctx info \<and> loopback_peer info \<and> cc_metadata info = Some md \<and>
        metadata_Get md ''origin'' = [lba_origin a] \<and>
        metadata_Get md ''authorization'' = [''Bearer '' @ lba_token a])"
proof (cases ctx)
  case (Ctx info)
  have "length xs = 1 \<and> matchesBearer a (xs ! 0) \<longleftrightarrow> xs = [''Bearer '' @ lba_token a]" for xs
    unfolding matchesBearer_iff by (rule singleton_list)
  moreover note singleton_list [of _ "lba_origin a"]
  ultimately show ?thesis
    unfolding Ctx loopback_Authorize_def loopback_peer_def Let_def
    by (auto split: option.splits peer_address.splits if_splits)
qed (simp add: loopback_Authorize_def)

definition loopback_origin :: "(string \<Rightarrow> parsed_uri option) \<Rightarrow> (string \<Rightarrow> ip option) \<Rightarrow> string \<Rightarrow> bool" where
  "loopback_origin parseURI parseIP origin =
     (case parseURI origin of
        None \<Rightarrow> False
      | Some u \<Rightarrow>
          uri_Scheme u = ''http'' \<and> uri_Host u \<noteq> [] \<and> uri_Port u \<noteq> [] \<and> \<not> uri_User u \<and> uri_Path u = [] \<and>
          uri_RawQuery u = [] \<and> uri_Fragment u = [] \<and> uri_RawFragment u = [] \<and>
          (case parseIP (uri_Hostname u) of None \<Rightarrow> False | Some a \<Rightarrow> IsLoopback a))"

lemma NewLoopbackAuthorizer_Inr:
  "NewLoopbackAuthorizer parseURI parseIP token origin = Inr a \<longleftrightarrow>
     (\<exists>decoded. base64_decode token = Some decoded \<and> 32 \<le> length decoded) \<and> loopback_origin parseURI parseIP origin \<and>
     a = \<lparr>lba_token = token, lba_origin = origin, lba_wantBearerLen = 7 + length token\<rparr>"
  by (auto simp: NewLoopbackAuthorizer_def loopback_origin_def tokenBytes_def Let_def split: option.splits if_splits)

text \<open>The token the desktop generates is accepted by its authorizer and stands for exactly the random
  bytes it was made of (different bytes, different tokens); the authorizer then lets a request through if and
  only if its peer is a loopback TCP address and it has exactly one origin header, the panel's, and exactly
  one authorization header, the bearer token.\<close>

theorem token_authorizes:
  assumes "GenerateToken (Some read) = Inr token"
    and "\<And>n bytes. read n = Inr bytes \<Longrightarrow> length bytes = n"
    and "loopback_origin parseURI parseIP origin"
  shows "\<exists>bytes a. read 32 = Inr bytes \<and> base64_decode token = Some bytes \<and>
      (\<forall>bytes'. base64_encode bytes' = token \<longrightarrow> bytes' = bytes) \<and>
      NewLoopbackAuthorizer parseURI parseIP token origin = Inr a \<and>
      (\<forall>ctx. loopback_Authorize a ctx = None \<longleftrightarrow>
         (\<exists>info md. ctx = Ctx info \<and> loopback_peer info \<and> cc_metadata info = Some md \<and>
            metadata_Get md ''origin'' = [origin] \<and> metadata_Get md ''authorization'' = [''Bearer '' @ token]))"
proof -
  from assms(1) obtain bytes where read: "read 32 = Inr bytes" and token: "token = base64_encode bytes"
    by (auto simp: GenerateToken_def tokenBytes_def split: sum.splits)
  have decoded: "base64_decode token = Some bytes"
    by (simp add: token base64_round_trip)
  moreover have "bytes' = bytes" if "base64_encode bytes' = token" for bytes'
    using decoded base64_round_trip [of bytes'] that by simp
  moreover from decoded assms(2) [OF read] assms(3)
  have "NewLoopbackAuthorizer parseURI parseIP token origin =
      Inr \<lparr>lba_token = token, lba_origin = origin, lba_wantBearerLen = 7 + length token\<rparr>"
    by (simp add: NewLoopbackAuthorizer_Inr)
  ultimately show ?thesis
    using read by (fastforce simp: loopback_Authorize_iff)
qed

definition panel_uri :: "string \<Rightarrow> parsed_uri option" where
  "panel_uri s =
     Some \<lparr>uri_Scheme = ''http'', uri_Host = ''127.0.0.1:8080'', uri_Port = ''8080'', uri_Hostname = ''127.0.0.1'',
           uri_User = False, uri_Path = [], uri_RawQuery = [], uri_Fragment = [], uri_RawFragment = []\<rparr>"

lemma token_authorizes_witness:
  "GenerateToken (Some (\<lambda>n. Inr (replicate n (CHR ''x'')))) = Inr (base64_encode (replicate 32 (CHR ''x''))) \<and>
   base64_decode (base64_encode (replicate 32 (CHR ''x''))) = Some (replicate 32 (CHR ''x''))"
proof -
  have gen: "GenerateToken (Some (\<lambda>n. Inr (replicate n (CHR ''x'')))) = Inr (base64_encode (replicate 32 (CHR ''x'')))"
    by (simp add: GenerateToken_def tokenBytes_def)
  have "loopback_origin panel_uri (\<lambda>s. Some [127, 0, 0, 1]) ''http://127.0.0.1:8080''"
    by (simp add: loopback_origin_def panel_uri_def IsLoopback_def To4_def)
  from token_authorizes [OF gen _ this] gen show ?thesis
    by auto
qed

end
