(* ===== verification/Desktop_Server.thy ===== *)
theory Desktop_Server
  imports Desktop_Mapper Desktop_Authorizer
begin

text \<open>
  The desktop control service (\<^verbatim>\<open>adapters/ui/desktop/server.go\<close>, \<^verbatim>\<open>subscription.go\<close>): one composite
  state of the avatar, the permissions and the workers, its revision, the four calls, and the
  watchers. The sources are ports over an environment \<open>'w\<close>. The parameters \<open>V\<close> (valid protobuf
  timestamps) and \<open>fce\<close> (\<^verbatim>\<open>status.FromContextError\<close>) are the libraries'. A watcher is a record, and an
  iteration of its loop a step.
\<close>

section \<open>Data\<close>

datatype auth_error = StatusErr rpc_error | PlainErr goerror

record 'w desktop_ports =
  dp_Authorize :: "desktop_ctx \<Rightarrow> auth_error option"
  dp_Avatar :: "'w \<Rightarrow> Update \<times> 'w"
  dp_Permissions :: "desktop_ctx \<Rightarrow> 'w \<Rightarrow> (goerror + privacy_Snapshot) \<times> 'w"
  dp_Change :: "desktop_ctx \<Rightarrow> ChangePermission \<Rightarrow> 'w \<Rightarrow> (goerror + privacy_Snapshot) \<times> 'w"
  dp_Providers :: "'w \<Rightarrow> provider_Snapshot \<times> 'w"
  dp_SubmitControl :: "desktop_ctx \<Rightarrow> Command \<Rightarrow> 'w \<Rightarrow> goerror option \<times> 'w"
  dp_Now :: "'w \<Rightarrow> time \<times> 'w"

record Desktop =
  dk_subjectID :: string
  dk_revision :: "64 word"
  dk_hasSourceTuple :: bool
  dk_sourceAvatar :: "64 word"
  dk_sourcePrivacy :: "64 word"
  dk_sourceProvider :: "64 word"
  dk_permissionSubs :: "(64 word \<times> bool) list"
  dk_nextSubID :: "64 word"

text \<open>Requests, as the getters of the generated code read them (a nil request has zero values).\<close>

record SetPermissionRequest =
  spr_ProtocolVersion :: string
  spr_Permission :: int
  spr_Enabled :: bool

record RejectInteractionRequest =
  rir_ProtocolVersion :: string
  rir_RequestId :: string
  rir_SubjectId :: string
  rir_TraceId :: string

definition protocolVersion :: string where
  "protocolVersion = ''v1''"

text \<open>\<^verbatim>\<open>NewServer\<close>: whether every dependency is there.\<close>

definition Desktop_NewServer :: "string \<Rightarrow> bool \<Rightarrow> goerror + Desktop" where
  "Desktop_NewServer subjectID present =
     (let op = ''create desktop control server'' in
      if TrimSpace subjectID = [] \<or> subjectID \<noteq> TrimSpace subjectID then
        Inl (New_fault InvalidInput op (Leaf ''subject id is required''))
      else if \<not> present then
        Inl (New_fault InvalidInput op
          (Leaf ''avatar, permissions, providers, controls, authorizer, and clock are required''))
      else Inr \<lparr>dk_subjectID = subjectID, dk_revision = 0, dk_hasSourceTuple = False, dk_sourceAvatar = 0,
                dk_sourcePrivacy = 0, dk_sourceProvider = 0, dk_permissionSubs = [], dk_nextSubID = 0\<rparr>)"

section \<open>Errors\<close>

definition desktop_authorize :: "'w desktop_ports \<Rightarrow> desktop_ctx \<Rightarrow> rpc_error option" where
  "desktop_authorize P ctx =
     (case ctx of
        NilCtx \<Rightarrow> Some (RpcError Code_InvalidArgument ''context is required'')
      | Ctx info \<Rightarrow>
          (case dp_Authorize P ctx of
             None \<Rightarrow> None
           | Some (StatusErr err) \<Rightarrow> Some err
           | Some (PlainErr err) \<Rightarrow> Some (RpcError Code_Unauthenticated ''desktop transport authorization failed'')))"

definition validateProtocol :: "string \<Rightarrow> rpc_error option" where
  "validateProtocol version =
     (if version = [] then Some (RpcError Code_InvalidArgument ''protocol version is required'')
      else if version \<noteq> protocolVersion then
        Some (RpcError Code_FailedPrecondition ''unsupported desktop protocol version'')
      else None)"

definition grpcFault :: "(goerror \<Rightarrow> rpc_error) \<Rightarrow> goerror \<Rightarrow> rpc_error" where
  "grpcFault fce err =
     (if ErrIs err ContextCanceled \<or> ErrIs err ContextDeadlineExceeded then fce err
      else if IsCode err InvalidInput then RpcError Code_InvalidArgument ''application rejected desktop request''
      else if IsCode err StaleInput then RpcError Code_Aborted ''desktop state revision conflict''
      else if IsCode err PermissionDenied then RpcError Code_PermissionDenied ''desktop operation denied''
      else if IsCode err DeadlineExceeded then
        RpcError Code_DeadlineExceeded ''desktop application deadline exceeded''
      else if IsCode err Unavailable then RpcError Code_Unavailable ''desktop application unavailable''
      else RpcError Code_Internal ''desktop application operation failed'')"

definition streamError :: "(goerror \<Rightarrow> rpc_error) \<Rightarrow> goerror \<Rightarrow> rpc_error" where
  "streamError fce err =
     (if ErrIs err ContextCanceled \<or> ErrIs err ContextDeadlineExceeded then fce err
      else RpcError Code_Unavailable ''desktop state stream unavailable'')"

section \<open>The composite state\<close>

definition compositeRevision :: "64 word \<Rightarrow> 64 word \<Rightarrow> 64 word \<Rightarrow> Desktop \<Rightarrow> 64 word \<times> Desktop" where
  "compositeRevision avatarRevision privacyRevision providerRevision s =
     (let s1 = (if \<not> dk_hasSourceTuple s \<or> dk_sourceAvatar s \<noteq> avatarRevision \<or>
                   dk_sourcePrivacy s \<noteq> privacyRevision \<or> dk_sourceProvider s \<noteq> providerRevision
                then s\<lparr>dk_revision := dk_revision s + 1, dk_hasSourceTuple := True,
                       dk_sourceAvatar := avatarRevision, dk_sourcePrivacy := privacyRevision,
                       dk_sourceProvider := providerRevision\<rparr>
                else s)
      in (dk_revision s1, s1))"

definition currentState ::
    "'w desktop_ports \<Rightarrow> (goerror \<Rightarrow> rpc_error) \<Rightarrow> (time \<Rightarrow> bool) \<Rightarrow> desktop_ctx \<Rightarrow> Update \<Rightarrow>
     privacy_Snapshot option \<Rightarrow> provider_Snapshot \<Rightarrow> Desktop \<times> 'w \<Rightarrow>
     (rpc_error + DesktopState) \<times> Desktop \<times> 'w" where
  "currentState P fce V ctx avatar knownPermissions providers = (\<lambda>(s, w).
     let internal = (\<lambda>msg w'. (Inl (RpcError Code_Internal msg), s, w'))
     in case (case knownPermissions of Some snapshot \<Rightarrow> (Inr snapshot, w) | None \<Rightarrow> dp_Permissions P ctx w) of
          (Inl err, w1) \<Rightarrow> (Inl (grpcFault fce err), s, w1)
        | (Inr permissions, w1) \<Rightarrow>
            (case avatarToWire V avatar of
               Inl err \<Rightarrow> internal ''invalid avatar state source'' w1
             | Inr avatarMessage \<Rightarrow>
                 (case permissionsToWire V permissions of
                    Inl err \<Rightarrow> internal ''invalid permission state source'' w1
                  | Inr permissionMessages \<Rightarrow>
                      (case providersToWire V providers of
                         Inl err \<Rightarrow> internal ''invalid provider state source'' w1
                       | Inr providerMessages \<Rightarrow>
                           let (revision, s1) = compositeRevision (upd_Revision avatar) (ps_Revision permissions)
                                                  (prs_Revision providers) s
                           in (Inr \<lparr>ds_Revision = revision, ds_Avatar = avatarMessage,
                                    ds_Permissions = permissionMessages, ds_Providers = providerMessages\<rparr>, s1, w1)))))"

section \<open>The calls\<close>

definition GetState ::
    "'w desktop_ports \<Rightarrow> (goerror \<Rightarrow> rpc_error) \<Rightarrow> (time \<Rightarrow> bool) \<Rightarrow> desktop_ctx \<Rightarrow> string \<Rightarrow> Desktop \<times> 'w \<Rightarrow>
     (rpc_error + DesktopState) \<times> Desktop \<times> 'w" where
  "GetState P fce V ctx version = (\<lambda>(s, w).
     case desktop_authorize P ctx of
       Some err \<Rightarrow> (Inl err, s, w)
     | None \<Rightarrow>
         (case validateProtocol version of
            Some err \<Rightarrow> (Inl err, s, w)
          | None \<Rightarrow>
              let (avatar, w1) = dp_Avatar P w;
                  (providers, w2) = dp_Providers P w1
              in currentState P fce V ctx avatar None providers (s, w2)))"

text \<open>Permission subscriptions: a channel of capacity one holds a token or is empty.\<close>

definition subscribePermissions :: "Desktop \<Rightarrow> 64 word \<times> Desktop" where
  "subscribePermissions s =
     (let i = dk_nextSubID s
      in (i, s\<lparr>dk_permissionSubs := AList.update i False (dk_permissionSubs s), dk_nextSubID := i + 1\<rparr>))"

definition cancel_permissions :: "64 word \<Rightarrow> Desktop \<Rightarrow> Desktop" where
  "cancel_permissions i s = s\<lparr>dk_permissionSubs := AList.delete i (dk_permissionSubs s)\<rparr>"

definition notifyPermissionSubscribers :: "Desktop \<Rightarrow> Desktop" where
  "notifyPermissionSubscribers s = s\<lparr>dk_permissionSubs := map (\<lambda>(i, token). (i, True)) (dk_permissionSubs s)\<rparr>"

definition SetPermission ::
    "'w desktop_ports \<Rightarrow> (goerror \<Rightarrow> rpc_error) \<Rightarrow> (time \<Rightarrow> bool) \<Rightarrow> desktop_ctx \<Rightarrow> SetPermissionRequest \<Rightarrow>
     Desktop \<times> 'w \<Rightarrow> (rpc_error + DesktopState) \<times> Desktop \<times> 'w" where
  "SetPermission P fce V ctx request = (\<lambda>(s, w).
     case desktop_authorize P ctx of
       Some err \<Rightarrow> (Inl err, s, w)
     | None \<Rightarrow>
         (case validateProtocol (spr_ProtocolVersion request) of
            Some err \<Rightarrow> (Inl err, s, w)
          | None \<Rightarrow>
              (case permissionFromWire (spr_Permission request) of
                 Inl err \<Rightarrow> (Inl (RpcError Code_InvalidArgument ''invalid desktop permission''), s, w)
               | Inr permission \<Rightarrow>
                   (case dp_Change P ctx \<lparr>cp_Permission = permission, cp_Enabled = spr_Enabled request\<rparr> w of
                      (Inl err, w1) \<Rightarrow> (Inl (grpcFault fce err), s, w1)
                    | (Inr snapshot, w1) \<Rightarrow>
                        let s1 = notifyPermissionSubscribers s;
                            (avatar, w2) = dp_Avatar P w1;
                            (providers, w3) = dp_Providers P w2
                        in currentState P fce V ctx avatar (Some snapshot) providers (s1, w3)))))"

definition RejectInteraction ::
    "'w desktop_ports \<Rightarrow> (goerror \<Rightarrow> rpc_error) \<Rightarrow> desktop_ctx \<Rightarrow> RejectInteractionRequest \<Rightarrow> Desktop \<times> 'w \<Rightarrow>
     rpc_error option \<times> Desktop \<times> 'w" where
  "RejectInteraction P fce ctx request = (\<lambda>(s, w).
     case desktop_authorize P ctx of
       Some err \<Rightarrow> (Some err, s, w)
     | None \<Rightarrow>
         (case validateProtocol (rir_ProtocolVersion request) of
            Some err \<Rightarrow> (Some err, s, w)
          | None \<Rightarrow>
              if rir_RequestId request = [] \<or> rir_RequestId request \<noteq> TrimSpace (rir_RequestId request) \<or>
                 rir_TraceId request = [] \<or> rir_TraceId request \<noteq> TrimSpace (rir_TraceId request) \<or>
                 rir_SubjectId request \<noteq> dk_subjectID s then
                (Some (RpcError Code_InvalidArgument ''invalid interaction rejection''), s, w)
              else
                let (now, w1) = dp_Now P w
                in if IsZero now then (Some (RpcError Code_Internal ''desktop clock returned invalid time''), s, w1)
                   else
                     (case dp_SubmitControl P ctx
                        \<lparr>ctl_ID = rir_RequestId request, ctl_Kind = StopAll, ctl_Reason = ReasonUserRejected,
                         ctl_SubjectID = dk_subjectID s, ctl_OccurredAt = now, ctl_TraceID = rir_TraceId request\<rparr> w1 of
                        (Some err, w2) \<Rightarrow> (Some (grpcFault fce err), s, w2)
                      | (None, w2) \<Rightarrow> (None, s, w2))))"

section \<open>Watching\<close>

text \<open>
  A watcher keeps the avatar and the providers it saw last, and its permission subscription. \<open>sent\<close> is
  the outcome of \<^verbatim>\<open>stream.Send\<close>. A handler ends the stream with an error, or goes on; the second
  component is the message handed to the stream.
\<close>

record Watch =
  wa_avatar :: Update
  wa_providers :: provider_Snapshot
  wa_sub :: "64 word"

datatype watch_case =
    WatchDone goerror
  | WatchAvatar "Update option"
  | WatchPermission bool
  | WatchProviders "provider_Snapshot option"

definition sendCurrent ::
    "'w desktop_ports \<Rightarrow> (goerror \<Rightarrow> rpc_error) \<Rightarrow> (time \<Rightarrow> bool) \<Rightarrow> desktop_ctx \<Rightarrow> goerror option \<Rightarrow> Watch \<Rightarrow>
     Desktop \<times> 'w \<Rightarrow> (rpc_error + Watch) \<times> DesktopState option \<times> Desktop \<times> 'w" where
  "sendCurrent P fce V ctx sent watch sw =
     (case currentState P fce V ctx (wa_avatar watch) None (wa_providers watch) sw of
        (Inl err, sw1) \<Rightarrow> (Inl err, None, sw1)
      | (Inr state, sw1) \<Rightarrow>
          (case sent of
             Some err \<Rightarrow> (Inl (streamError fce err), Some state, sw1)
           | None \<Rightarrow> (Inr watch, Some state, sw1)))"

text \<open>The deferred calls: a watcher that ends gives its permission subscription back.\<close>

definition watch_deferred ::
    "64 word \<Rightarrow> (rpc_error + Watch) \<times> DesktopState option \<times> Desktop \<times> 'w \<Rightarrow>
     (rpc_error + Watch) \<times> DesktopState option \<times> Desktop \<times> 'w" where
  "watch_deferred i = (\<lambda>(res, msg, s, w). (res, msg, (case res of Inl err \<Rightarrow> cancel_permissions i s | Inr watch \<Rightarrow> s), w))"

text \<open>\<^verbatim>\<open>WatchState\<close> up to its loop; the subscriptions to the avatar and to the providers gave \<open>avatar\<close> and \<open>providers\<close>.\<close>

definition watch_begin ::
    "'w desktop_ports \<Rightarrow> (goerror \<Rightarrow> rpc_error) \<Rightarrow> (time \<Rightarrow> bool) \<Rightarrow> desktop_ctx \<Rightarrow> string \<Rightarrow> Update \<Rightarrow>
     provider_Snapshot \<Rightarrow> goerror option \<Rightarrow> Desktop \<times> 'w \<Rightarrow>
     (rpc_error + Watch) \<times> DesktopState option \<times> Desktop \<times> 'w" where
  "watch_begin P fce V ctx version avatar providers sent = (\<lambda>(s, w).
     case desktop_authorize P ctx of
       Some err \<Rightarrow> (Inl err, None, s, w)
     | None \<Rightarrow>
         (case validateProtocol version of
            Some err \<Rightarrow> (Inl err, None, s, w)
          | None \<Rightarrow>
              let (i, s1) = subscribePermissions s
              in watch_deferred i
                   (sendCurrent P fce V ctx sent \<lparr>wa_avatar = avatar, wa_providers = providers, wa_sub = i\<rparr> (s1, w))))"

definition take_token :: "64 word \<Rightarrow> Desktop \<Rightarrow> Desktop" where
  "take_token i s = s\<lparr>dk_permissionSubs := AList.update i False (dk_permissionSubs s)\<rparr>"

fun watch_select ::
    "'w desktop_ports \<Rightarrow> (goerror \<Rightarrow> rpc_error) \<Rightarrow> (time \<Rightarrow> bool) \<Rightarrow> desktop_ctx \<Rightarrow> watch_case \<Rightarrow> goerror option \<Rightarrow>
     Watch \<Rightarrow> Desktop \<times> 'w \<Rightarrow> (rpc_error + Watch) \<times> DesktopState option \<times> Desktop \<times> 'w" where
  "watch_select P fce V ctx (WatchDone err) sent watch sw = (Inl (fce err), None, sw)"
| "watch_select P fce V ctx (WatchAvatar None) sent watch sw =
     (Inl (RpcError Code_Unavailable ''avatar state source closed''), None, sw)"
| "watch_select P fce V ctx (WatchAvatar (Some update)) sent watch sw =
     sendCurrent P fce V ctx sent (watch\<lparr>wa_avatar := update\<rparr>) sw"
| "watch_select P fce V ctx (WatchPermission False) sent watch sw =
     (Inl (RpcError Code_Unavailable ''permission state source closed''), None, sw)"
| "watch_select P fce V ctx (WatchPermission True) sent watch (s, w) =
     (let (avatar, w1) = dp_Avatar P w
      in sendCurrent P fce V ctx sent (watch\<lparr>wa_avatar := avatar\<rparr>) (take_token (wa_sub watch) s, w1))"
| "watch_select P fce V ctx (WatchProviders None) sent watch sw =
     (Inl (RpcError Code_Unavailable ''provider state source closed''), None, sw)"
| "watch_select P fce V ctx (WatchProviders (Some update)) sent watch sw =
     sendCurrent P fce V ctx sent (watch\<lparr>wa_providers := update\<rparr>) sw"

definition watch_step ::
    "'w desktop_ports \<Rightarrow> (goerror \<Rightarrow> rpc_error) \<Rightarrow> (time \<Rightarrow> bool) \<Rightarrow> desktop_ctx \<Rightarrow> watch_case \<Rightarrow> goerror option \<Rightarrow>
     Watch \<Rightarrow> Desktop \<times> 'w \<Rightarrow> (rpc_error + Watch) \<times> DesktopState option \<times> Desktop \<times> 'w" where
  "watch_step P fce V ctx ev sent watch sw =
     watch_deferred (wa_sub watch) (watch_select P fce V ctx ev sent watch sw)"

end
