(* ===== verification/Panel_View.thy ===== *)
theory Panel_View
  imports Presenter Desktop_Server
begin

text \<open>
  From the sources to the panel: what the mapper of the desktop service produces, the presenter accepts,
  and what the panel then shows.
\<close>

section \<open>What the mapper produces\<close>

lemma avatarToWire_modes:
  assumes "avatarToWire V u = Inr w"
  shows "\<exists>mode class. map_of avatar_modes (aw_Mode w) = Some (mode, class)" "aw_Speaking w \<Longrightarrow> aw_Mode w = 5"
    "aw_Text w = upd_Text u" "aw_Speaking w = upd_Speaking u" "avatarModeToWire (upd_Mode u) = Inr (aw_Mode w)"
proof -
  from assms obtain mode t where m: "avatarModeToWire (upd_Mode u) = Inr mode"
    and w: "aw_Mode w = mode" "aw_Speaking w = upd_Speaking u" "aw_Text w = upd_Text u"
      "upd_Speaking u \<Longrightarrow> upd_Mode u = ModeSpeaking"
    by (auto simp: avatarToWire_def error_returns split: if_splits)
  show "\<exists>mode cls. map_of avatar_modes (aw_Mode w) = Some (mode, cls)"
    using m w(1) by (cases "upd_Mode u") (auto simp: avatar_modes_def)
  show "aw_Speaking w \<Longrightarrow> aw_Mode w = 5" "avatarModeToWire (upd_Mode u) = Inr (aw_Mode w)"
    "aw_Text w = upd_Text u" "aw_Speaking w = upd_Speaking u"
    using m w by auto
qed

definition permission_number :: "Permission \<Rightarrow> int" where
  "permission_number p = the (map_of permission_numbers p)"

lemma permissionToWire_Inr:
  "permissionToWire p = Inr n \<longleftrightarrow> p \<in> set permissionOrder \<and> n = permission_number p"
  by (cases p) (auto simp: permissionToWire_def permission_number_def permission_numbers_def permissionOrder_def)

lemma permission_number_inject:
  "p \<in> set permissionOrder \<Longrightarrow> q \<in> set permissionOrder \<Longrightarrow> permission_number p = permission_number q \<longleftrightarrow> p = q"
  by (auto simp: permission_number_def permission_numbers_def permissionOrder_def)

lemma permission_number_order: "map permission_number permissionOrder = view_permissionOrder"
  by (simp add: permission_number_def permission_numbers_def permissionOrder_def view_permissionOrder_def)

lemma grants_to_wire_Cons:
  assumes "grants_to_wire V (g # gs) known = Inr (out, known')"
  obtains t rest where "gr_Permission g \<in> set permissionOrder" "gr_Permission g \<notin> known"
    "grants_to_wire V gs (insert (gr_Permission g) known) = Inr (rest, known')"
    "out = \<lparr>gw_Permission = permission_number (gr_Permission g), gw_Enabled = gr_Enabled g, gw_UpdatedAt = t\<rparr> # rest"
proof -
  from assms have "\<exists>n t rest. permissionToWire (gr_Permission g) = Inr n \<and> gr_Permission g \<notin> known \<and>
      grants_to_wire V gs (insert (gr_Permission g) known) = Inr (rest, known') \<and>
      out = \<lparr>gw_Permission = n, gw_Enabled = gr_Enabled g, gw_UpdatedAt = t\<rparr> # rest"
    by (auto split: sum.splits if_splits)
  with that show ?thesis
    unfolding permissionToWire_Inr by blast
qed

definition grant_flag :: "Grant \<Rightarrow> int \<times> bool" where
  "grant_flag g = (permission_number (gr_Permission g), gr_Enabled g)"

definition message_flag :: "PermissionGrant \<Rightarrow> int \<times> bool" where
  "message_flag w = (gw_Permission w, gw_Enabled w)"

lemma grants_to_wire_out:
  "grants_to_wire V gs known = Inr (out, known') \<Longrightarrow>
   map message_flag out = map grant_flag gs \<and> distinct (map gr_Permission gs) \<and> gr_Permission ` set gs \<inter> known = {} \<and>
   gr_Permission ` set gs \<subseteq> set permissionOrder \<and> known' = known \<union> gr_Permission ` set gs"
proof (induction gs arbitrary: known out)
  case (Cons g gs)
  from Cons.prems obtain t rest where g: "gr_Permission g \<in> set permissionOrder" "gr_Permission g \<notin> known"
    and rest: "grants_to_wire V gs (insert (gr_Permission g) known) = Inr (rest, known')"
    and out: "out = \<lparr>gw_Permission = permission_number (gr_Permission g), gw_Enabled = gr_Enabled g, gw_UpdatedAt = t\<rparr> # rest"
    by (rule grants_to_wire_Cons)
  from Cons.IH [OF rest] g show ?case
    by (auto simp: out message_flag_def grant_flag_def)
qed simp

lemma permissionEnabled_in_map:
  "p \<in> gr_Permission ` set gs \<Longrightarrow> distinct (map gr_Permission gs) \<Longrightarrow>
   map_of (map (\<lambda>g. (gr_Permission g, gr_Enabled g)) gs) p = Some (permissionEnabled_in gs p)"
  by (induction gs) auto

lemma permissionsToWire_out:
  assumes "permissionsToWire V snap = Inr out"
  shows "map gw_Permission out = view_permissionOrder"
    "p \<in> set permissionOrder \<Longrightarrow>
       map_of (map message_flag out) (permission_number p) = Some (permissionEnabled snap p)"
proof -
  let ?gs = "ps_Grants snap"
  from assms obtain raw known where wire: "grants_to_wire V ?gs {} = Inr (raw, known)"
    and out: "out = sort_key gw_Permission raw" and card: "card known = length permissionOrder"
    by (auto simp: permissionsToWire_def AllPermissions_def split: if_splits sum.splits)
  have g: "map message_flag raw = map grant_flag ?gs" "distinct (map gr_Permission ?gs)"
    "gr_Permission ` set ?gs \<subseteq> set permissionOrder" "known = gr_Permission ` set ?gs"
    using grants_to_wire_out [OF wire] by simp_all
  have set: "gr_Permission ` set ?gs = set permissionOrder"
    using g(3,4) card by (intro card_subset_eq) (simp_all add: distinct_card [OF distinct_permissionOrder])
  have "map fst (map message_flag raw) = map fst (map grant_flag ?gs)"
    by (simp only: g(1))
  then have numbers: "map gw_Permission raw = map permission_number (map gr_Permission ?gs)"
    by (simp add: message_flag_def grant_flag_def comp_def)
  have "mset (map gr_Permission ?gs) = mset permissionOrder"
    using set g(2) distinct_permissionOrder by (metis set_eq_iff_mset_eq_distinct set_map)
  then have "mset (map gw_Permission raw) = mset view_permissionOrder"
    unfolding numbers permission_number_order [symmetric] by (metis mset_map)
  then have "mset (map gw_Permission out) = mset view_permissionOrder"
    by (simp add: out)
  moreover have "sorted (map gw_Permission out)" "sorted view_permissionOrder"
    by (simp_all add: out view_permissionOrder_def)
  ultimately show order: "map gw_Permission out = view_permissionOrder"
    by (metis properties_for_sort)
  show "map_of (map message_flag out) (permission_number p) = Some (permissionEnabled snap p)"
    if p: "p \<in> set permissionOrder"
  proof -
    have "map_of (map (\<lambda>g. (gr_Permission g, gr_Enabled g)) ?gs) p = Some (permissionEnabled snap p)"
      using p set g(2) permissionEnabled_in_map [of p ?gs] by (simp add: permissionEnabled_def)
    then obtain g where "g \<in> set ?gs" "gr_Permission g = p" "gr_Enabled g = permissionEnabled snap p"
      by (auto dest!: map_of_SomeD)
    then have "(permission_number p, permissionEnabled snap p) \<in>
        set (map grant_flag ?gs)"
      by (force simp: grant_flag_def)
    then have "(permission_number p, permissionEnabled snap p) \<in> set (map message_flag out)"
      unfolding g(1) [symmetric] by (simp add: out)
    moreover have "distinct (map fst (map message_flag out))"
      using order by (simp add: comp_def message_flag_def view_permissionOrder_def)
    ultimately show ?thesis
      by (metis map_of_eq_Some_iff)
  qed
qed

lemma wire_numbers:
  "providerStateToWire st = Inr n \<Longrightarrow> n \<in> {1..5}" "providerReasonToWire re = Inr m \<Longrightarrow> m \<in> {1..8}"
  by (cases st; simp) (cases re; auto)

lemma runtimes_to_wire_Cons:
  assumes "runtimes_to_wire V (rt # rts) known = Inr ws"
  obtains w rest where "ws = w # rest" "rw_ProviderId w = rt_ProviderID rt" "rt_ProviderID rt \<noteq> []" "rt_ProviderID rt \<notin> known"
    "providerStateToWire (rt_State rt) = Inr (rw_State w)" "providerReasonToWire (rt_Reason rt) = Inr (rw_Reason w)"
    "runtimes_to_wire V rts (insert (rt_ProviderID rt) known) = Inr rest"
proof -
  from assms have "\<exists>w rest. ws = w # rest \<and> rw_ProviderId w = rt_ProviderID rt \<and> rt_ProviderID rt \<noteq> [] \<and>
      rt_ProviderID rt \<notin> known \<and> providerStateToWire (rt_State rt) = Inr (rw_State w) \<and>
      providerReasonToWire (rt_Reason rt) = Inr (rw_Reason w) \<and>
      runtimes_to_wire V rts (insert (rt_ProviderID rt) known) = Inr rest"
    by (auto split: sum.splits if_splits)
  with that show ?thesis
    by blast
qed

definition provider_message :: "Runtime \<Rightarrow> ProviderRuntime \<Rightarrow> bool" where
  "provider_message rt w =
     (rw_ProviderId w = rt_ProviderID rt \<and> rt_ProviderID rt \<noteq> [] \<and> providerStateToWire (rt_State rt) = Inr (rw_State w) \<and>
      providerReasonToWire (rt_Reason rt) = Inr (rw_Reason w))"

lemma runtimes_to_wire_out:
  "runtimes_to_wire V rts known = Inr ws \<Longrightarrow>
   list_all2 provider_message rts ws \<and> distinct (map rt_ProviderID rts) \<and> rt_ProviderID ` set rts \<inter> known = {}"
proof (induction rts arbitrary: known ws)
  case (Cons rt rts)
  from Cons.prems show ?case
    by (rule runtimes_to_wire_Cons) (auto simp: provider_message_def dest!: Cons.IH)
qed simp

section \<open>What the presenter makes of it\<close>

lemma permissionDefinitions_known: "map_of permissionDefinitions n \<noteq> None \<longleftrightarrow> n \<in> set view_permissionOrder"
  by (auto simp: permissionDefinitions_def view_permissionOrder_def Let_def)

lemma flags_by_wire_Inr:
  "distinct (map gw_Permission ws) \<Longrightarrow> gw_Permission ` set ws \<subseteq> set view_permissionOrder \<Longrightarrow>
   gw_Permission ` set ws \<inter> dom m = {} \<Longrightarrow>
   flags_by_wire (map Some ws) m = Inr (m ++ map_of (map message_flag ws))"
proof (induction ws arbitrary: m)
  case (Cons w ws)
  have disj: "gw_Permission ` set ws \<inter> dom (m(gw_Permission w \<mapsto> gw_Enabled w)) = {}"
    using Cons.prems by auto
  have "map_of permissionDefinitions (gw_Permission w) \<noteq> None" "m (gw_Permission w) = None"
    using Cons.prems permissionDefinitions_known by auto
  then have "flags_by_wire (map Some (w # ws)) m = flags_by_wire (map Some ws) (m(gw_Permission w \<mapsto> gw_Enabled w))"
    by auto
  also have "flags_by_wire (map Some ws) (m(gw_Permission w \<mapsto> gw_Enabled w)) =
      Inr (m(gw_Permission w \<mapsto> gw_Enabled w) ++ map_of (map message_flag ws))"
    by (rule Cons.IH [OF _ _ disj]) (use Cons.prems in simp_all)
  also have "m(gw_Permission w \<mapsto> gw_Enabled w) ++ map_of (map message_flag ws) = m ++ map_of (map message_flag (w # ws))"
  proof -
    have "gw_Permission w \<notin> dom (map_of (map message_flag ws))"
      using Cons.prems(1) by (auto simp: dom_map_of_conv_image_fst message_flag_def)
    then show ?thesis
      by (simp add: map_add_upd_left message_flag_def)
  qed
  finally show ?case .
qed simp

definition view_flag :: "view_Permission \<Rightarrow> int \<times> bool" where
  "view_flag v = (vp_Wire v, vp_Enabled v)"

lemma definition_wire: "n \<in> set view_permissionOrder \<Longrightarrow> vp_Wire (the (map_of permissionDefinitions n)) = n"
  by (auto simp: permissionDefinitions_def view_permissionOrder_def Let_def)

lemma mapPermissions_Inr:
  assumes "map gw_Permission ws = view_permissionOrder"
  shows "\<exists>vs. mapPermissions (map Some ws) = Inr vs \<and> map view_flag vs = map message_flag ws"
proof -
  have len: "length ws = length permissionDefinitions"
    using arg_cong [OF assms, of length] by (simp add: permissionDefinitions_def view_permissionOrder_def Let_def)
  have dist: "distinct (map gw_Permission ws)"
    by (simp add: assms view_permissionOrder_def)
  from flags_by_wire_Inr [OF dist, of Map.empty] assms
  have flags: "flags_by_wire (map Some ws) Map.empty = Inr (map_of (map message_flag ws))"
    by (metis dom_empty empty_map_add inf_bot_right set_map subset_refl)
  have "map (\<lambda>n. (n, case map_of (map message_flag ws) n of Some b \<Rightarrow> b | None \<Rightarrow> False)) (map gw_Permission ws) =
      map message_flag ws"
  proof -
    have "map_of (map message_flag ws) (gw_Permission w) = Some (gw_Enabled w)" if "w \<in> set ws" for w
      using that dist by (intro map_of_is_SomeI) (auto simp: message_flag_def comp_def)
    then show ?thesis
      by (simp add: message_flag_def)
  qed
  then have "map (\<lambda>n. (n, case map_of (map message_flag ws) n of Some b \<Rightarrow> b | None \<Rightarrow> False)) view_permissionOrder =
      map message_flag ws"
    by (simp only: assms)
  moreover have "view_flag ((the (map_of permissionDefinitions n))\<lparr>vp_Enabled := b\<rparr>) = (n, b)"
    if "n \<in> set view_permissionOrder" for n b
    using definition_wire [OF that] by (simp add: view_flag_def)
  ultimately show ?thesis
    using len flags by (simp add: mapPermissions_def comp_def cong: map_cong)
qed

definition provider_shown :: "ProviderRuntime \<Rightarrow> view_Provider \<Rightarrow> bool" where
  "provider_shown w v =
     (vr_ID v = rw_ProviderId w \<and> map_of provider_states (rw_State w) = Some (vr_State v) \<and>
      map_of provider_reasons (rw_Reason w) = Some (vr_Reason v))"

lemma provider_texts:
  "n \<in> {1..5} \<Longrightarrow> \<exists>s. map_of provider_states n = Some s" "m \<in> {1..8} \<Longrightarrow> \<exists>s. map_of provider_reasons m = Some s"
proof -
  assume "n \<in> {1..5}"
  then have "n = 1 \<or> n = 2 \<or> n = 3 \<or> n = 4 \<or> n = 5"
    by auto
  then show "\<exists>s. map_of provider_states n = Some s"
    by (auto simp: provider_states_def)
next
  assume "m \<in> {1..8}"
  then have "m = 1 \<or> m = 2 \<or> m = 3 \<or> m = 4 \<or> m = 5 \<or> m = 6 \<or> m = 7 \<or> m = 8"
    by auto
  then show "\<exists>s. map_of provider_reasons m = Some s"
    by (auto simp: provider_reasons_def)
qed

lemma providers_view_Inr:
  "distinct (map rw_ProviderId ws) \<Longrightarrow> rw_ProviderId ` set ws \<inter> known = {} \<Longrightarrow>
   \<forall>w \<in> set ws. rw_ProviderId w \<noteq> [] \<and> rw_State w \<in> {1..5} \<and> rw_Reason w \<in> {1..8} \<Longrightarrow>
   \<exists>vs. providers_view (map Some ws) known = Inr vs \<and> list_all2 provider_shown ws vs"
proof (induction ws arbitrary: known)
  case (Cons w ws)
  from Cons.prems(3) have w: "rw_ProviderId w \<noteq> []" "rw_State w \<in> {1..5}" "rw_Reason w \<in> {1..8}"
    by simp_all
  obtain state where state: "map_of provider_states (rw_State w) = Some state"
    using provider_texts(1) [OF w(2)] by blast
  obtain reason where reason: "map_of provider_reasons (rw_Reason w) = Some reason"
    using provider_texts(2) [OF w(3)] by blast
  from Cons.IH [of "insert (rw_ProviderId w) known"] Cons.prems
  obtain vs where "providers_view (map Some ws) (insert (rw_ProviderId w) known) = Inr vs" "list_all2 provider_shown ws vs"
    by auto
  moreover from state reason have "provider_shown w \<lparr>vr_ID = rw_ProviderId w, vr_State = state, vr_Reason = reason\<rparr>"
    by (simp add: provider_shown_def)
  ultimately show ?case
    using w(1) state reason Cons.prems(2) by (auto simp: providerState_def providerReason_def)
qed simp

lemma collect_flags:
  assumes "map vp_Wire vs = view_permissionOrder"
  shows "fold collect_flag vs view =
    view\<lparr>vw_CameraEnabled := vp_Enabled (vs ! 0), vw_MicrophoneEnabled := vp_Enabled (vs ! 1),
         vw_BiometricsEnabled := vw_BiometricsEnabled view \<or> list_ex vp_Enabled (take 5 (drop 2 vs))\<rparr>"
proof -
  from assms have "\<exists>a b c d e f g h. vs = [a, b, c, d, e, f, g, h]"
    by (auto simp: view_permissionOrder_def map_eq_Cons_conv)
  then obtain a b c d e f g h where vs: "vs = [a, b, c, d, e, f, g, h]"
    by blast
  have wires: "vp_Wire a = 1" "vp_Wire b = 2" "vp_Wire c = 3" "vp_Wire d = 4" "vp_Wire e = 5" "vp_Wire f = 6"
    "vp_Wire g = 7" "vp_Wire h = 8"
    using assms by (simp_all add: vs view_permissionOrder_def)
  have "take 5 (drop 2 vs) = [c, d, e, f, g]"
    by (simp add: vs numeral_eq_Suc)
  moreover have "fold collect_flag vs view =
      view\<lparr>vw_CameraEnabled := vp_Enabled a, vw_MicrophoneEnabled := vp_Enabled b,
           vw_BiometricsEnabled := vw_BiometricsEnabled view \<or> vp_Enabled c \<or> vp_Enabled d \<or> vp_Enabled e \<or>
             vp_Enabled f \<or> vp_Enabled g\<rparr>"
    by (simp add: vs collect_flag_def wires disj_assoc)
  ultimately show ?thesis
    by (simp add: vs)
qed

section \<open>From the sources to the panel\<close>

text \<open>What the panel shows of a permission snapshot and of a runtime.\<close>

definition shown_grants :: "privacy_Snapshot \<Rightarrow> (int \<times> bool) list" where
  "shown_grants snap = map (\<lambda>p. (permission_number p, permissionEnabled snap p)) permissionOrder"

definition runtime_shown :: "Runtime \<Rightarrow> view_Provider \<Rightarrow> bool" where
  "runtime_shown rt v =
     (vr_ID v = rt_ProviderID rt \<and>
      (\<exists>n. providerStateToWire (rt_State rt) = Inr n \<and> map_of provider_states n = Some (vr_State v)) \<and>
      (\<exists>n. providerReasonToWire (rt_Reason rt) = Inr n \<and> map_of provider_reasons n = Some (vr_Reason v)))"

lemma currentState_Inr:
  assumes "currentState P fce V ctx avatar known providers (s, w) = (Inr state, s', w')"
  obtains snap where "case known of Some k \<Rightarrow> snap = k \<and> w' = w | None \<Rightarrow> dp_Permissions P ctx w = (Inr snap, w')"
    "avatarToWire V avatar = Inr (ds_Avatar state)" "permissionsToWire V snap = Inr (ds_Permissions state)"
    "providersToWire V providers = Inr (ds_Providers state)"
    "compositeRevision (upd_Revision avatar) (ps_Revision snap) (prs_Revision providers) s = (ds_Revision state, s')"
  using assms by (auto simp: currentState_def Let_def split: prod.splits sum.splits option.splits)

lemma message_flags:
  assumes "permissionsToWire V snap = Inr ws"
  shows "map message_flag ws = shown_grants snap"
proof -
  note ws = permissionsToWire_out [OF assms]
  have "message_flag w = (gw_Permission w, the (map_of (map message_flag ws) (gw_Permission w)))" if "w \<in> set ws" for w
  proof -
    have "distinct (map fst (map message_flag ws))"
      using ws(1) by (simp add: comp_def message_flag_def view_permissionOrder_def)
    then have "map_of (map message_flag ws) (gw_Permission w) = Some (gw_Enabled w)"
      using that by (intro map_of_is_SomeI) (auto simp: message_flag_def)
    then show ?thesis
      by (simp add: message_flag_def)
  qed
  then have "map message_flag ws = map (\<lambda>n. (n, the (map_of (map message_flag ws) n))) (map gw_Permission ws)"
    by simp
  also have "\<dots> = map (\<lambda>p. (permission_number p, the (map_of (map message_flag ws) (permission_number p)))) permissionOrder"
    by (simp add: ws(1) permission_number_order [symmetric] del: map_map) simp
  also have "\<dots> = shown_grants snap"
    unfolding shown_grants_def by (rule map_cong [OF refl]) (simp add: ws(2))
  finally show ?thesis .
qed

lemma collected_flags:
  assumes "map view_flag vs = shown_grants snap"
  shows "map vp_Wire vs = view_permissionOrder" "vp_Enabled (vs ! 0) = permissionEnabled snap CameraCapture"
    "vp_Enabled (vs ! 1) = permissionEnabled snap MicrophoneCapture"
    "list_ex vp_Enabled (take 5 (drop 2 vs)) =
       list_ex (permissionEnabled snap)
         [Permission.FaceDetection, Permission.FaceIdentification, Permission.FaceLiveness, Permission.SpeakerIdentification,
          Permission.SpeakerVerification]"
proof -
  have "map fst (map view_flag vs) = map fst (shown_grants snap)"
    by (simp only: assms)
  then show "map vp_Wire vs = view_permissionOrder"
    by (simp add: view_flag_def shown_grants_def comp_def permission_number_order)
  have "map snd (map view_flag vs) = map snd (shown_grants snap)"
    by (simp only: assms)
  then have enabled: "map vp_Enabled vs = map (permissionEnabled snap) permissionOrder"
    by (simp add: view_flag_def shown_grants_def comp_def)
  then have len: "length vs = 8"
    by (auto dest: arg_cong [of _ _ length] simp: permissionOrder_def)
  have "vp_Enabled (vs ! 0) = map vp_Enabled vs ! 0" "vp_Enabled (vs ! 1) = map vp_Enabled vs ! 1"
    using len by simp_all
  then show "vp_Enabled (vs ! 0) = permissionEnabled snap CameraCapture"
    "vp_Enabled (vs ! 1) = permissionEnabled snap MicrophoneCapture"
    unfolding enabled by (simp_all add: permissionOrder_def)
  have "list_ex vp_Enabled (take 5 (drop 2 vs)) = list_ex id (take 5 (drop 2 (map vp_Enabled vs)))"
    by (simp add: take_map drop_map list_ex_iff)
  also have "\<dots> = list_ex (permissionEnabled snap)
      [Permission.FaceDetection, Permission.FaceIdentification, Permission.FaceLiveness, Permission.SpeakerIdentification,
       Permission.SpeakerVerification]"
    unfolding enabled by (simp add: permissionOrder_def numeral_eq_Suc)
  finally show "list_ex vp_Enabled (take 5 (drop 2 vs)) = list_ex (permissionEnabled snap)
      [Permission.FaceDetection, Permission.FaceIdentification, Permission.FaceLiveness, Permission.SpeakerIdentification,
       Permission.SpeakerVerification]" .
qed

lemma providers_shown:
  assumes "providersToWire V snap = Inr ws"
  obtains vs where "mapProviders (map Some ws) = Inr vs" "map vr_ID vs = sort (map rt_ProviderID (prs_Providers snap))"
    "\<forall>rt \<in> set (prs_Providers snap). \<exists>v \<in> set vs. runtime_shown rt v"
proof -
  from assms obtain raw where raw: "runtimes_to_wire V (prs_Providers snap) {} = Inr raw"
    and ws: "ws = sort_key rw_ProviderId raw"
    by (auto simp: providersToWire_def map_sum_def split: sum.splits)
  from runtimes_to_wire_out [OF raw]
  have all: "list_all2 provider_message (prs_Providers snap) raw" and dist: "distinct (map rt_ProviderID (prs_Providers snap))"
    by simp_all
  from all have ids: "map rw_ProviderId raw = map rt_ProviderID (prs_Providers snap)"
    by (induction rule: list_all2_induct) (auto simp: provider_message_def)
  have good: "\<forall>w \<in> set ws. rw_ProviderId w \<noteq> [] \<and> rw_State w \<in> {1..5} \<and> rw_Reason w \<in> {1..8}"
    using all wire_numbers by (fastforce simp: ws list_all2_conv_all_nth in_set_conv_nth provider_message_def)
  have "mset (map rw_ProviderId ws) = mset (map rt_ProviderID (prs_Providers snap))"
    unfolding ids [symmetric] by (simp add: ws)
  with dist have "distinct (map rw_ProviderId ws)"
    using mset_eq_imp_distinct_iff by blast
  from providers_view_Inr [OF this _ good, of "{}"] obtain out where
    out: "providers_view (map Some ws) {} = Inr out" "list_all2 provider_shown ws out"
    by auto
  show ?thesis
  proof
    show "mapProviders (map Some ws) = Inr (sort_key vr_ID out)"
      by (simp add: mapProviders_def out(1))
    have "map vr_ID out = map rw_ProviderId ws"
      using out(2) by (induction rule: list_all2_induct) (auto simp: provider_shown_def)
    then have "mset (map vr_ID out) = mset (map rt_ProviderID (prs_Providers snap))"
      unfolding ids [symmetric] by (simp add: ws)
    then have "mset (map vr_ID (sort_key vr_ID out)) = mset (map rt_ProviderID (prs_Providers snap))"
      by simp
    then show "map vr_ID (sort_key vr_ID out) = sort (map rt_ProviderID (prs_Providers snap))"
      by (metis properties_for_sort sorted_sort_key)
    show "\<forall>rt \<in> set (prs_Providers snap). \<exists>v \<in> set (sort_key vr_ID out). runtime_shown rt v"
    proof
      fix rt
      assume "rt \<in> set (prs_Providers snap)"
      with all obtain w where w: "w \<in> set raw" "provider_message rt w"
        by (metis in_set_conv_nth list_all2_conv_all_nth)
      then have "w \<in> set ws"
        by (simp add: ws)
      with out(2) obtain v where "v \<in> set out" "provider_shown w v"
        by (metis in_set_conv_nth list_all2_conv_all_nth)
      with w(2) show "\<exists>v \<in> set (sort_key vr_ID out). runtime_shown rt v"
        by (auto simp: runtime_shown_def provider_message_def provider_shown_def)
    qed
  qed
qed

lemma view_of_messages:
  assumes wire: "avatarToWire V avatar = Inr (ds_Avatar state)" "permissionsToWire V snap = Inr (ds_Permissions state)"
      "providersToWire V providers = Inr (ds_Providers state)"
    and "ds_Revision state \<noteq> 0"
  shows "\<exists>view.
    view_Build (Some (transported state)) = Inr view \<and>
    vw_Revision view = ds_Revision state \<and>
    va_Text (vw_Avatar view) = upd_Text avatar \<and> va_Speaking (vw_Avatar view) = upd_Speaking avatar \<and>
    map (\<lambda>v. (vp_Wire v, vp_Enabled v)) (vw_Permissions view) =
      map (\<lambda>p. (permission_number p, permissionEnabled snap p)) permissionOrder \<and>
    vw_CameraEnabled view = permissionEnabled snap CameraCapture \<and>
    vw_MicrophoneEnabled view = permissionEnabled snap MicrophoneCapture \<and>
    vw_BiometricsEnabled view =
      list_ex (permissionEnabled snap)
        [Permission.FaceDetection, Permission.FaceIdentification, Permission.FaceLiveness, Permission.SpeakerIdentification,
         Permission.SpeakerVerification] \<and>
    map vr_ID (vw_Providers view) = sort (map rt_ProviderID (prs_Providers providers)) \<and>
    (\<forall>rt \<in> set (prs_Providers providers). \<exists>v \<in> set (vw_Providers view). runtime_shown rt v)"
proof -
  note modes = avatarToWire_modes [OF wire(1)]
  obtain mode cls where mode: "map_of avatar_modes (aw_Mode (ds_Avatar state)) = Some (mode, cls)"
    using modes(1) by blast
  have avatar: "mapAvatar (ds_Avatar state) =
      Inr \<lparr>va_Mode = mode, va_CSSClass = cls, va_Text = upd_Text avatar, va_Speaking = upd_Speaking avatar\<rparr>"
    using mode modes(2-4) by (simp add: mapAvatar_def)
  from mapPermissions_Inr [OF permissionsToWire_out(1) [OF wire(2)]] obtain vs where
    vs: "mapPermissions (map Some (ds_Permissions state)) = Inr vs" "map view_flag vs = shown_grants snap"
    using message_flags [OF wire(2)] by auto
  note flags = collected_flags [OF vs(2)]
  from providers_shown [OF wire(3)] obtain ps where ps: "mapProviders (map Some (ds_Providers state)) = Inr ps"
    "map vr_ID ps = sort (map rt_ProviderID (prs_Providers providers))"
    "\<forall>rt \<in> set (prs_Providers providers). \<exists>v \<in> set ps. runtime_shown rt v" .
  have "map (\<lambda>v. (vp_Wire v, vp_Enabled v)) vs = map (\<lambda>p. (permission_number p, permissionEnabled snap p)) permissionOrder"
    using vs(2) by (simp add: view_flag_def [abs_def] shown_grants_def)
  moreover have "\<exists>view. view_Build (Some (transported state)) = Inr view \<and> vw_Revision view = ds_Revision state \<and>
      vw_Avatar view = \<lparr>va_Mode = mode, va_CSSClass = cls, va_Text = upd_Text avatar, va_Speaking = upd_Speaking avatar\<rparr> \<and>
      vw_Permissions view = vs \<and> vw_Providers view = ps \<and> vw_CameraEnabled view = vp_Enabled (vs ! 0) \<and>
      vw_MicrophoneEnabled view = vp_Enabled (vs ! 1) \<and> vw_BiometricsEnabled view = list_ex vp_Enabled (take 5 (drop 2 vs))"
    using assms(4) avatar vs(1) ps(1) by (simp add: view_Build_def transported_def collect_flags [OF flags(1)])
  then obtain view where "view_Build (Some (transported state)) = Inr view" "vw_Revision view = ds_Revision state"
    "vw_Avatar view = \<lparr>va_Mode = mode, va_CSSClass = cls, va_Text = upd_Text avatar, va_Speaking = upd_Speaking avatar\<rparr>"
    "vw_Permissions view = vs" "vw_Providers view = ps" "vw_CameraEnabled view = vp_Enabled (vs ! 0)"
    "vw_MicrophoneEnabled view = vp_Enabled (vs ! 1)" "vw_BiometricsEnabled view = list_ex vp_Enabled (take 5 (drop 2 vs))"
    by blast
  ultimately show ?thesis
    using ps(2,3) flags(2-4) by (intro exI [of _ view]) (simp only: view_Avatar.simps simp_thms)
qed


end
