(* ===== verification/Desktop_Run.thy ===== *)
theory Desktop_Run
  imports Panel_View
begin

text \<open>
  Runs of the desktop control service with its watchers: a run is a list of calls, watcher iterations and
  changes of the environment, each taken whole. What was handed out is kept in a log. The locale
  \<open>permission_ports\<close> is what the service relies on for its permission source.
\<close>

section \<open>Runs\<close>

text \<open>
  \<open>de_shown\<close> is the state a watcher was sent last; \<open>de_log\<close> has every state handed out, newest last, with the
  three source revisions it was made of; \<open>de_missed\<close> tells whether permissions changed in a call that did not notify
  the watchers.
\<close>

record 'w desk =
  de_server :: Desktop
  de_world :: 'w
  de_watches :: "64 word \<rightharpoonup> Watch"
  de_shown :: "64 word \<rightharpoonup> DesktopState"
  de_log :: "((64 word \<times> 64 word \<times> 64 word) \<times> DesktopState) list"
  de_missed :: bool

datatype 'w desk_op =
    DkGet desktop_ctx string
  | DkSet desktop_ctx SetPermissionRequest
  | DkReject desktop_ctx RejectInteractionRequest
  | DkWatch desktop_ctx string Update provider_Snapshot "goerror option"
  | DkCase "64 word" desktop_ctx watch_case "goerror option"
  | DkEnvironment 'w

definition source_tuple :: "Desktop \<Rightarrow> 64 word \<times> 64 word \<times> 64 word" where
  "source_tuple s = (dk_sourceAvatar s, dk_sourcePrivacy s, dk_sourceProvider s)"

definition handed_out :: "DesktopState option \<Rightarrow> Desktop \<times> 'w \<Rightarrow> 'w desk \<Rightarrow> 'w desk" where
  "handed_out msg = (\<lambda>(s, w) d.
     d\<lparr>de_server := s, de_world := w,
       de_log := de_log d @ (case msg of None \<Rightarrow> [] | Some state \<Rightarrow> [(source_tuple s, state)])\<rparr>)"

definition answered :: "(rpc_error + DesktopState) \<times> Desktop \<times> 'w \<Rightarrow> 'w desk \<Rightarrow> 'w desk" where
  "answered = (\<lambda>(res, s, w). handed_out (case res of Inl err \<Rightarrow> None | Inr state \<Rightarrow> Some state) (s, w))"

text \<open>The outcome of a watcher's turn: the watcher goes on or is gone.\<close>

definition watched ::
    "64 word \<Rightarrow> (rpc_error + Watch) \<times> DesktopState option \<times> Desktop \<times> 'w \<Rightarrow> 'w desk \<Rightarrow> 'w desk" where
  "watched i = (\<lambda>(res, msg, s, w) d.
     (handed_out msg (s, w) d)
       \<lparr>de_watches := (de_watches d)(i := (case res of Inl err \<Rightarrow> None | Inr watch \<Rightarrow> Some watch)),
        de_shown := (de_shown d)(i := (case msg of None \<Rightarrow> de_shown d i | Some state \<Rightarrow> Some state))\<rparr>)"

fun channel_ready :: "watch_case \<Rightarrow> bool option \<Rightarrow> bool" where
  "channel_ready (WatchPermission b) token = (b \<and> token = Some True)"
| "channel_ready ev token = True"

fun desk_step ::
    "'w desktop_ports \<Rightarrow> (goerror \<Rightarrow> rpc_error) \<Rightarrow> (time \<Rightarrow> bool) \<Rightarrow> ('w \<Rightarrow> privacy_Snapshot) \<Rightarrow> 'w desk_op \<Rightarrow>
     'w desk \<Rightarrow> 'w desk option" where
  "desk_step P fce V perms (DkGet ctx version) d =
     Some (answered (GetState P fce V ctx version (de_server d, de_world d)) d)"
| "desk_step P fce V perms (DkSet ctx request) d =
     (case SetPermission P fce V ctx request (de_server d, de_world d) of
        (res, s, w) \<Rightarrow>
          Some ((answered (res, s, w) d)
            \<lparr>de_missed := (de_missed d \<or>
               perms w \<noteq> perms (de_world d) \<and>
               dk_permissionSubs s \<noteq> dk_permissionSubs (notifyPermissionSubscribers (de_server d)))\<rparr>))"
| "desk_step P fce V perms (DkReject ctx request) d =
     (case RejectInteraction P fce ctx request (de_server d, de_world d) of
        (err, s, w) \<Rightarrow> Some (handed_out None (s, w) d))"
| "desk_step P fce V perms (DkWatch ctx version avatar providers sent) d =
     (let i = dk_nextSubID (de_server d)
      in if de_watches d i \<noteq> None then None
         else Some (watched i (watch_begin P fce V ctx version avatar providers sent (de_server d, de_world d)) d))"
| "desk_step P fce V perms (DkCase i ctx ev sent) d =
     (case de_watches d i of
        None \<Rightarrow> None
      | Some watch \<Rightarrow>
          if channel_ready ev (map_of (dk_permissionSubs (de_server d)) (wa_sub watch))
          then Some (watched i (watch_step P fce V ctx ev sent watch (de_server d, de_world d)) d)
          else None)"
| "desk_step P fce V perms (DkEnvironment w) d =
     (if perms w = perms (de_world d) then Some (d\<lparr>de_world := w\<rparr>) else None)"

fun desk_steps ::
    "'w desktop_ports \<Rightarrow> (goerror \<Rightarrow> rpc_error) \<Rightarrow> (time \<Rightarrow> bool) \<Rightarrow> ('w \<Rightarrow> privacy_Snapshot) \<Rightarrow> 'w desk_op list \<Rightarrow>
     'w desk \<Rightarrow> 'w desk option" where
  "desk_steps P fce V perms [] d = Some d"
| "desk_steps P fce V perms (op # ops) d =
     (case desk_step P fce V perms op d of None \<Rightarrow> None | Some d' \<Rightarrow> desk_steps P fce V perms ops d')"

definition desk_boot :: "Desktop \<Rightarrow> 'w \<Rightarrow> 'w desk" where
  "desk_boot s w =
     \<lparr>de_server = s, de_world = w, de_watches = Map.empty, de_shown = Map.empty, de_log = [], de_missed = False\<rparr>"

section \<open>Revisions\<close>

definition rev_part :: "Desktop \<Rightarrow> 64 word \<times> bool \<times> 64 word \<times> 64 word \<times> 64 word" where
  "rev_part s = (dk_revision s, dk_hasSourceTuple s, source_tuple s)"

fun next_rev ::
    "64 word \<times> bool \<times> 64 word \<times> 64 word \<times> 64 word \<Rightarrow> 64 word \<times> 64 word \<times> 64 word \<Rightarrow>
     64 word \<times> bool \<times> 64 word \<times> 64 word \<times> 64 word" where
  "next_rev (r, has, tuple) t = (if \<not> has \<or> tuple \<noteq> t then (r + 1, True, t) else (r, has, tuple))"

lemma compositeRevision_part:
  assumes "compositeRevision a p r s = (rev', s')"
  shows "rev_part s' = next_rev (rev_part s) (a, p, r)" "rev' = dk_revision s'" "source_tuple s' = (a, p, r)"
    "dk_permissionSubs s' = dk_permissionSubs s" "dk_nextSubID s' = dk_nextSubID s" "dk_subjectID s' = dk_subjectID s"
  using assms by (auto simp: compositeRevision_def rev_part_def source_tuple_def Let_def split: if_splits)

lemma subs_part [simp]:
  "rev_part (notifyPermissionSubscribers s) = rev_part s" "rev_part (cancel_permissions i s) = rev_part s"
  "rev_part (take_token i s) = rev_part s" "rev_part (snd (subscribePermissions s)) = rev_part s"
  by (simp_all add: rev_part_def source_tuple_def notifyPermissionSubscribers_def cancel_permissions_def take_token_def
      subscribePermissions_def Let_def)

text \<open>A message is made of the three sources, and its revision is the server's next one.\<close>

definition messages_ok :: "(time \<Rightarrow> bool) \<Rightarrow> DesktopState \<Rightarrow> bool" where
  "messages_ok V state =
     (\<exists>avatar snap providers. avatarToWire V avatar = Inr (ds_Avatar state) \<and>
        permissionsToWire V snap = Inr (ds_Permissions state) \<and> providersToWire V providers = Inr (ds_Providers state))"

definition hands :: "(time \<Rightarrow> bool) \<Rightarrow> Desktop \<Rightarrow> DesktopState option \<Rightarrow> Desktop \<Rightarrow> bool" where
  "hands V s msg s' =
     (case msg of
        None \<Rightarrow> rev_part s' = rev_part s
      | Some state \<Rightarrow> messages_ok V state \<and> (\<exists>t. rev_part s' = next_rev (rev_part s) t) \<and> ds_Revision state = dk_revision s')"

lemma rev_part_revision: "rev_part s2 = rev_part s1 \<Longrightarrow> dk_revision s2 = dk_revision s1"
  by (simp add: rev_part_def)

lemma hands_parts: "rev_part s1 = rev_part s \<Longrightarrow> hands V s1 msg s' \<Longrightarrow> rev_part s2 = rev_part s' \<Longrightarrow> hands V s msg s2"
  by (cases msg) (auto simp: hands_def dest: rev_part_revision)

lemma currentState_error:
  "currentState P fce V ctx avatar known providers (s, w) = (Inl err, s', w') \<Longrightarrow> s' = s"
  by (auto simp: currentState_def Let_def split: prod.splits sum.splits option.splits)

lemma currentState_subs:
  assumes "currentState P fce V ctx avatar known providers (s, w) = (res, s', w')"
  shows "dk_permissionSubs s' = dk_permissionSubs s" "dk_nextSubID s' = dk_nextSubID s"
proof -
  have "dk_permissionSubs s' = dk_permissionSubs s \<and> dk_nextSubID s' = dk_nextSubID s"
  proof (cases res)
    case (Inl err)
    with assms show ?thesis by (auto dest: currentState_error)
  next
    case (Inr state)
    with assms show ?thesis
      using compositeRevision_part(4,5) by (auto elim!: currentState_Inr)
  qed
  then show "dk_permissionSubs s' = dk_permissionSubs s" "dk_nextSubID s' = dk_nextSubID s"
    by simp_all
qed

lemma currentState_hands:
  assumes "currentState P fce V ctx avatar known providers (s, w) = (res, s', w')"
  shows "hands V s (case res of Inl err \<Rightarrow> None | Inr state \<Rightarrow> Some state) s'"
proof (cases res)
  case (Inl err)
  with assms show ?thesis
    by (auto simp: hands_def dest: currentState_error)
next
  case (Inr state)
  with assms obtain snap where wire: "avatarToWire V avatar = Inr (ds_Avatar state)"
    "permissionsToWire V snap = Inr (ds_Permissions state)" "providersToWire V providers = Inr (ds_Providers state)"
    and rev: "compositeRevision (upd_Revision avatar) (ps_Revision snap) (prs_Revision providers) s = (ds_Revision state, s')"
    by (auto elim!: currentState_Inr)
  from compositeRevision_part(1,2) [OF rev] wire Inr show ?thesis
    by (auto simp: hands_def messages_ok_def)
qed

lemma GetState_hands:
  assumes "GetState P fce V ctx version (s, w) = (res, s', w')"
  shows "hands V s (case res of Inl err \<Rightarrow> None | Inr state \<Rightarrow> Some state) s'" "dk_permissionSubs s' = dk_permissionSubs s"
    "dk_nextSubID s' = dk_nextSubID s"
  using assms
  by (auto simp: GetState_def hands_def [of _ _ None] Let_def split: option.splits prod.splits
      dest: currentState_hands currentState_subs)

lemma SetPermission_cases:
  assumes "SetPermission P fce V ctx request (s, w) = (res, s', w')"
  obtains (refused) err where "res = Inl err" "s' = s" "w' = w"
  | (failed) c err err' where "res = Inl err" "s' = s" "dp_Change P ctx c w = (Inl err', w')"
  | (changed) c snap w1 avatar w2 providers w3 where "dp_Change P ctx c w = (Inr snap, w1)"
      "dp_Avatar P w1 = (avatar, w2)" "dp_Providers P w2 = (providers, w3)"
      "currentState P fce V ctx avatar (Some snap) providers (notifyPermissionSubscribers s, w3) = (res, s', w')"
proof (cases "desktop_authorize P ctx = None \<and> validateProtocol (spr_ProtocolVersion request) = None")
  case False
  with assms have "\<exists>err. res = Inl err \<and> s' = s \<and> w' = w"
    by (auto simp: SetPermission_def split: option.splits)
  with refused show thesis
    by auto
next
  case True
  show thesis
  proof (cases "permissionFromWire (spr_Permission request)")
    case (Inl err)
    with True assms show thesis
      by (auto simp: SetPermission_def intro: refused)
  next
    case (Inr permission)
    define c where "c = \<lparr>cp_Permission = permission, cp_Enabled = spr_Enabled request\<rparr>"
    obtain out w1 where change: "dp_Change P ctx c w = (out, w1)"
      by force
    obtain avatar w2 where avatar: "dp_Avatar P w1 = (avatar, w2)"
      by force
    obtain providers w3 where providers: "dp_Providers P w2 = (providers, w3)"
      by force
    show thesis
    proof (cases out)
      case (Inl err)
      with True assms change \<open>permissionFromWire (spr_Permission request) = Inr permission\<close> show thesis
        by (auto simp: SetPermission_def c_def [symmetric] intro: failed)
    next
      case (Inr snap)
      with True assms change avatar providers \<open>permissionFromWire (spr_Permission request) = Inr permission\<close> show thesis
        by (intro changed [OF _ avatar providers]) (auto simp: SetPermission_def c_def [symmetric] Let_def)
    qed
  qed
qed

lemma SetPermission_hands:
  assumes "SetPermission P fce V ctx request (s, w) = (res, s', w')"
  shows "hands V s (case res of Inl err \<Rightarrow> None | Inr state \<Rightarrow> Some state) s'"
  using assms
proof (cases rule: SetPermission_cases)
  case (changed c snap w1 avatar w2 providers w3)
  show ?thesis
    by (rule hands_parts [OF _ currentState_hands [OF changed(4)]]) simp_all
qed (simp_all add: hands_def)

lemma sendCurrent_hands:
  assumes "sendCurrent P fce V ctx sent watch (s, w) = (res, msg, s', w')"
  shows "hands V s msg s'" "dk_permissionSubs s' = dk_permissionSubs s" "dk_nextSubID s' = dk_nextSubID s"
proof -
  obtain out s1 w1 where out: "currentState P fce V ctx (wa_avatar watch) None (wa_providers watch) (s, w) = (out, s1, w1)"
    by (metis prod_cases3)
  with assms have "s' = s1" "msg = (case out of Inl err \<Rightarrow> None | Inr state \<Rightarrow> Some state)"
    by (auto simp: sendCurrent_def split: sum.splits option.splits)
  then show "hands V s msg s'" "dk_permissionSubs s' = dk_permissionSubs s" "dk_nextSubID s' = dk_nextSubID s"
    using currentState_hands [OF out] currentState_subs [OF out] by simp_all
qed

lemma watch_deferred_hands:
  assumes "watch_deferred i out = (res, msg, s', w')" "\<And>r m s1 w1. out = (r, m, s1, w1) \<Longrightarrow> hands V s m s1"
  shows "hands V s msg s'"
proof -
  obtain r m s1 w1 where out: "out = (r, m, s1, w1)"
    by (metis prod_cases4)
  with assms(1) have "msg = m" "rev_part s' = rev_part s1"
    by (auto simp: watch_deferred_def split: sum.splits)
  with hands_parts [OF refl assms(2) [OF out]] show ?thesis
    by simp
qed

lemma watch_begin_hands:
  assumes "watch_begin P fce V ctx version avatar providers sent (s, w) = (res, msg, s', w')"
  shows "hands V s msg s'"
proof (cases "desktop_authorize P ctx = None \<and> validateProtocol version = None")
  case False
  with assms show ?thesis
    by (auto simp: watch_begin_def hands_def split: option.splits)
next
  case True
  let ?out = "sendCurrent P fce V ctx sent
    \<lparr>wa_avatar = avatar, wa_providers = providers, wa_sub = fst (subscribePermissions s)\<rparr> (snd (subscribePermissions s), w)"
  from True assms have "watch_deferred (fst (subscribePermissions s)) ?out = (res, msg, s', w')"
    by (simp add: watch_begin_def split: prod.splits)
  then show ?thesis
  proof (rule watch_deferred_hands)
    show "hands V s m s1" if "?out = (r, m, s1, w1)" for r m s1 w1
      by (rule hands_parts [OF _ sendCurrent_hands(1) [OF that]]) simp_all
  qed
qed

lemma watch_select_hands:
  assumes "watch_select P fce V ctx ev sent watch (s, w) = (res, msg, s', w')"
  shows "hands V s msg s'"
proof -
  have quiet: "hands V s None s" for s
    by (simp add: hands_def)
  show ?thesis
  proof (cases ev)
    case (WatchDone err)
    with assms quiet show ?thesis by auto
  next
    case (WatchAvatar update)
    with assms quiet show ?thesis by (cases update) (auto dest: sendCurrent_hands(1))
  next
    case (WatchPermission b)
    show ?thesis
    proof (cases b)
      case True
      obtain avatar w1 where "dp_Avatar P w = (avatar, w1)"
        by force
      with WatchPermission True assms
      have "sendCurrent P fce V ctx sent (watch\<lparr>wa_avatar := avatar\<rparr>) (take_token (wa_sub watch) s, w1) = (res, msg, s', w')"
        by simp
      from hands_parts [OF _ sendCurrent_hands(1) [OF this]] show ?thesis
        by simp
    next
      case False
      with WatchPermission assms quiet show ?thesis by auto
    qed
  next
    case (WatchProviders update)
    with assms quiet show ?thesis by (cases update) (auto dest: sendCurrent_hands(1))
  qed
qed

lemma watch_step_hands:
  assumes "watch_step P fce V ctx ev sent watch (s, w) = (res, msg, s', w')"
  shows "hands V s msg s'"
  using assms unfolding watch_step_def by (rule watch_deferred_hands) (rule watch_select_hands)

lemma RejectInteraction_server: "fst (snd (RejectInteraction P fce ctx request (s, w))) = s"
  by (auto simp: RejectInteraction_def Let_def split: option.splits prod.splits)

text \<open>The log grows with what is handed out.\<close>

definition logs :: "(time \<Rightarrow> bool) \<Rightarrow> 'w desk \<Rightarrow> 'w desk \<Rightarrow> bool" where
  "logs V d d' =
     (\<exists>msg. hands V (de_server d) msg (de_server d') \<and>
        de_log d' = de_log d @ (case msg of None \<Rightarrow> [] | Some state \<Rightarrow> [(source_tuple (de_server d'), state)]))"

lemma logsI:
  "hands V (de_server d) msg s' \<Longrightarrow> de_server d' = s' \<Longrightarrow>
   de_log d' = de_log d @ (case msg of None \<Rightarrow> [] | Some state \<Rightarrow> [(source_tuple s', state)]) \<Longrightarrow> logs V d d'"
  by (auto simp: logs_def)

lemma handed_out_simps [simp]:
  "de_server (handed_out msg (s, w) d) = s" "de_world (handed_out msg (s, w) d) = w"
  "de_watches (handed_out msg (s, w) d) = de_watches d" "de_shown (handed_out msg (s, w) d) = de_shown d"
  "de_missed (handed_out msg (s, w) d) = de_missed d"
  "de_log (handed_out msg (s, w) d) =
     de_log d @ (case msg of None \<Rightarrow> [] | Some state \<Rightarrow> [(source_tuple s, state)])"
  by (simp_all add: handed_out_def)

lemma desk_step_logs: "desk_step P fce V perms op d = Some d' \<Longrightarrow> logs V d d'"
proof (cases op)
  case (DkGet ctx version)
  assume step: "desk_step P fce V perms op d = Some d'"
  obtain res s w where out: "GetState P fce V ctx version (de_server d, de_world d) = (res, s, w)"
    by (metis prod_cases3)
  with step DkGet show ?thesis
    by (intro logsI [OF GetState_hands(1) [OF out]]) (auto simp: answered_def)
next
  case (DkSet ctx request)
  assume step: "desk_step P fce V perms op d = Some d'"
  obtain res s w where out: "SetPermission P fce V ctx request (de_server d, de_world d) = (res, s, w)"
    by (metis prod_cases3)
  with step DkSet show ?thesis
    by (intro logsI [OF SetPermission_hands [OF out]]) (auto simp: answered_def)
next
  case (DkReject ctx request)
  assume step: "desk_step P fce V perms op d = Some d'"
  obtain res s w where out: "RejectInteraction P fce ctx request (de_server d, de_world d) = (res, s, w)"
    by (metis prod_cases3)
  moreover have "s = de_server d"
    using RejectInteraction_server [of P fce ctx request "de_server d" "de_world d"] out by simp
  ultimately show ?thesis
    using step DkReject by (intro logsI [of _ _ None]) (auto simp: hands_def)
next
  case (DkWatch ctx version avatar providers sent)
  assume step: "desk_step P fce V perms op d = Some d'"
  obtain res msg s w where
    out: "watch_begin P fce V ctx version avatar providers sent (de_server d, de_world d) = (res, msg, s, w)"
    by (metis prod_cases4)
  from out step DkWatch show ?thesis
    by (intro logsI [OF watch_begin_hands [OF out]]) (auto simp: watched_def Let_def split: if_splits)
next
  case (DkCase i ctx ev sent)
  assume step: "desk_step P fce V perms op d = Some d'"
  then obtain watch where watch: "de_watches d i = Some watch"
    using DkCase by (auto split: option.splits)
  obtain res msg s w where out: "watch_step P fce V ctx ev sent watch (de_server d, de_world d) = (res, msg, s, w)"
    by (metis prod_cases4)
  from out step DkCase watch show ?thesis
    by (intro logsI [OF watch_step_hands [OF out]]) (auto simp: watched_def split: if_splits)
next
  case (DkEnvironment w)
  assume step: "desk_step P fce V perms op d = Some d'"
  with DkEnvironment show ?thesis
    by (intro logsI [of _ _ None]) (auto simp: hands_def split: if_splits)
qed

text \<open>Each state follows the one before it: the same revision for the same sources, else the next one.\<close>

definition follows :: "(64 word \<times> 64 word \<times> 64 word) \<times> DesktopState \<Rightarrow> (64 word \<times> 64 word \<times> 64 word) \<times> DesktopState \<Rightarrow> bool" where
  "follows x y = (ds_Revision (snd y) = (if fst y = fst x then ds_Revision (snd x) else ds_Revision (snd x) + 1))"

definition log_ok :: "(time \<Rightarrow> bool) \<Rightarrow> 'w desk \<Rightarrow> bool" where
  "log_ok V d =
     ((\<forall>x \<in> set (de_log d). messages_ok V (snd x)) \<and> successively follows (de_log d) \<and>
      (if de_log d = [] then rev_part (de_server d) = (0, False, source_tuple (de_server d))
       else ds_Revision (snd (hd (de_log d))) = 1 \<and>
            rev_part (de_server d) = (ds_Revision (snd (last (de_log d))), True, fst (last (de_log d)))))"

lemma log_ok_logs:
  assumes "log_ok V d" "logs V d d'"
  shows "log_ok V d'"
proof -
  from assms(2) obtain msg where hands: "hands V (de_server d) msg (de_server d')"
    and log: "de_log d' = de_log d @ (case msg of None \<Rightarrow> [] | Some state \<Rightarrow> [(source_tuple (de_server d'), state)])"
    by (auto simp: logs_def)
  show ?thesis
  proof (cases msg)
    case None
    with hands log have "rev_part (de_server d') = rev_part (de_server d)" "de_log d' = de_log d"
      by (simp_all add: hands_def)
    moreover from this(1) have "source_tuple (de_server d') = source_tuple (de_server d)"
      by (simp add: rev_part_def)
    ultimately show ?thesis
      using assms(1) by (simp add: log_ok_def)
  next
    case (Some state)
    with hands obtain t where ok: "messages_ok V state" and t: "rev_part (de_server d') = next_rev (rev_part (de_server d)) t"
      and rev: "ds_Revision state = dk_revision (de_server d')"
      by (auto simp: hands_def)
    have log': "de_log d' = de_log d @ [(source_tuple (de_server d'), state)]"
      using log Some by simp
    have part: "rev_part (de_server d') = (ds_Revision state, True, source_tuple (de_server d')) \<and>
      (if de_log d = [] then ds_Revision state = 1 else follows (last (de_log d)) (source_tuple (de_server d'), state))"
      using t assms(1) rev by (cases "de_log d = []")
        (auto simp: log_ok_def rev_part_def follows_def split: if_splits)
    then show ?thesis
      using assms(1) ok unfolding log_ok_def log'
      by (auto simp: successively_append_iff split: if_splits)
  qed
qed

lemma log_ok_boot: "Desktop_NewServer subject present = Inr s0 \<Longrightarrow> log_ok V (desk_boot s0 w0)"
  by (auto simp: Desktop_NewServer_def log_ok_def desk_boot_def rev_part_def source_tuple_def Let_def split: if_splits)

lemma log_length: "logs V d d' \<Longrightarrow> length (de_log d') \<le> Suc (length (de_log d))"
  by (auto simp: logs_def split: option.splits)

lemma desk_steps_log:
  "desk_steps P fce V perms ops d = Some d' \<Longrightarrow> log_ok V d \<Longrightarrow>
   log_ok V d' \<and> length (de_log d') \<le> length (de_log d) + length ops"
proof (induction ops arbitrary: d)
  case (Cons op ops)
  from Cons.prems(1) obtain d1 where step: "desk_step P fce V perms op d = Some d1"
    and rest: "desk_steps P fce V perms ops d1 = Some d'"
    by (auto split: option.splits)
  from desk_step_logs [OF step] have logs: "logs V d d1" .
  from Cons.IH [OF rest log_ok_logs [OF Cons.prems(2) logs]] log_length [OF logs] show ?case
    by simp
qed simp

lemma follows_nth: "successively follows xs \<Longrightarrow> Suc i < length xs \<Longrightarrow> follows (xs ! i) (xs ! Suc i)"
  by (simp add: successively_conv_nth)

lemma log_revisions:
  assumes "log_ok V d" "length (de_log d) < 2 ^ 64"
  shows "i < length (de_log d) \<Longrightarrow> 1 \<le> unat (ds_Revision (snd (de_log d ! i))) \<and> unat (ds_Revision (snd (de_log d ! i))) \<le> Suc i"
proof (induction i)
  case 0
  then have "de_log d \<noteq> []"
    by auto
  with assms(1) show ?case
    by (simp add: log_ok_def hd_conv_nth split: if_splits)
next
  case (Suc i)
  let ?a = "ds_Revision (snd (de_log d ! i))" and ?b = "ds_Revision (snd (de_log d ! Suc i))"
  from Suc have a: "1 \<le> unat ?a" "unat ?a \<le> Suc i"
    by simp_all
  have "follows (de_log d ! i) (de_log d ! Suc i)"
    using assms(1) Suc.prems by (intro follows_nth) (simp_all add: log_ok_def)
  then have "?b = ?a \<or> ?b = ?a + 1"
    by (simp add: follows_def split: if_splits)
  moreover have "unat (?a + 1) = unat ?a + 1"
    using a(2) Suc.prems assms(2) by (subst unat_add_lem [THEN iffD1]) simp_all
  ultimately show ?case
    using a by auto
qed


section \<open>Watchers and permissions\<close>

text \<open>
  What the service relies on: its other ports leave the permissions alone, reading gives the permissions as
  they are, and a change that succeeds returns them as they are then. A change that fails may have happened.
\<close>

definition sees :: "privacy_Snapshot \<Rightarrow> DesktopState \<Rightarrow> bool" where
  "sees snap state = (map message_flag (ds_Permissions state) = shown_grants snap)"

text \<open>A watcher has a channel, and was shown the permissions as they are unless a token waits in it.\<close>

definition watcher_current :: "privacy_Snapshot \<Rightarrow> bool \<Rightarrow> (64 word \<times> bool) list \<Rightarrow> 64 word \<Rightarrow> DesktopState option \<Rightarrow> bool" where
  "watcher_current snap missed subs i shown =
     (map_of subs i = Some True \<or>
      map_of subs i = Some False \<and> (missed \<or> (\<exists>state. shown = Some state \<and> sees snap state)))"

definition watchers_current :: "('w \<Rightarrow> privacy_Snapshot) \<Rightarrow> 'w desk \<Rightarrow> bool" where
  "watchers_current perms d =
     (\<forall>i watch. de_watches d i = Some watch \<longrightarrow>
        wa_sub watch = i \<and>
        watcher_current (perms (de_world d)) (de_missed d) (dk_permissionSubs (de_server d)) i (de_shown d i))"

lemma watchers_currentI:
  "(\<And>i watch. de_watches d i = Some watch \<Longrightarrow> wa_sub watch = i \<and>
     watcher_current (perms (de_world d)) (de_missed d) (dk_permissionSubs (de_server d)) i (de_shown d i)) \<Longrightarrow>
   watchers_current perms d"
  by (simp add: watchers_current_def)

lemma watchers_currentD:
  "watchers_current perms d \<Longrightarrow> de_watches d i = Some watch \<Longrightarrow> wa_sub watch = i \<and>
     watcher_current (perms (de_world d)) (de_missed d) (dk_permissionSubs (de_server d)) i (de_shown d i)"
  by (simp add: watchers_current_def)

lemma notified_subs: "map_of (dk_permissionSubs (notifyPermissionSubscribers s)) i =
    map_option (\<lambda>token. True) (map_of (dk_permissionSubs s) i)"
proof -
  have "map_of (map (\<lambda>(i, token). (i, True)) xs) i = map_option (\<lambda>token. True) (map_of xs i)" for xs :: "(64 word \<times> bool) list"
    by (induction xs) auto
  then show ?thesis
    by (simp add: notifyPermissionSubscribers_def)
qed

locale permission_ports =
  fixes P :: "'w desktop_ports" and perms :: "'w \<Rightarrow> privacy_Snapshot"
  assumes avatar_keeps [simp]: "perms (snd (dp_Avatar P w)) = perms w"
    and providers_keep [simp]: "perms (snd (dp_Providers P w)) = perms w"
    and clock_keeps [simp]: "perms (snd (dp_Now P w)) = perms w"
    and controls_keep [simp]: "perms (snd (dp_SubmitControl P ctx command w)) = perms w"
    and reading_keeps [simp]: "perms (snd (dp_Permissions P ctx w)) = perms w"
    and reading: "fst (dp_Permissions P ctx w) = Inr snap \<Longrightarrow> snap = perms w"
    and changing: "dp_Change P ctx c w = (Inr snap, w') \<Longrightarrow> snap = perms w'"
begin

lemma currentState_perms:
  assumes "currentState P fce V ctx avatar known providers (s, w) = (res, s', w')"
  shows "perms w' = perms w"
proof -
  have "w' = (case known of None \<Rightarrow> snd (dp_Permissions P ctx w) | Some k \<Rightarrow> w)"
    using assms by (auto simp: currentState_def Let_def split: option.splits prod.splits sum.splits)
  then show ?thesis
    by (cases known) simp_all
qed

lemma GetState_perms: "GetState P fce V ctx version (s, w) = (res, s', w') \<Longrightarrow> perms w' = perms w"
proof -
  assume call: "GetState P fce V ctx version (s, w) = (res, s', w')"
  obtain avatar w1 where w1: "dp_Avatar P w = (avatar, w1)"
    by force
  obtain providers w2 where w2: "dp_Providers P w1 = (providers, w2)"
    by force
  have "perms w2 = perms w"
    using avatar_keeps [of w] providers_keep [of w1] w1 w2 by simp
  with call w1 w2 show "perms w' = perms w"
    by (auto simp: GetState_def Let_def split: option.splits dest!: currentState_perms)
qed

lemma SetPermission_perms:
  assumes "SetPermission P fce V ctx request (s, w) = (res, s', w')"
  shows "dk_permissionSubs s' = dk_permissionSubs s \<or> dk_permissionSubs s' = dk_permissionSubs (notifyPermissionSubscribers s)"
    "dk_permissionSubs s' \<noteq> dk_permissionSubs (notifyPermissionSubscribers s) \<Longrightarrow> s' = s"
  using assms by (cases rule: SetPermission_cases; auto dest: currentState_subs)+

lemma RejectInteraction_perms: "perms (snd (snd (RejectInteraction P fce ctx request (s, w)))) = perms w"
  using clock_keeps [of w] controls_keep [of ctx _ "snd (dp_Now P w)"]
  by (auto simp: RejectInteraction_def Let_def split: option.splits prod.splits) (metis clock_keeps controls_keep snd_conv)+

lemma sendCurrent_sees:
  assumes "sendCurrent P fce V ctx sent watch (s, w) = (res, msg, s', w')"
  shows "perms w' = perms w" "res = Inr watch' \<Longrightarrow> watch' = watch \<and> (\<exists>state. msg = Some state \<and> sees (perms w) state)"
proof -
  obtain out s1 w1 where out: "currentState P fce V ctx (wa_avatar watch) None (wa_providers watch) (s, w) = (out, s1, w1)"
    by (metis prod_cases3)
  from out assms have w': "w' = w1"
    by (auto simp: sendCurrent_def split: sum.splits option.splits)
  then show "perms w' = perms w"
    using currentState_perms [OF out] by simp
  assume "res = Inr watch'"
  with out assms obtain state where state: "out = Inr state" "msg = Some state" "watch' = watch"
    by (auto simp: sendCurrent_def split: sum.splits option.splits)
  from currentState_Inr [OF out [unfolded state(1)]] obtain snap where
    "dp_Permissions P ctx w = (Inr snap, w1)" "permissionsToWire V snap = Inr (ds_Permissions state)"
    by auto
  with reading [of ctx w snap] message_flags have "sees (perms w) state"
    by (simp add: sees_def)
  with state show "watch' = watch \<and> (\<exists>state. msg = Some state \<and> sees (perms w) state)"
    by blast
qed

text \<open>A watcher's turn: it is gone, or was sent the permissions as they are; the others keep their channels.\<close>

definition turn_ok ::
    "64 word \<Rightarrow> Desktop \<Rightarrow> 'w \<Rightarrow> (rpc_error + Watch) \<times> DesktopState option \<times> Desktop \<times> 'w \<Rightarrow> bool" where
  "turn_ok i s w = (\<lambda>(res, msg, s', w').
     perms w' = perms w \<and>
     (\<forall>j. j \<noteq> i \<longrightarrow> map_of (dk_permissionSubs s') j = map_of (dk_permissionSubs s) j) \<and>
     (\<forall>watch'. res = Inr watch' \<longrightarrow> wa_sub watch' = i \<and> map_of (dk_permissionSubs s') i \<noteq> None \<and>
        (\<exists>state. msg = Some state \<and> sees (perms w) state)))"

lemma turn_deferred:
  assumes "turn_ok i s w out"
  shows "turn_ok i s w (watch_deferred i out)"
proof -
  obtain res msg s' w' where out: "out = (res, msg, s', w')"
    by (metis prod_cases4)
  from assms show ?thesis
    by (auto simp: out turn_ok_def watch_deferred_def cancel_permissions_def delete_conv' split: sum.splits)
qed

lemma turn_send:
  assumes "perms w0 = perms w" "wa_sub watch = i" "map_of (dk_permissionSubs s0) i \<noteq> None"
    "\<And>j. j \<noteq> i \<Longrightarrow> map_of (dk_permissionSubs s0) j = map_of (dk_permissionSubs s) j"
  shows "turn_ok i s w (sendCurrent P fce V ctx sent watch (s0, w0))"
proof -
  obtain res msg s' w' where out: "sendCurrent P fce V ctx sent watch (s0, w0) = (res, msg, s', w')"
    by (metis prod_cases4)
  from assms sendCurrent_sees [OF out] sendCurrent_hands(2) [OF out] show ?thesis
    by (auto simp: out turn_ok_def)
qed

lemma turn_over: "perms w' = perms w \<Longrightarrow> turn_ok i s w (Inl err, msg, s, w')"
  by (simp add: turn_ok_def)

lemma turn_begin: "turn_ok (dk_nextSubID s) s w (watch_begin P fce V ctx version avatar providers sent (s, w))"
proof (cases "desktop_authorize P ctx = None \<and> validateProtocol version = None")
  case False
  then show ?thesis
    by (auto simp: watch_begin_def turn_over split: option.splits)
next
  case True
  obtain i s1 where sub: "subscribePermissions s = (i, s1)"
    by force
  then have i: "i = dk_nextSubID s" "dk_permissionSubs s1 = AList.update i False (dk_permissionSubs s)"
    by (auto simp: subscribePermissions_def Let_def)
  have "turn_ok i s w (sendCurrent P fce V ctx sent \<lparr>wa_avatar = avatar, wa_providers = providers, wa_sub = i\<rparr> (s1, w))"
    by (rule turn_send) (simp_all add: i update_conv')
  from turn_deferred [OF this] True sub i(1) show ?thesis
    by (simp add: watch_begin_def)
qed

lemma turn_select:
  assumes "wa_sub watch = i" "map_of (dk_permissionSubs s) i \<noteq> None"
  shows "turn_ok i s w (watch_select P fce V ctx ev sent watch (s, w))"
proof (cases ev)
  case (WatchAvatar update)
  with assms show ?thesis
    by (cases update) (auto intro: turn_over turn_send)
next
  case (WatchPermission b)
  obtain avatar w1 where w1: "dp_Avatar P w = (avatar, w1)"
    by force
  then have "perms w1 = perms w"
    using avatar_keeps [of w] by simp
  then have "turn_ok i s w (sendCurrent P fce V ctx sent (watch\<lparr>wa_avatar := avatar\<rparr>) (take_token (wa_sub watch) s, w1))"
    by (rule turn_send) (simp_all add: assms take_token_def update_conv')
  with WatchPermission w1 show ?thesis
    by (cases b) (simp_all add: turn_over)
next
  case (WatchProviders update)
  with assms show ?thesis
    by (cases update) (auto intro: turn_over turn_send)
qed (simp add: turn_over)

lemma turn_step:
  assumes "wa_sub watch = i" "map_of (dk_permissionSubs s) i \<noteq> None"
  shows "turn_ok i s w (watch_step P fce V ctx ev sent watch (s, w))"
  unfolding watch_step_def assms(1) by (rule turn_deferred [OF turn_select [OF assms]])

lemma watched_current:
  assumes "watchers_current perms d" "turn_ok i (de_server d) (de_world d) out"
  shows "watchers_current perms (watched i out d)"
proof -
  obtain res msg s w where out: "out = (res, msg, s, w)"
    by (metis prod_cases4)
  from assms(2) have perms: "perms w = perms (de_world d)"
    and others: "\<And>j. j \<noteq> i \<Longrightarrow> map_of (dk_permissionSubs s) j = map_of (dk_permissionSubs (de_server d)) j"
    and own: "\<And>watch'. res = Inr watch' \<Longrightarrow> wa_sub watch' = i \<and> map_of (dk_permissionSubs s) i \<noteq> None \<and>
      (\<exists>state. msg = Some state \<and> sees (perms (de_world d)) state)"
    by (auto simp: out turn_ok_def)
  show ?thesis
  proof (rule watchers_currentI)
    fix j watch
    assume watch: "de_watches (watched i out d) j = Some watch"
    show "wa_sub watch = j \<and> watcher_current (perms (de_world (watched i out d))) (de_missed (watched i out d))
        (dk_permissionSubs (de_server (watched i out d))) j (de_shown (watched i out d) j)"
    proof (cases "j = i")
      case True
      with watch have "res = Inr watch"
        by (auto simp: out watched_def split: sum.splits)
      from own [OF this] True perms show ?thesis
        by (auto simp: out watched_def watcher_current_def)
    next
      case False
      with watch have "de_watches d j = Some watch"
        by (simp add: out watched_def)
      from watchers_currentD [OF assms(1) this] False perms others [OF False] show ?thesis
        by (simp add: out watched_def watcher_current_def)
    qed
  qed
qed

lemma watchers_current_same:
  assumes "watchers_current perms d" "de_watches d' = de_watches d" "de_shown d' = de_shown d"
    "perms (de_world d') = perms (de_world d)" "dk_permissionSubs (de_server d') = dk_permissionSubs (de_server d)"
    "de_missed d \<Longrightarrow> de_missed d'"
  shows "watchers_current perms d'"
  using assms by (fastforce simp: watchers_current_def watcher_current_def)

lemma watchers_current_set:
  assumes "watchers_current perms d" "desk_step P fce V perms (DkSet ctx request) d = Some d'"
  shows "watchers_current perms d'"
proof -
  obtain res s w where out: "SetPermission P fce V ctx request (de_server d, de_world d) = (res, s, w)"
    by (metis prod_cases3)
  let ?notified = "dk_permissionSubs (notifyPermissionSubscribers (de_server d))"
  from out assms(2) have d': "de_watches d' = de_watches d" "de_shown d' = de_shown d" "de_world d' = w" "de_server d' = s"
    "de_missed d' = (de_missed d \<or> perms w \<noteq> perms (de_world d) \<and> dk_permissionSubs s \<noteq> ?notified)"
    by (auto simp: answered_def)
  show ?thesis
  proof (cases "dk_permissionSubs s = ?notified")
    case True
    show ?thesis
    proof (rule watchers_currentI)
      fix i watch
      assume "de_watches d' i = Some watch"
      then have "de_watches d i = Some watch"
        by (simp add: d')
      from watchers_currentD [OF assms(1) this] show "wa_sub watch = i \<and>
          watcher_current (perms (de_world d')) (de_missed d') (dk_permissionSubs (de_server d')) i (de_shown d' i)"
        by (auto simp: watcher_current_def d' True notified_subs)
    qed
  next
    case False
    with SetPermission_perms(2) [OF out] have s: "s = de_server d"
      by simp
    show ?thesis
    proof (cases "perms w = perms (de_world d)")
      case same: True
      show ?thesis
        by (rule watchers_current_same [OF assms(1)]) (use d' s same in auto)
    next
      case changed: False
      show ?thesis
        using assms(1) False changed by (fastforce simp: watchers_current_def watcher_current_def d' s)
    qed
  qed
qed

lemma desk_step_current:
  assumes "watchers_current perms d" "desk_step P fce V perms op d = Some d'"
  shows "watchers_current perms d'"
proof (cases op)
  case (DkGet ctx version)
  obtain res s w where out: "GetState P fce V ctx version (de_server d, de_world d) = (res, s, w)"
    by (metis prod_cases3)
  show ?thesis
    by (rule watchers_current_same [OF assms(1)])
      (use assms(2) out DkGet GetState_perms [OF out] GetState_hands(2) [OF out] in \<open>auto simp: answered_def\<close>)
next
  case (DkSet ctx request)
  with watchers_current_set assms show ?thesis
    by blast
next
  case (DkReject ctx request)
  obtain res s w where out: "RejectInteraction P fce ctx request (de_server d, de_world d) = (res, s, w)"
    by (metis prod_cases3)
  then have "s = de_server d" "perms w = perms (de_world d)"
    using RejectInteraction_server [of P fce ctx request "de_server d" "de_world d"]
      RejectInteraction_perms [of fce ctx request "de_server d" "de_world d"] by simp_all
  show ?thesis
    by (rule watchers_current_same [OF assms(1)])
      (use assms(2) out DkReject \<open>s = de_server d\<close> \<open>perms w = perms (de_world d)\<close> in auto)
next
  case (DkWatch ctx version avatar providers sent)
  with assms(2) have "d' = watched (dk_nextSubID (de_server d))
      (watch_begin P fce V ctx version avatar providers sent (de_server d, de_world d)) d"
    by (auto simp: Let_def split: if_splits)
  with watched_current [OF assms(1) turn_begin] show ?thesis
    by blast
next
  case (DkCase i ctx ev sent)
  with assms(2) obtain watch where watch: "de_watches d i = Some watch"
    and d': "d' = watched i (watch_step P fce V ctx ev sent watch (de_server d, de_world d)) d"
    by (auto split: option.splits if_splits)
  from watchers_currentD [OF assms(1) watch] have "wa_sub watch = i" "map_of (dk_permissionSubs (de_server d)) i \<noteq> None"
    by (auto simp: watcher_current_def)
  with watched_current [OF assms(1) turn_step] d' show ?thesis
    by blast
next
  case (DkEnvironment w)
  show ?thesis
    by (rule watchers_current_same [OF assms(1)]) (use assms(2) DkEnvironment in \<open>auto split: if_splits\<close>)
qed

lemma desk_steps_current:
  "desk_steps P fce V perms ops d = Some d' \<Longrightarrow> watchers_current perms d \<Longrightarrow> watchers_current perms d'"
  by (induction ops arbitrary: d) (auto split: option.splits dest: desk_step_current)

lemma run_watchers_current: "desk_steps P fce V perms ops (desk_boot s w) = Some d \<Longrightarrow> watchers_current perms d"
  by (erule desk_steps_current) (rule watchers_currentI, simp add: desk_boot_def)

end

end
