(* ===== verification/Supervisor_World.thy ===== *)
theory Supervisor_World
  imports Supervisor
begin

text \<open>
  Who owns the worker processes. The locale \<open>worker_world\<close> states what the supervisor relies on: only
  \<^verbatim>\<open>Start\<close> adds a live process, and once \<^verbatim>\<open>Done\<close> is ready the process is gone. Inside
  it: every live process is held by a controller, and stopping joins them all. Then the machine of the
  repository: the capability registry, the permission service over its repository, and the table of
  processes of \<^verbatim>\<open>exec.go\<close>, on which the locale is interpreted.
\<close>

section \<open>The contract\<close>

definition held :: "Supervisor \<Rightarrow> nat set" where
  "held s = {p. \<exists>c \<in> set (sup_controllers s). ct_process c = Some p}"

locale worker_world =
  fixes P :: "'w worker_ports" and alive :: "'w \<Rightarrow> nat set"
  assumes Now_alive: "alive (snd (wp_Now P w)) \<subseteq> alive w"
    and Start_alive: "alive (snd (wp_Start P spec w)) \<subseteq> alive w \<union> set_option (fst (wp_Start P spec w))"
    and Done_alive: "alive (snd (wp_Done P p w)) \<subseteq> alive w - (if fst (wp_Done P p w) then {p} else {})"
    and Signal_alive: "alive (wp_Signal P p w) \<subseteq> alive w"
    and DoneInTime_alive: "alive (snd (wp_DoneInTime P p timeout w)) \<subseteq>
          alive w - (if fst (wp_DoneInTime P p timeout w) then {p} else {})"
    and Kill_alive: "alive (wp_Kill P p w) \<subseteq> alive w"
    and Wait_alive: "alive (wp_Wait P p w) \<subseteq> alive w - {p}"
    and Revoke_alive: "alive (wp_Revoke P provider w) \<subseteq> alive w"
    and Current_alive: "alive (snd (wp_Current P w)) \<subseteq> alive w"
begin

definition owned :: "Supervisor \<times> 'w \<Rightarrow> bool" where
  "owned sw = (alive (snd sw) \<subseteq> held (fst sw))"

text \<open>The turn of a controller exchanges its own process at most.\<close>

definition exchanges :: "nat \<Rightarrow> Supervisor \<times> 'w \<Rightarrow> Supervisor \<times> 'w \<Rightarrow> bool" where
  "exchanges i sw sw' =
     (same_frame i (fst sw) (fst sw') \<and>
      alive (snd sw') \<subseteq> alive (snd sw) - set_option (ct_process (item (fst sw) i))
                         \<union> set_option (ct_process (item (fst sw') i)))"

text \<open>The laws on results.\<close>

lemma Done_result:
  "p \<in> alive (snd (wp_Done P q w)) \<Longrightarrow> p \<in> alive w \<and> (fst (wp_Done P q w) \<longrightarrow> p \<noteq> q)"
  using Done_alive [of q w] by (auto split: if_splits)

lemma DoneInTime_result:
  "wp_DoneInTime P q timeout w = (b, w') \<Longrightarrow> p \<in> alive w' \<Longrightarrow> p \<in> alive w \<and> (b \<longrightarrow> p \<noteq> q)"
  using DoneInTime_alive [of q timeout w] by (cases b) auto

lemma Start_result:
  "p \<in> alive (snd (wp_Start P spec w)) \<Longrightarrow> p \<in> alive w \<or> fst (wp_Start P spec w) = Some p"
  using Start_alive [of spec w] by auto

lemmas port_alive =
  Now_alive [THEN subsetD] Signal_alive [THEN subsetD] Kill_alive [THEN subsetD] Wait_alive [THEN subsetD]
  Revoke_alive [THEN subsetD] Current_alive [THEN subsetD]

lemma setRuntimeLocked_alive: "p \<in> alive (snd (setRuntimeLocked P i st re sw)) \<Longrightarrow> p \<in> alive (snd sw)"
  by (auto simp: setRuntimeLocked_def split_beta Let_def split: if_splits dest: port_alive)

lemma refreshLease_alive: "p \<in> alive (snd (refreshLeaseStateLocked P i sw)) \<Longrightarrow> p \<in> alive (snd sw)"
  by (auto simp: refreshLeaseStateLocked_def split_beta Let_def split: if_splits option.splits
      dest!: setRuntimeLocked_alive dest: port_alive)

lemma stopProcess_alive: "p \<in> alive (stopProcess P timeout q w) \<Longrightarrow> p \<in> alive w \<and> p \<noteq> q"
  by (auto simp: stopProcess_def split: prod.splits bool.splits
      dest!: Wait_alive [THEN subsetD] dest: DoneInTime_result port_alive)

lemma notice_exit_exchanges:
  assumes "i < length (sup_controllers (fst sw))"
  shows "exchanges i sw (notice_exit P i enabled sw)"
proof -
  have "p \<in> alive (snd sw) \<and> (ct_process (item (fst sw) i) = Some p \<longrightarrow>
      ct_process (item (fst (notice_exit P i enabled sw)) i) = Some p)"
    if "p \<in> alive (snd (notice_exit P i enabled sw))" for p
    using that assms
    by (auto simp: notice_exit_def split_beta Let_def change_item_item
        split: option.splits bool.splits prod.splits if_splits
        dest!: setRuntimeLocked_alive Revoke_alive [THEN subsetD] dest: Done_result)
  then show ?thesis
    by (auto simp: exchanges_def)
qed

lemma exchanges_trans: "exchanges i sw sw1 \<Longrightarrow> exchanges i sw1 sw2 \<Longrightarrow> exchanges i sw sw2"
  by (auto simp: exchanges_def same_frame_trans)

lemma stop_worker_exchanges:
  assumes "i < length (sup_controllers (fst sw))"
  shows "exchanges i sw (stop_worker P i sw)"
proof -
  have "p \<in> alive (snd sw) \<and> ct_process (item (fst sw) i) \<noteq> Some p"
    if "p \<in> alive (snd (stop_worker P i sw))" for p
    using that assms
    by (auto simp: stop_worker_def split_beta Let_def change_item_item split: option.splits if_splits
        dest!: setRuntimeLocked_alive Revoke_alive [THEN subsetD] stopProcess_alive)
  then show ?thesis
    by (auto simp: exchanges_def)
qed

lemma start_worker_exchanges:
  assumes "i < length (sup_controllers (fst sw))" "ct_process (item (fst sw) i) = None"
  shows "exchanges i sw (start_worker P i sw)"
proof -
  have "p \<in> alive (snd sw) \<or> ct_process (item (fst (start_worker P i sw)) i) = Some p"
    if "p \<in> alive (snd (start_worker P i sw))" for p
    using that assms
    by (auto simp: start_worker_def split_beta Let_def change_item_item split: option.splits
        dest!: setRuntimeLocked_alive refreshLease_alive Start_result)
  with assms(2) show ?thesis
    by (auto simp: exchanges_def)
qed

lemma reconcileOne_exchanges:
  assumes "i < length (sup_controllers (fst sw))"
  shows "exchanges i sw (reconcileOne P i enabled sw)"
proof -
  let ?sw1 = "notice_exit P i enabled sw"
  have "same_frame i (fst sw) (fst ?sw1)"
    by simp
  with assms have i: "i < length (sup_controllers (fst ?sw1))"
    by (simp add: same_frame_def)
  have "exchanges i ?sw1 ?sw1" "exchanges i ?sw1 (refreshLeaseStateLocked P i ?sw1)"
    by (auto simp: exchanges_def dest: refreshLease_alive)
  with i have "exchanges i ?sw1 (reconcileOne P i enabled sw)"
    by (cases ?sw1) (simp add: reconcileOne_def stop_worker_exchanges start_worker_exchanges split: option.split)
  with notice_exit_exchanges [OF assms] show ?thesis
    by (rule exchanges_trans)
qed

lemma stop_one_exchanges:
  assumes "i < length (sup_controllers (fst sw))"
  shows "exchanges i sw (stop_one P i sw)"
proof -
  have "p \<in> alive (snd sw) \<and> ct_process (item (fst sw) i) \<noteq> Some p"
    if "p \<in> alive (snd (stop_one P i sw))" for p
    using that assms
    by (auto simp: stop_one_def split_beta Let_def change_item_item split: option.splits if_splits
        dest!: setRuntimeLocked_alive Revoke_alive [THEN subsetD] stopProcess_alive)
  then show ?thesis
    by (auto simp: exchanges_def)
qed

lemma held_item: "p \<in> held s \<longleftrightarrow> (\<exists>i < length (sup_controllers s). ct_process (item s i) = Some p)"
  unfolding held_def by (auto simp: set_conv_nth)

lemma exchanges_owned:
  assumes "exchanges i sw sw'" "i < length (sup_controllers (fst sw))" "owned sw"
  shows "owned sw'"
proof -
  have "p \<in> held (fst sw')" if "p \<in> alive (snd sw')" for p
  proof (cases "ct_process (item (fst sw') i) = Some p")
    case True
    with assms show ?thesis
      by (auto simp: held_item exchanges_def same_frame_def)
  next
    case False
    with assms that obtain j where "j < length (sup_controllers (fst sw))" "ct_process (item (fst sw) j) = Some p" "j \<noteq> i"
      by (fastforce simp: exchanges_def owned_def held_item)
    with assms show ?thesis
      by (auto simp: held_item exchanges_def same_frame_def)
  qed
  then show ?thesis
    by (auto simp: owned_def)
qed

text \<open>Handlers keep the ownership.\<close>

lemma reconcileOne_owned:
  "owned sw \<Longrightarrow> i < length (sup_controllers (fst sw)) \<Longrightarrow> owned (reconcileOne P i enabled sw)"
  by (rule exchanges_owned [OF reconcileOne_exchanges])

lemma foldl_owned:
  assumes "\<And>i sw. i < length (sup_controllers (fst sw)) \<Longrightarrow> exchanges i sw (f i sw)" "owned sw"
    "set is \<subseteq> {..<length (sup_controllers (fst sw))}"
  shows "owned (foldl (\<lambda>sw i. f i sw) sw is)"
  using assms(2, 3)
proof (induction "is" arbitrary: sw)
  case (Cons i "is")
  then have i: "i < length (sup_controllers (fst sw))"
    by simp
  from assms(1) [OF i] have "length (sup_controllers (fst (f i sw))) = length (sup_controllers (fst sw))"
    by (simp add: exchanges_def same_frame_def)
  with Cons.prems Cons.IH [of "f i sw"] exchanges_owned [OF assms(1) [OF i] i] show ?case
    by simp
qed simp

lemma reconcile_each_owned:
  assumes "owned sw" "is = [0..<length (sup_controllers (fst sw))]"
  shows "owned (reconcile_each P permissions is sw)"
  unfolding reconcile_each_turns by (rule foldl_owned) (use assms in \<open>auto intro: reconcileOne_exchanges\<close>)

lemma stopAll_owned: "owned sw \<Longrightarrow> owned (stopAll P sw)"
  using foldl_owned [of "stop_one P" sw "[0..<length (sup_controllers (fst sw))]"] stop_one_exchanges
  by (cases sw) (auto simp: stopAll_def lessThan_atLeast0)

text \<open>After \<^verbatim>\<open>stopAll\<close> no process is left.\<close>

lemma stopAll_joins:
  assumes "owned sw"
  shows "alive (snd (stopAll P sw)) = {}"
proof -
  have "held (fst (stopAll P sw)) = {}"
    using stopAll_disabled [of _ sw P] stopAll_shape [of sw P]
    by (auto simp: held_item same_shape_def is_disabled_def)
  with stopAll_owned [OF assms] show ?thesis
    by (auto simp: owned_def)
qed

lemma owned_update:
  assumes "sup_controllers s' = sup_controllers s" "alive w' \<subseteq> alive w" "owned (s, w)"
  shows "owned (s', w')"
  using assms by (auto simp: owned_def held_def)

lemma reconcileAll_owned:
  assumes "owned sw"
  shows "owned (snd (reconcileAll P sw))"
proof -
  obtain s w where sw: "sw = (s, w)"
    by (cases sw)
  have "owned (s, snd (wp_Current P w))"
    by (rule owned_update [of s s]) (use assms sw in \<open>auto dest: port_alive\<close>)
  with sw show ?thesis
    by (auto simp: reconcileAll_def intro: reconcile_each_owned split: prod.split sum.split)
qed

lemma reconcilePermission_owned: "owned sw \<Longrightarrow> owned (reconcilePermission P permission enabled sw)"
  by (auto simp: reconcilePermission_def find_Some_iff intro: reconcileOne_owned split: prod.split option.split)

text \<open>One iteration of the loop; when the function returns, nothing is left alive.\<close>

definition joined :: "(goerror option) option \<times> Supervisor \<times> 'w \<Rightarrow> bool" where
  "joined out = (owned (snd out) \<and> (fst out \<noteq> None \<longrightarrow> alive (snd (snd out)) = {}))"

lemma reconcile_or_stop_joined: "owned sw \<Longrightarrow> joined (reconcile_or_stop P sw)"
  using reconcileAll_owned [of sw]
  by (auto simp: reconcile_or_stop_def joined_def stopAll_owned stopAll_joins split: prod.split option.split)

lemma loop_step_joined:
  assumes "owned sw" "loop_step P ev sw = Some out"
  shows "joined out"
proof -
  obtain s w where sw: "sw = (s, w)"
    by (cases sw)
  have upd: "owned (s', w)" if "sup_controllers s' = sup_controllers s" for s'
    using owned_update [OF that subset_refl] assms(1) sw by simp
  from assms(2) sw show ?thesis
    by (cases "(P, ev, (s, w))" rule: loop_step.cases)
      (auto simp: joined_def [of "(a, b)" for a b] stopAll_joins stopAll_owned upd setLeases_def
        intro!: reconcile_or_stop_joined reconcilePermission_owned assms(1) [unfolded sw]
        split: list.splits if_splits)
qed

lemma Run_start_joined:
  assumes "alive w = {}"
  shows "joined (Run_start P nilctx initial (s, w))"
proof -
  have none: "owned (s', w)" for s'
    using assms by (simp add: owned_def)
  have err: "alive w' = {}" if "reconcileAll P (s', w) = (Some e, s'', w')" for s' s'' w' e
    using that assms Current_alive [of w] by (auto simp: reconcileAll_def split: prod.splits sum.splits)
  show ?thesis
    using reconcileAll_owned [OF none, of "setLeases initial (s\<lparr>sup_started := True\<rparr>)"]
    by (auto simp: Run_start_def joined_def Let_def none assms split: prod.split option.split dest: err)
qed

end

section \<open>What the ports do not touch\<close>

text \<open>A part of the environment that no port changes is not changed by any handler.\<close>

locale worker_bystander =
  fixes P :: "'w worker_ports" and look :: "'w \<Rightarrow> 'x"
  assumes Now_look [simp]: "look (snd (wp_Now P w)) = look w"
    and Start_look [simp]: "look (snd (wp_Start P spec w)) = look w"
    and Done_look [simp]: "look (snd (wp_Done P p w)) = look w"
    and Signal_look [simp]: "look (wp_Signal P p w) = look w"
    and DoneInTime_look [simp]: "look (snd (wp_DoneInTime P p timeout w)) = look w"
    and Kill_look [simp]: "look (wp_Kill P p w) = look w"
    and Wait_look [simp]: "look (wp_Wait P p w) = look w"
    and Revoke_look [simp]: "look (wp_Revoke P provider w) = look w"
    and Current_look [simp]: "look (snd (wp_Current P w)) = look w"
begin

lemma setRuntimeLocked_look [simp]: "look (snd (setRuntimeLocked P i st re sw)) = look (snd sw)"
  by (simp add: setRuntimeLocked_def split_beta Let_def)

lemma refreshLease_look [simp]: "look (snd (refreshLeaseStateLocked P i sw)) = look (snd sw)"
  by (simp add: refreshLeaseStateLocked_def split_beta Let_def split: option.split)

lemma stopProcess_look [simp]: "look (stopProcess P timeout q w) = look w"
  using DoneInTime_look [of q timeout "wp_Signal P q w"]
  by (auto simp: stopProcess_def simp del: DoneInTime_look split: prod.split bool.split)

lemma notice_exit_look [simp]: "look (snd (notice_exit P i enabled sw)) = look (snd sw)"
  by (simp add: notice_exit_def case_prod_beta' Let_def split: option.split bool.split)

lemma stop_worker_look [simp]: "look (snd (stop_worker P i sw)) = look (snd sw)"
  by (simp add: stop_worker_def split_beta Let_def split: option.split)

lemma start_worker_look [simp]: "look (snd (start_worker P i sw)) = look (snd sw)"
  by (simp add: start_worker_def case_prod_beta' Let_def split: option.split)

lemma reconcileOne_look [simp]: "look (snd (reconcileOne P i enabled sw)) = look (snd sw)"
  by (simp add: reconcileOne_def case_prod_beta' Let_def split: option.split)

lemma stop_one_look [simp]: "look (snd (stop_one P i sw)) = look (snd sw)"
  by (simp add: stop_one_def split_beta Let_def split: option.split)

lemma stopAll_look [simp]: "look (snd (stopAll P sw)) = look (snd sw)"
  by (rule stopAll_preserves) simp_all

lemma reconcile_each_look [simp]: "look (snd (reconcile_each P permissions is sw)) = look (snd sw)"
  by (rule reconcile_each_preserves) simp_all

lemma reconcileAll_look [simp]: "look (snd (snd (reconcileAll P sw))) = look (snd sw)"
proof -
  obtain s w where "sw = (s, w)"
    by (cases sw)
  with Current_look [of w] show ?thesis
    by (auto simp: reconcileAll_def simp del: Current_look split: prod.split sum.split)
qed

lemma reconcile_or_stop_look [simp]: "look (snd (snd (reconcile_or_stop P sw))) = look (snd sw)"
  using reconcileAll_look [of sw]
  by (auto simp: reconcile_or_stop_def simp del: reconcileAll_look split: prod.split option.split)

lemma reconcilePermission_look [simp]: "look (snd (reconcilePermission P k enabled sw)) = look (snd sw)"
  by (simp add: reconcilePermission_def split_beta split: option.split)

lemma loop_step_look: "loop_step P ev sw = Some out \<Longrightarrow> look (snd (snd out)) = look (snd sw)"
  by (cases "(P, ev, sw)" rule: loop_step.cases)
    (auto simp: reconcilePermission_def split: list.splits if_splits option.splits)

lemma Run_start_look: "look (snd (snd (Run_start P nilctx initial sw))) = look (snd sw)"
proof -
  obtain s w where sw: "sw = (s, w)"
    by (cases sw)
  show ?thesis
    using reconcileAll_look [of "(setLeases initial (s\<lparr>sup_started := True\<rparr>), w)"]
    by (auto simp: sw Run_start_def Let_def simp del: reconcileAll_look split: prod.split option.split)
qed

end

section \<open>Invariants of the supervisor\<close>

text \<open>What the turns of the controllers and the loop's own updates keep, the handlers keep.\<close>

locale turn_invariant =
  fixes P :: "'w worker_ports" and I :: "Supervisor \<Rightarrow> bool"
  assumes reconcileOne_I: "I (fst sw) \<Longrightarrow> I (fst (reconcileOne P i enabled sw))"
    and stop_one_I: "I (fst sw) \<Longrightarrow> I (fst (stop_one P i sw))"
    and update_I: "I s \<Longrightarrow> sup_controllers s' = sup_controllers s \<Longrightarrow> sup_revision s' = sup_revision s \<Longrightarrow>
          sup_subs s' = sup_subs s \<Longrightarrow> I s'"
begin

lemma stopAll_I: "I (fst sw) \<Longrightarrow> I (fst (stopAll P sw))"
  by (rule stopAll_preserves [of "\<lambda>sw. I (fst sw)"]) (simp_all add: stop_one_I)

lemma reconcileAll_I: "I (fst sw) \<Longrightarrow> I (fst (snd (reconcileAll P sw)))"
  by (cases sw)
    (auto simp: reconcileAll_def reconcileOne_I split: prod.split sum.split
      intro!: reconcile_each_preserves [of "\<lambda>sw. I (fst sw)"])

lemma reconcile_or_stop_I: "I (fst sw) \<Longrightarrow> I (fst (snd (reconcile_or_stop P sw)))"
  using reconcileAll_I [of sw]
  by (auto simp: reconcile_or_stop_def stopAll_I split: prod.split option.split)

lemma loop_step_I:
  assumes "loop_step P ev sw = Some out" "I (fst sw)"
  shows "I (fst (snd out))"
proof -
  have upd: "I (s\<lparr>sup_changes := cs\<rparr>)" "I (s\<lparr>sup_processes := b\<rparr>)" "I (setLeases ls s)" if "I s" for s cs b ls
    using that by (auto intro: update_I simp: setLeases_def)
  from assms show ?thesis
    by (cases "(P, ev, sw)" rule: loop_step.cases)
      (auto simp: reconcilePermission_def upd reconcileOne_I stopAll_I split: list.splits if_splits option.splits
        intro!: reconcile_or_stop_I)
qed

lemma Run_start_I:
  assumes "I s"
  shows "I (fst (snd (Run_start P nilctx initial (s, w))))"
proof -
  have "I (setLeases initial (s\<lparr>sup_started := True\<rparr>))"
    using assms by (auto intro: update_I simp: setLeases_def)
  then show ?thesis
    using assms reconcileAll_I [of "(setLeases initial (s\<lparr>sup_started := True\<rparr>), w)"]
    by (auto simp: Run_start_def Let_def split: prod.split option.split)
qed

end

end
