(* ===== verification/Supervisor_System.thy ===== *)
theory Supervisor_System
  imports Supervisor_World
begin

text \<open>
  The supervisor with what the desktop gives it: the capability registry as its lease source, the
  permission service over a repository \<open>R\<close>, and a table of processes as \<^verbatim>\<open>exec.go\<close> makes
  them. A run is a list of events: changes of permissions by concurrent callers, the cases of the loop,
  processes that exit, the requests of the providers, the clock, the subscribers of the runtime view.
\<close>

section \<open>The machine\<close>

text \<open>
  A started process gets a fresh number. The two lists are the outcomes of the next starts and of the
  next stops (whether the process exits within the stop timeout); an exhausted list means success.
\<close>

record process_table =
  pt_running :: "nat list"
  pt_next :: nat
  pt_starts :: "bool list"
  pt_graceful :: "bool list"

record 'v machine =
  ma_now :: time
  ma_ctx :: privacy_ctx
  ma_registry :: Registry
  ma_service :: Service
  ma_store :: 'v
  ma_table :: process_table

definition end_process :: "nat \<Rightarrow> 'v machine \<Rightarrow> 'v machine" where
  "end_process p m =
     m\<lparr>ma_table := (ma_table m)\<lparr>pt_running := removeAll p (pt_running (ma_table m))\<rparr>\<rparr>"

definition launch :: "Spec \<Rightarrow> 'v machine \<Rightarrow> nat option \<times> 'v machine" where
  "launch spec m =
     (let t = ma_table m; rest = tl (pt_starts t)
      in if pt_starts t = [] \<or> hd (pt_starts t)
         then (Some (pt_next t),
               m\<lparr>ma_table := t\<lparr>pt_running := pt_next t # pt_running t, pt_next := Suc (pt_next t), pt_starts := rest\<rparr>\<rparr>)
         else (None, m\<lparr>ma_table := t\<lparr>pt_starts := rest\<rparr>\<rparr>))"

definition exits_in_time :: "nat \<Rightarrow> duration \<Rightarrow> 'v machine \<Rightarrow> bool \<times> 'v machine" where
  "exits_in_time p timeout m =
     (let t = ma_table m; m1 = m\<lparr>ma_table := t\<lparr>pt_graceful := tl (pt_graceful t)\<rparr>\<rparr>
      in if p \<notin> set (pt_running t) then (True, m)
         else if pt_graceful t = [] \<or> hd (pt_graceful t) then (True, end_process p m1)
         else (False, m1))"

definition machine_ports :: "'v machine worker_ports" where
  "machine_ports =
     \<lparr>wp_Now = (\<lambda>m. (ma_now m, m)),
      wp_Start = launch,
      wp_Done = (\<lambda>p m. (p \<notin> set (pt_running (ma_table m)), m)),
      wp_Signal = (\<lambda>p m. m),
      wp_DoneInTime = exits_in_time,
      wp_Kill = (\<lambda>p m. m),
      wp_Wait = end_process,
      wp_Revoke = (\<lambda>provider m. m\<lparr>ma_registry := snd (RevokeProvider provider (ma_registry m))\<rparr>),
      wp_Current = (\<lambda>m. (Service_Current (ma_service m) (ma_ctx m), m))\<rparr>"

definition alive :: "'v machine \<Rightarrow> nat set" where
  "alive m = set (pt_running (ma_table m))"

lemma machine_ports_simps [simp]:
  "wp_Now machine_ports m = (ma_now m, m)"
  "wp_Start machine_ports = launch"
  "wp_Done machine_ports p m = (p \<notin> alive m, m)"
  "wp_Signal machine_ports p m = m"
  "wp_DoneInTime machine_ports = exits_in_time"
  "wp_Kill machine_ports p m = m"
  "wp_Wait machine_ports = end_process"
  "wp_Revoke machine_ports provider m = m\<lparr>ma_registry := snd (RevokeProvider provider (ma_registry m))\<rparr>"
  "wp_Current machine_ports m = (Service_Current (ma_service m) (ma_ctx m), m)"
  by (simp_all add: machine_ports_def alive_def)

lemma alive_update [simp]:
  "alive (m\<lparr>ma_now := t\<rparr>) = alive m" "alive (m\<lparr>ma_ctx := c\<rparr>) = alive m"
  "alive (m\<lparr>ma_registry := r\<rparr>) = alive m" "alive (m\<lparr>ma_service := s\<rparr>) = alive m"
  "alive (m\<lparr>ma_store := v\<rparr>) = alive m" "alive (end_process p m) = alive m - {p}"
  by (auto simp: alive_def end_process_def)

lemma end_process_simps [simp]:
  "ma_service (end_process p m) = ma_service m" "ma_registry (end_process p m) = ma_registry m"
  "ma_now (end_process p m) = ma_now m" "ma_ctx (end_process p m) = ma_ctx m"
  by (simp_all add: end_process_def)

interpretation workers: worker_world machine_ports alive
proof
  show "alive (snd (wp_Start machine_ports spec m)) \<subseteq> alive m \<union> set_option (fst (wp_Start machine_ports spec m))"
    for m :: "'v machine" and spec
    by (auto simp: launch_def alive_def Let_def)
  show "alive (snd (wp_DoneInTime machine_ports p timeout m)) \<subseteq>
      alive m - (if fst (wp_DoneInTime machine_ports p timeout m) then {p} else {})" for m :: "'v machine" and p timeout
    by (auto simp: exits_in_time_def alive_def end_process_def Let_def)
qed auto

section \<open>The system\<close>

datatype phase = Idle | Looping "64 word" | Returned "goerror option"

record 'v system =
  sy_sup :: Supervisor
  sy_machine :: "'v machine"
  sy_inflight :: "ChangePermission list"
  sy_phase :: phase
  sy_views :: "64 word \<rightharpoonup> provider_Snapshot"

datatype system_op =
    DoChange privacy_ctx ChangePermission
  | DoSend nat "goerror option"
  | DoRun bool
  | DoLoop loop_case
  | DoLeases
  | DoCancel goerror
  | DoExit nat
  | DoWatch nat
  | DoClock time
  | DoRegistry registry_op
  | DoSubscribe
  | DoUnsubscribe "64 word"
  | DoReceive "64 word"

text \<open>\<^verbatim>\<open>Run\<close> continues or returns; its deferred calls give the lease subscription back.\<close>

definition run_on :: "64 word \<Rightarrow> (goerror option) option \<times> Supervisor \<times> 'v machine \<Rightarrow> 'v system \<Rightarrow> 'v system" where
  "run_on sub = (\<lambda>(res, s, m) y.
     case res of
       None \<Rightarrow> y\<lparr>sy_sup := s, sy_machine := m, sy_phase := Looping sub\<rparr>
     | Some err \<Rightarrow>
         y\<lparr>sy_sup := s, sy_machine := m\<lparr>ma_registry := cancel_subscription sub (ma_registry m)\<rparr>,
           sy_phase := Returned err\<rparr>)"

text \<open>
  \<^verbatim>\<open>Change\<close> in two steps: the change that was persisted waits in \<open>sy_inflight\<close> to be sent.
\<close>

definition do_change :: "'v Repository \<Rightarrow> privacy_ctx \<Rightarrow> ChangePermission \<Rightarrow> 'v system \<Rightarrow> 'v system option" where
  "do_change R ctx c y =
     (let m = sy_machine y in
      case Service_Change R (ma_service m) ctx c (ma_store m) of
        None \<Rightarrow> None
      | Some (res, srv, v) \<Rightarrow>
          let y1 = y\<lparr>sy_machine := m\<lparr>ma_service := srv, ma_store := v\<rparr>\<rparr>
          in Some (case res of
              Inl err \<Rightarrow> y1
            | Inr snapshot \<Rightarrow> y1\<lparr>sy_inflight := sy_inflight y1 @ [c]\<rparr>))"

definition do_send :: "nat \<Rightarrow> goerror option \<Rightarrow> 'v system \<Rightarrow> 'v system option" where
  "do_send i ctxErr y =
     (if length (sy_inflight y) \<le> i then None
      else case send_change (sy_inflight y ! i) ctxErr (sy_sup y) of
          None \<Rightarrow> None
        | Some (res, s) \<Rightarrow>
            Some (y\<lparr>sy_sup := s, sy_inflight := take i (sy_inflight y) @ drop (Suc i) (sy_inflight y)\<rparr>))"

definition do_run :: "bool \<Rightarrow> 'v system \<Rightarrow> 'v system option" where
  "do_run nilctx y =
     (case sy_phase y of
        Idle \<Rightarrow>
          if nilctx then Some y
          else (case Subscribe (ma_registry (sy_machine y)) of
              ((initial, sub), r) \<Rightarrow>
                Some (run_on sub (Run_start machine_ports nilctx initial
                                    (sy_sup y, (sy_machine y)\<lparr>ma_registry := r\<rparr>)) y))
      | _ \<Rightarrow> Some y)"

fun own_subscription :: "phase \<Rightarrow> registry_op \<Rightarrow> bool" where
  "own_subscription (Looping sub) (OpCancel i) = (i = sub)"
| "own_subscription (Looping sub) (OpReceive i) = (i = sub)"
| "own_subscription _ _ = False"

text \<open>The cases but the lease updates; the loop itself looks whether its channels are ready.\<close>

fun case_ready :: "privacy_ctx \<Rightarrow> loop_case \<Rightarrow> bool" where
  "case_ready ctx ContextDone = (ctx \<noteq> Live)"
| "case_ready ctx (LeaseUpdate ls) = False"
| "case_ready ctx ev = True"

fun system_step ::
    "(goerror \<Rightarrow> rpc_error) \<Rightarrow> 'v Repository \<Rightarrow> system_op \<Rightarrow> 'v system \<Rightarrow> 'v system option" where
  "system_step fce R (DoChange ctx c) y = do_change R ctx c y"
| "system_step fce R (DoSend i ctxErr) y = do_send i ctxErr y"
| "system_step fce R (DoRun nilctx) y = do_run nilctx y"
| "system_step fce R (DoLoop ev) y =
     (case sy_phase y of
        Looping sub \<Rightarrow>
          if \<not> case_ready (ma_ctx (sy_machine y)) ev then None
          else map_option (\<lambda>out. run_on sub out y) (loop_step machine_ports ev (sy_sup y, sy_machine y))
      | _ \<Rightarrow> None)"
| "system_step fce R DoLeases y =
     (case sy_phase y of
        Looping sub \<Rightarrow>
          (case receive_update sub (ma_registry (sy_machine y)) of
             None \<Rightarrow> None
           | Some (snapshots, r) \<Rightarrow>
               map_option (\<lambda>out. run_on sub out y)
                 (loop_step machine_ports (LeaseUpdate (Some snapshots))
                    (sy_sup y, (sy_machine y)\<lparr>ma_registry := r\<rparr>)))
      | _ \<Rightarrow> None)"
| "system_step fce R (DoCancel err) y = Some (y\<lparr>sy_machine := (sy_machine y)\<lparr>ma_ctx := Done err\<rparr>\<rparr>)"
| "system_step fce R (DoExit p) y = Some (y\<lparr>sy_machine := end_process p (sy_machine y)\<rparr>)"
| "system_step fce R (DoWatch p) y =
     (if p \<in> alive (sy_machine y) then None else Some (y\<lparr>sy_sup := signal_process (sy_sup y)\<rparr>))"
| "system_step fce R (DoClock t) y = Some (y\<lparr>sy_machine := (sy_machine y)\<lparr>ma_now := t\<rparr>\<rparr>)"
| "system_step fce R (DoRegistry op) y =
     (if own_subscription (sy_phase y) op then None
      else map_option (\<lambda>(r, view). y\<lparr>sy_machine := (sy_machine y)\<lparr>ma_registry := r\<rparr>\<rparr>)
             (registry_step fce op (ma_registry (sy_machine y), Map.empty)))"
| "system_step fce R DoSubscribe y =
     (case SubscribeProviderRuntime (sy_sup y) of
        ((initial, i), s) \<Rightarrow> Some (y\<lparr>sy_sup := s, sy_views := (sy_views y)(i \<mapsto> initial)\<rparr>))"
| "system_step fce R (DoUnsubscribe i) y = Some (y\<lparr>sy_sup := cancel_runtime i (sy_sup y)\<rparr>)"
| "system_step fce R (DoReceive i) y =
     map_option (\<lambda>(v, s). y\<lparr>sy_sup := s, sy_views := (sy_views y)(i \<mapsto> v)\<rparr>) (receive_runtime i (sy_sup y))"

fun system_steps ::
    "(goerror \<Rightarrow> rpc_error) \<Rightarrow> 'v Repository \<Rightarrow> system_op list \<Rightarrow> 'v system \<Rightarrow> 'v system option" where
  "system_steps fce R [] y = Some y"
| "system_steps fce R (op # ops) y =
     (case system_step fce R op y of None \<Rightarrow> None | Some y' \<Rightarrow> system_steps fce R ops y')"

definition boot :: "Supervisor \<Rightarrow> 'v machine \<Rightarrow> 'v system" where
  "boot s m = \<lparr>sy_sup = s, sy_machine = m, sy_inflight = [], sy_phase = Idle, sy_views = Map.empty\<rparr>"

section \<open>What the machine keeps\<close>

interpretation turns_ok: turn_invariant P supervisor_ok for P :: "'v worker_ports"
proof
  show "supervisor_ok s'" if "supervisor_ok s" "sup_controllers s' = sup_controllers s" for s s'
    using that by (simp add: supervisor_ok_def)
qed (simp_all add: reconcileOne_supervisor_ok stop_one_supervisor_ok)

interpretation turns_view: turn_invariant P "views_current view" for P :: "'v worker_ports" and view
proof
  show "views_current view s'" if "views_current view s" "sup_controllers s' = sup_controllers s"
    "sup_revision s' = sup_revision s" "sup_subs s' = sup_subs s" for s s'
    using that by (simp add: views_current_def snapshotRuntime_def)
qed (simp_all add: views_current_reconcileOne views_current_stop_one)

definition has_specs :: "Spec list \<Rightarrow> Supervisor \<Rightarrow> bool" where
  "has_specs specs s = (map ct_spec (sup_controllers s) = specs)"

lemma has_specs_shape: "same_shape s s' \<Longrightarrow> has_specs specs s \<Longrightarrow> has_specs specs s'"
  by (simp add: has_specs_def same_shape_def)

interpretation turns_specs: turn_invariant P "has_specs specs" for P :: "'v worker_ports" and specs
  by unfold_locales
    (auto simp: has_specs_def intro: has_specs_shape [unfolded has_specs_def] same_shape_frame
      reconcileOne_frame [THEN iffD2] stop_one_frame [THEN iffD2] same_frame_refl)

text \<open>The permissions, their repository and the context of \<^verbatim>\<open>Run\<close> are not touched by the handlers.\<close>

definition settings :: "'v machine \<Rightarrow> Service \<times> privacy_ctx \<times> 'v" where
  "settings m = (ma_service m, ma_ctx m, ma_store m)"

interpretation settings: worker_bystander machine_ports settings
  by unfold_locales
    (simp_all add: settings_def launch_def exits_in_time_def end_process_def Let_def)

section \<open>The invariant\<close>

definition process_state :: "phase \<Rightarrow> Supervisor \<times> 'v machine \<Rightarrow> bool" where
  "process_state ph sw =
     (case ph of Looping sub \<Rightarrow> workers.owned sw | _ \<Rightarrow> alive (snd sw) = {})"

definition system_ok :: "Spec list \<Rightarrow> 'v system \<Rightarrow> bool" where
  "system_ok specs y =
     (supervisor_ok (sy_sup y) \<and> has_specs specs (sy_sup y) \<and> views_current (sy_views y) (sy_sup y) \<and>
      canonical (srv_current (ma_service (sy_machine y))) \<and>
      process_state (sy_phase y) (sy_sup y, sy_machine y))"

lemma run_on_ok:
  assumes "supervisor_ok s" "has_specs specs s" "views_current (sy_views y) s"
    "settings m = settings (sy_machine y)" "workers.joined (res, s, m)" "system_ok specs y"
  shows "system_ok specs (run_on sub (res, s, m) y)"
  using assms
  by (auto simp: system_ok_def run_on_def process_state_def workers.joined_def settings_def split: option.split)

lemma loop_step_ok:
  assumes "loop_step machine_ports ev (sy_sup y, m) = Some out" "system_ok specs y" "sy_phase y = Looping sub"
    "settings m = settings (sy_machine y)" "alive m = alive (sy_machine y)"
  shows "system_ok specs (run_on sub out y)"
proof -
  obtain res s m' where out: "out = (res, s, m')"
    by (cases out)
  have "workers.owned (sy_sup y, m)"
    using assms(2,3,5) by (simp add: system_ok_def process_state_def workers.owned_def)
  from workers.loop_step_joined [OF this assms(1)] have joined: "workers.joined out" .
  have "settings m' = settings (sy_machine y)"
    using settings.loop_step_look [OF assms(1)] assms(4) out by simp
  moreover have "supervisor_ok s" "has_specs specs s" "views_current (sy_views y) s"
    using turns_ok.loop_step_I [OF assms(1)] turns_specs.loop_step_I [OF assms(1)]
      turns_view.loop_step_I [OF assms(1)] assms(2) out by (simp_all add: system_ok_def)
  ultimately show ?thesis
    using joined assms(2) unfolding out by (intro run_on_ok) simp_all
qed

lemma do_run_ok:
  assumes "do_run nilctx y = Some y'" "system_ok specs y"
  shows "system_ok specs y'"
proof (cases "sy_phase y = Idle \<and> \<not> nilctx")
  case False
  with assms show ?thesis
    by (auto simp: do_run_def split: phase.splits if_splits)
next
  case True
  obtain initial sub r where sub: "Subscribe (ma_registry (sy_machine y)) = ((initial, sub), r)"
    by (metis prod.exhaust)
  let ?m = "(sy_machine y)\<lparr>ma_registry := r\<rparr>"
  obtain res s m where out: "Run_start machine_ports nilctx initial (sy_sup y, ?m) = (res, s, m)"
    by (metis prod.exhaust)
  from True sub out assms(1) have y': "y' = run_on sub (res, s, m) y"
    by (simp add: do_run_def)
  have "alive ?m = {}"
    using True assms(2) by (simp add: system_ok_def process_state_def)
  from workers.Run_start_joined [OF this, of nilctx initial "sy_sup y"]
  have "workers.joined (res, s, m)"
    by (simp add: out)
  moreover have "settings m = settings (sy_machine y)"
    using settings.Run_start_look [of nilctx initial "(sy_sup y, ?m)"] out by (simp add: settings_def)
  moreover have "supervisor_ok s" "has_specs specs s" "views_current (sy_views y) s"
    using turns_ok.Run_start_I [of "sy_sup y" machine_ports nilctx initial ?m]
      turns_specs.Run_start_I [of specs "sy_sup y" machine_ports nilctx initial ?m]
      turns_view.Run_start_I [of "sy_views y" "sy_sup y" machine_ports nilctx initial ?m] assms(2) out
    by (simp_all add: system_ok_def)
  ultimately show ?thesis
    unfolding y' using assms(2) by (intro run_on_ok)
qed

lemma do_change_ok:
  assumes "do_change R ctx c y = Some y'" "system_ok specs y"
  shows "system_ok specs y'"
proof -
  have "canonical (srv_current (ma_service (sy_machine y)))"
    using assms(2) by (simp add: system_ok_def)
  from Service_Change_ok [OF this, of R ctx c "ma_store (sy_machine y)"] obtain res srv v where
    "Service_Change R (ma_service (sy_machine y)) ctx c (ma_store (sy_machine y)) = Some (res, srv, v)"
    "canonical (srv_current srv)" by blast
  with assms show ?thesis
    by (cases res)
      (auto simp: do_change_def Let_def system_ok_def process_state_def workers.owned_def split: phase.splits)
qed

text \<open>Steps outside of the loop.\<close>

lemma system_ok_update:
  assumes "system_ok specs y" "sup_controllers s = sup_controllers (sy_sup y)" "views_current view s"
    "alive m \<subseteq> alive (sy_machine y)" "ma_service m = ma_service (sy_machine y)"
  shows "system_ok specs (y\<lparr>sy_sup := s, sy_machine := m, sy_inflight := cs, sy_views := view\<rparr>)"
  using assms
  by (auto simp: system_ok_def supervisor_ok_def has_specs_def process_state_def workers.owned_def held_def
      split: phase.splits)

lemma subscriber_views:
  assumes "views_current view s"
  shows "SubscribeProviderRuntime s = ((initial, i), s') \<Longrightarrow> views_current (view(i \<mapsto> initial)) s'"
    and "receive_runtime i s = Some (v, s'') \<Longrightarrow> views_current (view(i \<mapsto> v)) s''"
    and "views_current view (cancel_runtime i s)"
proof -
  have same: "snapshotRuntime (s\<lparr>sup_subs := subs\<rparr>) = snapshotRuntime s"
    "snapshotRuntime (s\<lparr>sup_subs := subs, sup_nextSubID := n\<rparr>) = snapshotRuntime s" for subs n
    by (simp_all add: snapshotRuntime_def)
  show "SubscribeProviderRuntime s = ((initial, i), s') \<Longrightarrow> views_current (view(i \<mapsto> initial)) s'"
    using assms
    by (auto simp: views_current_def SubscribeProviderRuntime_def same update_conv' Let_def split: if_splits)
  show "views_current view (cancel_runtime i s)"
    using assms by (auto simp: views_current_def cancel_runtime_def same delete_conv' split: if_splits)
  assume "receive_runtime i s = Some (v, s'')"
  then have "map_of (sup_subs s) i = Some (Some v)" and s'': "s'' = s\<lparr>sup_subs := AList.update i None (sup_subs s)\<rparr>"
    by (auto simp: receive_runtime_def split: option.splits)
  with assms have "v = snapshotRuntime s"
    by (simp add: views_current_def)
  with assms s'' show "views_current (view(i \<mapsto> v)) s''"
    by (auto simp: views_current_def same update_conv' split: if_splits)
qed

lemma subscriber_controllers:
  "SubscribeProviderRuntime s = ((initial, i), s') \<Longrightarrow> sup_controllers s' = sup_controllers s"
  "receive_runtime i s = Some (v, s') \<Longrightarrow> sup_controllers s' = sup_controllers s"
  "sup_controllers (cancel_runtime i s) = sup_controllers s"
  by (auto simp: SubscribeProviderRuntime_def receive_runtime_def cancel_runtime_def Let_def
      split: option.splits)

lemma system_step_ok:
  assumes "system_step fce R op y = Some y'" "system_ok specs y"
  shows "system_ok specs y'"
proof -
  note upd = system_ok_update [OF assms(2), of "sy_sup y" "sy_views y" _ "sy_inflight y", simplified]
  have views: "views_current (sy_views y) (sy_sup y)"
    using assms(2) by (simp add: system_ok_def)
  show ?thesis
  proof (cases op)
    case (DoSend i ctxErr)
    with assms(1) obtain res s where s: "send_change (sy_inflight y ! i) ctxErr (sy_sup y) = Some (res, s)"
      "y' = y\<lparr>sy_sup := s, sy_inflight := take i (sy_inflight y) @ drop (Suc i) (sy_inflight y)\<rparr>"
      by (auto simp: do_send_def split: if_splits option.splits)
    then have "sup_controllers s = sup_controllers (sy_sup y)" "views_current (sy_views y) s"
      using views by (auto simp: send_change_def split: if_splits option.splits)
    with s(2) show ?thesis
      using system_ok_update [OF assms(2), of s "sy_views y" "sy_machine y"] by simp
  next
    case (DoLoop ev)
    with assms show ?thesis
      by (auto split: phase.splits if_splits intro: loop_step_ok)
  next
    case DoLeases
    with assms(1) obtain sub snapshots r out where sub: "sy_phase y = Looping sub"
      and step: "loop_step machine_ports (LeaseUpdate (Some snapshots))
        (sy_sup y, (sy_machine y)\<lparr>ma_registry := r\<rparr>) = Some out" and y': "y' = run_on sub out y"
      by (auto simp del: loop_step.simps split: phase.splits option.splits prod.splits)
    from loop_step_ok [OF step assms(2) sub] y' show ?thesis
      by (simp add: settings_def)
  next
    case (DoRegistry rop)
    with assms(1) show ?thesis
      by (auto simp: upd views split: if_splits)
  next
    case DoSubscribe
    with assms(1) obtain initial i s where s: "SubscribeProviderRuntime (sy_sup y) = ((initial, i), s)"
      "y' = y\<lparr>sy_sup := s, sy_views := (sy_views y)(i \<mapsto> initial)\<rparr>"
      by (auto split: prod.splits)
    with subscriber_views(1) [OF views s(1)] subscriber_controllers(1) [OF s(1)] show ?thesis
      using system_ok_update [OF assms(2), of s _ "sy_machine y" "sy_inflight y"] by simp
  next
    case (DoReceive i)
    with assms(1) obtain v s where s: "receive_runtime i (sy_sup y) = Some (v, s)"
      "y' = y\<lparr>sy_sup := s, sy_views := (sy_views y)(i \<mapsto> v)\<rparr>"
      by auto
    with subscriber_views(2) [OF views s(1)] subscriber_controllers(2) [OF s(1)] show ?thesis
      using system_ok_update [OF assms(2), of s _ "sy_machine y" "sy_inflight y"] by simp
  next
    case (DoUnsubscribe i)
    with assms(1) show ?thesis
      using system_ok_update [OF assms(2), of "cancel_runtime i (sy_sup y)" "sy_views y" "sy_machine y" "sy_inflight y"]
        subscriber_views(3) [OF views] subscriber_controllers(3) by auto
  next
    case (DoWatch p)
    with assms(1) show ?thesis
      using system_ok_update [OF assms(2), of "signal_process (sy_sup y)" "sy_views y" "sy_machine y" "sy_inflight y"]
        views by (simp add: signal_process_def split: if_splits)
  next
    case (DoExit p)
    with assms(1) show ?thesis
      using upd [of "end_process p (sy_machine y)"] views by auto
  next
    case (DoCancel err)
    with assms(1) show ?thesis
      using upd views by auto
  next
    case (DoClock t)
    with assms(1) show ?thesis
      using upd views by auto
  qed (use assms in \<open>auto intro: do_change_ok do_run_ok\<close>)
qed

lemma system_steps_ok:
  "system_steps fce R ops y = Some y' \<Longrightarrow> system_ok specs y \<Longrightarrow> system_ok specs y'"
  by (induction ops arbitrary: y) (auto split: option.splits intro: system_step_ok)

lemma boot_ok:
  assumes "Supervisor_New machine_ports config present specs m0 = (Inr s, m)"
    and "Service_New R d ctx w0 = (Inr (ma_service m0), w1)" "alive m0 = {}"
  shows "system_ok (sort_key spec_ProviderID specs) (boot s m)"
proof -
  have "m = m0"
    using Supervisor_New_Inr(8) [OF assms(1)] by simp
  with Supervisor_New_Inr [OF assms(1)] assms(3) Service_New_canonical [OF assms(2)] show ?thesis
    by (simp add: system_ok_def boot_def has_specs_def process_state_def)
qed

end
