(* ===== verification/Supervisor_Order.thy ===== *)
theory Supervisor_Order
  imports Supervisor_System
begin

text \<open>
  Runs of the system of \<open>Supervisor_System\<close> from its construction, how a pass over the controllers
  enforces the permissions, and the order of the commands: when the callers of \<^verbatim>\<open>Change\<close> take
  turns, the last command of a permission asks for what is persisted.
\<close>

section \<open>Runs\<close>

definition supervised_run ::
    "(goerror \<Rightarrow> rpc_error) \<Rightarrow> 'v Repository \<Rightarrow> Spec list \<Rightarrow> system_op list \<Rightarrow> 'v system \<Rightarrow> bool" where
  "supervised_run fce R specs ops y \<longleftrightarrow>
     (\<exists>config present m0 s m d ctx w0 w1.
        Service_New R d ctx w0 = (Inr (ma_service m0), w1) \<and> alive m0 = {} \<and>
        Supervisor_New machine_ports config present specs m0 = (Inr s, m) \<and>
        system_steps fce R ops (boot s m) = Some y)"

lemma supervised_run_ok:
  assumes "supervised_run fce R specs ops y"
  shows "system_ok (sort_key spec_ProviderID specs) y" "length specs = 2" "distinct (map spec_Permission specs)"
    "spec_Permission ` set specs = {CameraCapture, MicrophoneCapture}"
proof -
  from assms obtain config present m0 s m d ctx w0 w1 where
    svc: "Service_New R d ctx w0 = (Inr (ma_service m0), w1)" "alive m0 = {}" and
    new: "Supervisor_New machine_ports config present specs m0 = (Inr s, m)" and
    run: "system_steps fce R ops (boot s m) = Some y"
    unfolding supervised_run_def by blast
  show "system_ok (sort_key spec_ProviderID specs) y"
    by (rule system_steps_ok [OF run boot_ok [OF new svc]])
  show "length specs = 2"
    using Supervisor_New_Inr(3,4) [OF new] by (metis length_map length_sort)
  show "distinct (map spec_Permission specs)" "spec_Permission ` set specs = {CameraCapture, MicrophoneCapture}"
    by (rule Supervisor_New_Inr(6) [OF new], rule Supervisor_New_Inr(5) [OF new])
qed

lemma run_specs:
  assumes "supervised_run fce R specs ops y"
  shows "map ct_spec (sup_controllers (sy_sup y)) = sort_key spec_ProviderID specs"
    "length (sup_controllers (sy_sup y)) = 2"
    "distinct (map (\<lambda>c. spec_Permission (ct_spec c)) (sup_controllers (sy_sup y)))"
proof -
  note run = supervised_run_ok [OF assms]
  show specs: "map ct_spec (sup_controllers (sy_sup y)) = sort_key spec_ProviderID specs"
    using run(1) by (simp add: system_ok_def has_specs_def)
  then show "length (sup_controllers (sy_sup y)) = 2"
    using run(2) by (metis length_map length_sort)
  have "mset (map spec_Permission (sort_key spec_ProviderID specs)) = mset (map spec_Permission specs)"
    by simp
  with run(3) have "distinct (map spec_Permission (sort_key spec_ProviderID specs))"
    by (metis mset_eq_imp_distinct_iff)
  then show "distinct (map (\<lambda>c. spec_Permission (ct_spec c)) (sup_controllers (sy_sup y)))"
    by (simp add: specs [symmetric] comp_def)
qed

section \<open>Permissions\<close>

lemma permissionEnabled_in_granted:
  assumes "distinct (map gr_Permission gs)"
  shows "permissionEnabled_in gs p \<longleftrightarrow> (\<exists>g \<in> set gs. gr_Permission g = p \<and> gr_Enabled g)"
  using assms by (induction gs) (auto simp: image_iff)

lemma permissionEnabled_granted:
  assumes "canonical snap"
  shows "permissionEnabled snap p \<longleftrightarrow> p \<in> granted snap"
  using assms permissionEnabled_in_granted [of "ps_Grants snap" p]
  by (auto simp: permissionEnabled_def granted_def canonical_def distinct_permissionOrder)

definition grants_of :: "'v system \<Rightarrow> privacy_Snapshot" where
  "grants_of y = srv_current (ma_service (sy_machine y))"

definition permission_of :: "controller \<Rightarrow> Permission" where
  "permission_of c = spec_Permission (ct_spec c)"

text \<open>One pass over all the controllers.\<close>

lemma reconcileAll_enforces:
  assumes "reconcileAll machine_ports (s, m) = (None, s', m')" "supervisor_ok s"
    "canonical (srv_current (ma_service m))" "c \<in> set (sup_controllers s')"
  shows "settled (permission_of c \<in> granted (srv_current (ma_service m))) c"
proof -
  from assms(1) have each: "(s', m') = reconcile_each machine_ports (srv_current (ma_service m))
      [0..<length (sup_controllers s)] (s, m)"
    by (auto simp: reconcileAll_def Service_Current_def split: option.splits)
  have shape: "same_shape s s'"
    using reconcile_each_shape [of "(s, m)" machine_ports "srv_current (ma_service m)"
        "[0..<length (sup_controllers s)]"] by (simp add: each [symmetric])
  obtain i where i: "i < length (sup_controllers s)" "c = item s' i"
    using assms(4) shape by (auto simp: in_set_conv_nth same_shape_def)
  with reconcile_each_settled [of "(s, m)" i _ "srv_current (ma_service m)" machine_ports] assms(2,3)
  show ?thesis
    by (simp add: each [symmetric] permission_of_def same_shape_spec [OF shape] permissionEnabled_granted)
qed

section \<open>Serial changes\<close>

text \<open>
  The permission is persisted under the lock of the service, the command is sent afterwards and without
  it. Here the callers take turns: a change begins when the one before was sent, and no call gives up
  between the two.
\<close>

fun serial_op :: "system_op \<Rightarrow> 'v system \<Rightarrow> bool" where
  "serial_op (DoChange ctx c) y = (sy_inflight y = [])"
| "serial_op (DoSend i ctxErr) y = (ctxErr = None)"
| "serial_op op y = True"

fun serial_run ::
    "(goerror \<Rightarrow> rpc_error) \<Rightarrow> 'v Repository \<Rightarrow> system_op list \<Rightarrow> 'v system \<Rightarrow> bool" where
  "serial_run fce R [] y = True"
| "serial_run fce R (op # ops) y =
     (serial_op op y \<and> (case system_step fce R op y of None \<Rightarrow> False | Some y' \<Rightarrow> serial_run fce R ops y'))"

definition pending_commands :: "'v system \<Rightarrow> ChangePermission list" where
  "pending_commands y = sup_changes (sy_sup y) @ sy_inflight y"

definition last_for :: "Permission \<Rightarrow> ChangePermission list \<Rightarrow> ChangePermission option" where
  "last_for k cs = find (\<lambda>c. cp_Permission c = k) (rev cs)"

lemma last_for_simps [simp]:
  "last_for k [] = None"
  "last_for k (cs @ [c]) = (if cp_Permission c = k then Some c else last_for k cs)"
  by (simp_all add: last_for_def)

lemma find_append: "find Q (xs @ ys) = (case find Q xs of None \<Rightarrow> find Q ys | Some x \<Rightarrow> Some x)"
  by (induction xs) auto

lemma last_for_Cons:
  "last_for k (c # cs) =
     (case last_for k cs of None \<Rightarrow> if cp_Permission c = k then Some c else None | Some d \<Rightarrow> Some d)"
  by (simp add: last_for_def find_append split: option.split)

text \<open>
  The last command still to be handled for a permission asks for what is persisted; without one, a
  worker that runs has the permission.
\<close>

definition in_order :: "'v system \<Rightarrow> bool" where
  "in_order y =
     (length (sy_inflight y) \<le> 1 \<and>
      (\<forall>k cmd. last_for k (pending_commands y) = Some cmd \<longrightarrow> cp_Enabled cmd = (k \<in> granted (grants_of y))) \<and>
      (\<forall>sub. sy_phase y = Looping sub \<longrightarrow>
        (\<forall>c \<in> set (sup_controllers (sy_sup y)). ct_process c \<noteq> None \<longrightarrow>
           last_for (permission_of c) (pending_commands y) = None \<longrightarrow> permission_of c \<in> granted (grants_of y))))"

lemma in_order_same:
  assumes "in_order y" "sy_inflight y' = sy_inflight y" "sup_changes (sy_sup y') = sup_changes (sy_sup y)"
    "grants_of y' = grants_of y" "sup_controllers (sy_sup y') = sup_controllers (sy_sup y)"
    "sy_phase y' = sy_phase y"
  shows "in_order y'"
  using assms by (simp add: in_order_def pending_commands_def)

lemma in_order_change:
  assumes "do_change R ctx c y = Some y'" "in_order y" "sy_inflight y = []" "canonical (grants_of y)"
  shows "in_order y'"
proof -
  let ?m = "sy_machine y"
  from assms(1) obtain res srv v where change: "Service_Change R (ma_service ?m) ctx c (ma_store ?m) = Some (res, srv, v)"
    by (auto simp: do_change_def Let_def split: option.splits)
  have canonical: "canonical (srv_current (ma_service ?m))"
    using assms(4) by (simp add: grants_of_def)
  have res: "case res of Inl err \<Rightarrow> srv = ma_service ?m
      | Inr snap \<Rightarrow> granted (srv_current srv) = (if cp_Enabled c then insert (cp_Permission c) (granted (grants_of y))
          else granted (grants_of y) - {cp_Permission c})"
    using change by (cases rule: Service_Change_cases [OF canonical, of R ctx c "ma_store ?m"])
      (auto simp: grants_of_def)
  show ?thesis
  proof (cases res)
    case (Inl err)
    with change res assms(1) show ?thesis
      by (intro in_order_same [OF assms(2)]) (auto simp: do_change_def grants_of_def)
  next
    case (Inr snap)
    with change assms(1) have y': "y' = y\<lparr>sy_machine := ?m\<lparr>ma_service := srv, ma_store := v\<rparr>,
        sy_inflight := [c]\<rparr>"
      using assms(3) by (simp add: do_change_def)
    with res Inr assms(2,3) show ?thesis
      by (auto simp: in_order_def pending_commands_def grants_of_def)
  qed
qed

lemma in_order_send:
  assumes "do_send i None y = Some y'" "in_order y"
  shows "in_order y'"
proof -
  from assms(1) obtain res s where i: "i < length (sy_inflight y)"
    and s: "send_change (sy_inflight y ! i) None (sy_sup y) = Some (res, s)"
    and y': "y' = y\<lparr>sy_sup := s, sy_inflight := take i (sy_inflight y) @ drop (Suc i) (sy_inflight y)\<rparr>"
    by (auto simp: do_send_def split: if_splits option.splits)
  moreover from i assms(2) obtain c where "sy_inflight y = [c]" "i = 0"
    by (cases "sy_inflight y") (auto simp: in_order_def)
  ultimately have "sy_inflight y' = []" "pending_commands y' = pending_commands y" "grants_of y' = grants_of y"
    "sup_controllers (sy_sup y') = sup_controllers (sy_sup y)" "sy_phase y' = sy_phase y"
    by (auto simp: send_change_def pending_commands_def grants_of_def split: if_splits)
  with assms(2) show ?thesis
    by (simp add: in_order_def)
qed

lemma reconcileAll_shape: "same_shape (fst sw) (fst (snd (reconcileAll P sw)))"
proof -
  obtain s w where sw: "sw = (s, w)"
    by (cases sw)
  show ?thesis
    using reconcile_each_shape [of "(s, snd (wp_Current P w))" P _ "[0..<length (sup_controllers s)]"]
    by (auto simp: sw reconcileAll_def split: prod.split sum.split)
qed

lemma reconcile_or_stop_shape: "same_shape (fst sw) (fst (snd (reconcile_or_stop P sw)))"
  using reconcileAll_shape [of sw P] stopAll_shape [of "snd (reconcileAll P sw)" P]
  by (auto simp: reconcile_or_stop_def split: prod.split option.split intro: same_shape_trans)

lemma in_order_run_on:
  assumes "in_order y" "sup_changes s = sup_changes (sy_sup y)" "settings m = settings (sy_machine y)"
    and "res = None \<Longrightarrow> \<forall>c \<in> set (sup_controllers s). settled (permission_of c \<in> granted (grants_of y)) c"
  shows "in_order (run_on sub (res, s, m) y)"
proof -
  have grants: "permission_of c \<in> granted (grants_of y)"
    if "res = None" "c \<in> set (sup_controllers s)" "ct_process c \<noteq> None" for c
    using assms(4) that by (auto simp: settled_def is_disabled_def)
  have "grants_of (run_on sub (res, s, m) y) = grants_of y"
    using assms(3) by (auto simp: run_on_def grants_of_def settings_def split: option.split)
  moreover have "pending_commands (run_on sub (res, s, m) y) = pending_commands y"
    "sy_inflight (run_on sub (res, s, m) y) = sy_inflight y"
    using assms(2) by (auto simp: run_on_def pending_commands_def split: option.split)
  ultimately show ?thesis
    using assms(1) grants by (auto simp: in_order_def run_on_def split: option.splits)
qed

lemma in_order_reconcile:
  assumes "in_order y" "reconcile_or_stop machine_ports (s, m) = (res, s', m')" "supervisor_ok s"
    "sup_changes s = sup_changes (sy_sup y)" "settings m = settings (sy_machine y)" "canonical (grants_of y)"
  shows "in_order (run_on sub (res, s', m') y)"
proof (rule in_order_run_on [OF assms(1)])
  show "sup_changes s' = sup_changes (sy_sup y)"
    using reconcile_or_stop_shape [of "(s, m)" machine_ports] assms(2,4) by (simp add: same_shape_def)
  show "settings m' = settings (sy_machine y)"
    using settings.reconcile_or_stop_look [of "(s, m)"] assms(2,5) by simp
  assume "res = None"
  with assms(2) have "reconcileAll machine_ports (s, m) = (None, s', m')"
    by (auto simp: reconcile_or_stop_def split: prod.splits option.splits)
  from reconcileAll_enforces [OF this assms(3)]
  show "\<forall>c \<in> set (sup_controllers s'). settled (permission_of c \<in> granted (grants_of y)) c"
    using assms(5,6) by (simp add: grants_of_def settings_def)
qed

text \<open>The command at the head of the channel.\<close>

lemma permission_index:
  assumes "distinct (map permission_of cs)" "i < length cs" "permission_of (cs ! i) = k"
  shows "j < length cs \<Longrightarrow> permission_of (cs ! j) = k \<longleftrightarrow> j = i"
  using assms by (auto simp: distinct_conv_nth)

lemma reconcilePermission_item:
  assumes "supervisor_ok (fst sw)" "c \<in> set (sup_controllers (fst (reconcilePermission P k enabled sw)))"
    "distinct (map permission_of (sup_controllers (fst sw)))"
  shows "if permission_of c = k then settled enabled c else c \<in> set (sup_controllers (fst sw))"
proof -
  obtain s w where sw: "sw = (s, w)"
    by (cases sw)
  show ?thesis
  proof (cases "find (\<lambda>i. spec_Permission (ct_spec (item s i)) = k) [0..<length (sup_controllers s)]")
    case None
    with assms(2) show ?thesis
      by (auto simp: sw reconcilePermission_def find_None_iff permission_of_def in_set_conv_nth)
  next
    case (Some i)
    then have i: "i < length (sup_controllers s)" "permission_of (item s i) = k"
      by (auto simp: find_Some_iff permission_of_def)
    let ?out = "reconcileOne P i enabled (s, w)"
    have frame: "same_frame i s (fst ?out)"
      by simp
    from Some assms(2) obtain j where j: "j < length (sup_controllers s)" "c = item (fst ?out) j"
      using frame by (auto simp: sw reconcilePermission_def in_set_conv_nth same_frame_def)
    show ?thesis
    proof (cases "j = i")
      case True
      from assms(1) i have "controller_ok (item s i)"
        by (simp add: sw supervisor_ok_item)
      with i have "settled enabled (item (fst ?out) i)"
        using reconcileOne_disabled [of i "(s, w)" P] reconcileOne_ok [of i "(s, w)" P enabled]
        by (cases enabled) (simp_all add: settled_def)
      moreover have "permission_of c = k"
        using frame i j True by (simp add: same_frame_def permission_of_def)
      ultimately show ?thesis
        using j True by simp
    next
      case False
      with frame j have "c = item s j" "c \<in> set (sup_controllers s)"
        by (simp_all add: same_frame_def)
      with permission_index [of "sup_controllers s" i k j] assms(3) i j(1) False show ?thesis
        by (auto simp: sw)
    qed
  qed
qed

lemma reconcilePermission_shape: "same_shape (fst sw) (fst (reconcilePermission P k enabled sw))"
proof -
  have "same_shape (fst sw) (fst (reconcileOne P i enabled sw))" for i
    by (rule same_shape_frame [of i]) simp
  then show ?thesis
    by (cases sw) (auto simp: reconcilePermission_def split: option.split)
qed

lemma in_order_take:
  assumes "in_order y" "sy_phase y = Looping sub" "sup_changes (sy_sup y) = cmd # cmds" "system_ok specs y"
    "reconcilePermission machine_ports (cp_Permission cmd) (cp_Enabled cmd)
       ((sy_sup y)\<lparr>sup_changes := cmds\<rparr>, sy_machine y) = (s, m)"
    "distinct (map permission_of (sup_controllers (sy_sup y)))"
  shows "in_order (run_on sub (None, s, m) y)"
proof -
  let ?s = "(sy_sup y)\<lparr>sup_changes := cmds\<rparr>" and ?k = "cp_Permission cmd"
  let ?y = "run_on sub (None, s, m) y" and ?rest = "cmds @ sy_inflight y"
  have "same_shape ?s s"
    using reconcilePermission_shape [of "(?s, sy_machine y)" machine_ports ?k "cp_Enabled cmd"] assms(5) by simp
  then have changes: "sup_changes s = cmds"
    by (simp add: same_shape_def)
  have "settings m = settings (sy_machine y)"
    using settings.reconcilePermission_look [of ?k "cp_Enabled cmd" "(?s, sy_machine y)"] assms(5) by simp
  then have y': "pending_commands ?y = ?rest" "sy_inflight ?y = sy_inflight y" "grants_of ?y = grants_of y"
    "sup_controllers (sy_sup ?y) = sup_controllers s"
    by (simp_all add: run_on_def pending_commands_def grants_of_def changes settings_def)
  have pending: "pending_commands y = cmd # ?rest"
    using assms(3) by (simp add: pending_commands_def)
  have commands: "cp_Enabled d = (k \<in> granted (grants_of y))" if "last_for k (cmd # ?rest) = Some d" for k d
    using assms(1) pending that by (auto simp: in_order_def)
  have "permission_of c \<in> granted (grants_of y)"
    if c: "c \<in> set (sup_controllers s)" "ct_process c \<noteq> None" "last_for (permission_of c) ?rest = None" for c
  proof -
    have ok: "supervisor_ok ?s"
      using assms(4) by (simp add: system_ok_def supervisor_ok_def)
    have item: "if permission_of c = ?k then settled (cp_Enabled cmd) c else c \<in> set (sup_controllers (sy_sup y))"
      using reconcilePermission_item [of "(?s, sy_machine y)" c machine_ports ?k "cp_Enabled cmd"] ok assms(5,6) c(1)
      by (simp split: if_splits)
    show ?thesis
    proof (cases "permission_of c = ?k")
      case True
      with c(3) have "last_for ?k (cmd # ?rest) = Some cmd"
        by (simp add: last_for_Cons)
      from commands [OF this] item True c(2) show ?thesis
        by (auto simp: settled_def is_disabled_def)
    next
      case False
      with c(3) have "last_for (permission_of c) (pending_commands y) = None"
        by (simp add: last_for_Cons pending)
      with False item assms(1,2) c(2) show ?thesis
        by (auto simp: in_order_def)
    qed
  qed
  moreover have "cp_Enabled d = (k \<in> granted (grants_of y))" if "last_for k ?rest = Some d" for k d
    using commands [of k d] that by (simp add: last_for_Cons)
  ultimately show ?thesis
    using assms(1) unfolding in_order_def y' by blast
qed

lemma in_order_loop:
  assumes "loop_step machine_ports ev (sy_sup y, m) = Some out" "in_order y" "system_ok specs y"
    "sy_phase y = Looping sub" "distinct (map permission_of (sup_controllers (sy_sup y)))"
    "settings m = settings (sy_machine y)" "ev = TakeChange \<Longrightarrow> m = sy_machine y"
  shows "in_order (run_on sub out y)"
proof -
  obtain res s m' where out: "out = (res, s, m')"
    by (cases out)
  have ok: "supervisor_ok (sy_sup y)" "canonical (grants_of y)"
    using assms(3) by (simp_all add: system_ok_def grants_of_def)
  have stop: "in_order (run_on sub (Some err, stopAll machine_ports (sy_sup y, m)) y)" for err
  proof -
    obtain s1 m1 where stopped: "stopAll machine_ports (sy_sup y, m) = (s1, m1)"
      by (cases "stopAll machine_ports (sy_sup y, m)")
    show ?thesis
      unfolding stopped
      by (rule in_order_run_on [OF assms(2)])
        (use stopAll_shape [of "(sy_sup y, m)" machine_ports] settings.stopAll_look [of "(sy_sup y, m)"]
          stopped assms(6) in \<open>simp_all add: same_shape_def\<close>)
  qed
  have again: "in_order (run_on sub out y)"
    if "reconcile_or_stop machine_ports (s', m) = out" "sup_changes s' = sup_changes (sy_sup y)"
      "sup_controllers s' = sup_controllers (sy_sup y)" for s'
    using in_order_reconcile [OF assms(2), of s' m res s m'] that ok assms(6) out
    by (simp add: supervisor_ok_def)
  show ?thesis
  proof (cases ev)
    case ContextDone
    with assms(1) stop show ?thesis
      by auto
  next
    case TakeChange
    with assms(1) obtain cmd cmds where head: "sup_changes (sy_sup y) = cmd # cmds"
      and turn: "out = (None, reconcilePermission machine_ports (cp_Permission cmd) (cp_Enabled cmd)
        ((sy_sup y)\<lparr>sup_changes := cmds\<rparr>, m))"
      by (auto split: list.splits)
    from in_order_take [OF assms(2,4) head assms(3) _ assms(5), of s m'] turn out assms(7) [OF TakeChange] show ?thesis
      by simp
  next
    case (LeaseUpdate leases)
    with assms(1) stop again [of "setLeases (the leases) (sy_sup y)"] show ?thesis
      by (cases leases) (auto simp: setLeases_def)
  next
    case ProcessSignal
    with assms(1) again [of "(sy_sup y)\<lparr>sup_processes := False\<rparr>"] show ?thesis
      by (auto split: if_splits)
  next
    case HealthCheck
    with assms(1) again [of "sy_sup y"] show ?thesis
      by auto
  qed
qed

lemma in_order_start:
  assumes "do_run nilctx y = Some y'" "in_order y" "system_ok specs y"
  shows "in_order y'"
proof (cases "sy_phase y = Idle \<and> \<not> nilctx")
  case False
  with assms show ?thesis
    by (auto simp: do_run_def split: phase.splits if_splits)
next
  case True
  obtain initial sub r where sub: "Subscribe (ma_registry (sy_machine y)) = ((initial, sub), r)"
    by (metis prod.exhaust)
  let ?m = "(sy_machine y)\<lparr>ma_registry := r\<rparr>"
  let ?s = "setLeases initial ((sy_sup y)\<lparr>sup_started := True\<rparr>)"
  obtain res s m where out: "Run_start machine_ports nilctx initial (sy_sup y, ?m) = (res, s, m)"
    by (metis prod.exhaust)
  from True sub out assms(1) have y': "y' = run_on sub (res, s, m) y"
    by (simp add: do_run_def)
  show ?thesis
    unfolding y'
  proof (rule in_order_run_on [OF assms(2)])
    show "sup_changes s = sup_changes (sy_sup y)"
      using reconcileAll_shape [of "(?s, ?m)" machine_ports] out True
      by (auto simp: Run_start_def Let_def setLeases_def same_shape_def split: if_splits prod.splits option.splits)
    show "settings m = settings (sy_machine y)"
      using settings.Run_start_look [of nilctx initial "(sy_sup y, ?m)"] out by (simp add: settings_def)
    assume "res = None"
    with out True have "reconcileAll machine_ports (?s, ?m) = (None, s, m)"
      by (auto simp: Run_start_def Let_def split: if_splits prod.splits option.splits)
    from reconcileAll_enforces [OF this] assms(3)
    show "\<forall>c \<in> set (sup_controllers s). settled (permission_of c \<in> granted (grants_of y)) c"
      by (simp add: system_ok_def grants_of_def supervisor_ok_def setLeases_def)
  qed
qed

lemma in_order_step:
  assumes "system_step fce R op y = Some y'" "serial_op op y" "in_order y" "system_ok specs y"
    "distinct (map permission_of (sup_controllers (sy_sup y)))"
  shows "in_order y'"
proof (cases op)
  case (DoChange ctx c)
  with assms show ?thesis
    by (auto simp: system_ok_def grants_of_def intro: in_order_change)
next
  case (DoSend i ctxErr)
  with assms show ?thesis
    by (auto intro: in_order_send)
next
  case (DoRun nilctx)
  with assms show ?thesis
    by (auto intro: in_order_start)
next
  case (DoLoop ev)
  with assms show ?thesis
    by (auto split: phase.splits if_splits intro: in_order_loop)
next
  case DoLeases
  with assms(1) obtain sub snapshots r out where sub: "sy_phase y = Looping sub"
    and step: "loop_step machine_ports (LeaseUpdate (Some snapshots))
      (sy_sup y, (sy_machine y)\<lparr>ma_registry := r\<rparr>) = Some out" and y': "y' = run_on sub out y"
    by (auto simp del: loop_step.simps split: phase.splits option.splits prod.splits)
  from in_order_loop [OF step assms(3,4) sub assms(5)] y' show ?thesis
    by (simp add: settings_def)
next
  case (DoReceive i)
  with assms(1) show ?thesis
    by (auto simp: receive_runtime_def grants_of_def split: option.splits intro!: in_order_same [OF assms(3)])
next
  case DoSubscribe
  with assms(1) show ?thesis
    by (auto simp: SubscribeProviderRuntime_def Let_def grants_of_def intro!: in_order_same [OF assms(3)])
qed (use assms(1) in \<open>auto simp: cancel_runtime_def signal_process_def grants_of_def split: if_splits
      intro!: in_order_same [OF assms(3)]\<close>)

lemma specs_permissions:
  assumes "system_ok specs y" "distinct (map spec_Permission specs)"
  shows "distinct (map permission_of (sup_controllers (sy_sup y)))"
proof -
  from assms have "distinct (map spec_Permission (map ct_spec (sup_controllers (sy_sup y))))"
    by (simp add: system_ok_def has_specs_def)
  moreover have "permission_of = spec_Permission \<circ> ct_spec"
    by (simp add: fun_eq_iff permission_of_def)
  ultimately show ?thesis
    by simp
qed

lemma in_order_run:
  assumes "system_steps fce R ops y = Some y'" "serial_run fce R ops y" "in_order y" "system_ok specs y"
    "distinct (map spec_Permission specs)"
  shows "in_order y'"
  using assms(1-4)
proof (induction ops arbitrary: y)
  case (Cons op ops)
  from Cons.prems(1) obtain y1 where y1: "system_step fce R op y = Some y1" "system_steps fce R ops y1 = Some y'"
    by (auto split: option.splits)
  with Cons.prems(2) have "serial_op op y" "serial_run fce R ops y1"
    by simp_all
  with Cons.IH [OF y1(2)] in_order_step [OF y1(1) _ Cons.prems(3,4)]
    specs_permissions [OF Cons.prems(4) assms(5)] system_step_ok [OF y1(1) Cons.prems(4)]
  show ?case
    by blast
qed simp

end
