(* ===== verification/Supervisor_Props.thy ===== *)
theory Supervisor_Props
  imports Supervisor_Order
begin

text \<open>
  What the worker supervisor promises in every run of the system of \<open>Supervisor_System\<close>: the workers are
  owned, bounded in number and joined; the runtime view is truthful; the permissions are enforced, at
  once when the changes take turns and at the next pass over the workers in any case.
\<close>

section \<open>Examples\<close>

definition demo_spec :: "string \<Rightarrow> Permission \<Rightarrow> Spec" where
  "demo_spec provider k = \<lparr>spec_ProviderID = provider, spec_Permission = k, spec_Command = ''worker'',
     spec_Args = [], spec_WorkingDir = [], spec_Env = []\<rparr>"

definition demo_specs :: "Spec list" where
  "demo_specs = [demo_spec ''mic'' MicrophoneCapture, demo_spec ''cam'' CameraCapture]"

definition demo_machine :: "bool list \<Rightarrow> bool list \<Rightarrow> (privacy_Snapshot \<times> time) machine" where
  "demo_machine starts graceful =
     \<lparr>ma_now = 1, ma_ctx = Live, ma_registry = demo_registry, ma_service = demo_service,
      ma_store = (\<lparr>ps_Revision = 0, ps_Grants = []\<rparr>, 5),
      ma_table = \<lparr>pt_running = [], pt_next = 7, pt_starts = starts, pt_graceful = graceful\<rparr>\<rparr>"

definition demo_config :: SupervisorConfig where
  "demo_config = \<lparr>sc_StopTimeout = 5, sc_HealthCheckInterval = 9\<rparr>"

definition demo_controller :: "string \<Rightarrow> Permission \<Rightarrow> controller" where
  "demo_controller provider k =
     \<lparr>ct_spec = demo_spec provider k, ct_process = None, ct_failed = False, ct_everHealthy = False,
      ct_runtime = \<lparr>rt_ProviderID = provider, rt_State = P_Disabled, rt_Reason = ReasonDisabledByUser,
                    rt_UpdatedAt = 1\<rparr>\<rparr>"

definition demo_supervisor :: Supervisor where
  "demo_supervisor =
     \<lparr>sup_config = demo_config, sup_changes = [], sup_processes = False, sup_started = False,
      sup_controllers = [demo_controller ''cam'' CameraCapture, demo_controller ''mic'' MicrophoneCapture],
      sup_leaseState = [], sup_revision = 1, sup_subs = [], sup_nextSubID = 0\<rparr>"

lemma demo_supervisor_New:
  "Supervisor_New machine_ports demo_config True demo_specs (demo_machine starts graceful) =
     (Inr demo_supervisor, demo_machine starts graceful)"
proof -
  have trim: "TrimSpace ''cam'' = ''cam''" "TrimSpace ''mic'' = ''mic''" "TrimSpace ''worker'' = ''worker''"
    by (simp_all add: TrimSpace_printing printing_def)
  have "sort_key spec_ProviderID demo_specs = [demo_spec ''cam'' CameraCapture, demo_spec ''mic'' MicrophoneCapture]"
    by code_simp
  then show ?thesis
    by (simp add: Supervisor_New_def demo_config_def demo_machine_def demo_specs_def trim demo_spec_def
        demo_supervisor_def demo_controller_def)
qed

definition demo_boot :: "bool list \<Rightarrow> bool list \<Rightarrow> (privacy_Snapshot \<times> time) system" where
  "demo_boot starts graceful = boot demo_supervisor (demo_machine starts graceful)"

lemma demo_run:
  assumes "system_steps demo_fce demo_repository ops (demo_boot starts graceful) = Some y"
  shows "supervised_run demo_fce demo_repository demo_specs ops y"
proof -
  have "Service_New demo_repository True Live (\<lparr>ps_Revision = 0, ps_Grants = []\<rparr>, 5) =
      (Inr (ma_service (demo_machine starts graceful)), (\<lparr>ps_Revision = 0, ps_Grants = []\<rparr>, 5))"
    by (simp add: demo_New demo_machine_def)
  moreover have "alive (demo_machine starts graceful) = {}"
    by (simp add: alive_def demo_machine_def)
  ultimately show ?thesis
    unfolding supervised_run_def using demo_supervisor_New assms [unfolded demo_boot_def] by blast
qed

definition set_camera :: "bool \<Rightarrow> system_op" where
  "set_camera b = DoChange Live \<lparr>cp_Permission = CameraCapture, cp_Enabled = b\<rparr>"

text \<open>The camera is allowed, its worker starts, and the permission is taken back while the loop waits.\<close>

definition camera_on :: "system_op list" where
  "camera_on = [DoRun False, set_camera True, DoSend 0 None, DoLoop TakeChange]"

text \<open>Two callers: the later change is sent first.\<close>

definition race_ops :: "system_op list" where
  "race_ops = [DoRun False, set_camera True, set_camera False, DoSend 1 None, DoSend 0 None,
     DoLoop TakeChange, DoLoop TakeChange]"

type_synonym worker_summary = "nat list \<times> (nat option \<times> provider_State \<times> provider_Reason) list \<times> bool"

definition summary :: "'v system \<Rightarrow> worker_summary" where
  "summary y =
     (pt_running (ma_table (sy_machine y)),
      map (\<lambda>c. (ct_process c, rt_State (ct_runtime c), rt_Reason (ct_runtime c))) (sup_controllers (sy_sup y)),
      permissionEnabled (grants_of y) CameraCapture)"

text \<open>
  The order of the commands is not the order of the permissions: the worker starts although the
  permission is revoked, and the next health check stops it.
\<close>

lemma changes_overtake:
  "map_option summary (system_steps demo_fce demo_repository race_ops (demo_boot [] [])) =
     Some ([7], [(Some 7, P_Starting, ReasonNone), (None, P_Disabled, ReasonDisabledByUser)], False)"
  "map_option summary (system_steps demo_fce demo_repository (race_ops @ [DoLoop HealthCheck]) (demo_boot [] [])) =
     Some ([], [(None, P_Disabled, ReasonDisabledByUser), (None, P_Disabled, ReasonDisabledByUser)], False)"
  by code_simp+

lemma camera_on_steps:
  "map_option summary (system_steps demo_fce demo_repository camera_on (demo_boot [] [])) =
     Some ([7], [(Some 7, P_Starting, ReasonNone), (None, P_Disabled, ReasonDisabledByUser)], True)"
  by code_simp

section \<open>Ownership and bounds\<close>

text \<open>The buffer of commands is bounded; the handlers of the loop only take from it.\<close>

lemma handlers_changes [simp]:
  "sup_changes (fst (stopAll P sw)) = sup_changes (fst sw)"
  "sup_changes (fst (snd (reconcileAll P sw))) = sup_changes (fst sw)"
  "sup_changes (fst (snd (reconcile_or_stop P sw))) = sup_changes (fst sw)"
  "sup_changes (fst (reconcilePermission P k enabled sw)) = sup_changes (fst sw)"
  using stopAll_shape [of sw P] reconcileAll_shape [of sw P] reconcile_or_stop_shape [of sw P]
    reconcilePermission_shape [of sw P k enabled]
  by (simp_all add: same_shape_def)

lemma loop_step_changes:
  "loop_step P ev sw = Some out \<Longrightarrow> length (sup_changes (fst (snd out))) \<le> length (sup_changes (fst sw))"
  by (cases "(P, ev, sw)" rule: loop_step.cases) (auto simp: setLeases_def split: list.splits if_splits)

lemma Run_start_changes: "sup_changes (fst (snd (Run_start P nilctx initial sw))) = sup_changes (fst sw)"
proof -
  obtain s w where sw: "sw = (s, w)"
    by (cases sw)
  show ?thesis
    using handlers_changes(2) [of P "(setLeases initial (s\<lparr>sup_started := True\<rparr>), w)"]
    by (auto simp: sw Run_start_def Let_def setLeases_def simp del: handlers_changes(2) split: prod.split option.split)
qed

lemma run_on_sup [simp]: "sy_sup (run_on sub out y) = fst (snd out)"
  by (simp add: run_on_def split: prod.split option.split)

lemma system_step_changes:
  assumes "system_step fce R op y = Some y'" "length (sup_changes (sy_sup y)) \<le> changes_capacity"
  shows "length (sup_changes (sy_sup y')) \<le> changes_capacity"
proof (cases op)
  case (DoRun nilctx)
  with assms show ?thesis
    by (auto simp: do_run_def Run_start_changes split: phase.splits if_splits prod.splits)
next
  case (DoLoop ev)
  with assms show ?thesis
    by (auto split: phase.splits if_splits dest!: loop_step_changes)
next
  case DoLeases
  with assms show ?thesis
    by (auto simp: setLeases_def split: phase.splits option.splits prod.splits)
next
  case (DoSend i ctxErr)
  with assms show ?thesis
    by (auto simp: do_send_def send_change_def split: if_splits option.splits)
next
  case (DoChange ctx c)
  with assms show ?thesis
    by (auto simp: do_change_def Let_def split: option.splits prod.splits sum.splits)
qed (use assms in \<open>auto simp: SubscribeProviderRuntime_def receive_runtime_def cancel_runtime_def
      signal_process_def Let_def split: if_splits option.splits\<close>)

lemma system_steps_changes:
  "system_steps fce R ops y = Some y' \<Longrightarrow> length (sup_changes (sy_sup y)) \<le> changes_capacity \<Longrightarrow>
   length (sup_changes (sy_sup y')) \<le> changes_capacity"
  by (induction ops arbitrary: y) (auto split: option.splits intro: system_step_changes)

lemma held_bounded: "finite (held s) \<and> card (held s) \<le> length (sup_controllers s)"
proof -
  have "held s = the ` (ct_process ` set (sup_controllers s) - {None})"
    by (force simp: held_def image_iff)
  moreover have "card (the ` (ct_process ` set (sup_controllers s) - {None})) \<le> card (set (sup_controllers s))"
    by (meson card_image_le card_Diff1_le finite_Diff finite_imageI finite_set le_trans)
  ultimately show ?thesis
    using card_length [of "sup_controllers s"] by (metis finite_Diff finite_imageI finite_set le_trans)
qed

lemma alive_held:
  assumes "supervised_run fce R specs ops y"
  shows "alive (sy_machine y) \<subseteq> held (sy_sup y)"
  using supervised_run_ok(1) [OF assms]
  by (auto simp: system_ok_def process_state_def workers.owned_def split: phase.splits)

text \<open>C14. Every live worker process is the process of one of the two controllers, in every state of every
  run; before \<^verbatim>\<open>Run\<close> and after it returned, for whatever reason, none is alive.\<close>

theorem workers_owned_and_joined:
  assumes "supervised_run fce R specs ops y"
  shows "alive (sy_machine y) \<subseteq> held (sy_sup y) \<and>
    map ct_spec (sup_controllers (sy_sup y)) = sort_key spec_ProviderID specs \<and>
    (case sy_phase y of Idle \<Rightarrow> alive (sy_machine y) = {} | Looping sub \<Rightarrow> True
     | Returned err \<Rightarrow> alive (sy_machine y) = {})"
  using alive_held [OF assms] run_specs(1) [OF assms] supervised_run_ok(1) [OF assms]
  by (auto simp: system_ok_def process_state_def split: phase.splits)

lemma workers_owned_and_joined_witness:
  "\<exists>y. system_steps demo_fce demo_repository (camera_on @ [DoCancel (Leaf ''stop''), DoLoop ContextDone]) (demo_boot [] [False]) = Some y \<and>
     sy_phase y = Returned None \<and> alive (sy_machine y) = {}"
proof -
  let ?run = "system_steps demo_fce demo_repository (camera_on @ [DoCancel (Leaf ''stop''), DoLoop ContextDone])
    (demo_boot [] [False])"
  have "map_option sy_phase ?run = Some (Returned None)"
    by code_simp
  then obtain y where y: "?run = Some y" "sy_phase y = Returned None"
    by auto
  with workers_owned_and_joined [OF demo_run [OF y(1)]] show ?thesis
    by auto
qed

text \<open>The bounds: two worker processes at most are alive, and at most sixteen commands wait for the
  loop.\<close>

theorem workers_bounded:
  assumes "supervised_run fce R specs ops y"
  shows "card (alive (sy_machine y)) \<le> 2 \<and> length (sup_changes (sy_sup y)) \<le> 16"
proof -
  from assms obtain config present m0 s m where
    new: "Supervisor_New machine_ports config present specs m0 = (Inr s, m)" and
    run: "system_steps fce R ops (boot s m) = Some y"
    unfolding supervised_run_def by blast
  have "length (sup_changes (sy_sup y)) \<le> changes_capacity"
    by (rule system_steps_changes [OF run]) (simp add: boot_def Supervisor_New_Inr(10) [OF new])
  moreover have "card (alive (sy_machine y)) \<le> card (held (sy_sup y))"
    using alive_held [OF assms] held_bounded by (blast intro: card_mono)
  ultimately show ?thesis
    using held_bounded [of "sy_sup y"] run_specs(2) [OF assms] by (simp add: changes_capacity_def)
qed

lemma workers_bounded_witness:
  "\<exists>y. system_steps demo_fce demo_repository camera_on (demo_boot [] []) = Some y \<and>
     alive (sy_machine y) = {7} \<and> card (alive (sy_machine y)) \<le> 2"
proof -
  obtain y where y: "system_steps demo_fce demo_repository camera_on (demo_boot [] []) = Some y"
    "summary y = ([7], [(Some 7, P_Starting, ReasonNone), (None, P_Disabled, ReasonDisabledByUser)], True)"
    using camera_on_steps by auto
  then have "alive (sy_machine y) = {7}"
    by (simp add: alive_def summary_def)
  with workers_bounded [OF demo_run [OF y(1)]] y(1) show ?thesis
    by blast
qed

section \<open>The runtime view\<close>



section \<open>Permissions are enforced\<close>

text \<open>The worker of a live process, when each worker that runs has its permission.\<close>

lemma enforced_alive:
  assumes "supervised_run fce R specs ops y" "p \<in> alive (sy_machine y)"
    "\<And>c. c \<in> set (sup_controllers (sy_sup y)) \<Longrightarrow> ct_process c \<noteq> None \<Longrightarrow> permission_of c \<in> granted (grants_of y)"
  shows "\<exists>c \<in> set (sup_controllers (sy_sup y)). ct_process c = Some p \<and> permission_of c \<in> granted (grants_of y)"
  using alive_held [OF assms(1)] assms(2,3) by (force simp: held_def)

lemma supervised_run_step:
  assumes "supervised_run fce R specs ops y" "system_step fce R op y = Some y'"
  shows "supervised_run fce R specs (ops @ [op]) y'"
proof -
  have "system_steps fce R (ops @ [op]) z = Some y'" if "system_steps fce R ops z = Some y" for z
    using that assms(2) by (induction ops arbitrary: z) (auto split: option.splits)
  with assms(1) show ?thesis
    unfolding supervised_run_def by blast
qed



text \<open>When the changes take turns, the permissions are enforced without waiting for a health check: as
  soon as no command is pending, each live worker has its permission granted.\<close>

theorem serial_changes_enforced:
  assumes "Service_New R d ctx w0 = (Inr (ma_service m0), w1)" "alive m0 = {}"
    and "Supervisor_New machine_ports config present specs m0 = (Inr s, m)"
    and "system_steps fce R ops (boot s m) = Some y" "serial_run fce R ops (boot s m)"
    and "pending_commands y = []"
  shows "\<forall>p \<in> alive (sy_machine y). \<exists>c \<in> set (sup_controllers (sy_sup y)).
    ct_process c = Some p \<and> permission_of c \<in> granted (grants_of y)"
proof
  fix p
  assume p: "p \<in> alive (sy_machine y)"
  have run: "supervised_run fce R specs ops y"
    unfolding supervised_run_def using assms(1-4) by blast
  have ok: "system_ok (sort_key spec_ProviderID specs) y"
    by (rule supervised_run_ok(1) [OF run])
  have "mset (map spec_Permission (sort_key spec_ProviderID specs)) = mset (map spec_Permission specs)"
    by simp
  with Supervisor_New_Inr(6) [OF assms(3)] have "distinct (map spec_Permission (sort_key spec_ProviderID specs))"
    by (metis mset_eq_imp_distinct_iff)
  moreover have "in_order (boot s m)"
    using Supervisor_New_Inr(10) [OF assms(3)] by (simp add: in_order_def boot_def pending_commands_def)
  ultimately have order: "in_order y"
    using in_order_run [OF assms(4,5) _ boot_ok [OF assms(3,1,2)]] by simp
  from p ok obtain sub where "sy_phase y = Looping sub"
    by (auto simp: system_ok_def process_state_def split: phase.splits)
  with order assms(6) have "permission_of c \<in> granted (grants_of y)"
    if "c \<in> set (sup_controllers (sy_sup y))" "ct_process c \<noteq> None" for c
    using that by (simp add: in_order_def)
  with enforced_alive [OF run p] show "\<exists>c \<in> set (sup_controllers (sy_sup y)).
      ct_process c = Some p \<and> permission_of c \<in> granted (grants_of y)"
    by blast
qed

lemma serial_changes_enforced_witness:
  "\<exists>y. system_steps demo_fce demo_repository camera_on (demo_boot [] []) = Some y \<and>
     alive (sy_machine y) = {7} \<and>
     (\<exists>c \<in> set (sup_controllers (sy_sup y)). ct_process c = Some 7 \<and> permission_of c \<in> granted (grants_of y))"
proof -
  let ?m = "demo_machine [] []"
  let ?run = "system_steps demo_fce demo_repository camera_on (boot demo_supervisor ?m)"
  obtain y where y: "?run = Some y"
    "summary y = ([7], [(Some 7, P_Starting, ReasonNone), (None, P_Disabled, ReasonDisabledByUser)], True)"
    using camera_on_steps by (auto simp: demo_boot_def)
  have "serial_run demo_fce demo_repository camera_on (boot demo_supervisor ?m)"
    by code_simp
  moreover have "map_option pending_commands ?run = Some []"
    by code_simp
  moreover have "Service_New demo_repository True Live (\<lparr>ps_Revision = 0, ps_Grants = []\<rparr>, 5) =
      (Inr (ma_service ?m), (\<lparr>ps_Revision = 0, ps_Grants = []\<rparr>, 5))"
    by (simp add: demo_New demo_machine_def)
  moreover have "alive ?m = {}" "alive (sy_machine y) = {7}"
    using y(2) by (simp_all add: alive_def demo_machine_def summary_def)
  ultimately show ?thesis
    using serial_changes_enforced [OF _ _ demo_supervisor_New y(1)] y(1) by (fastforce simp: demo_boot_def)
qed

section \<open>Failures\<close>

text \<open>Passes over the controllers leave a failed worker as it is while its permission is granted.\<close>

lemma pass_failed:
  fixes sw :: "Supervisor \<times> 'v machine"
  assumes "i < length (sup_controllers (fst sw))" "ct_process (item (fst sw) i) = None" "ct_failed (item (fst sw) i)"
    "permission_of (item (fst sw) i) \<in> granted (srv_current (ma_service (snd sw)))"
    "canonical (srv_current (ma_service (snd sw)))"
  shows "item (fst (snd (reconcileAll machine_ports sw))) i = item (fst sw) i"
proof -
  obtain s m where sw: "sw = (s, m)"
    by (cases sw)
  let ?snap = "srv_current (ma_service m)" and ?is = "[0..<length (sup_controllers s)]"
  have "item (fst (foldl (\<lambda>sw i. reconcile_turn machine_ports ?snap i sw) (s, m) ?is)) i = item s i"
  proof (rule foldl_each [where Q = "\<lambda>j c. j = i \<longrightarrow> c = item s i", THEN mp])
    fix j and sw' :: "Supervisor \<times> 'v machine"
    assume "item (fst sw') j = item (fst (s, m)) j"
    moreover from assms have "permissionEnabled ?snap (spec_Permission (ct_spec (item s i)))"
      by (simp add: sw permissionEnabled_granted permission_of_def)
    ultimately show "j = i \<longrightarrow> item (fst (reconcile_turn machine_ports ?snap j sw')) j = item s i"
      using reconcileOne_failed [of sw' i machine_ports] assms(2,3) by (auto simp: sw)
  qed (use assms(1) sw in auto)
  then show ?thesis
    by (auto simp: sw reconcileAll_def reconcile_each_turns Service_Current_def split: option.split)
qed

primrec passes :: "nat \<Rightarrow> Supervisor \<times> 'v machine \<Rightarrow> Supervisor \<times> 'v machine" where
  "passes 0 sw = sw"
| "passes (Suc n) sw = snd (reconcileAll machine_ports (passes n sw))"

lemma passes_failed:
  fixes sw :: "Supervisor \<times> 'v machine"
  assumes "i < length (sup_controllers (fst sw))" "ct_process (item (fst sw) i) = None" "ct_failed (item (fst sw) i)"
    "permission_of (item (fst sw) i) \<in> granted (srv_current (ma_service (snd sw)))"
    "canonical (srv_current (ma_service (snd sw)))"
  shows "item (fst (passes n sw)) i = item (fst sw) i \<and> same_shape (fst sw) (fst (passes n sw)) \<and>
    settings (snd (passes n sw)) = settings (snd sw)"
proof (induction n)
  case (Suc n)
  have "item (fst (snd (reconcileAll machine_ports (passes n sw)))) i = item (fst (passes n sw)) i"
    by (rule pass_failed) (use Suc.IH assms in \<open>simp_all add: same_shape_def settings_def\<close>)
  with Suc.IH reconcileAll_shape [of "passes n sw" machine_ports] show ?case
    by (auto intro: same_shape_trans)
qed simp

text \<open>The turn that meets the exit.\<close>

lemma exit_noticed:
  assumes "i < length (sup_controllers s)" "ct_process (item s i) = Some p" "p \<notin> alive m"
  shows "ct_process (item (fst (reconcileOne machine_ports i True (s, m))) i) = None \<and>
    ct_failed (item (fst (reconcileOne machine_ports i True (s, m))) i) \<and>
    runtime_is (ct_runtime (item (fst (reconcileOne machine_ports i True (s, m))) i)) P_Degraded ReasonInternalError"
proof -
  let ?id = "spec_ProviderID (ct_spec (item s i))"
  let ?sw = "notice_exit machine_ports i True (s, m)"
  have sw: "ct_process (item (fst ?sw) i) = None" "ct_failed (item (fst ?sw) i)"
    "runtime_is (ct_runtime (item (fst ?sw) i)) P_Degraded ReasonInternalError"
    using assms by (simp_all add: notice_exit_def Let_def change_item_item)
  then have "reconcileOne machine_ports i True (s, m) = ?sw"
    by (simp add: reconcileOne_def split_beta)
  with sw show ?thesis
    by simp
qed

text \<open>Switching the permission off and on again starts a worker that has no process.\<close>

lemma setRuntime_machine [simp]: "snd (setRuntimeLocked machine_ports i st re sw) = snd sw"
  by (simp add: setRuntimeLocked_def split_beta Let_def)

lemma toggle_starts:
  assumes "i < length (sup_controllers (fst sw))" "ct_process (item (fst sw) i) = None"
    "pt_starts (ma_table (snd sw)) = []"
  shows "ct_process (item (fst (reconcileOne machine_ports i True (reconcileOne machine_ports i False sw))) i) =
    Some (pt_next (ma_table (snd sw)))"
proof -
  let ?off = "reconcileOne machine_ports i False sw"
  have "?off = stop_worker machine_ports i sw"
    using assms(2) by (cases sw) (simp add: reconcileOne_def notice_exit_def)
  then have machine: "snd ?off = snd sw"
    using assms(1,2) by (simp add: stop_worker_def split_beta Let_def change_item_item)
  have off: "ct_process (item (fst ?off) i) = None" "\<not> ct_failed (item (fst ?off) i)"
    using reconcileOne_disabled [OF assms(1), of machine_ports] by (simp_all add: is_disabled_def)
  have "same_frame i (fst sw) (fst ?off)"
    by simp
  with assms(1) have len: "i < length (sup_controllers (fst ?off))"
    by (simp add: same_frame_def)
  have "reconcileOne machine_ports i True ?off = start_worker machine_ports i ?off"
    using off by (cases ?off) (simp add: reconcileOne_def notice_exit_def)
  with len machine assms(3) show ?thesis
    by (simp add: start_worker_def split_beta Let_def launch_def change_item_item)
qed

text \<open>A worker that exited while its permission is granted is not restarted: when the loop turns to it, it
  is marked DEGRADED with an internal error, and no number of passes changes that. Only switching its
  permission off and on starts a new process.\<close>

theorem crashed_worker_stays_down:
  assumes "supervised_run fce R specs ops y" "i < length (sup_controllers (sy_sup y))"
    "ct_process (item (sy_sup y) i) = Some p" "p \<notin> alive (sy_machine y)"
    "permission_of (item (sy_sup y) i) \<in> granted (grants_of y)"
    and "sw = passes n (reconcileOne machine_ports i True (sy_sup y, sy_machine y))"
  shows "ct_process (item (fst sw) i) = None \<and>
    runtime_is (ct_runtime (item (fst sw) i)) P_Degraded ReasonInternalError \<and>
    (pt_starts (ma_table (snd sw)) = [] \<longrightarrow>
       ct_process (item (fst (reconcileOne machine_ports i True (reconcileOne machine_ports i False sw))) i) \<noteq> None)"
proof -
  let ?sw = "reconcileOne machine_ports i True (sy_sup y, sy_machine y)"
  have frame: "same_frame i (sy_sup y) (fst ?sw)"
    by simp
  have look: "settings (snd ?sw) = settings (sy_machine y)"
    using settings.reconcileOne_look [of i True "(sy_sup y, sy_machine y)"] by simp
  have "canonical (srv_current (ma_service (snd ?sw)))"
    using supervised_run_ok(1) [OF assms(1)] look by (simp add: system_ok_def settings_def)
  moreover have "i < length (sup_controllers (fst ?sw))" "permission_of (item (fst ?sw) i) = permission_of (item (sy_sup y) i)"
    using frame assms(2) by (simp_all add: same_frame_def permission_of_def)
  moreover note exit_noticed [OF assms(2-4)]
  ultimately have after: "item (fst sw) i = item (fst ?sw) i" "i < length (sup_controllers (fst sw))"
    using passes_failed [of i ?sw n] assms(5,6) look by (simp_all add: grants_of_def settings_def same_shape_def)
  with exit_noticed [OF assms(2-4)] show ?thesis
    using toggle_starts [of i sw] by simp
qed

lemma crashed_worker_stays_down_witness:
  "\<exists>y. system_steps demo_fce demo_repository (camera_on @ [DoExit 7]) (demo_boot [] []) = Some y \<and>
     (let sw = passes 2 (reconcileOne machine_ports 0 True (sy_sup y, sy_machine y))
      in ct_process (item (fst sw) 0) = None \<and> rt_State (ct_runtime (item (fst sw) 0)) = P_Degraded)"
proof -
  let ?run = "system_steps demo_fce demo_repository (camera_on @ [DoExit 7]) (demo_boot [] [])"
  have "map_option summary ?run =
      Some ([], [(Some 7, P_Starting, ReasonNone), (None, P_Disabled, ReasonDisabledByUser)], True)"
    by code_simp
  then obtain y where y: "?run = Some y"
    "summary y = ([], [(Some 7, P_Starting, ReasonNone), (None, P_Disabled, ReasonDisabledByUser)], True)"
    by auto
  note run = demo_run [OF y(1)]
  have ok: "canonical (grants_of y)"
    using supervised_run_ok(1) [OF run] by (simp add: system_ok_def grants_of_def)
  have "length (sup_controllers (sy_sup y)) = 2" "map ct_spec (sup_controllers (sy_sup y)) = sort_key spec_ProviderID demo_specs"
    by (rule run_specs(2) [OF run], rule run_specs(1) [OF run])
  moreover have "sort_key spec_ProviderID demo_specs = [demo_spec ''cam'' CameraCapture, demo_spec ''mic'' MicrophoneCapture]"
    by code_simp
  ultimately have "permission_of (item (sy_sup y) 0) = CameraCapture" "0 < length (sup_controllers (sy_sup y))"
    by (auto simp: permission_of_def demo_spec_def)
  moreover from y(2) have "ct_process (item (sy_sup y) 0) = Some 7" "7 \<notin> alive (sy_machine y)"
    "permissionEnabled (grants_of y) CameraCapture"
    by (auto simp: summary_def alive_def)
  ultimately show ?thesis
    using crashed_worker_stays_down [OF run, of 0 7 _ 2] permissionEnabled_granted [OF ok] y(1)
    by (simp add: Let_def)
qed

text \<open>
  The mark that a lease was seen survives the exit of the process: a worker whose permission is switched
  off and on after its exit starts as DEGRADED for its device, before it could register.
\<close>

definition retry_ops :: "system_op list" where
  "retry_ops = camera_on @
     [DoRegistry (OpRegister (demo_call 1 7) (demo_request ''cam'' 1)), DoLeases, DoExit 7,
      set_camera False, DoSend 0 None, DoLoop TakeChange, set_camera True, DoSend 0 None, DoLoop TakeChange]"

lemma retry_shows_degraded:
  "map_option summary (system_steps demo_fce demo_repository retry_ops (demo_boot [] [])) =
     Some ([8], [(Some 8, P_Degraded, ReasonDeviceUnavailable), (None, P_Disabled, ReasonDisabledByUser)], True)"
  by code_simp

section \<open>Subscribers\<close>

text \<open>A subscriber of the runtime view has it, or has it pending.\<close>

lemma runtime_subscribers_current:
  assumes "supervised_run fce R specs ops y" "map_of (sup_subs (sy_sup y)) i = Some pending"
  shows "(case pending of None \<Rightarrow> sy_views y i | Some v \<Rightarrow> Some v) = Some (snapshotRuntime (sy_sup y))"
  using supervised_run_ok(1) [OF assms(1)] assms(2)
  by (cases pending) (simp_all add: system_ok_def views_current_def)

end
