(* ===== verification/Desktop_World.thy ===== *)
theory Desktop_World
  imports Desktop_Run Web_Avatar_Props Supervisor_Props
begin

text \<open>
  The desktop control service over what \<^verbatim>\<open>cmd/desktop/app.go\<close> gives it: the web avatar, the worker
  supervisor both as permission service and as provider source, the loopback authorizer. The runner behind
  \<^verbatim>\<open>SubmitControl\<close> is the function \<open>submit\<close> on its state; \<open>patience\<close> is the error with which the context
  of a caller ends when the queue of the supervisor stays full.
\<close>

section \<open>The world\<close>

record ('v, 'r) desktop_world =
  dw_avatar :: Avatar
  dw_system :: "'v system"
  dw_runner :: 'r

definition privacy_context :: "desktop_ctx \<Rightarrow> privacy_ctx" where
  "privacy_context ctx =
     (case ctx of
        NilCtx \<Rightarrow> NilContext
      | Ctx info \<Rightarrow> (case cc_err info of None \<Rightarrow> Live | Some err \<Rightarrow> Done err))"

text \<open>
  \<^verbatim>\<open>Supervisor.Change\<close> taken whole. The branch without a result is the panic of \<^verbatim>\<open>Service.Change\<close>, which
  no canonical service reaches.
\<close>

definition supervisor_Change ::
    "'v Repository \<Rightarrow> goerror \<Rightarrow> privacy_ctx \<Rightarrow> ChangePermission \<Rightarrow> 'v system \<Rightarrow>
     (goerror + privacy_Snapshot) \<times> 'v system" where
  "supervisor_Change R patience ctx command y =
     (let m = sy_machine y in
      case Service_Change R (ma_service m) ctx command (ma_store m) of
        None \<Rightarrow> (Inl (Leaf ''index out of range''), y)
      | Some (res, srv, v) \<Rightarrow>
          let y1 = y\<lparr>sy_machine := m\<lparr>ma_service := srv, ma_store := v\<rparr>\<rparr>
          in case res of
               Inl err \<Rightarrow> (Inl err, y1)
             | Inr snapshot \<Rightarrow>
                 (case send_change command (Some patience) (sy_sup y1) of
                    Some (None, s) \<Rightarrow> (Inr snapshot, y1\<lparr>sy_sup := s\<rparr>)
                  | Some (Some err, s) \<Rightarrow> (Inl err, y1\<lparr>sy_sup := s\<rparr>)
                  | None \<Rightarrow> (Inl patience, y1)))"

definition desktop_ports_of ::
    "'v Repository \<Rightarrow> LoopbackAuthorizer \<Rightarrow> (desktop_ctx \<Rightarrow> Command \<Rightarrow> 'r \<Rightarrow> goerror option \<times> 'r) \<Rightarrow> goerror \<Rightarrow>
     ('v, 'r) desktop_world desktop_ports" where
  "desktop_ports_of R auth submit patience =
     \<lparr>dp_Authorize = (\<lambda>ctx. map_option StatusErr (loopback_Authorize auth ctx)),
      dp_Avatar = (\<lambda>w. (avatar_Current (dw_avatar w), w)),
      dp_Permissions = (\<lambda>ctx w. (Service_Current (ma_service (sy_machine (dw_system w))) (privacy_context ctx), w)),
      dp_Change = (\<lambda>ctx c w.
        (case supervisor_Change R patience (privacy_context ctx) c (dw_system w) of
           (res, y) \<Rightarrow> (res, w\<lparr>dw_system := y\<rparr>))),
      dp_Providers = (\<lambda>w. (snapshotRuntime (sy_sup (dw_system w)), w)),
      dp_SubmitControl = (\<lambda>ctx c w. (case submit ctx c (dw_runner w) of (err, r) \<Rightarrow> (err, w\<lparr>dw_runner := r\<rparr>))),
      dp_Now = (\<lambda>w. (ma_now (sy_machine (dw_system w)), w))\<rparr>"

definition perms_of :: "('v, 'r) desktop_world \<Rightarrow> privacy_Snapshot" where
  "perms_of w = srv_current (ma_service (sy_machine (dw_system w)))"

lemma Service_Change_current:
  "Service_Change R s ctx c w = Some (Inr snap, s', w') \<Longrightarrow> snap = srv_current s'"
  by (auto simp: Service_Change_def Let_def split: option.splits if_splits prod.splits)

lemma supervisor_Change_current:
  assumes "supervisor_Change R patience ctx command y = (Inr snap, y')"
  shows "snap = srv_current (ma_service (sy_machine y'))"
proof -
  from assms obtain srv v where
    change: "Service_Change R (ma_service (sy_machine y)) ctx command (ma_store (sy_machine y)) = Some (Inr snap, srv, v)"
    and "ma_service (sy_machine y') = srv"
    by (auto simp: supervisor_Change_def Let_def split: option.splits prod.splits sum.splits)
  with Service_Change_current [OF change] show ?thesis
    by simp
qed

interpretation desktop: permission_ports "desktop_ports_of R auth submit patience" perms_of
  for R auth submit patience
proof
  show "perms_of (snd (dp_SubmitControl (desktop_ports_of R auth submit patience) ctx command w)) = perms_of w" for ctx command w
    by (simp add: desktop_ports_of_def perms_of_def split: prod.split)
  show "snap = perms_of w" if "fst (dp_Permissions (desktop_ports_of R auth submit patience) ctx w) = Inr snap" for ctx w snap
    using that by (auto simp: desktop_ports_of_def perms_of_def Service_Current_def split: option.splits)
  show "snap = perms_of w'" if "dp_Change (desktop_ports_of R auth submit patience) ctx c w = (Inr snap, w')" for ctx c w snap w'
    using that by (auto simp: desktop_ports_of_def perms_of_def supervisor_Change_current split: prod.splits)
qed (simp_all add: desktop_ports_of_def perms_of_def)

section \<open>Authorization\<close>

text \<open>The request has passed the policy of \<^verbatim>\<open>authorizer.go\<close>.\<close>

definition trusted :: "LoopbackAuthorizer \<Rightarrow> desktop_ctx \<Rightarrow> bool" where
  "trusted auth ctx =
     (\<exists>info md. ctx = Ctx info \<and> loopback_peer info \<and> cc_metadata info = Some md \<and>
        metadata_Get md ''origin'' = [lba_origin auth] \<and>
        metadata_Get md ''authorization'' = [''Bearer '' @ lba_token auth])"

lemma desktop_authorize_iff:
  "desktop_authorize (desktop_ports_of R auth submit patience) ctx = None \<longleftrightarrow> trusted auth ctx"
proof -
  have "loopback_Authorize auth ctx = None \<longleftrightarrow> trusted auth ctx"
    by (simp add: trusted_def loopback_Authorize_iff)
  moreover have "ctx = NilCtx \<Longrightarrow> \<not> trusted auth ctx"
    by (simp add: trusted_def)
  ultimately show ?thesis
    by (auto simp: desktop_authorize_def desktop_ports_of_def split: option.splits desktop_ctx.splits)
qed

fun call_of :: "'w desk_op \<Rightarrow> desktop_ctx option" where
  "call_of (DkGet ctx version) = Some ctx"
| "call_of (DkSet ctx request) = Some ctx"
| "call_of (DkReject ctx request) = Some ctx"
| "call_of (DkWatch ctx version avatar providers sent) = Some ctx"
| "call_of _ = None"

text \<open>Only authorized calls are served: a call whose peer is not a loopback TCP address, or without exactly
  the panel's origin and the bearer token, is refused before anything else happens. It changes neither the
  service nor the avatar, the permissions, the workers or the runner, and no state is handed out.\<close>

theorem only_authorized_served:
  assumes "desk_step (desktop_ports_of R auth submit patience) fce V perms_of op d = Some d'"
    and "call_of op = Some ctx" "\<not> trusted auth ctx"
  shows "de_server d' = de_server d \<and> de_world d' = de_world d \<and> de_log d' = de_log d \<and> de_watches d' = de_watches d \<and>
    de_shown d' = de_shown d"
proof -
  obtain err where err: "desktop_authorize (desktop_ports_of R auth submit patience) ctx = Some err"
    using assms(3) desktop_authorize_iff by fastforce
  show ?thesis
  proof (cases op)
    case (DkGet c version)
    with assms(1,2) err show ?thesis by (auto simp: GetState_def answered_def)
  next
    case (DkSet c request)
    with assms(1,2) err show ?thesis by (auto simp: SetPermission_def answered_def)
  next
    case (DkReject c request)
    with assms(1,2) err show ?thesis by (auto simp: RejectInteraction_def)
  next
    case (DkWatch c version avatar providers sent)
    with assms(1,2) err show ?thesis
      by (auto simp: watch_begin_def watched_def Let_def fun_upd_idem split: if_splits)
  qed (use assms(2) in simp_all)
qed

section \<open>The state is always available\<close>

lemma new_controllers_ids:
  "new_controllers now specs known kinds = Inr cs \<Longrightarrow>
   distinct (map spec_ProviderID specs) \<and> spec_ProviderID ` set specs \<inter> known = {} \<and>
   (\<forall>spec \<in> set specs. spec_ProviderID spec \<noteq> [] \<and> TrimSpace (spec_ProviderID spec) = spec_ProviderID spec)"
proof (induction specs arbitrary: known kinds cs)
  case (Cons spec specs)
  then obtain cs' where rest: "new_controllers now specs (insert (spec_ProviderID spec) known) (insert (spec_Permission spec) kinds) = Inr cs'"
    by (auto simp: Let_def split: if_splits sum.splits)
  from Cons.IH [OF rest] Cons.prems show ?case
    by (auto simp: Let_def split: if_splits)
qed simp

lemma run_provider_ids:
  assumes "supervised_run fce (R :: 'v Repository) specs ops y"
  shows "distinct (map rt_ProviderID (map ct_runtime (sup_controllers (sy_sup y))))"
    "\<forall>c \<in> set (sup_controllers (sy_sup y)). rt_ProviderID (ct_runtime c) \<noteq> [] \<and>
       TrimSpace (rt_ProviderID (ct_runtime c)) = rt_ProviderID (ct_runtime c)"
proof -
  let ?cs = "sup_controllers (sy_sup y)"
  from assms obtain config present m0 s m where
    "Supervisor_New (machine_ports :: 'v machine worker_ports) config present specs m0 = (Inr s, m)"
    unfolding supervised_run_def by blast
  then obtain now cs where "new_controllers now (sort_key spec_ProviderID specs) {} {} = Inr cs"
    by (auto simp: Supervisor_New_def Let_def split: if_splits prod.splits sum.splits)
  note ids = new_controllers_ids [OF this]
  have ok: "\<forall>c \<in> set ?cs. controller_ok c"
    using supervised_run_ok(1) [OF assms] by (simp add: system_ok_def supervisor_ok_def)
  have "map rt_ProviderID (map ct_runtime ?cs) = map spec_ProviderID (map ct_spec ?cs)"
    using ok by (simp add: controller_ok_def)
  also have "\<dots> = map spec_ProviderID (sort_key spec_ProviderID specs)"
    by (simp only: run_specs(1) [OF assms])
  finally have same: "map rt_ProviderID (map ct_runtime ?cs) = map spec_ProviderID (sort_key spec_ProviderID specs)" .
  with ids show "distinct (map rt_ProviderID (map ct_runtime ?cs))"
    by (simp add: same del: map_map)
  show "\<forall>c \<in> set ?cs. rt_ProviderID (ct_runtime c) \<noteq> [] \<and> TrimSpace (rt_ProviderID (ct_runtime c)) = rt_ProviderID (ct_runtime c)"
  proof
    fix c
    assume "c \<in> set ?cs"
    then have "rt_ProviderID (ct_runtime c) \<in> set (map rt_ProviderID (map ct_runtime ?cs))"
      by simp
    then have "rt_ProviderID (ct_runtime c) \<in> spec_ProviderID ` set specs"
      unfolding same by simp
    with ids show "rt_ProviderID (ct_runtime c) \<noteq> [] \<and> TrimSpace (rt_ProviderID (ct_runtime c)) = rt_ProviderID (ct_runtime c)"
      by auto
  qed
qed

text \<open>Every instant the sources show is a valid timestamp, and an unchanged permission has none.\<close>

definition instants_valid :: "(time \<Rightarrow> bool) \<Rightarrow> ('v, 'r) desktop_world \<Rightarrow> bool" where
  "instants_valid V w =
     ((let t = upd_OccurredAt (ava_current (dw_avatar w)) in t \<noteq> 0 \<and> V t) \<and>
      (\<forall>c \<in> set (sup_controllers (sy_sup (dw_system w))). rt_UpdatedAt (ct_runtime c) \<noteq> 0 \<and> V (rt_UpdatedAt (ct_runtime c))) \<and>
      (\<forall>g \<in> set (ps_Grants (perms_of w)). gr_UpdatedAt g \<noteq> 0 \<longrightarrow> V (gr_UpdatedAt g) \<and> ps_Revision (perms_of w) \<noteq> 0))"

lemma controller_pair: "controller_ok c \<Longrightarrow> validProviderStateReason (rt_State (ct_runtime c)) (rt_Reason (ct_runtime c))"
  by (auto simp: controller_ok_def split: option.splits if_splits)

lemma providersToWire_run:
  assumes "supervised_run fce R specs ops (dw_system w)" "instants_valid V w"
  shows "\<exists>ws. providersToWire V (snapshotRuntime (sy_sup (dw_system w))) = Inr ws"
proof -
  let ?cs = "sup_controllers (sy_sup (dw_system w))"
  have "\<forall>c \<in> set ?cs. controller_ok c"
    using supervised_run_ok(1) [OF assms(1)] by (simp add: system_ok_def supervisor_ok_def)
  with run_provider_ids(2) [OF assms(1)] assms(2) have "\<forall>rt \<in> set (map ct_runtime ?cs). runtime_valid V rt"
    by (auto simp: runtime_valid_def instants_valid_def controller_pair)
  from runtimes_to_wire_Inr [OF this run_provider_ids(1) [OF assms(1)], of "{}"] show ?thesis
    by (auto simp: providersToWire_def snapshotRuntime_def)
qed

text \<open>The service never answers an authorized reader with an internal error: over every avatar and every
  supervisor that runs from their construction can reach, and valid instants, \<^verbatim>\<open>GetState\<close> returns the state,
  with the picture of the avatar and the eight permissions as they are, and changes none of the sources.\<close>

theorem desktop_state_available:
  assumes "Avatar_New realizer speaker clock now0 = Inr d0" "avatar_steps avops (d0, Map.empty) = Some (dw_avatar w, view)"
    and "supervised_run fce' R specs ops (dw_system w)" "instants_valid V w"
    and "trusted auth (Ctx info)" "cc_err info = None"
  shows "\<exists>state s'. GetState (desktop_ports_of R auth submit patience) fce V (Ctx info) ''v1'' (s, w) = (Inr state, s', w) \<and>
    aw_Text (ds_Avatar state) = upd_Text (avatar_Current (dw_avatar w)) \<and>
    aw_Speaking (ds_Avatar state) = upd_Speaking (avatar_Current (dw_avatar w)) \<and>
    map (\<lambda>g. (gw_Permission g, gw_Enabled g)) (ds_Permissions state) =
      map (\<lambda>p. (permission_number p, permissionEnabled (perms_of w) p)) permissionOrder"
proof -
  let ?P = "desktop_ports_of R auth submit patience" and ?u = "ava_current (dw_avatar w)"
  have "picture_ok (dw_avatar w)"
    by (rule avatar_picture(1) [OF assms(1,2)])
  then have "upd_Mode ?u \<noteq> OtherMode m" "upd_Speaking ?u \<Longrightarrow> upd_Mode ?u = ModeSpeaking" for m
    by (auto simp: picture_ok_def)
  then obtain avatar where avatar: "avatarToWire V ?u = Inr avatar" "aw_Text avatar = upd_Text ?u"
    "aw_Speaking avatar = upd_Speaking ?u"
    using avatarToWire_Inr [of ?u V] assms(4) by (auto simp: instants_valid_def Let_def)
  have "canonical (perms_of w)"
    using supervised_run_ok(1) [OF assms(3)] by (simp add: system_ok_def perms_of_def)
  with assms(4) have perms: "permissionsToWire V (perms_of w) = Inr (map grant_message (ps_Grants (perms_of w)))"
    by (intro permissionsToWire_Inr) (auto simp: instants_valid_def)
  obtain ws where ws: "providersToWire V (snapshotRuntime (sy_sup (dw_system w))) = Inr ws"
    using providersToWire_run [OF assms(3,4)] by blast
  have ports: "desktop_authorize ?P (Ctx info) = None" "dp_Avatar ?P w = (?u, w)"
    "dp_Providers ?P w = (snapshotRuntime (sy_sup (dw_system w)), w)" "dp_Permissions ?P (Ctx info) w = (Inr (perms_of w), w)"
    using assms(5,6) desktop_authorize_iff [of R auth submit patience "Ctx info"]
    by (simp_all add: desktop_ports_of_def avatar_Current_def Service_Current_def check_ctx_def privacy_context_def perms_of_def)
  have "\<exists>state s'. GetState ?P fce V (Ctx info) ''v1'' (s, w) = (Inr state, s', w) \<and> ds_Avatar state = avatar \<and>
      ds_Permissions state = map grant_message (ps_Grants (perms_of w))"
    by (simp add: GetState_def ports validateProtocol_def protocolVersion_def currentState_def avatar perms ws split: prod.split)
  moreover have "map (\<lambda>g. (gw_Permission g, gw_Enabled g)) (map grant_message (ps_Grants (perms_of w))) =
      map (\<lambda>p. (permission_number p, permissionEnabled (perms_of w) p)) permissionOrder"
    using message_flags [OF perms] by (simp add: message_flag_def [abs_def] shown_grants_def)
  ultimately show ?thesis
    using avatar(2,3) by (auto simp: avatar_Current_def)
qed

section \<open>Watchers\<close>


section \<open>Examples\<close>

text \<open>A watcher attaches, the camera is allowed through the panel, and the watcher takes its notification.\<close>

definition demo_auth :: LoopbackAuthorizer where
  "demo_auth = \<lparr>lba_token = ''t'', lba_origin = ''http://127.0.0.1:8080'', lba_wantBearerLen = 8\<rparr>"

definition demo_info :: call_info where
  "demo_info =
     \<lparr>cc_err = None, cc_peer = Some (TCPAddr [127, 0, 0, 1]),
      cc_metadata = Some [''origin'' \<mapsto> [''http://127.0.0.1:8080''], ''authorization'' \<mapsto> [''Bearer t'']]\<rparr>"

definition demo_submit :: "desktop_ctx \<Rightarrow> Command \<Rightarrow> unit \<Rightarrow> goerror option \<times> unit" where
  "demo_submit ctx c r = (None, r)"

definition demo_ports :: "((privacy_Snapshot \<times> time), unit) desktop_world desktop_ports" where
  "demo_ports = desktop_ports_of demo_repository demo_auth demo_submit ContextDeadlineExceeded"

definition demo_world :: "((privacy_Snapshot \<times> time), unit) desktop_world" where
  "demo_world = \<lparr>dw_avatar = demo_avatar, dw_system = demo_boot [] [], dw_runner = ()\<rparr>"

definition demo_server :: Desktop where
  "demo_server = \<lparr>dk_subjectID = ''u'', dk_revision = 0, dk_hasSourceTuple = False, dk_sourceAvatar = 0,
     dk_sourcePrivacy = 0, dk_sourceProvider = 0, dk_permissionSubs = [], dk_nextSubID = 0\<rparr>"

lemma demo_server_New: "Desktop_NewServer ''u'' True = Inr demo_server"
  by (simp add: Desktop_NewServer_def TrimSpace_printing printing_def demo_server_def)

definition positive :: "time \<Rightarrow> bool" where
  "positive t = (0 < t)"

definition camera_request :: "bool \<Rightarrow> SetPermissionRequest" where
  "camera_request b = \<lparr>spr_ProtocolVersion = ''v1'', spr_Permission = 1, spr_Enabled = b\<rparr>"

definition demo_desk_ops :: "((privacy_Snapshot \<times> time), unit) desktop_world desk_op list" where
  "demo_desk_ops =
     [DkWatch (Ctx demo_info) ''v1'' (ava_current demo_avatar) (snapshotRuntime demo_supervisor) None,
      DkSet (Ctx demo_info) (camera_request True),
      DkCase 0 (Ctx demo_info) (WatchPermission True) None]"

definition desk_summary :: "((privacy_Snapshot \<times> time), unit) desktop_world desk \<Rightarrow>
    (bool \<times> bool option \<times> bool) \<times> (64 word \<times> bool) list" where
  "desk_summary d =
     ((de_missed d, map_of (dk_permissionSubs (de_server d)) 0, permissionEnabled (perms_of (de_world d)) CameraCapture),
      map (\<lambda>(t, state). (ds_Revision state, snd (message_flag (hd (ds_Permissions state))))) (de_log d))"

abbreviation demo_run_desk :: "((privacy_Snapshot \<times> time), unit) desktop_world desk option" where
  "demo_run_desk \<equiv> desk_steps demo_ports demo_fce positive perms_of demo_desk_ops (desk_boot demo_server demo_world)"

lemma demo_desk_run:
  "map_option desk_summary demo_run_desk = Some ((False, Some False, True), [(1, False), (2, True), (2, True)])"
  by code_simp




lemma demo_trusted: "trusted demo_auth (Ctx demo_info)"
  by (auto simp: trusted_def demo_auth_def demo_info_def loopback_peer_def IsLoopback_def To4_def metadata_Get_def)

lemma desktop_state_available_witness:
  "\<exists>y state sw. system_steps demo_fce demo_repository camera_on (demo_boot [] []) = Some y \<and>
     GetState demo_ports demo_fce positive (Ctx demo_info) ''v1'' (demo_server, demo_world\<lparr>dw_system := y\<rparr>) = (Inr state, sw) \<and>
     (1, True) \<in> set (map message_flag (ds_Permissions state))"
proof -
  let ?run = "system_steps demo_fce demo_repository camera_on (demo_boot [] [])"
  have "map_option (\<lambda>y. (summary y, list_all (\<lambda>c. 0 < rt_UpdatedAt (ct_runtime c)) (sup_controllers (sy_sup y)),
      list_all (\<lambda>g. 0 \<le> gr_UpdatedAt g) (ps_Grants (srv_current (ma_service (sy_machine y)))),
      ps_Revision (srv_current (ma_service (sy_machine y))))) ?run =
    Some (([7], [(Some 7, P_Starting, ReasonNone), (None, P_Disabled, ReasonDisabledByUser)], True), True, True, 1)"
    by code_simp
  then obtain y where y: "?run = Some y" "summary y = ([7], [(Some 7, P_Starting, ReasonNone), (None, P_Disabled, ReasonDisabledByUser)], True)"
    and times: "\<forall>c \<in> set (sup_controllers (sy_sup y)). 0 < rt_UpdatedAt (ct_runtime c)"
      "\<forall>g \<in> set (ps_Grants (srv_current (ma_service (sy_machine y)))). 0 \<le> gr_UpdatedAt g"
      "ps_Revision (srv_current (ma_service (sy_machine y))) = 1"
    by (auto simp: list_all_iff)
  let ?w = "demo_world\<lparr>dw_system := y\<rparr>"
  have valid: "instants_valid positive ?w"
    using times by (fastforce simp: instants_valid_def positive_def perms_of_def demo_world_def demo_avatar_def)
  have avatar: "avatar_steps [] (demo_avatar, Map.empty) = Some (dw_avatar ?w, Map.empty)"
    by (simp add: demo_world_def)
  have run: "supervised_run demo_fce demo_repository demo_specs camera_on (dw_system ?w)"
    using demo_run [OF y(1)] by simp
  have "cc_err demo_info = None"
    by (simp add: demo_info_def)
  from desktop_state_available [OF demo_avatar_New avatar run valid demo_trusted this] obtain state s' where
    state: "GetState demo_ports demo_fce positive (Ctx demo_info) ''v1'' (demo_server, ?w) = (Inr state, s', ?w)"
    "map message_flag (ds_Permissions state) =
      map (\<lambda>p. (permission_number p, permissionEnabled (perms_of ?w) p)) permissionOrder"
    unfolding demo_ports_def message_flag_def by blast
  have "permissionEnabled (perms_of ?w) CameraCapture"
    using y(2) by (simp add: summary_def perms_of_def grants_of_def)
  then have "(permission_number CameraCapture, True) \<in> set (map message_flag (ds_Permissions state))"
    unfolding state(2) by (force simp: permissionOrder_def)
  with y(1) state(1) show ?thesis
    by (auto simp: permission_number_def permission_numbers_def)
qed

text \<open>Without the origin header nothing is served.\<close>

lemma only_authorized_served_witness:
  "\<exists>d'. desk_step demo_ports demo_fce positive perms_of
       (DkSet (Ctx (demo_info\<lparr>cc_metadata := Some [''authorization'' \<mapsto> [''Bearer t'']]\<rparr>)) (camera_request True))
       (desk_boot demo_server demo_world) = Some d' \<and> de_world d' = demo_world \<and> de_log d' = []"
proof -
  let ?ctx = "Ctx (demo_info\<lparr>cc_metadata := Some [''authorization'' \<mapsto> [''Bearer t'']]\<rparr>)"
  have "\<not> trusted demo_auth ?ctx"
    by (simp add: trusted_def demo_auth_def demo_info_def metadata_Get_def)
  moreover have "desk_step demo_ports demo_fce positive perms_of (DkSet ?ctx (camera_request True))
      (desk_boot demo_server demo_world) \<noteq> None"
    by (simp del: not_None_eq split: prod.split)
  then obtain d' where d': "desk_step demo_ports demo_fce positive perms_of (DkSet ?ctx (camera_request True))
      (desk_boot demo_server demo_world) = Some d'"
    by blast
  ultimately show ?thesis
    using only_authorized_served [OF d' [unfolded demo_ports_def]] by (auto simp: desk_boot_def)
qed

text \<open>
  The permission is persisted, but the queue of the supervisor is full: the call fails, nobody is
  notified, and the watcher still shows the camera as forbidden.
\<close>

definition busy_world :: "((privacy_Snapshot \<times> time), unit) desktop_world" where
  "busy_world = demo_world\<lparr>dw_system := (demo_boot [] [])\<lparr>sy_sup := demo_supervisor\<lparr>sup_changes :=
     replicate 16 \<lparr>cp_Permission = FaceDetection, cp_Enabled = False\<rparr>\<rparr>\<rparr>\<rparr>"

lemma unannounced_change:
  "map_option desk_summary (desk_steps demo_ports demo_fce positive perms_of (take 2 demo_desk_ops) (desk_boot demo_server busy_world)) =
     Some ((True, Some False, True), [(1, False)])"
  by code_simp

end
