(* ===== verification/Go_Net.thy ===== *)
theory Go_Net
  imports Time_Text
begin

text \<open>
  What the code uses of \<^verbatim>\<open>net\<close>, \<^verbatim>\<open>net/http\<close>, \<^verbatim>\<open>strconv\<close> and \<^verbatim>\<open>path/filepath\<close>: splitting an
  address into host and port, decimal numbers, header fields under their canonical names, absolute paths.
\<close>

section \<open>Addresses\<close>

text \<open>\<^verbatim>\<open>IndexByte\<close> and \<^verbatim>\<open>LastIndexByte\<close>.\<close>

fun index_byte :: "char \<Rightarrow> string \<Rightarrow> nat option" where
  "index_byte c [] = None"
| "index_byte c (x # xs) = (if x = c then Some 0 else map_option Suc (index_byte c xs))"

definition last_index_byte :: "char \<Rightarrow> string \<Rightarrow> nat option" where
  "last_index_byte c s = map_option (\<lambda>i. length s - 1 - i) (index_byte c (rev s))"

text \<open>\<^verbatim>\<open>net.SplitHostPort\<close>; \<open>None\<close> is any of its errors.\<close>

definition SplitHostPort :: "string \<Rightarrow> (string \<times> string) option" where
  "SplitHostPort hostport =
     (case last_index_byte (CHR '':'') hostport of
        None \<Rightarrow> None
      | Some i \<Rightarrow>
          if take 1 hostport = ''['' then
            (case index_byte (CHR '']'') hostport of
               None \<Rightarrow> None
             | Some end_i \<Rightarrow>
                 if Suc end_i \<noteq> i then None
                 else if CHR ''['' \<in> set (drop 1 hostport) \<or> CHR '']'' \<in> set (drop (Suc end_i) hostport) then None
                 else Some (take (end_i - 1) (drop 1 hostport), drop (Suc i) hostport))
          else if CHR '':'' \<in> set (take i hostport) then None
          else if CHR ''['' \<in> set hostport \<or> CHR '']'' \<in> set hostport then None
          else Some (take i hostport, drop (Suc i) hostport))"

text \<open>\<^verbatim>\<open>net.JoinHostPort\<close>, which the text of a TCP address uses.\<close>

definition JoinHostPort :: "string \<Rightarrow> string \<Rightarrow> string" where
  "JoinHostPort host port =
     (if CHR '':'' \<in> set host then CHR ''['' # host @ '']:'' @ port else host @ CHR '':'' # port)"

section \<open>Numbers\<close>

text \<open>\<^verbatim>\<open>strconv.Atoi\<close> on a 64-bit platform.\<close>

definition Atoi :: "string \<Rightarrow> int option" where
  "Atoi s =
     (let negative = (take 1 s = ''-'');
          digits = (if take 1 s = ''-'' \<or> take 1 s = ''+'' then drop 1 s else s);
          n = (if negative then - dec_val digits else dec_val digits)
      in if digits = [] \<or> \<not> list_all isDigit digits then None
         else if - (2 ^ 63) \<le> n \<and> n < 2 ^ 63 then Some n else None)"

section \<open>Header fields\<close>

text \<open>\<^verbatim>\<open>textproto.CanonicalMIMEHeaderKey\<close> on a name of letters, digits and hyphens.\<close>

definition to_upper :: "char \<Rightarrow> char" where
  "to_upper c = (let n = of_char c :: nat in if 97 \<le> n \<and> n \<le> 122 then char_of (n - 32) else c)"

definition to_lower :: "char \<Rightarrow> char" where
  "to_lower c = (let n = of_char c :: nat in if 65 \<le> n \<and> n \<le> 90 then char_of (n + 32) else c)"

fun canonical_key :: "bool \<Rightarrow> string \<Rightarrow> string" where
  "canonical_key upper [] = []"
| "canonical_key upper (c # cs) = (if upper then to_upper c else to_lower c) # canonical_key (c = CHR ''-'') cs"

type_synonym http_Header = "string \<rightharpoonup> string list"

definition header_Values :: "http_Header \<Rightarrow> string \<Rightarrow> string list" where
  "header_Values h key = (case h (canonical_key True key) of None \<Rightarrow> [] | Some vs \<Rightarrow> vs)"

definition header_Set :: "string \<Rightarrow> string \<Rightarrow> http_Header \<Rightarrow> http_Header" where
  "header_Set key value h = h(canonical_key True key \<mapsto> [value])"

section \<open>Paths\<close>

definition IsAbs :: "string \<Rightarrow> bool" where
  "IsAbs path = (take 1 path = ''/'')"

section \<open>Lemmas\<close>

lemma index_byte_append: "c \<notin> set xs \<Longrightarrow> index_byte c (xs @ c # ys) = Some (length xs)"
  by (induction xs) auto

lemma last_index_byte_append: "c \<notin> set ys \<Longrightarrow> last_index_byte c (xs @ c # ys) = Some (length xs)"
  by (simp add: last_index_byte_def index_byte_append)

lemma index_byte_None: "index_byte c xs = None \<longleftrightarrow> c \<notin> set xs"
  by (induction xs) auto

text \<open>The text of an address splits into the host and port it was joined from.\<close>

lemma Split_Join:
  assumes "set port \<inter> set '':[]'' = {}" "set host \<inter> set ''[]'' = {}"
  shows "SplitHostPort (JoinHostPort host port) = Some (host, port)"
proof (cases "CHR '':'' \<in> set host")
  case True
  let ?t = "CHR ''['' # host @ CHR '']'' # CHR '':'' # port"
  have "last_index_byte (CHR '':'') ?t = Some (length host + 2)"
    using last_index_byte_append [of "CHR '':''" port "CHR ''['' # host @ [CHR '']'']"] assms(1) by simp
  moreover have "index_byte (CHR '']'') ?t = Some (Suc (length host))"
    using index_byte_append [of "CHR '']''" "CHR ''['' # host" "CHR '':'' # port"] assms(2) by simp
  ultimately show ?thesis
    using assms True by (auto simp: SplitHostPort_def JoinHostPort_def)
next
  case False
  moreover have "take 1 (host @ CHR '':'' # port) \<noteq> ''[''"
    using assms(2) by (cases host) auto
  ultimately show ?thesis
    using assms last_index_byte_append [of "CHR '':''" port host] by (auto simp: SplitHostPort_def JoinHostPort_def)
qed

lemma header_Set_Values: "header_Values (header_Set key value h) key = [value]"
  by (simp add: header_Values_def header_Set_def)

end
