(* ===== verification/Connect_Bridge.thy ===== *)
theory Connect_Bridge
  imports Desktop_World Go_Net
begin

text \<open>
  Package \<^verbatim>\<open>adapters/ui/desktopconnect\<close> (\<^verbatim>\<open>bridge.go\<close>): the HTTP side of the desktop service. The
  browser's request reaches it with the address of the peer, which \<^verbatim>\<open>PeerContext\<close> puts into the context,
  and its header fields, of which \<^verbatim>\<open>enrichedContext\<close> passes on two; the errors of the service become
  errors of the Connect protocol. \<^verbatim>\<open>net.ParseIP\<close> is the parameter \<open>parseIP\<close>, as in
  \<^verbatim>\<open>Desktop_Authorizer\<close>. The generated Connect handlers only decode and encode.
\<close>

section \<open>Error codes\<close>

datatype connect_Code =
    Connect_Canceled | Connect_Unknown | Connect_InvalidArgument | Connect_DeadlineExceeded | Connect_NotFound
  | Connect_AlreadyExists | Connect_PermissionDenied | Connect_ResourceExhausted | Connect_FailedPrecondition
  | Connect_Aborted | Connect_OutOfRange | Connect_Unimplemented | Connect_Internal | Connect_Unavailable
  | Connect_DataLoss | Connect_Unauthenticated

fun connectCode :: "grpc_code \<Rightarrow> connect_Code" where
  "connectCode Code_Canceled = Connect_Canceled"
| "connectCode Code_InvalidArgument = Connect_InvalidArgument"
| "connectCode Code_DeadlineExceeded = Connect_DeadlineExceeded"
| "connectCode Code_NotFound = Connect_NotFound"
| "connectCode Code_AlreadyExists = Connect_AlreadyExists"
| "connectCode Code_PermissionDenied = Connect_PermissionDenied"
| "connectCode Code_FailedPrecondition = Connect_FailedPrecondition"
| "connectCode Code_Internal = Connect_Internal"
| "connectCode Code_Unavailable = Connect_Unavailable"
| "connectCode Code_Unauthenticated = Connect_Unauthenticated"
| "connectCode Code_Aborted = Connect_Aborted"
| "connectCode (Code_Other n) =
     (if n = 2 then Connect_Unknown
      else if n = 8 then Connect_ResourceExhausted
      else if n = 11 then Connect_OutOfRange
      else if n = 12 then Connect_Unimplemented
      else if n = 15 then Connect_DataLoss
      else Connect_Unknown)"

datatype connect_error = ConnectError connect_Code string

text \<open>An error of the service is a status; \<^verbatim>\<open>status.FromError\<close> fails on anything else.\<close>

fun connectError :: "rpc_error + goerror \<Rightarrow> connect_error" where
  "connectError (Inl (RpcError code msg)) = ConnectError (connectCode code) msg"
| "connectError (Inr err) = ConnectError Connect_Internal ''desktop service failed''"

section \<open>Contexts\<close>

record http_Request =
  hr_RemoteAddr :: string
  hr_Header :: http_Header
  hr_ctxErr :: "goerror option"

definition PeerContext :: "(string \<Rightarrow> ip option) \<Rightarrow> http_Request \<Rightarrow> call_info" where
  "PeerContext parseIP request =
     (let ctx = \<lparr>cc_err = hr_ctxErr request, cc_peer = None, cc_metadata = None\<rparr> in
      case SplitHostPort (hr_RemoteAddr request) of
        None \<Rightarrow> ctx
      | Some (host, port) \<Rightarrow>
          (case (parseIP host, Atoi port) of
             (Some ip, Some parsedPort) \<Rightarrow>
               if 0 < parsedPort \<and> parsedPort \<le> 65535 then ctx\<lparr>cc_peer := Some (TCPAddr ip)\<rparr> else ctx
           | _ \<Rightarrow> ctx))"

definition enrichedContext :: "call_info \<Rightarrow> http_Header \<Rightarrow> desktop_ctx" where
  "enrichedContext ctx header =
     (let authorization = header_Values header ''authorization'';
          origin = header_Values header ''origin'';
          values0 = Map.empty;
          values1 = (if length authorization \<noteq> 0 then values0(''authorization'' \<mapsto> authorization) else values0);
          values2 = (if length origin \<noteq> 0 then values1(''origin'' \<mapsto> origin) else values1)
      in Ctx (ctx\<lparr>cc_metadata := Some values2\<rparr>))"

section \<open>The calls\<close>

text \<open>A Connect request is its header fields and its message; the context came through \<^verbatim>\<open>PeerContext\<close>.\<close>

type_synonym 'm connect_Request = "(http_Header \<times> 'm) option"

definition request_required :: connect_error where
  "request_required = ConnectError Connect_InvalidArgument ''request is required''"

definition Bridge_GetState ::
    "'w desktop_ports \<Rightarrow> (goerror \<Rightarrow> rpc_error) \<Rightarrow> (time \<Rightarrow> bool) \<Rightarrow> call_info \<Rightarrow> string connect_Request \<Rightarrow>
     Desktop \<times> 'w \<Rightarrow> (connect_error + DesktopState) \<times> Desktop \<times> 'w" where
  "Bridge_GetState P fce V ctx request sw =
     (case request of
        None \<Rightarrow> (Inl request_required, sw)
      | Some (header, version) \<Rightarrow>
          (case GetState P fce V (enrichedContext ctx header) version sw of
             (Inl err, sw1) \<Rightarrow> (Inl (connectError (Inl err)), sw1)
           | (Inr response, sw1) \<Rightarrow> (Inr response, sw1)))"

definition Bridge_SetPermission ::
    "'w desktop_ports \<Rightarrow> (goerror \<Rightarrow> rpc_error) \<Rightarrow> (time \<Rightarrow> bool) \<Rightarrow> call_info \<Rightarrow> SetPermissionRequest connect_Request \<Rightarrow>
     Desktop \<times> 'w \<Rightarrow> (connect_error + DesktopState) \<times> Desktop \<times> 'w" where
  "Bridge_SetPermission P fce V ctx request sw =
     (case request of
        None \<Rightarrow> (Inl request_required, sw)
      | Some (header, msg) \<Rightarrow>
          (case SetPermission P fce V (enrichedContext ctx header) msg sw of
             (Inl err, sw1) \<Rightarrow> (Inl (connectError (Inl err)), sw1)
           | (Inr response, sw1) \<Rightarrow> (Inr response, sw1)))"

definition Bridge_RejectInteraction ::
    "'w desktop_ports \<Rightarrow> (goerror \<Rightarrow> rpc_error) \<Rightarrow> call_info \<Rightarrow> RejectInteractionRequest connect_Request \<Rightarrow>
     Desktop \<times> 'w \<Rightarrow> connect_error option \<times> Desktop \<times> 'w" where
  "Bridge_RejectInteraction P fce ctx request sw =
     (case request of
        None \<Rightarrow> (Some request_required, sw)
      | Some (header, msg) \<Rightarrow>
          (case RejectInteraction P fce (enrichedContext ctx header) msg sw of
             (Some err, sw1) \<Rightarrow> (Some (connectError (Inl err)), sw1)
           | (None, sw1) \<Rightarrow> (None, sw1)))"

text \<open>The watcher: its stream sends through \<^verbatim>\<open>watchStream\<close>; \<open>sent\<close> is what the stream answers.\<close>

definition Bridge_WatchState ::
    "'w desktop_ports \<Rightarrow> (goerror \<Rightarrow> rpc_error) \<Rightarrow> (time \<Rightarrow> bool) \<Rightarrow> call_info \<Rightarrow> string connect_Request \<Rightarrow> bool \<Rightarrow>
     Update \<Rightarrow> provider_Snapshot \<Rightarrow> goerror option \<Rightarrow> Desktop \<times> 'w \<Rightarrow>
     (connect_error + Watch) \<times> DesktopState option \<times> Desktop \<times> 'w" where
  "Bridge_WatchState P fce V ctx request streamPresent avatar providers sent sw =
     (case request of
        None \<Rightarrow> (Inl (ConnectError Connect_InvalidArgument ''request and stream are required''), None, sw)
      | Some (header, version) \<Rightarrow>
          if \<not> streamPresent then
            (Inl (ConnectError Connect_InvalidArgument ''request and stream are required''), None, sw)
          else (case watch_begin P fce V (enrichedContext ctx header) version avatar providers sent sw of
             (Inl err, msg, sw1) \<Rightarrow> (Inl (connectError (Inl err)), msg, sw1)
           | (Inr watch, msg, sw1) \<Rightarrow> (Inr watch, msg, sw1)))"

definition Bridge_watch_step ::
    "'w desktop_ports \<Rightarrow> (goerror \<Rightarrow> rpc_error) \<Rightarrow> (time \<Rightarrow> bool) \<Rightarrow> call_info \<Rightarrow> http_Header \<Rightarrow> watch_case \<Rightarrow>
     goerror option \<Rightarrow> Watch \<Rightarrow> Desktop \<times> 'w \<Rightarrow> (connect_error + Watch) \<times> DesktopState option \<times> Desktop \<times> 'w" where
  "Bridge_watch_step P fce V ctx header ev sent watch sw =
     (case watch_step P fce V (enrichedContext ctx header) ev sent watch sw of
        (Inl err, msg, sw1) \<Rightarrow> (Inl (connectError (Inl err)), msg, sw1)
      | (Inr watch, msg, sw1) \<Rightarrow> (Inr watch, msg, sw1))"

section \<open>Lemmas\<close>

definition grpc_number :: "grpc_code \<Rightarrow> nat" where
  "grpc_number c =
     (case c of Code_Canceled \<Rightarrow> 1 | Code_InvalidArgument \<Rightarrow> 3 | Code_DeadlineExceeded \<Rightarrow> 4 | Code_NotFound \<Rightarrow> 5
      | Code_AlreadyExists \<Rightarrow> 6 | Code_PermissionDenied \<Rightarrow> 7 | Code_FailedPrecondition \<Rightarrow> 9 | Code_Aborted \<Rightarrow> 10
      | Code_Internal \<Rightarrow> 13 | Code_Unavailable \<Rightarrow> 14 | Code_Unauthenticated \<Rightarrow> 16 | Code_Other n \<Rightarrow> n)"

definition connect_number :: "connect_Code \<Rightarrow> nat" where
  "connect_number c =
     (case c of Connect_Canceled \<Rightarrow> 1 | Connect_Unknown \<Rightarrow> 2 | Connect_InvalidArgument \<Rightarrow> 3
      | Connect_DeadlineExceeded \<Rightarrow> 4 | Connect_NotFound \<Rightarrow> 5 | Connect_AlreadyExists \<Rightarrow> 6
      | Connect_PermissionDenied \<Rightarrow> 7 | Connect_ResourceExhausted \<Rightarrow> 8 | Connect_FailedPrecondition \<Rightarrow> 9
      | Connect_Aborted \<Rightarrow> 10 | Connect_OutOfRange \<Rightarrow> 11 | Connect_Unimplemented \<Rightarrow> 12 | Connect_Internal \<Rightarrow> 13
      | Connect_Unavailable \<Rightarrow> 14 | Connect_DataLoss \<Rightarrow> 15 | Connect_Unauthenticated \<Rightarrow> 16)"

text \<open>The two protocols number their codes alike: the bridge keeps the number of every code that does not share
  its number with a named one.\<close>

lemma connectCode_number:
  assumes "\<And>n. code = Code_Other n \<Longrightarrow> n \<in> {2, 8, 11, 12, 15}"
  shows "connect_number (connectCode code) = grpc_number code"
  using assms by (cases code) (auto simp: connect_number_def grpc_number_def)

lemma enrichedContext_metadata:
  "enrichedContext ctx header = Ctx (ctx\<lparr>cc_metadata := Some md\<rparr>) \<Longrightarrow>
     metadata_Get md ''authorization'' = header_Values header ''authorization'' \<and>
     metadata_Get md ''origin'' = header_Values header ''origin''"
  by (auto simp: enrichedContext_def metadata_Get_def Let_def dest!: arg_cong [where f = cc_metadata] split: if_splits)

text \<open>The address of a peer that counts: a loopback address with a port.\<close>

definition loopback_address :: "(string \<Rightarrow> ip option) \<Rightarrow> string \<Rightarrow> bool" where
  "loopback_address parseIP addr =
     (\<exists>host port ip n. SplitHostPort addr = Some (host, port) \<and> parseIP host = Some ip \<and> ip \<noteq> [] \<and> IsLoopback ip \<and>
        Atoi port = Some n \<and> 0 < n \<and> n \<le> 65535)"

lemma PeerContext_loopback: "loopback_peer (PeerContext parseIP request) \<longleftrightarrow> loopback_address parseIP (hr_RemoteAddr request)"
  by (auto simp: PeerContext_def loopback_peer_def loopback_address_def Let_def split: option.splits if_splits)

text \<open>What a request must be to count as the panel's: a loopback peer, one origin, one bearer token.\<close>

definition panel_request :: "(string \<Rightarrow> ip option) \<Rightarrow> LoopbackAuthorizer \<Rightarrow> http_Request \<Rightarrow> bool" where
  "panel_request parseIP auth r =
     (loopback_address parseIP (hr_RemoteAddr r) \<and>
      header_Values (hr_Header r) ''origin'' = [lba_origin auth] \<and>
      header_Values (hr_Header r) ''authorization'' = [''Bearer '' @ lba_token auth])"

lemma trusted_request:
  "trusted auth (enrichedContext (PeerContext parseIP r) (hr_Header r)) \<longleftrightarrow> panel_request parseIP auth r"
proof -
  obtain md where md: "enrichedContext (PeerContext parseIP r) (hr_Header r) = Ctx (PeerContext parseIP r\<lparr>cc_metadata := Some md\<rparr>)"
    by (simp add: enrichedContext_def Let_def)
  have "loopback_peer (PeerContext parseIP r\<lparr>cc_metadata := Some md\<rparr>) \<longleftrightarrow> loopback_address parseIP (hr_RemoteAddr r)"
    by (simp add: PeerContext_loopback [symmetric] loopback_peer_def)
  with enrichedContext_metadata [OF md] show ?thesis
    by (auto simp: md trusted_def panel_request_def)
qed

section \<open>Properties\<close>

text \<open>C17. Over HTTP only the panel is served. A request whose connection does not come from a loopback address with a
  port, or that has not exactly the panel's origin and exactly the bearer token, whatever other header fields
  it has, is answered with an error by each of the four calls and changes nothing; and a request that has
  them passes the authorizer.\<close>

theorem http_only_panel:
  "let ctx = PeerContext parseIP request; h = hr_Header request; P = desktop_ports_of R auth submit patience in
    if panel_request parseIP auth request then desktop_authorize P (enrichedContext ctx h) = None
    else (\<exists>e. Bridge_GetState P fce V ctx (Some (h, version)) sw = (Inl e, sw)) \<and>
      (\<exists>e. Bridge_SetPermission P fce V ctx (Some (h, change)) sw = (Inl e, sw)) \<and>
      (\<exists>e. Bridge_RejectInteraction P fce ctx (Some (h, reject)) sw = (Some e, sw)) \<and>
      (\<exists>e. Bridge_WatchState P fce V ctx (Some (h, version)) streamPresent avatar providers sent sw = (Inl e, None, sw))"
proof (cases "panel_request parseIP auth request")
  case True
  then show ?thesis
    using desktop_authorize_iff [of R auth submit patience] trusted_request by (simp add: Let_def)
next
  case False
  let ?ctx = "enrichedContext (PeerContext parseIP request) (hr_Header request)"
  obtain err where "desktop_authorize (desktop_ports_of R auth submit patience) ?ctx = Some err"
    using False desktop_authorize_iff [of R auth submit patience ?ctx] trusted_request [of auth parseIP request] by auto
  with False show ?thesis
    by (cases sw) (auto simp: Bridge_GetState_def Bridge_SetPermission_def Bridge_RejectInteraction_def
        Bridge_WatchState_def GetState_def SetPermission_def RejectInteraction_def watch_begin_def Let_def)
qed

end
