(* ===== verification/Web_Panel.thy ===== *)
theory Web_Panel
  imports Desktop_Authorizer Go_Net Go_Strings
begin

text \<open>
  Package \<^verbatim>\<open>adapters/ui/webpanel\<close> (\<^verbatim>\<open>panel.go\<close>, \<^verbatim>\<open>assets.go\<close>): the five files of the panel, served
  from memory. The page carries the bearer token: \<^verbatim>\<open>html/template\<close> puts it, escaped, between the two parts
  of the template. Characters are bytes; \<open>char_bytes\<close> writes those that are not ASCII.
\<close>

section \<open>The files\<close>

definition lines_of :: "string list \<Rightarrow> string" where
  "lines_of ls = concat (map (\<lambda>l. l @ [CHR 0x0A]) ls)"

text \<open>\<^verbatim>\<open>indexTemplate\<close> before and behind the action \<^verbatim>\<open>{{.Token}}\<close>.\<close>

definition index_before :: string where
  \<open>index_before =
     lines_of
     [''<!doctype html>'',
      ''<html lang="zh-CN">'',
      ''<head>'',
      ''  <meta charset="utf-8">'',
      ''  <meta name="viewport" content="width=device-width,initial-scale=1">''] @
     ''  <meta name="desktop-token" content="''\<close>

definition index_after :: string where
  \<open>index_after =
     lines_of
     [''">'',
      ''  <title>'' @ char_bytes [228, 184, 187, 229, 138, 168, 233, 153, 170, 228, 188, 180] @ ''</title>'',
      ''  <link rel="stylesheet" href="/assets/styles.css">'',
      ''</head>'',
      ''<body>'',
      ''  <main>'',
      ''    <p id="connection-status" role="status">'' @ char_bytes [230, 173, 163, 229, 156, 168, 232, 191, 158, 230, 142, 165, 230, 156, 172, 229, 156, 176, 230, 156, 141, 229, 138, 161, 226, 128, 166] @ ''</p>'',
      ''    <section id="avatar" data-wasm="/assets/app.wasm" aria-live="polite">'',
      ''      <p id="avatar-mode">IDLE</p>'',
      ''      <p id="avatar-text"></p>'',
      ''    </section>'',
      ''    <section aria-label="'' @ char_bytes [233, 135, 135, 233, 155, 134, 231, 138, 182, 230, 128, 129] @ ''">'',
      ''      <p id="camera-indicator">'' @ char_bytes [230, 145, 132, 229, 131, 143, 229, 164, 180, 239, 188, 154, 230, 156, 170, 229, 144, 175, 231, 148, 168] @ ''</p>'',
      ''      <p id="microphone-indicator">'' @ char_bytes [233, 186, 166, 229, 133, 139, 233, 163, 142, 239, 188, 154, 230, 156, 170, 229, 144, 175, 231, 148, 168] @ ''</p>'',
      ''      <p id="biometric-indicator">'' @ char_bytes [231, 148, 159, 231, 137, 169, 232, 175, 134, 229, 136, 171, 239, 188, 154, 230, 156, 170, 229, 144, 175, 231, 148, 168] @ ''</p>'',
      ''    </section>'',
      ''    <section id="permissions" aria-label="'' @ char_bytes [233, 154, 144, 231, 167, 129, 230, 157, 131, 233, 153, 144] @ ''"></section>'',
      ''    <section id="providers" aria-label="'' @ char_bytes [232, 131, 189, 229, 138, 155, 231, 138, 182, 230, 128, 129] @ ''"></section>'',
      ''    <button id="reject-button" type="button">'' @ char_bytes [229, 129, 156, 230, 173, 162, 229, 189, 147, 229, 137, 141, 228, 186, 146, 229, 138, 168] @ ''</button>'',
      ''  </main>'',
      ''  <script src="/assets/wasm_exec.js"></script>'',
      ''  <script src="/assets/bootstrap.js"></script>'',
      ''</body>'',
      ''</html>'']\<close>

definition stylesAsset :: string where
  \<open>stylesAsset =
     lines_of
     ['':root { color-scheme: light dark; font-family: system-ui, sans-serif; }'',
      ''body { margin: 0; min-height: 100vh; display: grid; place-items: center; }'',
      ''main { width: min(42rem, calc(100% - 2rem)); display: grid; gap: 1rem; }'',
      ''#avatar { min-height: 12rem; display: grid; place-content: center; text-align: center; border: 1px solid currentColor; border-radius: 1rem; }'',
      ''#reject-button { min-height: 3rem; }'']\<close>

definition bootstrapAsset :: string where
  \<open>bootstrapAsset =
     lines_of
     [''"use strict";'',
      ''(async () => {'',
      ''  const status = document.getElementById("connection-status");'',
      ''  const avatar = document.getElementById("avatar");'',
      ''  try {'',
      ''    if (!avatar || !globalThis.Go) throw new Error("WebAssembly runtime unavailable");'',
      ''    const wasmURL = avatar.dataset.wasm;'',
      ''    if (!wasmURL || !wasmURL.startsWith("/")) throw new Error("WebAssembly path unavailable");'',
      ''    const go = new Go();'',
      ''    const response = await fetch(wasmURL, { cache: "no-store", credentials: "same-origin" });'',
      ''    if (!response.ok) throw new Error("WebAssembly download failed");'',
      ''    const result = await WebAssembly.instantiateStreaming(response, go.importObject);'',
      ''    status.textContent = "'' @ char_bytes [230, 156, 172, 229, 156, 176, 230, 156, 141, 229, 138, 161, 229, 183, 178, 232, 191, 158, 230, 142, 165] @ ''";'',
      ''    await go.run(result.instance);'',
      ''  } catch (_) {'',
      ''    status.textContent = "'' @ char_bytes [230, 156, 172, 229, 156, 176, 233, 157, 162, 230, 157, 191, 229, 144, 175, 229, 138, 168, 229, 164, 177, 232, 180, 165] @ ''";'',
      ''  }'',
      ''})();'']\<close>

text \<open>What \<^verbatim>\<open>html/template\<close> does to a value in a quoted attribute.\<close>

definition attr_escape :: "string \<Rightarrow> string" where
  "attr_escape s =
     concat (map (\<lambda>c.
       if byte c = 0 then char_bytes [239, 191, 189]
       else if byte c = 34 then ''&#34;''
       else if c = CHR ''&'' then ''&amp;''
       else if byte c = 39 then ''&#39;''
       else if c = CHR ''+'' then ''&#43;''
       else if c = CHR ''<'' then ''&lt;''
       else if c = CHR ''>'' then ''&gt;''
       else [c]) s)"

definition render_index :: "string \<Rightarrow> string" where
  "render_index token = index_before @ attr_escape token @ index_after"

section \<open>The panel\<close>

record asset =
  as_contentType :: string
  as_content :: string

type_synonym Panel = "string \<rightharpoonup> asset"

definition Panel_New :: "string \<Rightarrow> string \<Rightarrow> string \<Rightarrow> goerror + Panel" where
  "Panel_New token wasm wasmExec =
     (let op = ''create desktop web panel'' in
      if TrimSpace token = [] then Inl (New_fault InvalidInput op (Leaf ''desktop token is required''))
      else if length wasm = 0 \<or> length wasmExec = 0 then
        Inl (New_fault InvalidInput op (Leaf ''wasm and wasm_exec assets are required''))
      else Inr [''/'' \<mapsto> \<lparr>as_contentType = ''text/html; charset=utf-8'', as_content = render_index token\<rparr>,
                ''/assets/app.wasm'' \<mapsto> \<lparr>as_contentType = ''application/wasm'', as_content = wasm\<rparr>,
                ''/assets/wasm_exec.js'' \<mapsto> \<lparr>as_contentType = ''text/javascript; charset=utf-8'', as_content = wasmExec\<rparr>,
                ''/assets/styles.css'' \<mapsto> \<lparr>as_contentType = ''text/css; charset=utf-8'', as_content = stylesAsset\<rparr>,
                ''/assets/bootstrap.js'' \<mapsto>
                  \<lparr>as_contentType = ''text/javascript; charset=utf-8'', as_content = bootstrapAsset\<rparr>])"

section \<open>Serving\<close>

record page_Request =
  pr_Method :: string
  pr_Path :: string
  pr_EscapedPath :: string

text \<open>A response: the status and the header fields as they are when \<^verbatim>\<open>WriteHeader\<close> sends them, and the body.\<close>

record page_Response =
  ps_Status :: nat
  ps_Header :: http_Header
  ps_Body :: string

definition contentSecurityPolicy :: string where
  "contentSecurityPolicy =
     (let quoted = (\<lambda>s. CHR 0x27 # s @ [CHR 0x27]) in
      ''default-src '' @ quoted ''self'' @ ''; script-src '' @ quoted ''self'' @ '' '' @ quoted ''wasm-unsafe-eval'' @
      ''; connect-src '' @ quoted ''self'' @ ''; style-src '' @ quoted ''self'' @ ''; object-src '' @ quoted ''none'' @
      ''; base-uri '' @ quoted ''none'' @ ''; frame-ancestors '' @ quoted ''none'' @ ''; form-action '' @ quoted ''none'')"

definition setSecurityHeaders :: "http_Header \<Rightarrow> http_Header" where
  "setSecurityHeaders h =
     header_Set ''Referrer-Policy'' ''no-referrer''
       (header_Set ''X-Content-Type-Options'' ''nosniff''
         (header_Set ''Content-Security-Policy'' contentSecurityPolicy
           (header_Set ''Cache-Control'' ''no-store'' h)))"

definition ServeHTTP :: "Panel \<Rightarrow> page_Request \<Rightarrow> page_Response" where
  "ServeHTTP p request =
     (let header = setSecurityHeaders Map.empty in
      if pr_Method request \<noteq> ''GET'' \<and> pr_Method request \<noteq> ''HEAD'' then
        \<lparr>ps_Status = 405, ps_Header = header_Set ''Allow'' ''GET, HEAD'' header, ps_Body = []\<rparr>
      else if pr_EscapedPath request \<noteq> pr_Path request then
        \<lparr>ps_Status = 404, ps_Header = header, ps_Body = []\<rparr>
      else (case p (pr_Path request) of
          None \<Rightarrow> \<lparr>ps_Status = 404, ps_Header = header, ps_Body = []\<rparr>
        | Some selected \<Rightarrow>
            \<lparr>ps_Status = 200,
             ps_Header = header_Set ''Content-Length'' (show_dec (int (length (as_content selected))))
               (header_Set ''Content-Type'' (as_contentType selected) header),
             ps_Body = (if pr_Method request = ''GET'' then as_content selected else [])\<rparr>))"

section \<open>The token in the page\<close>

text \<open>A browser reads the \<^verbatim>\<open>content\<close> attribute of \<^verbatim>\<open>meta[name="desktop-token"]\<close>: from behind the first
  occurrence of the element's opening up to the next quotation mark.\<close>

fun after_first :: "string \<Rightarrow> string \<Rightarrow> string option" where
  "after_first m s =
     (if take (length m) s = m then Some (drop (length m) s)
      else (case s of [] \<Rightarrow> None | c # r \<Rightarrow> after_first m r))"

definition token_marker :: string where
  \<open>token_marker = ''<meta name="desktop-token" content="''\<close>

definition page_token :: "string \<Rightarrow> string option" where
  "page_token page = map_option (takeWhile (\<lambda>c. byte c \<noteq> 34)) (after_first token_marker page)"

lemma after_first_found:
  assumes "\<forall>k < length a. take (length m) (drop k (a @ m)) \<noteq> m"
  shows "after_first m (a @ m @ b) = Some b"
  using assms
proof (induction a)
  case Nil
  then show ?case
    by (subst after_first.simps) simp
next
  case (Cons x a)
  have "take (length m) (((x # a) @ m) @ b) = take (length m) ((x # a) @ m)"
    by (subst take_append) simp
  moreover have "take (length m) ((x # a) @ m) \<noteq> m"
    using Cons.prems by (metis drop0 length_greater_0_conv list.distinct(1))
  moreover have "\<forall>k < length a. take (length m) (drop k (a @ m)) \<noteq> m"
  proof (intro allI impI)
    fix k
    assume "k < length a"
    then show "take (length m) (drop k (a @ m)) \<noteq> m"
      using Cons.prems [rule_format, of "Suc k"] by simp
  qed
  ultimately show ?case
    using Cons.IH by simp
qed

fun occurs_in :: "string \<Rightarrow> string \<Rightarrow> nat \<Rightarrow> bool" where
  "occurs_in m s 0 = False"
| "occurs_in m s (Suc n) = (take (length m) s = m \<or> occurs_in m (drop 1 s) n)"

lemma occurs_in_not: "\<not> occurs_in m s n \<Longrightarrow> k < n \<Longrightarrow> take (length m) (drop k s) \<noteq> m"
proof (induction n arbitrary: s k)
  case (Suc n)
  then show ?case
    using Suc.IH [of "drop 1 s" "k - 1"] by (cases k) simp_all
qed simp

definition index_start :: string where
  "index_start = take (length index_before - length token_marker) index_before"

lemma index_marker: "index_before = index_start @ token_marker" "\<not> occurs_in token_marker index_before (length index_start)"
  by code_simp+

text \<open>Characters the template does not touch, and that do not end the attribute.\<close>

definition attr_plain :: "char \<Rightarrow> bool" where
  "attr_plain c = (byte c \<notin> {0, 34, 39} \<and> c \<notin> set ''&+<>'')"

lemma attr_escape_plain: "list_all attr_plain s \<Longrightarrow> attr_escape s = s"
  by (induction s) (auto simp: attr_escape_def attr_plain_def)

lemma index_after_quote: "take 1 index_after = [char_of (34 :: nat)]"
  by code_simp

lemma takeWhile_quote: "take 1 s = [char_of (34 :: nat)] \<Longrightarrow> takeWhile (\<lambda>c. byte c \<noteq> 34) s = []"
  by (cases s) auto

lemma page_token_plain:
  assumes "list_all attr_plain token"
  shows "page_token (render_index token) = Some token"
proof -
  have "\<forall>k < length index_start. take (length token_marker) (drop k (index_start @ token_marker)) \<noteq> token_marker"
    using occurs_in_not index_marker by metis
  then have "after_first token_marker (index_start @ token_marker @ token @ index_after) = Some (token @ index_after)"
    by (rule after_first_found)
  moreover have "takeWhile (\<lambda>c. byte c \<noteq> 34) index_after = []"
    using index_after_quote by (rule takeWhile_quote)
  then have "takeWhile (\<lambda>c. byte c \<noteq> 34) (token @ index_after) = token"
    using assms by (subst takeWhile_append2) (auto simp: attr_plain_def list_all_iff)
  ultimately show ?thesis
    using assms by (simp add: page_token_def render_index_def attr_escape_plain index_marker(1))
qed

lemma url_alphabet_plain: "list_all (\<lambda>c. attr_plain c \<and> printing c) url_alphabet"
  by code_simp

lemma base64_alphabet: "set (base64_encode bs) \<subseteq> set url_alphabet"
proof -
  have "sextet n \<in> set url_alphabet" if "n < 64" for n
    using that url_alphabet_facts(2) by (simp add: sextet_def)
  moreover have "n mod 64 < 64" for n :: nat
    by simp
  ultimately show ?thesis
    by (induction bs rule: base64_encode.induct) auto
qed

lemma base64_plain: "list_all attr_plain (base64_encode bs)" "list_all printing (base64_encode bs)"
  using url_alphabet_plain base64_alphabet [of bs] by (auto simp: list_all_iff)

section \<open>Properties\<close>

lemma header_keys:
  "canonical_key True ''Cache-Control'' = ''Cache-Control''"
  "canonical_key True ''Content-Security-Policy'' = ''Content-Security-Policy''"
  "canonical_key True ''X-Content-Type-Options'' = ''X-Content-Type-Options''"
  "canonical_key True ''Referrer-Policy'' = ''Referrer-Policy''" "canonical_key True ''Allow'' = ''Allow''"
  "canonical_key True ''Content-Type'' = ''Content-Type''" "canonical_key True ''Content-Length'' = ''Content-Length''"
  by code_simp+

lemma header_Values_Set:
  "header_Values (header_Set k v h) k' = (if canonical_key True k' = canonical_key True k then [v] else header_Values h k')"
  by (simp add: header_Values_def header_Set_def)

lemma security_headers:
  assumes "h \<in> {ps_Header (ServeHTTP p request), setSecurityHeaders h'}"
  shows "header_Values h ''Cache-Control'' = [''no-store'']"
    "header_Values h ''Content-Security-Policy'' = [contentSecurityPolicy]"
    "header_Values h ''X-Content-Type-Options'' = [''nosniff'']" "header_Values h ''Referrer-Policy'' = [''no-referrer'']"
  using assms
  by (auto simp: ServeHTTP_def setSecurityHeaders_def header_Values_Set header_keys Let_def
      simp del: canonical_key.simps split: option.splits if_splits)

lemma Panel_New_Inr:
  "Panel_New token wasm wasmExec = Inr p \<Longrightarrow>
     p ''/'' = Some \<lparr>as_contentType = ''text/html; charset=utf-8'', as_content = render_index token\<rparr> \<and>
     dom p = {''/'', ''/assets/app.wasm'', ''/assets/wasm_exec.js'', ''/assets/styles.css'', ''/assets/bootstrap.js''}"
  by (auto simp: Panel_New_def Let_def split: if_splits)

lemma served_token:
  assumes "Panel_New token wasm wasmExec = Inr p" "token = base64_encode bytes"
  shows "page_token (ps_Body (ServeHTTP p \<lparr>pr_Method = ''GET'', pr_Path = ''/'', pr_EscapedPath = ''/''\<rparr>)) = Some token"
proof -
  have "page_token (render_index token) = Some token"
    using base64_plain(1) by (simp add: assms(2) page_token_plain)
  then show ?thesis
    using Panel_New_Inr [OF assms(1)] by (simp add: ServeHTTP_def Let_def)
qed

lemma ServeHTTP_status:
  "ps_Status (ServeHTTP p request) = 200 \<longleftrightarrow>
     pr_Method request \<in> {''GET'', ''HEAD''} \<and> pr_EscapedPath request = pr_Path request \<and> pr_Path request \<in> dom p"
  by (auto simp: ServeHTTP_def Let_def split: option.splits)

lemma ServeHTTP_empty:
  "ps_Status (ServeHTTP p request) \<noteq> 200 \<or> pr_Method request = ''HEAD'' \<Longrightarrow> ps_Body (ServeHTTP p request) = []"
  unfolding ServeHTTP_status
  by (cases "pr_Method request = ''GET''"; cases "pr_EscapedPath request = pr_Path request"; cases "p (pr_Path request)")
    (simp_all add: ServeHTTP_def Let_def dom_def)

text \<open>C18. The panel serves its five files and nothing else, to GET and HEAD only, uncached and under its security
  policy; and the page it serves hands the generated token to the browser unchanged, whatever the random
  bytes were.\<close>

theorem panel_serves_token:
  assumes "GenerateToken (Some read) = Inr token" "wasm \<noteq> []" "wasmExec \<noteq> []" "\<And>n bytes. read n = Inr bytes \<Longrightarrow> length bytes = n"
  shows "\<exists>p. Panel_New token wasm wasmExec = Inr p \<and>
    page_token (ps_Body (ServeHTTP p \<lparr>pr_Method = ''GET'', pr_Path = ''/'', pr_EscapedPath = ''/''\<rparr>)) = Some token \<and>
    (\<forall>request.
       (ps_Status (ServeHTTP p request) = 200 \<longleftrightarrow> pr_Method request \<in> {''GET'', ''HEAD''} \<and>
          pr_EscapedPath request = pr_Path request \<and>
          pr_Path request \<in> {''/'', ''/assets/app.wasm'', ''/assets/wasm_exec.js'', ''/assets/styles.css'', ''/assets/bootstrap.js''}) \<and>
       (ps_Status (ServeHTTP p request) \<noteq> 200 \<or> pr_Method request = ''HEAD'' \<longrightarrow> ps_Body (ServeHTTP p request) = []) \<and>
       header_Values (ps_Header (ServeHTTP p request)) ''Cache-Control'' = [''no-store''] \<and>
       header_Values (ps_Header (ServeHTTP p request)) ''Content-Security-Policy'' = [contentSecurityPolicy])"
proof -
  obtain bytes where "read tokenBytes = Inr bytes" and token: "token = base64_encode bytes"
    using assms(1) by (auto simp: GenerateToken_def split: sum.splits)
  with assms(4) have "length bytes = 32"
    by (simp add: tokenBytes_def)
  then have "token \<noteq> []"
    by (cases bytes rule: base64_encode.cases) (simp_all add: token)
  then have "TrimSpace token \<noteq> []"
    using base64_plain(2) [of bytes] by (simp add: token TrimSpace_printing list_all_iff)
  with assms(2,3) obtain p where p: "Panel_New token wasm wasmExec = Inr p"
    by (simp add: Panel_New_def Let_def)
  note served = Panel_New_Inr [OF p]
  have "page_token (ps_Body (ServeHTTP p \<lparr>pr_Method = ''GET'', pr_Path = ''/'', pr_EscapedPath = ''/''\<rparr>)) = Some token"
    by (rule served_token [OF p token])
  with security_headers(1,2) [OF insertI1] show ?thesis
    using p ServeHTTP_status [of p] ServeHTTP_empty [of p] served
    by (intro exI [of _ p] conjI allI) simp_all
qed

lemma panel_serves_token_witness:
  "\<exists>token p. GenerateToken (Some (\<lambda>n. Inr (replicate n (CHR ''a'')))) = Inr token \<and> Panel_New token ''w'' ''e'' = Inr p \<and>
     page_token (ps_Body (ServeHTTP p \<lparr>pr_Method = ''GET'', pr_Path = ''/'', pr_EscapedPath = ''/''\<rparr>)) = Some token"
proof -
  let ?read = "\<lambda>n. Inr (replicate n (CHR ''a'')) :: goerror + string"
  obtain token where token: "GenerateToken (Some ?read) = Inr token"
    by (simp add: GenerateToken_def)
  have "?read n = Inr bytes \<Longrightarrow> length bytes = n" for n bytes
    by auto
  from panel_serves_token [OF token _ _ this, of "''w''" "''e''"] token show ?thesis
    by auto
qed

end
