(* ===== verification/App_Build.thy ===== *)
theory App_Build
  imports Activation_View Scenario_Loader App_Run Local_Transport Local_Speech Runner_Engine Connect_Bridge Web_Panel
begin

text \<open>
  The composition of the desktop process: \<^verbatim>\<open>cmd/desktop/config.go\<close> and \<^verbatim>\<open>Build\<close> of
  \<^verbatim>\<open>cmd/desktop/app.go\<close>. \<open>Build\<close> calls the modelled constructors in the order of the code, over the file
  system of \<^verbatim>\<open>Privacy_File\<close> with its faults and clock readings; the two deferred releases, of the transport
  and of the listener, are part of it. What the operating system and other packages answer is the record
  \<open>build_env\<close>. The paths that \<^verbatim>\<open>Lstat\<close> and \<^verbatim>\<open>open\<close> are given are cleaned first, as the kernel resolves
  them where no element is a link.
\<close>

section \<open>Configuration\<close>

record desktop_Config =
  dc_SubjectID :: string
  dc_ListenAddress :: string
  dc_PrivacyFile :: string
  dc_ScenarioFile :: string
  dc_WASMFile :: string
  dc_WASMExecFile :: string
  dc_TTSBinary :: string
  dc_RuntimeBaseDir :: string
  dc_MediaPython :: string
  dc_MediaRoot :: string
  dc_CameraDevice :: string
  dc_ParecBinary :: string
  dc_ReturnAbsenceThreshold :: duration
  dc_RejectionCooldown :: duration
  dc_NoResponseCooldown :: duration
  dc_ActionTimeout :: duration
  dc_ExternalCallTimeout :: duration
  dc_ShutdownTimeout :: duration
  dc_ProviderLeaseDuration :: duration
  dc_ProviderHealthInterval :: duration
  dc_WorkerStopTimeout :: duration

definition config_paths :: "desktop_Config \<Rightarrow> (string \<times> string) list" where
  "config_paths c =
     [(''privacy file'', dc_PrivacyFile c), (''scenario file'', dc_ScenarioFile c), (''WASM file'', dc_WASMFile c),
      (''wasm_exec file'', dc_WASMExecFile c), (''runtime base directory'', dc_RuntimeBaseDir c),
      (''media Python'', dc_MediaPython c), (''media root'', dc_MediaRoot c), (''camera device'', dc_CameraDevice c),
      (''parec binary'', dc_ParecBinary c)]"

fun check_paths :: "(string \<times> string) list \<Rightarrow> goerror option" where
  "check_paths [] = None"
| "check_paths ((label, path) # items) =
     (if TrimSpace path = [] \<or> \<not> IsAbs path then
        Some (New_fault InvalidInput ''validate desktop configuration'' (Leaf ''%s must be an absolute path''))
      else check_paths items)"

definition config_durations :: "desktop_Config \<Rightarrow> duration list" where
  "config_durations c =
     [dc_ReturnAbsenceThreshold c, dc_RejectionCooldown c, dc_NoResponseCooldown c, dc_ActionTimeout c,
      dc_ExternalCallTimeout c, dc_ShutdownTimeout c, dc_ProviderLeaseDuration c, dc_ProviderHealthInterval c,
      dc_WorkerStopTimeout c]"

definition desktop_Validate :: "(string \<Rightarrow> ip option) \<Rightarrow> desktop_Config \<Rightarrow> goerror option" where
  "desktop_Validate parseIP c =
     (let invalid = (\<lambda>msg. Some (New_fault InvalidInput ''validate desktop configuration'' (Leaf msg))) in
      if TrimSpace (dc_SubjectID c) = [] then invalid ''subject id is required''
      else (case SplitHostPort (dc_ListenAddress c) of
          None \<Rightarrow> invalid ''listen address must include an IP and port''
        | Some (host, port) \<Rightarrow>
            (case parseIP host of
               None \<Rightarrow> invalid ''listen address must use an explicit loopback IP''
             | Some ip \<Rightarrow>
                 if \<not> IsLoopback ip then invalid ''listen address must use an explicit loopback IP''
                 else if (case Atoi port of None \<Rightarrow> True | Some n \<Rightarrow> n < 0 \<or> 65535 < n) then
                   invalid ''listen port is invalid''
                 else (case check_paths (config_paths c) of
                     Some err \<Rightarrow> Some err
                   | None \<Rightarrow>
                       if dc_TTSBinary c \<noteq> [] \<and> \<not> IsAbs (dc_TTSBinary c) then
                         invalid ''TTS binary must be an absolute path''
                       else if list_ex (\<lambda>d. d \<le> 0) (config_durations c) then
                         invalid ''desktop durations must be positive''
                       else None))))"

section \<open>The environment\<close>

record build_env =
  be_parseIP :: "string \<Rightarrow> ip option"
  be_parseURI :: "string \<Rightarrow> parsed_uri option"
  be_Listen :: "string \<Rightarrow> goerror + string"
  be_rand :: "nat \<Rightarrow> goerror + string"
  be_EvalSymlinks :: "path \<Rightarrow> (path \<rightharpoonup> fs_node) \<Rightarrow> oserror + path"
  be_decode :: "(yaml_Node option \<Rightarrow> goerror + string) \<Rightarrow> string \<Rightarrow> (goerror + wireManifest) \<times> string"
  be_trailing :: "string \<Rightarrow> yaml_trailing"
  be_sha256 :: "string \<Rightarrow> 8 word list"
  be_zone :: "time \<Rightarrow> int"
  be_PATH :: string
  be_table :: process_table

definition from_result :: "'e + 'a \<Rightarrow> fs_world \<Rightarrow> ('e + 'a) \<times> fs_world" where
  "from_result r w = (r, w)"

definition read_instant :: "time io" where
  "read_instant w = (case read_clock w of (t, w1) \<Rightarrow> (Inr t, w1))"

section \<open>Files\<close>

definition maxAssetBytes :: nat where
  "maxAssetBytes = 67108864"

definition os_fails :: "oserror \<Rightarrow> 'a io" where
  "os_fails err = return_err (os_leaf err)"

definition secureOpen :: "string \<Rightarrow> fs_node io" where
  "secureOpen path =
     handle (Lstat (clean_path path)) os_fails (\<lambda>info.
       if \<not> is_regular info then return_err (Leaf ''file must be a regular non-symlink file'')
       else handle (OpenFile (clean_path path)) os_fails (\<lambda>(file, same).
         handle Effectless (\<lambda>_. return_err (Leaf ''file changed during secure open'')) (\<lambda>_.
           if \<not> same then return_err (Leaf ''file changed during secure open'') else return_ok file)))"

definition file_content :: "fs_node \<Rightarrow> string" where
  "file_content n = (case nd_kind n of Regular content \<Rightarrow> content | _ \<Rightarrow> [])"

definition loadAsset :: "string \<Rightarrow> string io" where
  "loadAsset path =
     and_then (secureOpen path) (\<lambda>file.
     handle Effectless os_fails (\<lambda>_.
       if length (file_content file) = 0 \<or> maxAssetBytes < length (file_content file) then
         return_err (Leaf ''asset size is invalid'')
       else handle Effectless os_fails (\<lambda>_.
         let content = take (maxAssetBytes + 1) (file_content file)
         in if length content = 0 \<or> maxAssetBytes < length content then return_err (Leaf ''asset size is invalid'')
            else return_ok content)))"

text \<open>\<^verbatim>\<open>Perm() & 0o111\<close>.\<close>

definition executable :: "fs_node \<Rightarrow> bool" where
  "executable n = (odd (nd_perm n) \<or> odd (nd_perm n div 8) \<or> odd (nd_perm n div 64))"

definition validateExecutable :: "string \<Rightarrow> unit io" where
  "validateExecutable path =
     handle (Lstat (clean_path path)) (\<lambda>err. return_err (Wrapf ''inspect TTS binary'' (os_leaf err))) (\<lambda>info.
       if \<not> is_regular info \<or> \<not> executable info then
         return_err (New_fault InvalidInput ''validate TTS binary''
           (Leaf ''TTS binary must be an executable regular non-symlink file''))
       else return_ok ())"

definition validateExecutableLink :: "build_env \<Rightarrow> string \<Rightarrow> unit io" where
  "validateExecutableLink E path =
     handle (call (\<lambda>_ w. (be_EvalSymlinks E (clean_path path) (fs w), w)))
       (\<lambda>err. return_err (Wrapf ''resolve executable'' (os_leaf err))) (\<lambda>resolved.
     handle (Lstat resolved) (\<lambda>err. return_err (Wrapf ''inspect executable'' (os_leaf err))) (\<lambda>info.
       if \<not> is_regular info \<or> \<not> executable info then
         return_err (New_fault InvalidInput ''validate executable''
           (Leaf ''resolved path must be an executable regular file''))
       else return_ok ()))"

definition media_root_invalid :: goerror where
  "media_root_invalid = New_fault InvalidInput ''validate media root'' (Leaf ''media root must be a real directory'')"

definition validate_media_root :: "string \<Rightarrow> unit io" where
  "validate_media_root path =
     handle (Lstat (clean_path path)) (\<lambda>_. return_err media_root_invalid) (\<lambda>info.
       if nd_kind info \<noteq> Directory then return_err media_root_invalid else return_ok ())"

text \<open>An error on the way gets a prefix.\<close>

definition wrapping :: "string \<Rightarrow> 'a io \<Rightarrow> 'a io" where
  "wrapping msg m w = (case m w of (Inl err, w1) \<Rightarrow> (Inl (Wrapf msg err), w1) | (Inr x, w1) \<Rightarrow> (Inr x, w1))"

definition load_scenario :: "build_env \<Rightarrow> string \<Rightarrow> LoadedScenario io" where
  "load_scenario E path =
     and_then (wrapping ''open scenario manifest'' (secureOpen path)) (\<lambda>file.
       let loaded = Load (be_sha256 E) (be_decode E) (be_trailing E) (Some (file_content file))
       in handle Effectless
            (\<lambda>err. case loaded of Inl loadErr \<Rightarrow> return_err loadErr | Inr l \<Rightarrow> os_fails err)
            (\<lambda>_. from_result loaded))"

text \<open>What \<^verbatim>\<open>Build\<close> reads and checks before it binds the listener.\<close>

definition Build_inputs :: "build_env \<Rightarrow> desktop_Config \<Rightarrow> (string \<times> string \<times> LoadedScenario) io" where
  "Build_inputs E c =
     and_then (wrapping ''load desktop WASM'' (loadAsset (dc_WASMFile c))) (\<lambda>wasm.
     and_then (wrapping ''load desktop WASM runtime'' (loadAsset (dc_WASMExecFile c))) (\<lambda>wasmExec.
     and_then (load_scenario E (dc_ScenarioFile c)) (\<lambda>scenario.
     and_then (validateExecutableLink E (dc_MediaPython c)) (\<lambda>_.
     and_then (validateExecutableLink E (dc_ParecBinary c)) (\<lambda>_.
     and_then (validate_media_root (dc_MediaRoot c)) (\<lambda>_.
     return_ok (wasm, wasmExec, scenario)))))))"

section \<open>The components\<close>

record core_parts =
  bc_token :: string
  bc_permissions :: Service
  bc_registry :: Registry
  bc_driver :: Avatar
  bc_runner :: "(Engine \<times> Avatar \<times> AuditRecorder) Runner"
  bc_activation :: activationView
  bc_ingress :: ingress_Server

definition engine_config :: "desktop_Config \<Rightarrow> LoadedScenario \<Rightarrow> Config" where
  "engine_config c scenario =
     \<lparr>cfg_SubjectID = dc_SubjectID c, cfg_ReturnAbsenceThreshold = dc_ReturnAbsenceThreshold c,
      cfg_RejectionCooldown = dc_RejectionCooldown c, cfg_NoResponseCooldown = dc_NoResponseCooldown c,
      cfg_ActionTimeout = dc_ActionTimeout c, cfg_ExternalCallTimeout = dc_ExternalCallTimeout c,
      cfg_PolicyVersion = ''policy.v1'', cfg_BehaviorVersion = ''welcome_after_return.v1'',
      cfg_ConfigHash = ls_Hash scenario, cfg_RandomSeed = 1\<rparr>"

definition Build_speaker :: "desktop_Config \<Rightarrow> speaker_arg io" where
  "Build_speaker c =
     (if dc_TTSBinary c = [] then return_ok NoSpeaker
      else and_then (validateExecutable (dc_TTSBinary c)) (\<lambda>_.
           and_then (from_result (Synthesizer_New (dc_TTSBinary c) True)) (\<lambda>speaker. return_ok ASpeaker)))"

definition Build_core :: "build_env \<Rightarrow> desktop_Config \<Rightarrow> LoadedScenario \<Rightarrow> core_parts io" where
  "Build_core E c scenario =
     and_then (from_result (GenerateToken (Some (be_rand E)))) (\<lambda>token.
     and_then (from_result (Repository_New (dc_PrivacyFile c))) (\<lambda>path.
     and_then (Service_New (file_repository path (be_zone E)) True Live) (\<lambda>permissions.
     and_then (from_result (Registry_New True (dc_ProviderLeaseDuration c))) (\<lambda>registry.
     and_then (Build_speaker c) (\<lambda>speaker.
     and_then read_instant (\<lambda>now.
     and_then (from_result (Avatar_New True speaker True now)) (\<lambda>driver.
     and_then (from_result (Engine_New (engine_config c scenario) True)) (\<lambda>core.
     and_then (from_result (Runner_New DefaultConfig (Some (core, driver, zero_AuditRecorder)))) (\<lambda>runner.
     and_then (from_result (newActivationView (ls_Requirements scenario) True (speaker \<noteq> NoSpeaker))) (\<lambda>activation.
     and_then (from_result (NewServer True (ls_Requirements scenario))) (\<lambda>ingress.
     return_ok \<lparr>bc_token = token, bc_permissions = permissions, bc_registry = registry, bc_driver = driver,
                bc_runner = runner, bc_activation = activation, bc_ingress = ingress\<rparr>)))))))))))"

text \<open>\<^verbatim>\<open>filepath.Dir\<close> and \<^verbatim>\<open>filepath.Join\<close> of absolute paths.\<close>

definition filepath_Dir :: "string \<Rightarrow> string" where
  "filepath_Dir p = path_text (clean_path (rev (dropWhile (\<lambda>c. c \<noteq> CHR ''/'') (rev p))))"

definition filepath_Join :: "string \<Rightarrow> string list \<Rightarrow> string" where
  "filepath_Join p elements = path_text (clean_path (concat (map (\<lambda>e. e @ ''/'') (p # elements))))"

definition mediaWorkerSpecs :: "string \<Rightarrow> desktop_Config \<Rightarrow> string \<Rightarrow> Spec list" where
  "mediaWorkerSpecs systemPath c address =
     (let pythonPath = filepath_Dir (dc_MediaPython c);
          pythonEnv = ''PYTHONPATH='' @ filepath_Join (dc_MediaRoot c) [''gen'', ''python''] @ '':'' @ dc_MediaRoot c;
          env = [pythonEnv, ''PATH='' @ pythonPath @ '':'' @ systemPath]
      in [\<lparr>spec_ProviderID = ''desktop-presence'', spec_Permission = CameraCapture, spec_Command = dc_MediaPython c,
           spec_Args = [''-m'', ''workers.camera.presence'', ''--grpc-address'', address, ''--device'',
                        dc_CameraDevice c, ''--subject-id'', dc_SubjectID c],
           spec_WorkingDir = dc_MediaRoot c, spec_Env = env\<rparr>,
          \<lparr>spec_ProviderID = ''desktop-vad'', spec_Permission = MicrophoneCapture, spec_Command = dc_MediaPython c,
           spec_Args = [''-m'', ''workers.microphone.activity'', ''--grpc-address'', address, ''--parec'',
                        dc_ParecBinary c, ''--subject-id'', dc_SubjectID c],
           spec_WorkingDir = dc_MediaRoot c, spec_Env = env\<rparr>])"

record desktop_parts =
  bd_origin :: string
  bd_token :: string
  bd_shutdownTimeout :: duration
  bd_runner :: "(Engine \<times> Avatar \<times> AuditRecorder) Runner"
  bd_activation :: activationView
  bd_ingress :: ingress_Server
  bd_transport :: grpc_Server
  bd_workers :: "fs_world system"
  bd_authorizer :: LoopbackAuthorizer
  bd_desktop :: Desktop
  bd_panel :: Panel
  bd_app :: App

definition Build_workers ::
    "build_env \<Rightarrow> desktop_Config \<Rightarrow> core_parts \<Rightarrow> grpc_Server \<Rightarrow> fs_world system io" where
  "Build_workers E c core transport =
     and_then read_instant (\<lambda>now w.
       case Supervisor_New machine_ports
              \<lparr>sc_StopTimeout = dc_WorkerStopTimeout c, sc_HealthCheckInterval = dc_ProviderHealthInterval c\<rparr> True
              (mediaWorkerSpecs (be_PATH E) c (gs_Address transport))
              \<lparr>ma_now = now, ma_ctx = Live, ma_registry = bc_registry core, ma_service = bc_permissions core,
               ma_store = w, ma_table = (be_table E)\<lparr>pt_running := []\<rparr>\<rparr> of
         (Inl err, m) \<Rightarrow> (Inl err, w)
       | (Inr s, m) \<Rightarrow> (Inr (boot s m), w))"

definition Build_panel ::
    "build_env \<Rightarrow> desktop_Config \<Rightarrow> string \<Rightarrow> string \<Rightarrow> string \<Rightarrow> core_parts \<Rightarrow> grpc_Server \<Rightarrow> desktop_parts io" where
  "Build_panel E c wasm wasmExec origin core transport =
     and_then (Build_workers E c core transport) (\<lambda>workers.
     and_then (from_result (NewLoopbackAuthorizer (be_parseURI E) (be_parseIP E) (bc_token core) origin)) (\<lambda>authorizer.
     and_then (from_result (Desktop_NewServer (dc_SubjectID c) True)) (\<lambda>desktop.
     and_then (from_result (Panel_New (bc_token core) wasm wasmExec)) (\<lambda>panel.
     return_ok \<lparr>bd_origin = origin, bd_token = bc_token core, bd_shutdownTimeout = dc_ShutdownTimeout c,
                bd_runner = bc_runner core, bd_activation = bc_activation core, bd_ingress = bc_ingress core,
                bd_transport = transport, bd_workers = workers, bd_authorizer = authorizer, bd_desktop = desktop,
                bd_panel = panel, bd_app = \<lparr>app_started = False\<rparr>\<rparr>))))"

text \<open>\<^verbatim>\<open>Close\<close> of a transport that was never run, alone.\<close>

definition Close_unstarted :: "grpc_Server \<Rightarrow> fs_world \<Rightarrow> fs_world" where
  "Close_unstarted s w =
     (case grpc_steps [CallClose, CloseStep 0, CloseStep 0] (grpc_boot s w) of None \<Rightarrow> w | Some p \<Rightarrow> gp_world p)"

definition Build_bound ::
    "build_env \<Rightarrow> desktop_Config \<Rightarrow> string \<Rightarrow> string \<Rightarrow> LoadedScenario \<Rightarrow> string \<Rightarrow> desktop_parts io" where
  "Build_bound E c wasm wasmExec scenario address =
     and_then (Build_core E c scenario) (\<lambda>core.
     and_then (grpc_New (dc_RuntimeBaseDir c)) (\<lambda>transport w.
       case Build_panel E c wasm wasmExec (''http://'' @ address) core transport w of
         (Inl err, w1) \<Rightarrow> (Inl err, Close_unstarted transport w1)
       | (Inr parts, w1) \<Rightarrow> (Inr parts, w1)))"

record build_world =
  bw_files :: fs_world
  bw_listener :: "string option"

definition Build :: "build_env \<Rightarrow> desktop_Config \<Rightarrow> build_world \<Rightarrow> (goerror + desktop_parts) \<times> build_world" where
  "Build E c b =
     (case desktop_Validate (be_parseIP E) c of
        Some err \<Rightarrow> (Inl err, b)
      | None \<Rightarrow>
          (case Build_inputs E c (bw_files b) of
             (Inl err, w1) \<Rightarrow> (Inl err, b\<lparr>bw_files := w1\<rparr>)
           | (Inr (wasm, wasmExec, scenario), w1) \<Rightarrow>
               (case be_Listen E (dc_ListenAddress c) of
                  Inl err \<Rightarrow> (Inl (Wrapf ''bind desktop loopback listener'' err), b\<lparr>bw_files := w1\<rparr>)
                | Inr address \<Rightarrow>
                    (case Build_bound E c wasm wasmExec scenario address w1 of
                       (Inl err, w2) \<Rightarrow> (Inl err, \<lparr>bw_files = w2, bw_listener = None\<rparr>)
                     | (Inr parts, w2) \<Rightarrow> (Inr parts, \<lparr>bw_files = w2, bw_listener = Some address\<rparr>)))))"

section \<open>What the calls keep\<close>

text \<open>A relation between the file systems before and after that every call keeps, and the calls built from such
  calls.\<close>

definition keeps :: "(fs_world \<Rightarrow> fs_world \<Rightarrow> bool) \<Rightarrow> (fs_world \<Rightarrow> 'r \<times> fs_world) \<Rightarrow> bool" where
  "keeps Q m \<longleftrightarrow> (\<forall>w. Q w (snd (m w)))"

locale io_frame =
  fixes Q :: "fs_world \<Rightarrow> fs_world \<Rightarrow> bool"
  assumes frame_refl: "Q w w"
    and frame_trans: "Q u v \<Longrightarrow> Q v w \<Longrightarrow> Q u w"
    and frame_fault: "Q w (w\<lparr>fs_faults := tl (fs_faults w)\<rparr>)"
begin

lemma keeps_and_then: "keeps Q m \<Longrightarrow> (\<And>x. keeps Q (f x)) \<Longrightarrow> keeps Q (and_then m f)"
  unfolding keeps_def and_then_def
  by (auto split: prod.split sum.split) (metis frame_trans snd_conv)+

lemma keeps_handle:
  "keeps Q m \<Longrightarrow> (\<And>err. keeps Q (h err)) \<Longrightarrow> (\<And>x. keeps Q (f x)) \<Longrightarrow> keeps Q (handle m h f)"
  unfolding keeps_def handle_def
  by (auto split: prod.split sum.split) (metis frame_trans snd_conv)+

lemma keeps_return: "keeps Q (return_ok x)" "keeps Q (return_err err)" "keeps Q (from_result r)"
  by (simp_all add: keeps_def return_ok_def return_err_def from_result_def frame_refl)

lemma keeps_if: "keeps Q m \<Longrightarrow> keeps Q m' \<Longrightarrow> keeps Q (if b then m else m')"
  by simp

lemma keeps_call: "(\<And>x w. Q w (snd (f x w))) \<Longrightarrow> keeps Q (call f)"
  unfolding keeps_def call_def
  by (auto split: list.split fs_fault.split) (metis frame_fault frame_trans list.sel(3))+

lemma keeps_wrapping: "keeps Q m \<Longrightarrow> keeps Q (wrapping msg m)"
  by (auto simp: keeps_def wrapping_def split: prod.split sum.split) (metis snd_conv)+

lemma keeps_result: "keeps Q m \<Longrightarrow> m w = (r, w') \<Longrightarrow> Q w w'"
  by (metis keeps_def snd_conv)

end

abbreviation calmly :: "fs_world \<Rightarrow> fs_world \<Rightarrow> bool" where
  "calmly w w' \<equiv> unchanged w w' \<and> hard_faults w' \<le> hard_faults w"

abbreviation fewer :: "fs_world \<Rightarrow> fs_world \<Rightarrow> bool" where
  "fewer w w' \<equiv> hard_faults w' \<le> hard_faults w"

lemma hard_faults_tl: "hard_faults (w\<lparr>fs_faults := tl (fs_faults w)\<rparr>) \<le> hard_faults w"
  by (cases "fs_faults w") (simp_all add: hard_faults_def)

interpretation calm: io_frame calmly
  by unfold_locales (auto simp: unchanged_def hard_faults_tl)

interpretation fewer: io_frame fewer
  by unfold_locales (auto simp: hard_faults_tl)

text \<open>The calls that only read keep every such relation that does not look at what they consume.\<close>

locale reading_frame = io_frame +
  assumes frame_context: "Q w (w\<lparr>fs_ctx := tl (fs_ctx w)\<rparr>)"
begin

lemma keeps_reads: "keeps Q (Lstat p)" "keeps Q (OpenFile p)" "keeps Q Effectless" "keeps Q (ReadAll n)"
  unfolding Lstat_def OpenFile_def Effectless_def ReadAll_def
  by (intro keeps_call; simp add: frame_refl)+

lemma keeps_context: "keeps Q (validateContext op nilctx)"
  unfolding keeps_def validateContext_def
  by (auto split: list.split simp: frame_refl) (metis frame_context list.sel(3))

lemmas reading_intros = keeps_and_then keeps_handle keeps_return keeps_if keeps_wrapping keeps_reads keeps_context

lemma keeps_load: "keeps Q (Repository_Load path nilctx)"
  unfolding Repository_Load_def loadLocked_def read_document_def check_target_def or_fault_def Let_def case_prod_beta
  by (intro reading_intros; auto intro: reading_intros split: sum.split)

lemma keeps_service: "keeps Q (Service_New (file_repository path zone) True Live)"
  using keeps_load [of path False]
  by (auto simp: keeps_def Service_New_def check_ctx_def Let_def split: prod.split sum.split) (metis snd_conv)+

lemma keeps_secureOpen: "keeps Q (secureOpen path)"
  unfolding secureOpen_def os_fails_def case_prod_beta by (intro reading_intros)

lemma keeps_loadAsset: "keeps Q (loadAsset path)"
  unfolding loadAsset_def os_fails_def Let_def by (intro reading_intros keeps_secureOpen)

lemma keeps_inputs: "keeps Q (Build_inputs E c)"
proof -
  have "keeps Q (validateExecutableLink E p)" for p
    unfolding validateExecutableLink_def by (intro reading_intros keeps_call) (simp add: frame_refl)
  moreover have "keeps Q (validate_media_root p)" for p
    unfolding validate_media_root_def by (intro reading_intros)
  moreover have "keeps Q (load_scenario E p)" for p
    unfolding load_scenario_def Let_def os_fails_def
    by (intro reading_intros keeps_secureOpen) (auto intro: reading_intros split: sum.split)
  ultimately show ?thesis
    unfolding Build_inputs_def by (intro reading_intros keeps_loadAsset)
qed

lemma keeps_speaker: "keeps Q (Build_speaker c)"
  unfolding Build_speaker_def validateExecutable_def by (intro reading_intros)

end

interpretation calm: reading_frame calmly
  by unfold_locales (auto simp: unchanged_def hard_faults_def)

lemma calm_instant: "keeps calmly read_instant"
  by (auto simp: keeps_def read_instant_def read_clock_def unchanged_def hard_faults_def split: list.split)

lemmas calm_intros = calm.reading_intros calm_instant

lemma calm_core: "keeps calmly (Build_core E c scenario)"
  unfolding Build_core_def by (intro calm_intros calm.keeps_service calm.keeps_speaker)

lemma calm_panel: "keeps calmly (Build_panel E c wasm wasmExec origin core transport)"
proof -
  have "keeps calmly (Build_workers E c core transport)"
    unfolding Build_workers_def
    by (intro calm_intros) (auto simp: keeps_def unchanged_def split: prod.split sum.split)
  then show ?thesis
    unfolding Build_panel_def by (intro calm_intros)
qed

lemma fewer_put: "hard_faults (put p n w) = hard_faults w"
  by (simp add: put_def hard_faults_def)

lemma fewer_transport: "keeps fewer (grpc_New base)"
proof -
  have calls: "keeps fewer (Lstat p)" "keeps fewer (MkdirTemp p)" "keeps fewer (Chmod p perm)" "keeps fewer (ListenUnix p)"
    "keeps fewer (Remove p)" "keeps fewer (RemoveDir p q)" for p q perm
    unfolding Lstat_def MkdirTemp_def Chmod_def ListenUnix_def Remove_def RemoveDir_def
    by (intro fewer.keeps_call; simp add: fewer_put Let_def hard_faults_def put_def split: list.split option.split)+
  note intros = fewer.keeps_and_then fewer.keeps_handle fewer.keeps_return fewer.keeps_if
  have ignored: "keeps fewer (ignore m)" if "keeps fewer m" for m :: "unit sys"
    unfolding ignore_def by (intro intros that)
  have base: "keeps fewer (validateRuntimeBase base)"
    unfolding validateRuntimeBase_def Let_def by (intro intros calls)
  have tail: "keeps fewer (\<lambda>w. case validateRuntimeBase base w of
      (Inl err, w1) \<Rightarrow> (Inl (New_fault InvalidInput grpc_op err), w1) | (Inr x, w1) \<Rightarrow> f x w1)"
    if "\<And>x. keeps fewer (f x)" for f :: "path \<Rightarrow> grpc_Server io"
    using base that unfolding keeps_def by (auto split: prod.split sum.split) (metis le_trans snd_conv)+
  show ?thesis
    unfolding grpc_New_def Let_def by (intro tail intros calls ignored)
qed

lemma Close_unstarted_world:
  "Close_unstarted (ready_server D) w =
     snd (RemoveDir (D @ [''workers.sock'']) D (snd (Remove (D @ [''workers.sock'']) w)))"
  by (simp add: Close_unstarted_def grpc_boot_def ready_server_def close_call_def close_turn_def stop_and_close_def
      grpc_cleanup_def removal_def Let_def case_prod_beta split: sum.split)

lemma Close_unstarted_files:
  assumes "hard_faults w = 0" "fs w = transport_files D f" "f D = None" "f (D @ [''workers.sock'']) = None"
  shows "fs (Close_unstarted (ready_server D) w) = f"
  using undo_files [OF assms(1) assms(2) [unfolded transport_files_def] assms(3,4)]
  by (simp add: Close_unstarted_world)

text \<open>What is there when the components are built, by the outcome.\<close>

lemma Build_bound_outcome:
  assumes "Build_bound E c wasm wasmExec scenario address w = (r, w')"
    and "\<forall>p. fs w p = None \<longrightarrow> fs w (p @ [''workers.sock'']) = None"
  shows "(\<exists>err. r = Inl err) \<and> (hard_faults w = 0 \<longrightarrow> fs w' = fs w) \<or>
    (\<exists>parts core w1 D w2. r = Inr parts \<and> Build_core E c scenario w = (Inr core, w1) \<and>
       grpc_New (dc_RuntimeBaseDir c) w1 = (Inr (ready_server D), w2) \<and> fs w D = None \<and> 
       fs w2 = transport_files D (fs w) \<and> unchanged w2 w' \<and>
       Build_panel E c wasm wasmExec (''http://'' @ address) core (ready_server D) w2 = (Inr parts, w'))"
proof -
  obtain rc w1 where core: "Build_core E c scenario w = (rc, w1)"
    by (cases "Build_core E c scenario w") simp
  have c1: "fs w1 = fs w" "hard_faults w1 \<le> hard_faults w"
    using calm.keeps_result [OF calm_core core] by (simp_all add: unchanged_def)
  show ?thesis
  proof (cases rc)
    case (Inl err)
    with assms(1) core c1 show ?thesis
      by (auto simp: Build_bound_def and_then_def)
  next
    case (Inr parts)
    obtain rt w2 where transport: "grpc_New (dc_RuntimeBaseDir c) w1 = (rt, w2)"
      by (cases "grpc_New (dc_RuntimeBaseDir c) w1") simp
    have parents: "\<forall>p. fs w1 p = None \<longrightarrow> fs w1 (p @ [''workers.sock'']) = None"
      using assms(2) c1 by simp
    show ?thesis
    proof (cases rt)
      case (Inl err)
      then have "hard_faults w = 0 \<Longrightarrow> fs w2 = fs w"
        using grpc_New_Inl [OF transport [unfolded Inl] parents] c1 by simp
      with assms(1) core \<open>rc = Inr parts\<close> transport Inl show ?thesis
        by (auto simp: Build_bound_def and_then_def)
    next
      case (Inr s)
      obtain D where s: "s = ready_server D" and D: "fs w D = None" "fs w (D @ [''workers.sock'']) = None"
        "fs w2 = transport_files D (fs w)"
        using grpc_New_Inr [OF transport [unfolded Inr] parents] c1 by (auto simp: Let_def)
      obtain rp w3 where panel: "Build_panel E c wasm wasmExec (''http://'' @ address) parts s w2 = (rp, w3)"
        by (cases "Build_panel E c wasm wasmExec (''http://'' @ address) parts s w2") simp
      have c3: "unchanged w2 w3" "hard_faults w3 \<le> hard_faults w2"
        using calm.keeps_result [OF calm_panel panel] by simp_all
      have c2: "hard_faults w2 \<le> hard_faults w1"
        using fewer.keeps_result [OF fewer_transport transport] by simp
      show ?thesis
      proof (cases rp)
        case (Inl err)
        have "r = Inl err" "w' = Close_unstarted s w3"
          using assms(1) core \<open>rc = Inr parts\<close> transport \<open>rt = Inr s\<close> panel Inl
          by (simp_all add: Build_bound_def and_then_def)
        moreover have "hard_faults w = 0 \<Longrightarrow> fs (Close_unstarted s w3) = fs w"
          unfolding s using c1 c2 c3 D by (intro Close_unstarted_files) (simp_all add: unchanged_def)
        ultimately show ?thesis
          by simp
      next
        case (Inr app)
        then have "r = Inr app" "w' = w3"
          using assms(1) core \<open>rc = Inr parts\<close> transport \<open>rt = Inr s\<close> panel
          by (simp_all add: Build_bound_def and_then_def)
        with core \<open>rc = Inr parts\<close> transport \<open>rt = Inr s\<close> panel Inr s D c3 show ?thesis
          by blast
      qed
    qed
  qed
qed

text \<open>C29. \<^verbatim>\<open>Build\<close> releases what it took: when it fails, for whatever reason, the listener is not bound, and
  unless a system call failed the file system is as before, the private directory of the transport included;
  when it succeeds the listener is bound to the address of the panel's origin, the transport is ready to be
  run, and its directory and its socket are all that is new.\<close>

theorem build_releases:
  assumes "Build E c b = (r, b')" "bw_listener b = None"
    and "\<forall>p. fs (bw_files b) p = None \<longrightarrow> fs (bw_files b) (p @ [''workers.sock'']) = None"
  shows "case r of
      Inl err \<Rightarrow> bw_listener b' = None \<and> (hard_faults (bw_files b) = 0 \<longrightarrow> fs (bw_files b') = fs (bw_files b))
    | Inr parts \<Rightarrow> \<exists>address D. be_Listen E (dc_ListenAddress c) = Inr address \<and> bw_listener b' = Some address \<and>
        bd_origin parts = ''http://'' @ address \<and> bd_transport parts = ready_server D \<and>
        fs (bw_files b) D = None \<and> fs (bw_files b') = transport_files D (fs (bw_files b)) \<and>
        bd_app parts = \<lparr>app_started = False\<rparr>"
proof -
  let ?w = "bw_files b"
  show ?thesis
  proof (cases "desktop_Validate (be_parseIP E) c")
    case (Some err)
    with assms(1,2) show ?thesis
      by (auto simp: Build_def)
  next
    case None
    obtain ri w1 where inputs: "Build_inputs E c ?w = (ri, w1)"
      by (cases "Build_inputs E c ?w") simp
    have c1: "fs w1 = fs ?w" "hard_faults w1 \<le> hard_faults ?w"
      using calm.keeps_result [OF calm.keeps_inputs inputs] by (simp_all add: unchanged_def)
    show ?thesis
    proof (cases "\<exists>wasm wasmExec scenario address. ri = Inr (wasm, wasmExec, scenario) \<and> be_Listen E (dc_ListenAddress c) = Inr address")
      case False
      with assms(1,2) None inputs c1 show ?thesis
        by (auto simp: Build_def split: sum.splits)
    next
      case True
      then obtain wasm wasmExec scenario address where ri: "ri = Inr (wasm, wasmExec, scenario)"
        and address: "be_Listen E (dc_ListenAddress c) = Inr address"
        by blast
      obtain rb w2 where bound: "Build_bound E c wasm wasmExec scenario address w1 = (rb, w2)"
        by (cases "Build_bound E c wasm wasmExec scenario address w1") simp
      have build: "r = rb" "bw_files b' = w2" "bw_listener b' = (case rb of Inl _ \<Rightarrow> None | Inr _ \<Rightarrow> Some address)"
        using assms(1) None inputs ri address bound by (auto simp: Build_def split: sum.splits)
      have parents: "\<forall>p. fs w1 p = None \<longrightarrow> fs w1 (p @ [''workers.sock'']) = None"
        using assms(3) c1 by simp
      have parts: "bd_origin p = origin \<and> bd_transport p = s \<and> bd_app p = \<lparr>app_started = False\<rparr>"
        if "Build_panel E c wasm wasmExec origin core s v = (Inr p, v')" for p origin s core v v'
        using that by (auto simp: Build_panel_def and_then_def from_result_def return_ok_def split: prod.splits sum.splits)
      from Build_bound_outcome [OF bound parents] show ?thesis
        using build c1 parts address by (auto simp: unchanged_def)
    qed
  qed
qed

section \<open>What Build delivers\<close>

lemma from_result_Inr: "from_result r w = (Inr y, w') \<longleftrightarrow> r = Inr y \<and> w' = w"
  by (auto simp: from_result_def)

lemma undone_Inr:
  "(case x of (Inl err, w1) \<Rightarrow> (Inl err, f w1) | (Inr p, w1) \<Rightarrow> (Inr p, w1)) = (Inr y, w') \<longleftrightarrow> x = (Inr y, w')"
  by (cases x) (auto split: sum.splits)

lemma booted_Inr:
  "(case x of (Inl err, m) \<Rightarrow> (Inl err, w) | (Inr s, m) \<Rightarrow> (Inr (f s m), w)) = (Inr y, w') \<longleftrightarrow>
     (\<exists>s m. x = (Inr s, m) \<and> y = f s m \<and> w' = w)"
  by (cases x) (auto split: sum.splits)

text \<open>The parts are what the constructors return, on the same subject, scenario, token and address.\<close>

lemma Build_Inr:
  assumes "Build E c b = (Inr parts, b')"
  obtains scenario e0 d0 speaker now wasm wasmExec w0 w1 m0 core where
    "desktop_Validate (be_parseIP E) c = None"
    "Engine_New (engine_config c scenario) True = Inr e0" "Avatar_New True speaker True now = Inr d0"
    "Runner_New DefaultConfig (Some (e0, d0, zero_AuditRecorder)) = Inr (bd_runner parts)"
    "newActivationView (ls_Requirements scenario) True (speaker \<noteq> NoSpeaker) = Inr (bd_activation parts)"
    "NewServer True (ls_Requirements scenario) = Inr (bd_ingress parts)"
    "Registry_New True (dc_ProviderLeaseDuration c) = Inr (ma_registry m0)"
    "Service_New (file_repository (clean_path (dc_PrivacyFile c)) (be_zone E)) True Live w0 = (Inr (ma_service m0), w1)"
    "alive m0 = {}" "ma_registry (sy_machine (bd_workers parts)) = ma_registry m0"
    "Supervisor_New machine_ports
       \<lparr>sc_StopTimeout = dc_WorkerStopTimeout c, sc_HealthCheckInterval = dc_ProviderHealthInterval c\<rparr> True
       (mediaWorkerSpecs (be_PATH E) c (gs_Address (bd_transport parts))) m0 =
       (Inr (sy_sup (bd_workers parts)), sy_machine (bd_workers parts))"
    "bd_workers parts = boot (sy_sup (bd_workers parts)) (sy_machine (bd_workers parts))"
    "GenerateToken (Some (be_rand E)) = Inr (bd_token parts)"
    "NewLoopbackAuthorizer (be_parseURI E) (be_parseIP E) (bd_token parts) (bd_origin parts) = Inr (bd_authorizer parts)"
    "Desktop_NewServer (dc_SubjectID c) True = Inr (bd_desktop parts)"
    "Panel_New (bd_token parts) wasm wasmExec = Inr (bd_panel parts)" "bd_origin parts \<noteq> []"
proof -
  obtain wasm wasmExec scenario address v1 v2 where valid: "desktop_Validate (be_parseIP E) c = None"
    and bound: "Build_bound E c wasm wasmExec scenario address v1 = (Inr parts, v2)"
    using assms by (auto simp: Build_def split: option.splits sum.splits prod.splits)
  then obtain core v3 transport v4 v5 where core: "Build_core E c scenario v1 = (Inr core, v3)"
    and panel: "Build_panel E c wasm wasmExec (''http://'' @ address) core transport v4 = (Inr parts, v5)"
    unfolding Build_bound_def and_then_Inr undone_Inr by blast
  from panel obtain workers authorizer desktop pan v6 where workers: "Build_workers E c core transport v4 = (Inr workers, v6)"
    and rest: "NewLoopbackAuthorizer (be_parseURI E) (be_parseIP E) (bc_token core) (''http://'' @ address) = Inr authorizer"
      "Desktop_NewServer (dc_SubjectID c) True = Inr desktop" "Panel_New (bc_token core) wasm wasmExec = Inr pan"
    and parts: "parts = \<lparr>bd_origin = ''http://'' @ address, bd_token = bc_token core, bd_shutdownTimeout = dc_ShutdownTimeout c,
        bd_runner = bc_runner core, bd_activation = bc_activation core, bd_ingress = bc_ingress core,
        bd_transport = transport, bd_workers = workers, bd_authorizer = authorizer, bd_desktop = desktop,
        bd_panel = pan, bd_app = \<lparr>app_started = False\<rparr>\<rparr>"
    by (auto simp: Build_panel_def and_then_Inr from_result_Inr return_ok_def)
  from workers obtain now1 v7 m0 s m where m0: "m0 = \<lparr>ma_now = now1, ma_ctx = Live, ma_registry = bc_registry core,
      ma_service = bc_permissions core, ma_store = v7, ma_table = (be_table E)\<lparr>pt_running := []\<rparr>\<rparr>"
    and sup: "Supervisor_New machine_ports
       \<lparr>sc_StopTimeout = dc_WorkerStopTimeout c, sc_HealthCheckInterval = dc_ProviderHealthInterval c\<rparr> True
       (mediaWorkerSpecs (be_PATH E) c (gs_Address transport)) m0 = (Inr s, m)" and ws: "workers = boot s m"
    unfolding Build_workers_def and_then_Inr booted_Inr by blast
  have m: "ma_registry m = ma_registry m0"
    using sup by (auto simp: Supervisor_New_def Let_def split: if_splits sum.splits)
  from core obtain path speaker now d0 e0 w0 w1 where "Repository_New (dc_PrivacyFile c) = Inr path"
    and service: "Service_New (file_repository path (be_zone E)) True Live w0 = (Inr (bc_permissions core), w1)"
    and others: "Engine_New (engine_config c scenario) True = Inr e0" "Avatar_New True speaker True now = Inr d0"
      "Runner_New DefaultConfig (Some (e0, d0, zero_AuditRecorder)) = Inr (bc_runner core)"
      "newActivationView (ls_Requirements scenario) True (speaker \<noteq> NoSpeaker) = Inr (bc_activation core)"
      "NewServer True (ls_Requirements scenario) = Inr (bc_ingress core)"
      "Registry_New True (dc_ProviderLeaseDuration c) = Inr (bc_registry core)"
      "GenerateToken (Some (be_rand E)) = Inr (bc_token core)"
    by (auto simp: Build_core_def and_then_Inr from_result_Inr return_ok_def)
  then have "path = clean_path (dc_PrivacyFile c)"
    by (auto simp: Repository_New_def Let_def split: if_splits)
  with valid service others rest sup show thesis
    by (intro that [of scenario e0 speaker now d0 m0 w0 w1 wasm wasmExec])
      (simp_all add: parts m0 ws m [unfolded m0] boot_def alive_def)
qed

text \<open>The page hands out the token the authorizer wants, with the origin of the listener.\<close>

lemma built_access:
  assumes "Build E c b = (Inr parts, b')"
  shows "page_token (ps_Body (ServeHTTP (bd_panel parts) \<lparr>pr_Method = ''GET'', pr_Path = ''/'', pr_EscapedPath = ''/''\<rparr>)) =
      Some (bd_token parts)"
    "lba_token (bd_authorizer parts) = bd_token parts" "lba_origin (bd_authorizer parts) = bd_origin parts"
    "bd_token parts \<noteq> []" "bd_origin parts \<noteq> []"
proof -
  obtain wasm wasmExec where token: "GenerateToken (Some (be_rand E)) = Inr (bd_token parts)"
    and authorizer: "NewLoopbackAuthorizer (be_parseURI E) (be_parseIP E) (bd_token parts) (bd_origin parts) = Inr (bd_authorizer parts)"
    and panel: "Panel_New (bd_token parts) wasm wasmExec = Inr (bd_panel parts)" and origin: "bd_origin parts \<noteq> []"
    using assms by (rule Build_Inr) blast
  have "\<exists>bytes. base64_encode bytes = bd_token parts"
    using token by (auto simp: GenerateToken_def split: sum.splits)
  then show "page_token (ps_Body (ServeHTTP (bd_panel parts) \<lparr>pr_Method = ''GET'', pr_Path = ''/'', pr_EscapedPath = ''/''\<rparr>)) =
      Some (bd_token parts)"
    using served_token [OF panel] by metis
  show "lba_token (bd_authorizer parts) = bd_token parts" "lba_origin (bd_authorizer parts) = bd_origin parts"
    using authorizer by (simp_all add: NewLoopbackAuthorizer_Inr)
  show "bd_token parts \<noteq> []"
  proof
    assume "bd_token parts = []"
    with panel show False
      by (simp add: Panel_New_def TrimSpace_def Let_def)
  qed
  show "bd_origin parts \<noteq> []"
    by (rule origin)
qed

section \<open>When Build succeeds\<close>

text \<open>Without faults and ended contexts, reading leaves the file system record as it is.\<close>

abbreviation idly :: "fs_world \<Rightarrow> fs_world \<Rightarrow> bool" where
  "idly w w' \<equiv> fs_faults w = [] \<and> fs_ctx w = [] \<longrightarrow> w' = w"

interpretation idle: reading_frame idly
  by unfold_locales auto

definition regular_at :: "fs_world \<Rightarrow> string \<Rightarrow> string \<Rightarrow> bool" where
  "regular_at w path content \<longleftrightarrow> (\<exists>n. fs w (clean_path path) = Some n \<and> nd_kind n = Regular content)"

definition executable_at :: "fs_world \<Rightarrow> path \<Rightarrow> bool" where
  "executable_at w p \<longleftrightarrow> (\<exists>n. fs w p = Some n \<and> is_regular n \<and> executable n)"

definition asset_size :: "string \<Rightarrow> bool" where
  "asset_size content \<longleftrightarrow> content \<noteq> [] \<and> length content \<le> maxAssetBytes"

definition build_ready :: "build_env \<Rightarrow> desktop_Config \<Rightarrow> fs_world \<Rightarrow> bool" where
  "build_ready E c w \<longleftrightarrow>
     fs_faults w = [] \<and> fs_ctx w = [] \<and>
     (\<exists>wasm. regular_at w (dc_WASMFile c) wasm \<and> asset_size wasm) \<and>
     (\<exists>wasmExec. regular_at w (dc_WASMExecFile c) wasmExec \<and> asset_size wasmExec) \<and>
     (\<exists>manifest ws. regular_at w (dc_ScenarioFile c) manifest \<and> reads (be_decode E) (be_trailing E) (Some manifest) ws) \<and>
     (\<exists>p. be_EvalSymlinks E (clean_path (dc_MediaPython c)) (fs w) = Inr p \<and> executable_at w p) \<and>
     (\<exists>p. be_EvalSymlinks E (clean_path (dc_ParecBinary c)) (fs w) = Inr p \<and> executable_at w p) \<and>
     (\<exists>n. fs w (clean_path (dc_MediaRoot c)) = Some n \<and> nd_kind n = Directory) \<and>
     (\<exists>address. be_Listen E (dc_ListenAddress c) = Inr address \<and>
        loopback_origin (be_parseURI E) (be_parseIP E) (''http://'' @ address)) \<and>
     (\<exists>bytes. be_rand E 32 = Inr bytes \<and> length bytes = 32) \<and>
     clean_path (dc_PrivacyFile c) \<noteq> [] \<and>
     (\<exists>srv. fst (Service_New (file_repository (clean_path (dc_PrivacyFile c)) (be_zone E)) True Live w) = Inr srv) \<and>
     (dc_TTSBinary c = [] \<or> executable_at w (clean_path (dc_TTSBinary c))) \<and>
     (\<exists>n. fs w (clean_path (dc_RuntimeBaseDir c)) = Some n \<and> nd_kind n = Directory \<and> \<not> shared_mode n) \<and>
     (\<exists>r \<in> set (fs_random w). fs w (clean_path (dc_RuntimeBaseDir c) @ [grpc_dir_name r]) = None) \<and>
     (\<forall>p. fs w p = None \<longrightarrow> fs w (p @ [''workers.sock'']) = None) \<and>
     (\<exists>t1 t2 ts. fs_clock w = t1 # t2 # ts \<and> \<not> IsZero t2) \<and> (\<forall>x. be_sha256 E x \<noteq> [])"

lemma call_idle: "fs_faults w = [] \<Longrightarrow> call f w = f No_fault w"
  by (simp add: call_def)

lemma secureOpen_ready:
  assumes "fs_faults w = []" "regular_at w path content"
  shows "\<exists>n. secureOpen path w = (Inr n, w) \<and> file_content n = content"
proof -
  obtain n where n: "fs w (clean_path path) = Some n" "nd_kind n = Regular content"
    using assms(2) by (auto simp: regular_at_def)
  then show ?thesis
    using assms(1) by (simp add: secureOpen_def handle_def Lstat_def OpenFile_def Effectless_def call_idle is_regular_def
        return_ok_def file_content_def)
qed

lemma loadAsset_ready:
  assumes "fs_faults w = []" "regular_at w path content" "asset_size content"
  shows "loadAsset path w = (Inr content, w)"
  using secureOpen_ready [OF assms(1,2)] assms(1,3)
  by (auto simp: loadAsset_def and_then_def handle_def Effectless_def call_idle asset_size_def return_ok_def Let_def)

text \<open>An absolute path is not blank.\<close>

lemma trim_left_keeps:
  "\<forall>e \<in> set spaces. x \<notin> set e \<Longrightarrow> s \<noteq> [] \<Longrightarrow> last s = x \<Longrightarrow> trim_left spaces n s \<noteq> []"
proof (induction spaces n s rule: trim_left.induct)
  case (2 spaces n s)
  show ?case
  proof (cases "find (\<lambda>e. e \<noteq> [] \<and> take (length e) s = e) spaces")
    case (Some e)
    then have e: "e \<in> set spaces" "take (length e) s = e"
      by (auto simp: find_Some_iff in_set_conv_nth)
    have "length e < length s"
    proof (rule ccontr)
      assume "\<not> length e < length s"
      with e 2(3) have "x \<in> set e"
        using 2(4) by (metis last_in_set linorder_not_le take_all_iff nat_le_linear)
      with e 2(2) show False
        by blast
    qed
    then have "drop (length e) s \<noteq> []" "last (drop (length e) s) = x"
      using 2(4) by auto
    with 2(1) [OF Some] 2(2) Some show ?thesis
      by simp
  qed (use 2(3) in simp)
qed simp

lemma TrimSpace_absolute:
  assumes "IsAbs p"
  shows "TrimSpace p \<noteq> []"
proof -
  have "\<forall>e \<in> set space_encodings. CHR ''/'' \<notin> set e"
    by code_simp
  moreover obtain q where p: "p = CHR ''/'' # q"
    using assms by (cases p) (simp_all add: IsAbs_def)
  moreover have solid: "trim_left space_encodings n p = p" for n
    by (rule trim_left_solid) (use space_encodings_ends in \<open>fastforce simp: p printing_def\<close>)+
  moreover have "trim_left (map rev space_encodings) (length p) (rev p) \<noteq> []"
    by (rule trim_left_keeps [where x = "CHR ''/''"]) (use calculation in simp_all)
  ultimately show ?thesis
    unfolding TrimSpace_def Let_def solid by (simp only: rev_is_Nil_conv simp_thms)
qed

lemma validated:
  assumes "desktop_Validate parseIP c = None"
  shows "dc_SubjectID c \<noteq> []" "\<forall>p \<in> set (map snd (config_paths c)). IsAbs p" "\<forall>d \<in> set (config_durations c). 0 < d"
    "dc_TTSBinary c \<noteq> [] \<Longrightarrow> IsAbs (dc_TTSBinary c)"
proof -
  have paths: "check_paths items = None \<longleftrightarrow> (\<forall>p \<in> set (map snd items). TrimSpace p \<noteq> [] \<and> IsAbs p)" for items
    by (induction items rule: check_paths.induct) auto
  have "TrimSpace [] = []"
    by (simp add: TrimSpace_def)
  with assms show "dc_SubjectID c \<noteq> []" "\<forall>p \<in> set (map snd (config_paths c)). IsAbs p" "\<forall>d \<in> set (config_durations c). 0 < d"
    "dc_TTSBinary c \<noteq> [] \<Longrightarrow> IsAbs (dc_TTSBinary c)"
    by (auto simp: desktop_Validate_def Let_def paths list_ex_iff not_le split: if_splits option.splits)
qed

lemma Service_ready:
  assumes "fs_faults w = []" "fs_ctx w = []" "fst (Service_New (file_repository p zone) True Live w) = Inr srv"
  shows "Service_New (file_repository p zone) True Live w = (Inr srv, w)"
  using idle.keeps_service [of p zone] assms
  by (cases "Service_New (file_repository p zone) True Live w") (auto simp: keeps_def dest!: spec [of _ w])

lemma link_ready:
  assumes "fs_faults w = []" "be_EvalSymlinks E (clean_path p) (fs w) = Inr q" "executable_at w q"
  shows "validateExecutableLink E p w = (Inr (), w)"
  using assms by (auto simp: validateExecutableLink_def handle_def call_idle Lstat_def executable_at_def return_ok_def)

lemma speaker_ready:
  assumes "fs_faults w = []" "dc_TTSBinary c = [] \<or> IsAbs (dc_TTSBinary c) \<and> executable_at w (clean_path (dc_TTSBinary c))"
  shows "Build_speaker c w = (Inr (if dc_TTSBinary c = [] then NoSpeaker else ASpeaker), w)"
  using assms
  by (auto simp: Build_speaker_def and_then_def validateExecutable_def handle_def Lstat_def call_idle executable_at_def
      return_ok_def from_result_def Synthesizer_New_def TrimSpace_absolute Let_def)

lemma inputs_ready:
  assumes "build_ready E c w"
  shows "\<exists>wasm wasmExec scenario. Build_inputs E c w = (Inr (wasm, wasmExec, scenario), w) \<and> wasm \<noteq> [] \<and> wasmExec \<noteq> [] \<and>
    ValidateScenario (ls_Requirements scenario) = None \<and> ls_Hash scenario \<noteq> []"
proof -
  obtain wasm wasmExec manifest ws p q n where calm: "fs_faults w = []"
    and assets: "regular_at w (dc_WASMFile c) wasm" "asset_size wasm" "regular_at w (dc_WASMExecFile c) wasmExec" "asset_size wasmExec"
    and manifest: "regular_at w (dc_ScenarioFile c) manifest" "reads (be_decode E) (be_trailing E) (Some manifest) ws"
    and tools: "be_EvalSymlinks E (clean_path (dc_MediaPython c)) (fs w) = Inr p" "executable_at w p"
      "be_EvalSymlinks E (clean_path (dc_ParecBinary c)) (fs w) = Inr q" "executable_at w q"
    and root: "fs w (clean_path (dc_MediaRoot c)) = Some n" "nd_kind n = Directory"
    and sha: "be_sha256 E x \<noteq> []" for x
    using assms unfolding build_ready_def by blast
  let ?l = "loaded (be_sha256 E) ws"
  have "Load (be_sha256 E) (be_decode E) (be_trailing E) (Some manifest) = Inr ?l"
    using manifest(2) by (auto simp: Load_reads)
  then have "load_scenario E (dc_ScenarioFile c) w = (Inr ?l, w)"
    using secureOpen_ready [OF calm manifest(1)] calm
    by (auto simp: load_scenario_def and_then_def wrapping_def handle_def Effectless_def call_idle from_result_def)
  moreover have "validate_media_root (dc_MediaRoot c) w = (Inr (), w)"
    using root calm by (simp add: validate_media_root_def handle_def Lstat_def call_idle return_ok_def)
  moreover note loadAsset_ready [OF calm assets(1,2)] loadAsset_ready [OF calm assets(3,4)]
    link_ready [OF calm tools(1,2)] link_ready [OF calm tools(3,4)]
  ultimately have "Build_inputs E c w = (Inr (wasm, wasmExec, ?l), w)"
    by (simp add: Build_inputs_def and_then_def wrapping_def return_ok_def)
  moreover have "scenario_ok (declared ws)"
    using manifest(2) by (auto simp: reads_def accepted_manifest_def)
  then have "ValidateScenario (ls_Requirements ?l) = None"
    by (simp add: loaded_def ValidateScenario_None normalized_ok)
  moreover have "ls_Hash ?l \<noteq> []"
    using sha by (auto simp: loaded_def hashCanonical_def hex_encode_def)
  ultimately show ?thesis
    using assets(2,4) unfolding asset_size_def by blast
qed

lemma core_ready:
  assumes "build_ready E c w" "desktop_Validate parseIP c = None"
    and "ValidateScenario (ls_Requirements scenario) = None" "ls_Hash scenario \<noteq> []"
  shows "\<exists>core bytes. Build_core E c scenario w = (Inr core, w\<lparr>fs_clock := tl (fs_clock w)\<rparr>) \<and>
    bc_token core = base64_encode bytes \<and> length bytes = 32"
proof -
  obtain srv bytes t1 ts where calm: "fs_faults w = []" "fs_ctx w = []"
    and rand: "be_rand E 32 = Inr bytes" "length bytes = 32" and path: "clean_path (dc_PrivacyFile c) \<noteq> []"
    and srv: "fst (Service_New (file_repository (clean_path (dc_PrivacyFile c)) (be_zone E)) True Live w) = Inr srv"
    and tts: "dc_TTSBinary c = [] \<or> executable_at w (clean_path (dc_TTSBinary c))" and clock: "fs_clock w = t1 # ts"
    using assms(1) unfolding build_ready_def by blast
  note valid = validated [OF assms(2)]
  have "take 1 (dc_PrivacyFile c) = ''/''"
    using valid(2) by (simp add: config_paths_def IsAbs_def)
  then have "Repository_New (dc_PrivacyFile c) = Inr (clean_path (dc_PrivacyFile c))"
    using path by (cases "dc_PrivacyFile c") (simp_all add: Repository_New_def is_space_def Json.byte_def Let_def)
  moreover have "GenerateToken (Some (be_rand E)) = Inr (base64_encode bytes)"
    using rand by (simp add: GenerateToken_def tokenBytes_def)
  moreover note Service_ready [OF calm srv]
  moreover have "dc_TTSBinary c = [] \<or> IsAbs (dc_TTSBinary c) \<and> executable_at w (clean_path (dc_TTSBinary c))"
    using tts valid(4) by blast
  note speaker_ready [OF calm(1) this]
  moreover have "read_instant w = (Inr t1, w\<lparr>fs_clock := ts\<rparr>)"
    by (simp add: read_instant_def read_clock_def clock)
  moreover have "Config_Validate (engine_config c scenario) = None"
    using valid(1,3) assms(4) by (simp add: Config_Validate_def engine_config_def config_durations_def)
  moreover have "RunnerConfig_Validate DefaultConfig = None"
    by (simp add: RunnerConfig_Validate_def DefaultConfig_def Millisecond_def)
  moreover have "0 < dc_ProviderLeaseDuration c"
    using valid(3) by (simp add: config_durations_def)
  ultimately show ?thesis
    using assms(3) clock rand(2)
    by (auto simp: Build_core_def and_then_def from_result_def return_ok_def Registry_New_def Avatar_New_def Engine_New_def
        Runner_New_def newActivationView_def NewServer_def Let_def)
qed

lemma transport_ready:
  assumes "fs_faults w = []" "IsAbs base" "base = TrimSpace base"
    and "fs w (clean_path base) = Some n" "nd_kind n = Directory" "\<not> shared_mode n"
    and "r \<in> set (fs_random w)" "fs w (clean_path base @ [grpc_dir_name r]) = None"
    and "\<forall>p. fs w p = None \<longrightarrow> fs w (p @ [''workers.sock'']) = None"
  shows "\<exists>D w'. grpc_New base w = (Inr (ready_server D), w') \<and> fs_clock w' = fs_clock w"
proof -
  have base: "validateRuntimeBase base w = (Inr (clean_path base), w)"
    using assms(1,2,4-6) assms(3) [symmetric] TrimSpace_absolute [OF assms(2)]
    by (simp add: validateRuntimeBase_def handle_def Lstat_def call_idle return_ok_def IsAbs_def Let_def)
  let ?taken = "\<lambda>r. fs w (clean_path base @ [grpc_dir_name r]) \<noteq> None"
  have "\<not> (\<forall>x \<in> set (fs_random w). ?taken x)"
    using assms(7,8) by auto
  then obtain name rs where free: "dropWhile ?taken (fs_random w) = name # rs"
    unfolding dropWhile_eq_Nil_conv [symmetric] by (cases "dropWhile ?taken (fs_random w)") auto
  then have fresh: "fs w (clean_path base @ [grpc_dir_name name]) = None"
    using hd_dropWhile [of ?taken "fs_random w", unfolded free] by simp
  define D where "D = clean_path base @ [grpc_dir_name name]"
  have new: "fs w D = None"
    using fresh by (simp add: D_def)
  then have inside: "fs w (D @ [''workers.sock'']) = None"
    using assms(9) by blast
  let ?w1 = "put D (Some \<lparr>nd_kind = Directory, nd_perm = 448, nd_sticky = False\<rparr>) (w\<lparr>fs_random := rs\<rparr>)"
  have "MkdirTemp (clean_path base) w = (Inr D, ?w1)"
    unfolding MkdirTemp_def call_idle [OF assms(1)] free by (simp add: D_def Let_def)
  then show ?thesis
    using new inside assms(1) base
    by (simp add: grpc_New_def handle_def Chmod_def ListenUnix_def call_idle put_def return_ok_def ready_server_def Let_def)
qed

lemma specs_ready: "new_controllers now (sort_key spec_ProviderID (mediaWorkerSpecs path c address)) {} {} \<noteq> Inl err"
  if "IsAbs (dc_MediaPython c)"
proof -
  have "TrimSpace ''desktop-presence'' = ''desktop-presence''" "TrimSpace ''desktop-vad'' = ''desktop-vad''"
    by (simp_all add: TrimSpace_printing printing_def)
  with TrimSpace_absolute [OF that] show ?thesis
    by (simp add: mediaWorkerSpecs_def Let_def)
qed

lemma panel_ready:
  assumes "desktop_Validate (be_parseIP E) c = None" "bc_token core = base64_encode bytes" "length bytes = 32"
    and "loopback_origin (be_parseURI E) (be_parseIP E) origin" "wasm \<noteq> []" "wasmExec \<noteq> []"
    and "fs_clock w = t # ts" "\<not> IsZero t"
  shows "if dc_SubjectID c = TrimSpace (dc_SubjectID c)
    then \<exists>parts w'. Build_panel E c wasm wasmExec origin core transport w = (Inr parts, w')
    else \<exists>err w'. Build_panel E c wasm wasmExec origin core transport w = (Inl err, w') \<and> IsCode err InvalidInput"
proof -
  note valid = validated [OF assms(1)]
  have subject: "TrimSpace (dc_SubjectID c) \<noteq> []" "dc_SubjectID c \<noteq> []"
    using assms(1) valid(1) by (auto simp: desktop_Validate_def Let_def split: if_splits)
  have python: "IsAbs (dc_MediaPython c)" and times: "0 < dc_WorkerStopTimeout c" "0 < dc_ProviderHealthInterval c"
    using valid(2,3) by (simp_all add: config_paths_def config_durations_def)
  have two: "length (mediaWorkerSpecs path c address) = 2" for path address
    by (simp add: mediaWorkerSpecs_def Let_def)
  have workers: "\<exists>s. Build_workers E c core transport w = (Inr s, w\<lparr>fs_clock := ts\<rparr>)"
    using specs_ready [OF python] times assms(7,8) two
    by (auto simp: Build_workers_def and_then_def read_instant_def read_clock_def Supervisor_New_def Let_def split: sum.split)
  obtain x where "x \<in> set bytes"
    using assms(3) by (cases bytes) auto
  have token: "bc_token core \<noteq> []" 
    using assms(2,3) by (cases bytes rule: base64_encode.cases) simp_all
  then have blank: "TrimSpace (bc_token core) \<noteq> []"
    using base64_plain(2) [of bytes] assms(2) by (simp add: TrimSpace_printing list_all_iff)
  have "\<exists>a. NewLoopbackAuthorizer (be_parseURI E) (be_parseIP E) (bc_token core) origin = Inr a"
    using assms(2-4) by (simp add: NewLoopbackAuthorizer_Inr base64_round_trip)
  moreover have "\<exists>p. Panel_New (bc_token core) wasm wasmExec = Inr p"
    using blank assms(5,6) by (simp add: Panel_New_def Let_def)
  moreover have "if dc_SubjectID c = TrimSpace (dc_SubjectID c) then \<exists>s. Desktop_NewServer (dc_SubjectID c) True = Inr s
      else \<exists>err. Desktop_NewServer (dc_SubjectID c) True = Inl err \<and> IsCode err InvalidInput"
    using subject by (simp add: Desktop_NewServer_def Let_def)
  ultimately show ?thesis
    using workers by (auto simp: Build_panel_def and_then_def from_result_def return_ok_def split: if_splits)
qed

text \<open>On a ready machine everything up to the transport is there, and the outcome is that of the rest.\<close>

lemma Build_ready:
  assumes "desktop_Validate (be_parseIP E) c = None" "build_ready E c (bw_files b)"
  obtains wasm wasmExec address core bytes w1 n r t ts where
    "bc_token core = base64_encode bytes" "length bytes = 32" "wasm \<noteq> []" "wasmExec \<noteq> []"
    "loopback_origin (be_parseURI E) (be_parseIP E) (''http://'' @ address)"
    "fs_clock w1 = t # ts" "\<not> IsZero t" "fs_faults w1 = []"
    "fs w1 (clean_path (dc_RuntimeBaseDir c)) = Some n" "nd_kind n = Directory" "\<not> shared_mode n"
    "r \<in> set (fs_random w1)" "fs w1 (clean_path (dc_RuntimeBaseDir c) @ [grpc_dir_name r]) = None"
    "\<forall>p. fs w1 p = None \<longrightarrow> fs w1 (p @ [''workers.sock'']) = None"
    "fst (Build E c b) = fst (and_then (grpc_New (dc_RuntimeBaseDir c)) (\<lambda>transport w.
       case Build_panel E c wasm wasmExec (''http://'' @ address) core transport w of
         (Inl err, w1) \<Rightarrow> (Inl err, Close_unstarted transport w1) | (Inr parts, w1) \<Rightarrow> (Inr parts, w1)) w1)"
proof -
  let ?w = "bw_files b" and ?base = "dc_RuntimeBaseDir c"
  obtain address n r t1 t2 ts where calm: "fs_faults ?w = []"
    and address: "be_Listen E (dc_ListenAddress c) = Inr address" "loopback_origin (be_parseURI E) (be_parseIP E) (''http://'' @ address)"
    and base: "fs ?w (clean_path ?base) = Some n" "nd_kind n = Directory" "\<not> shared_mode n"
      "r \<in> set (fs_random ?w)" "fs ?w (clean_path ?base @ [grpc_dir_name r]) = None"
      "\<forall>p. fs ?w p = None \<longrightarrow> fs ?w (p @ [''workers.sock'']) = None"
    and clock: "fs_clock ?w = t1 # t2 # ts" "\<not> IsZero t2"
    using assms(2) unfolding build_ready_def by blast
  obtain wasm wasmExec scenario where inputs: "Build_inputs E c ?w = (Inr (wasm, wasmExec, scenario), ?w)"
    and assets: "wasm \<noteq> []" "wasmExec \<noteq> []" and scenario: "ValidateScenario (ls_Requirements scenario) = None" "ls_Hash scenario \<noteq> []"
    using inputs_ready [OF assms(2)] by blast
  let ?w1 = "?w\<lparr>fs_clock := t2 # ts\<rparr>"
  obtain core bytes where core: "Build_core E c scenario ?w = (Inr core, ?w1)"
    and token: "bc_token core = base64_encode bytes" "length bytes = 32"
    using core_ready [OF assms(2,1) scenario] clock(1) by auto
  obtain rb w2 where bound: "Build_bound E c wasm wasmExec scenario address ?w = (rb, w2)"
    by (cases "Build_bound E c wasm wasmExec scenario address ?w") simp
  have "fst (Build E c b) = fst (Build_bound E c wasm wasmExec scenario address ?w)"
    using assms(1) inputs address(1) bound by (cases rb) (simp_all add: Build_def)
  also have "Build_bound E c wasm wasmExec scenario address ?w =
      and_then (grpc_New ?base) (\<lambda>transport w.
       case Build_panel E c wasm wasmExec (''http://'' @ address) core transport w of
         (Inl err, w1) \<Rightarrow> (Inl err, Close_unstarted transport w1) | (Inr parts, w1) \<Rightarrow> (Inr parts, w1)) ?w1"
    unfolding Build_bound_def by (subst and_then_def) (simp add: core)
  finally show thesis
    using that [OF token assets address(2), of ?w1 t2 ts n r] clock calm base by simp
qed

lemma Build_transport_ready:
  assumes "desktop_Validate (be_parseIP E) c = None" "build_ready E c (bw_files b)"
    and "dc_RuntimeBaseDir c = TrimSpace (dc_RuntimeBaseDir c)"
  shows "if dc_SubjectID c = TrimSpace (dc_SubjectID c) then \<exists>parts. fst (Build E c b) = Inr parts
    else \<exists>err. fst (Build E c b) = Inl err \<and> IsCode err InvalidInput"
proof (rule Build_ready [OF assms(1,2)])
  fix wasm wasmExec address core bytes w1 n r t ts
  assume token: "bc_token core = base64_encode bytes" "length bytes = 32" and assets: "wasm \<noteq> []" "wasmExec \<noteq> []"
    and address: "loopback_origin (be_parseURI E) (be_parseIP E) (''http://'' @ address)"
    and clock: "fs_clock w1 = t # ts" "\<not> IsZero t" and calm: "fs_faults w1 = []"
    and base: "fs w1 (clean_path (dc_RuntimeBaseDir c)) = Some n" "nd_kind n = Directory" "\<not> shared_mode n"
      "r \<in> set (fs_random w1)" "fs w1 (clean_path (dc_RuntimeBaseDir c) @ [grpc_dir_name r]) = None"
      "\<forall>p. fs w1 p = None \<longrightarrow> fs w1 (p @ [''workers.sock'']) = None"
    and build: "fst (Build E c b) = fst (and_then (grpc_New (dc_RuntimeBaseDir c)) (\<lambda>transport w.
       case Build_panel E c wasm wasmExec (''http://'' @ address) core transport w of
         (Inl err, w1) \<Rightarrow> (Inl err, Close_unstarted transport w1) | (Inr parts, w1) \<Rightarrow> (Inr parts, w1)) w1)"
  have absolute: "IsAbs (dc_RuntimeBaseDir c)"
    using validated(2) [OF assms(1)] by (simp add: config_paths_def)
  obtain D w2 where transport: "grpc_New (dc_RuntimeBaseDir c) w1 = (Inr (ready_server D), w2)" "fs_clock w2 = t # ts"
    using transport_ready [OF calm absolute assms(3) base] clock(1) by auto
  from panel_ready [OF assms(1) token address assets transport(2) clock(2), of "ready_server D"]
  show ?thesis
    using build transport(1) by (auto simp: and_then_def split: if_splits)
qed

text \<open>C30. \<^verbatim>\<open>Build\<close> succeeds: with a configuration that \<^verbatim>\<open>Validate\<close> accepts, on a machine that has what it names,
  it delivers the desktop unless the subject or the runtime directory has surrounding white space, which
  \<^verbatim>\<open>Validate\<close> does not check; then it fails with \<^verbatim>\<open>InvalidInput\<close>.\<close>

theorem build_succeeds:
  assumes "desktop_Validate (be_parseIP E) c = None" "build_ready E c (bw_files b)"
  shows "if dc_SubjectID c = TrimSpace (dc_SubjectID c) \<and> dc_RuntimeBaseDir c = TrimSpace (dc_RuntimeBaseDir c)
    then \<exists>parts. fst (Build E c b) = Inr parts
    else \<exists>err. fst (Build E c b) = Inl err \<and> IsCode err InvalidInput"
proof (cases "dc_RuntimeBaseDir c = TrimSpace (dc_RuntimeBaseDir c)")
  case True
  with Build_transport_ready [OF assms True] show ?thesis
    by presburger
next
  case False
  then have stopped: "\<exists>err w'. grpc_New (dc_RuntimeBaseDir c) w = (Inl err, w') \<and> IsCode err InvalidInput" for w
    by (simp add: grpc_New_def validateRuntimeBase_def return_err_def Let_def)
  have refused: "\<exists>err. fst (and_then (grpc_New (dc_RuntimeBaseDir c)) f w) = Inl err \<and> IsCode err InvalidInput"
    for f :: "grpc_Server \<Rightarrow> desktop_parts io" and w
  proof -
    obtain err w' where "grpc_New (dc_RuntimeBaseDir c) w = (Inl err, w')" "IsCode err InvalidInput"
      using stopped [of w] by blast
    then show ?thesis
      by (simp add: and_then_def)
  qed
  have "\<exists>err. fst (Build E c b) = Inl err \<and> IsCode err InvalidInput"
    by (rule Build_ready [OF assms]) (simp only: refused)
  with False show ?thesis
    by simp
qed


section \<open>A machine on which it succeeds\<close>

definition site_env :: build_env where
  "site_env =
     \<lparr>be_parseIP = (\<lambda>s. if s = ''127.0.0.1'' then Some [127, 0, 0, 1] else None), be_parseURI = panel_uri,
      be_Listen = (\<lambda>_. Inr ''127.0.0.1:8080''), be_rand = (\<lambda>n. Inr (replicate n (CHR ''x''))),
      be_EvalSymlinks = (\<lambda>p f. Inr p),
      be_decode = (\<lambda>_ r. (Inr \<lparr>wm_SchemaVersion = ''v1'', wm_Scenario = Some demo_wire\<rparr>, r)),
      be_trailing = (\<lambda>_. TrailingEOF), be_sha256 = (\<lambda>_. [1]), be_zone = (\<lambda>_. 0), be_PATH = ''/usr/bin'',
      be_table = \<lparr>pt_running = [], pt_next = 0, pt_starts = [], pt_graceful = []\<rparr>\<rparr>"

definition site_config :: "string \<Rightarrow> desktop_Config" where
  "site_config subject =
     \<lparr>dc_SubjectID = subject, dc_ListenAddress = ''127.0.0.1:0'', dc_PrivacyFile = ''/privacy'',
      dc_ScenarioFile = ''/scenario'', dc_WASMFile = ''/wasm'', dc_WASMExecFile = ''/exec'', dc_TTSBinary = [],
      dc_RuntimeBaseDir = ''/run'', dc_MediaPython = ''/python'', dc_MediaRoot = ''/media'',
      dc_CameraDevice = ''/dev/video0'', dc_ParecBinary = ''/python'', dc_ReturnAbsenceThreshold = 1,
      dc_RejectionCooldown = 1, dc_NoResponseCooldown = 1, dc_ActionTimeout = 1, dc_ExternalCallTimeout = 1,
      dc_ShutdownTimeout = 1, dc_ProviderLeaseDuration = 1, dc_ProviderHealthInterval = 1, dc_WorkerStopTimeout = 1\<rparr>"

definition site_files :: fs_world where
  "site_files =
     \<lparr>fs = [[] \<mapsto> \<lparr>nd_kind = Directory, nd_perm = 493, nd_sticky = False\<rparr>,
            [''run''] \<mapsto> \<lparr>nd_kind = Directory, nd_perm = 448, nd_sticky = False\<rparr>,
            [''media''] \<mapsto> \<lparr>nd_kind = Directory, nd_perm = 493, nd_sticky = False\<rparr>,
            [''wasm''] \<mapsto> \<lparr>nd_kind = Regular ''w'', nd_perm = 420, nd_sticky = False\<rparr>,
            [''exec''] \<mapsto> \<lparr>nd_kind = Regular ''e'', nd_perm = 420, nd_sticky = False\<rparr>,
            [''scenario''] \<mapsto> \<lparr>nd_kind = Regular ''s'', nd_perm = 420, nd_sticky = False\<rparr>,
            [''python''] \<mapsto> \<lparr>nd_kind = Regular ''p'', nd_perm = 493, nd_sticky = False\<rparr>],
      fs_faults = [], fs_ctx = [], fs_random = [''1''], fs_clock = [1, 2], fs_log = []\<rparr>"

definition site :: build_world where
  "site = \<lparr>bw_files = site_files, bw_listener = None\<rparr>"

lemma site_valid: "desktop_Validate (be_parseIP site_env) (site_config ''user-1'') = None"
  "desktop_Validate (be_parseIP site_env) (site_config '' user-1'') = None"
  by code_simp+

lemma site_ready: "build_ready site_env (site_config subject) (bw_files site)"
proof -
  have paths: "clean_path ''/privacy'' = [''privacy'']" "clean_path ''/scenario'' = [''scenario'']"
    "clean_path ''/wasm'' = [''wasm'']" "clean_path ''/exec'' = [''exec'']" "clean_path ''/run'' = [''run'']"
    "clean_path ''/python'' = [''python'']" "clean_path ''/media'' = [''media'']"
    by code_simp+
  have "fst (Service_New (file_repository [''privacy''] (\<lambda>_. 0)) True Live site_files) =
      Inr \<lparr>srv_current = projr (canonicalize blank_snapshot)\<rparr>"
  proof -
    have "\<not> isl (canonicalize blank_snapshot)" by code_simp
    then show ?thesis
      by (cases "canonicalize blank_snapshot")
        (simp_all add: Service_New_def check_ctx_def Repository_Load_def loadLocked_def and_then_def handle_def
          validateContext_def Lstat_def call_def return_ok_def site_files_def Let_def)
  qed
  moreover have "fs site_files p = None \<Longrightarrow> fs site_files (p @ [''workers.sock'']) = None" for p
    by (cases p rule: rev_cases) (auto simp: site_files_def split: if_splits)
  moreover have "reads (be_decode site_env) (be_trailing site_env) (Some ''s'') demo_wire"
    using demo_wire_ok by (simp add: reads_def site_env_def accepted_manifest_def) (simp add: demo_wire_def)
  moreover have "loopback_origin panel_uri (be_parseIP site_env) (''http://'' @ ''127.0.0.1:8080'')"
    by (simp add: loopback_origin_def panel_uri_def site_env_def IsLoopback_def To4_def)
  ultimately show ?thesis
    unfolding build_ready_def site_def
    by (auto simp: site_config_def paths regular_at_def executable_at_def asset_size_def maxAssetBytes_def
        is_regular_def executable_def shared_mode_def)
      (auto simp: site_files_def site_env_def)
qed

lemma site_built: "\<exists>parts. fst (Build site_env (site_config ''user-1'') site) = Inr parts"
proof -
  have "TrimSpace ''user-1'' = ''user-1''" "TrimSpace ''/run'' = ''/run''"
    by (simp_all add: TrimSpace_printing printing_def)
  then show ?thesis
    using Build_transport_ready [OF site_valid(1) site_ready] by (simp add: site_config_def)
qed

lemma site_parents: "\<forall>p. fs (bw_files site) p = None \<longrightarrow> fs (bw_files site) (p @ [''workers.sock'']) = None"
  using site_ready unfolding build_ready_def by blast

text \<open>A subject with a space in front is accepted by the validation, and the desktop is not built; what was taken
  is given back.\<close>

lemma build_succeeds_witness:
  "\<exists>parts err. fst (Build site_env (site_config ''user-1'') site) = Inr parts \<and>
     desktop_Validate (be_parseIP site_env) (site_config '' user-1'') = None \<and>
     fst (Build site_env (site_config '' user-1'') site) = Inl err \<and> IsCode err InvalidInput"
proof -
  have "TrimSpace ''user-1'' = ''user-1''" "TrimSpace ''/run'' = ''/run''"
    by (simp_all add: TrimSpace_printing printing_def)
  moreover have "TrimSpace '' user-1'' \<noteq> '' user-1''"
    by code_simp
  ultimately show ?thesis
    using build_succeeds [OF site_valid(1) site_ready] build_succeeds [OF site_valid(2) site_ready] site_valid(2)
    by (simp add: site_config_def)
qed

lemma site_refused: "\<exists>err. fst (Build site_env (site_config '' user-1'') site) = Inl err"
proof -
  have "TrimSpace ''/run'' = ''/run''"
    by (simp add: TrimSpace_printing printing_def)
  moreover have "TrimSpace '' user-1'' \<noteq> '' user-1''"
    by code_simp
  ultimately show ?thesis
    using Build_transport_ready [OF site_valid(2) site_ready] by (auto simp: site_config_def)
qed

lemma build_releases_witness:
  "\<exists>err b'. Build site_env (site_config '' user-1'') site = (Inl err, b') \<and> bw_listener b' = None \<and>
     fs (bw_files b') = fs site_files"
proof -
  obtain err b' where b': "Build site_env (site_config '' user-1'') site = (Inl err, b')"
    using site_refused by (metis prod.collapse)
  have "bw_listener site = None" "hard_faults (bw_files site) = 0"
    by (simp_all add: site_def site_files_def hard_faults_def)
  with build_releases [OF b' _ site_parents] b' show ?thesis
    by (auto simp: site_def)
qed


end
