(* ===== verification/Panel_Client.thy ===== *)
theory Panel_Client
  imports Panel_View Web_Panel
begin

text \<open>
  The panel in the browser (\<^verbatim>\<open>web/desktop/cmd/panel/main_js_wasm.go\<close>). The document is the map from the
  identifiers of its elements to what the program sets of them; the callbacks of a checkbox are the data they
  capture. A step is what runs between two points where a goroutine waits: an answer arrives, the user clicks, the page
  is hidden. Requests are recorded with the header fields the program sets; \<^verbatim>\<open>spawn\<close> and the first
  request of its goroutine are one step. Texts are UTF-8 bytes.
\<close>

section \<open>Texts\<close>

definition txt_connected :: string where
  "txt_connected = char_bytes [230, 156, 172, 229, 156, 176, 230, 156, 141, 229, 138, 161, 229, 183, 178, 232, 191, 158, 230, 142, 165]"

definition txt_connect_failed :: string where
  "txt_connect_failed = char_bytes [230, 156, 172, 229, 156, 176, 230, 156, 141, 229, 138, 161, 232, 191, 158, 230, 142, 165, 229, 164, 177, 232, 180, 165]"

definition txt_state_invalid :: string where
  "txt_state_invalid = char_bytes [230, 156, 172, 229, 156, 176, 231, 138, 182, 230, 128, 129, 230, 151, 160, 230, 149, 136]"

definition txt_live_unavailable :: string where
  "txt_live_unavailable = char_bytes [229, 174, 158, 230, 151, 182, 231, 138, 182, 230, 128, 129, 228, 184, 141, 229, 143, 175, 231, 148, 168]"

definition txt_disconnected :: string where
  "txt_disconnected = char_bytes [229, 174, 158, 230, 151, 182, 232, 191, 158, 230, 142, 165, 229, 183, 178, 230, 150, 173, 229, 188, 128]"

definition txt_permission_failed :: string where
  "txt_permission_failed = char_bytes [230, 157, 131, 233, 153, 144, 228, 191, 174, 230, 148, 185, 229, 164, 177, 232, 180, 165]"

definition txt_permission_invalid :: string where
  "txt_permission_invalid = char_bytes [230, 157, 131, 233, 153, 144, 231, 138, 182, 230, 128, 129, 230, 151, 160, 230, 149, 136]"

definition txt_no_request_id :: string where
  "txt_no_request_id = char_bytes [230, 151, 160, 230, 179, 149, 231, 148, 159, 230, 136, 144, 230, 156, 172, 229, 156, 176, 232, 175, 183, 230, 177, 130, 230, 160, 135, 232, 175, 134]"

definition txt_no_trace_id :: string where
  "txt_no_trace_id = char_bytes [230, 151, 160, 230, 179, 149, 231, 148, 159, 230, 136, 144, 230, 156, 172, 229, 156, 176, 232, 191, 189, 232, 184, 170, 230, 160, 135, 232, 175, 134]"

definition txt_stop_failed :: string where
  "txt_stop_failed = char_bytes [229, 129, 156, 230, 173, 162, 232, 175, 183, 230, 177, 130, 229, 164, 177, 232, 180, 165]"

definition txt_stopped :: string where
  "txt_stopped = char_bytes [229, 183, 178, 229, 129, 156, 230, 173, 162, 229, 189, 147, 229, 137, 141, 228, 186, 146, 229, 138, 168]"

definition txt_startup_failed :: string where
  "txt_startup_failed = char_bytes [230, 156, 172, 229, 156, 176, 233, 157, 162, 230, 157, 191, 229, 144, 175, 229, 138, 168, 229, 164, 177, 232, 180, 165]"

definition txt_camera :: string where
  "txt_camera = char_bytes [230, 145, 132, 229, 131, 143, 229, 164, 180]"

definition txt_microphone :: string where
  "txt_microphone = char_bytes [233, 186, 166, 229, 133, 139, 233, 163, 142]"

definition txt_biometric :: string where
  "txt_biometric = char_bytes [231, 148, 159, 231, 137, 169, 232, 175, 134, 229, 136, 171]"

definition txt_enabled :: string where
  "txt_enabled = char_bytes [229, 183, 178, 229, 144, 175, 231, 148, 168]"

definition txt_disabled :: string where
  "txt_disabled = char_bytes [230, 156, 170, 229, 144, 175, 231, 148, 168]"

definition txt_colon :: string where
  "txt_colon = char_bytes [239, 188, 154]"

definition txt_open :: string where
  "txt_open = char_bytes [239, 188, 136]"

definition txt_close :: string where
  "txt_close = char_bytes [239, 188, 137]"

section \<open>The document\<close>

record permission_row =
  prw_ID :: string
  prw_Label :: string
  prw_Wire :: int
  prw_Checked :: bool
  prw_Disabled :: bool

datatype row = PermissionRow permission_row | TextRow string

record element =
  el_text :: string
  el_class :: string
  el_disabled :: bool
  el_rows :: "row list"

type_synonym page = "string \<rightharpoonup> element"

definition unavailable_element :: goerror where
  "unavailable_element = Leaf ''desktop element is unavailable''"

definition with_element :: "string \<Rightarrow> (element \<Rightarrow> element) \<Rightarrow> page \<Rightarrow> goerror + page" where
  "with_element i f pg = (case pg i of None \<Rightarrow> Inl unavailable_element | Some e \<Rightarrow> Inr (pg(i \<mapsto> f e)))"

definition setText :: "string \<Rightarrow> string \<Rightarrow> page \<Rightarrow> goerror + page" where
  "setText i txt = with_element i (\<lambda>e. e\<lparr>el_text := txt\<rparr>)"

definition setStatus :: "string \<Rightarrow> page \<Rightarrow> page" where
  "setStatus txt pg = (case setText ''connection-status'' txt pg of Inl err \<Rightarrow> pg | Inr pg1 \<Rightarrow> pg1)"

definition indicator :: "string \<Rightarrow> bool \<Rightarrow> string" where
  "indicator label enabled = label @ txt_colon @ (if enabled then txt_enabled else txt_disabled)"

section \<open>Rendering\<close>

definition permission_row_of :: "view_Permission \<Rightarrow> row" where
  "permission_row_of v =
     PermissionRow \<lparr>prw_ID = vp_ID v, prw_Label = vp_Label v, prw_Wire = vp_Wire v, prw_Checked = vp_Enabled v,
                    prw_Disabled = False\<rparr>"

definition provider_row :: "view_Provider \<Rightarrow> row" where
  "provider_row v = TextRow (vr_ID v @ txt_colon @ vr_State v @ txt_open @ vr_Reason v @ txt_close)"

definition render_updates :: "View \<Rightarrow> (page \<Rightarrow> goerror + page) list" where
  "render_updates view =
     [with_element ''avatar'' (\<lambda>e. e\<lparr>el_class := ''avatar '' @ va_CSSClass (vw_Avatar view)\<rparr>),
      setText ''avatar-mode'' (va_Mode (vw_Avatar view)),
      setText ''avatar-text'' (va_Text (vw_Avatar view)),
      setText ''camera-indicator'' (indicator txt_camera (vw_CameraEnabled view)),
      setText ''microphone-indicator'' (indicator txt_microphone (vw_MicrophoneEnabled view)),
      setText ''biometric-indicator'' (indicator txt_biometric (vw_BiometricsEnabled view)),
      with_element ''permissions'' (\<lambda>e. e\<lparr>el_rows := map permission_row_of (vw_Permissions view)\<rparr>),
      with_element ''providers'' (\<lambda>e. e\<lparr>el_rows := map provider_row (vw_Providers view)\<rparr>)]"

text \<open>The updates up to the first error.\<close>

fun run_updates :: "(page \<Rightarrow> goerror + page) list \<Rightarrow> page \<Rightarrow> goerror option \<times> page" where
  "run_updates [] pg = (None, pg)"
| "run_updates (u # us) pg = (case u pg of Inl err \<Rightarrow> (Some err, pg) | Inr pg1 \<Rightarrow> run_updates us pg1)"

definition render_page :: "View \<Rightarrow> page \<Rightarrow> goerror option \<times> page" where
  "render_page view pg =
     (case run_updates (render_updates view) pg of
        (Some err, pg1) \<Rightarrow> (Some err, pg1)
      | (None, pg1) \<Rightarrow> (None, setStatus txt_connected pg1))"

section \<open>The program\<close>

datatype client_pc = RunGet | RunOpen | RunWatch | RunDone

datatype client_work = PermissionWork | RejectWork

datatype panel_call =
    CallGetState http_Header
  | CallWatchState http_Header
  | CallSetPermission http_Header int bool
  | CallRejectInteraction http_Header string string string

record panel =
  pn_token :: string
  pn_origin :: string
  pn_latest :: "wire_state option"
  pn_page :: page
  pn_run :: client_pc
  pn_work :: "(nat \<times> client_work) list"
  pn_next :: nat
  pn_stopping :: bool
  pn_calls :: "panel_call list"

definition initialSubjectID :: string where
  "initialSubjectID = ''user-1''"

definition panel_authorize :: "panel \<Rightarrow> http_Header \<Rightarrow> http_Header" where
  "panel_authorize p h = header_Set ''authorization'' (''Bearer '' @ pn_token p) h"

definition send_call :: "(http_Header \<Rightarrow> panel_call) \<Rightarrow> panel \<Rightarrow> panel" where
  "send_call c p = p\<lparr>pn_calls := pn_calls p @ [c (panel_authorize p Map.empty)]\<rparr>"

definition on_page :: "(page \<Rightarrow> page) \<Rightarrow> panel \<Rightarrow> panel" where
  "on_page f p = p\<lparr>pn_page := f (pn_page p)\<rparr>"

text \<open>\<^verbatim>\<open>newApplication\<close> and the start of \<^verbatim>\<open>main\<close>: the token of the page, if there is the element, and the origin.\<close>

definition newApplication :: "bool \<Rightarrow> string option \<Rightarrow> string \<Rightarrow> page \<Rightarrow> goerror + panel" where
  "newApplication browser token origin pg =
     (if \<not> browser then Inl (Leaf ''browser runtime is unavailable'')
      else (case token of
          None \<Rightarrow> Inl (Leaf ''desktop token is unavailable'')
        | Some tok \<Rightarrow>
            if tok = [] \<or> origin = [] then Inl (Leaf ''desktop endpoint configuration is unavailable'')
            else Inr \<lparr>pn_token = tok, pn_origin = origin, pn_latest = None, pn_page = pg, pn_run = RunDone,
                      pn_work = [], pn_next = 0, pn_stopping = False, pn_calls = []\<rparr>))"

definition panel_main :: "bool \<Rightarrow> string option \<Rightarrow> string \<Rightarrow> page \<Rightarrow> panel + page" where
  "panel_main browser token origin pg =
     (case newApplication browser token origin pg of
        Inl err \<Rightarrow> Inr (setStatus txt_startup_failed pg)
      | Inr p \<Rightarrow> Inl (send_call CallGetState (p\<lparr>pn_run := RunGet\<rparr>)))"

definition panel_render :: "wire_state option \<Rightarrow> panel \<Rightarrow> goerror option \<times> panel" where
  "panel_render state p =
     (case view_Build state of
        Inl err \<Rightarrow> (Some err, p)
      | Inr view \<Rightarrow>
          (case render_page view (pn_page p) of
             (err, pg) \<Rightarrow> (err, p\<lparr>pn_latest := state, pn_page := pg\<rparr>)))"

definition renderLatest :: "panel \<Rightarrow> panel" where
  "renderLatest p = (case pn_latest p of None \<Rightarrow> p | Some state \<Rightarrow> snd (panel_render (Some state) p))"

definition spawn :: "client_work \<Rightarrow> (panel \<Rightarrow> panel) \<Rightarrow> panel \<Rightarrow> panel" where
  "spawn k begins p =
     (if pn_stopping p then p else begins (p\<lparr>pn_work := pn_work p @ [(pn_next p, k)], pn_next := pn_next p + 1\<rparr>))"

definition work_done :: "nat \<Rightarrow> panel \<Rightarrow> panel" where
  "work_done n p = p\<lparr>pn_work := filter (\<lambda>w. fst w \<noteq> n) (pn_work p)\<rparr>"

datatype panel_event =
    StateAnswer "goerror + wire_state option"
  | WatchAnswer "goerror option"
  | WatchMessage "wire_state option"
  | WatchEnds
  | Toggle nat bool
  | PermissionAnswer nat "goerror + wire_state option"
  | ClickReject "string option" "string option"
  | RejectAnswer nat "goerror + bool"
  | PageHide

text \<open>\<^verbatim>\<open>run\<close>, from one wait to the next.\<close>

definition state_answer :: "goerror + wire_state option \<Rightarrow> panel \<Rightarrow> panel" where
  "state_answer answer p =
     (case answer of
        Inl err \<Rightarrow> (on_page (setStatus txt_connect_failed) p)\<lparr>pn_run := RunDone\<rparr>
      | Inr state \<Rightarrow>
          (case panel_render state p of
             (Some err, p1) \<Rightarrow> (on_page (setStatus txt_state_invalid) p1)\<lparr>pn_run := RunDone\<rparr>
           | (None, p1) \<Rightarrow> send_call CallWatchState (p1\<lparr>pn_run := RunOpen\<rparr>)))"

definition watch_answer :: "goerror option \<Rightarrow> panel \<Rightarrow> panel" where
  "watch_answer err p =
     (if err \<noteq> None then (on_page (setStatus txt_live_unavailable) p)\<lparr>pn_run := RunDone\<rparr> else p\<lparr>pn_run := RunWatch\<rparr>)"

definition watch_message :: "wire_state option \<Rightarrow> panel \<Rightarrow> panel" where
  "watch_message state p =
     (case panel_render state p of
        (Some err, p1) \<Rightarrow> (on_page (setStatus txt_state_invalid) p1)\<lparr>pn_run := RunDone\<rparr>
      | (None, p1) \<Rightarrow> p1)"

definition watch_ends :: "panel \<Rightarrow> panel" where
  "watch_ends p = (if pn_stopping p then p else on_page (setStatus txt_disconnected) p)\<lparr>pn_run := RunDone\<rparr>"

text \<open>The callback of a checkbox, and \<^verbatim>\<open>setPermission\<close> behind its request.\<close>

definition toggle_row :: "nat \<Rightarrow> permission_row \<Rightarrow> bool \<Rightarrow> page \<Rightarrow> page" where
  "toggle_row n r b pg =
     (case pg ''permissions'' of
        None \<Rightarrow> pg
      | Some e \<Rightarrow>
          pg(''permissions'' \<mapsto> e\<lparr>el_rows := (el_rows e)[n := PermissionRow (r\<lparr>prw_Checked := b, prw_Disabled := True\<rparr>)]\<rparr>))"

definition toggle :: "nat \<Rightarrow> bool \<Rightarrow> panel \<Rightarrow> panel option" where
  "toggle n b p =
     (case pn_page p ''permissions'' of
        None \<Rightarrow> None
      | Some e \<Rightarrow>
          if length (el_rows e) \<le> n then None
          else (case el_rows e ! n of
              TextRow txt \<Rightarrow> None
            | PermissionRow r \<Rightarrow>
                if prw_Disabled r then None
                else Some (spawn PermissionWork (send_call (\<lambda>h. CallSetPermission h (prw_Wire r) b)) (on_page (toggle_row n r b) p))))"

definition permission_answer :: "goerror + wire_state option \<Rightarrow> panel \<Rightarrow> panel" where
  "permission_answer answer p =
     (case answer of
        Inl err \<Rightarrow> renderLatest (on_page (setStatus txt_permission_failed) p)
      | Inr state \<Rightarrow>
          (case panel_render state p of
             (Some err, p1) \<Rightarrow> on_page (setStatus txt_permission_invalid) p1
           | (None, p1) \<Rightarrow> p1))"

text \<open>The callback of the button with its two random identifiers, and what follows its request.\<close>

definition set_button :: "bool \<Rightarrow> page \<Rightarrow> page" where
  "set_button b pg =
     (case pg ''reject-button'' of None \<Rightarrow> pg | Some e \<Rightarrow> pg(''reject-button'' \<mapsto> e\<lparr>el_disabled := b\<rparr>))"

definition click_reject :: "string option \<Rightarrow> string option \<Rightarrow> panel \<Rightarrow> panel option" where
  "click_reject requestID traceID p =
     (case pn_page p ''reject-button'' of
        None \<Rightarrow> None
      | Some e \<Rightarrow>
          if el_disabled e then None
          else
            let p1 = on_page (set_button True) p; n = pn_next p in
            Some (spawn RejectWork
              (\<lambda>p2. case (requestID, traceID) of
                 (None, _) \<Rightarrow> work_done n (on_page (set_button False) (on_page (setStatus txt_no_request_id) p2))
               | (Some r, None) \<Rightarrow> work_done n (on_page (set_button False) (on_page (setStatus txt_no_trace_id) p2))
               | (Some r, Some t) \<Rightarrow> send_call (\<lambda>h. CallRejectInteraction h r initialSubjectID t) p2) p1))"

definition reject_answer :: "goerror + bool \<Rightarrow> panel \<Rightarrow> panel" where
  "reject_answer answer p =
     on_page (set_button False)
       (on_page (setStatus (if answer = Inr True then txt_stopped else txt_stop_failed)) p)"

definition panel_stop :: "panel \<Rightarrow> panel" where
  "panel_stop p = p\<lparr>pn_stopping := True\<rparr>"

fun panel_step :: "panel_event \<Rightarrow> panel \<Rightarrow> panel option" where
  "panel_step (StateAnswer answer) p = (if pn_run p = RunGet then Some (state_answer answer p) else None)"
| "panel_step (WatchAnswer err) p = (if pn_run p = RunOpen then Some (watch_answer err p) else None)"
| "panel_step (WatchMessage state) p = (if pn_run p = RunWatch then Some (watch_message state p) else None)"
| "panel_step WatchEnds p = (if pn_run p = RunWatch then Some (watch_ends p) else None)"
| "panel_step (Toggle n b) p = toggle n b p"
| "panel_step (PermissionAnswer n answer) p =
     (if (n, PermissionWork) \<in> set (pn_work p) then Some (work_done n (permission_answer answer p)) else None)"
| "panel_step (ClickReject requestID traceID) p = click_reject requestID traceID p"
| "panel_step (RejectAnswer n answer) p =
     (if (n, RejectWork) \<in> set (pn_work p) then Some (work_done n (reject_answer answer p)) else None)"
| "panel_step PageHide p = Some (panel_stop p)"

fun panel_steps :: "panel_event list \<Rightarrow> panel \<Rightarrow> panel option" where
  "panel_steps [] p = Some p"
| "panel_steps (ev # evs) p = (case panel_step ev p of None \<Rightarrow> None | Some p' \<Rightarrow> panel_steps evs p')"

text \<open>The goroutines \<^verbatim>\<open>main\<close> waits for, and whether it has returned.\<close>

definition panel_work :: "panel \<Rightarrow> nat" where
  "panel_work p = (if pn_run p = RunDone then 0 else 1) + length (pn_work p)"

definition main_returned :: "panel \<Rightarrow> bool" where
  "main_returned p \<longleftrightarrow> pn_stopping p \<and> panel_work p = 0"

section \<open>What the page shows\<close>

definition panel_ids :: "string list" where
  "panel_ids = [''connection-status'', ''avatar'', ''avatar-mode'', ''avatar-text'', ''camera-indicator'', ''microphone-indicator'',
     ''biometric-indicator'', ''permissions'', ''providers'', ''reject-button'']"

definition complete_page :: "page \<Rightarrow> bool" where
  "complete_page pg \<longleftrightarrow> (\<forall>i \<in> set panel_ids. pg i \<noteq> None)"

definition text_of :: "string \<Rightarrow> page \<Rightarrow> string option" where
  "text_of i pg = map_option el_text (pg i)"

definition row_shows :: "view_Permission \<Rightarrow> row \<Rightarrow> bool" where
  "row_shows v r \<longleftrightarrow>
     (\<exists>q. r = PermissionRow q \<and> prw_ID q = vp_ID v \<and> prw_Label q = vp_Label v \<and> prw_Wire q = vp_Wire v \<and>
        (prw_Checked q = vp_Enabled v \<or> prw_Disabled q))"

definition page_shows :: "View \<Rightarrow> page \<Rightarrow> bool" where
  "page_shows view pg \<longleftrightarrow>
     map_option el_class (pg ''avatar'') = Some (''avatar '' @ va_CSSClass (vw_Avatar view)) \<and>
     text_of ''avatar-mode'' pg = Some (va_Mode (vw_Avatar view)) \<and>
     text_of ''avatar-text'' pg = Some (va_Text (vw_Avatar view)) \<and>
     text_of ''camera-indicator'' pg = Some (indicator txt_camera (vw_CameraEnabled view)) \<and>
     text_of ''microphone-indicator'' pg = Some (indicator txt_microphone (vw_MicrophoneEnabled view)) \<and>
     text_of ''biometric-indicator'' pg = Some (indicator txt_biometric (vw_BiometricsEnabled view)) \<and>
     (\<exists>e. pg ''permissions'' = Some e \<and> list_all2 row_shows (vw_Permissions view) (el_rows e)) \<and>
     map_option el_rows (pg ''providers'') = Some (map provider_row (vw_Providers view))"

text \<open>The other elements.\<close>

lemma page_shows_other:
  "i \<in> {''connection-status'', ''reject-button''} \<Longrightarrow> page_shows view (pg(i := x)) = page_shows view pg"
  by (elim insertE emptyE) (simp_all add: page_shows_def text_of_def)

lemma complete_update: "complete_page pg \<Longrightarrow> complete_page (pg(i \<mapsto> e))"
  by (simp add: complete_page_def)

lemma setStatus_page:
  "page_shows view (setStatus txt pg) = page_shows view pg" "complete_page pg \<Longrightarrow> complete_page (setStatus txt pg)"
  "complete_page pg \<Longrightarrow> text_of ''connection-status'' (setStatus txt pg) = Some txt"
  by (auto simp: setStatus_def setText_def with_element_def page_shows_other complete_update text_of_def complete_page_def
      panel_ids_def split: option.splits)

lemma set_button_page:
  "page_shows view (set_button b pg) = page_shows view pg" "complete_page pg \<Longrightarrow> complete_page (set_button b pg)"
  by (auto simp: set_button_def page_shows_other complete_update split: option.splits)

lemma render_complete:
  assumes "complete_page pg"
  shows "\<exists>pg'. render_page view pg = (None, pg') \<and> complete_page pg' \<and> page_shows view pg' \<and>
    text_of ''connection-status'' pg' = Some txt_connected"
proof -
  obtain e1 e2 e3 e4 e5 e6 e7 e8 where elements: "pg ''avatar'' = Some e1" "pg ''avatar-mode'' = Some e2" "pg ''avatar-text'' = Some e3"
    "pg ''camera-indicator'' = Some e4" "pg ''microphone-indicator'' = Some e5" "pg ''biometric-indicator'' = Some e6"
    "pg ''permissions'' = Some e7" "pg ''providers'' = Some e8"
    using assms by (auto simp: complete_page_def panel_ids_def)
  obtain pg1 where run: "run_updates (render_updates view) pg = (None, pg1)" and pg1: "complete_page pg1" "page_shows view pg1"
  proof -
    have "list_all2 row_shows vs (map permission_row_of vs)" for vs
      by (induction vs) (simp_all add: row_shows_def permission_row_of_def)
    then show thesis
      using assms
      by (intro that) (simp add: render_updates_def setText_def with_element_def elements,
        simp_all add: complete_update page_shows_def text_of_def)
  qed
  then show ?thesis
    by (simp add: render_page_def setStatus_page)
qed

section \<open>The invariant\<close>

fun call_header :: "panel_call \<Rightarrow> http_Header" where
  "call_header (CallGetState h) = h"
| "call_header (CallWatchState h) = h"
| "call_header (CallSetPermission h permission enabled) = h"
| "call_header (CallRejectInteraction h r s t) = h"

definition truthful :: "panel \<Rightarrow> bool" where
  "truthful p \<longleftrightarrow> complete_page (pn_page p) \<and>
     (\<forall>s. pn_latest p = Some s \<longrightarrow> (\<exists>view. view_Build (Some s) = Inr view \<and> page_shows view (pn_page p)))"

definition work_ok :: "panel \<Rightarrow> bool" where
  "work_ok p \<longleftrightarrow> distinct (map fst (pn_work p)) \<and> (\<forall>w \<in> set (pn_work p). fst w < pn_next p)"

definition calls_ok :: "panel \<Rightarrow> bool" where
  "calls_ok p \<longleftrightarrow> (\<forall>c \<in> set (pn_calls p). call_header c = panel_authorize p Map.empty)"

definition panel_ok :: "panel \<Rightarrow> bool" where
  "panel_ok p \<longleftrightarrow> truthful p \<and> work_ok p \<and> calls_ok p"

lemma truthful_cong: "pn_page p' = pn_page p \<Longrightarrow> pn_latest p' = pn_latest p \<Longrightarrow> truthful p' = truthful p"
  by (simp add: truthful_def)

lemma truthful_status: "truthful p \<Longrightarrow> truthful (on_page (setStatus txt) p)" "truthful p \<Longrightarrow> truthful (on_page (set_button b) p)"
  by (simp_all add: truthful_def on_page_def setStatus_page set_button_page)

text \<open>What an operation that is not \<^verbatim>\<open>spawn\<close> leaves alone.\<close>

definition same_program :: "panel \<Rightarrow> panel \<Rightarrow> bool" where
  "same_program p p' \<longleftrightarrow> pn_token p' = pn_token p \<and> pn_origin p' = pn_origin p \<and> pn_work p' = pn_work p \<and> pn_next p' = pn_next p \<and>
     pn_stopping p' = pn_stopping p \<and> pn_calls p' = pn_calls p"

lemma same_program_refl: "same_program p p" "same_program p (on_page f p)" "same_program p (p\<lparr>pn_run := r\<rparr>)"
  by (simp_all add: same_program_def on_page_def)

lemma same_program_trans: "same_program p q \<Longrightarrow> same_program q r \<Longrightarrow> same_program p r"
  by (simp add: same_program_def)

lemma same_program_ok: "same_program p p' \<Longrightarrow> panel_ok p \<Longrightarrow> truthful p' \<Longrightarrow> panel_ok p'"
  by (simp add: same_program_def panel_ok_def work_ok_def calls_ok_def panel_authorize_def)

text \<open>A render shows its state or changes nothing.\<close>

lemma panel_render_cases:
  assumes "truthful p"
  obtains err where "panel_render state p = (Some err, p)" "view_Build state = Inl err"
  | view p' where "panel_render state p = (None, p')" "view_Build state = Inr view" "pn_latest p' = state" "truthful p'"
    "page_shows view (pn_page p')" "text_of ''connection-status'' (pn_page p') = Some txt_connected"
    "same_program p p'" "pn_run p' = pn_run p"
proof (cases "view_Build state")
  case (Inl err)
  then show thesis
    by (intro that(1)) (simp_all add: panel_render_def)
next
  case (Inr view)
  obtain pg where pg: "render_page view (pn_page p) = (None, pg)" "complete_page pg" "page_shows view pg"
    "text_of ''connection-status'' pg = Some txt_connected"
    using render_complete [of "pn_page p" view] assms by (auto simp: truthful_def)
  moreover obtain s where "state = Some s"
    using Inr by (cases state) (simp_all add: view_Build_def)
  ultimately show thesis
    using Inr by (intro that(2) [of "p\<lparr>pn_latest := state, pn_page := pg\<rparr>" view])
      (simp_all add: panel_render_def truthful_def same_program_def)
qed

lemma renderLatest_ok:
  assumes "truthful p"
  shows "truthful (renderLatest p)" "same_program p (renderLatest p)" "pn_run (renderLatest p) = pn_run p"
    "pn_latest (renderLatest p) = pn_latest p"
    "pn_latest p \<noteq> None \<Longrightarrow> text_of ''connection-status'' (pn_page (renderLatest p)) = Some txt_connected"
proof -
  have "truthful (renderLatest p) \<and> same_program p (renderLatest p) \<and> pn_run (renderLatest p) = pn_run p \<and>
    pn_latest (renderLatest p) = pn_latest p \<and>
    (pn_latest p \<noteq> None \<longrightarrow> text_of ''connection-status'' (pn_page (renderLatest p)) = Some txt_connected)"
  proof (cases "pn_latest p")
    case (Some s)
    with assms obtain view where "view_Build (Some s) = Inr view"
      by (auto simp: truthful_def)
    with assms Some show ?thesis
      by (cases rule: panel_render_cases [OF assms, of "Some s"]) (simp_all add: renderLatest_def)
  qed (use assms in \<open>simp add: renderLatest_def same_program_refl\<close>)
  then show "truthful (renderLatest p)" "same_program p (renderLatest p)" "pn_run (renderLatest p) = pn_run p"
    "pn_latest (renderLatest p) = pn_latest p"
    "pn_latest p \<noteq> None \<Longrightarrow> text_of ''connection-status'' (pn_page (renderLatest p)) = Some txt_connected"
    by simp_all
qed

text \<open>A changed checkbox is disabled until the next render.\<close>

lemma truthful_toggle:
  assumes "truthful p" "pn_page p ''permissions'' = Some e" "n < length (el_rows e)" "el_rows e ! n = PermissionRow r"
  shows "truthful (on_page (toggle_row n r b) p)"
proof -
  let ?rows = "(el_rows e)[n := PermissionRow (r\<lparr>prw_Checked := b, prw_Disabled := True\<rparr>)]"
  have rows: "list_all2 row_shows vs ?rows" if "list_all2 row_shows vs (el_rows e)" for vs
  proof -
    have "row_shows (vs ! n) (PermissionRow (r\<lparr>prw_Checked := b, prw_Disabled := True\<rparr>))"
      using list_all2_nthD2 [OF that assms(3)] assms(4) by (auto simp: row_shows_def)
    with that assms(3) have "list_all2 row_shows (vs[n := vs ! n]) ?rows"
      by (intro list_all2_update_cong) (simp_all add: list_all2_lengthD)
    then show ?thesis
      by simp
  qed
  have "page_shows view ((pn_page p)(''permissions'' \<mapsto> e\<lparr>el_rows := ?rows\<rparr>))" if "page_shows view (pn_page p)" for view
    using that assms(2) rows by (simp add: page_shows_def text_of_def)
  with assms(1,2) show ?thesis
    unfolding truthful_def on_page_def toggle_row_def by (auto intro: complete_update)
qed

lemma send_call_ok: "panel_ok p \<Longrightarrow> (\<And>h. call_header (c h) = h) \<Longrightarrow> panel_ok (send_call c p)"
  by (auto simp: panel_ok_def truthful_def work_ok_def calls_ok_def send_call_def panel_authorize_def)

lemma work_done_ok: "panel_ok p \<Longrightarrow> panel_ok (work_done n p)"
  by (auto simp: panel_ok_def truthful_def work_ok_def calls_ok_def work_done_def panel_authorize_def distinct_map intro: inj_on_subset)

lemma run_ok: "panel_ok p \<Longrightarrow> panel_ok (p\<lparr>pn_run := r\<rparr>)"
  by (simp add: panel_ok_def truthful_def work_ok_def calls_ok_def panel_authorize_def)

lemma status_ok: "panel_ok p \<Longrightarrow> panel_ok (on_page (setStatus txt) p)" "panel_ok p \<Longrightarrow> panel_ok (on_page (set_button b) p)"
  using same_program_ok [OF same_program_refl(2)] truthful_status by (auto simp: panel_ok_def)

lemma spawn_ok: "panel_ok p \<Longrightarrow> (\<And>q. panel_ok q \<Longrightarrow> panel_ok (begins q)) \<Longrightarrow> panel_ok (spawn k begins p)"
proof -
  assume p: "panel_ok p" and begins: "\<And>q. panel_ok q \<Longrightarrow> panel_ok (begins q)"
  have "panel_ok (p\<lparr>pn_work := pn_work p @ [(pn_next p, k)], pn_next := pn_next p + 1\<rparr>)"
    using p by (auto simp: panel_ok_def truthful_def work_ok_def calls_ok_def panel_authorize_def)
  with p begins show ?thesis
    by (simp add: spawn_def)
qed

lemma panel_render_ok:
  assumes "panel_ok p"
  shows "panel_ok (snd (panel_render state p))"
proof -
  have "truthful p"
    using assms by (simp add: panel_ok_def)
  then show ?thesis
    by (cases rule: panel_render_cases [of p state]) (use assms same_program_ok in \<open>auto\<close>)
qed

lemma renderLatest_panel_ok: "panel_ok p \<Longrightarrow> panel_ok (renderLatest p)"
  by (simp add: renderLatest_def panel_render_ok split: option.split)

text \<open>Every step keeps the invariant.\<close>

lemma state_answer_ok: "panel_ok p \<Longrightarrow> panel_ok (state_answer answer p)"
  using panel_render_ok [of p]
  by (auto simp: state_answer_def run_ok status_ok send_call_ok split: sum.split prod.split option.split)
    (metis run_ok send_call_ok status_ok(1) call_header.simps snd_conv)+

lemma watch_ok:
  "panel_ok p \<Longrightarrow> panel_ok (watch_answer err p)" "panel_ok p \<Longrightarrow> panel_ok (watch_ends p)"
  by (auto simp: watch_answer_def watch_ends_def run_ok status_ok)

lemma watch_message_ok: "panel_ok p \<Longrightarrow> panel_ok (watch_message state p)"
  using panel_render_ok [of p state]
  by (auto simp: watch_message_def run_ok status_ok split: prod.split option.split)

lemma permission_answer_ok: "panel_ok p \<Longrightarrow> panel_ok (permission_answer answer p)"
  using panel_render_ok [of p]
  by (auto simp: permission_answer_def status_ok renderLatest_panel_ok split: sum.split prod.split option.split)
    (metis status_ok(1) snd_conv)+

lemma toggle_ok: "panel_ok p \<Longrightarrow> toggle n b p = Some p' \<Longrightarrow> panel_ok p'"
proof -
  assume p: "panel_ok p" and step: "toggle n b p = Some p'"
  from step obtain e r where e: "pn_page p ''permissions'' = Some e" "n < length (el_rows e)" "el_rows e ! n = PermissionRow r"
    and p': "p' = spawn PermissionWork (send_call (\<lambda>h. CallSetPermission h (prw_Wire r) b)) (on_page (toggle_row n r b) p)"
    by (auto simp: toggle_def split: option.splits if_splits row.splits)
  have "truthful p"
    using p by (simp add: panel_ok_def)
  then have "panel_ok (on_page (toggle_row n r b) p)"
    using same_program_ok [OF same_program_refl(2) p] truthful_toggle [OF _ e] by blast
  then show ?thesis
    unfolding p' by (intro spawn_ok send_call_ok) simp_all
qed

lemma click_reject_ok: "panel_ok p \<Longrightarrow> click_reject r t p = Some p' \<Longrightarrow> panel_ok p'"
  by (auto simp: click_reject_def Let_def intro!: spawn_ok send_call_ok work_done_ok status_ok split: option.splits if_splits)

lemma panel_stop_ok: "panel_ok p \<Longrightarrow> panel_ok (panel_stop p)"
  by (simp add: panel_stop_def panel_ok_def truthful_def work_ok_def calls_ok_def panel_authorize_def)

lemma reject_answer_ok: "panel_ok p \<Longrightarrow> panel_ok (reject_answer answer p)"
  unfolding reject_answer_def by (intro status_ok)

lemmas answer_ok = state_answer_ok watch_ok watch_message_ok permission_answer_ok reject_answer_ok panel_stop_ok

lemma panel_step_ok: "panel_ok p \<Longrightarrow> panel_step ev p = Some p' \<Longrightarrow> panel_ok p'"
proof (induction ev p rule: panel_step.induct)
  case (5 n b p)
  then show ?case
    by (simp add: toggle_ok)
next
  case (7 r t p)
  then show ?case
    by (simp add: click_reject_ok)
qed (auto simp: answer_ok work_done_ok split: if_splits)

lemma panel_steps_ok: "panel_ok p \<Longrightarrow> panel_steps evs p = Some p' \<Longrightarrow> panel_ok p'"
  by (induction evs arbitrary: p) (auto split: option.splits dest: panel_step_ok)

lemma panel_main_ok:
  assumes "panel_main browser token origin pg = Inl p" "complete_page pg"
  shows "panel_ok p \<and> \<not> pn_stopping p \<and> pn_calls p = [CallGetState (header_Set ''authorization'' (''Bearer '' @ pn_token p) Map.empty)] \<and>
    token = Some (pn_token p) \<and> pn_token p \<noteq> [] \<and> pn_latest p = None"
proof -
  obtain tok where "token = Some tok" "tok \<noteq> []" and p: "p = send_call CallGetState \<lparr>pn_token = tok, pn_origin = origin, pn_latest = None,
      pn_page = pg, pn_run = RunGet, pn_work = [], pn_next = 0, pn_stopping = False, pn_calls = []\<rparr>"
    using assms(1) by (auto simp: panel_main_def newApplication_def split: sum.splits if_splits option.splits)
  then show ?thesis
    using assms(2) unfolding p by (auto simp: send_call_def panel_ok_def truthful_def work_ok_def calls_ok_def panel_authorize_def)
qed

section \<open>What the panel promises\<close>

text \<open>The state an event brings, if it can be rendered, and the last of them.\<close>

fun event_state :: "panel_event \<Rightarrow> wire_state option" where
  "event_state (StateAnswer (Inr state)) = state"
| "event_state (WatchMessage state) = state"
| "event_state (PermissionAnswer n (Inr state)) = state"
| "event_state ev = None"

definition rendered :: "wire_state option \<Rightarrow> wire_state option \<Rightarrow> wire_state option" where
  "rendered state latest =
     (case state of
        None \<Rightarrow> latest
      | Some s \<Rightarrow> (case view_Build (Some s) of Inl err \<Rightarrow> latest | Inr view \<Rightarrow> Some s))"

fun last_rendered :: "panel_event list \<Rightarrow> wire_state option \<Rightarrow> wire_state option" where
  "last_rendered [] latest = latest"
| "last_rendered (ev # evs) latest = last_rendered evs (rendered (event_state ev) latest)"

lemma view_Build_None: "view_Build None \<noteq> Inr view"
  by (simp add: view_Build_def)

lemma panel_render_latest:
  assumes "truthful p"
  shows "pn_latest (snd (panel_render state p)) = rendered state (pn_latest p)"
  using assms
  by (cases rule: panel_render_cases [of p state]) (auto simp: rendered_def view_Build_None split: option.splits)

lemma latest_simps:
  "pn_latest (on_page f p) = pn_latest p" "pn_latest (send_call c p) = pn_latest p" "pn_latest (work_done n p) = pn_latest p"
  "pn_latest (panel_stop p) = pn_latest p" "(\<And>q. pn_latest (begins q) = pn_latest q) \<Longrightarrow> pn_latest (spawn k begins p) = pn_latest p"
  by (simp_all add: on_page_def send_call_def work_done_def panel_stop_def spawn_def)

lemma renderLatest_latest: "pn_latest (renderLatest p) = pn_latest p"
  by (simp add: renderLatest_def panel_render_def split: option.split sum.split prod.split)

lemma step_latest:
  assumes "panel_ok p" "panel_step ev p = Some p'"
  shows "pn_latest p' = rendered (event_state ev) (pn_latest p)"
proof -
  have render: "pn_latest p1 = rendered state (pn_latest p)" if "panel_render state p = (err, p1)" for state err p1
    using panel_render_latest [of p state] that assms(1) by (simp add: panel_ok_def)
  show ?thesis
  proof (cases "(ev, p)" rule: panel_step.cases)
    case (1 answer q)
    with assms(2) show ?thesis
      by (cases answer) (auto simp: state_answer_def latest_simps rendered_def [of None] render split: prod.splits option.splits if_splits)
  next
    case (3 state q)
    with assms(2) show ?thesis
      by (auto simp: watch_message_def latest_simps render split: prod.splits option.splits if_splits)
  next
    case (5 n b q)
    with assms(2) show ?thesis
      by (auto simp: toggle_def latest_simps rendered_def split: option.splits if_splits row.splits)
  next
    case (6 n answer q)
    with assms(2) show ?thesis
      by (cases answer) (auto simp: permission_answer_def latest_simps rendered_def [of None] render renderLatest_latest
          split: prod.splits option.splits if_splits)
  next
    case (7 r t q)
    with assms(2) show ?thesis
      by (auto simp: click_reject_def Let_def latest_simps rendered_def split: option.splits if_splits)
  qed (use assms(2) in \<open>auto simp: watch_answer_def watch_ends_def reject_answer_def latest_simps rendered_def split: if_splits\<close>)
qed

lemma steps_latest: "panel_ok p \<Longrightarrow> panel_steps evs p = Some p' \<Longrightarrow> pn_latest p' = last_rendered evs (pn_latest p)"
  by (induction evs arbitrary: p) (auto split: option.splits, metis panel_step_ok step_latest)

text \<open>The token is that of the page.\<close>

lemma token_simps:
  "pn_token (on_page f p) = pn_token p" "pn_token (send_call c p) = pn_token p" "pn_token (work_done n p) = pn_token p"
  "pn_token (panel_stop p) = pn_token p" "(\<And>q. pn_token (begins q) = pn_token q) \<Longrightarrow> pn_token (spawn k begins p) = pn_token p"
  by (simp_all add: on_page_def send_call_def work_done_def panel_stop_def spawn_def)

lemma render_token: "panel_render state p = (err, q) \<Longrightarrow> pn_token q = pn_token p" "pn_token (renderLatest p) = pn_token p"
  by (auto simp: renderLatest_def panel_render_def split: option.splits sum.splits prod.splits)

lemma step_token:
  assumes "panel_step ev p = Some p'"
  shows "pn_token p' = pn_token p"
  using assms
proof (cases "(ev, p)" rule: panel_step.cases)
  case (1 answer q)
  with assms show ?thesis
    by (cases answer) (auto simp: state_answer_def token_simps dest: render_token(1) split: if_splits prod.splits option.splits)
next
  case (3 state q)
  with assms show ?thesis
    by (auto simp: watch_message_def token_simps dest: render_token(1) split: if_splits prod.splits option.splits)
next
  case (6 n answer q)
  with assms show ?thesis
    by (cases answer) (auto simp: permission_answer_def token_simps render_token(2) dest: render_token(1) split: if_splits prod.splits option.splits)
qed (auto simp: watch_answer_def watch_ends_def toggle_def click_reject_def Let_def reject_answer_def token_simps
    split: if_splits option.splits row.splits)

lemma steps_token: "panel_steps evs p = Some p' \<Longrightarrow> pn_token p' = pn_token p"
  by (induction evs arbitrary: p) (auto split: option.splits dest: step_token)

lemma steps_append: "panel_steps (evs1 @ evs2) p = (case panel_steps evs1 p of None \<Rightarrow> None | Some q \<Rightarrow> panel_steps evs2 q)"
  by (induction evs1 arbitrary: p) (simp_all split: option.split)

text \<open>A panel for the examples.\<close>

definition blank_element :: element where
  "blank_element = \<lparr>el_text = [], el_class = [], el_disabled = False, el_rows = []\<rparr>"

definition index_page :: page where
  "index_page = map_of (map (\<lambda>i. (i, blank_element)) panel_ids)"

lemma index_page_complete: "complete_page index_page"
  by (simp add: complete_page_def index_page_def panel_ids_def)

definition started_panel :: panel where
  "started_panel = send_call CallGetState \<lparr>pn_token = ''t'', pn_origin = ''http://127.0.0.1:1'', pn_latest = None, pn_page = index_page,
     pn_run = RunGet, pn_work = [], pn_next = 0, pn_stopping = False, pn_calls = []\<rparr>"

lemma started: "panel_main True (Some ''t'') ''http://127.0.0.1:1'' index_page = Inl started_panel"
  by (simp add: panel_main_def newApplication_def started_panel_def send_call_def panel_authorize_def)

text \<open>C27. Whatever the answers, the messages of the stream, the clicks and their order, the page shows exactly the last state
that arrived and could be rendered: the class, mode and text of the avatar, the three sensors, one line per provider and one
checkbox per permission, checked as the state says or disabled while a change of it is under way. A refused state
changes none of it.\<close>

theorem panel_client_truthful:
  assumes "panel_main browser token origin pg = Inl p" "complete_page pg" "panel_steps evs p = Some p'"
  shows "case last_rendered evs None of
      None \<Rightarrow> pn_latest p' = None
    | Some s \<Rightarrow> pn_latest p' = Some s \<and> (\<exists>view. view_Build (Some s) = Inr view \<and> page_shows view (pn_page p'))"
proof -
  have p: "panel_ok p" "pn_latest p = None"
    using panel_main_ok [OF assms(1,2)] by simp_all
  have "pn_latest p' = last_rendered evs None" "truthful p'"
    using steps_latest [OF p(1) assms(3)] panel_steps_ok [OF p(1) assms(3)] p(2) by (simp_all add: panel_ok_def)
  then show ?thesis
    by (auto simp: truthful_def split: option.split)
qed

definition shown_state :: "64 word \<Rightarrow> wire_state" where
  "shown_state revision =
     \<lparr>ws_Revision = revision, ws_Avatar = Some \<lparr>aw_Mode = 1, aw_Text = ''hi'', aw_Speaking = False, aw_ActionId = [], aw_OccurredAt = 0\<rparr>,
      ws_Permissions = map (\<lambda>n. Some \<lparr>gw_Permission = n, gw_Enabled = n = 1, gw_UpdatedAt = None\<rparr>) view_permissionOrder,
      ws_Providers = []\<rparr>"

lemma shown_state_builds: "revision \<noteq> 0 \<Longrightarrow> \<exists>view. view_Build (Some (shown_state revision)) = Inr view"
  by (simp add: shown_state_def view_Build_def mapAvatar_def avatar_modes_def mapPermissions_def view_permissionOrder_def
      permissionDefinitions_def mapProviders_def)

text \<open>A valid state moves the client on to its stream.\<close>

lemma valid_state_opens:
  assumes "truthful p" "pn_run p = RunGet" "view_Build (Some s) = Inr view"
  obtains q where "panel_step (StateAnswer (Inr (Some s))) p = Some q" "pn_run q = RunOpen"
proof (cases rule: panel_render_cases [OF assms(1), of "Some s"])
  case (2 view' q)
  then show thesis
    using assms(2) by (intro that [of "send_call CallWatchState (q\<lparr>pn_run := RunOpen\<rparr>)"]) (simp_all add: state_answer_def send_call_def)
qed (use assms(3) in simp)

definition example_events :: "panel_event list" where
  "example_events = [StateAnswer (Inr (Some (shown_state 1))), WatchAnswer None, WatchMessage None, PageHide]"

lemma example_run: "panel_ok started_panel" "panel_steps example_events started_panel \<noteq> None"
proof -
  show ok: "panel_ok started_panel"
    using panel_main_ok [OF started index_page_complete] by simp
  obtain view where "view_Build (Some (shown_state 1)) = Inr view"
    using shown_state_builds [of 1] by auto
  moreover have "pn_run started_panel = RunGet"
    by (simp add: started_panel_def send_call_def)
  ultimately obtain q where "panel_step (StateAnswer (Inr (Some (shown_state 1)))) started_panel = Some q" "pn_run q = RunOpen"
    using valid_state_opens ok unfolding panel_ok_def by blast
  then show "panel_steps example_events started_panel \<noteq> None"
    by (simp add: example_events_def watch_answer_def)
qed

lemma panel_client_truthful_witness:
  "\<exists>p' view. panel_steps example_events started_panel = Some p' \<and> pn_latest p' = Some (shown_state 1) \<and>
     view_Build (Some (shown_state 1)) = Inr view \<and> page_shows view (pn_page p')"
proof -
  obtain p' where p': "panel_steps example_events started_panel = Some p'"
    using example_run(2) by blast
  obtain view where "view_Build (Some (shown_state 1)) = Inr view"
    using shown_state_builds [of 1] by auto
  then have "last_rendered example_events None = Some (shown_state 1)"
    by (simp add: example_events_def rendered_def)
  with panel_client_truthful [OF started index_page_complete p'] p' show ?thesis
    by auto
qed

text \<open>Two answers on different connections may arrive in either order: the later one is shown, whatever its revision.\<close>

lemma later_answer_shown:
  assumes "panel_ok p" "panel_steps [WatchMessage (Some new), PermissionAnswer n (Inr (Some old))] p = Some p'"
    and "view_Build (Some old) = Inr view"
  shows "pn_latest p' = Some old"
  using steps_latest [OF assms(1,2)] assms(3) by (simp add: rendered_def)

text \<open>The text that a change of a permission failed is overwritten at once by the render that follows it.\<close>

lemma failed_change_unreported:
  assumes "panel_ok p" "pn_latest p \<noteq> None" "panel_step (PermissionAnswer n (Inl err)) p = Some p'"
  shows "text_of ''connection-status'' (pn_page p') = Some txt_connected"
proof -
  have "truthful (on_page (setStatus txt_permission_failed) p)"
    using assms(1) by (simp add: panel_ok_def truthful_status)
  from renderLatest_ok(5) [OF this] assms(2,3) show ?thesis
    by (auto simp: permission_answer_def work_done_def latest_simps split: if_splits)
qed

section \<open>Stopping\<close>

text \<open>What the waiting calls of a stopped panel answer, one per goroutine: the context of each is cancelled.\<close>

definition cancelled_run :: "goerror \<Rightarrow> client_pc \<Rightarrow> panel_event list" where
  "cancelled_run err pc =
     (case pc of RunGet \<Rightarrow> [StateAnswer (Inl err)] | RunOpen \<Rightarrow> [WatchAnswer (Some err)] | RunWatch \<Rightarrow> [WatchEnds] | RunDone \<Rightarrow> [])"

fun cancelled_work :: "goerror \<Rightarrow> nat \<times> client_work \<Rightarrow> panel_event" where
  "cancelled_work err (n, PermissionWork) = PermissionAnswer n (Inl err)"
| "cancelled_work err (n, RejectWork) = RejectAnswer n (Inl err)"

definition cancellation :: "goerror \<Rightarrow> panel \<Rightarrow> panel_event list" where
  "cancellation err p = cancelled_run err (pn_run p) @ map (cancelled_work err) (pn_work p)"

lemma cancellation_length: "length (cancellation err p) = panel_work p"
  by (cases "pn_run p") (simp_all add: cancellation_def cancelled_run_def panel_work_def)

text \<open>The part of the state a stopped panel still has.\<close>

definition stopped_like :: "panel \<Rightarrow> panel \<Rightarrow> bool" where
  "stopped_like p p' \<longleftrightarrow> pn_stopping p' = pn_stopping p \<and> pn_calls p' = pn_calls p"

lemma cancelled_run_steps:
  assumes "panel_ok p"
  obtains q where "panel_steps (cancelled_run err (pn_run p)) p = Some q" "panel_ok q" "pn_run q = RunDone" "pn_work q = pn_work p"
    "stopped_like p q"
proof -
  obtain q where q: "panel_steps (cancelled_run err (pn_run p)) p = Some q" "pn_run q = RunDone" "pn_work q = pn_work p" "stopped_like p q"
    by (cases "pn_run p")
      (simp_all add: cancelled_run_def state_answer_def watch_answer_def watch_ends_def on_page_def stopped_like_def)
  with panel_steps_ok [OF assms q(1)] that show thesis
    by blast
qed

lemma cancelled_work_step:
  assumes "panel_ok p" "pn_work p = w # ws"
  obtains q where "panel_step (cancelled_work err w) p = Some q" "panel_ok q" "pn_run q = pn_run p" "pn_work q = ws" "stopped_like p q"
proof -
  obtain n k where w: "w = (n, k)"
    by fastforce
  have distinct: "filter (\<lambda>v. fst v \<noteq> n) (pn_work p) = ws"
    using assms by (auto simp: panel_ok_def work_ok_def w filter_id_conv image_iff)
  have render: "same_program p (renderLatest (on_page (setStatus msg) p))" "pn_run (renderLatest (on_page (setStatus msg) p)) = pn_run p" for msg
  proof -
    have "truthful (on_page (setStatus msg) p)"
      using assms(1) by (simp add: panel_ok_def truthful_status)
    from renderLatest_ok(2,3) [OF this] show "same_program p (renderLatest (on_page (setStatus msg) p))"
      "pn_run (renderLatest (on_page (setStatus msg) p)) = pn_run p"
      by (auto intro: same_program_trans same_program_refl) (simp add: on_page_def)
  qed
  obtain q where q: "panel_step (cancelled_work err w) p = Some q" "pn_run q = pn_run p" "pn_work q = ws" "stopped_like p q"
  proof (cases k)
    case PermissionWork
    then show thesis
      using render [of txt_permission_failed] assms(2) distinct
      by (intro that [of "work_done n (permission_answer (Inl err) p)"])
        (auto simp: w permission_answer_def work_done_def same_program_def stopped_like_def)
  next
    case RejectWork
    then show thesis
      using assms(2) distinct
      by (intro that [of "work_done n (reject_answer (Inl err) p)"])
        (auto simp: w reject_answer_def work_done_def on_page_def stopped_like_def)
  qed
  with panel_step_ok [OF assms(1) q(1)] that show thesis
    by blast
qed

lemma cancelled_work_steps:
  "panel_ok p \<Longrightarrow> pn_work p = ws \<Longrightarrow>
     \<exists>q. panel_steps (map (cancelled_work err) ws) p = Some q \<and> pn_run q = pn_run p \<and> pn_work q = [] \<and> stopped_like p q"
proof (induction ws arbitrary: p)
  case (Cons w ws)
  obtain q where q: "panel_step (cancelled_work err w) p = Some q" "panel_ok q" "pn_run q = pn_run p" "pn_work q = ws" "stopped_like p q"
    using cancelled_work_step [OF Cons.prems] by blast
  with Cons.IH [OF q(2,4)] show ?case
    by (auto simp: stopped_like_def)
qed (simp add: stopped_like_def)

lemma cancellation_returns:
  assumes "panel_ok p" "pn_stopping p"
  shows "\<exists>q. panel_steps (cancellation err p) p = Some q \<and> main_returned q \<and> pn_calls q = pn_calls p"
proof -
  obtain q1 where q1: "panel_steps (cancelled_run err (pn_run p)) p = Some q1" "panel_ok q1" "pn_run q1 = RunDone" "pn_work q1 = pn_work p"
    "stopped_like p q1"
    using cancelled_run_steps [OF assms(1)] by blast
  with cancelled_work_steps [OF q1(2,4), of err] assms(2) show ?thesis
    by (auto simp: cancellation_def steps_append main_returned_def panel_work_def stopped_like_def)
qed

text \<open>The requests a panel may still send when it is told to stop: that of the stream, if the first state is awaited.\<close>

definition open_calls :: "panel \<Rightarrow> nat" where
  "open_calls p = length (pn_calls p) + (if pn_run p = RunGet then 1 else 0)"

definition winding_down :: "panel \<Rightarrow> panel \<Rightarrow> bool" where
  "winding_down p p' \<longleftrightarrow> pn_stopping p' \<and> panel_work p' \<le> panel_work p \<and> open_calls p' \<le> open_calls p"

lemma winding_down_refl: "pn_stopping p \<Longrightarrow> winding_down p p"
  by (simp add: winding_down_def)

lemma winding_down_trans: "winding_down p q \<Longrightarrow> winding_down q r \<Longrightarrow> winding_down p r"
  by (auto simp: winding_down_def)

lemma winding_down_work_done: "winding_down p q \<Longrightarrow> winding_down p (work_done n q)"
proof -
  assume "winding_down p q"
  moreover have "panel_work (work_done n q) \<le> panel_work q"
    by (simp add: panel_work_def work_done_def)
  moreover have "pn_stopping (work_done n q) = pn_stopping q" "open_calls (work_done n q) = open_calls q"
    by (simp_all add: work_done_def open_calls_def)
  ultimately show ?thesis
    by (simp add: winding_down_def)
qed

lemma winding_down_page: "pn_stopping p \<Longrightarrow> winding_down p (on_page f p)" "winding_down p q \<Longrightarrow> winding_down p (on_page f q)"
  by (simp_all add: winding_down_def on_page_def panel_work_def open_calls_def)

lemma winding_down_render: "pn_stopping p \<Longrightarrow> winding_down p (snd (panel_render state p))"
  by (simp add: panel_render_def winding_down_def panel_work_def open_calls_def split: sum.split prod.split)

lemma winding_down_latest: "pn_stopping p \<Longrightarrow> winding_down p (renderLatest p)"
  by (simp add: renderLatest_def winding_down_render split: option.split) (simp add: winding_down_def)

lemma winding_down_spawn: "winding_down p q \<Longrightarrow> winding_down p (spawn k begins q)"
  by (simp add: spawn_def winding_down_def)

lemma winding_down_run:
  "winding_down p q \<Longrightarrow> pn_run q \<noteq> RunDone \<or> r = RunDone \<Longrightarrow> r \<noteq> RunGet \<Longrightarrow> winding_down p (q\<lparr>pn_run := r\<rparr>)"
  by (auto simp: winding_down_def panel_work_def open_calls_def split: if_splits)

lemma state_answer_stopped: "pn_stopping p \<Longrightarrow> pn_run p = RunGet \<Longrightarrow> winding_down p (state_answer answer p)"
  by (auto simp: state_answer_def panel_render_def winding_down_def panel_work_def open_calls_def on_page_def send_call_def
      split: sum.split prod.split option.split)

lemma permission_answer_stopped: "pn_stopping p \<Longrightarrow> winding_down p (permission_answer answer p)"
proof (cases answer)
  case (Inl err)
  assume "pn_stopping p"
  then have "winding_down (on_page (setStatus txt_permission_failed) p) (renderLatest (on_page (setStatus txt_permission_failed) p))"
    by (intro winding_down_latest) (simp add: on_page_def)
  with winding_down_trans [OF winding_down_page(1)] \<open>pn_stopping p\<close> show ?thesis
    by (simp add: permission_answer_def Inl)
next
  case (Inr state)
  assume "pn_stopping p"
  with winding_down_render [of p state] winding_down_page(2) show ?thesis
    by (auto simp: permission_answer_def Inr split: prod.split option.split)
qed

lemma stopped_step:
  assumes "pn_stopping p" "panel_step ev p = Some p'"
  shows "winding_down p p'"
proof (cases "(ev, p)" rule: panel_step.cases)
  case (1 answer q)
  with assms show ?thesis
    by (auto simp: state_answer_stopped split: if_splits)
next
  case (3 state q)
  with assms winding_down_render [of p state] show ?thesis
    by (auto simp: watch_message_def intro!: winding_down_run winding_down_page split: prod.splits option.splits if_splits)
next
  case (6 n answer q)
  with assms permission_answer_stopped show ?thesis
    by (auto intro!: winding_down_work_done split: if_splits)
next
  case (5 n b q)
  with assms show ?thesis
    by (auto simp: toggle_def intro!: winding_down_spawn winding_down_page winding_down_refl split: option.splits if_splits row.splits)
next
  case (7 r t q)
  with assms show ?thesis
    by (auto simp: click_reject_def Let_def intro!: winding_down_spawn winding_down_page winding_down_refl split: option.splits if_splits)
next
  case (8 n answer q)
  with assms show ?thesis
    by (auto simp: reject_answer_def intro!: winding_down_work_done winding_down_page winding_down_refl split: if_splits)
qed (use assms in \<open>auto simp: watch_answer_def watch_ends_def panel_stop_def winding_down_def panel_work_def open_calls_def
    on_page_def split: if_splits\<close>)

lemma stopped_steps: "pn_stopping p \<Longrightarrow> panel_steps evs p = Some p' \<Longrightarrow> winding_down p p'"
proof (induction evs arbitrary: p)
  case (Cons ev evs)
  then obtain q where q: "panel_step ev p = Some q" "panel_steps evs q = Some p'"
    by (auto split: option.splits)
  have "winding_down p q"
    using Cons.prems(1) q(1) by (rule stopped_step)
  moreover have "winding_down q p'"
    by (rule Cons.IH) (use \<open>winding_down p q\<close> q(2) in \<open>simp_all add: winding_down_def\<close>)
  ultimately show ?case
    by (rule winding_down_trans)
qed (simp add: winding_down_def)

text \<open>C28. When the page is hidden the client winds down: whatever happens after it, no further goroutine starts and no request
is sent but that of the stream a first state was awaited for; and as soon as the waiting requests, one per goroutine, return
with their cancelled context, the program has returned, without another request.\<close>

theorem panel_stops:
  assumes "panel_main browser token origin pg = Inl p" "complete_page pg" "panel_steps before p = Some p1"
    and "panel_steps (PageHide # later) p1 = Some p2"
  shows "pn_stopping p2 \<and> panel_work p2 \<le> panel_work p1 \<and> open_calls p2 \<le> open_calls p1 \<and>
    length (cancellation err p2) = panel_work p2 \<and>
    (\<exists>q. panel_steps (cancellation err p2) p2 = Some q \<and> main_returned q \<and> pn_calls q = pn_calls p2)"
proof -
  have p1: "panel_ok p1"
    using panel_main_ok [OF assms(1,2)] panel_steps_ok assms(3) by blast
  then have p2: "panel_ok p2"
    using panel_steps_ok assms(4) by blast
  have "winding_down (panel_stop p1) p2"
    using assms(4) by (intro stopped_steps [of _ later]) (simp_all add: panel_stop_def)
  then have "winding_down p1 p2"
    by (simp add: winding_down_def panel_stop_def panel_work_def open_calls_def)
  with cancellation_returns [OF p2] cancellation_length show ?thesis
    by (simp add: winding_down_def)
qed

lemma panel_stops_witness:
  "\<exists>p2 q. panel_steps example_events started_panel = Some p2 \<and> pn_stopping p2 \<and>
     panel_steps (cancellation (Leaf ''context canceled'') p2) p2 = Some q \<and> main_returned q"
proof -
  have split: "example_events = [StateAnswer (Inr (Some (shown_state 1))), WatchAnswer None, WatchMessage None] @ [PageHide]"
    by (simp add: example_events_def)
  obtain p1 p2 where steps: "panel_steps [StateAnswer (Inr (Some (shown_state 1))), WatchAnswer None, WatchMessage None] started_panel = Some p1"
    "panel_steps [PageHide] p1 = Some p2" "panel_steps example_events started_panel = Some p2"
    using example_run(2) unfolding split steps_append by (auto split: option.splits)
  with panel_stops [OF started index_page_complete steps(1,2)] show ?thesis
    by blast
qed

end
