(* ===== verification/Desktop_Panel.thy ===== *)
theory Desktop_Panel
  imports App_Build Panel_Client
begin

text \<open>
  From the process to the browser and back: the page that the built desktop serves starts the client
  (\<^verbatim>\<open>newApplication\<close>), and every request of that client is one the desktop admits.
\<close>

text \<open>A request of the client as it reaches the desktop: with the address of the browser, and the origin of the
  page, which the browser adds.\<close>

definition browser_request :: "string \<Rightarrow> string \<Rightarrow> panel_call \<Rightarrow> http_Request" where
  "browser_request address origin c =
     \<lparr>hr_RemoteAddr = address, hr_Header = header_Set ''origin'' origin (call_header c), hr_ctxErr = None\<rparr>"

lemma request_keys:
  "canonical_key True ''origin'' = ''Origin''" "canonical_key True ''authorization'' = ''Authorization''"
  by code_simp+

lemma browser_request_header:
  assumes "call_header c = header_Set ''authorization'' bearer Map.empty"
  shows "header_Values (hr_Header (browser_request address origin c)) ''origin'' = [origin]"
    "header_Values (hr_Header (browser_request address origin c)) ''authorization'' = [bearer]"
  by (simp_all add: browser_request_def assms header_Values_Set request_keys del: canonical_key.simps)

text \<open>C26. The panel of the built desktop can use it. A browser that opens the page of a desktop that
  \<^verbatim>\<open>Build\<close> delivered starts the client, and whatever then happens in the page, each request the client sends
  to that desktop, from a loopback address and with the origin of the page, is admitted.\<close>

theorem panel_admitted:
  assumes "Build E c b = (Inr parts, b')" "complete_page pg" "loopback_address (be_parseIP E) address"
  shows "\<exists>p. panel_main True
        (page_token (ps_Body (ServeHTTP (bd_panel parts) \<lparr>pr_Method = ''GET'', pr_Path = ''/'', pr_EscapedPath = ''/''\<rparr>)))
        (bd_origin parts) pg = Inl p \<and>
    (\<forall>evs p' call. panel_steps evs p = Some p' \<longrightarrow> call \<in> set (pn_calls p') \<longrightarrow>
       panel_request (be_parseIP E) (bd_authorizer parts) (browser_request address (bd_origin parts) call))"
proof -
  note access = built_access [OF assms(1)]
  let ?page = "ps_Body (ServeHTTP (bd_panel parts) \<lparr>pr_Method = ''GET'', pr_Path = ''/'', pr_EscapedPath = ''/''\<rparr>)"
  obtain p where p: "panel_main True (page_token ?page) (bd_origin parts) pg = Inl p"
    using access by (simp add: panel_main_def newApplication_def)
  have start: "panel_ok p" "pn_token p = bd_token parts"
    using panel_main_ok [OF p assms(2)] access(1) by simp_all
  have "panel_request (be_parseIP E) (bd_authorizer parts) (browser_request address (bd_origin parts) call)"
    if "panel_steps evs p = Some p'" "call \<in> set (pn_calls p')" for evs p' call
  proof -
    have "call_header call = header_Set ''authorization'' (''Bearer '' @ bd_token parts) Map.empty"
      using panel_steps_ok [OF start(1) that(1)] steps_token [OF that(1)] that(2) start(2)
      by (simp add: panel_ok_def calls_ok_def panel_authorize_def)
    from browser_request_header [OF this] assms(3) access(2,3) show ?thesis
      by (simp add: panel_request_def) (simp add: browser_request_def)
  qed
  with p show ?thesis
    by blast
qed

lemma panel_admitted_witness:
  "\<exists>parts b' p. Build site_env (site_config ''user-1'') site = (Inr parts, b') \<and>
     panel_main True
       (page_token (ps_Body (ServeHTTP (bd_panel parts) \<lparr>pr_Method = ''GET'', pr_Path = ''/'', pr_EscapedPath = ''/''\<rparr>)))
       (bd_origin parts) index_page = Inl p \<and>
     (\<forall>call \<in> set (pn_calls p).
        panel_request (be_parseIP site_env) (bd_authorizer parts) (browser_request ''127.0.0.1:50000'' (bd_origin parts) call))"
proof -
  obtain parts b' where built: "Build site_env (site_config ''user-1'') site = (Inr parts, b')"
    using site_built by (metis prod.collapse)
  have "loopback_address (be_parseIP site_env) ''127.0.0.1:50000''"
  proof -
    have "SplitHostPort ''127.0.0.1:50000'' = Some (''127.0.0.1'', ''50000'')" "Atoi ''50000'' = Some 50000"
      by code_simp+
    then show ?thesis
      by (simp add: loopback_address_def site_env_def IsLoopback_def To4_def)
  qed
  from panel_admitted [OF built index_page_complete this] built show ?thesis
    by (metis panel_steps.simps(1))
qed

end
