(* ===== verification/Spec2Isabelle.thy ===== *)
theory Spec2Isabelle
  imports Engine_Feedback Privacy_Restart Commands Desktop_Panel
begin

text \<open>
  A verification of the proactive interaction engine: a local process that notices that its user came back,
  greets once, waits for a reply, and keeps quiet when it was told to. Observations of sensor workers become semantic
  events, events change one world snapshot, a rule policy decides whether to interact, a planner turns the
  decision into action commands, an embodiment carries them out, and an episode tracker waits for the one
  outcome. The desktop program adds worker processes with permissions, a private transport for them, a control
  service and a panel in the browser.

  \<^bold>\<open>Foundations.\<close> \<^verbatim>\<open>Go_Prelude\<close>, \<^verbatim>\<open>Go_Strings\<close>, \<^verbatim>\<open>Go_Net\<close>, \<^verbatim>\<open>Time_Text\<close> and \<^verbatim>\<open>Json\<close> hold what the sources use of
  Go and of its standard library; \<^verbatim>\<open>Fault\<close> (\<^verbatim>\<open>internal/domain/fault\<close>) and \<^verbatim>\<open>Rpc_Status\<close> the errors. An error is a
  value of \<^verbatim>\<open>goerror\<close>, a result a sum with the error on the left; a nil pointer is \<^verbatim>\<open>None\<close>; an unsigned counter
  that may wrap is a word; instants and durations are integers of nanoseconds; a string is the list of its bytes.

  \<^bold>\<open>The engine.\<close> One theory per package of \<^verbatim>\<open>internal/domain\<close>: \<^verbatim>\<open>Control\<close>, \<^verbatim>\<open>Observation\<close>, \<^verbatim>\<open>Event\<close>, \<^verbatim>\<open>World_State\<close>,
  \<^verbatim>\<open>Decision\<close>, \<^verbatim>\<open>Behavior\<close>, \<^verbatim>\<open>Episode\<close>. \<^verbatim>\<open>Ports\<close> is \<^verbatim>\<open>internal/application/port\<close>: clock, embodiment and audit store as
  operations over an environment. \<^verbatim>\<open>Engine\<close> is \<^verbatim>\<open>internal/application/engine\<close>, with the operations Process, AdvanceAt and
  CommitUserRejection and the windows of \<^verbatim>\<open>reply_window.go\<close>; \<^verbatim>\<open>Engine_Inv\<close> has its invariant, \<^verbatim>\<open>Dispatch\<close> the loop over
  a status stream against its specification, \<^verbatim>\<open>Engine_Audit\<close>, \<^verbatim>\<open>Engine_Props\<close>, \<^verbatim>\<open>Engine_Replies\<close> and \<^verbatim>\<open>Engine_Feedback\<close> the
  properties of its runs. They hold for all behaviours of the ports. \<^verbatim>\<open>Fake_Clock\<close>, \<^verbatim>\<open>Fake_Driver\<close>, \<^verbatim>\<open>Memory_Audit\<close> and
  \<^verbatim>\<open>Simulator\<close> are the ports and scenarios of \<^verbatim>\<open>cmd/simulator\<close>. \<^verbatim>\<open>Runner\<close> is \<^verbatim>\<open>internal/runtime/lifecycle\<close>, the loop
  that is the single writer of the engine; \<^verbatim>\<open>Runner_Engine\<close> shows that what the engine does under it, whatever the
  interleaving, is a sequential run, so that the properties above hold there. \<^verbatim>\<open>Commands\<close> has the programs
  \<^verbatim>\<open>cmd/engine\<close> and \<^verbatim>\<open>cmd/conformance\<close>.

  \<^bold>\<open>Workers and permissions.\<close> \<^verbatim>\<open>Readiness\<close> (\<^verbatim>\<open>internal/application/readiness\<close>), \<^verbatim>\<open>Registry\<close>
  (\<^verbatim>\<open>adapters/capability/registry\<close>) and \<^verbatim>\<open>Ingress_Server\<close> (\<^verbatim>\<open>adapters/input/ingress\<close>) decide which provider may publish
  what; \<^verbatim>\<open>Activation_View\<close> (\<^verbatim>\<open>cmd/desktop/readiness.go\<close>) evaluates the scenario over them. \<^verbatim>\<open>Privacy\<close>
  (\<^verbatim>\<open>internal/application/privacy\<close>), \<^verbatim>\<open>Privacy_Document\<close>, \<^verbatim>\<open>Privacy_File\<close> and \<^verbatim>\<open>Privacy_Restart\<close>
  (\<^verbatim>\<open>adapters/storage/privacyfile\<close>) are the permissions and their file, over a file system with a schedule of faults.
  \<^verbatim>\<open>Supervisor\<close> (\<^verbatim>\<open>adapters/worker/supervisor\<close>) owns the worker processes; \<^verbatim>\<open>Supervisor_World\<close>, \<^verbatim>\<open>Supervisor_System\<close>,
  \<^verbatim>\<open>Supervisor_Order\<close> and \<^verbatim>\<open>Supervisor_Props\<close> run it with the registry, the permissions and a process table.
  \<^verbatim>\<open>Local_Transport\<close> (\<^verbatim>\<open>adapters/transport/localgrpc\<close>) is the private socket, \<^verbatim>\<open>Scenario_Loader\<close>
  (\<^verbatim>\<open>adapters/config/scenario\<close>) the manifest and its hash.

  \<^bold>\<open>The desktop.\<close> \<^verbatim>\<open>Web_Avatar\<close> and \<^verbatim>\<open>Web_Avatar_Props\<close> (\<^verbatim>\<open>adapters/embodiment/webavatar\<close>) are its embodiment,
  \<^verbatim>\<open>Local_Speech\<close> (\<^verbatim>\<open>adapters/model/local\<close>, \<^verbatim>\<open>adapters/tts/speechdispatcher\<close>) its voice. \<^verbatim>\<open>Desktop_Authorizer\<close>,
  \<^verbatim>\<open>Desktop_Mapper\<close>, \<^verbatim>\<open>Desktop_Server\<close> and \<^verbatim>\<open>Desktop_Run\<close> (\<^verbatim>\<open>adapters/ui/desktop\<close>) are the control service;
  \<^verbatim>\<open>Desktop_World\<close> gives it avatar, supervisor and authorizer, \<^verbatim>\<open>Connect_Bridge\<close> (\<^verbatim>\<open>adapters/ui/desktopconnect\<close>) its HTTP
  side, \<^verbatim>\<open>Web_Panel\<close> (\<^verbatim>\<open>adapters/ui/webpanel\<close>) the files of the panel. \<^verbatim>\<open>Presenter\<close> (\<^verbatim>\<open>web/desktop/presenter\<close>),
  \<^verbatim>\<open>Panel_View\<close> and \<^verbatim>\<open>Panel_Client\<close> (\<^verbatim>\<open>web/desktop/cmd/panel\<close>) are what runs in the browser. \<^verbatim>\<open>App_Build\<close> and
  \<^verbatim>\<open>App_Run\<close> (\<^verbatim>\<open>cmd/desktop\<close>) build the process and stop it; \<^verbatim>\<open>Desktop_Panel\<close> closes the circle from the built process
  to the requests of its panel.

  \<^bold>\<open>Correspondence.\<close> A struct is a record with one field per field that the code reads (prefixes keep the names
  apart); a typed string constant is a constructor, with \<^verbatim>\<open>Other\<close> for every other string; a method is a function from the
  record, its arguments and the environment to its results. What runs between two points where another goroutine can
  come in is one step, and a program counter stands where the code can wait; a mutex held over a whole
  operation makes that operation one step. A channel is its buffer. Clock readings, random bytes, context errors and the
  answers of external calls are arguments, or entries of a schedule, at the point of the code where they are met.

  \<^bold>\<open>Interfaces.\<close> Locales state what a client relies on and are interpreted on the model of the provider:
  \<^verbatim>\<open>decision_policy\<close> (the rule policy), \<^verbatim>\<open>completing_driver\<close> (the fake embodiment), \<^verbatim>\<open>audit_trail\<close> (the memory recorder),
  \<^verbatim>\<open>processor_closed\<close> (the engine under the runner), \<^verbatim>\<open>worker_world\<close> (the process table), \<^verbatim>\<open>permission_ports\<close> (the
  supervisor behind the control service), \<^verbatim>\<open>permission_store\<close> and \<^verbatim>\<open>private_file\<close> (the privacy file), \<^verbatim>\<open>worker_bystander\<close> and
  \<^verbatim>\<open>turn_invariant\<close> (what the steps of the supervisor's system keep), \<^verbatim>\<open>io_frame\<close> and \<^verbatim>\<open>reading_frame\<close> (what calls on
  the file system keep).

  \<^bold>\<open>The properties.\<close> Of the engine: the invariant of every run, replies exactly inside the window, expiry, rejection,
  one outcome per plan, and what a failed greeting leaves behind. Of the runner: single writer and an answer for
  everybody. Refinements: the tracker against the abstract episode, the compiler against the raw history, the registry against
  one map. Of the providers: exact evaluation, publication by the lease holder only. Of the supervisor: workers are
  owned, joined, and have their permission. Of the privacy file: atomic replacement and restart. Of the desktop: nobody
  but the panel is served, revisions without gaps or wrapping, watchers and panel are up to date, build, run and stop leave
  nothing behind.

  \<^bold>\<open>Bounds and fuel.\<close> The JSON parser takes fuel linear in the length of its text, which \<^verbatim>\<open>Json\<close> proves to be enough
  for every text that the printer writes; the fake clock's catch-up loop is a \<^verbatim>\<open>partial_function\<close>, proved to return for
  positive intervals; printing a number divides it by ten (a \<^verbatim>\<open>function\<close> with its measure); a status stream is finite because the context of a command has a deadline. Everything
  else is structural recursion. The revisions of the control service are 64-bit words; their property assumes fewer
  than 2^64 operations.

  \<^bold>\<open>Parameters.\<close> Third-party code and the platform are arguments: IP and URI parsing, the YAML decoder, SHA-256, the
  resolution of symbolic links, the validity of protobuf timestamps, \<^verbatim>\<open>status.FromContextError\<close>, the listener, the random source, the
  external speech command, the browser's answers.

  \<^bold>\<open>Not modelled.\<close> Flags, signals and printing in the \<^verbatim>\<open>main\<close> functions of \<^verbatim>\<open>cmd\<close>; \<^verbatim>\<open>exec.go\<close> of supervisor and
  synthesizer, which only start and signal operating-system processes; the system clock; the generated protocol code under
  \<^verbatim>\<open>gen\<close>, which encodes and decodes messages (messages are what its accessors return); the sensor workers in
  Python; the output of the simulator as JSON.
\<close>

end
